(* ===== verification/Prelude.thy ===== *)
theory Prelude
  imports Main "HOL-Library.Word" "HOL-Library.Signed_Division"
begin

text \<open>
  The part of the development every component shares: the widths of the machine types
  of \<^verbatim>\<open>src/src/include/runtime.hpp\<close>, the exceptions of
  \<^verbatim>\<open>src/src/include/exceptions.hpp\<close> as values, the result type of every operation that
  may throw, and generic lemmas on words and lists.

  An \<^verbatim>\<open>assert\<close> of the source that fails is the error \<open>AssertFailed\<close> (what a debug build
  does), and an operation whose behaviour the language leaves undefined (a null or dangling
  dereference, a write past a buffer, an integer division that traps) is the error
  \<open>Undefined\<close>: no model silently computes a value there. \<open>StdException\<close> is an exception of
  the C++ library that is not one of the VM's, and \<open>OutOfFuel\<close> is the value of a recursion
  that was given too small a bound.
\<close>

unbundle bit_operations_syntax

named_theorems res_simps \<open>laws of the result type\<close>
named_theorems word_nat \<open>word operations read as operations on natural numbers\<close>

section \<open>Machine types\<close>

type_synonym byte_t = "8 word"
type_synonym short_word_t = "16 word"
type_synonym word_t = "32 word"
type_synonym big_t = "64 word"
type_synonym rune_t = "32 word"
type_synonym addr = "32 word"

section \<open>Exceptions and results\<close>

datatype vm_exn =
    UserException string
  | SystemException string
  | ModuleException string
  | DivideByZero
  | InvalidUtf8
  | DereferenceNil string
  | TypeViolation
  | OutOfRangeMemory
  | IndexOutOfRange int int int
  | MarshallableUserException string
  | UnhandledUserException "byte_t list" "byte_t list" int
  | TermRequest string
  | StdException string
  | OutOfFuel
  | AssertFailed string
  | Undefined string

type_synonym 'a res = "vm_exn + 'a"

definition rbind :: "'a res \<Rightarrow> ('a \<Rightarrow> 'b res) \<Rightarrow> 'b res" where
  "rbind m k = (case m of Inl e \<Rightarrow> Inl e | Inr x \<Rightarrow> k x)"

definition require :: "bool \<Rightarrow> vm_exn \<Rightarrow> 'a res \<Rightarrow> 'a res" where
  "require b e k = (if b then k else Inl e)"

lemma rbind_simps [simp, res_simps]:
  "rbind (Inl e) k = Inl e" "rbind (Inr x) k = k x"
  by (simp_all add: rbind_def)

lemma require_simps [simp, res_simps]:
  "require True e k = k" "require False e k = Inl e"
  by (simp_all add: require_def)

lemma rbind_eq_Inr [res_simps]:
  "rbind m k = Inr y \<longleftrightarrow> (\<exists>x. m = Inr x \<and> k x = Inr y)"
  by (cases m) simp_all

lemma rbind_eq_Inl [res_simps]:
  "rbind m k = Inl e \<longleftrightarrow> m = Inl e \<or> (\<exists>x. m = Inr x \<and> k x = Inl e)"
  by (cases m) simp_all

lemma require_eq_Inr [res_simps]: "require b e k = Inr y \<longleftrightarrow> b \<and> k = Inr y"
  by (simp add: require_def)

lemma require_eq_Inl [res_simps]:
  "require b e k = Inl e' \<longleftrightarrow> (b \<and> k = Inl e') \<or> (\<not> b \<and> e = e')"
  by (auto simp: require_def)

lemma rbind_assoc: "rbind (rbind m f) g = rbind m (\<lambda>x. rbind (f x) g)"
  by (cases m) simp_all

lemma rbind_cong [fundef_cong]:
  "m = m' \<Longrightarrow> (\<And>x. m' = Inr x \<Longrightarrow> k x = k' x) \<Longrightarrow> rbind m k = rbind m' k'"
  by (cases m') simp_all

section \<open>Words as numbers\<close>

lemma unat_and_mask [word_nat]:
  fixes x :: "'a::len word"
  shows "unat (x AND mask n) = unat x mod 2 ^ n"
  by (metis take_bit_eq_mask take_bit_eq_mod unsigned_take_bit_eq)

lemma and_low_mask [word_nat]:
  "unat ((x :: 'a::len word) AND 0x3f) = unat x mod 64"
  "unat ((x :: 'a::len word) AND 0x7f) = unat x mod 128"
  "unat ((x :: 'a::len word) AND 0xff) = unat x mod 256"
  using unat_and_mask [of x 6] unat_and_mask [of x 7] unat_and_mask [of x 8]
  by (simp_all add: mask_eq_exp_minus_1)

lemma unat_drop_bit_div [word_nat]:
  "unat (drop_bit n (x :: 'a::len word)) = unat x div 2 ^ n"
  by (subst unat_drop_bit_eq) (rule drop_bit_eq_div)

lemma unat_or_push_bit:
  fixes x y :: "'a::len word"
  assumes "unat x < 2 ^ n" and "2 ^ n * unat y < 2 ^ LENGTH('a)"
  shows "unat (x OR push_bit n y) = unat x + 2 ^ n * unat y"
proof -
  have lo: "take_bit n (unat x) = unat x"
    using assms(1) by (simp add: take_bit_nat_eq_self_iff)
  have hi: "unat (push_bit n y) = push_bit n (unat y)"
    using assms(2)
    by (subst unsigned_push_bit_eq) (simp add: take_bit_nat_eq_self_iff push_bit_eq_mult ac_simps)
  have low: "i < n" if "bit (unat x) i" for i
    using that lo by (metis bit_take_bit_iff)
  have "unat x AND push_bit n (unat y) = 0"
    by (rule bit_eqI) (auto simp: bit_and_iff bit_push_bit_iff dest!: low)
  then have "unat x OR push_bit n (unat y) = unat x + push_bit n (unat y)"
    by (simp add: disjunctive_add_eq_or)
  then show ?thesis
    unfolding unsigned_or_eq hi by (simp add: push_bit_eq_mult ac_simps)
qed

lemma unat_ucast_small:
  "unat x < 2 ^ LENGTH('b) \<Longrightarrow> unat (ucast (x :: 'a::len word) :: 'b::len word) = unat x"
  by (simp add: unsigned_ucast_eq take_bit_nat_eq_self_iff)

lemma unat_add_small:
  "unat x + unat y < 2 ^ LENGTH('a) \<Longrightarrow> unat (x + (y :: 'a::len word)) = unat x + unat y"
  by (simp add: unat_word_ariths)

section \<open>Lists\<close>

lemma nth_append_drop: "i < length xs \<Longrightarrow> drop i xs = xs ! i # drop (Suc i) xs"
  by (simp add: Cons_nth_drop_Suc)

end
