(* ===== verification/Buffers.thy ===== *)
theory Buffers
  imports Prelude
begin

text \<open>
  Raw memory as the operations of the VM use it: a buffer is the list of its bytes, an access
  outside it is \<open>Undefined\<close>, and \<open>alloc_memory\<close> of \<^verbatim>\<open>src/src/vm/vm_memory.cpp\<close> gives zeroed
  memory. Words are stored little-endian, as on the 32-bit targets the sources assert. The
  locale \<open>codec\<close> is the contract of a fixed-size element type stored in such a buffer; it is
  interpreted for bytes, words and 64-bit values and carries the laws of element arrays that
  strings, vectors of words and array elements share.
\<close>

section \<open>Access to a buffer\<close>

definition peek :: "nat \<Rightarrow> nat \<Rightarrow> byte_t list \<Rightarrow> byte_t list res" where
  "peek off n b =
     (if off + n \<le> length b then Inr (take n (drop off b)) else Inl (Undefined ''read past the buffer''))"

definition poke :: "nat \<Rightarrow> byte_t list \<Rightarrow> byte_t list \<Rightarrow> byte_t list res" where
  "poke off bs b =
     (if off + length bs \<le> length b then Inr (take off b @ bs @ drop (off + length bs) b)
      else Inl (Undefined ''write past the buffer''))"

definition alloc_memory :: "int \<Rightarrow> byte_t list res" where
  "alloc_memory amount_in_bytes =
     (if amount_in_bytes < 0 then Inl (SystemException ''Out of memory'')
      else Inr (replicate (nat amount_in_bytes) 0))"

lemma poke_ok: "off + length bs \<le> length b \<Longrightarrow> poke off bs b = Inr (take off b @ bs @ drop (off + length bs) b)"
  by (simp add: poke_def)

lemma poke_length: "poke off bs b = Inr b' \<Longrightarrow> length b' = length b \<and> off + length bs \<le> length b"
  by (auto simp: poke_def split: if_splits)

lemma poke_same:
  "poke off bs b = Inr b' \<Longrightarrow> take (length bs) (drop off b') = bs"
  by (auto simp: poke_def split: if_splits)

lemma poke_nth:
  "poke off bs b = Inr b' \<Longrightarrow> i < length b \<Longrightarrow>
     b' ! i = (if off \<le> i \<and> i < off + length bs then bs ! (i - off) else b ! i)"
  by (auto simp: poke_def nth_append min_def split: if_splits)

lemma poke_other:
  assumes "poke off bs b = Inr b'" "i + n \<le> off \<or> off + length bs \<le> i"
  shows "take n (drop i b') = take n (drop i b)"
  using assms poke_length [OF assms(1)]
  by (intro nth_equalityI) (auto simp: poke_nth)

lemma poke_drop: "poke off bs b = Inr b' \<Longrightarrow> off + length bs \<le> j \<Longrightarrow> drop j b' = drop j b"
  by (auto simp: poke_def le_iff_add ac_simps split: if_splits)

section \<open>Little-endian words\<close>

definition bytes16 :: "16 word \<Rightarrow> byte_t list" where
  "bytes16 w = [ucast w, ucast (drop_bit 8 w)]"

definition bytes32 :: "32 word \<Rightarrow> byte_t list" where
  "bytes32 w = [ucast w, ucast (drop_bit 8 w), ucast (drop_bit 16 w), ucast (drop_bit 24 w)]"

definition bytes64 :: "64 word \<Rightarrow> byte_t list" where
  "bytes64 w = bytes32 (ucast w) @ bytes32 (ucast (drop_bit 32 w))"

definition word16 :: "byte_t list \<Rightarrow> 16 word" where
  "word16 b = ucast (b ! 0) OR push_bit 8 (ucast (b ! 1))"

definition word32 :: "byte_t list \<Rightarrow> 32 word" where
  "word32 b = ucast (b ! 0) OR push_bit 8 (ucast (b ! 1)) OR push_bit 16 (ucast (b ! 2))
     OR push_bit 24 (ucast (b ! 3))"

definition word64 :: "byte_t list \<Rightarrow> 64 word" where
  "word64 b = ucast (word32 (take 4 b)) OR push_bit 32 (ucast (word32 (drop 4 b)))"

lemma length_bytes [simp]: "length (bytes16 w) = 2" "length (bytes32 v) = 4" "length (bytes64 x) = 8"
  by (simp_all add: bytes16_def bytes32_def bytes64_def)

lemma word16_bytes16 [simp]: "word16 (bytes16 w) = w"
  by (rule bit_word_eqI) (auto simp: word16_def bytes16_def bit_or_iff bit_push_bit_iff bit_ucast_iff bit_drop_bit_eq)

lemma word32_bytes32 [simp]: "word32 (bytes32 w) = w"
proof (rule bit_word_eqI)
  fix n assume "n < LENGTH(32)"
  then have "n < 32" by simp
  then consider "n < 8" | "8 \<le> n" "n < 16" | "16 \<le> n" "n < 24" | "24 \<le> n" "n < 32" by linarith
  then show "bit (word32 (bytes32 w)) n \<longleftrightarrow> bit w n"
    by cases (auto simp: word32_def bytes32_def bit_or_iff bit_push_bit_iff bit_ucast_iff bit_drop_bit_eq)
qed

lemma word64_bytes64 [simp]: "word64 (bytes64 w) = w"
proof (rule bit_word_eqI)
  fix n assume "n < LENGTH(64)"
  then have "n < 64" by simp
  moreover have "take 4 (bytes64 w) = bytes32 (ucast w)" "drop 4 (bytes64 w) = bytes32 (ucast (drop_bit 32 w))"
    by (simp_all add: bytes64_def)
  ultimately show "bit (word64 (bytes64 w)) n \<longleftrightarrow> bit w n"
    by (auto simp: word64_def bit_or_iff bit_push_bit_iff bit_ucast_iff bit_drop_bit_eq simp del: take_append drop_append)
qed

section \<open>Arrays of fixed-size elements\<close>

definition get_elem :: "(byte_t list \<Rightarrow> 'a) \<Rightarrow> nat \<Rightarrow> nat \<Rightarrow> byte_t list \<Rightarrow> 'a res" where
  "get_elem dec sz i b = rbind (peek (i * sz) sz b) (\<lambda>bs. Inr (dec bs))"

definition put_elem :: "('a \<Rightarrow> byte_t list) \<Rightarrow> nat \<Rightarrow> nat \<Rightarrow> 'a \<Rightarrow> byte_t list \<Rightarrow> byte_t list res" where
  "put_elem enc sz i x b = poke (i * sz) (enc x) b"

definition elems :: "(byte_t list \<Rightarrow> 'a) \<Rightarrow> nat \<Rightarrow> nat \<Rightarrow> byte_t list \<Rightarrow> 'a list" where
  "elems dec sz n b = map (\<lambda>i. dec (take sz (drop (i * sz) b))) [0..<n]"

lemma length_elems [simp]: "length (elems dec sz n b) = n"
  by (simp add: elems_def)

lemma nth_elems [simp]: "i < n \<Longrightarrow> elems dec sz n b ! i = dec (take sz (drop (i * sz) b))"
  by (simp add: elems_def)

lemma elems_take: "k \<le> n \<Longrightarrow> take k (elems dec sz n b) = elems dec sz k b"
  by (simp add: elems_def take_map)

lemma elems_cong: "(\<And>i. i < n \<Longrightarrow> take sz (drop (i * sz) b) = take sz (drop (i * sz) b')) \<Longrightarrow>
    elems dec sz n b = elems dec sz n b'"
  by (simp add: elems_def)

locale codec =
  fixes enc :: "'a \<Rightarrow> byte_t list" and dec :: "byte_t list \<Rightarrow> 'a" and sz :: nat
  assumes enc_length: "length (enc x) = sz"
    and dec_enc: "dec (enc x) = x"
begin

lemma get_ok: "i < n \<Longrightarrow> n * sz \<le> length b \<Longrightarrow> get_elem dec sz i b = Inr (elems dec sz n b ! i)"
proof -
  assume a: "i < n" "n * sz \<le> length b"
  then have "Suc i * sz \<le> n * sz" by (intro mult_le_mono1) simp
  with a have "i * sz + sz \<le> length b" by simp
  with a show ?thesis by (simp add: get_elem_def peek_def)
qed

lemma put_ok:
  assumes "i < n" "n * sz \<le> length b"
  obtains b' where "put_elem enc sz i x b = Inr b'"
proof -
  have "Suc i * sz \<le> n * sz" using assms by (intro mult_le_mono1) simp
  with assms have "i * sz + length (enc x) \<le> length b" by (simp add: enc_length)
  with that show thesis by (simp add: put_elem_def poke_def)
qed

lemma put_length: "put_elem enc sz i x b = Inr b' \<Longrightarrow> length b' = length b"
  by (auto simp: put_elem_def dest: poke_length)

lemma elems_put:
  assumes p: "put_elem enc sz i x b = Inr b'"
  shows "elems dec sz n b' = (if i < n then (elems dec sz n b)[i := x] else elems dec sz n b)"
proof (rule nth_equalityI)
  fix j assume "j < length (elems dec sz n b')"
  then have j: "j < n" by simp
  have "take sz (drop (j * sz) b') = take sz (drop (j * sz) b)" if "j \<noteq> i"
  proof -
    from that have "Suc j \<le> i \<or> Suc i \<le> j" by arith
    then have "Suc j * sz \<le> i * sz \<or> Suc i * sz \<le> j * sz" by (meson mult_le_mono1)
    then show ?thesis using p by (intro poke_other) (auto simp: put_elem_def enc_length)
  qed
  moreover have "take sz (drop (i * sz) b') = enc x"
    using poke_same p enc_length by (metis put_elem_def)
  ultimately show "elems dec sz n b' ! j = (if i < n then (elems dec sz n b)[i := x] else elems dec sz n b) ! j"
    using j by (auto simp: nth_list_update dec_enc)
qed simp

end

interpretation byte_codec: codec "\<lambda>b. [b]" "\<lambda>bs. bs ! 0" 1
  by unfold_locales simp_all

interpretation word_codec: codec bytes32 word32 4
  by unfold_locales simp_all

interpretation big_codec: codec bytes64 word64 8
  by unfold_locales simp_all

lemma elems_bytes: "n \<le> length b \<Longrightarrow> elems (\<lambda>bs. bs ! 0) 1 n b = take n b"
  by (rule nth_equalityI) (auto simp: hd_drop_conv_nth take_Suc hd_conv_nth [symmetric])

end
