(* ===== verification/Utf8.thy ===== *)
theory Utf8
  imports Prelude
begin

text \<open>
  \<^verbatim>\<open>src/src/vm/utf8.cpp\<close>: the table-driven UTF-8 decoder, the scan that counts code
  points, the decoder of one code point and the encoder. A buffer is a list of bytes; reading
  past its end is \<open>Undefined\<close>. The lemmas determine the automaton of the table, show that
  decoder and encoder are inverse on the Unicode scalar values other than NUL, and give
  exactly what \<open>count_codepoints\<close> reports.
\<close>

section \<open>The decoder\<close>

definition utf8d :: "nat list" where
  "utf8d = [
    0, 0, 0, 0, 0, 0, 0, 0, 0, 0, 0, 0, 0, 0, 0, 0, 0, 0, 0, 0, 0, 0, 0, 0, 0, 0, 0, 0, 0, 0, 0, 0,
    0, 0, 0, 0, 0, 0, 0, 0, 0, 0, 0, 0, 0, 0, 0, 0, 0, 0, 0, 0, 0, 0, 0, 0, 0, 0, 0, 0, 0, 0, 0, 0,
    0, 0, 0, 0, 0, 0, 0, 0, 0, 0, 0, 0, 0, 0, 0, 0, 0, 0, 0, 0, 0, 0, 0, 0, 0, 0, 0, 0, 0, 0, 0, 0,
    0, 0, 0, 0, 0, 0, 0, 0, 0, 0, 0, 0, 0, 0, 0, 0, 0, 0, 0, 0, 0, 0, 0, 0, 0, 0, 0, 0, 0, 0, 0, 0,
    1, 1, 1, 1, 1, 1, 1, 1, 1, 1, 1, 1, 1, 1, 1, 1, 9, 9, 9, 9, 9, 9, 9, 9, 9, 9, 9, 9, 9, 9, 9, 9,
    7, 7, 7, 7, 7, 7, 7, 7, 7, 7, 7, 7, 7, 7, 7, 7, 7, 7, 7, 7, 7, 7, 7, 7, 7, 7, 7, 7, 7, 7, 7, 7,
    8, 8, 2, 2, 2, 2, 2, 2, 2, 2, 2, 2, 2, 2, 2, 2, 2, 2, 2, 2, 2, 2, 2, 2, 2, 2, 2, 2, 2, 2, 2, 2,
    10, 3, 3, 3, 3, 3, 3, 3, 3, 3, 3, 3, 3, 4, 3, 3, 11, 6, 6, 6, 5, 8, 8, 8, 8, 8, 8, 8, 8, 8, 8, 8,
    0, 12, 24, 36, 60, 96, 84, 12, 12, 12, 48, 72, 12, 12, 12, 12, 12, 12, 12, 12, 12, 12, 12, 12,
    12, 0, 12, 12, 12, 12, 12, 0, 12, 0, 12, 12, 12, 24, 12, 12, 12, 12, 12, 24, 12, 24, 12, 12,
    12, 12, 12, 12, 12, 12, 12, 24, 12, 12, 12, 12, 12, 24, 12, 12, 12, 12, 12, 12, 12, 24, 12, 12,
    12, 12, 12, 12, 12, 12, 12, 36, 12, 36, 12, 12, 12, 36, 12, 12, 12, 12, 12, 36, 12, 36, 12, 12,
    12, 36, 12, 12, 12, 12, 12, 12, 12, 12, 12, 12]"

definition accept :: nat where "accept = 0"

definition reject :: nat where "reject = 12"

definition decode_step :: "nat \<Rightarrow> rune_t \<Rightarrow> byte_t \<Rightarrow> nat \<times> rune_t" where
  "decode_step state codepoint byte =
     (let type = utf8d ! unat byte;
          codepoint' =
            (if state \<noteq> accept
             then (ucast byte AND 0x3f) OR push_bit 6 codepoint
             else drop_bit type 0xff AND ucast byte)
      in (utf8d ! (256 + state + type), codepoint'))"

fun count_loop :: "nat \<Rightarrow> rune_t \<Rightarrow> nat \<Rightarrow> nat \<Rightarrow> nat \<Rightarrow> byte_t list \<Rightarrow> nat \<times> nat" where
  "count_loop state c lst points cur [] = (points, lst)"
| "count_loop state c lst points cur (b # bs) =
     (case decode_step state c b of (state', c') \<Rightarrow>
        if state' = accept then count_loop state' c' cur (points + 1) (cur + 1) bs
        else count_loop state' c' lst points (cur + 1) bs)"

definition count_codepoints :: "byte_t list option \<Rightarrow> nat \<times> nat" where
  "count_codepoints str =
     (case str of None \<Rightarrow> (0, 0)
      | Some s \<Rightarrow> (case count_loop accept 0 0 0 0 s of (points, lst) \<Rightarrow> (points, lst + 1)))"

fun decode_loop :: "nat \<Rightarrow> rune_t \<Rightarrow> nat \<Rightarrow> byte_t list \<Rightarrow> (nat \<times> rune_t) res" where
  "decode_loop state c n [] = Inl (Undefined ''utf8::decode: read past the buffer'')"
| "decode_loop state c n (b # bs) =
     (if b = 0 then (if n = 0 then Inr (0, c) else Inl InvalidUtf8)
      else (case decode_step state c b of (state', c') \<Rightarrow>
              if state' = accept then Inr (n + 1, c') else decode_loop state' c' (n + 1) bs))"

definition decode :: "byte_t list \<Rightarrow> (nat \<times> rune_t) res" where
  "decode str = decode_loop accept 0 0 str"

section \<open>The encoder\<close>

definition max_codepoint_ascii :: rune_t where "max_codepoint_ascii = 0x7f"
definition max_codepoint_2_byte :: rune_t where "max_codepoint_2_byte = 0x7ff"
definition max_codepoint_3_byte :: rune_t where "max_codepoint_3_byte = 0xffff"
definition max_codepoint_4_byte :: rune_t where "max_codepoint_4_byte = 0x10ffff"
definition max_supported_codepoint :: rune_t where "max_supported_codepoint = max_codepoint_4_byte"
definition multi_byte_value_mask :: rune_t where "multi_byte_value_mask = 0x3f"

definition encode :: "rune_t \<Rightarrow> byte_t list res" where
  "encode rune =
     (if rune \<le> max_codepoint_ascii then Inr [ucast rune]
      else if rune \<le> max_codepoint_2_byte then
        Inr [ucast (0xc0 + drop_bit 6 rune), ucast (0x80 + (rune AND multi_byte_value_mask))]
      else if rune \<le> max_codepoint_3_byte then
        Inr [ucast (0xe0 + drop_bit 12 rune),
             ucast (0x80 + (drop_bit 6 rune AND multi_byte_value_mask)),
             ucast (0x80 + (rune AND multi_byte_value_mask))]
      else if rune \<le> max_codepoint_4_byte then
        Inr [ucast (0xf0 + drop_bit 18 rune),
             ucast (0x80 + (drop_bit 12 rune AND multi_byte_value_mask)),
             ucast (0x80 + (drop_bit 6 rune AND multi_byte_value_mask)),
             ucast (0x80 + (rune AND multi_byte_value_mask))]
      else Inl (AssertFailed ''Unsupported UTF-8 character''))"

text \<open>The Unicode scalar values of RFC 3629, and a buffer that is a sequence of their encodings.\<close>

definition scalar :: "rune_t \<Rightarrow> bool" where
  "scalar r \<longleftrightarrow> unat r < 0xd800 \<or> (0xe000 \<le> unat r \<and> unat r \<le> 0x10ffff)"

fun encode_all :: "rune_t list \<Rightarrow> byte_t list res" where
  "encode_all [] = Inr []"
| "encode_all (r # rs) = rbind (encode r) (\<lambda>bs. rbind (encode_all rs) (\<lambda>cs. Inr (bs @ cs)))"

section \<open>The automaton of the table\<close>

definition class_of :: "nat \<Rightarrow> nat" where
  "class_of b = (if b < 0x80 then 0 else if b < 0x90 then 1 else if b < 0xa0 then 9
     else if b < 0xc0 then 7 else if b < 0xc2 then 8 else if b < 0xe0 then 2 else if b < 0xe1 then 10
     else if b < 0xed then 3 else if b < 0xee then 4 else if b < 0xf0 then 3 else if b < 0xf1 then 11
     else if b < 0xf4 then 6 else if b < 0xf5 then 5 else 8)"

definition class_table :: "(nat \<times> nat) list" where
  "class_table = [(128, 0), (16, 1), (16, 9), (32, 7), (2, 8), (30, 2), (1, 10), (12, 3), (1, 4), (2, 3),
     (1, 11), (3, 6), (1, 5), (11, 8)]"

lemma classes: "take 256 utf8d = concat (map (\<lambda>(n, c). replicate n c) class_table)"
  by code_simp

lemma nth_seg: "(replicate n c @ ys) ! b = (if b < n then c else ys ! (b - n))"
  by (simp add: nth_append)

lemma nth_classes: "b < 256 \<Longrightarrow> concat (map (\<lambda>(n, c). replicate n c) class_table) ! b = class_of b"
  unfolding class_table_def list.map prod.case concat.simps nth_seg class_of_def
  by (cases "b < 0x80", simp add: less_diff_conv2 not_less,
      cases "b < 0x90", simp add: less_diff_conv2 not_less,
      cases "b < 0xa0", simp add: less_diff_conv2 not_less,
      cases "b < 0xc0", simp add: less_diff_conv2 not_less,
      cases "b < 0xc2", simp add: less_diff_conv2 not_less,
      cases "b < 0xe0", simp add: less_diff_conv2 not_less,
      cases "b < 0xe1", simp add: less_diff_conv2 not_less,
      cases "b < 0xed", simp add: less_diff_conv2 not_less,
      cases "b < 0xee", simp add: less_diff_conv2 not_less,
      cases "b < 0xf0", simp add: less_diff_conv2 not_less,
      cases "b < 0xf1", simp add: less_diff_conv2 not_less,
      cases "b < 0xf4", simp add: less_diff_conv2 not_less,
      cases "b < 0xf5", simp add: less_diff_conv2 not_less,
      simp add: less_diff_conv2 not_less)

lemma utf8d_class: "b < 256 \<Longrightarrow> utf8d ! b = class_of b"
  using nth_classes [of b] unfolding classes [symmetric] by simp

definition next_class :: "nat \<Rightarrow> nat \<Rightarrow> nat" where
  "next_class s t =
     (if s = 0 then [0, 12, 24, 36, 60, 96, 84, 12, 12, 12, 48, 72] ! t
      else if s = 24 then (if t \<in> {1, 7, 9} then 0 else 12)
      else if s = 36 then (if t \<in> {1, 7, 9} then 24 else 12)
      else if s = 48 then (if t = 7 then 24 else 12)
      else if s = 60 then (if t \<in> {1, 9} then 24 else 12)
      else if s = 72 then (if t \<in> {7, 9} then 36 else 12)
      else if s = 84 then (if t \<in> {1, 7, 9} then 36 else 12)
      else if s = 96 then (if t = 1 then 36 else 12)
      else 12)"

lemma next_class_all:
  "list_all (\<lambda>s. list_all (\<lambda>t. utf8d ! (256 + s + t) = next_class s t) [0..<12])
     [0, 12, 24, 36, 48, 60, 72, 84, 96]"
  by code_simp

lemma unat_byte: "unat (b :: byte_t) < 256"
  using unsigned_less [of b] by simp

lemma class_less: "class_of b < 12"
  by (simp add: class_of_def)

lemma next_class_nth:
  assumes "s \<in> set [0, 12, 24, 36, 48, 60, 72, 84, 96]" "t < 12"
  shows "utf8d ! (256 + s + t) = next_class s t"
proof -
  have "\<forall>s\<in>set [0, 12, 24, 36, 48, 60, 72, 84, 96]. \<forall>t\<in>set [0..<12].
          utf8d ! (256 + s + t) = next_class s t"
    using next_class_all unfolding list_all_iff .
  with assms show ?thesis by (metis atLeastLessThan_iff set_upt zero_le)
qed

lemma decode_step_state:
  assumes "s \<in> set [0, 12, 24, 36, 48, 60, 72, 84, 96]"
  shows "fst (decode_step s c b) = next_class s (class_of (unat b))"
  using next_class_nth [OF assms class_less [of "unat b"]]
  by (simp add: decode_step_def Let_def utf8d_class unat_byte)

definition next_byte :: "nat \<Rightarrow> nat \<Rightarrow> nat" where
  "next_byte s b =
     (if s = 0 then (if b < 0x80 then 0 else if b < 0xc2 then 12 else if b < 0xe0 then 24
        else if b = 0xe0 then 48 else if b = 0xed then 60 else if b < 0xf0 then 36
        else if b = 0xf0 then 72 else if b < 0xf4 then 84 else if b = 0xf4 then 96 else 12)
      else if s = 24 then (if 0x80 \<le> b \<and> b < 0xc0 then 0 else 12)
      else if s = 36 then (if 0x80 \<le> b \<and> b < 0xc0 then 24 else 12)
      else if s = 48 then (if 0xa0 \<le> b \<and> b < 0xc0 then 24 else 12)
      else if s = 60 then (if 0x80 \<le> b \<and> b < 0xa0 then 24 else 12)
      else if s = 72 then (if 0x90 \<le> b \<and> b < 0xc0 then 36 else 12)
      else if s = 84 then (if 0x80 \<le> b \<and> b < 0xc0 then 36 else 12)
      else if s = 96 then (if 0x80 \<le> b \<and> b < 0x90 then 36 else 12)
      else 12)"

lemma class_ranges:
  "class_of b = 0 \<longleftrightarrow> b < 0x80" "class_of b = 1 \<longleftrightarrow> 0x80 \<le> b \<and> b < 0x90" "class_of b = 9 \<longleftrightarrow> 0x90 \<le> b \<and> b < 0xa0"
  "class_of b = 7 \<longleftrightarrow> 0xa0 \<le> b \<and> b < 0xc0"
  by (simp_all add: class_of_def)

lemma next_byte_class_0: "next_class 0 (class_of b) = next_byte 0 b"
  unfolding class_of_def next_class_def next_byte_def
  by (cases "b < 0x80", simp,
      cases "b < 0x90", simp,
      cases "b < 0xa0", simp,
      cases "b < 0xc0", simp,
      cases "b < 0xc2", simp,
      cases "b < 0xe0", simp,
      cases "b < 0xe1", simp,
      cases "b < 0xed", simp,
      cases "b < 0xee", simp,
      cases "b < 0xf0", simp,
      cases "b < 0xf1", simp,
      cases "b < 0xf4", simp,
      cases "b < 0xf5", simp,
      simp)

lemma class_conts:
  "class_of b \<in> {1, 7, 9} \<longleftrightarrow> 0x80 \<le> b \<and> b < 0xc0" "class_of b \<in> {1, 9} \<longleftrightarrow> 0x80 \<le> b \<and> b < 0xa0"
  "class_of b \<in> {7, 9} \<longleftrightarrow> 0x90 \<le> b \<and> b < 0xc0"
  using class_ranges [of b] by auto

lemma next_byte_class:
  "s \<in> set [0, 12, 24, 36, 48, 60, 72, 84, 96] \<Longrightarrow> next_class s (class_of b) = next_byte s b"
proof -
  assume "s \<in> set [0, 12, 24, 36, 48, 60, 72, 84, 96]"
  then consider "s = 0" | "s \<in> {12, 24, 36, 48, 60, 72, 84, 96}" by auto
  then show ?thesis
  proof cases
    case 1
    then show ?thesis by (simp only: next_byte_class_0)
  next
    case 2
    then show ?thesis
      unfolding next_class_def next_byte_def class_conts class_ranges by (elim insertE emptyE; hypsubst; simp)
  qed
qed
lemma cont_code:
  assumes "s \<noteq> 0" "unat c < 2 ^ 26"
  shows "unat (snd (decode_step s c b)) = unat b mod 64 + 64 * unat c"
proof -
  have "unat ((ucast b AND 0x3f) OR push_bit 6 c) = unat (ucast b AND (0x3f :: rune_t)) + 2 ^ 6 * unat c"
    by (rule unat_or_push_bit) (use assms in \<open>simp_all add: and_low_mask\<close>)
  also have "unat (ucast b AND (0x3f :: rune_t)) = unat b mod 64"
    using unat_byte [of b] by (simp add: and_low_mask unat_ucast_small)
  finally show ?thesis
    using assms(1) by (simp add: decode_step_def accept_def Let_def)
qed

lemma lead_code:
  "snd (decode_step 0 c b) = drop_bit (class_of (unat b)) 0xff AND ucast b"
  by (simp add: decode_step_def accept_def Let_def utf8d_class unat_byte)

lemma lead_masks:
  "drop_bit 0 (0xff::rune_t) = 0xff" "drop_bit 2 (0xff::rune_t) = mask 6" "drop_bit 3 (0xff::rune_t) = mask 5"
  "drop_bit 4 (0xff::rune_t) = mask 4" "drop_bit 5 (0xff::rune_t) = mask 3" "drop_bit 6 (0xff::rune_t) = mask 2"
  "drop_bit 10 (0xff::rune_t) = 0" "drop_bit 11 (0xff::rune_t) = 0"
  by (simp_all add: mask_eq_exp_minus_1)

lemma mod_block: "c \<le> n \<Longrightarrow> n < c + k \<Longrightarrow> k dvd c \<Longrightarrow> n mod k = n - (c::nat)"
  by (rule mod_nat_eqI) auto

lemma lead_mask_nat:
  "drop_bit (class_of (unat b)) (0xff::rune_t) = mask k \<Longrightarrow> unat (snd (decode_step 0 c b)) = unat b mod 2 ^ k"
proof -
  assume a: "drop_bit (class_of (unat b)) (0xff::rune_t) = mask k"
  have u: "unat (ucast b :: rune_t) = unat b"
    using unat_byte [of b] by (simp add: unat_ucast_small)
  show ?thesis
    unfolding lead_code a and.commute [of "mask k"] unat_and_mask u ..
qed

lemma lead_code_ascii: "unat b < 0x80 \<Longrightarrow> unat (snd (decode_step 0 c b)) = unat b"
  using lead_mask_nat [where b = b and k = 8] by (simp add: class_of_def mask_eq_exp_minus_1)

lemma lead_code_2: "0xc2 \<le> unat b \<Longrightarrow> unat b < 0xe0 \<Longrightarrow> unat (snd (decode_step 0 c b)) = unat b - 0xc0"
proof -
  assume a: "0xc2 \<le> unat b" "unat b < 0xe0"
  then have "class_of (unat b) = 2" by (simp add: class_of_def)
  with lead_mask_nat [where b = b and c = c and k = 6] mod_block [where c = "0xc0" and n = "unat b" and k = 64] a show ?thesis
    by (simp add: lead_masks mask_eq_exp_minus_1)
qed

lemma lead_code_3: "0xe0 \<le> unat b \<Longrightarrow> unat b < 0xf0 \<Longrightarrow> unat (snd (decode_step 0 c b)) = unat b - 0xe0"
proof -
  assume a: "0xe0 \<le> unat b" "unat b < 0xf0"
  then have "class_of (unat b) = 3 \<or> class_of (unat b) = 4 \<or> (class_of (unat b) = 10 \<and> unat b = 0xe0)"
    by (auto simp: class_of_def)
  then show ?thesis
    using lead_mask_nat [where b = b and c = c and k = 5] lead_mask_nat [where b = b and c = c and k = 4] lead_mask_nat [where b = b and c = c and k = 0] a
      mod_block [where c = "0xe0" and n = "unat b" and k = 32] mod_block [where c = "0xe0" and n = "unat b" and k = 16]
    by (elim disjE conjE) (simp_all add: lead_masks mask_eq_exp_minus_1)
qed

lemma lead_code_4: "0xf0 \<le> unat b \<Longrightarrow> unat b < 0xf5 \<Longrightarrow> unat (snd (decode_step 0 c b)) = unat b - 0xf0"
proof -
  assume a: "0xf0 \<le> unat b" "unat b < 0xf5"
  then have "class_of (unat b) = 5 \<or> (class_of (unat b) = 6 \<and> unat b < 0xf4)
      \<or> (class_of (unat b) = 11 \<and> unat b = 0xf0)"
    by (auto simp: class_of_def)
  then show ?thesis
    using lead_mask_nat [where b = b and c = c and k = 3] lead_mask_nat [where b = b and c = c and k = 2] lead_mask_nat [where b = b and c = c and k = 0] a
      mod_block [where c = "0xf0" and n = "unat b" and k = 8] mod_block [where c = "0xf0" and n = "unat b" and k = 4]
    by (elim disjE conjE) (simp_all add: lead_masks mask_eq_exp_minus_1)
qed

fun seq_nat :: "nat list \<Rightarrow> nat \<Rightarrow> bool" where
  "seq_nat [a] r \<longleftrightarrow> 0 < a \<and> a < 0x80 \<and> r = a"
| "seq_nat [a, b] r \<longleftrightarrow> 0xc2 \<le> a \<and> a < 0xe0 \<and> 0x80 \<le> b \<and> b < 0xc0 \<and> r = 64 * (a - 0xc0) + (b - 0x80)"
| "seq_nat [a, b, c] r \<longleftrightarrow>
     0xe0 \<le> a \<and> a < 0xf0 \<and> (if a = 0xe0 then 0xa0 else 0x80) \<le> b
     \<and> b < (if a = 0xed then 0xa0 else 0xc0) \<and> 0x80 \<le> c \<and> c < 0xc0
     \<and> r = 4096 * (a - 0xe0) + 64 * (b - 0x80) + (c - 0x80)"
| "seq_nat [a, b, c, d] r \<longleftrightarrow>
     0xf0 \<le> a \<and> a < 0xf5 \<and> (if a = 0xf0 then 0x90 else 0x80) \<le> b
     \<and> b < (if a = 0xf4 then 0x90 else 0xc0) \<and> 0x80 \<le> c \<and> c < 0xc0 \<and> 0x80 \<le> d \<and> d < 0xc0
     \<and> r = 262144 * (a - 0xf0) + 4096 * (b - 0x80) + 64 * (c - 0x80) + (d - 0x80)"
| "seq_nat _ r \<longleftrightarrow> False"

definition enc_nat :: "nat \<Rightarrow> nat list" where
  "enc_nat r =
     (if r < 0x80 then [r]
      else if r < 0x800 then [0xc0 + r div 64, 0x80 + r mod 64]
      else if r < 0x10000 then [0xe0 + r div 4096, 0x80 + r div 64 mod 64, 0x80 + r mod 64]
      else [0xf0 + r div 262144, 0x80 + r div 4096 mod 64, 0x80 + r div 64 mod 64, 0x80 + r mod 64])"

lemma div_mod_64: "u < 64 \<Longrightarrow> (64 * q + u) mod 64 = u \<and> (64 * q + u) div 64 = (q::nat)"
  by simp

lemma digits64:
  fixes z :: nat
  assumes b: "u < 64" "v < 64" "w < (64::nat)" and r: "r = 262144 * z + 4096 * w + 64 * v + u"
  shows "r mod 64 = u" "r div 64 mod 64 = v" "r div 4096 mod 64 = w" "r div 262144 = z"
    "r div 64 = 4096 * z + 64 * w + v" "r div 4096 = 64 * z + w"
proof -
  have x: "r = 64 * (64 * (64 * z + w) + v) + u" unfolding r by simp
  have 1: "r div 64 = 64 * (64 * z + w) + v" "r mod 64 = u"
    using div_mod_64 [OF b(1)] unfolding x by blast+
  have 2: "(64 * (64 * z + w) + v) div 64 = 64 * z + w" "(64 * (64 * z + w) + v) mod 64 = v"
    using div_mod_64 [OF b(2)] by blast+
  have 3: "(64 * z + w) div 64 = z" "(64 * z + w) mod 64 = w"
    using div_mod_64 [OF b(3)] by blast+
  have 4: "r div 4096 = r div 64 div 64" "r div 262144 = r div 64 div 64 div 64"
    by (simp_all add: div_mult2_eq [symmetric])
  show "r mod 64 = u" "r div 64 mod 64 = v" "r div 4096 mod 64 = w" "r div 262144 = z"
    "r div 4096 = 64 * z + w"
    unfolding 4 1 2 3 by (rule refl)+
  show "r div 64 = 4096 * z + 64 * w + v" unfolding 1 by simp
qed

lemma digits64_ex:
  obtains z w v u where "(r::nat) = 262144 * z + 4096 * w + 64 * v + u" "u < 64" "v < 64" "w < 64"
proof -
  obtain q u where 1: "r = 64 * q + u" "u < 64" by (metis mod_less_divisor mult_div_mod_eq zero_less_numeral)
  obtain q' v where 2: "q = 64 * q' + v" "v < 64" by (metis mod_less_divisor mult_div_mod_eq zero_less_numeral)
  obtain z w where 3: "q' = 64 * z + w" "w < 64" by (metis mod_less_divisor mult_div_mod_eq zero_less_numeral)
  show thesis by (rule that [of z w v u]) (use 1 2 3 in simp_all)
qed

lemma enc_nat_digits:
  assumes "u < 64" "v < 64" "w < 64" and r: "r = 262144 * z + 4096 * w + 64 * v + u"
  shows "enc_nat r = (if r < 0x80 then [r] else if r < 0x800 then [0xc0 + (4096 * z + 64 * w + v), 0x80 + u]
      else if r < 0x10000 then [0xe0 + (64 * z + w), 0x80 + v, 0x80 + u]
      else [0xf0 + z, 0x80 + w, 0x80 + v, 0x80 + u])"
  unfolding enc_nat_def digits64(1-4) [OF assms] unfolding digits64(5,6) [OF assms] ..

lemma enc_nat_seq:
  assumes "0 < r" "r < 0xd800 \<or> (0xe000 \<le> r \<and> r \<le> 0x10ffff)"
  shows "seq_nat (enc_nat r) r"
proof -
  obtain z w v u where r: "r = 262144 * z + 4096 * w + 64 * v + u" and b: "u < 64" "v < 64" "w < 64"
    by (rule digits64_ex)
  consider "r < 0x80" | "0x80 \<le> r" "r < 0x800" | "0x800 \<le> r" "r < 0x10000" | "0x10000 \<le> r" by linarith
  then show ?thesis
  proof cases
    case 1 then show ?thesis using assms by (simp add: enc_nat_def)
  next
    case 2 
    then have "z = 0" "w = 0" using r by linarith+
    with 2 b r show ?thesis unfolding enc_nat_digits [OF b r] by (simp; linarith)
  next
    case 3
    then have "z = 0" using r by linarith
    with 3 b r assms show ?thesis unfolding enc_nat_digits [OF b r] by (simp; linarith)
  next
    case 4
    with b r assms show ?thesis unfolding enc_nat_digits [OF b r] by (simp; linarith)
  qed
qed

lemma le_addE: assumes "(c::nat) \<le> a" obtains x where "a = c + x" "a - c = x"
  using assms le_Suc_ex by fastforce

lemma seq_enc_nat:
  "seq_nat ns r \<Longrightarrow> enc_nat r = ns \<and> 0 < r \<and> (r < 0xd800 \<or> (0xe000 \<le> r \<and> r \<le> 0x10ffff))"
proof (induction ns r rule: seq_nat.induct)
  case (2 a b r)
  then have *: "0xc0 \<le> a" "0x80 \<le> b" by auto
  obtain x u where e: "a = 0xc0 + x" "b = 0x80 + u"
    using * by (metis le_addE)
  with 2 have r: "r = 262144 * 0 + 4096 * 0 + 64 * x + u" and bd: "u < 64" "x < 64" "0 < (64::nat)"
    by auto
  show ?case using 2 unfolding enc_nat_digits [OF bd r] unfolding e by auto
next
  case (3 a b c r)
  then have *: "0xe0 \<le> a" "0x80 \<le> b" "0x80 \<le> c" by (auto split: if_splits)
  obtain x u v where e: "a = 0xe0 + x" "b = 0x80 + u" "c = 0x80 + v"
    using * by (metis le_addE)
  with 3 have r: "r = 262144 * 0 + 4096 * x + 64 * u + v" and bd: "v < 64" "u < 64" "x < 64"
    by (auto split: if_splits)
  show ?case using 3 unfolding enc_nat_digits [OF bd r] unfolding e by (auto split: if_splits)
next
  case (4 a b c d r)
  then have *: "0xf0 \<le> a" "0x80 \<le> b" "0x80 \<le> c" "0x80 \<le> d" by (auto split: if_splits)
  obtain x u v w where e: "a = 0xf0 + x" "b = 0x80 + u" "c = 0x80 + v" "d = 0x80 + w"
    using * by (metis le_addE)
  with 4 have r: "r = 262144 * x + 4096 * u + 64 * v + w" and bd: "w < 64" "v < 64" "u < 64"
    by (auto split: if_splits)
  show ?case using 4 unfolding enc_nat_digits [OF bd r] unfolding e by (auto split: if_splits)
qed (simp_all add: enc_nat_def)

lemmas codepoint_defs = max_codepoint_ascii_def max_codepoint_2_byte_def max_codepoint_3_byte_def
  max_codepoint_4_byte_def max_supported_codepoint_def multi_byte_value_mask_def

lemma encode_ok_iff: "(\<exists>e. encode r = Inr e) \<longleftrightarrow> unat r \<le> 0x10ffff"
  by (auto simp: encode_def codepoint_defs word_le_nat_alt)

lemma byte_of_small: "unat (x :: rune_t) < 256 \<Longrightarrow> unat (ucast x :: byte_t) = unat x"
  by (simp add: unat_ucast_small)

lemma lead_byte:
  assumes "c + unat (drop_bit n r) < 256" "c = unat k"
  shows "unat (ucast ((k :: rune_t) + drop_bit n r) :: byte_t) = c + unat r div 2 ^ n"
proof -
  have "unat (k + drop_bit n r) = c + unat r div 2 ^ n"
    using assms by (subst unat_add_small) (simp_all add: unat_drop_bit_div)
  then show ?thesis using assms by (subst byte_of_small) (simp_all add: unat_drop_bit_div)
qed

lemma cont_byte: "unat (ucast (0x80 + (x AND 0x3f) :: rune_t) :: byte_t) = 0x80 + unat x mod 64"
proof -
  have m: "unat x mod 64 < 64" by simp
  have "unat (0x80 + (x AND 0x3f)) = 0x80 + unat x mod 64"
    using m by (subst unat_add_small) (simp_all only: and_low_mask, simp_all)
  then show ?thesis using m by (subst byte_of_small) simp_all
qed

lemma encode_nat:
  assumes "encode r = Inr e"
  shows "map unat e = enc_nat (unat r)"
proof -
  have le: "unat r \<le> 0x10ffff" using assms encode_ok_iff by blast
  have d: "unat (drop_bit k r) = unat r div 2 ^ k" for k by (rule unat_drop_bit_div)
  consider "unat r < 0x80" | "0x80 \<le> unat r" "unat r < 0x800" | "0x800 \<le> unat r" "unat r < 0x10000"
    | "0x10000 \<le> unat r" by linarith
  then show ?thesis
  proof cases
    case 1
    then show ?thesis
      using assms by (auto simp: encode_def codepoint_defs word_le_nat_alt enc_nat_def byte_of_small)
  next
    case 2
    then have e: "e = [ucast (0xc0 + drop_bit 6 r), ucast (0x80 + (r AND 0x3f))]"
      using assms by (simp add: encode_def codepoint_defs word_le_nat_alt)
    have "unat r div 2 ^ 6 < 32" using 2 by (simp add: div_less_iff_less_mult)
    then have "unat (ucast (0xc0 + drop_bit 6 r) :: byte_t) = 0xc0 + unat r div 2 ^ 6"
      by (intro lead_byte) (simp_all only: d, simp_all)
    with 2 show ?thesis unfolding e list.map cont_byte d enc_nat_def by simp
  next
    case 3
    then have e: "e = [ucast (0xe0 + drop_bit 12 r), ucast (0x80 + (drop_bit 6 r AND 0x3f)), ucast (0x80 + (r AND 0x3f))]"
      using assms by (simp add: encode_def codepoint_defs word_le_nat_alt)
    have "unat r div 2 ^ 12 < 16" using 3 by (simp add: div_less_iff_less_mult)
    then have "unat (ucast (0xe0 + drop_bit 12 r) :: byte_t) = 0xe0 + unat r div 2 ^ 12"
      by (intro lead_byte) (simp_all only: d, simp_all)
    with 3 show ?thesis unfolding e list.map cont_byte d enc_nat_def by simp
  next
    case 4
    then have e: "e = [ucast (0xf0 + drop_bit 18 r), ucast (0x80 + (drop_bit 12 r AND 0x3f)),
        ucast (0x80 + (drop_bit 6 r AND 0x3f)), ucast (0x80 + (r AND 0x3f))]"
      using assms by (auto simp: encode_def codepoint_defs word_le_nat_alt split: if_splits)
    have "unat r div 2 ^ 18 < 8" using le by (simp add: div_less_iff_less_mult)
    then have "unat (ucast (0xf0 + drop_bit 18 r) :: byte_t) = 0xf0 + unat r div 2 ^ 18"
      by (intro lead_byte) (simp_all only: d, simp_all)
    with 4 show ?thesis unfolding e list.map cont_byte d enc_nat_def by simp
  qed
qed

lemma scalar_le: "scalar r \<Longrightarrow> unat r \<le> 0x10ffff"
  by (auto simp: scalar_def)

lemma map_unat_inj: "map unat xs = map unat (ys :: 'a::len word list) \<longleftrightarrow> xs = ys"
  by (auto intro: map_injective inj_onI)

lemma encode_seq:
  "encode r = Inr e \<and> scalar r \<and> r \<noteq> 0 \<longleftrightarrow> seq_nat (map unat e) (unat r)"
proof
  assume a: "encode r = Inr e \<and> scalar r \<and> r \<noteq> 0"
  then show "seq_nat (map unat e) (unat r)"
    using enc_nat_seq [of "unat r"] encode_nat [of r e] by (auto simp: scalar_def unat_gt_0)
next
  assume s: "seq_nat (map unat e) (unat r)"
  note f = seq_enc_nat [OF s]
  then obtain e' where "encode r = Inr e'" using encode_ok_iff [of r] by fastforce
  with encode_nat [OF this] f have "encode r = Inr e" by (simp add: map_unat_inj)
  with f show "encode r = Inr e \<and> scalar r \<and> r \<noteq> 0"
    by (auto simp: scalar_def)
qed

section \<open>One code point\<close>

lemma next_byte_step:
  assumes "s \<in> set [0, 12, 24, 36, 48, 60, 72, 84, 96]"
  shows "decode_step s c b = (next_byte s (unat b), snd (decode_step s c b))"
  using decode_step_state [OF assms] next_byte_class [OF assms] by (metis prod.collapse)

lemma loop_reject: "decode_loop 12 c (Suc n) bs \<noteq> Inr z"
proof (induction bs arbitrary: c n)
  case (Cons b bs)
  then show ?case
    using next_byte_step [of 12 c b] by (cases "decode_step 12 c b") (auto simp: next_byte_def accept_def)
qed simp

lemma loop_step:
  assumes "s \<in> set [0, 12, 24, 36, 48, 60, 72, 84, 96]" "s \<noteq> 0"
  shows "decode_loop s c (Suc n) bs = Inr z \<longleftrightarrow>
    (\<exists>b rest. bs = b # rest \<and> next_byte s (unat b) \<noteq> 12 \<and>
       (if next_byte s (unat b) = 0 then z = (n + 2, snd (decode_step s c b))
        else decode_loop (next_byte s (unat b)) (snd (decode_step s c b)) (Suc (Suc n)) rest = Inr z))"
proof (cases bs)
  case (Cons b rest)
  have "next_byte s (unat b) = 12" if "b = 0"
    using that assms by (auto simp: next_byte_def)
  then show ?thesis
    using Cons next_byte_step [OF assms(1), of c b] loop_reject [where z = z]
    by (cases "decode_step s c b") (auto simp: accept_def)
qed simp

lemma loop_24:
  assumes "unat c < 2 ^ 26"
  shows "decode_loop 24 c (Suc n) bs = Inr (m, r) \<longleftrightarrow>
    (\<exists>b rest. bs = b # rest \<and> 0x80 \<le> unat b \<and> unat b < 0xc0 \<and> m = n + 2 \<and>
       unat r = 64 * unat c + (unat b - 0x80))"
proof -
  have e: "unat (snd (decode_step 24 c b)) = 64 * unat c + (unat b - 0x80)"
    if "0x80 \<le> unat b" "unat b < 0xc0" for b
    using that cont_code [of 24 c b] assms mod_block [where c = "0x80" and n = "unat b" and k = 64] by simp
  have "decode_loop 24 c (Suc n) bs = Inr (m, r) \<longleftrightarrow> (\<exists>b rest. bs = b # rest \<and>
      0x80 \<le> unat b \<and> unat b < 0xc0 \<and> m = n + 2 \<and> r = snd (decode_step 24 c b))"
    by (subst loop_step) (auto simp: next_byte_def)
  then show ?thesis
    using e by (simp add: word_unat_eq_iff cong: conj_cong)
qed

lemma cont_value:
  assumes "s \<noteq> 0" "unat c < 2 ^ 26" "0x80 \<le> unat b" "unat b < 0xc0"
  shows "unat (snd (decode_step s c b)) = 64 * unat c + (unat b - 0x80)"
  using cont_code [OF assms(1,2), of b] mod_block [where c = "0x80" and n = "unat b" and k = 64] assms
  by simp

lemma loop_step_Cons:
  assumes "s \<in> {36, 48, 60, 72, 84, 96}"
  shows "decode_loop s c (Suc n) (b # bs) = Inr z \<longleftrightarrow> next_byte s (unat b) \<noteq> 12 \<and>
    decode_loop (next_byte s (unat b)) (snd (decode_step s c b)) (Suc (Suc n)) bs = Inr z"
  using assms by (subst loop_step) (auto simp: next_byte_def split: if_splits)

lemma loop_to_24:
  assumes "unat c < 2 ^ 14" "s \<in> {36, 48, 60}"
  shows "decode_loop s c (Suc n) bs = Inr (m, r) \<longleftrightarrow>
    (\<exists>b b' rest. bs = b # b' # rest \<and> next_byte s (unat b) = 24 \<and> 0x80 \<le> unat b' \<and> unat b' < 0xc0 \<and>
       m = n + 3 \<and> unat r = 4096 * unat c + 64 * (unat b - 0x80) + (unat b' - 0x80))"
proof (cases bs)
  case (Cons b bs')
  have n: "next_byte s (unat b) = 12 \<or> next_byte s (unat b) = 24 \<and> 0x80 \<le> unat b \<and> unat b < 0xc0"
    using assms(2) by (auto simp: next_byte_def)
  have step: "decode_loop s c (Suc n) (b # bs') = Inr z \<longleftrightarrow> next_byte s (unat b) \<noteq> 12 \<and>
      decode_loop (next_byte s (unat b)) (snd (decode_step s c b)) (Suc (Suc n)) bs' = Inr z" for z
    using assms(2) by (intro loop_step_Cons) auto
  show ?thesis
  proof (cases "next_byte s (unat b) = 24")
    case True
    have v: "unat (snd (decode_step s c b)) = 64 * unat c + (unat b - 0x80)"
      using cont_value [of s c b] assms n True by auto
    then have "unat (snd (decode_step s c b)) < 2 ^ 26"
      using assms(1) n True by auto
    from loop_24 [OF this] True v show ?thesis
      by (auto simp: Cons step simp del: decode_loop.simps)
  next
    case False
    with n show ?thesis by (simp add: Cons step del: decode_loop.simps)
  qed
qed simp

lemma loop_to_36:
  assumes "unat c < 2 ^ 8" "s \<in> {72, 84, 96}"
  shows "decode_loop s c (Suc n) bs = Inr (m, r) \<longleftrightarrow>
    (\<exists>b b' b'' rest. bs = b # b' # b'' # rest \<and> next_byte s (unat b) = 36 \<and> 0x80 \<le> unat b' \<and> unat b' < 0xc0 \<and>
       0x80 \<le> unat b'' \<and> unat b'' < 0xc0 \<and> m = n + 4 \<and>
       unat r = 262144 * unat c + 4096 * (unat b - 0x80) + 64 * (unat b' - 0x80) + (unat b'' - 0x80))"
proof (cases bs)
  case (Cons b bs')
  have n: "next_byte s (unat b) = 12 \<or> next_byte s (unat b) = 36 \<and> 0x80 \<le> unat b \<and> unat b < 0xc0"
    using assms(2) by (auto simp: next_byte_def)
  have step: "decode_loop s c (Suc n) (b # bs') = Inr z \<longleftrightarrow> next_byte s (unat b) \<noteq> 12 \<and>
      decode_loop (next_byte s (unat b)) (snd (decode_step s c b)) (Suc (Suc n)) bs' = Inr z" for z
    using assms(2) by (intro loop_step_Cons) auto
  have n36: "next_byte 36 x = 24 \<longleftrightarrow> 0x80 \<le> x \<and> x < 0xc0" for x
    by (simp add: next_byte_def)
  show ?thesis
  proof (cases "next_byte s (unat b) = 36")
    case True
    have v: "unat (snd (decode_step s c b)) = 64 * unat c + (unat b - 0x80)"
      using cont_value [of s c b] assms n True by auto
    then have "unat (snd (decode_step s c b)) < 2 ^ 14"
      using assms(1) n True by auto
    from loop_to_24 [OF this, of 36] True v show ?thesis
      by (auto simp: Cons step n36 simp del: decode_loop.simps)
  next
    case False
    with n show ?thesis by (simp add: Cons step del: decode_loop.simps)
  qed
qed simp

lemma decode_Cons:
  "decode (b # bs) =
     (if b = 0 then Inr (0, 0)
      else if unat b < 0x80 then Inr (1, snd (decode_step 0 0 b))
      else decode_loop (next_byte 0 (unat b)) (snd (decode_step 0 0 b)) (Suc 0) bs)"
  using next_byte_step [of 0 0 b] unat_gt_0 [of b]
  by (cases "decode_step 0 0 b") (auto simp: decode_def accept_def next_byte_def)

lemma decode_seq:
  "decode bs = Inr (m, r) \<and> m \<noteq> 0 \<longleftrightarrow>
     (\<exists>e rest. bs = e @ rest \<and> seq_nat (map unat e) (unat r) \<and> m = length e)"  (is "?L \<longleftrightarrow> ?R")
proof
  assume L: ?L
  then obtain b cs where bs: "bs = b # cs" by (cases bs) (auto simp: decode_def)
  let ?c = "snd (decode_step 0 0 b)"
  have nz: "b \<noteq> 0" using L bs by (auto simp: decode_Cons)
  then have n0: "0 < unat b" by (simp add: unat_gt_0)
  consider "unat b < 0x80" | "0xc2 \<le> unat b" "unat b < 0xe0" | "0xe0 \<le> unat b" "unat b < 0xf0"
    | "0xf0 \<le> unat b" "unat b < 0xf5" | "0x80 \<le> unat b" "next_byte 0 (unat b) = 12"
    by (force simp: next_byte_def)
  then show ?R
  proof cases
    case 1
    then have "m = 1" "unat r = unat b" using L bs nz lead_code_ascii [of b 0] by (auto simp: decode_Cons)
    then show ?thesis using 1 bs n0 by (intro exI [of _ "[b]"] exI [of _ cs]) simp
  next
    case 2
    then have "decode_loop 24 ?c (Suc 0) cs = Inr (m, r)" using L bs nz by (simp add: decode_Cons next_byte_def)
    moreover have c: "unat ?c = unat b - 0xc0" using 2 by (rule lead_code_2)
    moreover have "unat ?c < 2 ^ 26" using c 2 by simp
    ultimately obtain b' rest where "cs = b' # rest" "0x80 \<le> unat b'" "unat b' < 0xc0" "m = 2"
        "unat r = 64 * (unat b - 0xc0) + (unat b' - 0x80)" by (auto simp: loop_24)
    then show ?thesis using 2 bs by (intro exI [of _ "[b, b']"] exI [of _ rest]) simp
  next
    case 3
    define s where "s = next_byte 0 (unat b)"
    have s: "s \<in> {36, 48, 60}" "s = 48 \<longleftrightarrow> unat b = 0xe0" "s = 60 \<longleftrightarrow> unat b = 0xed" 
      using 3 by (auto simp: next_byte_def s_def)
    have "decode_loop s ?c (Suc 0) cs = Inr (m, r)" using L bs nz 3 by (simp add: decode_Cons s_def)
    moreover have c: "unat ?c = unat b - 0xe0" using 3 by (rule lead_code_3)
    moreover have "unat ?c < 2 ^ 14" using c 3 by simp
    ultimately obtain b' b'' rest where "cs = b' # b'' # rest" "next_byte s (unat b') = 24"
        "0x80 \<le> unat b''" "unat b'' < 0xc0" "m = 3"
        "unat r = 4096 * (unat b - 0xe0) + 64 * (unat b' - 0x80) + (unat b'' - 0x80)"
      using s(1) by (auto simp: loop_to_24)
    then show ?thesis using 3 bs s
      by (intro exI [of _ "[b, b', b'']"] exI [of _ rest]) (auto simp: next_byte_def split: if_splits)
  next
    case 4
    define s where "s = next_byte 0 (unat b)"
    have s: "s \<in> {72, 84, 96}" "s = 72 \<longleftrightarrow> unat b = 0xf0" "s = 96 \<longleftrightarrow> unat b = 0xf4"
      using 4 by (auto simp: next_byte_def s_def)
    have "decode_loop s ?c (Suc 0) cs = Inr (m, r)" using L bs nz 4 by (simp add: decode_Cons s_def)
    moreover have c: "unat ?c = unat b - 0xf0" using 4 by (rule lead_code_4)
    moreover have "unat ?c < 2 ^ 8" using c 4 by simp
    ultimately obtain b' b'' b3 rest where "cs = b' # b'' # b3 # rest" "next_byte s (unat b') = 36"
        "0x80 \<le> unat b''" "unat b'' < 0xc0" "0x80 \<le> unat b3" "unat b3 < 0xc0" "m = 4"
        "unat r = 262144 * (unat b - 0xf0) + 4096 * (unat b' - 0x80) + 64 * (unat b'' - 0x80) + (unat b3 - 0x80)"
      using s(1) by (auto simp: loop_to_36)
    then show ?thesis using 4 bs s
      by (intro exI [of _ "[b, b', b'', b3]"] exI [of _ rest]) (auto simp: next_byte_def split: if_splits)
  next
    case 5
    then have "decode_loop 12 ?c (Suc 0) cs = Inr (m, r)" using L bs nz by (simp add: decode_Cons)
    then show ?thesis by (simp add: loop_reject)
  qed
next
  assume ?R
  then obtain e rest where bs: "bs = e @ rest" and q: "seq_nat (map unat e) (unat r)" and m: "m = length e" by blast
  have len: "length e \<noteq> 0" using q by (auto elim: seq_nat.elims)
  from q consider b where "e = [b]" | b b' where "e = [b, b']" | b b' b'' where "e = [b, b', b'']"
      | b b' b'' b3 where "e = [b, b', b'', b3]"
    by (auto elim!: seq_nat.elims)
  then have "decode (e @ rest) = Inr (length e, r)"
  proof cases
    case 1
    with q show ?thesis using lead_code_ascii [of b 0] by (auto simp: decode_Cons word_unat_eq_iff)
  next
    case (2 b b')
    with q have "0xc2 \<le> unat b" "unat b < 0xe0" by auto
    moreover from this have "unat (snd (decode_step 0 0 b)) = unat b - 0xc0" by (rule lead_code_2)
    ultimately show ?thesis using 2 q by (auto simp: decode_Cons next_byte_def loop_24 simp del: decode_loop.simps)
  next
    case (3 b b' b'')
    with q have r: "0xe0 \<le> unat b" "unat b < 0xf0" by auto
    moreover have "next_byte 0 (unat b) \<in> {36, 48, 60}" using r by (auto simp: next_byte_def)
    moreover have "unat (snd (decode_step 0 0 b)) = unat b - 0xe0" using r by (rule lead_code_3)
    ultimately show ?thesis using 3 q
      by (auto simp: decode_Cons loop_to_24 simp del: decode_loop.simps) (auto simp: next_byte_def split: if_splits)
  next
    case (4 b b' b'' b3)
    with q have r: "0xf0 \<le> unat b" "unat b < 0xf5" by auto
    moreover have "next_byte 0 (unat b) \<in> {72, 84, 96}" using r by (auto simp: next_byte_def)
    moreover have "unat (snd (decode_step 0 0 b)) = unat b - 0xf0" using r by (rule lead_code_4)
    ultimately show ?thesis using 4 q
      by (auto simp: decode_Cons loop_to_36 simp del: decode_loop.simps) (auto simp: next_byte_def split: if_splits)
  qed
  then show ?L using bs m len by simp
qed

section \<open>The scan\<close>

lemma next_byte_range:
  "s \<in> set [0, 12, 24, 36, 48, 60, 72, 84, 96] \<Longrightarrow> next_byte s b \<in> set [0, 12, 24, 36, 48, 60, 72, 84, 96]"
  by (simp add: next_byte_def)

lemma count_loop_Cons:
  assumes "s \<in> set [0, 12, 24, 36, 48, 60, 72, 84, 96]"
  shows "count_loop s c lst p cur (b # bs) =
    (if next_byte s (unat b) = 0 then count_loop 0 (snd (decode_step s c b)) cur (p + 1) (cur + 1) bs
     else count_loop (next_byte s (unat b)) (snd (decode_step s c b)) lst p (cur + 1) bs)"
  using next_byte_step [OF assms, of c b] by (cases "decode_step s c b") (auto simp: accept_def)

lemma count_reject: "count_loop 12 c lst p cur bs = (p, lst)"
proof (induction bs arbitrary: c cur)
  case (Cons b bs)
  then show ?case by (subst count_loop_Cons) (auto simp: next_byte_def)
qed simp

lemma decode_loop_ge: "decode_loop s c n bs = Inr (m, r) \<Longrightarrow> n \<le> m \<and> (0 < n \<longrightarrow> n < m)"
proof (induction s c n bs rule: decode_loop.induct)
  case (2 s c n b bs)
  then show ?case by (fastforce split: if_splits prod.splits)
qed simp

lemma count_via_decode:
  assumes "s \<in> set [0, 12, 24, 36, 48, 60, 72, 84, 96]" "s \<noteq> 0"
  shows "count_loop s c lst p cur bs =
    (case decode_loop s c (Suc n) bs of
       Inl e \<Rightarrow> (p, lst)
     | Inr (m, r) \<Rightarrow> count_loop 0 r (cur + m - Suc n - 1) (p + 1) (cur + m - Suc n) (drop (m - Suc n) bs))"
  using assms
proof (induction bs arbitrary: s c n cur)
  case (Cons b bs)
  let ?s = "next_byte s (unat b)" and ?c = "snd (decode_step s c b)"
  have st: "decode_step s c b = (?s, ?c)" using next_byte_step Cons.prems by blast
  show ?case
  proof (cases "b = 0 \<or> ?s = 12")
    case True
    have "next_byte s 0 = 12" using Cons.prems by (auto simp: next_byte_def)
    with True have "?s = 12" by auto
    moreover have "\<nexists>z. decode_loop s c (Suc n) (b # bs) = Inr z"
      using True st \<open>?s = 12\<close> loop_reject [of ?c "Suc n" bs]
      by (cases "decode_step s c b") (auto simp: accept_def)
    ultimately show ?thesis
      using Cons.prems count_reject
      by (subst count_loop_Cons) (auto split: sum.splits simp del: decode_loop.simps)
  next
    case nz: False
    show ?thesis
    proof (cases "?s = 0")
      case True
      then have "decode_loop s c (Suc n) (b # bs) = Inr (Suc (Suc n), ?c)"
        using nz st True by (cases "decode_step s c b") (simp add: accept_def)
      then show ?thesis using True Cons.prems by (subst count_loop_Cons) (simp_all del: decode_loop.simps)
    next
      case False
      then have d: "decode_loop s c (Suc n) (b # bs) = decode_loop ?s ?c (Suc (Suc n)) bs"
        using nz st False by (cases "decode_step s c b") (simp add: accept_def)
      show ?thesis
        using False Cons.prems next_byte_range [of s "unat b"] decode_loop_ge [of ?s ?c "Suc (Suc n)" bs]
        unfolding d by (subst count_loop_Cons)
          (auto simp: Cons.IH [where n = "Suc n"] drop_Cons' Suc_diff_le split: sum.splits)
    qed
  qed
qed simp

lemma count_accept:
  "count_loop 0 c lst p cur (b # bs) =
    (if b = 0 then count_loop 0 0 cur (p + 1) (cur + 1) bs
     else case decode (b # bs) of
       Inl e \<Rightarrow> (p, lst)
     | Inr (m, r) \<Rightarrow> count_loop 0 r (cur + m - 1) (p + 1) (cur + m) (drop m (b # bs)))"
proof -
  have c0: "decode_step 0 c b = decode_step 0 0 b" by (simp add: decode_step_def accept_def)
  show ?thesis
  proof (cases "unat b < 0x80")
    case True
    then have "next_byte 0 (unat b) = 0" by (simp add: next_byte_def)
    moreover have "snd (decode_step 0 0 b) = 0" if "b = 0"
      using that lead_code_ascii [of 0 0] by (simp add: unat_eq_0)
    ultimately show ?thesis
      using True by (auto simp: count_loop_Cons decode_Cons c0 simp del: count_loop.simps)
  next
    case False
    then have "b \<noteq> 0" "next_byte 0 (unat b) \<noteq> 0" by (auto simp: next_byte_def)
    moreover have "next_byte 0 (unat b) \<in> set [0, 12, 24, 36, 48, 60, 72, 84, 96]"
      by (rule next_byte_range) simp
    ultimately show ?thesis
      using False decode_loop_ge [of "next_byte 0 (unat b)" "snd (decode_step 0 0 b)" "Suc 0" bs]
      by (subst count_loop_Cons, simp, subst count_via_decode [where n = 0])
        (auto simp: decode_Cons c0 drop_Cons' simp del: count_loop.simps split: sum.splits)
  qed
qed

definition max_prefix :: "rune_t list \<Rightarrow> byte_t list \<Rightarrow> byte_t list \<Rightarrow> bool" where
  "max_prefix rs e rest \<longleftrightarrow> list_all scalar rs \<and> encode_all rs = Inr e
     \<and> (\<forall>r f g. rest = f @ g \<longrightarrow> scalar r \<longrightarrow> encode r \<noteq> Inr f)"

lemma encode_0: "encode 0 = Inr [0]"
  by (simp add: encode_def codepoint_defs)

lemma count_loop_prefix:
  "\<exists>rs e rest. bs = e @ rest \<and> max_prefix rs e rest \<and>
     count_loop 0 c lst p cur bs = (p + length rs, if rs = [] then lst else cur + length e - 1)"
proof (induction bs arbitrary: c lst p cur rule: length_induct)
  case (1 bs)
  have step: ?case if "bs = f @ g" "f \<noteq> []" "scalar r" "encode r = Inr f"
    "count_loop 0 c lst p cur bs = count_loop 0 r' (cur + length f - 1) (p + 1) (cur + length f) g" for f g r r'
  proof -
    have "length g < length bs" using that by simp
    then have "\<exists>rs e rest. g = e @ rest \<and> max_prefix rs e rest \<and>
      count_loop 0 r' (cur + length f - 1) (p + 1) (cur + length f) g
        = (p + 1 + length rs, if rs = [] then cur + length f - 1 else cur + length f + length e - 1)"
      by (rule 1 [rule_format])
    then obtain rs e rest where "g = e @ rest" "max_prefix rs e rest"
      "count_loop 0 r' (cur + length f - 1) (p + 1) (cur + length f) g
        = (p + 1 + length rs, if rs = [] then cur + length f - 1 else cur + length f + length e - 1)"
      by (elim exE conjE) (rule that)
    note rec = this
    have e: "rs = [] \<Longrightarrow> e = []" using rec(2) by (simp add: max_prefix_def)
    have "max_prefix (r # rs) (f @ e) rest"
      using rec(2) that(3,4) by (simp add: max_prefix_def)
    moreover have "bs = (f @ e) @ rest" using rec(1) that(1) by simp
    moreover have "count_loop 0 c lst p cur bs = (p + length (r # rs),
        if r # rs = [] then lst else cur + length (f @ e) - 1)"
      unfolding that(5) rec(3) using e by (simp add: add.assoc)
    ultimately show ?thesis by blast
  qed
  have stop: ?case if "count_loop 0 c lst p cur bs = (p, lst)"
    "\<And>r f g. bs = f @ g \<Longrightarrow> scalar r \<Longrightarrow> encode r \<noteq> Inr f"
    using that by (intro exI [of _ "[]"] exI [of _ "[]"] exI [of _ bs]) (auto simp: max_prefix_def)
  show ?case
  proof (cases bs)
    case Nil
    then show ?thesis
      by (intro stop) (auto simp: encode_def Let_def split: if_splits)
  next
    case (Cons b cs)
    show ?thesis
    proof (cases "b = 0")
      case True
      then show ?thesis
        using Cons by (intro step [of "[0]" cs 0 0]) (simp_all add: scalar_def encode_0 count_accept del: count_loop.simps)
    next
      case nz: False
      show ?thesis
      proof (cases "decode bs")
        case (Inl x)
        have no: "encode r \<noteq> Inr f" if "bs = f @ g" "scalar r" for r f g
        proof
          assume "encode r = Inr f"
          moreover have "r \<noteq> 0" using calculation nz that Cons by (auto simp: encode_0)
          ultimately have "decode bs = Inr (length f, r)"
            using that decode_seq [of bs "length f" r] encode_seq [of r f] by blast
          with Inl show False by simp
        qed
        have "count_loop 0 c lst p cur bs = (p, lst)"
          using Inl Cons nz by (simp add: count_accept del: count_loop.simps)
        then show ?thesis by (rule stop) (rule no)
      next
        case (Inr z)
        obtain m r where z: "z = (m, r)" by force
        have "m \<noteq> 0"
          using Inr z nz Cons by (auto simp: decode_Cons dest: decode_loop_ge split: if_splits)
        then obtain f g where f: "bs = f @ g" "seq_nat (map unat f) (unat r)" "m = length f"
          using Inr z decode_seq by blast
        have e: "encode r = Inr f" "scalar r" using f(2) encode_seq by blast+
        have "count_loop 0 c lst p cur (b # cs) = count_loop 0 r (cur + m - 1) (p + 1) (cur + m) (drop m (b # cs))"
          using Cons nz Inr z by (simp add: count_accept del: count_loop.simps)
        then have "count_loop 0 c lst p cur bs = count_loop 0 r (cur + length f - 1) (p + 1) (cur + length f) g"
          using f Cons by (metis append_eq_conv_conj)
        then show ?thesis using f e \<open>m \<noteq> 0\<close> by (intro step [of f g r r]) auto
      qed
    qed
  qed
qed

section \<open>Properties\<close>

text \<open>C38: the decoder accepts a code point at the front of a buffer exactly when the buffer
  starts with the encoder's output for a Unicode scalar value other than NUL, and it then
  returns that value and the length of the encoding: \<open>decode\<close> and \<open>encode\<close> are inverse on
  scalar values, and overlong forms, surrogates and values over 0x10FFFF are never decoded.\<close>

theorem decode_iff_encoding:
  "decode bs = Inr (n, r) \<and> n \<noteq> 0 \<longleftrightarrow>
     (\<exists>e rest. bs = e @ rest \<and> encode r = Inr e \<and> scalar r \<and> r \<noteq> 0 \<and> n = length e)"
  unfolding decode_seq using encode_seq by metis

text \<open>C39: what \<open>count_codepoints\<close> reports of any buffer: with the longest prefix that is a
  sequence of encodings of scalar values (NUL included), it is the number of code points of
  that prefix and its length in bytes, except that the length is 1 when the prefix is empty.\<close>

theorem count_codepoints_longest_prefix:
  "\<exists>rs e rest. bs = e @ rest \<and> max_prefix rs e rest \<and>
     count_codepoints (Some bs) = (length rs, if rs = [] then 1 else length e)"
proof -
  obtain rs e rest where p: "bs = e @ rest" "max_prefix rs e rest"
    "count_loop 0 0 0 0 0 bs = (0 + length rs, if rs = [] then 0 else 0 + length e - 1)"
    using count_loop_prefix [of bs 0 0 0 0] by (elim exE conjE) (rule that)
  have "e \<noteq> []" if "rs \<noteq> []"
    using that p(2) by (cases rs) (auto simp: max_prefix_def rbind_eq_Inr encode_def Let_def split: if_splits)
  then have "count_codepoints (Some bs) = (length rs, if rs = [] then 1 else length e)"
    using p(3) by (auto simp: count_codepoints_def accept_def Suc_leI)
  with p show ?thesis by blast
qed

end
