(* ===== verification/VmString.thy ===== *)
theory VmString
  imports Buffers Utf8
begin

text \<open>
  \<^verbatim>\<open>src/src/vm/string.cpp\<close>: the string object. A string holds its characters in a 16-byte
  local buffer or an allocated one, one byte per character while every character is ASCII and
  four otherwise, and caches its UTF-8 form. A word length is an integer; an operation whose
  result leaves the 32-bit range is \<open>Undefined\<close> (signed overflow). The abstraction
  \<open>runes\<close> is the sequence of code points; the lemmas give each operation's effect on it and
  the invariants \<open>str_inv\<close> (the buffer holds the characters) and \<open>cap_inv\<close> (the buffer holds
  the capacity \<open>str_length_max\<close> promises), and show which operations break the second.
\<close>

section \<open>The object\<close>

datatype encoded_ptr = NoEncoding | EncodedIsBuffer | EncodedCopy "byte_t list"

record vm_string =
  str_length :: int
  str_length_max :: int
  encoded_str :: encoded_ptr
  str_mem :: "byte_t list"
  character_size :: nat
  is_alloc :: bool
  str_ref_count :: nat

definition local_size :: nat where "local_size = 16"

definition in_word :: "int \<Rightarrow> bool" where "in_word i \<longleftrightarrow> - (2 ^ 31) \<le> i \<and> i < 2 ^ 31"

definition swrap :: "int \<Rightarrow> int res" where
  "swrap i = require (in_word i) (Undefined ''signed overflow'') (Inr i)"

definition local_max_length :: int where "local_max_length = int local_size - 1"

definition compute_max_length :: "int \<Rightarrow> int res" where
  "compute_max_length current_length = swrap (current_length + 1 + current_length sdiv 4)"

definition load_char :: "nat \<Rightarrow> byte_t list \<Rightarrow> nat \<Rightarrow> rune_t res" where
  "load_char sz b i =
     (if sz = 1 then rbind (get_elem (\<lambda>bs. bs ! 0) 1 i b) (\<lambda>c. Inr (ucast c))
      else get_elem word32 4 i b)"

definition store_char :: "nat \<Rightarrow> byte_t list \<Rightarrow> nat \<Rightarrow> rune_t \<Rightarrow> byte_t list res" where
  "store_char sz b i c =
     (if sz = 1 then put_elem (\<lambda>x. [x]) 1 i (ucast c) b else put_elem bytes32 4 i c b)"

fun copy_loop :: "nat \<Rightarrow> nat \<Rightarrow> nat \<Rightarrow> byte_t list \<Rightarrow> nat list \<Rightarrow> byte_t list \<Rightarrow> byte_t list res" where
  "copy_loop dest_size dest_start src_size source [] dest = Inr dest"
| "copy_loop dest_size dest_start src_size source (i # is) dest =
     rbind (load_char src_size source i) (\<lambda>c.
     rbind (store_char dest_size dest (dest_start + i) c) (\<lambda>dest'.
       copy_loop dest_size dest_start src_size source is dest'))"

definition copy_characters_to ::
    "nat \<Rightarrow> byte_t list \<Rightarrow> int \<Rightarrow> nat \<Rightarrow> byte_t list \<Rightarrow> int \<Rightarrow> byte_t list res" where
  "copy_characters_to dest_size dest dest_start src_size source source_length =
     copy_loop dest_size (nat dest_start) src_size source [0..<nat source_length] dest"

definition combine ::
    "bool \<Rightarrow> byte_t list \<Rightarrow> bool \<Rightarrow> int \<Rightarrow> byte_t list \<Rightarrow> bool \<Rightarrow> int \<Rightarrow> byte_t list \<Rightarrow> byte_t list res" where
  "combine dest_is_rune dest source1_is_rune source1_length source1 source2_is_rune source2_length source2 =
     (let width = (\<lambda>is_rune. if is_rune then 4 else 1)
      in if dest_is_rune then
           rbind (copy_characters_to 4 dest 0 (width source1_is_rune) source1 source1_length) (\<lambda>dest'.
             copy_characters_to 4 dest' source1_length (width source2_is_rune) source2 source2_length)
         else
           rbind (copy_characters_to 1 dest 0 1 source1 source1_length) (\<lambda>dest'.
             copy_characters_to 1 dest' source1_length 1 source2 source2_length))"

section \<open>Construction\<close>

definition empty_string :: vm_string where
  "empty_string = \<lparr> str_length = 0, str_length_max = local_max_length, encoded_str = NoEncoding,
     str_mem = replicate local_size 0, character_size = 1, is_alloc = False, str_ref_count = 1 \<rparr>"

fun decode_runes :: "nat list \<Rightarrow> byte_t list \<Rightarrow> byte_t list \<Rightarrow> byte_t list res" where
  "decode_runes [] src dest = Inr dest"
| "decode_runes (i # is) src dest =
     rbind (decode src) (\<lambda>(n, r).
     rbind (put_elem bytes32 4 i r dest) (\<lambda>dest'.
       decode_runes is (drop n src) dest'))"

definition string_of_utf8 :: "byte_t list \<Rightarrow> vm_string res" where
  "string_of_utf8 encoded =
     (let len = length encoded;
          (points, bytes) = count_codepoints (if len = 0 then None else Some encoded)
      in require (len = bytes) InvalidUtf8
        (let size = (if len \<noteq> points then 4 else 1)
         in rbind
             (if int len > local_max_length
              then rbind (compute_max_length (int points)) (\<lambda>m.
                   rbind (swrap (m * int size)) (\<lambda>a.
                   rbind (alloc_memory a) (\<lambda>b. Inr (m, b, True))))
              else Inr (local_max_length div int size, replicate local_size 0, False))
             (\<lambda>(len_max, dest, alloc).
               rbind (if size = 1 then poke 0 encoded dest else decode_runes [0..<points] encoded dest)
                 (\<lambda>mem. Inr \<lparr> str_length = int points, str_length_max = len_max, encoded_str = NoEncoding,
                    str_mem = mem, character_size = size, is_alloc = alloc, str_ref_count = 1 \<rparr>))))"

definition string_concat :: "vm_string \<Rightarrow> vm_string \<Rightarrow> vm_string res" where
  "string_concat s1 s2 =
     rbind (swrap (str_length s1 + str_length s2)) (\<lambda>len.
     rbind (compute_max_length len) (\<lambda>len_max.
       let size = max (character_size s1) (character_size s2)
       in rbind (swrap (len_max * int size)) (\<lambda>amount.
          rbind (alloc_memory amount) (\<lambda>dest.
          rbind (combine (size = 4) dest (character_size s1 = 4) (str_length s1) (str_mem s1)
                  (character_size s2 = 4) (str_length s2) (str_mem s2)) (\<lambda>mem.
            Inr \<lparr> str_length = len, str_length_max = len_max, encoded_str = NoEncoding, str_mem = mem,
                 character_size = size, is_alloc = True, str_ref_count = 1 \<rparr>)))))"

definition string_slice :: "vm_string \<Rightarrow> int \<Rightarrow> int \<Rightarrow> vm_string res" where
  "string_slice other begin_index end_index =
     rbind (swrap (end_index - begin_index)) (\<lambda>len.
     rbind (compute_max_length len) (\<lambda>len_max.
       require (\<not> end_index < begin_index) OutOfRangeMemory
      (require (\<not> begin_index < 0) (IndexOutOfRange 0 (str_length other) begin_index)
      (require (\<not> str_length other < end_index) (IndexOutOfRange 0 (str_length other) end_index)
        (rbind (if is_alloc other
                then rbind (swrap (len_max * int (character_size other))) alloc_memory
                else Inr (replicate local_size 0)) (\<lambda>dest.
         rbind (peek (nat begin_index * character_size other) (nat len * character_size other) (str_mem other)) (\<lambda>src.
         rbind (poke 0 src dest) (\<lambda>mem.
           Inr \<lparr> str_length = len, str_length_max = len_max, encoded_str = NoEncoding, str_mem = mem,
                character_size = character_size other, is_alloc = is_alloc other, str_ref_count = 1 \<rparr>))))))))"

section \<open>Operations\<close>

definition append_string :: "vm_string \<Rightarrow> vm_string \<Rightarrow> vm_string res" where
  "append_string this other =
     require (str_ref_count this \<le> 1) (AssertFailed ''get_ref_count() <= 1'')
    (require (str_length other \<ge> 0) (AssertFailed ''other_length >= 0'')
      (if str_length other = 0 then Inr this
       else
         rbind (swrap (str_length this + str_length other)) (\<lambda>new_length.
         rbind (compute_max_length new_length) (\<lambda>new_length_max.
           let other_is_rune = (character_size other = 4);
               local_is_rune = (character_size this = 4);
               new_is_rune = (local_is_rune \<or> other_is_rune)
           in rbind (if new_is_rune then rbind (swrap (new_length_max * 4)) alloc_memory
                     else alloc_memory new_length_max) (\<lambda>new_source.
              rbind (combine new_is_rune new_source local_is_rune (str_length this) (str_mem this)
                      other_is_rune (str_length other) (str_mem other)) (\<lambda>mem.
                Inr (this\<lparr> str_length := new_length, str_length_max := new_length_max,
                      encoded_str := NoEncoding, str_mem := mem, is_alloc := True,
                      character_size := (if new_is_rune then 4 else 1) \<rparr>)))))))"

definition get_length :: "vm_string \<Rightarrow> int" where "get_length s = str_length s"

definition get_rune :: "vm_string \<Rightarrow> int \<Rightarrow> rune_t res" where
  "get_rune s index =
     (if index < 0 \<or> str_length s \<le> index
      then Inl (IndexOutOfRange 0 (str_length s - 1) index)
      else if character_size s \<noteq> 1 then get_elem word32 4 (nat index) (str_mem s)
      else rbind (get_elem (\<lambda>bs. bs ! 0) 1 (nat index) (str_mem s)) (\<lambda>c. Inr (scast c)))"

definition set_rune :: "vm_string \<Rightarrow> int \<Rightarrow> rune_t \<Rightarrow> vm_string res" where
  "set_rune s index value =
     require (str_ref_count s \<le> 1) (AssertFailed ''get_ref_count() <= 1'')
    (require (\<not> value > max_supported_codepoint) InvalidUtf8
    (require (\<not> (index < 0 \<or> str_length s < index)) (IndexOutOfRange 0 (str_length s) index)
      (let new_character_size = (if value > max_codepoint_ascii then 4 else 1);
           grown_max = (if str_length s = 0 then Inr local_max_length else compute_max_length (str_length s))
       in rbind
           (if new_character_size > character_size s then
              rbind grown_max (\<lambda>len_max.
              rbind (swrap (len_max * int new_character_size)) (\<lambda>amount.
              rbind (alloc_memory amount) (\<lambda>new_alloc.
              rbind (copy_characters_to 4 new_alloc 0 1 (str_mem s) (str_length s)) (\<lambda>mem.
                Inr (s\<lparr> encoded_str := NoEncoding, character_size := new_character_size,
                        str_length_max := len_max, str_mem := mem, is_alloc := True \<rparr>)))))
            else if str_length_max s \<le> index then
              rbind grown_max (\<lambda>len_max.
              rbind (swrap (len_max * int (character_size s))) (\<lambda>amount.
              rbind (alloc_memory amount) (\<lambda>new_alloc.
              rbind (peek 0 (nat (str_length s) * character_size s) (str_mem s)) (\<lambda>src.
              rbind (poke 0 src new_alloc) (\<lambda>mem.
                Inr (s\<lparr> encoded_str := NoEncoding, str_length_max := len_max, str_mem := mem,
                        is_alloc := True \<rparr>))))))
            else Inr (s\<lparr> encoded_str := NoEncoding \<rparr>))
           (\<lambda>s'.
             rbind (if character_size s' \<noteq> 1 then put_elem bytes32 4 (nat index) value (str_mem s')
                    else put_elem (\<lambda>x. [x]) 1 (nat index) (ucast (value AND max_codepoint_ascii)) (str_mem s'))
               (\<lambda>mem. Inr (s'\<lparr> str_mem := mem,
                  str_length := (if str_length s' = index then str_length s' + 1 else str_length s') \<rparr>))))))"

subsection \<open>The UTF-8 form\<close>

fun encode_loop :: "nat list \<Rightarrow> byte_t list \<Rightarrow> nat \<Rightarrow> byte_t list \<Rightarrow> (nat \<times> byte_t list) res" where
  "encode_loop [] src pos dest = Inr (pos, dest)"
| "encode_loop (i # is) src pos dest =
     rbind (get_elem word32 4 i src) (\<lambda>curr_rune.
     rbind (encode curr_rune) (\<lambda>bs.
     rbind (poke pos bs dest) (\<lambda>dest'.
       encode_loop is src (pos + length bs) dest')))"

definition str_bytes :: "vm_string \<Rightarrow> byte_t list" where
  "str_bytes s = (case encoded_str s of NoEncoding \<Rightarrow> [] | EncodedIsBuffer \<Rightarrow> str_mem s | EncodedCopy b \<Rightarrow> b)"

definition str :: "vm_string \<Rightarrow> vm_string res" where
  "str s =
     (if encoded_str s \<noteq> NoEncoding then Inr s
      else if character_size s = 1 then
        rbind (if str_length_max s \<le> str_length s
               then rbind (swrap (str_length s + 1)) (\<lambda>n.
                    rbind (alloc_memory n) (\<lambda>tmp.
                    rbind (peek 0 (nat (str_length s)) (str_mem s)) (\<lambda>src.
                    rbind (poke 0 src tmp) (\<lambda>b. Inr (EncodedCopy b)))))
               else Inr EncodedIsBuffer) (\<lambda>e.
          let s' = s\<lparr> encoded_str := e \<rparr>
          in rbind (peek (nat (str_length s)) 1 (str_bytes s')) (\<lambda>z.
             require (z = [0]) (AssertFailed ''_encoded_str[_length] == 0'') (Inr s')))
      else
        rbind (swrap (str_length s * int (character_size s))) (\<lambda>n.
        rbind (swrap (n + 1)) (\<lambda>str_len.
        rbind (alloc_memory str_len) (\<lambda>buf.
        rbind (encode_loop [0..<nat (str_length s)] (str_mem s) 0 buf) (\<lambda>(pos, dest).
        rbind (poke pos [0] dest) (\<lambda>out.
          Inr (s\<lparr> encoded_str := EncodedCopy out \<rparr>)))))))"

subsection \<open>Comparison\<close>

fun memcmp :: "byte_t list \<Rightarrow> byte_t list \<Rightarrow> int" where
  "memcmp (x # xs) (y # ys) = (if x = y then memcmp xs ys else if x < y then -1 else 1)"
| "memcmp _ _ = 0"

fun compare_chars :: "(nat \<Rightarrow> rune_t res) \<Rightarrow> (nat \<Rightarrow> rune_t res) \<Rightarrow> nat list \<Rightarrow> int res" where
  "compare_chars s1 s2 [] = Inr 0"
| "compare_chars s1 s2 (i # is) =
     rbind (s1 i) (\<lambda>sc1. rbind (s2 i) (\<lambda>sc2.
       if sc1 \<noteq> sc2 then Inr (if sc1 < sc2 then -1 else 1) else compare_chars s1 s2 is))"

definition signed_char :: "byte_t list \<Rightarrow> nat \<Rightarrow> rune_t res" where
  "signed_char b i = rbind (get_elem (\<lambda>bs. bs ! 0) 1 i b) (\<lambda>c. Inr (scast c))"

definition string_view :: "vm_string option \<Rightarrow> int \<times> bool \<times> byte_t list" where
  "string_view s = (case s of None \<Rightarrow> (0, False, [0]) | Some s \<Rightarrow> (str_length s, character_size s \<noteq> 1, str_mem s))"

definition compare_strings :: "bool \<Rightarrow> vm_string option \<Rightarrow> vm_string option \<Rightarrow> int res" where
  "compare_strings same_memory s1 s2 =
     (case (string_view s1, string_view s2) of
        ((len_1, rune_1, mem_1), (len_2, rune_2, mem_2)) \<Rightarrow>
          if same_memory then Inr 0
          else
            let min_length = nat (min len_1 len_2);
                idx = [0..<min_length]
            in rbind
                (if rune_1 = rune_2 then
                   rbind (peek 0 min_length mem_1) (\<lambda>b1. rbind (peek 0 min_length mem_2) (\<lambda>b2. Inr (memcmp b1 b2)))
                 else if rune_2 then compare_chars (signed_char mem_1) (\<lambda>i. get_elem word32 4 i mem_2) idx
                 else compare_chars (\<lambda>i. get_elem word32 4 i mem_1) (signed_char mem_2) idx)
                (\<lambda>result. if result \<noteq> 0 then Inr result else swrap (len_1 - len_2)))"

section \<open>Characters of a buffer\<close>

definition chars_of :: "nat \<Rightarrow> nat \<Rightarrow> byte_t list \<Rightarrow> rune_t list" where
  "chars_of sz n b = (if sz = 1 then map ucast (take n b) else elems word32 4 n b)"

definition runes :: "vm_string \<Rightarrow> rune_t list" where
  "runes s = chars_of (character_size s) (nat (str_length s)) (str_mem s)"

definition str_inv :: "vm_string \<Rightarrow> bool" where
  "str_inv s \<longleftrightarrow> 0 \<le> str_length s \<and> str_length s < 2 ^ 31 \<and> character_size s \<in> {1, 4}
     \<and> (\<not> is_alloc s \<longrightarrow> length (str_mem s) = local_size)
     \<and> nat (str_length s) * character_size s \<le> length (str_mem s)
     \<and> list_all (\<lambda>b. b = 0) (drop (nat (str_length s) * character_size s) (str_mem s))
     \<and> (character_size s = 1 \<longrightarrow> list_all (\<lambda>r. r \<le> max_codepoint_ascii) (runes s))
     \<and> list_all (\<lambda>r. r \<le> max_supported_codepoint) (runes s)"

definition cap_inv :: "vm_string \<Rightarrow> bool" where
  "cap_inv s \<longleftrightarrow> 0 \<le> str_length_max s \<and> nat (str_length_max s) * character_size s \<le> length (str_mem s)"

lemma length_chars [simp]: "n * sz \<le> length b \<Longrightarrow> sz \<in> {1, 4} \<Longrightarrow> length (chars_of sz n b) = n"
  by (auto simp: chars_of_def)

lemma chars_take: "k \<le> n \<Longrightarrow> take k (chars_of sz n b) = chars_of sz k b"
  by (simp add: chars_of_def elems_take take_map min_def)

lemma load_char_ok:
  assumes "i < n" "n * sz \<le> length b" "sz \<in> {1, 4}"
  shows "load_char sz b i = Inr (chars_of sz n b ! i)"
  using assms byte_codec.get_ok [of i n b] word_codec.get_ok [of i n b]
  by (auto simp: load_char_def chars_of_def elems_bytes [of n b, simplified])

lemma store_char_ok:
  assumes "i < n" "n * sz \<le> length b" "sz \<in> {1, 4}" "sz = 1 \<longrightarrow> unat c < 256"
  obtains b' where "store_char sz b i c = Inr b'" "length b' = length b"
    "chars_of sz n b' = (chars_of sz n b)[i := c]" "drop (n * sz) b' = drop (n * sz) b"
proof (cases "sz = 1")
  case True
  then have n: "n \<le> length b" using assms by simp
  obtain b' where b': "put_elem (\<lambda>x. [x]) 1 i (ucast c) b = Inr b'"
    using byte_codec.put_ok [of i n b] assms(1) n by auto
  have l: "length b' = length b" using byte_codec.put_length [OF b'] .
  have "take n b' = (take n b)[i := ucast c]"
    using byte_codec.elems_put [OF b', of n] assms(1) n l by (simp add: elems_bytes [simplified])
  moreover have "ucast (ucast c :: byte_t) = c"
    using assms(4) True by (simp add: word_unat_eq_iff unat_ucast_small)
  moreover have "drop n b' = drop n b"
    using b' assms(1) by (auto simp: put_elem_def poke_def drop_Cons' split: if_splits)
  ultimately show thesis
    using that [of b'] b' True l by (simp add: store_char_def chars_of_def map_update)
next
  case False
  then have sz: "sz = 4" using assms by simp
  obtain b' where b': "put_elem bytes32 4 i c b = Inr b'"
    using word_codec.put_ok [of i n b] assms(1,2) sz by auto
  have "drop (n * 4) b' = drop (n * 4) b"
    using b' assms(1) by (auto simp: put_elem_def poke_def split: if_splits)
  then show thesis
    using that [of b'] b' sz word_codec.elems_put [OF b', of n] word_codec.put_length [OF b'] assms(1)
    by (simp add: store_char_def chars_of_def)
qed

lemma copy_loop_ok:
  assumes "sz \<in> {1, 4}" "ssz \<in> {1, 4}" "sz = 1 \<longrightarrow> ssz = 1" "n * ssz \<le> length src"
    "(start + n) * sz \<le> length dest" "k \<le> n"
  shows "\<exists>dest'. copy_loop sz start ssz src [k..<n] dest = Inr dest' \<and> length dest' = length dest \<and>
    chars_of sz (start + n) dest' = chars_of sz (start + k) dest @ drop k (chars_of ssz n src) \<and>
    drop ((start + n) * sz) dest' = drop ((start + n) * sz) dest"
  using assms(5,6)
proof (induction "n - k" arbitrary: k dest)
  case 0
  then show ?case using assms(2,4) by simp
next
  case (Suc d)
  then have k: "k < n" by simp
  let ?c = "chars_of ssz n src ! k"
  have "sz = 1 \<longrightarrow> unat ?c < 256"
    using assms(2-4) k unat_byte [of "src ! k"] by (auto simp: chars_of_def unat_ucast_small)
  then obtain d1 where d1: "store_char sz dest (start + k) ?c = Inr d1" "length d1 = length dest"
    "chars_of sz (start + n) d1 = (chars_of sz (start + n) dest)[start + k := ?c]"
    "drop ((start + n) * sz) d1 = drop ((start + n) * sz) dest"
    using store_char_ok [of "start + k" "start + n" sz dest ?c] Suc.prems assms(1) k by auto
  have "chars_of sz (start + Suc k) d1 = take (start + Suc k) ((chars_of sz (start + n) dest)[start + k := ?c])"
    using d1(3) chars_take [of "start + Suc k" "start + n" sz d1] k by simp
  also have "\<dots> = chars_of sz (start + k) dest @ [?c]"
    using k Suc.prems assms(1) chars_take [of "start + k" "start + n" sz dest]
    by (simp add: take_Suc_conv_app_nth)
  finally have c1: "chars_of sz (start + Suc k) d1 = chars_of sz (start + k) dest @ [?c]" .
  have d: "d = n - Suc k" using Suc.hyps(2) by simp
  have "length (chars_of ssz n src) = n" using assms(2,4) by simp
  then have dr: "drop k (chars_of ssz n src) = ?c # drop (Suc k) (chars_of ssz n src)"
    using k by (simp add: Cons_nth_drop_Suc)
  obtain d2 where d2: "copy_loop sz start ssz src [Suc k..<n] d1 = Inr d2" "length d2 = length d1"
    "chars_of sz (start + n) d2 = chars_of sz (start + Suc k) d1 @ drop (Suc k) (chars_of ssz n src)"
    "drop ((start + n) * sz) d2 = drop ((start + n) * sz) d1"
    using Suc.hyps(1) [of "Suc k" d1, OF d] Suc.prems k d1(2) by auto
  have "copy_loop sz start ssz src [k..<n] dest = Inr d2"
    using k load_char_ok [OF k assms(4,2)] d1(1) d2(1) by (simp add: upt_conv_Cons)
  then show ?case using d2 d1 c1 dr by auto
qed

lemma combine_ok:
  assumes "0 \<le> n1" "0 \<le> n2" "nat n1 * (if r1 then 4 else 1) \<le> length s1"
    "nat n2 * (if r2 then 4 else 1) \<le> length s2" "r1 \<or> r2 \<longrightarrow> dr"
    "nat (n1 + n2) * (if dr then 4 else 1) \<le> length dest"
  shows "\<exists>m. combine dr dest r1 n1 s1 r2 n2 s2 = Inr m \<and> length m = length dest \<and>
    chars_of (if dr then 4 else 1) (nat (n1 + n2)) m =
      chars_of (if r1 then 4 else 1) (nat n1) s1 @ chars_of (if r2 then 4 else 1) (nat n2) s2 \<and>
    drop (nat (n1 + n2) * (if dr then 4 else 1)) m = drop (nat (n1 + n2) * (if dr then 4 else 1)) dest"
proof -
  let ?d = "if dr then 4 else 1 :: nat" and ?w1 = "if r1 then 4 else 1 :: nat"
    and ?w2 = "if r2 then 4 else 1 :: nat"
  have n: "nat (n1 + n2) = nat n1 + nat n2" using assms(1,2) by (rule nat_add_distrib)
  have le: "nat n1 * ?d \<le> length dest" using assms(6) unfolding n by (simp add: distrib_right)
  have w: "?d \<in> {1, 4}" "?w1 \<in> {1, 4}" "?w2 \<in> {1, 4}" "?d = 1 \<longrightarrow> ?w1 = 1" "?d = 1 \<longrightarrow> ?w2 = 1"
    using assms(5) by auto
  obtain m1 where m1: "copy_loop ?d 0 ?w1 s1 [0..<nat n1] dest = Inr m1" "length m1 = length dest"
    "chars_of ?d (nat n1) m1 = chars_of ?w1 (nat n1) s1" "drop (nat n1 * ?d) m1 = drop (nat n1 * ?d) dest"
    using copy_loop_ok [OF w(1,2,4) assms(3), of 0 dest 0] le by (auto simp: chars_of_def elems_def)
  obtain m2 where m2: "copy_loop ?d (nat n1) ?w2 s2 [0..<nat n2] m1 = Inr m2" "length m2 = length m1"
    "chars_of ?d (nat n1 + nat n2) m2 = chars_of ?d (nat n1) m1 @ chars_of ?w2 (nat n2) s2"
    "drop ((nat n1 + nat n2) * ?d) m2 = drop ((nat n1 + nat n2) * ?d) m1"
    using copy_loop_ok [OF w(1,3,5) assms(4), of "nat n1" m1 0] assms(6) m1(2) unfolding n by auto
  have "drop ((nat n1 + nat n2) * ?d) m1 = drop (nat n2 * ?d) (drop (nat n1 * ?d) m1)"
    by (simp add: distrib_right add.commute)
  also have "\<dots> = drop ((nat n1 + nat n2) * ?d) dest"
    unfolding m1(4) by (simp add: distrib_right add.commute)
  finally have dr: "drop ((nat n1 + nat n2) * ?d) m2 = drop ((nat n1 + nat n2) * ?d) dest"
    using m2(4) by simp
  have "combine dr dest r1 n1 s1 r2 n2 s2 = Inr m2"
    using m1(1) m2(1) assms(5)
    by (cases dr) (auto simp: combine_def copy_characters_to_def Let_def)
  with m1 m2 dr show ?thesis unfolding n by auto
qed

lemma swrap_ok: "in_word i \<Longrightarrow> swrap i = Inr i"
  by (simp add: swrap_def)

lemma compute_max_length_ok:
  assumes "0 \<le> n" "n + 1 + n div 4 < 2 ^ 31"
  shows "compute_max_length n = Inr (n + 1 + n div 4)"
proof -
  have "n sdiv 4 = n div 4" using assms(1) by (cases "n = 0") (simp_all add: signed_divide_int_def)
  with assms show ?thesis by (simp add: compute_max_length_def swrap_def in_word_def)
qed

lemma alloc_memory_ok: "0 \<le> n \<Longrightarrow> alloc_memory n = Inr (replicate (nat n) 0)"
  by (simp add: alloc_memory_def)

definition small :: "int \<Rightarrow> bool" where "small n \<longleftrightarrow> 0 \<le> n \<and> 5 * n + 9 < 2 ^ 31"

definition max_len :: "int \<Rightarrow> int" where "max_len n = n + 1 + n div 4"

lemma small_ok:
  assumes "small n"
  shows "swrap n = Inr n" "compute_max_length n = Inr (max_len n)"
    "rbind (swrap (max_len n * 4)) alloc_memory = Inr (replicate (nat (max_len n) * 4) 0)"
    "swrap (max_len n) = Inr (max_len n)" "alloc_memory (max_len n) = Inr (replicate (nat (max_len n)) 0)"
    "nat n \<le> nat (max_len n)" "n < max_len n" "0 \<le> n" "n < 2 ^ 31"
proof -
  have n: "0 \<le> n" "5 * n + 9 < 2147483648" using assms by (simp_all add: small_def)
  define q where "q = n div 4"
  have m: "max_len n = n + 1 + q" by (simp add: max_len_def q_def)
  have d: "0 \<le> q" "4 * q \<le> n" using n by (simp_all add: q_def)
  have f: "0 \<le> max_len n" "max_len n * 4 < 2147483648" using n d unfolding m by simp_all
  show "swrap n = Inr n" "swrap (max_len n) = Inr (max_len n)"
    using n d f by (simp_all add: swrap_def in_word_def)
  show "rbind (swrap (max_len n * 4)) alloc_memory = Inr (replicate (nat (max_len n) * 4) 0)"
    using f by (simp add: swrap_def in_word_def alloc_memory_def nat_mult_distrib)
  show "alloc_memory (max_len n) = Inr (replicate (nat (max_len n)) 0)"
    using f by (simp add: alloc_memory_def)
  show "compute_max_length n = Inr (max_len n)"
    using n d unfolding q_def max_len_def by (intro compute_max_length_ok) simp_all
  show "nat n \<le> nat (max_len n)" "n < max_len n" "0 \<le> n" "n < 2 ^ 31"
    using n d unfolding m by simp_all
qed

section \<open>Concatenation\<close>

lemma inv_width:
  assumes "str_inv s"
  shows "0 \<le> str_length s" "nat (str_length s) * (if character_size s = 4 then 4 else 1) \<le> length (str_mem s)"
    "runes s = chars_of (if character_size s = 4 then 4 else 1) (nat (str_length s)) (str_mem s)"
    "max (character_size s) 4 = 4" "character_size s = (if character_size s = 4 then 4 else 1)"
    "length (runes s) = nat (str_length s)"
  using assms by (auto simp: str_inv_def runes_def)

lemma combined:
  assumes inv: "str_inv s" "str_inv t" and n: "small (str_length s + str_length t)"
    and dr: "dr \<longleftrightarrow> character_size s = 4 \<or> character_size t = 4"
  defines "len \<equiv> str_length s + str_length t"
  defines "len_max \<equiv> max_len len"
  shows "\<exists>m. combine dr (replicate (nat len_max * (if dr then 4 else 1)) 0) (character_size s = 4) (str_length s)
      (str_mem s) (character_size t = 4) (str_length t) (str_mem t) = Inr m \<and>
    (\<forall>r. str_length r = len \<and> str_length_max r = len_max \<and> str_mem r = m \<and> is_alloc r \<and>
      character_size r = (if dr then 4 else 1) \<longrightarrow> runes r = runes s @ runes t \<and> str_inv r \<and> cap_inv r)"
proof -
  let ?w = "if dr then 4 else 1 :: nat"
  note s = inv_width [OF inv(1)] and t = inv_width [OF inv(2)]
  note sm = small_ok [OF n, folded len_def, folded len_max_def]
  have len: "0 \<le> len" "len < 2 ^ 31" using sm(8,9) .
  have fit: "nat len * ?w \<le> length (replicate (nat len_max * ?w) (0::byte_t))"
    using sm(6) by simp
  obtain m where m: "combine dr (replicate (nat len_max * ?w) 0) (character_size s = 4) (str_length s)
      (str_mem s) (character_size t = 4) (str_length t) (str_mem t) = Inr m"
    "length m = nat len_max * ?w" "chars_of ?w (nat len) m = runes s @ runes t"
    "drop (nat len * ?w) m = drop (nat len * ?w) (replicate (nat len_max * ?w) 0)"
    using combine_ok [OF s(1) t(1) s(2) t(2) _ fit [unfolded len_def]] dr s(3) t(3)
    unfolding len_def by auto
  have "runes r = runes s @ runes t \<and> str_inv r \<and> cap_inv r"
    if r: "str_length r = len" "str_length_max r = len_max" "str_mem r = m" "is_alloc r" "character_size r = ?w" for r
  proof -
    have ru: "runes r = runes s @ runes t" using r m(3) by (simp add: runes_def)
    have "list_all (\<lambda>r. r \<le> max_supported_codepoint) (runes r)"
      using inv by (simp add: ru str_inv_def)
    moreover have "character_size r = 1 \<longrightarrow> list_all (\<lambda>r. r \<le> max_codepoint_ascii) (runes r)"
      using inv dr r(5) by (auto simp: ru str_inv_def)
    moreover have "list_all (\<lambda>b. b = 0) (drop (nat len * ?w) m)"
      unfolding m(4) by (simp add: list_all_iff)
    moreover have "nat len * ?w \<le> length m" using fit m(2) by simp
    ultimately have "str_inv r" using r len by (simp add: str_inv_def)
    moreover have "cap_inv r" using r m(2) sm(7) len by (auto simp: cap_inv_def nat_mult_distrib)
    ultimately show ?thesis using ru by blast
  qed
  with m(1) show ?thesis by blast
qed

text \<open>appending to a string the caller owns (reference count at most one) never fails
  while the total length is within the 32-bit range: the code points become those of the one
  followed by those of the other, whatever the character sizes of the two, and both
  invariants hold afterwards.\<close>

theorem append_string_runes:
  assumes "str_inv s" "cap_inv s" "str_inv t" "str_ref_count s \<le> 1" "small (str_length s + str_length t)"
  shows "\<exists>r. append_string s t = Inr r \<and> runes r = runes s @ runes t \<and> str_inv r \<and> cap_inv r"
proof (cases "str_length t = 0")
  case True
  then have "runes t = []" using inv_width(6) [OF assms(3)] by simp
  with True assms show ?thesis by (simp add: append_string_def)
next
  case False
  let ?dr = "character_size s = 4 \<or> character_size t = 4"
  obtain m where m: "combine ?dr (replicate (nat (max_len (str_length s + str_length t))
        * (if ?dr then 4 else 1)) 0) (character_size s = 4) (str_length s)
      (str_mem s) (character_size t = 4) (str_length t) (str_mem t) = Inr m"
    and r: "\<And>r. str_length r = str_length s + str_length t \<Longrightarrow>
      str_length_max r = max_len (str_length s + str_length t) \<Longrightarrow>
      str_mem r = m \<Longrightarrow> is_alloc r \<Longrightarrow> character_size r = (if ?dr then 4 else 1) \<Longrightarrow>
      runes r = runes s @ runes t \<and> str_inv r \<and> cap_inv r"
    using combined [OF assms(1,3,5) refl] by blast
  note sm = small_ok [OF assms(5)]
  have "append_string s t = Inr (s\<lparr> str_length := str_length s + str_length t,
      str_length_max := max_len (str_length s + str_length t),
      encoded_str := NoEncoding, str_mem := m, is_alloc := True, character_size := (if ?dr then 4 else 1) \<rparr>)"
    using False assms(4) inv_width(1) [OF assms(3)] m sm
    by (cases ?dr) (simp_all add: append_string_def Let_def)
  with r show ?thesis by simp
qed

text \<open>the constructor that concatenates two strings into a new one (neither operand is
  changed): the code points are those of the first followed by those of the second, and
  both invariants hold of the result.\<close>

theorem string_concat_runes:
  assumes "str_inv s" "str_inv t" "small (str_length s + str_length t)"
  shows "\<exists>r. string_concat s t = Inr r \<and> runes r = runes s @ runes t \<and> str_inv r \<and> cap_inv r"
proof -
  let ?dr = "character_size s = 4 \<or> character_size t = 4"
  let ?w = "if ?dr then 4 else 1 :: nat"
  obtain m where m: "combine ?dr (replicate (nat (max_len (str_length s + str_length t)) * ?w) 0)
      (character_size s = 4) (str_length s)
      (str_mem s) (character_size t = 4) (str_length t) (str_mem t) = Inr m"
    and r: "\<And>r. str_length r = str_length s + str_length t \<Longrightarrow>
      str_length_max r = max_len (str_length s + str_length t) \<Longrightarrow>
      str_mem r = m \<Longrightarrow> is_alloc r \<Longrightarrow> character_size r = ?w \<Longrightarrow>
      runes r = runes s @ runes t \<and> str_inv r \<and> cap_inv r"
    using combined [OF assms refl] by blast
  note sm = small_ok [OF assms(3)]
  have "character_size s \<in> {1, 4}" "character_size t \<in> {1, 4}"
    using assms(1,2) by (simp_all add: str_inv_def)
  then have w: "max (character_size s) (character_size t) = ?w" by auto
  have w4: "(?w = 4) = ?dr" by auto
  have "rbind (swrap (max_len (str_length s + str_length t) * int ?w)) alloc_memory
      = Inr (replicate (nat (max_len (str_length s + str_length t)) * ?w) 0)"
    using sm by auto
  then obtain a where a: "swrap (max_len (str_length s + str_length t) * int ?w) = Inr a"
      "alloc_memory a = Inr (replicate (nat (max_len (str_length s + str_length t)) * ?w) 0)"
    unfolding rbind_eq_Inr by blast
  have "string_concat s t = Inr \<lparr> str_length = str_length s + str_length t,
      str_length_max = max_len (str_length s + str_length t),
      encoded_str = NoEncoding, str_mem = m, character_size = ?w, is_alloc = True, str_ref_count = 1 \<rparr>"
    unfolding string_concat_def w Let_def sm(1,2) rbind_simps a w4 m by (rule refl)
  with r show ?thesis by simp
qed

section \<open>Slices\<close>

lemma chars_slice:
  assumes "sz \<in> {1, 4}" "b + n \<le> l" "l * sz \<le> length m"
  shows "chars_of sz n (take (n * sz) (drop (b * sz) m) @ ys) = take n (drop b (chars_of sz l m))"
proof -
  have le: "b * sz + n * sz \<le> length m"
    using assms by (metis add_mult_distrib le_trans mult_le_mono1)
  consider "sz = 1" | "sz = 4" using assms by auto
  then show ?thesis
  proof cases
    case 1
    then have "length (take n (drop b m)) = n" using le by simp
    then have "take n (take n (drop b m) @ ys) = take n (drop b m)" by simp
    also have "\<dots> = take n (drop b (take l m))" using assms(2) by (simp add: drop_take min_def)
    finally show ?thesis using 1 by (simp add: chars_of_def take_map drop_map)
  next
    case 2
    have "elems word32 4 n (take (n * 4) (drop (b * 4) m) @ ys) = take n (drop b (elems word32 4 l m))"
    proof (rule nth_equalityI)
      fix i assume "i < length (elems word32 4 n (take (n * 4) (drop (b * 4) m) @ ys))"
      then have i: "i < n" by simp
      define t where "t = take (n * 4) (drop (b * 4) m)"
      have "length t = n * 4" using le 2 by (simp add: t_def)
      moreover have "i * 4 + 4 \<le> n * 4" using i by simp
      ultimately have "take 4 (drop (i * 4) (t @ ys)) = take 4 (drop (i * 4) t)" by simp
      also have "\<dots> = take 4 (drop ((b + i) * 4) m)"
        using \<open>i * 4 + 4 \<le> n * 4\<close> by (simp add: t_def drop_take min_def algebra_simps)
      finally have "take 4 (drop (i * 4) (take (n * 4) (drop (b * 4) m) @ ys)) = take 4 (drop ((b + i) * 4) m)"
        unfolding t_def .
      with i assms(2) show "elems word32 4 n (take (n * 4) (drop (b * 4) m) @ ys) ! i
          = take n (drop b (elems word32 4 l m)) ! i" by simp
    qed (use assms in simp)
    with 2 show ?thesis by (simp add: chars_of_def)
  qed
qed

text \<open>taking a slice. Bounds are checked in the order of the constructor; within bounds
  the code points are exactly those from \<open>b\<close> up to \<open>e\<close>, and the result has the capacity it
  claims exactly if it was allocated or the claimed capacity fits the 16 local bytes: the
  slice of a local string keeps its local buffer but claims a larger capacity.\<close>

theorem string_slice_spec:
  assumes inv: "str_inv s" and n: "small (str_length s)" and r: "\<bar>b\<bar> < 2 ^ 27" "\<bar>e\<bar> < 2 ^ 27"
  shows "if e < b then string_slice s b e = Inl OutOfRangeMemory
    else if b < 0 then string_slice s b e = Inl (IndexOutOfRange 0 (str_length s) b)
    else if str_length s < e then string_slice s b e = Inl (IndexOutOfRange 0 (str_length s) e)
    else \<exists>t. string_slice s b e = Inr t \<and> runes t = take (nat (e - b)) (drop (nat b) (runes s)) \<and> str_inv t \<and>
      (cap_inv t \<longleftrightarrow> is_alloc s \<or> nat (max_len (e - b)) * character_size s \<le> local_size)"
proof -
  have w: "swrap (e - b) = Inr (e - b)" using r by (simp add: swrap_def in_word_def abs_if split: if_splits)
  show ?thesis
  proof (cases "e < b")
    case True
    have q: "(e - b) sdiv 4 = - ((b - e) div 4)"
      using True by (auto simp: signed_divide_int_def sgn_if)
    have "(b - e) div 4 \<le> b - e" "0 \<le> (b - e) div 4" using True by auto
    then have "in_word (e - b + 1 + (e - b) sdiv 4)"
      using r True unfolding q in_word_def by (simp add: abs_if split: if_splits)
    then have "compute_max_length (e - b) = Inr (e - b + 1 + (e - b) sdiv 4)"
      by (simp add: compute_max_length_def swrap_def)
    with True w show ?thesis by (simp add: string_slice_def)
  next
    case False
    then have "small (e - b)" using r by (simp add: small_def abs_if split: if_splits)
    note sm = small_ok [OF this]
    show ?thesis
    proof (cases "b < 0 \<or> str_length s < e")
      case True
      with False w sm show ?thesis by (auto simp: string_slice_def)
    next
      case ok: False
      let ?sz = "character_size s" and ?k = "nat (e - b)"
      have sz: "?sz \<in> {1, 4}" using inv by (simp add: str_inv_def)
      have l: "nat b + ?k \<le> nat (str_length s)" using ok False by linarith
      have m: "nat (str_length s) * ?sz \<le> length (str_mem s)" using inv by (simp add: str_inv_def)
      have le: "nat b * ?sz + ?k * ?sz \<le> length (str_mem s)"
        using l m by (metis add_mult_distrib le_trans mult_le_mono1)
      define src where "src = take (?k * ?sz) (drop (nat b * ?sz) (str_mem s))"
      have p: "peek (nat b * ?sz) (?k * ?sz) (str_mem s) = Inr src" using le by (simp add: peek_def src_def)
      have ls: "length src = ?k * ?sz" using le by (simp add: src_def)
      define dn where "dn = (if is_alloc s then nat (max_len (e - b)) * ?sz else local_size)"
      have "(if is_alloc s then rbind (swrap (max_len (e - b) * int ?sz)) alloc_memory
          else Inr (replicate local_size 0)) = Inr (replicate dn 0)"
        using sm sz by (auto simp: dn_def)
      moreover have fit: "?k * ?sz \<le> dn"
      proof (cases "is_alloc s")
        case True with sm(6) show ?thesis by (simp add: dn_def)
      next
        case False
        then have "length (str_mem s) = local_size" using inv by (simp add: str_inv_def)
        with le False show ?thesis by (simp add: dn_def)
      qed
      moreover have "poke 0 src (replicate dn 0) = Inr (src @ replicate (dn - ?k * ?sz) 0)"
        using fit ls by (simp add: poke_def)
      moreover define t where "t = \<lparr> str_length = e - b, str_length_max = max_len (e - b),
          encoded_str = NoEncoding, str_mem = src @ replicate (dn - ?k * ?sz) 0, character_size = ?sz,
          is_alloc = is_alloc s, str_ref_count = 1 \<rparr>"
      ultimately have s: "string_slice s b e = Inr t"
        using ok False w sm(2) p by (simp add: string_slice_def)
      have t: "str_length t = e - b" "str_length_max t = max_len (e - b)" "character_size t = ?sz"
        "str_mem t = src @ replicate (dn - ?k * ?sz) 0" "is_alloc t = is_alloc s"
        by (simp_all add: t_def)
      have ru: "runes t = take ?k (drop (nat b) (runes s))"
        using chars_slice [OF sz l m, of "replicate (dn - ?k * ?sz) 0"] by (simp add: runes_def src_def t)
      have sub: "set (runes t) \<subseteq> set (runes s)"
        unfolding ru by (meson set_drop_subset set_take_subset subset_trans)
      have la: "list_all P (runes s) \<Longrightarrow> list_all P (runes t)" for P
        using sub by (auto simp: list_all_iff)
      have len: "length (str_mem t) = dn" using fit ls by (simp add: t)
      have "list_all (\<lambda>b. b = 0) (drop (?k * ?sz) (str_mem t))"
        using ls by (simp add: t list_all_iff)
      then have "str_inv t"
        using inv sm(8,9) fit la unfolding str_inv_def len t(1,3,5) by (simp add: dn_def)
      moreover have "cap_inv t \<longleftrightarrow> is_alloc s \<or> nat (max_len (e - b)) * ?sz \<le> local_size"
        using sm(7,8) unfolding cap_inv_def len t(2,3) by (simp add: dn_def)
      ultimately show ?thesis using s ru ok False by auto
    qed
  qed
qed

section \<open>Access to one code point\<close>

lemma scast_ascii: "(ucast (c :: byte_t) :: rune_t) \<le> 0x7f \<Longrightarrow> (scast c :: rune_t) = ucast c"
proof -
  assume a: "(ucast c :: rune_t) \<le> 0x7f"
  have "unat (ucast c :: rune_t) = unat c"
    using unat_byte [of c] by (simp add: unat_ucast_small)
  with a have u: "unat c < 128" by (simp add: word_le_nat_alt)
  then have "int (unat c) < int (2 ^ 7)" unfolding of_nat_less_iff by simp
  then have "uint c < 2 ^ 7" by simp
  then have "signed_take_bit 7 (uint c) = uint c"
    by (intro signed_take_bit_int_eq_self) (auto intro: order_trans [OF _ uint_ge_0])
  then have "sint c = uint c" using sint_uint [of c] by simp
  then show ?thesis by (metis scast_eq ucast_eq)
qed

text \<open>reading a code point inside the string gives the code point there; any other index
  raises the bounds error with the range 0 to length - 1.\<close>

theorem get_rune_spec:
  assumes "str_inv s"
  shows "get_rune s i = (if 0 \<le> i \<and> i < str_length s then Inr (runes s ! nat i)
      else Inl (IndexOutOfRange 0 (str_length s - 1) i))"
proof (cases "0 \<le> i \<and> i < str_length s")
  case True
  then have i: "nat i < nat (str_length s)" by simp
  have m: "nat (str_length s) * character_size s \<le> length (str_mem s)" "character_size s \<in> {1, 4}"
    using assms by (simp_all add: str_inv_def)
  show ?thesis
  proof (cases "character_size s = 1")
    case one: True
    let ?c = "take (nat (str_length s)) (str_mem s) ! nat i"
    have r: "runes s ! nat i = ucast ?c" using i m one by (simp add: runes_def chars_of_def)
    have "runes s ! nat i \<le> max_codepoint_ascii"
      using assms one i m by (simp add: str_inv_def runes_def list_all_length)
    then have "(scast ?c :: rune_t) = ucast ?c"
      unfolding r max_codepoint_ascii_def by (rule scast_ascii)
    moreover have "get_elem (\<lambda>bs. bs ! 0) 1 (nat i) (str_mem s) = Inr ?c"
      using byte_codec.get_ok [OF i, of "str_mem s"] m(1) one by (simp add: elems_bytes [simplified])
    ultimately show ?thesis using True one r by (simp add: get_rune_def)
  next
    case False
    with m have "character_size s = 4" by simp
    then show ?thesis
      using True False word_codec.get_ok [OF i, of "str_mem s"] m(1) i
      by (simp add: get_rune_def runes_def chars_of_def)
  qed
qed (auto simp: get_rune_def)

lemma put_char_ok:
  assumes "i < n" "n * sz \<le> length b" "sz \<in> {1, 4}" "sz = 1 \<longrightarrow> c \<le> max_codepoint_ascii"
  obtains b' where "(if sz \<noteq> 1 then put_elem bytes32 4 i c b
      else put_elem (\<lambda>x. [x]) 1 i (ucast (c AND max_codepoint_ascii)) b) = Inr b'" "length b' = length b"
    "chars_of sz n b' = (chars_of sz n b)[i := c]" "drop (n * sz) b' = drop (n * sz) b"
proof -
  have u: "unat c \<le> 0x7f" if "c \<le> max_codepoint_ascii"
    using that by (simp add: max_codepoint_ascii_def word_le_nat_alt)
  have a: "c AND max_codepoint_ascii = c" if "c \<le> max_codepoint_ascii"
    using u [OF that] by (simp add: word_unat_eq_iff max_codepoint_ascii_def and_low_mask)
  have "sz = 1 \<longrightarrow> unat c < 256" using u assms(4) by force
  then obtain b' where "store_char sz b i c = Inr b'" "length b' = length b"
    "chars_of sz n b' = (chars_of sz n b)[i := c]" "drop (n * sz) b' = drop (n * sz) b"
    using store_char_ok [OF assms(1-3)] by blast
  with a assms(3,4) that show thesis by (auto simp: store_char_def split: if_splits)
qed

lemma grown_ok:
  assumes "small n" and w: "w \<in> {1, 4}"
  obtains m a where "(if n = 0 then Inr local_max_length else compute_max_length n) = Inr m" "n < m"
    "swrap (m * int w) = Inr a" "alloc_memory a = Inr (replicate (nat m * w) 0)"
proof (cases "n = 0")
  case True
  have "swrap (15 * int w) = Inr (15 * int w)" using w by (auto simp: swrap_def in_word_def)
  then show thesis
    using True that [of 15 "15 * int w"] w
    by (auto simp: local_max_length_def local_size_def alloc_memory_def)
next
  case False
  note sm = small_ok [OF assms(1)]
  have "\<exists>a. swrap (max_len n * int w) = Inr a \<and> alloc_memory a = Inr (replicate (nat (max_len n) * w) 0)"
    using w sm(3-5) unfolding rbind_eq_Inr by auto
  with False sm that show thesis by auto
qed

lemma set_char:
  fixes s :: vm_string
  assumes inv: "0 \<le> str_length s" "str_length s + 1 < 2 ^ 31" "character_size s \<in> {1, 4}"
      "\<not> is_alloc s \<longrightarrow> length (str_mem s) = local_size"
      "list_all (\<lambda>b. b = 0) (drop (nat (str_length s) * character_size s) (str_mem s))"
      "character_size s = 1 \<longrightarrow> list_all (\<lambda>r. r \<le> max_codepoint_ascii) (runes s) \<and> v \<le> max_codepoint_ascii"
      "list_all (\<lambda>r. r \<le> max_supported_codepoint) (runes s)" "v \<le> max_supported_codepoint"
      "nat (str_length s) * character_size s \<le> length (str_mem s)"
    and cap: "cap_inv s" "i < str_length_max s" "0 \<le> i" "i \<le> str_length s"
  obtains m where "(if character_size s \<noteq> 1 then put_elem bytes32 4 (nat i) v (str_mem s)
      else put_elem (\<lambda>x. [x]) 1 (nat i) (ucast (v AND max_codepoint_ascii)) (str_mem s)) = Inr m"
    "\<And>r. r = s\<lparr> str_mem := m, str_length := (if str_length s = i then str_length s + 1 else str_length s) \<rparr> \<Longrightarrow>
      runes r = (if i = str_length s then runes s @ [v] else (runes s)[nat i := v]) \<and> str_inv r \<and> cap_inv r"
proof -
  let ?sz = "character_size s"
  let ?n = "nat (if str_length s = i then str_length s + 1 else str_length s)"
  have n: "nat i < ?n" using cap by auto
  have fit: "?n * ?sz \<le> length (str_mem s)"
  proof (cases "str_length s = i")
    case True
    then have "?n * ?sz \<le> nat (str_length_max s) * ?sz" using cap by (intro mult_le_mono1) simp
    with cap(1) show ?thesis unfolding cap_inv_def by linarith
  qed (use inv(9) in simp)
  obtain m where m: "(if ?sz \<noteq> 1 then put_elem bytes32 4 (nat i) v (str_mem s)
      else put_elem (\<lambda>x. [x]) 1 (nat i) (ucast (v AND max_codepoint_ascii)) (str_mem s)) = Inr m"
    "length m = length (str_mem s)" "chars_of ?sz ?n m = (chars_of ?sz ?n (str_mem s))[nat i := v]"
    "drop (?n * ?sz) m = drop (?n * ?sz) (str_mem s)"
    using put_char_ok [OF n fit inv(3), of v] inv(6) by metis
  have l: "length (chars_of ?sz ?n (str_mem s)) = ?n" using fit inv(3) by simp
  have t: "take (nat (str_length s)) (chars_of ?sz ?n (str_mem s)) = runes s"
    unfolding runes_def by (rule chars_take) (use inv(1) in auto)
  have ru: "chars_of ?sz ?n m = (if i = str_length s then runes s @ [v] else (runes s)[nat i := v])"
  proof (cases "i = str_length s")
    case True
    have "chars_of ?sz ?n m = take (nat i) (chars_of ?sz ?n (str_mem s)) @ [v]"
      using m(3) n l True inv(1) by (simp add: upd_conv_take_nth_drop)
    with True t show ?thesis by simp
  next
    case False
    with m(3) t l show ?thesis by simp
  qed
  have tail: "list_all (\<lambda>b. b = 0) (drop (?n * ?sz) m)"
  proof -
    have "set (drop (?n * ?sz) (str_mem s)) \<subseteq> set (drop (nat (str_length s) * ?sz) (str_mem s))"
      by (rule set_drop_subset_set_drop) (use inv(1) in auto)
    then show ?thesis using inv(5) unfolding m(4) by (auto simp: list_all_iff)
  qed
  have la: "list_all P (chars_of ?sz ?n m)" if "list_all P (runes s)" "P v" for P
  proof -
    have "set ((runes s)[nat i := v]) \<subseteq> insert v (set (runes s))" by (rule set_update_subset_insert)
    then show ?thesis using that unfolding ru by (auto simp: list_all_iff)
  qed
  have "runes r = (if i = str_length s then runes s @ [v] else (runes s)[nat i := v]) \<and> str_inv r \<and> cap_inv r"
    if r: "r = s\<lparr> str_mem := m, str_length := (if str_length s = i then str_length s + 1 else str_length s) \<rparr>" for r
  proof -
    have f: "str_mem r = m" "str_length r = (if str_length s = i then str_length s + 1 else str_length s)"
      "character_size r = ?sz" "is_alloc r = is_alloc s" "str_length_max r = str_length_max s"
      using r by simp_all
    have rr: "runes r = chars_of ?sz ?n m" unfolding runes_def f ..
    have "0 \<le> str_length r" "str_length r < 2 ^ 31" using f(2) inv(1,2) by auto
    then have "str_inv r"
      using inv(3,4) fit tail la [of "\<lambda>r. r \<le> max_supported_codepoint"] inv(6-8)
        la [of "\<lambda>r. r \<le> max_codepoint_ascii"]
      unfolding str_inv_def rr f(1,3,4) f(2) m(2) by blast
    moreover have "cap_inv r" using cap(1) m(2) unfolding cap_inv_def f by simp
    ultimately show ?thesis using ru rr by simp
  qed
  with m(1) that show thesis by blast
qed

text \<open>C40: storing a code point at an index of a string the caller owns, or just behind its
  end: the code points become the updated or extended sequence, whatever reallocation or
  widening to four bytes per character that takes, and both invariants are kept.\<close>

theorem set_rune_runes:
  assumes inv: "str_inv s" "cap_inv s" "str_ref_count s \<le> 1"
    and n: "small (str_length s)" and v: "v \<le> max_supported_codepoint" and i: "0 \<le> i" "i \<le> str_length s"
  shows "\<exists>r. set_rune s i v = Inr r \<and> str_inv r \<and> cap_inv r \<and>
    runes r = (if i = str_length s then runes s @ [v] else (runes s)[nat i := v])"
proof -
  let ?new = "if v > max_codepoint_ascii then 4 else 1 :: nat"
  have len: "0 \<le> str_length s" "str_length s + 1 < 2 ^ 31" using n by (auto simp: small_def)
  have sz: "character_size s \<in> {1, 4}" using inv(1) by (simp add: str_inv_def)
  obtain m1 a1 where g1: "(if str_length s = 0 then Inr local_max_length else compute_max_length (str_length s)) = Inr m1"
    "str_length s < m1" "swrap (m1 * int ?new) = Inr a1" "alloc_memory a1 = Inr (replicate (nat m1 * ?new) 0)"
    using grown_ok [OF n, of ?new] by (metis insertI1 insertI2)
  obtain m2 a2 where g2: "(if str_length s = 0 then Inr local_max_length else compute_max_length (str_length s)) = Inr m2"
    "str_length s < m2" "swrap (m2 * int (character_size s)) = Inr a2"
    "alloc_memory a2 = Inr (replicate (nat m2 * character_size s) 0)"
    using grown_ok [OF n sz] by auto
  have dom: "\<not> (i < 0 \<or> str_length s < i)" "\<not> v > max_supported_codepoint" using i v by auto
  define store where "store = (\<lambda>s' :: vm_string. rbind (if character_size s' \<noteq> 1 then put_elem bytes32 4 (nat i) v (str_mem s')
                    else put_elem (\<lambda>x. [x]) 1 (nat i) (ucast (v AND max_codepoint_ascii)) (str_mem s'))
               (\<lambda>mem. Inr (s'\<lparr> str_mem := mem,
                  str_length := (if str_length s' = i then str_length s' + 1 else str_length s') \<rparr>)))"
  have fin: ?thesis
    if "set_rune s i v = store s'" "runes s' = runes s" "str_length s' = str_length s"
      "character_size s' \<in> {1, 4}" "\<not> is_alloc s' \<longrightarrow> length (str_mem s') = local_size"
      "list_all (\<lambda>b. b = 0) (drop (nat (str_length s) * character_size s') (str_mem s'))"
      "character_size s' = 1 \<longrightarrow> character_size s = 1 \<and> v \<le> max_codepoint_ascii"
      "nat (str_length s) * character_size s' \<le> length (str_mem s')"
      "cap_inv s'" "i < str_length_max s'" for s'
  proof -
    have "character_size s' = 1 \<longrightarrow> list_all (\<lambda>r. r \<le> max_codepoint_ascii) (runes s') \<and> v \<le> max_codepoint_ascii"
      "list_all (\<lambda>r. r \<le> max_supported_codepoint) (runes s')"
      using that(2,7) inv(1) by (auto simp: str_inv_def)
    note h = this
    have l: "0 \<le> str_length s'" "str_length s' + 1 < 2 ^ 31" "i \<le> str_length s'"
      using that(3) len i by simp_all
    note p = that(4-6,8-10) and eq = that(1-3)
    obtain m where m: "(if character_size s' \<noteq> 1 then put_elem bytes32 4 (nat i) v (str_mem s')
        else put_elem (\<lambda>x. [x]) 1 (nat i) (ucast (v AND max_codepoint_ascii)) (str_mem s')) = Inr m"
      and r: "\<And>r. r = s'\<lparr> str_mem := m, str_length := (if str_length s' = i then str_length s' + 1 else str_length s') \<rparr> \<Longrightarrow>
        runes r = (if i = str_length s' then runes s' @ [v] else (runes s')[nat i := v]) \<and> str_inv r \<and> cap_inv r"
      by (rule set_char [OF l(1,2) p(1,2) p(3) [folded eq(3)] h v p(4) [folded eq(3)] p(5,6) i(1) l(3)]) (rule that)
    have "set_rune s i v = Inr (s'\<lparr> str_mem := m, str_length := (if str_length s' = i then str_length s' + 1 else str_length s') \<rparr>)"
      unfolding eq(1) store_def m rbind_simps ..
    with r [OF refl] show ?thesis unfolding eq(2,3) by blast
  qed
  have mem: "nat (str_length s) * character_size s \<le> length (str_mem s)"
    "list_all (\<lambda>b. b = 0) (drop (nat (str_length s) * character_size s) (str_mem s))"
    "\<not> is_alloc s \<longrightarrow> length (str_mem s) = local_size"
    using inv(1) by (simp_all add: str_inv_def)
  consider (widen) "?new > character_size s" | (grow) "\<not> ?new > character_size s" "str_length_max s \<le> i"
    | (store) "\<not> ?new > character_size s" "i < str_length_max s" by linarith
  then show ?thesis
  proof cases
    case widen
    then have w: "?new = 4" "character_size s = 1" using sz by (auto split: if_splits)
    let ?k = "nat (str_length s)"
    have fit: "?k * 4 \<le> nat m1 * 4" using g1(2) by simp
    have c1: "(1::nat) \<in> {1, 4}" "(4::nat) \<in> {1, 4}" by simp_all
    obtain d where d: "copy_loop 4 0 1 (str_mem s) [0..<?k] (replicate (nat m1 * 4) 0) = Inr d"
      "length d = nat m1 * 4" "chars_of 4 ?k d = chars_of 1 ?k (str_mem s)"
      "drop (?k * 4) d = drop (?k * 4) (replicate (nat m1 * 4) 0)"
      using copy_loop_ok [OF c1(2,1), of ?k "str_mem s" 0 "replicate (nat m1 * 4) 0" 0] mem(1) w fit
      by (auto simp: chars_of_def elems_def)
    let ?s = "s\<lparr> encoded_str := NoEncoding, character_size := 4, str_length_max := m1, str_mem := d, is_alloc := True \<rparr>"
    have "set_rune s i v = store ?s"
      using inv(3) dom w g1 d(1)
      by (simp add: set_rune_def Let_def store_def copy_characters_to_def)
    moreover have "runes ?s = runes s" using d(3) w by (simp add: runes_def)
    ultimately show ?thesis
      by (rule fin) (use d w g1(2) i fit in \<open>simp_all add: cap_inv_def list_all_iff\<close>)
  next
    case grow
    let ?k = "nat (str_length s) * character_size s"
    have fit: "?k \<le> nat m2 * character_size s" using g2(2) by (intro mult_le_mono1 nat_mono) simp
    let ?d = "take ?k (str_mem s) @ replicate (nat m2 * character_size s - ?k) 0"
    let ?s = "s\<lparr> encoded_str := NoEncoding, str_length_max := m2, str_mem := ?d, is_alloc := True \<rparr>"
    have "peek 0 ?k (str_mem s) = Inr (take ?k (str_mem s))" using mem(1) by (simp add: peek_def)
    moreover have "poke 0 (take ?k (str_mem s)) (replicate (nat m2 * character_size s) 0) = Inr ?d"
      using mem(1) fit by (simp add: poke_def)
    ultimately have "set_rune s i v = store ?s"
      using inv(3) dom grow g2 by (simp add: set_rune_def Let_def store_def)
    moreover have "runes ?s = runes s"
      using chars_slice [OF sz _ mem(1), of 0 "nat (str_length s)"] mem(1) sz by (simp add: runes_def)
    ultimately show ?thesis
      by (rule fin) (use mem sz grow g2(2) i fit in \<open>auto simp: cap_inv_def list_all_iff split: if_splits\<close>)
  next
    case store
    let ?s = "s\<lparr> encoded_str := NoEncoding \<rparr>"
    have "set_rune s i v = store ?s"
      using inv(3) dom store by (simp add: set_rune_def Let_def store_def)
    moreover have "runes ?s = runes s" by (simp add: runes_def)
    ultimately show ?thesis
      by (rule fin) (use mem sz store inv(2) in \<open>auto simp: cap_inv_def split: if_splits\<close>)
  qed
qed

section \<open>The UTF-8 form\<close>

lemma encode_length: "encode r = Inr f \<Longrightarrow> f \<noteq> [] \<and> length f \<le> 4"
  by (auto simp: encode_def split: if_splits)

lemma encode_all_length: "encode_all rs = Inr e \<Longrightarrow> length rs \<le> length e \<and> length e \<le> 4 * length rs"
proof (induction rs arbitrary: e)
  case (Cons r rs)
  then obtain f g where fg: "encode r = Inr f" "encode_all rs = Inr g" "e = f @ g"
    by (auto simp: rbind_eq_Inr)
  then have "1 \<le> length f" "length f \<le> 4" using encode_length [of r f] by (cases f; simp)+
  with fg Cons.IH [of g] show ?case by simp
qed simp

lemma byte_rune_byte: "ucast (ucast (b :: byte_t) :: rune_t) = b"
  using unat_byte [of b] by (simp add: word_unat_eq_iff unat_ucast_small)

lemma encode_all_ascii:
  "list_all (\<lambda>r. r \<le> max_codepoint_ascii) (map ucast bs) \<Longrightarrow> encode_all (map ucast bs) = Inr (bs :: byte_t list)"
  by (induction bs) (simp_all add: encode_def byte_rune_byte)

lemma encode_loop_ok:
  assumes "n * 4 \<le> length src" "k \<le> n" "encode_all (drop k (elems word32 4 n src)) = Inr e"
    "pos + length e \<le> length dest"
  shows "encode_loop [k..<n] src pos dest = Inr (pos + length e, take pos dest @ e @ drop (pos + length e) dest)"
  using assms(2-)
proof (induction "n - k" arbitrary: k pos dest e)
  case 0
  then show ?case by simp
next
  case (Suc d)
  then have k: "k < n" by simp
  let ?r = "elems word32 4 n src ! k"
  have dr: "drop k (elems word32 4 n src) = ?r # drop (Suc k) (elems word32 4 n src)"
    using k by (intro nth_append_drop) simp
  obtain f g where fg: "encode ?r = Inr f" "encode_all (drop (Suc k) (elems word32 4 n src)) = Inr g" "e = f @ g"
    using Suc.prems(2) unfolding dr by (auto simp: rbind_eq_Inr)
  let ?d = "take pos dest @ f @ drop (pos + length f) dest"
  have p: "poke pos f dest = Inr ?d" using Suc.prems(3) fg(3) by (simp add: poke_def)
  have "encode_loop [Suc k..<n] src (pos + length f) ?d
      = Inr (pos + length f + length g, take (pos + length f) ?d @ g @ drop (pos + length f + length g) ?d)"
    using Suc.hyps(2) k fg(3) Suc.prems(3) by (intro Suc.hyps(1) fg(2)) simp_all
  moreover have "get_elem word32 4 k src = Inr ?r" using k assms(1) by (rule word_codec.get_ok)
  moreover have "take (pos + length f) ?d = take pos dest @ f" using Suc.prems(3) fg(3) by simp
  moreover have "drop (pos + length f + length g) ?d = drop (pos + length e) dest"
    using Suc.prems(3) fg(3) by (simp add: ac_simps)
  ultimately show ?case using k fg p by (simp add: upt_conv_Cons add.assoc)
qed

text \<open>the UTF-8 form of a string: after \<open>str\<close> the cached buffer holds the encodings of
  the code points followed by a zero byte, and the code points are unchanged.\<close>

theorem str_encodes:
  assumes "str_inv s" "cap_inv s" "encoded_str s = NoEncoding" "small (str_length s)"
    "encode_all (runes s) = Inr e"
  shows "\<exists>s'. str s = Inr s' \<and> runes s' = runes s \<and> take (length e + 1) (str_bytes s') = e @ [0]"
proof (cases "character_size s = 1")
  case True
  let ?n = "nat (str_length s)"
  have inv: "?n \<le> length (str_mem s)" "list_all (\<lambda>b. b = 0) (drop ?n (str_mem s))" "0 \<le> str_length s"
    using assms(1) True by (simp_all add: str_inv_def)
  have "runes s = map ucast (take ?n (str_mem s))" using True by (simp add: runes_def chars_of_def)
  then have e: "e = take ?n (str_mem s)"
    using assms(1,5) True encode_all_ascii [of "take ?n (str_mem s)"] by (simp add: str_inv_def)
  have sw: "swrap (str_length s + 1) = Inr (str_length s + 1)"
    using assms(4) by (simp add: small_def swrap_def in_word_def)
  show ?thesis
  proof (cases "str_length_max s \<le> str_length s")
    case full: True
    have le: "length e = ?n" using e inv(1) by simp
    have z: "take ?n (str_mem s) @ drop ?n (replicate (Suc ?n) 0) = e @ [0]"
      unfolding e drop_replicate by simp
    have "poke 0 (take ?n (str_mem s)) (replicate (Suc ?n) 0) = Inr (e @ [0])"
      using z le unfolding poke_def e [symmetric] le
      by (simp add: drop_replicate del: replicate_Suc)
    moreover have "alloc_memory (str_length s + 1) = Inr (replicate (Suc ?n) 0)"
      using inv(3) by (simp add: alloc_memory_def nat_add_distrib)
    moreover have "peek ?n 1 (e @ [0]) = Inr [0]" using e inv(1) by (simp add: peek_def)
    ultimately have "str s = Inr (s\<lparr> encoded_str := EncodedCopy (e @ [0]) \<rparr>)"
      using assms(3) True full sw inv(1) le
      by (simp add: str_def str_bytes_def Let_def peek_def del: replicate_Suc)
    then show ?thesis using True by (simp add: str_bytes_def runes_def)
  next
    case False
    then have lt: "?n < length (str_mem s)" using assms(2) True inv(3) by (auto simp: cap_inv_def)
    have d: "drop ?n (str_mem s) = 0 # drop (Suc ?n) (str_mem s)"
      using inv(2) nth_append_drop [OF lt] by simp
    then have "take 1 (drop ?n (str_mem s)) = [0]" by simp
    with lt have "peek ?n 1 (str_mem s) = Inr [0]" by (simp add: peek_def)
    then have "str s = Inr (s\<lparr> encoded_str := EncodedIsBuffer \<rparr>)"
      using assms(3) True False by (simp add: str_def str_bytes_def Let_def)
    moreover have "str_mem s ! ?n = 0" using d nth_append_drop [OF lt] by simp
    then have "take (length e + 1) (str_mem s) = e @ [0]"
      using e lt by (simp add: take_Suc_conv_app_nth min_def)
    ultimately show ?thesis by (simp add: str_bytes_def runes_def)
  qed
next
  case False
  let ?n = "nat (str_length s)"
  have sz: "character_size s = 4" and inv: "?n * 4 \<le> length (str_mem s)" "0 \<le> str_length s"
    using assms(1) False by (auto simp: str_inv_def)
  have ru: "runes s = elems word32 4 ?n (str_mem s)" using sz by (simp add: runes_def chars_of_def)
  have l: "length e \<le> ?n * 4" using encode_all_length [OF assms(5)] ru by simp
  have sw: "swrap (str_length s * 4) = Inr (str_length s * 4)" "swrap (str_length s * 4 + 1) = Inr (str_length s * 4 + 1)"
    using assms(4) by (simp_all add: small_def swrap_def in_word_def)
  have al: "alloc_memory (str_length s * 4 + 1) = Inr (replicate (?n * 4 + 1) 0)"
    using inv(2) by (simp add: alloc_memory_def nat_add_distrib nat_mult_distrib)
  let ?b = "e @ drop (length e) (replicate (?n * 4 + 1) 0)"
  have lp: "encode_loop [0..<?n] (str_mem s) 0 (replicate (?n * 4 + 1) 0) = Inr (length e, ?b)"
    using encode_loop_ok [OF inv(1), of 0 e 0 "replicate (?n * 4 + 1) 0"] assms(5) ru l by simp
  have pk: "poke (length e) [0] ?b = Inr (e @ [0] @ replicate (?n * 4 - length e) 0)"
    using l by (simp add: poke_def)
  have "str s = Inr (s\<lparr> encoded_str := EncodedCopy (e @ [0] @ replicate (?n * 4 - length e) 0) \<rparr>)"
    using assms(3) sz sw al lp pk by (simp add: str_def)
  then show ?thesis by (simp add: str_bytes_def runes_def)
qed

section \<open>Construction from UTF-8\<close>

lemma decode_encoded:
  assumes "encode r = Inr f" "scalar r" "r \<noteq> 0"
  shows "decode (f @ g) = Inr (length f, r)"
  using decode_seq [of "f @ g" "length f" r] encode_seq [of r f] assms by blast

lemma count_encoded:
  assumes "encode r = Inr f" "scalar r"
  shows "\<exists>c'. count_loop 0 c lst p cur (f @ g) = count_loop 0 c' (cur + length f - 1) (p + 1) (cur + length f) g"
proof (cases "r = 0")
  case True
  then have "f = [0]" using assms(1) by (simp add: encode_0)
  then show ?thesis by (auto simp: count_accept simp del: count_loop.simps)
next
  case False
  note d = decode_encoded [OF assms False, of g]
  obtain b fs where f: "f = b # fs" using encode_length [OF assms(1)] by (cases f) auto
  then have "b \<noteq> 0" using d encode_length [OF assms(1)] by (auto simp: decode_Cons)
  then have "count_loop 0 c lst p cur (f @ g) = count_loop 0 r (cur + length f - 1) (p + 1) (cur + length f)
      (drop (length f) (f @ g))"
    using d f count_accept [of c lst p cur b "fs @ g"] by (simp del: count_loop.simps)
  then show ?thesis by auto
qed

lemma count_encode_all:
  "encode_all rs = Inr e \<Longrightarrow> list_all scalar rs \<Longrightarrow>
     count_loop 0 c lst p cur e = (p + length rs, if rs = [] then lst else cur + length e - 1)"
proof (induction rs arbitrary: e c lst p cur)
  case (Cons r rs)
  then obtain f g where fg: "encode r = Inr f" "encode_all rs = Inr g" "e = f @ g"
    by (auto simp: rbind_eq_Inr)
  moreover from Cons.prems have "scalar r" "list_all scalar rs" by simp_all
  moreover obtain c' where "count_loop 0 c lst p cur (f @ g)
      = count_loop 0 c' (cur + length f - 1) (p + 1) (cur + length f) g"
    using count_encoded [OF fg(1) \<open>scalar r\<close>] by blast
  moreover have "rs = [] \<Longrightarrow> g = []" using fg(2) by simp
  ultimately show ?case
    using Cons.IH [of g c' "cur + length f - 1" "p + 1" "cur + length f"]
    by (cases "rs = []") (simp_all add: add.assoc)
qed simp

lemma decode_runes_ok:
  assumes "list_all (\<lambda>r. scalar r \<and> r \<noteq> 0) rs" "encode_all rs = Inr e"
    "(k + length rs) * 4 \<le> length dest"
  shows "\<exists>d. decode_runes [k..<k + length rs] e dest = Inr d \<and> length d = length dest \<and>
    elems word32 4 (k + length rs) d = elems word32 4 k dest @ rs \<and>
    drop ((k + length rs) * 4) d = drop ((k + length rs) * 4) dest"
  using assms
proof (induction rs arbitrary: k e dest)
  case (Cons r rs)
  obtain f g where fg: "encode r = Inr f" "encode_all rs = Inr g" "e = f @ g"
    using Cons.prems(2) by (auto simp: rbind_eq_Inr)
  have "decode e = Inr (length f, r)"
    using Cons.prems(1) fg decode_encoded by simp
  moreover obtain d1 where d1: "put_elem bytes32 4 k r dest = Inr d1"
    using word_codec.put_ok [of k "k + length (r # rs)" dest r] Cons.prems(3) by auto
  moreover have l1: "length d1 = length dest" using word_codec.put_length [OF d1] .
  moreover have "elems word32 4 (Suc k) d1 = elems word32 4 k dest @ [r]"
    using word_codec.elems_put [OF d1, of "Suc k"]
      by (simp add: elems_def list_update_append)
  moreover have "drop ((k + length (r # rs)) * 4) d1 = drop ((k + length (r # rs)) * 4) dest"
    using d1 unfolding put_elem_def by (rule poke_drop) simp
  moreover obtain d2 where "decode_runes [Suc k..<Suc k + length rs] g d1 = Inr d2" "length d2 = length d1"
      "elems word32 4 (Suc k + length rs) d2 = elems word32 4 (Suc k) d1 @ rs"
      "drop ((Suc k + length rs) * 4) d2 = drop ((Suc k + length rs) * 4) d1"
    using Cons.IH [of g "Suc k" d1] Cons.prems fg l1 by auto
  moreover have "[k..<k + length (r # rs)] = k # [Suc k..<Suc k + length rs]"
    by (subst upt_conv_Cons) simp_all
  ultimately show ?case using fg by (simp del: upt_Suc)
qed simp

lemma decode_runes_overflow:
  assumes "list_all (\<lambda>r. scalar r \<and> r \<noteq> 0) rs" "encode_all rs = Inr e"
    "length dest < (k + length rs) * 4" "k * 4 \<le> length dest" "4 dvd length dest"
  shows "decode_runes [k..<k + length rs] e dest = Inl (Undefined ''write past the buffer'')"
  using assms
proof (induction rs arbitrary: k e dest)
  case (Cons r rs)
  obtain f g where fg: "encode r = Inr f" "encode_all rs = Inr g" "e = f @ g"
    using Cons.prems(2) by (auto simp: rbind_eq_Inr)
  have d: "decode e = Inr (length f, r)"
    using Cons.prems(1) fg decode_encoded by simp
  show ?case
  proof (cases "length dest < Suc k * 4")
    case True
    moreover have "[k..<k + length (r # rs)] = k # [Suc k..<k + length (r # rs)]"
      by (rule upt_conv_Cons) simp
    ultimately show ?thesis using d by (simp add: put_elem_def poke_def bytes32_def del: upt_Suc)
  next
    case False
    then obtain d1 where d1: "put_elem bytes32 4 k r dest = Inr d1"
      using word_codec.put_ok [of k "Suc k" dest r] by auto
    moreover have l1: "length d1 = length dest" using word_codec.put_length [OF d1] .
    ultimately have "decode_runes [Suc k..<Suc k + length rs] g d1 = Inl (Undefined ''write past the buffer'')"
      using False Cons.prems fg by (intro Cons.IH) simp_all
    moreover have "[k..<k + length (r # rs)] = k # [Suc k..<Suc k + length rs]"
      by (subst upt_conv_Cons) simp_all
    ultimately show ?thesis using d d1 fg by (simp del: upt_Suc)
  qed
qed simp

lemma encode_all_single:
  "encode_all rs = Inr e \<Longrightarrow> length e = length rs \<Longrightarrow> list_all (\<lambda>r. r \<le> max_codepoint_ascii) rs \<and> rs = map ucast e"
proof (induction rs arbitrary: e)
  case (Cons r rs)
  then obtain f g where fg: "encode r = Inr f" "encode_all rs = Inr g" "e = f @ g"
    by (auto simp: rbind_eq_Inr)
  have "1 \<le> length f" using encode_length [OF fg(1)] by (cases f) auto
  with encode_all_length [OF fg(2)] Cons.prems(2) fg(3) have l: "length f = 1" "length g = length rs" by auto
  then have "r \<le> max_codepoint_ascii" "f = [ucast r]"
    using fg(1) by (auto simp: encode_def split: if_splits)
  moreover have "ucast (ucast r :: byte_t) = r" if "r \<le> max_codepoint_ascii"
    using that by (simp add: word_unat_eq_iff unat_ucast_small max_codepoint_ascii_def word_le_nat_alt)
  moreover have "list_all (\<lambda>r. r \<le> max_codepoint_ascii) rs" and eq: "rs = map ucast g"
    using Cons.IH [OF fg(2) l(2)] by blast+
  moreover have "r # rs = map ucast e" using calculation fg(3) by (subst eq) simp
  ultimately show ?case unfolding list.pred_inject by blast
qed simp

lemma new_string_inv:
  assumes "str_length s = int n" "character_size s = w" "w \<in> {1, 4}" "int n < 2 ^ 31"
    "\<not> is_alloc s \<longrightarrow> length (str_mem s) = local_size" "n * w \<le> length (str_mem s)"
    "list_all (\<lambda>b. b = 0) (drop (n * w) (str_mem s))" "runes s = rs"
    "w = 1 \<longrightarrow> list_all (\<lambda>r. r \<le> max_codepoint_ascii) rs" "list_all (\<lambda>r. r \<le> max_supported_codepoint) rs"
    "0 \<le> str_length_max s" "nat (str_length_max s) * w \<le> length (str_mem s)"
  shows "runes s = rs \<and> str_inv s \<and> cap_inv s"
  using assms by (simp add: str_inv_def cap_inv_def)

text \<open>constructing a string from the UTF-8 form of code points other than NUL. The code
  points of the string are the given ones and both invariants hold, except when the text is
  not ASCII, takes at most 15 bytes and has more than four code points: then the constructor
  decodes four-byte characters into its 16-byte local buffer and writes past it.\<close>

theorem string_of_utf8_valid:
  assumes "list_all (\<lambda>r. scalar r \<and> r \<noteq> 0) rs" "encode_all rs = Inr e" "rs \<noteq> []" "small (int (length e))"
  shows "if length e \<noteq> length rs \<and> length e \<le> 15 \<and> 4 < length rs
    then string_of_utf8 e = Inl (Undefined ''write past the buffer'')
    else \<exists>s. string_of_utf8 e = Inr s \<and> runes s = rs \<and> str_inv s \<and> cap_inv s"
proof -
  let ?n = "length rs" and ?len = "length e"
  have le: "?n \<le> ?len" "?len \<le> 4 * ?n" using encode_all_length [OF assms(2)] by simp_all
  have ne: "e \<noteq> []" using le assms(3) by auto
  have sc: "list_all scalar rs" using assms(1) by (simp add: list_all_iff)
  have cnt: "count_codepoints (if ?len = 0 then None else Some e) = (?n, ?len)"
    using count_encode_all [OF assms(2) sc, of 0 0 0 0] assms(3) ne
    by (simp add: count_codepoints_def accept_def Suc_leI)
  have mx: "list_all (\<lambda>r. r \<le> max_supported_codepoint) rs"
    using assms(1) by (auto simp: list_all_iff codepoint_defs word_le_nat_alt scalar_def)
  have sn: "small (int ?n)" using assms(4) le by (simp add: small_def)
  show ?thesis
  proof (cases "?len = ?n")
    case True
    have asc: "list_all (\<lambda>r. r \<le> max_codepoint_ascii) rs" and eq: "map ucast e = rs"
      using encode_all_single [OF assms(2) True] by (blast, metis)
    define b where "b = (if 15 < ?len then nat (max_len (int ?n)) else 16)"
    define lm where "lm = (if 15 < ?len then max_len (int ?n) else 15)"
    note sm = small_ok [OF sn]
    have fit: "?n \<le> b" using sm(6) True by (simp add: b_def)
    let ?s = "\<lparr> str_length = int ?n, str_length_max = lm, encoded_str = NoEncoding,
      str_mem = e @ replicate (b - ?n) 0, character_size = 1, is_alloc = 15 < ?len, str_ref_count = 1 \<rparr>"
    have "poke 0 e (replicate b 0) = Inr (e @ replicate (b - ?n) 0)"
      using fit True by (simp add: poke_def)
    then have "string_of_utf8 e = Inr ?s"
      using True sm ne cnt unfolding string_of_utf8_def
      by (auto simp: Let_def local_max_length_def local_size_def b_def lm_def)
    moreover have "runes ?s = rs \<and> str_inv ?s \<and> cap_inv ?s"
    proof (rule new_string_inv)
      show "runes ?s = rs" using eq True by (simp add: runes_def chars_of_def)
    qed (use asc mx fit sm True in \<open>auto simp: local_size_def b_def lm_def list_all_iff\<close>)
    ultimately show ?thesis using True by auto
  next
    case multi: False
    note sm = small_ok [OF sn]
    have bytes: "elems word32 4 0 d = []" for d by (simp add: elems_def)
    show ?thesis
    proof (cases "?len \<le> 15 \<and> 4 < ?n")
      case True
      have "decode_runes [0..<0 + ?n] e (replicate 16 0) = Inl (Undefined ''write past the buffer'')"
        by (rule decode_runes_overflow [OF assms(1,2)]) (use True in simp_all)
      then show ?thesis
        using True multi cnt ne by (auto simp: string_of_utf8_def Let_def local_max_length_def local_size_def)
    next
      case False
      define b where "b = (if 15 < ?len then nat (max_len (int ?n)) * 4 else 16)"
      define lm where "lm = (if 15 < ?len then max_len (int ?n) else 3)"
      have fit: "(0 + ?n) * 4 \<le> length (replicate b 0)" using False sm(6) by (auto simp: b_def)
      obtain d where d: "decode_runes [0..<?n] e (replicate b 0) = Inr d" "length d = b"
        "elems word32 4 ?n d = rs" "drop (?n * 4) d = drop (?n * 4) (replicate b 0)"
        using decode_runes_ok [OF assms(1,2) fit] bytes by auto
      let ?s = "\<lparr> str_length = int ?n, str_length_max = lm, encoded_str = NoEncoding,
        str_mem = d, character_size = 4, is_alloc = 15 < ?len, str_ref_count = 1 \<rparr>"
      obtain a where a: "swrap (max_len (int ?n) * 4) = Inr a"
        "alloc_memory a = Inr (replicate (nat (max_len (int ?n)) * 4) 0)"
        using sm(3) unfolding rbind_eq_Inr by blast
      have "string_of_utf8 e = Inr ?s"
        using multi d(1) a sm(2) ne cnt unfolding string_of_utf8_def
        by (auto simp: Let_def local_max_length_def local_size_def b_def lm_def)
      moreover have "runes ?s = rs \<and> str_inv ?s \<and> cap_inv ?s"
      proof (rule new_string_inv)
        show "runes ?s = rs" using d(3) by (simp add: runes_def chars_of_def)
      qed (use d mx fit sm in \<open>auto simp: local_size_def b_def lm_def list_all_iff\<close>)
      ultimately show ?thesis using multi False by auto
    qed
  qed
qed

section \<open>Comparison\<close>

fun lex_compare :: "rune_t list \<Rightarrow> rune_t list \<Rightarrow> int" where
  "lex_compare (x # xs) (y # ys) = (if x = y then lex_compare xs ys else if x < y then -1 else 1)"
| "lex_compare [] [] = 0"
| "lex_compare [] _ = -1"
| "lex_compare _ [] = 1"

fun first_diff :: "rune_t list \<Rightarrow> rune_t list \<Rightarrow> int" where
  "first_diff (x # xs) (y # ys) = (if x = y then first_diff xs ys else if x < y then -1 else 1)"
| "first_diff _ _ = 0"

lemma lex_first_diff:
  "lex_compare xs ys = (if first_diff xs ys \<noteq> 0 then first_diff xs ys else sgn (int (length xs) - int (length ys)))"
  by (induction xs ys rule: lex_compare.induct) auto

lemma first_diff_take: "first_diff (take (min (length xs) (length ys)) xs) (take (min (length xs) (length ys)) ys) = first_diff xs ys"
  by (induction xs ys rule: first_diff.induct) auto

lemma ucast_byte_less: "(ucast (x :: byte_t) :: rune_t) < ucast y \<longleftrightarrow> x < y" "(ucast (x :: byte_t) :: rune_t) = ucast y \<longleftrightarrow> x = y"
  using unat_byte [of x] unat_byte [of y]
  by (simp_all add: word_less_nat_alt word_unat_eq_iff unat_ucast_small)

lemma memcmp_first_diff: "memcmp xs ys = first_diff (map ucast xs) (map ucast ys)"
  by (induction xs ys rule: memcmp.induct) (auto simp: ucast_byte_less)

lemma compare_chars_first_diff:
  assumes "\<And>i. i < n \<Longrightarrow> f i = Inr (xs ! i)" "\<And>i. i < n \<Longrightarrow> g i = Inr (ys ! i)"
    "n \<le> length xs" "n \<le> length ys" "k \<le> n"
  shows "compare_chars f g [k..<n] = Inr (first_diff (drop k (take n xs)) (drop k (take n ys)))"
  using assms(5)
proof (induction "n - k" arbitrary: k)
  case (Suc d)
  then have k: "k < n" by simp
  then have "drop k (take n xs) = xs ! k # drop (Suc k) (take n xs)" "drop k (take n ys) = ys ! k # drop (Suc k) (take n ys)"
    using assms(3,4) by (simp_all add: nth_append_drop)
  with Suc.hyps(1) [of "Suc k"] Suc.hyps(2) k assms(1,2) show ?case by (simp add: upt_conv_Cons)
qed simp

lemma signed_char_rune:
  assumes "str_inv s" "character_size s = 1" "i < nat (str_length s)"
  shows "signed_char (str_mem s) i = Inr (runes s ! i)"
proof -
  have m: "nat (str_length s) \<le> length (str_mem s)" using assms(1,2) by (simp add: str_inv_def)
  have r: "runes s ! i = ucast (str_mem s ! i)" using assms m by (simp add: runes_def chars_of_def)
  have "runes s ! i \<le> max_codepoint_ascii"
    using assms m by (simp add: str_inv_def runes_def list_all_length)
  then have "(scast (str_mem s ! i) :: rune_t) = ucast (str_mem s ! i)"
    unfolding r max_codepoint_ascii_def by (rule scast_ascii)
  moreover have "get_elem (\<lambda>bs. bs ! 0) 1 i (str_mem s) = Inr (str_mem s ! i)"
    using byte_codec.get_ok [OF assms(3), of "str_mem s"] m assms(3) by (simp add: elems_bytes [simplified])
  ultimately show ?thesis by (simp add: signed_char_def r)
qed

lemma rune_load:
  assumes "str_inv s" "character_size s = 4" "i < nat (str_length s)"
  shows "get_elem word32 4 i (str_mem s) = Inr (runes s ! i)"
  using word_codec.get_ok [OF assms(3), of "str_mem s"] assms(1,2)
  by (simp add: str_inv_def runes_def chars_of_def)

text \<open>comparing two distinct strings of which at most one holds four-byte characters is
  lexicographic comparison of their code points: the sign of the result is negative, zero or
  positive accordingly.\<close>

theorem compare_strings_lexicographic:
  assumes "str_inv s" "str_inv t" "character_size s = 1 \<or> character_size t = 1"
  shows "\<exists>c. compare_strings False (Some s) (Some t) = Inr c \<and> sgn c = lex_compare (runes s) (runes t)"
proof -
  let ?n = "nat (min (str_length s) (str_length t))"
  have sz: "character_size s \<in> {1, 4}" "character_size t \<in> {1, 4}"
    and len: "0 \<le> str_length s" "0 \<le> str_length t" "str_length s < 2 ^ 31" "str_length t < 2 ^ 31"
    using assms(1,2) by (simp_all add: str_inv_def)
  have l: "length (runes s) = nat (str_length s)" "length (runes t) = nat (str_length t)"
    using inv_width(6) assms(1,2) by blast+
  have n: "?n \<le> length (runes s)" "?n \<le> length (runes t)" "?n = min (length (runes s)) (length (runes t))"
    using len l by (auto simp: min_def)
  define d where "d = first_diff (take ?n (runes s)) (take ?n (runes t))"
  have d: "d = first_diff (runes s) (runes t)" unfolding d_def n(3) by (rule first_diff_take)
  have ch: "compare_chars f g [0..<?n] = Inr d"
    if "\<And>i. i < ?n \<Longrightarrow> f i = Inr (runes s ! i)" "\<And>i. i < ?n \<Longrightarrow> g i = Inr (runes t ! i)" for f g
    using compare_chars_first_diff [of ?n f "runes s" g "runes t" 0] that n by (simp add: d_def)
  have fin: ?thesis if "compare_strings False (Some s) (Some t)
      = rbind (Inr d) (\<lambda>r. if r \<noteq> 0 then Inr r else swrap (str_length s - str_length t))"
  proof (cases "d = 0")
    case True
    then have "compare_strings False (Some s) (Some t) = Inr (str_length s - str_length t)"
      using that len by (simp add: swrap_def in_word_def)
    moreover have "lex_compare (runes s) (runes t) = sgn (str_length s - str_length t)"
      using True d l len by (simp add: lex_first_diff)
    ultimately show ?thesis by simp
  next
    case False
    have "first_diff xs ys \<in> {-1, 0, 1}" for xs ys
      by (induction xs ys rule: first_diff.induct) auto
    then have "d \<in> {-1, 0, 1}" unfolding d by blast
    with False that d show ?thesis by (auto simp: lex_first_diff)
  qed
  consider "character_size s = 1" "character_size t = 1" | "character_size s = 1" "character_size t = 4"
    | "character_size s = 4" "character_size t = 1" using sz assms(3) by auto
  then show ?thesis
  proof cases
    case 1
    then have m: "nat (str_length s) \<le> length (str_mem s)" "nat (str_length t) \<le> length (str_mem t)"
      using assms by (simp_all add: str_inv_def)
    have nn: "?n \<le> nat (str_length s)" "?n \<le> nat (str_length t)" by (simp_all add: nat_mono)
    have tk: "map ucast (take ?n (str_mem s)) = take ?n (runes s)" "map ucast (take ?n (str_mem t)) = take ?n (runes t)"
      using 1 nn by (simp_all add: runes_def chars_of_def take_map min_def)
    have "peek 0 ?n (str_mem s) = Inr (take ?n (str_mem s))" "peek 0 ?n (str_mem t) = Inr (take ?n (str_mem t))"
      using m nn by (simp_all add: peek_def)
    moreover have "memcmp (take ?n (str_mem s)) (take ?n (str_mem t)) = d"
      unfolding memcmp_first_diff tk d_def ..
    ultimately show ?thesis using 1
      by (intro fin) (simp add: compare_strings_def string_view_def Let_def)
  next
    case 2
    have "compare_chars (signed_char (str_mem s)) (\<lambda>i. get_elem word32 4 i (str_mem t)) [0..<?n] = Inr d"
      by (rule ch) (use 2 assms signed_char_rune rune_load in auto)
    then show ?thesis using 2
      by (intro fin) (simp add: compare_strings_def string_view_def Let_def)
  next
    case 3
    have "compare_chars (\<lambda>i. get_elem word32 4 i (str_mem s)) (signed_char (str_mem t)) [0..<?n] = Inr d"
      by (rule ch) (use 3 assms signed_char_rune rune_load in auto)
    then show ?thesis using 3
      by (intro fin) (simp add: compare_strings_def string_view_def Let_def)
  qed
qed

lemma bytes32_word32:
  assumes "length b = 4"
  shows "bytes32 (word32 b) = b"
proof -
  have "ucast (word32 b) = b ! 0" "ucast (drop_bit 8 (word32 b)) = b ! 1"
    "ucast (drop_bit 16 (word32 b)) = b ! 2" "ucast (drop_bit 24 (word32 b)) = b ! 3"
    by (rule bit_word_eqI, auto simp: word32_def bit_or_iff bit_push_bit_iff bit_ucast_iff bit_drop_bit_eq
      dest: bit_imp_le_length)+
  moreover have "b = [b ! 0, b ! 1, b ! 2, b ! 3]"
    using assms by (auto simp: length_Suc_conv numeral_eq_Suc)
  ultimately show ?thesis by (metis bytes32_def)
qed

text \<open>comparing two strings that both hold four-byte characters looks only at as many
  bytes as the shorter has characters: strings of the same length whose first quarter of code
  points agree compare as equal.\<close>

theorem compare_strings_runes_quarter:
  assumes "str_inv s" "str_inv t" "character_size s = 4" "character_size t = 4" "str_length s = str_length t"
    "take ((nat (str_length s) + 3) div 4) (runes s) = take ((nat (str_length s) + 3) div 4) (runes t)"
  shows "compare_strings False (Some s) (Some t) = Inr 0"
proof -
  let ?n = "nat (str_length s)"
  have m: "?n * 4 \<le> length (str_mem s)" "?n * 4 \<le> length (str_mem t)"
    using assms(1-5) by (simp_all add: str_inv_def)
  have "take ?n (str_mem s) = take ?n (str_mem t)"
  proof (rule nth_equalityI)
    fix j assume "j < length (take ?n (str_mem s))"
    then have j: "j < ?n" by simp
    let ?k = "j div 4"
    have k: "?k < (?n + 3) div 4" "?k < ?n" using j by auto
    then have "runes s ! ?k = runes t ! ?k" using assms(6) by (metis nth_take)
    then have "word32 (take 4 (drop (?k * 4) (str_mem s))) = word32 (take 4 (drop (?k * 4) (str_mem t)))"
      using assms(3-5) k by (simp add: runes_def chars_of_def)
    moreover have "?k * 4 + 4 \<le> ?n * 4" using k(2) by simp
    then have "length (take 4 (drop (?k * 4) (str_mem s))) = 4" "length (take 4 (drop (?k * 4) (str_mem t))) = 4"
      using m by simp_all
    ultimately have e: "take 4 (drop (?k * 4) (str_mem s)) = take 4 (drop (?k * 4) (str_mem t))"
      by (metis bytes32_word32)
    have "j = ?k * 4 + j mod 4" by simp
    then have "str_mem s ! j = take 4 (drop (?k * 4) (str_mem s)) ! (j mod 4)"
      "str_mem t ! j = take 4 (drop (?k * 4) (str_mem t)) ! (j mod 4)"
      using m j by simp_all
    with e j show "take ?n (str_mem s) ! j = take ?n (str_mem t) ! j" by simp
  qed (use m in simp)
  moreover have "memcmp x x = 0" for x by (induction x) auto
  ultimately show ?thesis
    using assms(3-5) m by (simp add: compare_strings_def string_view_def Let_def peek_def swrap_def in_word_def)
qed

section \<open>Concrete strings\<close>

definition str_ab :: vm_string where
  "str_ab = \<lparr> str_length = 2, str_length_max = 15, encoded_str = NoEncoding,
     str_mem = [0x61, 0x62, 0, 0, 0, 0, 0, 0, 0, 0, 0, 0, 0, 0, 0, 0], character_size = 1,
     is_alloc = False, str_ref_count = 1 \<rparr>"

definition str_ea :: "byte_t \<Rightarrow> vm_string" where
  "str_ea c = \<lparr> str_length = 2, str_length_max = 3, encoded_str = NoEncoding,
     str_mem = [0xe9, 0, 0, 0, c, 0, 0, 0, 0, 0, 0, 0, 0, 0, 0, 0], character_size = 4,
     is_alloc = False, str_ref_count = 1 \<rparr>"

lemma concrete_inv:
  "str_inv str_ab" "cap_inv str_ab" "str_inv (str_ea 0x61)" "cap_inv (str_ea 0x61)" "str_inv (str_ea 0x62)"
  by code_simp+

lemma append_string_runes_witness:
  "\<exists>r. append_string str_ab (str_ea 0x61) = Inr r \<and> runes r = [0x61, 0x62, 0xe9, 0x61] \<and> str_inv r \<and> cap_inv r"
proof -
  have "runes str_ab @ runes (str_ea 0x61) = [0x61, 0x62, 0xe9, 0x61]" by code_simp
  then show ?thesis
    using append_string_runes [of str_ab "str_ea 0x61"] concrete_inv by (simp add: str_ab_def str_ea_def small_def)
qed

lemma string_concat_runes_witness:
  "\<exists>r. string_concat (str_ea 0x61) str_ab = Inr r \<and> runes r = [0xe9, 0x61, 0x61, 0x62] \<and> str_inv r \<and> cap_inv r"
proof -
  have "runes (str_ea 0x61) @ runes str_ab = [0xe9, 0x61, 0x61, 0x62]" by code_simp
  then show ?thesis
    using string_concat_runes [of "str_ea 0x61" str_ab] concrete_inv by (simp add: str_ab_def str_ea_def small_def)
qed

lemma string_slice_spec_witness:
  "\<exists>t. string_slice str_ab 1 2 = Inr t \<and> runes t = [0x62]"
proof -
  have "take (nat (2 - 1)) (drop (nat 1) (runes str_ab)) = [0x62]" by code_simp
  then show ?thesis
    using string_slice_spec [of str_ab 1 2] concrete_inv by (auto simp: str_ab_def small_def)
qed

lemma get_rune_spec_witness: "get_rune (str_ea 0x61) 0 = Inr 0xe9"
proof -
  have "runes (str_ea 0x61) ! nat 0 = 0xe9" "str_length (str_ea 0x61) = 2" by code_simp+
  then show ?thesis using get_rune_spec [OF concrete_inv(3), of 0] by simp
qed

lemma set_rune_runes_witness:
  "\<exists>r. set_rune str_ab 2 0x20ac = Inr r \<and> str_inv r \<and> cap_inv r \<and> runes r = [0x61, 0x62, 0x20ac]"
proof -
  have "runes str_ab = [0x61, 0x62]" by code_simp
  then show ?thesis
    using set_rune_runes [OF concrete_inv(1,2), of "0x20ac" 2]
    by (simp add: str_ab_def small_def codepoint_defs)
qed

lemma str_encodes_witness:
  "\<exists>s'. str (str_ea 0x61) = Inr s' \<and> runes s' = runes (str_ea 0x61) \<and> take 4 (str_bytes s') = [0xc3, 0xa9, 0x61, 0]"
proof -
  have "encode_all (runes (str_ea 0x61)) = Inr [0xc3, 0xa9, 0x61]" by code_simp
  moreover have "encoded_str (str_ea 0x61) = NoEncoding" "small (str_length (str_ea 0x61))"
    by (simp_all add: str_ea_def small_def)
  ultimately show ?thesis using str_encodes [OF concrete_inv(3,4), of "[0xc3, 0xa9, 0x61]"]
    by (simp add: eval_nat_numeral)
qed

lemma string_of_utf8_valid_witness:
  "string_of_utf8 [0xc3, 0xa9, 0x61, 0x62, 0x63, 0x64] = Inl (Undefined ''write past the buffer'')"
proof -
  have "list_all (\<lambda>r. scalar r \<and> r \<noteq> 0) [0xe9, 0x61, 0x62, 0x63, 0x64]"
    "encode_all [0xe9, 0x61, 0x62, 0x63, 0x64] = Inr [0xc3, 0xa9, 0x61, 0x62, 0x63, 0x64]"
    by (simp add: scalar_def, code_simp)
  from string_of_utf8_valid [OF this] show ?thesis by (simp add: small_def)
qed

lemma compare_strings_lexicographic_witness:
  "\<exists>c. compare_strings False (Some str_ab) (Some (str_ea 0x61)) = Inr c \<and> sgn c = -1"
proof -
  have "runes str_ab = [0x61, 0x62]" "runes (str_ea 0x61) = [0xe9, 0x61]" by code_simp+
  then have "lex_compare (runes str_ab) (runes (str_ea 0x61)) = -1" by simp
  then show ?thesis
    using compare_strings_lexicographic [OF concrete_inv(1,3)] by (simp add: str_ab_def)
qed

lemma compare_strings_runes_quarter_witness:
  "compare_strings False (Some (str_ea 0x61)) (Some (str_ea 0x62)) = Inr 0"
proof -
  have "take ((nat 2 + 3) div 4) (runes (str_ea 0x61)) = take ((nat 2 + 3) div 4) (runes (str_ea 0x62))"
    by code_simp
  then show ?thesis
    using compare_strings_runes_quarter [OF concrete_inv(3,5)] by (simp add: str_ea_def)
qed

end
