(* ===== verification/TypeDesc.thy ===== *)
theory TypeDesc
  imports VmString
begin

text \<open>
  Type descriptors (\<^verbatim>\<open>type_descriptor_t\<close> of \<^verbatim>\<open>src/src/vm/vm_memory.cpp\<close>): the size of a type and
  the bitmap of its pointer fields, one bit for each 4-byte field with the first field in the
  highest bit of the first byte. A descriptor created by the VM carries a tag for the
  pointer identity the code sometimes compares. The lemmas relate the test of one field to
  the enumeration of the pointer fields.
\<close>

section \<open>Descriptors\<close>

datatype td_tag = Created | IntrinsicType nat

record type_desc =
  td_size :: int
  td_map :: "byte_t list"
  td_finalizer :: "nat option"
  td_tag :: td_tag

definition map_in_bytes :: "type_desc \<Rightarrow> int" where "map_in_bytes td = int (length (td_map td))"

definition type_create :: "int \<Rightarrow> byte_t list \<Rightarrow> type_desc res" where
  "type_create size_in_bytes pointer_map =
     require (int (length pointer_map) < 2 ^ 31 - 1) (AssertFailed ''pointer_map.size()'')
       (Inr \<lparr> td_size = size_in_bytes, td_map = pointer_map, td_finalizer = None, td_tag = Created \<rparr>)"

definition type_create_finalized :: "int \<Rightarrow> byte_t list \<Rightarrow> nat \<Rightarrow> type_desc" where
  "type_create_finalized size_in_bytes pointer_map finalizer =
     \<lparr> td_size = size_in_bytes, td_map = pointer_map, td_finalizer = Some finalizer, td_tag = Created \<rparr>"

definition intrinsic :: "int \<Rightarrow> byte_t list \<Rightarrow> nat \<Rightarrow> type_desc" where
  "intrinsic sz m n = \<lparr> td_size = sz, td_map = m, td_finalizer = None, td_tag = IntrinsicType n \<rparr>"

definition td_byte :: type_desc where "td_byte = intrinsic 1 [] 0"
definition td_short_word :: type_desc where "td_short_word = intrinsic 2 [] 1"
definition td_word :: type_desc where "td_word = intrinsic 4 [] 2"
definition td_short_real :: type_desc where "td_short_real = intrinsic 4 [] 3"
definition td_real :: type_desc where "td_real = intrinsic 8 [] 4"
definition td_big :: type_desc where "td_big = intrinsic 8 [] 5"
definition td_pointer :: type_desc where "td_pointer = intrinsic 4 [0x80] 6"
definition td_array :: type_desc where "td_array = intrinsic 0 [] 7"
definition td_list :: type_desc where "td_list = intrinsic 0 [] 8"
definition td_channel :: type_desc where "td_channel = intrinsic 0 [] 9"
definition td_string :: type_desc where "td_string = intrinsic 0 [] 10"
definition td_module_ref :: type_desc where "td_module_ref = intrinsic 0 [] 11"
definition td_stack :: type_desc where "td_stack = intrinsic 0 [] 12"
definition td_thread :: type_desc where "td_thread = intrinsic 0 [] 13"

lemmas td_defs = td_byte_def td_short_word_def td_word_def td_short_real_def td_real_def td_big_def
  td_pointer_def td_array_def td_list_def td_channel_def td_string_def td_module_ref_def td_stack_def
  td_thread_def intrinsic_def

definition type_is_equal :: "type_desc \<Rightarrow> type_desc option \<Rightarrow> bool" where
  "type_is_equal this other =
     (case other of None \<Rightarrow> False
      | Some t \<Rightarrow> this = t \<or>
          (td_size this = td_size t \<and> map_in_bytes this = map_in_bytes t \<and> td_map this = td_map t \<and>
           td_finalizer this = td_finalizer t))"

section \<open>Pointer fields\<close>

definition is_offset_pointer :: "type_desc \<Rightarrow> nat \<Rightarrow> bool res" where
  "is_offset_pointer td offset =
     (if td_size td = 0 then Inr False
      else require (int offset < 2 ^ 31 - 1) (AssertFailed ''offset'')
        (let byte_offset = offset div 8
         in if byte_offset < length (td_map td) then
              let words8 = td_map td ! byte_offset
              in Inr (words8 \<noteq> 0 \<and> bit words8 (7 - offset mod 8))
            else Inr False))"

definition byte_fields :: "nat \<Rightarrow> byte_t \<Rightarrow> nat list" where
  "byte_fields i words8 =
     (if words8 = 0 then [] else map (\<lambda>j. 8 * i + j) (filter (\<lambda>j. bit words8 (7 - j)) [0..<8]))"

definition flagged_fields :: "type_desc \<Rightarrow> nat list" where
  "flagged_fields td = concat (map (\<lambda>(i, b). byte_fields i b) (enumerate 0 (td_map td)))"

lemma byte_fields_mem: "k \<in> set (byte_fields i b) \<longleftrightarrow> k div 8 = i \<and> bit b (7 - k mod 8)"
proof -
  have "k \<in> set (byte_fields i b) \<longleftrightarrow> (\<exists>j<8. k = 8 * i + j \<and> bit b (7 - j))"
    by (cases "b = 0") (auto simp: byte_fields_def)
  also have "\<dots> \<longleftrightarrow> k div 8 = i \<and> bit b (7 - k mod 8)"
    by (rule iffI, force, intro exI [of _ "k mod 8"]) auto
  finally show ?thesis .
qed

lemma flagged_fields_mem:
  "k \<in> set (flagged_fields td) \<longleftrightarrow> k div 8 < length (td_map td) \<and> bit (td_map td ! (k div 8)) (7 - k mod 8)"
  by (auto simp: flagged_fields_def byte_fields_mem in_set_enumerate_eq)

lemma byte_fields_bounds: "k \<in> set (byte_fields i b) \<Longrightarrow> 8 * i \<le> k \<and> k < 8 * i + 8"
  by (auto simp: byte_fields_def split: if_splits)

lemma sorted_byte_fields: "sorted_wrt (<) (byte_fields i b)"
  by (auto simp: byte_fields_def sorted_wrt_map intro!: sorted_wrt_filter)

lemma sorted_concat_blocks:
  "sorted_wrt (<) (concat (map (\<lambda>(i, b). byte_fields i b) (enumerate n bs)))
    \<and> (\<forall>k\<in>set (concat (map (\<lambda>(i, b). byte_fields i b) (enumerate n bs))). 8 * n \<le> k)"
proof (induction bs arbitrary: n)
  case (Cons b bs)
  have "x < y" if "x \<in> set (byte_fields n b)" "8 * Suc n \<le> y" for x y
    using byte_fields_bounds [OF that(1)] that(2) by simp
  with Cons [of "Suc n"] show ?case
    using sorted_byte_fields [of n b] byte_fields_bounds [of _ n b]
    by (auto simp: sorted_wrt_append) fastforce+
qed simp

text \<open>the test of one field and the enumeration of the pointer fields agree: the fields
  enumerated for a type of non-zero size are exactly those whose test answers yes, each once
  and in increasing order of address.\<close>

theorem pointer_fields_agree:
  "sorted_wrt (<) (flagged_fields td) \<and>
   (td_size td \<noteq> 0 \<and> int k < 2 ^ 31 - 1 \<longrightarrow> is_offset_pointer td k = Inr (k \<in> set (flagged_fields td)))"
proof -
  have "sorted_wrt (<) (flagged_fields td)"
    using sorted_concat_blocks [of 0 "td_map td"] by (simp add: flagged_fields_def)
  moreover have "td_map td ! (k div 8) \<noteq> 0 \<and> bit (td_map td ! (k div 8)) (7 - k mod 8)
      \<longleftrightarrow> bit (td_map td ! (k div 8)) (7 - k mod 8)" by auto
  ultimately show ?thesis
    by (auto simp: is_offset_pointer_def flagged_fields_mem Let_def)
qed

lemma pointer_fields_agree_witness: "is_offset_pointer td_pointer 0 = Inr True"
proof -
  have "0 \<in> set (flagged_fields td_pointer)" "td_size td_pointer \<noteq> 0" by code_simp+
  then show ?thesis using pointer_fields_agree [of td_pointer 0] by simp
qed

text \<open>descriptor equality does not tell the VM's own reference types apart: any two of
  the array, list, channel, string, module reference, stack and thread descriptors are equal,
  so a checked cast from an allocation accepts an object of any other of these types.\<close>

theorem intrinsic_types_indistinct:
  "list_all (\<lambda>a. list_all (\<lambda>b. type_is_equal a (Some b))
      [td_array, td_list, td_channel, td_string, td_module_ref, td_stack, td_thread])
     [td_array, td_list, td_channel, td_string, td_module_ref, td_stack, td_thread]"
  by (simp add: type_is_equal_def td_defs map_in_bytes_def)

end
