(* ===== verification/Channel.thy ===== *)
theory Channel
  imports TypeDesc
begin

text \<open>
  \<^verbatim>\<open>src/src/vm/channel.cpp\<close>: typed channels with an optional ring buffer and two queues of
  waiting requests. A request names the thread, the address of its data and the mutex whose
  \<open>pending\<close> flag says whether it still waits (an alternation registers one mutex with several
  channels). Each operation runs under the channel's lock, so it is one step; what the source
  does after releasing the lock, the call of the partner's callback, is returned as the
  request to notify. The transfer of one datum acts on a state \<open>'s\<close> given by the caller; the
  locale \<open>cells\<close> is what the channel relies on: a transfer copies the source cell and leaves
  the cells apart from the destination alone.
\<close>

section \<open>State\<close>

record vm_array =
  arr_addr :: nat
  arr_element_type :: type_desc
  arr_original :: "nat option"
  arr_length :: int

definition array_at :: "vm_array \<Rightarrow> int \<Rightarrow> nat res" where
  "array_at a index =
     (if index < 0 \<or> arr_length a \<le> index then Inl (IndexOutOfRange 0 (arr_length a - 1) index)
      else Inr (arr_addr a + nat (index * td_size (arr_element_type a))))"

record request =
  rq_thread :: nat
  rq_data :: nat
  rq_mutex :: nat

record channel =
  ch_buffer :: "(nat \<times> vm_array) option"
  ch_head :: nat
  ch_count :: nat
  ch_type :: type_desc
  ch_senders :: "request list"
  ch_receivers :: "request list"

type_synonym pending = "nat \<Rightarrow> bool"

type_synonym 's transfer = "nat \<Rightarrow> nat \<Rightarrow> type_desc \<Rightarrow> 's \<Rightarrow> 's res"

section \<open>The ring buffer\<close>

definition try_send_to_buffer ::
    "'s transfer \<Rightarrow> channel \<Rightarrow> request \<Rightarrow> pending \<Rightarrow> 's \<Rightarrow> (bool \<times> channel \<times> pending \<times> 's) res" where
  "try_send_to_buffer transfer ch rq pend st =
     (case ch_buffer ch of
        None \<Rightarrow> Inl (AssertFailed ''_data_buffer != nullptr'')
      | Some (_, buf) \<Rightarrow>
          let buffer_length = nat (arr_length buf)
          in if ch_count ch = buffer_length then Inr (False, ch, pend, st)
             else
               let next = ch_head ch + ch_count ch;
                   next_buffer_index = (if next \<ge> buffer_length then next - buffer_length else next)
               in rbind (array_at buf (int next_buffer_index)) (\<lambda>dest.
                  rbind (transfer dest (rq_data rq) (ch_type ch) st) (\<lambda>st'.
                    Inr (True, ch\<lparr> ch_count := ch_count ch + 1 \<rparr>, pend(rq_mutex rq := False), st'))))"

definition try_receive_from_buffer ::
    "'s transfer \<Rightarrow> channel \<Rightarrow> request \<Rightarrow> pending \<Rightarrow> 's \<Rightarrow> (bool \<times> channel \<times> pending \<times> 's) res" where
  "try_receive_from_buffer transfer ch rq pend st =
     (case ch_buffer ch of
        None \<Rightarrow> Inl (AssertFailed ''_data_buffer != nullptr'')
      | Some (_, buf) \<Rightarrow>
          if ch_count ch = 0 then Inr (False, ch, pend, st)
          else
            rbind (array_at buf (int (ch_head ch))) (\<lambda>src.
              let head = ch_head ch + 1;
                  head' = (if head = nat (arr_length buf) then 0 else head)
              in rbind (transfer (rq_data rq) src (ch_type ch) st) (\<lambda>st'.
                   Inr (True, ch\<lparr> ch_head := head', ch_count := ch_count ch - 1 \<rparr>,
                        pend(rq_mutex rq := False), st'))))"

section \<open>Send, receive and cancel\<close>

fun drop_stale :: "pending \<Rightarrow> request list \<Rightarrow> request list" where
  "drop_stale pend [] = []"
| "drop_stale pend (r # rs) = (if pend (rq_mutex r) then r # rs else drop_stale pend rs)"

record 's channel_result =
  cr_handled :: bool
  cr_callback :: "request option"
  cr_channel :: channel
  cr_pending :: pending
  cr_state :: 's

definition channel_result :: "bool \<Rightarrow> request option \<Rightarrow> channel \<Rightarrow> pending \<Rightarrow> 's \<Rightarrow> 's channel_result" where
  "channel_result h cb ch p st =
     \<lparr> cr_handled = h, cr_callback = cb, cr_channel = ch, cr_pending = p, cr_state = st \<rparr>"

definition send_data ::
    "'s transfer \<Rightarrow> channel \<Rightarrow> request \<Rightarrow> pending \<Rightarrow> 's \<Rightarrow> 's channel_result res" where
  "send_data transfer ch rq pend st =
     require (rq_data rq \<noteq> 0) (AssertFailed ''send_request.data != nullptr'')
       (if \<not> pend (rq_mutex rq) then Inr (channel_result False None ch pend st)
        else
          require (\<forall>r\<in>set (ch_receivers ch). rq_thread r \<noteq> rq_thread rq)
            (AssertFailed ''sender cannot also be a receiver'')
            (case drop_stale pend (ch_receivers ch) of
               [] \<Rightarrow>
                 let ch' = ch\<lparr> ch_receivers := [] \<rparr>;
                     queued = ch'\<lparr> ch_senders := ch_senders ch' @ [rq] \<rparr>
                 in (case ch_buffer ch' of
                       None \<Rightarrow> Inr (channel_result False None queued pend st)
                     | Some _ \<Rightarrow>
                         rbind (try_send_to_buffer transfer ch' rq pend st) (\<lambda>(sent, ch'', pend', st').
                           if sent then Inr (channel_result True None ch'' pend' st')
                           else Inr (channel_result False None queued pend st)))
             | r # rs \<Rightarrow>
                 rbind (transfer (rq_data r) (rq_data rq) (ch_type ch) st) (\<lambda>st'.
                   Inr (channel_result True (Some r) (ch\<lparr> ch_receivers := rs \<rparr>)
                     (pend(rq_mutex rq := False, rq_mutex r := False)) st'))))"

definition receive_data ::
    "'s transfer \<Rightarrow> channel \<Rightarrow> request \<Rightarrow> pending \<Rightarrow> 's \<Rightarrow> 's channel_result res" where
  "receive_data transfer ch rq pend st =
     require (rq_data rq \<noteq> 0) (AssertFailed ''receive_request.data != nullptr'')
       (if \<not> pend (rq_mutex rq) then Inr (channel_result False None ch pend st)
        else
          require (\<forall>r\<in>set (ch_senders ch). rq_thread r \<noteq> rq_thread rq)
            (AssertFailed ''receiver cannot also be a sender'')
            (case drop_stale pend (ch_senders ch) of
               [] \<Rightarrow>
                 let ch' = ch\<lparr> ch_senders := [] \<rparr>;
                     queued = ch'\<lparr> ch_receivers := ch_receivers ch' @ [rq] \<rparr>
                 in (case ch_buffer ch' of
                       None \<Rightarrow> Inr (channel_result False None queued pend st)
                     | Some _ \<Rightarrow>
                         rbind (try_receive_from_buffer transfer ch' rq pend st) (\<lambda>(got, ch'', pend', st').
                           if got then Inr (channel_result True None ch'' pend' st')
                           else Inr (channel_result False None queued pend st)))
             | s # ss \<Rightarrow>
                 let ch' = ch\<lparr> ch_senders := ss \<rparr>;
                     pend' = pend(rq_mutex rq := False, rq_mutex s := False);
                     direct = rbind (transfer (rq_data rq) (rq_data s) (ch_type ch) st) (\<lambda>st'.
                       Inr (channel_result True (Some s) ch' pend' st'))
                 in (case ch_buffer ch' of
                       None \<Rightarrow> direct
                     | Some _ \<Rightarrow>
                         rbind (try_receive_from_buffer transfer ch' rq pend' st) (\<lambda>(got, ch1, pend1, st1).
                           if got then
                             rbind (try_send_to_buffer transfer ch1 s pend1 st1) (\<lambda>(did_send, ch2, pend2, st2).
                               require did_send (AssertFailed ''Should be room in buffer'')
                                 (Inr (channel_result True (Some s) ch2 pend2 st2)))
                           else direct))))"

fun remove_first :: "nat \<Rightarrow> request list \<Rightarrow> request list" where
  "remove_first t [] = []"
| "remove_first t (r # rs) = (if rq_thread r = t then rs else r # remove_first t rs)"

definition cancel_request :: "channel \<Rightarrow> nat \<Rightarrow> channel" where
  "cancel_request ch thread_id =
     (if \<exists>r\<in>set (ch_receivers ch). rq_thread r = thread_id
      then ch\<lparr> ch_receivers := remove_first thread_id (ch_receivers ch) \<rparr>
      else ch\<lparr> ch_senders := remove_first thread_id (ch_senders ch) \<rparr>)"

definition get_buffer_size :: "channel \<Rightarrow> int" where
  "get_buffer_size ch = (case ch_buffer ch of None \<Rightarrow> 0 | Some (_, buf) \<Rightarrow> arr_length buf)"

section \<open>The queue a channel implements\<close>

definition slot :: "vm_array \<Rightarrow> nat \<Rightarrow> nat" where
  "slot buf i = arr_addr buf + nat (int i * td_size (arr_element_type buf))"

definition buffer_slots :: "channel \<Rightarrow> nat list" where
  "buffer_slots ch = (case ch_buffer ch of None \<Rightarrow> []
     | Some (_, buf) \<Rightarrow> map (\<lambda>i. slot buf ((ch_head ch + i) mod nat (arr_length buf))) [0..<ch_count ch])"

definition waiting :: "pending \<Rightarrow> request list \<Rightarrow> request list" where
  "waiting pend rs = filter (\<lambda>r. pend (rq_mutex r)) rs"

definition queue_of :: "('s \<Rightarrow> nat \<Rightarrow> 'v) \<Rightarrow> channel \<Rightarrow> pending \<Rightarrow> 's \<Rightarrow> 'v list" where
  "queue_of rd ch pend st =
     map (rd st) (buffer_slots ch) @ map (\<lambda>r. rd st (rq_data r)) (waiting pend (ch_senders ch))"

definition room :: "channel \<Rightarrow> bool" where
  "room ch = (case ch_buffer ch of None \<Rightarrow> False | Some (_, buf) \<Rightarrow> ch_count ch < nat (arr_length buf))"

definition chan_inv :: "channel \<Rightarrow> pending \<Rightarrow> bool" where
  "chan_inv ch pend \<longleftrightarrow>
     (case ch_buffer ch of None \<Rightarrow> ch_count ch = 0
      | Some (_, buf) \<Rightarrow> ch_head ch < nat (arr_length buf) \<and> ch_count ch \<le> nat (arr_length buf)
          \<and> 0 < td_size (arr_element_type buf)) \<and>
     (waiting pend (ch_receivers ch) \<noteq> [] \<longrightarrow> ch_count ch = 0 \<and> waiting pend (ch_senders ch) = []) \<and>
     (waiting pend (ch_senders ch) \<noteq> [] \<longrightarrow> \<not> room ch)"

lemma drop_stale_Nil: "drop_stale pend rs = [] \<longleftrightarrow> waiting pend rs = []"
  by (induction rs) (auto simp: waiting_def)

lemma drop_stale_Cons:
  "drop_stale pend rs = r # rs' \<Longrightarrow> waiting pend rs = r # waiting pend rs' \<and> pend (rq_mutex r) \<and> set (r # rs') \<subseteq> set rs"
  by (induction rs) (auto simp: waiting_def split: if_splits)

lemma waiting_update: "m \<notin> rq_mutex ` set rs \<Longrightarrow> waiting (pend(m := False)) rs = waiting pend rs"
  by (auto simp: waiting_def intro!: filter_cong)

lemma waiting_append [simp]: "waiting pend (rs @ rs') = waiting pend rs @ waiting pend rs'"
  by (simp add: waiting_def)

lemma waiting_Nil [simp]: "waiting pend [] = []"
  by (simp add: waiting_def)

lemma waiting_set: "set (waiting pend rs) \<subseteq> set rs"
  by (auto simp: waiting_def)

lemma array_at_slot:
  "i < nat (arr_length buf) \<Longrightarrow> array_at buf (int i) = Inr (slot buf i)"
  by (auto simp: array_at_def slot_def)

lemma slot_inj:
  assumes "0 < td_size (arr_element_type buf)"
  shows "slot buf i = slot buf j \<longleftrightarrow> i = j"
proof
  assume "slot buf i = slot buf j"
  then have "nat (int i * td_size (arr_element_type buf)) = nat (int j * td_size (arr_element_type buf))"
    by (simp add: slot_def)
  with assms have "int i * td_size (arr_element_type buf) = int j * td_size (arr_element_type buf)"
    by (simp add: eq_nat_nat_iff)
  with assms show "i = j" by simp
qed simp

lemma ring_index: "h < n \<Longrightarrow> k < (n::nat) \<Longrightarrow> (h + k) mod n = (if n \<le> h + k then h + k - n else h + k)"
  by (simp add: mod_if)

lemma ring_inj:
  assumes "h < n" "i < n" "j < (n::nat)" "(h + i) mod n = (h + j) mod n"
  shows "i = j"
  using assms by (auto simp: ring_index split: if_splits)

locale cells =
  fixes transfer :: "'s transfer" and rd :: "'s \<Rightarrow> nat \<Rightarrow> 'v" and cell :: "'s \<Rightarrow> nat \<Rightarrow> bool"
  assumes transfer_ok: "cell st d \<Longrightarrow> cell st s \<Longrightarrow> \<exists>st'. transfer d s ty st = Inr st'"
    and transfer_rd: "cell st d \<Longrightarrow> cell st s \<Longrightarrow> cell st a \<Longrightarrow> transfer d s ty st = Inr st' \<Longrightarrow>
      rd st' a = (if a = d then rd st s else rd st a)"
    and transfer_cell: "cell st d \<Longrightarrow> cell st s \<Longrightarrow> transfer d s ty st = Inr st' \<Longrightarrow> cell st' a = cell st a"
begin

lemma transfer_map:
  assumes "cell st d" "cell st s" "transfer d s ty st = Inr st'" "\<forall>a\<in>set as. cell st a" "d \<notin> set as"
  shows "map (rd st') as = map (rd st) as"
  using assms transfer_rd [OF assms(1,2) _ assms(3)] by (intro map_cong) auto

lemma send_buffer:
  assumes b: "ch_buffer ch = Some (h, buf)" and i: "ch_head ch < nat (arr_length buf)"
      "ch_count ch < nat (arr_length buf)" "0 < td_size (arr_element_type buf)"
    and c: "\<forall>i<nat (arr_length buf). cell st (slot buf i)" "cell st (rq_data rq)"
  shows "\<exists>st' d. try_send_to_buffer transfer ch rq pend st
      = Inr (True, ch\<lparr> ch_count := ch_count ch + 1 \<rparr>, pend(rq_mutex rq := False), st') \<and>
    transfer d (rq_data rq) (ch_type ch) st = Inr st' \<and>
    buffer_slots (ch\<lparr> ch_count := ch_count ch + 1 \<rparr>) = buffer_slots ch @ [d] \<and>
    d \<notin> set (buffer_slots ch) \<and> d \<in> (slot buf ` {..<nat (arr_length buf)})"
proof -
  let ?n = "nat (arr_length buf)"
  let ?k = "(ch_head ch + ch_count ch) mod ?n"
  let ?d = "slot buf ?k"
  have k: "?k < ?n" using i by simp
  have ix: "(if ch_head ch + ch_count ch \<ge> ?n then ch_head ch + ch_count ch - ?n else ch_head ch + ch_count ch) = ?k"
    using i(1,2) ring_index [of "ch_head ch" ?n "ch_count ch"] by simp
  obtain st' where t: "transfer ?d (rq_data rq) (ch_type ch) st = Inr st'"
    using transfer_ok c k by blast
  have "try_send_to_buffer transfer ch rq pend st
      = Inr (True, ch\<lparr> ch_count := ch_count ch + 1 \<rparr>, pend(rq_mutex rq := False), st')"
    using i(2) t array_at_slot [OF k] unfolding try_send_to_buffer_def b option.case prod.case Let_def ix by simp
  moreover have "buffer_slots (ch\<lparr> ch_count := ch_count ch + 1 \<rparr>) = buffer_slots ch @ [?d]"
    by (simp add: buffer_slots_def b)
  moreover have "?d \<notin> set (buffer_slots ch)"
  proof
    assume "?d \<in> set (buffer_slots ch)"
    then obtain j where j: "j < ch_count ch" "?d = slot buf ((ch_head ch + j) mod ?n)"
      by (auto simp: buffer_slots_def b)
    then have "ch_count ch = j"
      using ring_inj [OF i(1,2), of j] i(2) unfolding slot_inj [OF i(3)] by simp
    with j(1) show False by simp
  qed
  ultimately show ?thesis using t k by blast
qed

lemma receive_buffer:
  assumes b: "ch_buffer ch = Some (h, buf)" and i: "ch_head ch < nat (arr_length buf)"
      "0 < ch_count ch" "ch_count ch \<le> nat (arr_length buf)"
    and c: "\<forall>i<nat (arr_length buf). cell st (slot buf i)" "cell st (rq_data rq)"
  shows "\<exists>st' ch' s. try_receive_from_buffer transfer ch rq pend st = Inr (True, ch', pend(rq_mutex rq := False), st') \<and>
    transfer (rq_data rq) s (ch_type ch) st = Inr st' \<and> buffer_slots ch = s # buffer_slots ch' \<and>
    ch' = ch\<lparr> ch_head := ch_head ch', ch_count := ch_count ch - 1 \<rparr> \<and> ch_head ch' < nat (arr_length buf) \<and>
    s \<in> (slot buf ` {..<nat (arr_length buf)})"
proof -
  let ?n = "nat (arr_length buf)"
  let ?s = "slot buf (ch_head ch)"
  let ?h = "if ch_head ch + 1 = ?n then 0 else ch_head ch + 1"
  let ?ch = "ch\<lparr> ch_head := ?h, ch_count := ch_count ch - 1 \<rparr>"
  obtain st' where t: "transfer (rq_data rq) ?s (ch_type ch) st = Inr st'"
    using transfer_ok c i(1) by blast
  have "try_receive_from_buffer transfer ch rq pend st = Inr (True, ?ch, pend(rq_mutex rq := False), st')"
    using i(2) t array_at_slot [OF i(1)] by (simp add: try_receive_from_buffer_def b Let_def)
  moreover have "buffer_slots ch = ?s # buffer_slots ?ch"
  proof -
    have h: "?h = (ch_head ch + 1) mod ?n" using i(1) by (auto simp: mod_if)
    have "(?h + j) mod ?n = (ch_head ch + Suc j) mod ?n" for j
      unfolding h by (simp add: mod_simps)
    moreover have "[0..<ch_count ch] = 0 # map Suc [0..<ch_count ch - 1]"
      using i(2) by (metis Suc_diff_1 map_Suc_upt upt_conv_Cons)
    ultimately show ?thesis using i(1) by (simp add: buffer_slots_def b)
  qed
  moreover have "?h < ?n" using i(1) by auto
  ultimately show ?thesis using t i(1) by (intro exI [of _ st'] exI [of _ ?ch] exI [of _ ?s]) auto
qed

end

definition slots_of :: "channel \<Rightarrow> nat set" where
  "slots_of ch = (case ch_buffer ch of None \<Rightarrow> {}
     | Some (_, buf) \<Rightarrow> slot buf ` {..<nat (arr_length buf)})"

definition chan_env :: "('s \<Rightarrow> nat \<Rightarrow> bool) \<Rightarrow> channel \<Rightarrow> request list \<Rightarrow> request \<Rightarrow> 's \<Rightarrow> bool" where
  "chan_env cell ch peers rq st \<longleftrightarrow>
     (\<forall>a\<in>slots_of ch. cell st a) \<and> (\<forall>r\<in>set peers. cell st (rq_data r)) \<and> cell st (rq_data rq) \<and>
     rq_data rq \<noteq> 0 \<and> rq_data rq \<notin> slots_of ch \<and> rq_data rq \<notin> rq_data ` set peers \<and>
     rq_data ` set peers \<inter> slots_of ch = {} \<and>
     distinct (map rq_mutex peers) \<and> rq_mutex rq \<notin> rq_mutex ` set peers \<and>
     (\<forall>r\<in>set peers. rq_thread r \<noteq> rq_thread rq)"

lemma slots_subset: "chan_inv ch pend \<Longrightarrow> set (buffer_slots ch) \<subseteq> slots_of ch"
  by (auto simp: buffer_slots_def slots_of_def chan_inv_def split: option.splits)

lemma buffer_slots_cong:
  "ch_buffer ch' = ch_buffer ch \<Longrightarrow> ch_head ch' = ch_head ch \<Longrightarrow> ch_count ch' = ch_count ch \<Longrightarrow>
     buffer_slots ch' = buffer_slots ch"
  by (simp add: buffer_slots_def split: option.split)

lemma waiting_clear: "waiting pend rs = [] \<Longrightarrow> waiting (pend(m := False)) rs = []"
  by (auto simp: waiting_def filter_empty_conv)

lemma chan_inv_receivers: "chan_inv ch pend \<Longrightarrow> ch_count ch \<noteq> 0 \<or> waiting pend (ch_senders ch) \<noteq> [] \<Longrightarrow>
    waiting pend (ch_receivers ch) = []"
  by (auto simp: chan_inv_def)

lemma chan_inv_full: "chan_inv ch pend \<Longrightarrow> waiting pend (ch_senders ch) \<noteq> [] \<Longrightarrow> \<not> room ch"
  by (simp add: chan_inv_def)

lemma distinct_drop_stale: "drop_stale pend rs = r # rs' \<Longrightarrow> distinct (map rq_mutex rs) \<Longrightarrow> distinct (map rq_mutex (r # rs'))"
  by (induction rs) (auto split: if_splits)

lemma waiting_map: "waiting pend rs = r # ws \<Longrightarrow> r \<in> set rs"
  using waiting_set by (metis list.set_intros(1) subset_iff)

context cells
begin

lemma receive_idle:
  assumes inv: "chan_inv ch pend" and env: "chan_env cell ch (ch_senders ch) rq st" and p: "pend (rq_mutex rq)"
    and w: "waiting pend (ch_senders ch) = []" and c: "ch_count ch = 0"
  shows "receive_data transfer ch rq pend st = Inr (channel_result False None
    (ch\<lparr> ch_senders := [], ch_receivers := ch_receivers ch @ [rq] \<rparr>) pend st)"
proof (cases "ch_buffer ch")
  case None
  then show ?thesis
    using env p w by (auto simp: receive_data_def chan_env_def drop_stale_Nil [symmetric] Let_def)
next
  case (Some hb)
  then show ?thesis
    using env p w c by (auto simp: receive_data_def chan_env_def drop_stale_Nil [symmetric] Let_def
      try_receive_from_buffer_def split: prod.splits)
qed

lemma receive_queue:
  assumes inv: "chan_inv ch pend" and env: "chan_env cell ch (ch_senders ch) rq st" and p: "pend (rq_mutex rq)"
  shows "\<exists>res. receive_data transfer ch rq pend st = Inr res \<and> chan_inv (cr_channel res) (cr_pending res) \<and>
    (case queue_of rd ch pend st of
       [] \<Rightarrow> \<not> cr_handled res \<and> cr_state res = st \<and> cr_callback res = None \<and>
         ch_receivers (cr_channel res) = ch_receivers ch @ [rq] \<and>
         queue_of rd (cr_channel res) (cr_pending res) (cr_state res) = []
     | v # vs \<Rightarrow> cr_handled res \<and> rd (cr_state res) (rq_data rq) = v \<and>
         queue_of rd (cr_channel res) (cr_pending res) (cr_state res) = vs)"
proof (cases "waiting pend (ch_senders ch)")
  case Nil
  note W = this
  show ?thesis
  proof (cases "ch_count ch = 0")
    case True
    have "buffer_slots ch = []" using True by (simp add: buffer_slots_def split: option.splits)
    then have "queue_of rd ch pend st = []" using W by (simp add: queue_of_def)
    moreover have "buffer_slots (ch\<lparr> ch_senders := [], ch_receivers := ch_receivers ch @ [rq] \<rparr>) = []"
      using True by (simp add: buffer_slots_def split: option.splits)
    moreover have "chan_inv (ch\<lparr> ch_senders := [], ch_receivers := ch_receivers ch @ [rq] \<rparr>) pend"
      using inv True by (auto simp: chan_inv_def room_def split: option.splits)
    ultimately show ?thesis
      using receive_idle [OF inv env p W True] by (simp add: channel_result_def queue_of_def)
  next
    case False
    then obtain h buf where b: "ch_buffer ch = Some (h, buf)"
      using inv by (auto simp: chan_inv_def split: option.splits)
    define ch1 where "ch1 = ch\<lparr> ch_senders := [] \<rparr>"
    have i: "ch_head ch < nat (arr_length buf)" "ch_count ch \<le> nat (arr_length buf)"
      using inv b by (simp_all add: chan_inv_def)
    have sl: "slots_of ch = slot buf ` {..<nat (arr_length buf)}" by (simp add: slots_of_def b)
    obtain st' ch' s where r: "try_receive_from_buffer transfer ch1 rq pend st = Inr (True, ch', pend(rq_mutex rq := False), st')"
        "transfer (rq_data rq) s (ch_type ch) st = Inr st'" "buffer_slots ch = s # buffer_slots ch'"
        "ch' = ch1\<lparr> ch_head := ch_head ch', ch_count := ch_count ch - 1 \<rparr>" "ch_head ch' < nat (arr_length buf)"
        "s \<in> slots_of ch"
      using receive_buffer [of ch1 h buf st rq pend] b i False env buffer_slots_cong [of ch1 ch]
      by (auto simp: ch1_def chan_env_def sl)
    have "receive_data transfer ch rq pend st = Inr (channel_result True None ch' (pend(rq_mutex rq := False)) st')"
      using env p W r(1) b by (auto simp: receive_data_def chan_env_def drop_stale_Nil [symmetric] Let_def ch1_def)
    moreover have "queue_of rd ch pend st = rd st s # map (rd st) (buffer_slots ch')"
      using W r(3) by (simp add: queue_of_def)
    moreover have cs: "\<forall>a\<in>set (buffer_slots ch'). cell st a" "rq_data rq \<notin> set (buffer_slots ch')"
      using slots_subset [OF inv] env r(3) by (auto simp: chan_env_def)
    then have "map (rd st') (buffer_slots ch') = map (rd st) (buffer_slots ch')"
      using transfer_map [OF _ _ r(2) cs] env r(6) by (auto simp: chan_env_def)
    moreover have "rd st' (rq_data rq) = rd st s"
      using transfer_rd [OF _ _ _ r(2), of "rq_data rq"] env r(6) by (auto simp: chan_env_def)
    moreover have "ch_senders ch' = []" "ch_receivers ch' = ch_receivers ch" "ch_count ch' = ch_count ch - 1"
        "ch_buffer ch' = ch_buffer ch"
      using arg_cong [OF r(4), of ch_senders] arg_cong [OF r(4), of ch_receivers]
        arg_cong [OF r(4), of ch_count] arg_cong [OF r(4), of ch_buffer]
      by (simp_all add: ch1_def)
    moreover have "waiting (pend(rq_mutex rq := False)) (ch_receivers ch) = []"
      using chan_inv_receivers [OF inv] False by (intro waiting_clear) simp
    moreover have "chan_inv ch' (pend(rq_mutex rq := False))"
      using calculation inv b r(5) i by (simp add: chan_inv_def)
    ultimately show ?thesis by (simp add: channel_result_def queue_of_def)
  qed
next
  case (Cons s ws)
  then have "drop_stale pend (ch_senders ch) \<noteq> []" by (simp add: drop_stale_Nil)
  then obtain s' ss where ds': "drop_stale pend (ch_senders ch) = s' # ss" by (auto simp: neq_Nil_conv)
  with drop_stale_Cons [OF ds'] Cons have ds: "drop_stale pend (ch_senders ch) = s # ss" by simp
  from drop_stale_Cons [OF ds] Cons have ws: "ws = waiting pend ss" and ps: "pend (rq_mutex s)"
    and sub: "set (s # ss) \<subseteq> set (ch_senders ch)" by auto
  have nr: "waiting pend (ch_receivers ch) = []" using chan_inv_receivers [OF inv] Cons by simp
  define pend' where "pend' = pend(rq_mutex rq := False, rq_mutex s := False)"
  define ch1 where "ch1 = ch\<lparr> ch_senders := ss \<rparr>"
  have "distinct (map rq_mutex (ch_senders ch))" using env by (simp only: chan_env_def)
  then have dist: "distinct (map rq_mutex (s # ss))" by (rule distinct_drop_stale [OF ds])
  have ws': "waiting pend' ss = ws"
  proof -
    have "rq_mutex s \<notin> rq_mutex ` set ss" using dist by simp
    moreover have "rq_mutex rq \<notin> rq_mutex ` set ss" using env sub by (auto simp: chan_env_def)
    ultimately show ?thesis unfolding pend'_def ws by (simp add: waiting_update)
  qed
  have nr': "waiting pend' (ch_receivers ch) = []" unfolding pend'_def by (intro waiting_clear nr)
  have cs: "cell st (rq_data rq)" "cell st (rq_data s)" "\<forall>a\<in>set (map rq_data ws). cell st a"
      "rq_data rq \<notin> set (map rq_data ws)"
    using env sub waiting_set [of pend ss] by (auto simp: chan_env_def ws)
  have unfold: "receive_data transfer ch rq pend st =
      (let direct = rbind (transfer (rq_data rq) (rq_data s) (ch_type ch) st) (\<lambda>st'.
          Inr (channel_result True (Some s) ch1 pend' st'))
       in case ch_buffer ch of None \<Rightarrow> direct
          | Some _ \<Rightarrow> rbind (try_receive_from_buffer transfer ch1 rq pend' st) (\<lambda>(got, ch1, pend1, st1).
              if got then rbind (try_send_to_buffer transfer ch1 s pend1 st1) (\<lambda>(did_send, ch2, pend2, st2).
                  require did_send (AssertFailed ''Should be room in buffer'')
                    (Inr (channel_result True (Some s) ch2 pend2 st2)))
              else direct))"
    using env p ds by (simp add: receive_data_def chan_env_def ch1_def pend'_def Let_def split: option.split)
  show ?thesis
  proof (cases "ch_buffer ch")
    case None
    obtain st' where t: "transfer (rq_data rq) (rq_data s) (ch_type ch) st = Inr st'"
      using transfer_ok cs by blast
    have r: "receive_data transfer ch rq pend st = Inr (channel_result True (Some s) ch1 pend' st')"
      unfolding unfold using None t by simp
    have "queue_of rd ch pend st = rd st (rq_data s) # map (rd st) (map rq_data ws)"
      using None Cons by (simp add: queue_of_def buffer_slots_def)
    moreover have "queue_of rd ch1 pend' st' = map (rd st') (map rq_data ws)"
      using None ws' by (simp add: queue_of_def buffer_slots_def ch1_def)
    moreover have "map (rd st') (map rq_data ws) = map (rd st) (map rq_data ws)"
      using transfer_map [OF cs(1,2) t cs(3,4)] .
    moreover have "rd st' (rq_data rq) = rd st (rq_data s)"
      using transfer_rd [OF cs(1,2,1) t] by simp
    moreover have "chan_inv ch1 pend'"
      using inv None nr' by (simp add: chan_inv_def ch1_def room_def)
    ultimately show ?thesis using r by (simp add: channel_result_def)
  next
    case (Some hb)
    then obtain h buf where b: "ch_buffer ch = Some (h, buf)" by (cases hb) simp
    have i: "ch_head ch < nat (arr_length buf)" "ch_count ch = nat (arr_length buf)"
        "0 < td_size (arr_element_type buf)"
      using inv chan_inv_full [OF inv] Cons b by (auto simp: chan_inv_def room_def)
    have pos: "0 < nat (arr_length buf)" using i(1) by linarith
    have sl: "slots_of ch = slot buf ` {..<nat (arr_length buf)}" by (simp add: slots_of_def b)
    have scell: "\<forall>i<nat (arr_length buf). cell st (slot buf i)" using env by (auto simp: chan_env_def sl)
    obtain st1 ch2 a where r: "try_receive_from_buffer transfer ch1 rq pend' st
          = Inr (True, ch2, pend'(rq_mutex rq := False), st1)"
        "transfer (rq_data rq) a (ch_type ch) st = Inr st1" "buffer_slots ch = a # buffer_slots ch2"
        "ch2 = ch1\<lparr> ch_head := ch_head ch2, ch_count := ch_count ch - 1 \<rparr>" "ch_head ch2 < nat (arr_length buf)"
        "a \<in> slots_of ch"
      using receive_buffer [of ch1 h buf st rq pend'] b i pos scell cs(1) buffer_slots_cong [of ch1 ch]
      by (auto simp: ch1_def sl)
    have f: "ch_senders ch2 = ss" "ch_receivers ch2 = ch_receivers ch" "ch_count ch2 = ch_count ch - 1"
        "ch_buffer ch2 = ch_buffer ch" "ch_type ch2 = ch_type ch"
      using arg_cong [OF r(4), of ch_senders] arg_cong [OF r(4), of ch_receivers]
        arg_cong [OF r(4), of ch_count] arg_cong [OF r(4), of ch_buffer] arg_cong [OF r(4), of ch_type]
      by (simp_all add: ch1_def)
    have ca: "cell st a" using env r(6) by (auto simp: chan_env_def)
    have cell1: "cell st1 x = cell st x" for x using transfer_cell [OF cs(1) ca r(2)] .
    have pp: "pend'(rq_mutex rq := False) = pend'" by (rule ext) (simp add: pend'_def)
    have lt: "ch_count ch2 < nat (arr_length buf)" using f(3) i(1,2) by simp
    obtain st2 d where t: "try_send_to_buffer transfer ch2 s pend' st1
        = Inr (True, ch2\<lparr> ch_count := ch_count ch2 + 1 \<rparr>, pend'(rq_mutex s := False), st2)"
        "transfer d (rq_data s) (ch_type ch) st1 = Inr st2"
        "buffer_slots (ch2\<lparr> ch_count := ch_count ch2 + 1 \<rparr>) = buffer_slots ch2 @ [d]"
        "d \<notin> set (buffer_slots ch2)" "d \<in> slots_of ch"
      using send_buffer [of ch2 h buf st1 s pend'] b f r(5) lt i(3) scell cell1 cs(2) by (auto simp: sl)
    define ch3 where "ch3 = ch2\<lparr> ch_count := ch_count ch2 + 1 \<rparr>"
    have ps': "pend'(rq_mutex s := False) = pend'" by (rule ext) (simp add: pend'_def)
    have res: "receive_data transfer ch rq pend st = Inr (channel_result True (Some s) ch3 pend' st2)"
      unfolding unfold using b r(1) t(1) by (simp add: pp ps' ch3_def)
    let ?as = "buffer_slots ch2" and ?ds = "map rq_data ws"
    have cb: "\<forall>x\<in>set ?as. cell st x" "rq_data rq \<notin> set ?as"
      using slots_subset [OF inv] env r(3) sub by (auto simp: chan_env_def)
    have dd: "d \<notin> set ?ds" "d \<noteq> rq_data rq" "d \<noteq> rq_data s" "a \<noteq> rq_data rq"
    proof -
      have dis: "\<forall>r\<in>set (ch_senders ch). rq_data r \<notin> slots_of ch" "rq_data rq \<notin> slots_of ch"
        using env unfolding chan_env_def by blast+
      show "d \<notin> set ?ds" using dis(1) t(5) sub waiting_set [of pend ss] unfolding ws by fastforce
      show "d \<noteq> rq_data rq" "a \<noteq> rq_data rq" using dis(2) t(5) r(6) by blast+
      show "d \<noteq> rq_data s" using dis(1) t(5) sub by force
    qed
    have cd: "cell st d" using env t(5) by (auto simp: chan_env_def)
    have m1: "map (rd st1) ?as = map (rd st) ?as" "map (rd st1) ?ds = map (rd st) ?ds"
      using transfer_map [OF cs(1) ca r(2)] cb cs(3,4) by blast+
    have m2: "map (rd st2) ?as = map (rd st1) ?as" "map (rd st2) ?ds = map (rd st1) ?ds"
      using transfer_map [OF _ _ t(2)] cd cs cb t(4) dd(1) cell1 by blast+
    have ns: "rq_data s \<noteq> rq_data rq"
      using env sub unfolding chan_env_def by (metis image_eqI list.set_intros(1) subsetD)
    have v: "rd st2 d = rd st (rq_data s)"
      using transfer_rd [OF _ _ _ t(2), of d] transfer_rd [OF cs(1) ca cs(2) r(2)] cd cs cell1 ns by simp
    have u: "rd st2 (rq_data rq) = rd st a"
      using transfer_rd [OF _ _ _ t(2), of "rq_data rq"] transfer_rd [OF cs(1) ca cs(1) r(2)] cd cs cell1 dd by simp
    have "queue_of rd ch pend st = rd st a # map (rd st) ?as @ rd st (rq_data s) # map (rd st) ?ds"
      using r(3) Cons by (simp add: queue_of_def)
    moreover have "queue_of rd ch3 pend' st2 = map (rd st2) ?as @ rd st2 d # map (rd st2) ?ds"
      using t(3) f(1) ws' by (simp add: queue_of_def ch3_def)
    moreover have "chan_inv ch3 pend'"
      using b i r(5) f nr' lt by (simp add: chan_inv_def ch3_def room_def)
    ultimately show ?thesis using res u v m1 m2 by (simp add: channel_result_def)
  qed
qed

end

context cells
begin

lemma send_queue:
  assumes inv: "chan_inv ch pend" and env: "chan_env cell ch (ch_receivers ch) rq st" and p: "pend (rq_mutex rq)"
  shows "\<exists>res. send_data transfer ch rq pend st = Inr res \<and> chan_inv (cr_channel res) (cr_pending res) \<and>
    (case waiting pend (ch_receivers ch) of
       [] \<Rightarrow> cr_handled res = room ch \<and> cr_callback res = None \<and>
         queue_of rd (cr_channel res) (cr_pending res) (cr_state res) = queue_of rd ch pend st @ [rd st (rq_data rq)]
     | r # _ \<Rightarrow> cr_handled res \<and> cr_callback res = Some r \<and> rd (cr_state res) (rq_data r) = rd st (rq_data rq) \<and>
         \<not> cr_pending res (rq_mutex r) \<and> queue_of rd (cr_channel res) (cr_pending res) (cr_state res) = [])"
proof (cases "waiting pend (ch_receivers ch)")
  case Nil
  define ch' where "ch' = ch\<lparr> ch_receivers := [] \<rparr>"
  define queued where "queued = ch'\<lparr> ch_senders := ch_senders ch @ [rq] \<rparr>"
  have ds: "drop_stale pend (ch_receivers ch) = []" using Nil by (simp add: drop_stale_Nil)
  have f: "ch_buffer ch' = ch_buffer ch" "ch_head ch' = ch_head ch" "ch_count ch' = ch_count ch"
    "ch_type ch' = ch_type ch" "ch_senders ch' = ch_senders ch" by (simp_all add: ch'_def)
  note start = env p ds
  show ?thesis
  proof (cases "room ch")
    case False
    have "try_send_to_buffer transfer ch' rq pend st = Inr (False, ch', pend, st)" if "ch_buffer ch = Some hb" for hb
      using False inv that by (cases hb) (simp add: try_send_to_buffer_def f room_def chan_inv_def)
    then have "send_data transfer ch rq pend st = Inr (channel_result False None queued pend st)"
      using env p ds by (cases "ch_buffer ch")
        (auto simp: send_data_def chan_env_def queued_def ch'_def Let_def)
    moreover have "chan_inv queued pend"
      using inv False by (auto simp: chan_inv_def queued_def ch'_def room_def split: option.splits)
    moreover have "buffer_slots queued = buffer_slots ch"
      by (rule buffer_slots_cong) (simp_all add: queued_def f)
    then have "queue_of rd queued pend st = queue_of rd ch pend st @ [rd st (rq_data rq)]"
      using p by (simp add: queue_of_def queued_def) (simp add: waiting_def)
    ultimately show ?thesis using Nil False by (simp add: channel_result_def)
  next
    case True
    then obtain h buf where b: "ch_buffer ch = Some (h, buf)" and lt: "ch_count ch < nat (arr_length buf)"
      by (auto simp: room_def split: option.splits)
    have i: "ch_head ch < nat (arr_length buf)" "0 < td_size (arr_element_type buf)"
      using inv b by (simp_all add: chan_inv_def)
    have sl: "slots_of ch = slot buf ` {..<nat (arr_length buf)}" by (simp add: slots_of_def b)
    have c: "\<forall>i<nat (arr_length buf). cell st (slot buf i)" "cell st (rq_data rq)"
      using env by (auto simp: chan_env_def sl)
    define ch2 where "ch2 = ch'\<lparr> ch_count := ch_count ch' + 1 \<rparr>"
    have bs: "buffer_slots ch' = buffer_slots ch" by (rule buffer_slots_cong) (simp_all add: f)
    obtain st' d where t: "try_send_to_buffer transfer ch' rq pend st = Inr (True, ch2, pend(rq_mutex rq := False), st')"
        "transfer d (rq_data rq) (ch_type ch) st = Inr st'" "buffer_slots ch2 = buffer_slots ch @ [d]"
        "d \<notin> set (buffer_slots ch)" "d \<in> slots_of ch"
      using send_buffer [of ch' h buf st rq pend] b i lt c f bs sl unfolding ch2_def by auto
    have cd: "cell st d" using t(5) env by (simp add: chan_env_def)
    have m: "map (rd st') (buffer_slots ch) = map (rd st) (buffer_slots ch)"
      using transfer_map [OF cd c(2) t(2) _ t(4)] slots_subset [OF inv] env unfolding chan_env_def by blast
    have v: "rd st' d = rd st (rq_data rq)" using transfer_rd [OF cd c(2) cd t(2)] by simp
    have ws: "waiting pend (ch_senders ch) = []" using inv True by (auto simp: chan_inv_def)
    then have ws': "waiting (pend(rq_mutex rq := False)) (ch_senders ch2) = []"
      by (simp add: waiting_clear ch2_def f)
    have "send_data transfer ch rq pend st = Inr (channel_result True None ch2 (pend(rq_mutex rq := False)) st')"
      using env p ds b t(1) unfolding send_data_def chan_env_def ch'_def by (simp add: Let_def)
    moreover have "chan_inv ch2 (pend(rq_mutex rq := False))"
      using i lt ws' b by (simp add: chan_inv_def ch2_def ch'_def)
    ultimately show ?thesis using Nil True m v ws ws' t(3) by (simp add: channel_result_def queue_of_def)
  qed
next
  case (Cons r ws)
  then obtain rs where ds: "drop_stale pend (ch_receivers ch) = r # rs"
    using drop_stale_Nil [of pend "ch_receivers ch"] drop_stale_Cons [of pend "ch_receivers ch"]
    by (cases "drop_stale pend (ch_receivers ch)") auto
  have r: "r \<in> set (ch_receivers ch)" using Cons by (rule waiting_map)
  then have c: "cell st (rq_data r)" "cell st (rq_data rq)" using env by (auto simp: chan_env_def)
  obtain st' where t: "transfer (rq_data r) (rq_data rq) (ch_type ch) st = Inr st'" using transfer_ok [OF c] by blast
  define ch' where "ch' = ch\<lparr> ch_receivers := rs \<rparr>"
  define pend' where "pend' = pend(rq_mutex rq := False, rq_mutex r := False)"
  have e: "ch_count ch = 0" "waiting pend (ch_senders ch) = []" using inv Cons by (auto simp: chan_inv_def)
  have ws': "waiting pend' (ch_senders ch') = []" using e by (simp add: pend'_def ch'_def waiting_clear)
  have "buffer_slots ch' = []" using e by (simp add: buffer_slots_def ch'_def split: option.splits)
  then have "queue_of rd ch' pend' st' = []" using ws' by (simp add: queue_of_def)
  moreover have "chan_inv ch' pend'"
    using inv e ws' by (auto simp: chan_inv_def ch'_def split: option.splits)
  moreover have "send_data transfer ch rq pend st = Inr (channel_result True (Some r) ch' pend' st')"
    using env p ds t by (simp add: send_data_def chan_env_def ch'_def pend'_def)
  moreover have "rd st' (rq_data r) = rd st (rq_data rq)" using transfer_rd [OF c c(1) t] by simp
  ultimately show ?thesis using Cons by (simp add: channel_result_def pend'_def)
qed

end

lemma waiting_remove: "set (waiting pend (remove_first t rs)) \<subseteq> set (waiting pend rs)"
  by (induction rs) (auto simp: waiting_def)

lemma cancel_request_inv: "chan_inv ch pend \<Longrightarrow> chan_inv (cancel_request ch t) pend"
  using waiting_remove [of pend t "ch_receivers ch"] waiting_remove [of pend t "ch_senders ch"]
  by (auto simp: chan_inv_def cancel_request_def room_def split: option.splits)

lemma remove_first_all:
  "distinct (map rq_thread rs) \<Longrightarrow> remove_first t rs = filter (\<lambda>r. rq_thread r \<noteq> t) rs"
proof (induction rs)
  case (Cons a rs)
  then have "filter (\<lambda>r. rq_thread r \<noteq> rq_thread a) rs = rs" by (auto simp: filter_id_conv image_iff)
  with Cons show ?case by auto
qed simp

text \<open>C13: cancelling a thread's request keeps the channel's invariant and, where no thread
  waits twice, leaves exactly the requests of the other threads in the queue that held it.\<close>

theorem cancel_request_spec:
  assumes "chan_inv ch pend" "distinct (map rq_thread (ch_receivers ch @ ch_senders ch))"
  shows "chan_inv (cancel_request ch t) pend \<and>
    ch_receivers (cancel_request ch t) = filter (\<lambda>r. rq_thread r \<noteq> t) (ch_receivers ch) \<and>
    ch_senders (cancel_request ch t) = filter (\<lambda>r. rq_thread r \<noteq> t) (ch_senders ch)"
proof (intro conjI)
  show "chan_inv (cancel_request ch t) pend" using assms(1) by (rule cancel_request_inv)
  have d: "distinct (map rq_thread (ch_receivers ch))" "distinct (map rq_thread (ch_senders ch))"
    "rq_thread ` set (ch_receivers ch) \<inter> rq_thread ` set (ch_senders ch) = {}" using assms(2) by auto
  show "ch_receivers (cancel_request ch t) = filter (\<lambda>r. rq_thread r \<noteq> t) (ch_receivers ch)"
    using d by (auto simp: cancel_request_def remove_first_all filter_id_conv [THEN iffD2, symmetric])
  show "ch_senders (cancel_request ch t) = filter (\<lambda>r. rq_thread r \<noteq> t) (ch_senders ch)"
    using d by (auto simp: cancel_request_def remove_first_all) (metis (mono_tags) IntI empty_iff filter_True image_eqI)
qed

definition two_senders :: channel where
  "two_senders = \<lparr> ch_buffer = None, ch_head = 0, ch_count = 0, ch_type = td_word,
     ch_senders = [\<lparr> rq_thread = 1, rq_data = 64, rq_mutex = 1 \<rparr>, \<lparr> rq_thread = 2, rq_data = 68, rq_mutex = 2 \<rparr>],
     ch_receivers = [] \<rparr>"

lemma cancel_request_spec_witness: "map rq_thread (ch_senders (cancel_request two_senders 1)) = [2]"
  using cancel_request_spec [of two_senders "\<lambda>_. True" 1]
  by (simp add: two_senders_def chan_inv_def room_def)

end
