(* ===== verification/Effects.thy ===== *)
theory Effects
  imports Prelude
begin

text \<open>
  Operations with state and exceptions: a computation takes the state and gives a result, or
  the exception it threw, together with the state it leaves, so that what the source had
  already done when it threw is kept. Invariants are proved compositionally: \<open>keeps I m\<close>
  says that \<open>m\<close> preserves \<open>I\<close> on every outcome, thrown exceptions included.
\<close>

type_synonym ('s, 'a) eff = "'s \<Rightarrow> 'a res \<times> 's"

named_theorems eff_simps \<open>evaluation of computations\<close>
named_theorems keeps_intros \<open>rules for preserved invariants\<close>

section \<open>Combinators\<close>

definition eret :: "'a \<Rightarrow> ('s, 'a) eff" where
  "eret x = (\<lambda>s. (Inr x, s))"

definition ebind :: "('s, 'a) eff \<Rightarrow> ('a \<Rightarrow> ('s, 'b) eff) \<Rightarrow> ('s, 'b) eff" where
  "ebind m k = (\<lambda>s. case m s of (Inl e, s') \<Rightarrow> (Inl e, s') | (Inr x, s') \<Rightarrow> k x s')"

definition eseq :: "('s, unit) eff \<Rightarrow> ('s, 'b) eff \<Rightarrow> ('s, 'b) eff" where
  "eseq m k = ebind m (\<lambda>_. k)"

definition throw :: "vm_exn \<Rightarrow> ('s, 'a) eff" where
  "throw e = (\<lambda>s. (Inl e, s))"

definition gets :: "('s \<Rightarrow> 'a) \<Rightarrow> ('s, 'a) eff" where
  "gets f = (\<lambda>s. (Inr (f s), s))"

definition modify :: "('s \<Rightarrow> 's) \<Rightarrow> ('s, unit) eff" where
  "modify f = (\<lambda>s. (Inr (), f s))"

definition lift_res :: "'a res \<Rightarrow> ('s, 'a) eff" where
  "lift_res r = (\<lambda>s. (r, s))"

definition check :: "bool \<Rightarrow> vm_exn \<Rightarrow> ('s, unit) eff" where
  "check b e = (if b then eret () else throw e)"

definition vm_assert :: "bool \<Rightarrow> string \<Rightarrow> ('s, unit) eff" where
  "vm_assert b msg = check b (AssertFailed msg)"

definition when_do :: "bool \<Rightarrow> ('s, unit) eff \<Rightarrow> ('s, unit) eff" where
  "when_do b m = (if b then m else eret ())"

definition catch :: "('s, 'a) eff \<Rightarrow> (vm_exn \<Rightarrow> ('s, 'a) eff) \<Rightarrow> ('s, 'a) eff" where
  "catch m h = (\<lambda>s. case m s of (Inl e, s') \<Rightarrow> h e s' | (Inr x, s') \<Rightarrow> (Inr x, s'))"

primrec for_each :: "('a \<Rightarrow> ('s, unit) eff) \<Rightarrow> 'a list \<Rightarrow> ('s, unit) eff" where
  "for_each f [] = eret ()"
| "for_each f (x # xs) = eseq (f x) (for_each f xs)"

primrec map_each :: "('a \<Rightarrow> ('s, 'b) eff) \<Rightarrow> 'a list \<Rightarrow> ('s, 'b list) eff" where
  "map_each f [] = eret []"
| "map_each f (x # xs) = ebind (f x) (\<lambda>y. ebind (map_each f xs) (\<lambda>ys. eret (y # ys)))"

section \<open>Evaluation\<close>

lemma eff_run [simp, eff_simps]:
  "eret x s = (Inr x, s)" "throw e s = (Inl e, s)" "gets f s = (Inr (f s), s)"
  "modify g s = (Inr (), g s)" "lift_res r s = (r, s)"
  by (simp_all add: eret_def throw_def gets_def modify_def lift_res_def)

lemma ebind_run: "ebind m k s = (case m s of (Inl e, s') \<Rightarrow> (Inl e, s') | (Inr x, s') \<Rightarrow> k x s')"
  by (simp add: ebind_def)

lemma ebind_Inr [eff_simps]: "m s = (Inr x, s') \<Longrightarrow> ebind m k s = k x s'"
  by (simp add: ebind_def)

lemma ebind_Inl [eff_simps]: "m s = (Inl e, s') \<Longrightarrow> ebind m k s = (Inl e, s')"
  by (simp add: ebind_def)

lemma eseq_Inr [eff_simps]: "m s = (Inr (), s') \<Longrightarrow> eseq m k s = k s'"
  by (simp add: eseq_def ebind_def)

lemma eseq_Inl [eff_simps]: "m s = (Inl e, s') \<Longrightarrow> eseq m k s = (Inl e, s')"
  by (simp add: eseq_def ebind_def)

lemma ebind_gets [simp, eff_simps]: "ebind (gets f) k s = k (f s) s"
  by (simp add: ebind_def)

lemma ebind_Pair [simp, eff_simps]: "ebind (Pair (Inr x)) k = k x" "ebind (Pair (Inl e)) k = Pair (Inl e)"
  by (simp_all add: ebind_def fun_eq_iff)

lemma eseq_Pair [simp, eff_simps]: "eseq (Pair (Inr ())) k = k" "eseq (Pair (Inl e)) k = Pair (Inl e)"
  by (simp_all add: eseq_def)

lemma bind_basic [simp, eff_simps]:
  "ebind (eret x) k = k x" "ebind (throw e) k = throw e" "eseq (eret ()) m = m" "eseq (throw e) m = throw e"
  by (simp_all add: eret_def throw_def)

lemma eseq_modify [simp, eff_simps]: "eseq (modify g) k s = k (g s)"
  by (simp add: eseq_def ebind_def)

lemma check_simps [simp, eff_simps]: "check True e = eret ()" "check False e = throw e"
  by (simp_all add: check_def)

lemma vm_assert_simps [simp, eff_simps]: "vm_assert True m = eret ()" "vm_assert False m = throw (AssertFailed m)"
  by (simp_all add: vm_assert_def)

lemma when_do_simps [simp, eff_simps]: "when_do True m = m" "when_do False m = eret ()"
  by (simp_all add: when_do_def)

lemma ebind_cong [fundef_cong]:
  "m s = m' s' \<Longrightarrow> (\<And>x t. m' s' = (Inr x, t) \<Longrightarrow> k x t = k' x t) \<Longrightarrow> ebind m k s = ebind m' k' s'"
  by (auto simp: ebind_def split: prod.splits sum.splits)

lemma ebind_assoc: "ebind (ebind m f) g = ebind m (\<lambda>x. ebind (f x) g)"
  by (auto simp: ebind_def fun_eq_iff split: prod.splits sum.splits)

lemma for_each_append: "for_each f (xs @ ys) = eseq (for_each f xs) (for_each f ys)"
  by (induction xs) (simp_all add: eseq_def ebind_assoc)

section \<open>Preserved invariants\<close>

definition keeps :: "('s \<Rightarrow> bool) \<Rightarrow> ('s, 'a) eff \<Rightarrow> bool" where
  "keeps I m \<longleftrightarrow> (\<forall>s. I s \<longrightarrow> I (snd (m s)))"

lemma keepsD: "keeps I m \<Longrightarrow> I s \<Longrightarrow> m s = (r, s') \<Longrightarrow> I s'"
  by (metis keeps_def snd_conv)

lemma keeps_basic [keeps_intros]:
  "keeps I (eret x)" "keeps I (throw e)" "keeps I (gets f)" "keeps I (lift_res r)" "keeps I (check b e)"
  "keeps I (vm_assert b msg)" "keeps I (Pair r)"
  by (simp_all add: keeps_def check_def vm_assert_def)

lemma keeps_bind [keeps_intros]: "keeps I m \<Longrightarrow> (\<And>x. keeps I (k x)) \<Longrightarrow> keeps I (ebind m k)"
  unfolding keeps_def ebind_def by (fastforce split: prod.split sum.split)

lemma keeps_seq [keeps_intros]: "keeps I m \<Longrightarrow> keeps I k \<Longrightarrow> keeps I (eseq m k)"
  by (simp add: eseq_def keeps_bind)

lemma keeps_modify: "(\<And>s. I s \<Longrightarrow> I (g s)) \<Longrightarrow> keeps I (modify g)"
  by (simp add: keeps_def)

lemma keeps_when [keeps_intros]: "keeps I m \<Longrightarrow> keeps I (when_do b m)"
  by (cases b) (simp_all add: keeps_basic)

lemma keeps_if [keeps_intros]: "(b \<Longrightarrow> keeps I m) \<Longrightarrow> (\<not> b \<Longrightarrow> keeps I m') \<Longrightarrow> keeps I (if b then m else m')"
  by simp

lemma keeps_option [keeps_intros]:
  "keeps I m \<Longrightarrow> (\<And>x. keeps I (k x)) \<Longrightarrow> keeps I (case v of None \<Rightarrow> m | Some x \<Rightarrow> k x)"
  by (cases v) simp_all

lemma keeps_prod [keeps_intros]: "(\<And>x y. keeps I (k x y)) \<Longrightarrow> keeps I (case v of (x, y) \<Rightarrow> k x y)"
  by (cases v) simp

lemma keeps_for_each [keeps_intros]: "(\<And>x. keeps I (f x)) \<Longrightarrow> keeps I (for_each f xs)"
  by (induction xs) (simp_all add: keeps_intros)

lemma keeps_catch [keeps_intros]: "keeps I m \<Longrightarrow> (\<And>e. keeps I (h e)) \<Longrightarrow> keeps I (catch m h)"
  unfolding keeps_def catch_def by (fastforce split: prod.split sum.split)

end
