(* ===== verification/Opcodes.thy ===== *)
theory Opcodes
  imports Effects
begin

text \<open>
  The operation codes of \<^verbatim>\<open>src/src/include/opcodes.hpp\<close> and the assembler's table of their
  names, \<^verbatim>\<open>src/src/asm/opcode_tokens.cpp\<close>. An opcode is its number; \<open>opcode_enum\<close> lists the
  enumerators in order, so that the enumerator at position \<open>n\<close> has the value \<open>n\<close>, as the
  values the source writes out confirm. The codes keep the spelling of the sources, where
  \<open>goto_\<close> and \<open>new_\<close> avoid keywords of the language.
\<close>

section \<open>The tables\<close>

definition opcode_enum :: "string list" where
  "opcode_enum = [
    ''invalid'', ''alt'', ''nbalt'', ''goto_'', ''call'', ''frame'', ''spawn'', ''runt'', ''load'',
    ''mcall'', ''mspawn'', ''mframe'', ''ret'', ''jmp'', ''casew'', ''exit'', ''new_'', ''newa'',
    ''newcb'', ''newcw'', ''newcf'', ''newcp'', ''newcm'', ''newcmp'', ''send'', ''recv'',
    ''consb'', ''consw'', ''consp'', ''consf'', ''consm'', ''consmp'', ''headb'', ''headw'',
    ''headp'', ''headf'', ''headm'', ''headmp'', ''tail'', ''lea'', ''indx'', ''movp'', ''movm'',
    ''movmp'', ''movb'', ''movw'', ''movf'', ''cvtbw'', ''cvtwb'', ''cvtfw'', ''cvtwf'', ''cvtca'',
    ''cvtac'', ''cvtwc'', ''cvtcw'', ''cvtfc'', ''cvtcf'', ''addb'', ''addw'', ''addf'', ''subb'',
    ''subw'', ''subf'', ''mulb'', ''mulw'', ''mulf'', ''divb'', ''divw'', ''divf'', ''modw'',
    ''modb'', ''andb'', ''andw'', ''orb'', ''orw'', ''xorb'', ''xorw'', ''shlb'', ''shlw'',
    ''shrb'', ''shrw'', ''insc'', ''indc'', ''addc'', ''lenc'', ''lena'', ''lenl'', ''beqb'',
    ''bneb'', ''bltb'', ''bleb'', ''bgtb'', ''bgeb'', ''beqw'', ''bnew'', ''bltw'', ''blew'',
    ''bgtw'', ''bgew'', ''beqf'', ''bnef'', ''bltf'', ''blef'', ''bgtf'', ''bgef'', ''beqc'',
    ''bnec'', ''bltc'', ''blec'', ''bgtc'', ''bgec'', ''slicea'', ''slicela'', ''slicec'', ''indw'',
    ''indf'', ''indb'', ''negf'', ''movl'', ''addl'', ''subl'', ''divl'', ''modl'', ''mull'',
    ''andl'', ''orl'', ''xorl'', ''shll'', ''shrl'', ''bnel'', ''bltl'', ''blel'', ''bgtl'',
    ''bgel'', ''beql'', ''cvtlf'', ''cvtfl'', ''cvtlw'', ''cvtwl'', ''cvtlc'', ''cvtcl'', ''headl'',
    ''consl'', ''newcl'', ''casec'', ''indl'', ''movpc'', ''tcmp'', ''mnewz'', ''cvtrf'', ''cvtfr'',
    ''cvtws'', ''cvtsw'', ''lsrw'', ''lsrl'', ''eclr'', ''newz'', ''newaz'', ''raise'', ''casel'',
    ''mulx'', ''divx'', ''cvtxx'', ''mulx0'', ''divx0'', ''cvtxx0'', ''mulx1'', ''divx1'',
    ''cvtxx1'', ''cvtfx'', ''cvtxf'', ''expw'', ''expl'', ''expf'', ''self'', ''brkpt'']"

definition last_opcode :: nat where
  "last_opcode = 0xaf"

definition opcode_tokens :: "string list" where
  "opcode_tokens = [
    ''invalid'', ''alt'', ''nbalt'', ''goto'', ''call'', ''frame'', ''spawn'', ''runt'', ''load'',
    ''mcall'', ''mspawn'', ''mframe'', ''ret'', ''jmp'', ''casew'', ''exit'', ''new'', ''newa'',
    ''newcb'', ''newcw'', ''newcf'', ''newcp'', ''newcm'', ''newcmp'', ''send'', ''recv'',
    ''consb'', ''consw'', ''consp'', ''consf'', ''consm'', ''consmp'', ''headb'', ''headw'',
    ''headp'', ''headf'', ''headm'', ''headmp'', ''tail'', ''lea'', ''indx'', ''movp'', ''movm'',
    ''movmp'', ''movb'', ''movw'', ''movf'', ''cvtbw'', ''cvtwb'', ''cvtfw'', ''cvtwf'', ''cvtca'',
    ''cvtac'', ''cvtwc'', ''cvtcw'', ''cvtfc'', ''cvtcf'', ''addb'', ''addw'', ''addf'', ''subb'',
    ''subw'', ''subf'', ''mulb'', ''mulw'', ''mulf'', ''divb'', ''divw'', ''divf'', ''modw'',
    ''modb'', ''andb'', ''andw'', ''orb'', ''orw'', ''xorb'', ''xorw'', ''shlb'', ''shlw'',
    ''shrb'', ''shrw'', ''insc'', ''indc'', ''addc'', ''lenc'', ''lena'', ''lenl'', ''beqb'',
    ''bneb'', ''bltb'', ''bleb'', ''bgtb'', ''bgeb'', ''beqw'', ''bnew'', ''bltw'', ''blew'',
    ''bgtw'', ''bgew'', ''beqf'', ''bnef'', ''bltf'', ''blef'', ''bgtf'', ''bgef'', ''beqc'',
    ''bnec'', ''bltc'', ''blec'', ''bgtc'', ''bgec'', ''slicea'', ''slicela'', ''slicec'', ''indw'',
    ''indf'', ''indb'', ''negf'', ''movl'', ''addl'', ''subl'', ''divl'', ''modl'', ''mull'',
    ''andl'', ''orl'', ''xorl'', ''shll'', ''shrl'', ''bnel'', ''bltl'', ''blel'', ''bgtl'',
    ''bgel'', ''beql'', ''cvtlf'', ''cvtfl'', ''cvtlw'', ''cvtwl'', ''cvtlc'', ''cvtcl'', ''headl'',
    ''consl'', ''newcl'', ''casec'', ''indl'', ''movpc'', ''tcmp'', ''mnewz'', ''cvtrf'', ''cvtfr'',
    ''cvtws'', ''cvtsw'', ''lsrw'', ''lsrl'', ''eclr'', ''newz'', ''newaz'', ''raise'', ''casel'',
    ''mulx'', ''divx'', ''cvtxx'', ''mulx0'', ''divx0'', ''cvtxx0'', ''mulx1'', ''divx1'',
    ''cvtxx1'', ''cvtfx'', ''cvtxf'', ''expw'', ''expl'', ''expf'', ''self'', ''brkpt'']"

section \<open>Lookup\<close>

definition opcode_to_token :: "nat \<Rightarrow> string res" where
  "opcode_to_token opc = require (opc < length opcode_tokens) (AssertFailed ''opcode_index'') (Inr (opcode_tokens ! opc))"

fun token_search :: "nat \<Rightarrow> string list \<Rightarrow> string \<Rightarrow> nat" where
  "token_search i [] t = 0"
| "token_search i (n # ns) t = (if n = t then i else token_search (Suc i) ns t)"

definition token_to_opcode :: "string \<Rightarrow> nat" where
  "token_to_opcode t = token_search 0 opcode_tokens t"

definition opcode_of :: "string \<Rightarrow> nat" where
  "opcode_of name = token_search 0 opcode_enum name"

section \<open>The names and the numbers\<close>

definition source_spelling :: "string \<Rightarrow> string" where
  "source_spelling name = (if name \<noteq> [] \<and> last name = CHR ''_'' then butlast name else name)"

lemma token_search_nth:
  "distinct ns \<Longrightarrow> k < length ns \<Longrightarrow> token_search i ns (ns ! k) = i + k"
  by (induction ns arbitrary: i k) (auto simp: nth_Cons in_set_conv_nth split: nat.split)

lemma token_search_none: "t \<notin> set ns \<Longrightarrow> token_search i ns t = 0"
  by (induction ns arbitrary: i) auto

lemma distinct_opcode_tokens: "distinct opcode_tokens"
  by code_simp

lemma length_opcode_tokens: "length opcode_tokens = Suc last_opcode"
  by code_simp

text \<open>the name table covers every opcode, spells each as the enumeration does, and reading
  a name gives back its opcode; every other text reads as the invalid opcode 0.\<close>

theorem opcode_tokens_roundtrip:
  "opcode_tokens = map source_spelling opcode_enum \<and> length opcode_enum = Suc last_opcode \<and>
   (\<forall>opc\<le>last_opcode. \<exists>t. opcode_to_token opc = Inr t \<and> token_to_opcode t = opc) \<and>
   (\<forall>t. t \<notin> set opcode_tokens \<longrightarrow> token_to_opcode t = 0)"
proof (intro conjI)
  show "opcode_tokens = map source_spelling opcode_enum" by code_simp
  show "length opcode_enum = Suc last_opcode" by code_simp
  show "\<forall>opc\<le>last_opcode. \<exists>t. opcode_to_token opc = Inr t \<and> token_to_opcode t = opc"
    using token_search_nth [OF distinct_opcode_tokens]
    by (auto simp: opcode_to_token_def token_to_opcode_def length_opcode_tokens)
qed (simp add: token_to_opcode_def token_search_none)

lemma opcode_tokens_roundtrip_witness: "\<exists>t. opcode_to_token 0x1f = Inr t \<and> token_to_opcode t = 0x1f"
  using opcode_tokens_roundtrip by (simp add: last_opcode_def)

end
