(* ===== verification/Modules.thy ===== *)
theory Modules
  imports Channel Opcodes
begin

text \<open>
  Modules as the VM holds them once read: instructions with their operand encodings, the
  header, and the code, type, export, import and handler sections of
  \<^verbatim>\<open>src/src/include/runtime.hpp\<close>. An instruction of a built-in module is a native function,
  named here by a number. \<open>m_code_base\<close> is the address of the code vector: the operand of an
  immediate addressing mode is a location inside the instruction itself, so the operands of
  the code section live in memory too, at the offsets the layout of \<^verbatim>\<open>vm_exec_op_t\<close> gives them.
\<close>

section \<open>Instructions\<close>

datatype middle_mode = MidNone | MidSmallImmediate | MidSmallFp | MidSmallMp

datatype addr_mode = IndirectMp | IndirectFp | Immediate | NoOperand | DoubleMp | DoubleFp | Reserved1 | Reserved2

record operand =
  op_mode :: addr_mode
  op_register1 :: word_t
  op_register2 :: word_t

record middle_data =
  mid_mode :: middle_mode
  mid_register1 :: word_t

record exec_op =
  in_opcode :: nat
  in_addr_code :: byte_t
  in_source :: operand
  in_middle :: middle_data
  in_destination :: operand

datatype instruction = Exec exec_op | Native nat

definition instruction_size :: nat where "instruction_size = 36"
definition source_offset :: nat where "source_offset = 8"
definition middle_offset :: nat where "middle_offset = 20"
definition destination_offset :: nat where "destination_offset = 28"

section \<open>Sections\<close>

record header =
  hd_magic_number :: word_t
  hd_signature :: "byte_t list"
  hd_runtime_flag :: word_t
  hd_stack_extent :: word_t
  hd_code_size :: word_t
  hd_data_size :: word_t
  hd_type_size :: word_t
  hd_export_size :: word_t
  hd_entry_pc :: word_t
  hd_entry_type :: word_t

record export_function =
  ex_pc :: word_t
  ex_frame_type :: word_t
  ex_sig :: word_t
  ex_name :: "vm_string option"

record import_function =
  im_sig :: word_t
  im_name :: "vm_string option"

record exception_entry =
  ee_pc :: word_t
  ee_name :: "vm_string option"

record handler_entry =
  he_exception_offset :: word_t
  he_begin_pc :: word_t
  he_end_pc :: word_t
  he_exception_type_count :: word_t
  he_type_desc :: "type_desc option"
  he_exception_table :: "exception_entry list"

record vm_module =
  m_vm_id :: nat
  m_header :: header
  m_code_section :: "instruction list"
  m_code_base :: nat
  m_original_mp :: nat
  m_type_section :: "type_desc option list"
  m_module_name :: "vm_string option"
  m_export_section :: "(word_t \<times> export_function) list"
  m_import_section :: "import_function list list"
  m_handler_section :: "handler_entry list"

definition must_compile :: word_t where "must_compile = 1"
definition dont_compile :: word_t where "dont_compile = 2"
definition share_module :: word_t where "share_module = 4"
definition dynmod :: word_t where "dynmod = 8"
definition has_import_deprecated :: word_t where "has_import_deprecated = 0x10"
definition has_handler :: word_t where "has_handler = 0x20"
definition has_import :: word_t where "has_import = 0x40"
definition builtin_flag :: word_t where "builtin_flag = 0x80"

definition has_flag :: "word_t \<Rightarrow> word_t \<Rightarrow> bool" where
  "has_flag flags flag = (flags AND flag \<noteq> 0)"

end
