(* ===== verification/Heap.thy ===== *)
theory Heap
  imports Modules "HOL-Library.AList"
begin

text \<open>
  The memory of the VM (\<^verbatim>\<open>src/src/vm/vm_memory.cpp\<close>, the helpers of
  \<^verbatim>\<open>src/src/include/builtin_module.hpp\<close>, \<^verbatim>\<open>array.cpp\<close> and \<^verbatim>\<open>list.cpp\<close>). Addresses are natural
  numbers below $2^{32}$; memory is a partial map from addresses to bytes, so that a read or
  write outside a live block is \<open>Undefined\<close>. Blocks come from an allocator that gives zeroed
  memory at addresses it has not given before and throws when the address space is used up.
  Every garbage-collected object has an entry in the object table, keyed by the address of
  its allocation (what \<^verbatim>\<open>get_allocation\<close> returns, and what a pointer field holds), with its
  reference count, its type descriptor, the word reserved for the collector and, for the
  VM's own types, its fields. A finalizer and the closing of a file act outside the heap;
  they are recorded.
\<close>

section \<open>State\<close>

datatype transfer_kind = MovByte | MovWord | MovReal | MovBig | MovPointer | ChannelMovm | ChannelMovmp

record vm_list =
  ls_element_type :: type_desc
  ls_tail :: nat
  ls_value :: nat

record module_ref =
  mr_module :: nat
  mr_mp_base :: nat
  mr_builtin :: bool
  mr_function_refs :: "(word_t \<times> word_t) list option"

record sys_fd =
  fd_mode :: word_t
  fd_path :: nat
  fd_file :: nat

datatype payload =
    Plain
  | StringObj vm_string
  | ArrayObj vm_array
  | ListObj vm_list
  | ChannelObj transfer_kind channel
  | ModuleRefObj module_ref
  | FdObj sys_fd

datatype host_act = Finalized nat nat | CloseFile nat | RemoveFile vm_string

record obj =
  ob_refs :: nat
  ob_type :: type_desc
  ob_gc :: word_t
  ob_data :: payload

record heap =
  h_mem :: "nat \<Rightarrow> byte_t option"
  h_brk :: nat
  h_objs :: "(nat \<times> obj) list"
  h_frame_types :: "(nat \<times> type_desc) list"
  h_modules :: "(nat \<times> vm_module) list"
  h_finalized :: "host_act list"

type_synonym ('z, 'a) heff = "('z heap_scheme, 'a) eff"

section \<open>Bytes of memory\<close>

definition read_bytes :: "nat \<Rightarrow> nat \<Rightarrow> (nat \<Rightarrow> byte_t option) \<Rightarrow> byte_t list option" where
  "read_bytes a n m = those (map (\<lambda>i. m (a + i)) [0..<n])"

definition write_bytes :: "nat \<Rightarrow> byte_t list \<Rightarrow> (nat \<Rightarrow> byte_t option) \<Rightarrow> (nat \<Rightarrow> byte_t option) option" where
  "write_bytes a bs m =
     (if list_all (\<lambda>i. m (a + i) \<noteq> None) [0..<length bs]
      then Some (\<lambda>x. if a \<le> x \<and> x < a + length bs then Some (bs ! (x - a)) else m x) else None)"

definition load :: "nat \<Rightarrow> nat \<Rightarrow> ('z, byte_t list) heff" where
  "load n a = (\<lambda>h. case read_bytes a n (h_mem h) of
     None \<Rightarrow> (Inl (Undefined ''read of invalid memory''), h) | Some bs \<Rightarrow> (Inr bs, h))"

definition store :: "nat \<Rightarrow> byte_t list \<Rightarrow> ('z, unit) heff" where
  "store a bs = (\<lambda>h. case write_bytes a bs (h_mem h) of
     None \<Rightarrow> (Inl (Undefined ''write of invalid memory''), h) | Some m \<Rightarrow> (Inr (), h\<lparr> h_mem := m \<rparr>))"

definition vt_load :: "nat \<Rightarrow> nat \<Rightarrow> ('z, byte_t list) heff" where
  "vt_load n a = eseq (vm_assert (a \<noteq> 0) ''vt != nullptr'') (load n a)"

definition vt_store :: "nat \<Rightarrow> byte_t list \<Rightarrow> ('z, unit) heff" where
  "vt_store a bs = eseq (vm_assert (a \<noteq> 0) ''vt != nullptr'') (store a bs)"

definition get8 :: "nat \<Rightarrow> ('z, byte_t) heff" where
  "get8 a = ebind (vt_load 1 a) (\<lambda>bs. eret (bs ! 0))"

definition get16 :: "nat \<Rightarrow> ('z, short_word_t) heff" where
  "get16 a = ebind (vt_load 2 a) (\<lambda>bs. eret (word16 bs))"

definition get32 :: "nat \<Rightarrow> ('z, word_t) heff" where
  "get32 a = ebind (vt_load 4 a) (\<lambda>bs. eret (word32 bs))"

definition get64 :: "nat \<Rightarrow> ('z, big_t) heff" where
  "get64 a = ebind (vt_load 8 a) (\<lambda>bs. eret (word64 bs))"

definition put8 :: "nat \<Rightarrow> byte_t \<Rightarrow> ('z, unit) heff" where "put8 a v = vt_store a [v]"
definition put16 :: "nat \<Rightarrow> short_word_t \<Rightarrow> ('z, unit) heff" where "put16 a v = vt_store a (bytes16 v)"
definition put32 :: "nat \<Rightarrow> word_t \<Rightarrow> ('z, unit) heff" where "put32 a v = vt_store a (bytes32 v)"
definition put64 :: "nat \<Rightarrow> big_t \<Rightarrow> ('z, unit) heff" where "put64 a v = vt_store a (bytes64 v)"

definition pt_ref :: "nat \<Rightarrow> ('z, nat) heff" where
  "pt_ref a = ebind (get32 a) (\<lambda>w. eret (unat w))"

definition set_pt_ref :: "nat \<Rightarrow> nat \<Rightarrow> ('z, unit) heff" where
  "set_pt_ref a p = put32 a (of_nat p)"

definition ptr_add :: "nat \<Rightarrow> word_t \<Rightarrow> nat" where
  "ptr_add a off = unat (of_nat a + off)"

section \<open>The allocator\<close>

definition address_limit :: nat where "address_limit = 2 ^ 32"

definition map_zero :: "nat \<Rightarrow> nat \<Rightarrow> (nat \<Rightarrow> byte_t option) \<Rightarrow> nat \<Rightarrow> byte_t option" where
  "map_zero a n m = (\<lambda>x. if a \<le> x \<and> x < a + n then Some 0 else m x)"

definition unmap :: "nat \<Rightarrow> nat \<Rightarrow> (nat \<Rightarrow> byte_t option) \<Rightarrow> nat \<Rightarrow> byte_t option" where
  "unmap a n m = (\<lambda>x. if a \<le> x \<and> x < a + n then None else m x)"

definition reserve :: "nat \<Rightarrow> ('z, nat) heff" where
  "reserve n = (\<lambda>h. let next = (h_brk h + n) div 8 * 8 + 8 in
     if next \<ge> address_limit then (Inl (SystemException ''Out of memory''), h)
     else (Inr (h_brk h), h\<lparr> h_brk := next \<rparr>))"

definition alloc_block :: "nat \<Rightarrow> ('z, nat) heff" where
  "alloc_block n = ebind (reserve n) (\<lambda>a. eseq (modify (\<lambda>h. h\<lparr> h_mem := map_zero a n (h_mem h) \<rparr>)) (eret a))"

definition free_block :: "nat \<Rightarrow> nat \<Rightarrow> ('z, unit) heff" where
  "free_block a n = modify (\<lambda>h. h\<lparr> h_mem := unmap a n (h_mem h) \<rparr>)"

definition sizeof_vm_alloc :: nat where "sizeof_vm_alloc = 20"

section \<open>The object table\<close>

definition obj_at :: "nat \<Rightarrow> ('z, obj) heff" where
  "obj_at p = (\<lambda>h. case map_of (h_objs h) p of
     None \<Rightarrow> (Inl (Undefined ''access to a dead object''), h) | Some ob \<Rightarrow> (Inr ob, h))"

definition set_obj :: "nat \<Rightarrow> obj \<Rightarrow> ('z, unit) heff" where
  "set_obj p ob = modify (\<lambda>h. h\<lparr> h_objs := AList.map_entry p (\<lambda>_. ob) (h_objs h) \<rparr>)"

definition new_object :: "nat \<Rightarrow> nat \<Rightarrow> type_desc \<Rightarrow> (nat \<Rightarrow> payload) \<Rightarrow> ('z, nat) heff" where
  "new_object field_offset n td pl = ebind (reserve (sizeof_vm_alloc + field_offset + n)) (\<lambda>a.
     let p = a + sizeof_vm_alloc in
     eseq (modify (\<lambda>h. h\<lparr> h_mem := map_zero (p + field_offset) n (h_mem h) \<rparr>))
    (eseq (modify (\<lambda>h. h\<lparr> h_objs := (p, \<lparr> ob_refs = 1, ob_type = td, ob_gc = 0, ob_data = pl p \<rparr>) # h_objs h \<rparr>))
      (eret p)))"

definition discard_obj :: "nat \<Rightarrow> ('z, unit) heff" where
  "discard_obj p = modify (\<lambda>h. h\<lparr> h_objs := AList.delete p (h_objs h) \<rparr>)"

definition construct :: "nat \<Rightarrow> ('z, 'a) heff \<Rightarrow> ('z, 'a) heff" where
  "construct p body = catch body (\<lambda>e. eseq (discard_obj p) (throw e))"

definition add_ref :: "nat \<Rightarrow> ('z, unit) heff" where
  "add_ref p = ebind (obj_at p) (\<lambda>ob.
     eseq (vm_assert (0 < ob_refs ob) ''_ref_count > 0'') (set_obj p (ob\<lparr> ob_refs := ob_refs ob + 1 \<rparr>)))"

definition release :: "nat \<Rightarrow> ('z, nat) heff" where
  "release p = ebind (obj_at p) (\<lambda>ob.
     eseq (vm_assert (0 < ob_refs ob) ''_ref_count > 0'')
    (eseq (set_obj p (ob\<lparr> ob_refs := ob_refs ob - 1 \<rparr>)) (eret (ob_refs ob - 1))))"

definition get_ref_count :: "nat \<Rightarrow> ('z, nat) heff" where
  "get_ref_count p = ebind (obj_at p) (\<lambda>ob. eret (ob_refs ob))"

definition at_alloc :: "nat \<Rightarrow> ('z, nat) heff" where
  "at_alloc a = eseq (vm_assert (a \<noteq> 0) ''at != nullptr'') (pt_ref a)"

definition from_allocation :: "type_desc \<Rightarrow> nat \<Rightarrow> ('z, (nat \<times> obj) option) heff" where
  "from_allocation td p = (if p = 0 then eret None else
     ebind (obj_at p) (\<lambda>ob.
       eseq (vm_assert (type_is_equal (ob_type ob) (Some td)) ''alloc_type->is_equal'') (eret (Some (p, ob)))))"

definition at_val :: "type_desc \<Rightarrow> nat \<Rightarrow> ('z, (nat \<times> obj) option) heff" where
  "at_val td a = ebind (at_alloc a) (from_allocation td)"

section \<open>Pointer fields in memory\<close>

definition enum_pointer_fields :: "type_desc \<Rightarrow> nat \<Rightarrow> (nat \<Rightarrow> ('z, unit) heff) \<Rightarrow> ('z, unit) heff" where
  "enum_pointer_fields td d cb = eseq (vm_assert (d \<noteq> 0) ''data != nullptr'')
     (for_each (\<lambda>k. ebind (pt_ref (d + 4 * k)) (\<lambda>p. when_do (p \<noteq> 0) (cb p))) (flagged_fields td))"

definition inc_ref_count_in_memory :: "type_desc \<Rightarrow> nat \<Rightarrow> ('z, unit) heff" where
  "inc_ref_count_in_memory td d = when_do (td_size td \<noteq> 0) (enum_pointer_fields td d add_ref)"

definition dec_fields :: "(nat \<Rightarrow> ('z, unit) heff) \<Rightarrow> type_desc \<Rightarrow> nat \<Rightarrow> ('z, unit) heff" where
  "dec_fields dec td d = when_do (td_size td \<noteq> 0) (enum_pointer_fields td d dec)"

definition init_memory :: "type_desc \<Rightarrow> nat \<Rightarrow> ('z, unit) heff" where
  "init_memory td d = eseq (vm_assert (d \<noteq> 0) ''data != nullptr'')
     (when_do (td_size td \<noteq> 0) (store d (replicate (nat (td_size td)) 0)))"

definition assign_debug_memory :: "nat \<Rightarrow> nat \<Rightarrow> ('z, unit) heff" where
  "assign_debug_memory d n = store d (replicate n 0xda)"

definition destroy_fields :: "(nat \<Rightarrow> ('z, unit) heff) \<Rightarrow> type_desc \<Rightarrow> nat \<Rightarrow> ('z, unit) heff" where
  "destroy_fields dec td d = eseq (dec_fields dec td d) (assign_debug_memory d (nat (td_size td)))"

section \<open>Destruction\<close>

definition destroy_array :: "(nat \<Rightarrow> ('z, unit) heff) \<Rightarrow> vm_array \<Rightarrow> ('z, unit) heff" where
  "destroy_array dec arr = (case arr_original arr of
     Some original \<Rightarrow> dec original
   | None \<Rightarrow> eseq (for_each (\<lambda>i. destroy_fields dec (arr_element_type arr)
               (arr_addr arr + i * nat (td_size (arr_element_type arr)))) [0..<nat (arr_length arr)])
       (free_block (arr_addr arr) (nat (arr_length arr * td_size (arr_element_type arr)))))"

definition list_is_alloc :: "type_desc \<Rightarrow> bool" where
  "list_is_alloc td = (8 < unat (word_of_int (td_size td) :: word_t))"

definition destroy_list :: "(nat \<Rightarrow> ('z, unit) heff) \<Rightarrow> vm_list \<Rightarrow> ('z, unit) heff" where
  "destroy_list dec l =
     eseq (destroy_fields dec (ls_element_type l) (ls_value l))
    (eseq (when_do (list_is_alloc (ls_element_type l)) (free_block (ls_value l) (nat (td_size (ls_element_type l)))))
      (dec (ls_tail l)))"

definition delete_on_close :: word_t where "delete_on_close = 64"

definition host_do :: "host_act \<Rightarrow> ('z, unit) heff" where
  "host_do act = modify (\<lambda>h. h\<lparr> h_finalized := h_finalized h @ [act] \<rparr>)"

definition destroy_fd :: "(nat \<Rightarrow> ('z, unit) heff) \<Rightarrow> sys_fd \<Rightarrow> ('z, unit) heff" where
  "destroy_fd dec fd =
     eseq (host_do (CloseFile (fd_file fd)))
    (eseq (when_do (fd_mode fd AND delete_on_close \<noteq> 0 \<and> fd_path fd \<noteq> 0)
        (ebind (obj_at (fd_path fd)) (\<lambda>ob. case ob_data ob of
           StringObj s \<Rightarrow> host_do (RemoveFile s) | _ \<Rightarrow> throw (Undefined ''not a string''))))
      (dec (fd_path fd)))"

definition destroy_payload :: "(nat \<Rightarrow> ('z, unit) heff) \<Rightarrow> payload \<Rightarrow> ('z, unit) heff" where
  "destroy_payload dec pl = (case pl of
     ArrayObj arr \<Rightarrow> destroy_array dec arr
   | ListObj l \<Rightarrow> destroy_list dec l
   | ChannelObj _ ch \<Rightarrow> dec (case ch_buffer ch of None \<Rightarrow> 0 | Some (p, _) \<Rightarrow> p)
   | ModuleRefObj mr \<Rightarrow> dec (mr_mp_base mr)
   | FdObj fd \<Rightarrow> destroy_fd dec fd
   | _ \<Rightarrow> eret ())"

definition object_extent :: "obj \<Rightarrow> nat" where
  "object_extent ob = (case ob_data ob of ListObj _ \<Rightarrow> 24 | Plain \<Rightarrow> nat (td_size (ob_type ob)) | _ \<Rightarrow> 0)"

definition finalize :: "type_desc \<Rightarrow> nat \<Rightarrow> ('z, unit) heff" where
  "finalize td p = (case td_finalizer td of None \<Rightarrow> eret ()
     | Some f \<Rightarrow> host_do (Finalized f p))"

definition delete_alloc :: "(nat \<Rightarrow> ('z, unit) heff) \<Rightarrow> nat \<Rightarrow> ('z, unit) heff" where
  "delete_alloc dec p = ebind (obj_at p) (\<lambda>ob.
     eseq (destroy_payload dec (ob_data ob))
    (eseq (finalize (ob_type ob) p)
    (eseq (when_do (td_size (ob_type ob) \<noteq> 0) (destroy_fields dec (ob_type ob) p))
    (eseq (free_block p (object_extent ob))
      (discard_obj p)))))"

primrec dec_ref_fuel :: "nat \<Rightarrow> nat \<Rightarrow> ('z, unit) heff" where
  "dec_ref_fuel 0 p = (if p = 0 then eret () else throw OutOfFuel)"
| "dec_ref_fuel (Suc n) p = (if p = 0 then eret () else
     ebind (release p) (\<lambda>c. when_do (c = 0) (delete_alloc (dec_ref_fuel n) p)))"

definition total_refs :: "'z heap_scheme \<Rightarrow> nat" where
  "total_refs h = sum_list (map (ob_refs \<circ> snd) (h_objs h))"

definition dec_ref_count_and_free :: "nat \<Rightarrow> ('z, unit) heff" where
  "dec_ref_count_and_free p = (\<lambda>h. dec_ref_fuel (Suc (total_refs h)) p h)"

definition dec_ref_count_in_memory :: "type_desc \<Rightarrow> nat \<Rightarrow> ('z, unit) heff" where
  "dec_ref_count_in_memory td d = dec_fields dec_ref_count_and_free td d"

definition destroy_memory :: "type_desc \<Rightarrow> nat \<Rightarrow> ('z, unit) heff" where
  "destroy_memory td d = destroy_fields dec_ref_count_and_free td d"

section \<open>Allocation and copy\<close>

definition allocate :: "type_desc \<Rightarrow> ('z, nat) heff" where
  "allocate td = (if td_size td \<le> 0 then throw (SystemException ''Invalid dynamic memory allocation size'')
     else new_object 0 (nat (td_size td)) td (\<lambda>_. Plain))"

definition copy_alloc :: "nat \<Rightarrow> ('z, nat) heff" where
  "copy_alloc other = ebind (obj_at other) (\<lambda>ob.
     ebind (allocate (ob_type ob)) (\<lambda>p.
     ebind (load (nat (td_size (ob_type ob))) other) (\<lambda>bs.
     eseq (store p bs) (eseq (inc_ref_count_in_memory (ob_type ob) p) (eret p)))))"

definition new_string :: "vm_string \<Rightarrow> ('z, nat) heff" where
  "new_string s = new_object 0 0 td_string (\<lambda>_. StringObj s)"

definition new_array :: "type_desc \<Rightarrow> word_t \<Rightarrow> ('z, nat) heff" where
  "new_array td len =
     eseq (vm_assert (0 \<le> sint len) ''_length >= 0'')
    (ebind (new_object 0 0 td_array (\<lambda>_. Plain)) (\<lambda>p. construct p
    (ebind (alloc_block (unat (len * word_of_int (td_size td)))) (\<lambda>a.
     ebind (obj_at p) (\<lambda>ob.
     eseq (set_obj p (ob\<lparr> ob_data := ArrayObj \<lparr> arr_addr = a, arr_element_type = td, arr_original = None,
        arr_length = sint len \<rparr> \<rparr>)) (eret p))))))"

definition slice_array :: "nat \<Rightarrow> vm_array \<Rightarrow> word_t \<Rightarrow> word_t \<Rightarrow> ('z, nat) heff" where
  "slice_array original oarr begin_index len =
     ebind (new_object 0 0 td_array (\<lambda>_. ArrayObj
        \<lparr> arr_addr = ptr_add (arr_addr oarr) (begin_index * word_of_int (td_size (arr_element_type oarr))),
          arr_element_type = arr_element_type oarr,
          arr_original = Some (case arr_original oarr of None \<Rightarrow> original | Some actual_original \<Rightarrow> actual_original),
          arr_length = sint len \<rparr>)) (\<lambda>p.
     eseq (vm_assert (0 \<le> sint begin_index \<and> (sint begin_index < arr_length oarr \<or>
         (sint begin_index = arr_length oarr \<and> len = 0))) ''0 <= begin_index'')
    (eseq (case arr_original oarr of None \<Rightarrow> eret ()
        | Some actual_original \<Rightarrow> eseq (dec_ref_count_and_free original) (add_ref actual_original))
      (eret p)))"

definition c_string :: "byte_t list \<Rightarrow> byte_t list" where
  "c_string bs = takeWhile (\<lambda>b. b \<noteq> 0) bs"

definition set_tail :: "nat \<Rightarrow> vm_list \<Rightarrow> nat \<Rightarrow> ('z, vm_list) heff" where
  "set_tail p l new_tail =
     eseq (if new_tail = 0 then eret () else
       ebind (obj_at new_tail) (\<lambda>ob. case ob_data ob of
         ListObj t \<Rightarrow> eseq (check (type_is_equal (ls_element_type t) (Some (ls_element_type l))) TypeViolation)
                       (add_ref new_tail)
       | _ \<Rightarrow> throw (Undefined ''not a list'')))
    (let l' = l\<lparr> ls_tail := new_tail \<rparr> in
     ebind (obj_at p) (\<lambda>ob. eseq (set_obj p (ob\<lparr> ob_data := ListObj l' \<rparr>))
      (eseq (dec_ref_count_and_free (ls_tail l)) (eret l'))))"

definition new_list :: "type_desc \<Rightarrow> nat \<Rightarrow> ('z, nat \<times> vm_list) heff" where
  "new_list td tail =
     ebind (new_object 16 8 td_list (\<lambda>p. ListObj \<lparr> ls_element_type = td, ls_tail = 0, ls_value = p + 16 \<rparr>)) (\<lambda>p.
     construct p (ebind (set_tail p \<lparr> ls_element_type = td, ls_tail = 0, ls_value = p + 16 \<rparr> tail) (\<lambda>l.
       if list_is_alloc td then
         ebind (alloc_block (nat (td_size td))) (\<lambda>a.
         let l' = l\<lparr> ls_value := a \<rparr> in
         ebind (obj_at p) (\<lambda>ob. eseq (set_obj p (ob\<lparr> ob_data := ListObj l' \<rparr>)) (eret (p, l'))))
       else eret (p, l))))"

primrec list_length_fuel :: "nat \<Rightarrow> nat \<Rightarrow> ('z, nat) heff" where
  "list_length_fuel 0 p = (if p = 0 then eret 0 else throw OutOfFuel)"
| "list_length_fuel (Suc n) p = (if p = 0 then eret 0 else
     ebind (obj_at p) (\<lambda>ob. case ob_data ob of
       ListObj l \<Rightarrow> ebind (list_length_fuel n (ls_tail l)) (\<lambda>k. eret (Suc k))
     | _ \<Rightarrow> throw (Undefined ''not a list'')))"

definition list_get_length :: "vm_list \<Rightarrow> ('z, word_t) heff" where
  "list_get_length l = (\<lambda>h. ebind (list_length_fuel (length (h_objs h)) (ls_tail l)) (\<lambda>k. eret (of_nat (Suc k))) h)"

definition copy_from :: "vm_array \<Rightarrow> vm_array \<Rightarrow> word_t \<Rightarrow> ('z, unit) heff" where
  "copy_from this source this_begin_index =
     (let td = arr_element_type this; sz = nat (td_size td); b = sint this_begin_index;
          dest_arr = ptr_add (arr_addr this) (this_begin_index * word_of_int (td_size td)) in
      eseq (check (\<not> (b < 0 \<or> arr_length this < sint (this_begin_index + word_of_int (arr_length source)))) OutOfRangeMemory)
     (eseq (check (type_is_equal (arr_element_type source) (Some td)) TypeViolation)
     (eseq (when_do (map_in_bytes td \<noteq> 0)
        (for_each (\<lambda>i. eseq (inc_ref_count_in_memory td (arr_addr source + i * sz))
            (dec_ref_count_in_memory td (dest_arr + i * sz))) [0..<nat (arr_length source)]))
      (ebind (load (nat (arr_length source) * sz) (arr_addr source)) (store dest_arr)))))"

section \<open>Termination of destruction\<close>

lemma total_refs_cong: "h_objs h' = h_objs h \<Longrightarrow> total_refs h' = total_refs h"
  by (simp add: total_refs_def)

lemma map_of_le_total: "map_of (xs :: ('k \<times> obj) list) p = Some ob \<Longrightarrow> ob_refs ob \<le> sum_list (map (ob_refs \<circ> snd) xs)"
  by (induction xs) (auto split: if_splits)

lemma sum_update:
  "map_of (xs :: ('k \<times> obj) list) p = Some ob \<Longrightarrow>
     sum_list (map (ob_refs \<circ> snd) (AList.map_entry p (\<lambda>_. ob') xs)) + ob_refs ob = sum_list (map (ob_refs \<circ> snd) xs) + ob_refs ob'"
  by (induction xs) (auto split: if_splits)

lemma sum_delete: "sum_list (map (ob_refs \<circ> snd) (AList.delete p (xs :: ('k \<times> obj) list))) \<le> sum_list (map (ob_refs \<circ> snd) xs)"
  by (induction xs) auto

definition shrinks :: "nat \<Rightarrow> ('z, 'a) heff \<Rightarrow> bool" where
  "shrinks n m \<longleftrightarrow> (\<forall>h. total_refs h < n \<longrightarrow> fst (m h) \<noteq> Inl OutOfFuel \<and> total_refs (snd (m h)) \<le> total_refs h)"

named_theorems shrinks_intros

lemma shrinks_basic [shrinks_intros]:
  "shrinks n (eret x)" "e \<noteq> OutOfFuel \<Longrightarrow> shrinks n (throw e)" "e \<noteq> OutOfFuel \<Longrightarrow> shrinks n (check b e)"
  "shrinks n (vm_assert b msg)"
  by (simp_all add: shrinks_def check_def vm_assert_def)

lemma shrinks_bind [shrinks_intros]:
  assumes m: "shrinks n m" and k: "\<And>x. shrinks n (k x)"
  shows "shrinks n (ebind m k)"
  unfolding shrinks_def
proof (intro allI impI)
  fix h :: "'a heap_scheme" assume h: "total_refs h < n"
  obtain r h' where r: "m h = (r, h')" by force
  from m h r have r': "r \<noteq> Inl OutOfFuel" "total_refs h' \<le> total_refs h" unfolding shrinks_def by force+
  show "fst (ebind m k h) \<noteq> Inl OutOfFuel \<and> total_refs (snd (ebind m k h)) \<le> total_refs h"
  proof (cases r)
    case (Inl e)
    with r r' show ?thesis by (simp add: ebind_Inl)
  next
    case (Inr x)
    with r r' h k [of x] show ?thesis unfolding shrinks_def by (simp add: ebind_Inr) (metis le_trans order_le_less_trans)
  qed
qed

lemma shrinks_seq [shrinks_intros]: "shrinks n m \<Longrightarrow> shrinks n k \<Longrightarrow> shrinks n (eseq m k)"
  unfolding eseq_def by (rule shrinks_bind)

lemma shrinks_when [shrinks_intros]: "(b \<Longrightarrow> shrinks n m) \<Longrightarrow> shrinks n (when_do b m)"
  by (cases b) (simp_all add: shrinks_basic [simplified])

lemma shrinks_for_each [shrinks_intros]: "(\<And>x. shrinks n (f x)) \<Longrightarrow> shrinks n (for_each f xs)"
  by (induction xs) (simp_all add: shrinks_basic [simplified] shrinks_seq)

lemma shrinks_objs: "(\<And>h. fst (m h) \<noteq> Inl OutOfFuel \<and> h_objs (snd (m h)) = h_objs h) \<Longrightarrow> shrinks n m"
  unfolding shrinks_def by (metis le_refl total_refs_cong)

lemma shrinks_memory [shrinks_intros]: "shrinks n (load k a)" "shrinks n (store a bs)" "shrinks n (free_block a k)"
  "shrinks n (obj_at p)" "shrinks n (finalize td p)" "shrinks n (host_do act)"
  by (rule shrinks_objs, simp add: load_def store_def free_block_def obj_at_def finalize_def host_do_def split: option.split)+

lemma shrinks_payload:
  "(\<And>x. shrinks n (sf x)) \<Longrightarrow> (\<And>x. shrinks n (af x)) \<Longrightarrow> (\<And>x. shrinks n (lf x)) \<Longrightarrow> (\<And>x y. shrinks n (cf x y)) \<Longrightarrow>
   (\<And>x. shrinks n (mf x)) \<Longrightarrow> (\<And>x. shrinks n (ff x)) \<Longrightarrow> shrinks n p \<Longrightarrow>
   shrinks n (case d of Plain \<Rightarrow> p | StringObj x \<Rightarrow> sf x | ArrayObj x \<Rightarrow> af x | ListObj x \<Rightarrow> lf x
     | ChannelObj x y \<Rightarrow> cf x y | ModuleRefObj x \<Rightarrow> mf x | FdObj x \<Rightarrow> ff x)"
  by (cases d) simp_all

lemma shrinks_get32 [shrinks_intros]: "shrinks n (get32 a)"
  unfolding get32_def vt_load_def by (intro shrinks_intros)

lemma shrinks_pt_ref [shrinks_intros]: "shrinks n (pt_ref a)"
  unfolding pt_ref_def by (intro shrinks_intros)

lemma shrinks_discard [shrinks_intros]: "shrinks n (discard_obj p)"
  by (simp add: shrinks_def discard_obj_def total_refs_def sum_delete)

lemma release_cases:
  obtains e where "release p h = (Inl e, h)" "e \<noteq> OutOfFuel"
  | ob where "map_of (h_objs h) p = Some ob" "0 < ob_refs ob"
      "release p h = (Inr (ob_refs ob - 1), h\<lparr> h_objs := AList.map_entry p (\<lambda>_. ob\<lparr> ob_refs := ob_refs ob - 1 \<rparr>) (h_objs h) \<rparr>)"
proof (cases "map_of (h_objs h) p")
  case None
  then show ?thesis
    by (intro that(1) [of "Undefined ''access to a dead object''"]) (simp_all add: release_def obj_at_def ebind_run)
next
  case (Some ob)
  note m = this
  show ?thesis
  proof (cases "0 < ob_refs ob")
    case True
    with m show ?thesis
      by (intro that(2)) (simp_all add: release_def obj_at_def ebind_run set_obj_def)
  next
    case False
    with m show ?thesis
      by (intro that(1) [of "AssertFailed ''_ref_count > 0''"]) (simp_all add: release_def obj_at_def ebind_run)
  qed
qed

lemma shrinks_enum: "(\<And>p. shrinks n (cb p)) \<Longrightarrow> shrinks n (enum_pointer_fields td d cb)"
  unfolding enum_pointer_fields_def by (intro shrinks_intros)

lemma shrinks_dec_fields [shrinks_intros]: "(\<And>p. shrinks n (dec p)) \<Longrightarrow> shrinks n (dec_fields dec td d)"
  unfolding dec_fields_def by (intro shrinks_intros shrinks_enum)

lemma shrinks_destroy_fields [shrinks_intros]: "(\<And>p. shrinks n (dec p)) \<Longrightarrow> shrinks n (destroy_fields dec td d)"
  unfolding destroy_fields_def assign_debug_memory_def by (intro shrinks_intros)

lemma shrinks_delete:
  assumes "\<And>p. shrinks n (dec p)"
  shows "shrinks n (delete_alloc dec p)"
proof -
  have "shrinks n (destroy_array dec arr)" for arr
    unfolding destroy_array_def by (cases "arr_original arr"; simp; intro shrinks_intros assms)
  moreover have "shrinks n (destroy_list dec l)" for l
    unfolding destroy_list_def by (intro shrinks_intros assms)
  moreover have "shrinks n (destroy_fd dec fd)" for fd
    unfolding destroy_fd_def by (intro shrinks_intros shrinks_payload assms) simp_all
  ultimately have "shrinks n (destroy_payload dec pl)" for pl
    using assms by (cases pl) (simp_all add: destroy_payload_def shrinks_basic [simplified])
  then show ?thesis
    unfolding delete_alloc_def by (intro shrinks_intros assms)
qed

lemma dec_ref_shrinks: "shrinks n (dec_ref_fuel n p :: ('z, unit) heff)"
proof (induction n arbitrary: p)
  case 0
  then show ?case by (simp add: shrinks_def)
next
  case (Suc n)
  have "fst (dec_ref_fuel (Suc n) p h) \<noteq> Inl OutOfFuel \<and> total_refs (snd (dec_ref_fuel (Suc n) p h)) \<le> total_refs h"
    if h: "total_refs h < Suc n" and p: "p \<noteq> 0" for h :: "'z heap_scheme"
  proof (rule release_cases [of p h])
    fix e assume "release p h = (Inl e, h)" "e \<noteq> OutOfFuel"
    with p show ?thesis by (simp add: ebind_Inl)
  next
    fix ob assume ob: "map_of (h_objs h) p = Some ob" "0 < ob_refs ob"
      "release p h = (Inr (ob_refs ob - 1), h\<lparr> h_objs := AList.map_entry p (\<lambda>_. ob\<lparr> ob_refs := ob_refs ob - 1 \<rparr>) (h_objs h) \<rparr>)"
    let ?h = "h\<lparr> h_objs := AList.map_entry p (\<lambda>_. ob\<lparr> ob_refs := ob_refs ob - 1 \<rparr>) (h_objs h) \<rparr>"
    have t: "total_refs ?h + 1 = total_refs h"
      using sum_update [OF ob(1), of "ob\<lparr> ob_refs := ob_refs ob - 1 \<rparr>"] ob(2) by (simp add: total_refs_def)
    have "shrinks n (when_do (ob_refs ob - 1 = 0) (delete_alloc (dec_ref_fuel n) p) :: ('z, unit) heff)"
      by (intro shrinks_intros shrinks_delete Suc.IH)
    with t h have "fst (when_do (ob_refs ob - 1 = 0) (delete_alloc (dec_ref_fuel n) p) ?h) \<noteq> Inl OutOfFuel \<and>
        total_refs (snd (when_do (ob_refs ob - 1 = 0) (delete_alloc (dec_ref_fuel n) p) ?h)) \<le> total_refs ?h"
      unfolding shrinks_def by (metis Suc_eq_plus1 Suc_less_SucD)
    with ob(3) p t show ?thesis by (simp add: ebind_Inr)
  qed
  then show ?case unfolding shrinks_def by (cases "p = 0") auto
qed

text \<open>C10: releasing a reference always ends: destruction, with everything it releases in turn,
  needs at most one step for each reference that is held, and it never raises the total.\<close>

theorem dec_ref_terminates:
  fixes h :: "'z heap_scheme"
  shows "fst (dec_ref_count_and_free p h) \<noteq> Inl OutOfFuel \<and>
    total_refs (snd (dec_ref_count_and_free p h)) \<le> total_refs h"
  using dec_ref_shrinks [of "Suc (total_refs h)" p] unfolding shrinks_def dec_ref_count_and_free_def by blast

section \<open>The heap invariant\<close>

definition heap_inv :: "'z heap_scheme \<Rightarrow> bool" where
  "heap_inv h \<longleftrightarrow> distinct (map fst (h_objs h)) \<and> (\<forall>p\<in>fst ` set (h_objs h). 0 < p \<and> p < h_brk h) \<and>
     (\<forall>x. h_mem h x \<noteq> None \<longrightarrow> 0 < x \<and> x < h_brk h) \<and> h_brk h < address_limit \<and> 8 dvd h_brk h \<and> 0 < h_brk h"

lemma fst_map_entry [simp]: "map fst (AList.map_entry k f xs) = map fst xs"
  by (induction xs) auto

lemma keys_map_entry [simp]: "fst ` set (AList.map_entry k f xs) = fst ` set xs"
  by (metis fst_map_entry list.set_map)

lemma heap_inv_set_obj [keeps_intros]: "keeps heap_inv (set_obj p ob)"
  by (simp add: set_obj_def keeps_def heap_inv_def)

lemma heap_inv_discard [keeps_intros]: "keeps heap_inv (discard_obj p)"
  using AList.dom_delete_subset
  by (fastforce simp: discard_obj_def keeps_def heap_inv_def AList.distinct_delete)

lemma write_bytes_dom: "write_bytes a bs m = Some m' \<Longrightarrow> (m' x \<noteq> None) = (m x \<noteq> None)"
proof -
  assume w: "write_bytes a bs m = Some m'"
  have "m x \<noteq> None" if "a \<le> x" "x < a + length bs"
  proof -
    have "x - a \<in> set [0..<length bs]" using that by auto
    with w have "m (a + (x - a)) \<noteq> None" by (auto simp: write_bytes_def list_all_iff split: if_splits)
    with that show ?thesis by simp
  qed
  with w show ?thesis by (auto simp: write_bytes_def split: if_splits)
qed

lemma heap_inv_memory [keeps_intros]:
  "keeps heap_inv (store a bs)" "keeps heap_inv (free_block a n)" "keeps heap_inv (load n a)"
  "keeps heap_inv (obj_at p)" "keeps heap_inv (finalize td p)" "keeps heap_inv (host_do act)"
proof -
  show "keeps heap_inv (store a bs)"
    using write_bytes_dom by (fastforce simp: keeps_def store_def heap_inv_def split: option.split)
  show "keeps heap_inv (free_block a n)"
    by (auto simp: keeps_def free_block_def unmap_def heap_inv_def)
qed (simp_all add: keeps_def load_def obj_at_def finalize_def host_do_def heap_inv_def split: option.split)

lemma heap_inv_access [keeps_intros]:
  "keeps heap_inv (vt_load n a)" "keeps heap_inv (vt_store a bs)"
  unfolding vt_load_def vt_store_def by (intro keeps_intros)+

lemma heap_inv_access2 [keeps_intros]:
  "keeps heap_inv (get8 a)" "keeps heap_inv (get16 a)" "keeps heap_inv (get32 a)" "keeps heap_inv (get64 a)"
  "keeps heap_inv (put8 a b)" "keeps heap_inv (put16 a s)" "keeps heap_inv (put32 a w)" "keeps heap_inv (put64 a l)"
  unfolding get8_def get16_def get32_def get64_def put8_def put16_def put32_def put64_def
  by (intro keeps_intros)+

lemma heap_inv_pt [keeps_intros]: "keeps heap_inv (pt_ref a)" "keeps heap_inv (set_pt_ref a p)"
  "keeps heap_inv (at_alloc a)" "keeps heap_inv (from_allocation td p)" "keeps heap_inv (at_val td a)"
  unfolding pt_ref_def set_pt_ref_def at_alloc_def from_allocation_def at_val_def
  by (intro keeps_intros)+

lemma heap_inv_refs [keeps_intros]: "keeps heap_inv (add_ref p)" "keeps heap_inv (release p)" "keeps heap_inv (get_ref_count p)"
  unfolding add_ref_def release_def get_ref_count_def by (intro keeps_intros)+

lemma heap_inv_fields [keeps_intros]:
  "(\<And>p. keeps heap_inv (cb p)) \<Longrightarrow> keeps heap_inv (enum_pointer_fields td d cb)"
  "(\<And>p. keeps heap_inv (cb p)) \<Longrightarrow> keeps heap_inv (dec_fields cb td d)"
  "(\<And>p. keeps heap_inv (cb p)) \<Longrightarrow> keeps heap_inv (destroy_fields cb td d)"
  "keeps heap_inv (inc_ref_count_in_memory td d)" "keeps heap_inv (init_memory td d)"
  unfolding enum_pointer_fields_def dec_fields_def destroy_fields_def inc_ref_count_in_memory_def init_memory_def
    assign_debug_memory_def
  by (intro keeps_intros | assumption)+

lemma keeps_payload [keeps_intros]:
  "(\<And>x. keeps I (sf x)) \<Longrightarrow> (\<And>x. keeps I (af x)) \<Longrightarrow> (\<And>x. keeps I (lf x)) \<Longrightarrow> (\<And>x y. keeps I (cf x y)) \<Longrightarrow>
   (\<And>x. keeps I (mf x)) \<Longrightarrow> (\<And>x. keeps I (ff x)) \<Longrightarrow> keeps I p \<Longrightarrow>
   keeps I (case d of Plain \<Rightarrow> p | StringObj x \<Rightarrow> sf x | ArrayObj x \<Rightarrow> af x | ListObj x \<Rightarrow> lf x
     | ChannelObj x y \<Rightarrow> cf x y | ModuleRefObj x \<Rightarrow> mf x | FdObj x \<Rightarrow> ff x)"
  by (cases d) simp_all

lemma heap_inv_delete [keeps_intros]:
  assumes "\<And>p. keeps heap_inv (dec p)"
  shows "keeps heap_inv (delete_alloc dec p)"
proof -
  have "keeps heap_inv (destroy_payload dec pl)" for pl
    unfolding destroy_payload_def destroy_array_def destroy_list_def destroy_fd_def
    by (cases pl) (simp_all, (intro keeps_intros assms)+)
  then show ?thesis unfolding delete_alloc_def by (intro keeps_intros assms)
qed

lemma heap_inv_dec_fuel: "keeps heap_inv (dec_ref_fuel n p)"
proof (induction n arbitrary: p)
  case 0
  show ?case unfolding dec_ref_fuel.simps by (intro keeps_intros)
next
  case (Suc n)
  show ?case unfolding dec_ref_fuel.simps by (intro keeps_intros Suc.IH)
qed

lemma heap_inv_dec [keeps_intros]:
  "keeps heap_inv (dec_ref_count_and_free p)" "keeps heap_inv (dec_ref_count_in_memory td d)"
  "keeps heap_inv (destroy_memory td d)"
proof -
  show d: "keeps heap_inv (dec_ref_count_and_free p)" for p
    using heap_inv_dec_fuel unfolding keeps_def dec_ref_count_and_free_def by blast
  show "keeps heap_inv (dec_ref_count_in_memory td d)" "keeps heap_inv (destroy_memory td d)"
    unfolding dec_ref_count_in_memory_def destroy_memory_def by (intro keeps_intros d)+
qed

lemma reserve_bounds:
  assumes "reserve n h = (Inr a, h')" "heap_inv h"
  shows "a = h_brk h \<and> a + n < h_brk h' \<and> h_brk h' < address_limit \<and> 8 dvd h_brk h' \<and> h' = h\<lparr> h_brk := h_brk h' \<rparr>"
proof -
  have "h_brk h + n < (h_brk h + n) div 8 * 8 + 8" by presburger
  then show ?thesis using assms by (auto simp: reserve_def Let_def split: if_splits)
qed

lemma heap_inv_reserve_frame:
  assumes inv: "heap_inv h" and r: "reserve n h = (Inr a, h')" and "off + k \<le> n"
  shows "heap_inv (h'\<lparr> h_mem := map_zero (a + off) k (h_mem h') \<rparr>)"
    "a + off + k < h_brk h'" "p \<in> fst ` set (h_objs h') \<Longrightarrow> p < a"
proof -
  note b = reserve_bounds [OF r inv]
  then have m: "h_mem h' = h_mem h" "h_objs h' = h_objs h" by (metis heap.select_convs(1,3) heap.surjective heap.update_convs(2))+
  show "a + off + k < h_brk h'" using b assms(3) by linarith
  show "p \<in> fst ` set (h_objs h') \<Longrightarrow> p < a" using b m inv by (auto simp: heap_inv_def)
  show "heap_inv (h'\<lparr> h_mem := map_zero (a + off) k (h_mem h') \<rparr>)"
    unfolding heap_inv_def
  proof (intro conjI ballI allI impI)
    fix x assume "h_mem (h'\<lparr> h_mem := map_zero (a + off) k (h_mem h') \<rparr>) x \<noteq> None"
    then have "(a + off \<le> x \<and> x < a + off + k) \<or> h_mem h x \<noteq> None"
      by (auto simp: map_zero_def m split: if_splits)
    then show "0 < x" "x < h_brk (h'\<lparr> h_mem := map_zero (a + off) k (h_mem h') \<rparr>)"
      using b inv assms(3) by (auto simp: heap_inv_def)
  qed (use b inv m in \<open>auto simp: heap_inv_def\<close>)
qed

lemma heap_inv_alloc_block [keeps_intros]: "keeps heap_inv (alloc_block n)"
  unfolding keeps_def
proof (intro allI impI)
  fix h :: "'b heap_scheme" assume inv: "heap_inv h"
  obtain r h' where r: "reserve n h = (r, h')" by force
  show "heap_inv (snd (alloc_block n h))"
  proof (cases r)
    case (Inl e)
    then have "h' = h" using r by (auto simp: reserve_def Let_def split: if_splits)
    then show ?thesis using r Inl inv by (simp add: alloc_block_def ebind_Inl)
  next
    case (Inr a)
    with heap_inv_reserve_frame(1) [OF inv r [unfolded Inr], of 0 n] r show ?thesis
      by (simp add: alloc_block_def ebind_Inr)
  qed
qed

lemma new_object_run:
  assumes inv: "heap_inv h" and r: "new_object off n td pl h = (Inr p, h')"
  shows "heap_inv h' \<and> h_brk h < p \<and> p + off + n < h_brk h' \<and> h_objs h' = (p, \<lparr> ob_refs = 1, ob_type = td, ob_gc = 0, ob_data = pl p \<rparr>) # h_objs h \<and>
    h_mem h' = map_zero (p + off) n (h_mem h) \<and> h_modules h' = h_modules h \<and> h_frame_types h' = h_frame_types h"
proof -
  let ?n = "sizeof_vm_alloc + off + n"
  obtain q h1 where q: "reserve ?n h = (q, h1)" by force
  with r obtain a where a: "q = Inr a" by (cases q) (auto simp: new_object_def ebind_run)
  note b = reserve_bounds [OF q [unfolded a] inv]
  note fr = heap_inv_reserve_frame [OF inv q [unfolded a], of "sizeof_vm_alloc + off" n]
  have m: "h_mem h1 = h_mem h" "h_objs h1 = h_objs h" "h_modules h1 = h_modules h" "h_frame_types h1 = h_frame_types h"
    using b by (metis heap.select_convs(1,3,4,5) heap.surjective heap.update_convs(2))+
  have p: "p = a + sizeof_vm_alloc" and h': "h' = h1\<lparr> h_mem := map_zero (p + off) n (h_mem h1),
      h_objs := (p, \<lparr> ob_refs = 1, ob_type = td, ob_gc = 0, ob_data = pl p \<rparr>) # h_objs h1 \<rparr>"
    using r q a by (auto simp: new_object_def ebind_Inr Let_def)
  have "p \<notin> fst ` set (h_objs h1)" using fr(3) p by fastforce
  moreover have "heap_inv (h1\<lparr> h_mem := map_zero (p + off) n (h_mem h1) \<rparr>)"
    using fr(1) by (simp add: p ac_simps)
  moreover have "0 < p \<and> p < h_brk h1" "p + off + n < h_brk h1" "h_brk h < p"
    using b p inv by (auto simp: sizeof_vm_alloc_def)
  ultimately show ?thesis using m by (auto simp: h' heap_inv_def)
qed

lemma new_object_error: "new_object off n td pl h = (Inl e, h') \<Longrightarrow> h' = h \<and> e = SystemException ''Out of memory''"
  by (auto simp: new_object_def ebind_run reserve_def Let_def split: if_splits)

lemma heap_inv_new_object [keeps_intros]: "keeps heap_inv (new_object off n td pl)"
  unfolding keeps_def
proof (intro allI impI)
  fix h :: "'b heap_scheme" assume inv: "heap_inv h"
  show "heap_inv (snd (new_object off n td pl h))"
    using new_object_run [OF inv] new_object_error inv
    by (cases "new_object off n td pl h", cases "fst (new_object off n td pl h)") fastforce+
qed

text \<open>allocation. A type of size at most zero is refused; otherwise the new object has one
  reference and zeroed memory of the type's size, at an address no live object or block uses,
  every other object and byte stays as it was, and the heap invariant holds again.\<close>

theorem allocate_fresh:
  assumes "heap_inv h"
  shows "case allocate td h of
     (Inl e, h') \<Rightarrow> h' = h \<and> (e = SystemException ''Invalid dynamic memory allocation size'' \<or> e = SystemException ''Out of memory'')
   | (Inr p, h') \<Rightarrow> heap_inv h' \<and> 0 < td_size td \<and> p \<notin> fst ` set (h_objs h) \<and>
       map_of (h_objs h') p = Some \<lparr> ob_refs = 1, ob_type = td, ob_gc = 0, ob_data = Plain \<rparr> \<and>
       (\<forall>q. q \<noteq> p \<longrightarrow> map_of (h_objs h') q = map_of (h_objs h) q) \<and>
       (\<forall>x. h_mem h' x = (if p \<le> x \<and> x < p + nat (td_size td) then Some 0 else h_mem h x)) \<and>
       (\<forall>x. p \<le> x \<and> x < p + nat (td_size td) \<longrightarrow> h_mem h x = None)"
proof (cases "td_size td \<le> 0")
  case True
  then show ?thesis by (simp add: allocate_def)
next
  case False
  note F = this
  obtain r h' where r: "new_object 0 (nat (td_size td)) td (\<lambda>_. Plain) h = (r, h')" by force
  show ?thesis
  proof (cases r)
    case (Inl e)
    with r False new_object_error show ?thesis by (fastforce simp: allocate_def)
  next
    case (Inr p)
    note n = new_object_run [OF assms r [unfolded Inr]]
    then have objs: "h_objs h' = (p, \<lparr> ob_refs = 1, ob_type = td, ob_gc = 0, ob_data = Plain \<rparr>) # h_objs h"
      and mem: "h_mem h' = map_zero p (nat (td_size td)) (h_mem h)" and inv': "heap_inv h'" and lo: "h_brk h < p" by simp_all
    have eq: "allocate td h = (Inr p, h')" using F r Inr by (simp add: allocate_def)
    show ?thesis unfolding eq prod.case sum.case
    proof (intro conjI allI impI)
      show "p \<notin> fst ` set (h_objs h)" using lo assms unfolding heap_inv_def by (meson less_asym)
      show "h_mem h x = None" if "p \<le> x \<and> x < p + nat (td_size td)" for x
        using lo that assms unfolding heap_inv_def by (meson le_less_trans less_asym' linorder_not_less order_less_le_trans)
      show "map_of (h_objs h') q = map_of (h_objs h) q" if "q \<noteq> p" for q using that by (simp add: objs)
      show "map_of (h_objs h') p = Some \<lparr> ob_refs = 1, ob_type = td, ob_gc = 0, ob_data = Plain \<rparr>" by (simp add: objs)
    qed (use F inv' in \<open>simp_all add: mem map_zero_def\<close>)
  qed
qed

lemma heap_inv_construct [keeps_intros]: "keeps heap_inv m \<Longrightarrow> keeps heap_inv (construct p m)"
  unfolding construct_def by (intro keeps_intros)

lemma keeps_let [keeps_intros]: "keeps I (f x) \<Longrightarrow> keeps I (let y = x in f y)"
  by simp

lemma heap_inv_constructors [keeps_intros]:
  "keeps heap_inv (allocate td)" "keeps heap_inv (copy_alloc p)" "keeps heap_inv (new_string s)"
  "keeps heap_inv (new_array td len)" "keeps heap_inv (slice_array p arr b len)" "keeps heap_inv (set_tail p l t)"
  "keeps heap_inv (new_list td t)" "keeps heap_inv (copy_from this source b)"
proof -
  show a: "keeps heap_inv (allocate td)" for td unfolding allocate_def by (intro keeps_intros)
  show "keeps heap_inv (copy_alloc p)" unfolding copy_alloc_def by (intro keeps_intros a)
  show "keeps heap_inv (new_string s)" unfolding new_string_def by (intro keeps_intros)
  show "keeps heap_inv (new_array td len)" unfolding new_array_def by (intro keeps_intros)
  show "keeps heap_inv (slice_array p arr b len)" unfolding slice_array_def by (intro keeps_intros)
  show t: "keeps heap_inv (set_tail p l t)" for p l t unfolding set_tail_def Let_def by (intro keeps_intros)
  show "keeps heap_inv (new_list td t)" unfolding new_list_def Let_def by (intro keeps_intros t)
  show "keeps heap_inv (copy_from this source b)" unfolding copy_from_def Let_def by (intro keeps_intros)
qed

definition empty_heap :: heap where
  "empty_heap = \<lparr> h_mem = (\<lambda>_. None), h_brk = 8, h_objs = [], h_frame_types = [], h_modules = [], h_finalized = [] \<rparr>"

lemma heap_inv_empty: "heap_inv empty_heap"
  by (simp add: heap_inv_def empty_heap_def address_limit_def)

lemma allocate_fresh_witness:
  "fst (allocate td_word empty_heap) = Inr 28 \<and> h_mem (snd (allocate td_word empty_heap)) 31 = Some 0"
proof -
  have "allocate td_word empty_heap = (Inr 28, snd (allocate td_word empty_heap))"
    by (simp add: allocate_def new_object_def reserve_def empty_heap_def td_defs sizeof_vm_alloc_def address_limit_def
      ebind_run Let_def eseq_def)
  with allocate_fresh [OF heap_inv_empty, of td_word] show ?thesis
    by (cases "allocate td_word empty_heap") (simp add: td_defs)
qed


section \<open>Values in memory\<close>

definition mapped :: "nat \<Rightarrow> nat \<Rightarrow> 'z heap_scheme \<Rightarrow> bool" where
  "mapped n a h = (\<forall>x. a \<le> x \<and> x < a + n \<longrightarrow> h_mem h x \<noteq> None)"

definition bytes_at :: "nat \<Rightarrow> 'z heap_scheme \<Rightarrow> nat \<Rightarrow> byte_t list" where
  "bytes_at n h a = map (\<lambda>i. the (h_mem h (a + i))) [0..<n]"

lemma length_bytes_at [simp]: "length (bytes_at n h a) = n"
  by (simp add: bytes_at_def)

lemma those_map_Some: "(\<forall>x\<in>set xs. f x \<noteq> None) \<Longrightarrow> those (map f xs) = Some (map (the \<circ> f) xs)"
  by (induction xs) auto

lemma load_mapped: "mapped n a h \<Longrightarrow> load n a h = (Inr (bytes_at n h a), h)"
proof -
  assume "mapped n a h"
  then have "read_bytes a n (h_mem h) = Some (bytes_at n h a)"
    unfolding read_bytes_def bytes_at_def by (subst those_map_Some) (auto simp: mapped_def comp_def)
  then show ?thesis by (simp add: load_def)
qed

definition put_bytes :: "nat \<Rightarrow> byte_t list \<Rightarrow> 'z heap_scheme \<Rightarrow> 'z heap_scheme" where
  "put_bytes a bs h = h\<lparr> h_mem := (\<lambda>x. if a \<le> x \<and> x < a + length bs then Some (bs ! (x - a)) else h_mem h x) \<rparr>"

lemma store_mapped: "mapped (length bs) a h \<Longrightarrow> store a bs h = (Inr (), put_bytes a bs h)"
proof -
  assume m: "mapped (length bs) a h"
  then have "list_all (\<lambda>i. h_mem h (a + i) \<noteq> None) [0..<length bs]"
    by (auto simp: mapped_def list_all_iff)
  then show ?thesis by (simp add: store_def write_bytes_def put_bytes_def)
qed

lemma mapped_put_mapped: "mapped (length bs) b h \<Longrightarrow> mapped n a (put_bytes b bs h) \<longleftrightarrow> mapped n a h"
  by (auto simp: mapped_def put_bytes_def)

lemma bytes_at_put_same: "length bs = n \<Longrightarrow> bytes_at n (put_bytes a bs h) a = bs"
  by (rule nth_equalityI) (auto simp: bytes_at_def put_bytes_def)

lemma bytes_at_put_other: "a + n \<le> b \<or> b + length bs \<le> a \<Longrightarrow> bytes_at n (put_bytes b bs h) a = bytes_at n h a"
  by (rule nth_equalityI) (auto simp: bytes_at_def put_bytes_def)

lemma put_bytes_fields [simp]:
  "h_objs (put_bytes a bs h) = h_objs h" "h_brk (put_bytes a bs h) = h_brk h" "h_modules (put_bytes a bs h) = h_modules h"
  "h_frame_types (put_bytes a bs h) = h_frame_types h"
  by (simp_all add: put_bytes_def)

end
