(* ===== verification/Stack.thy ===== *)
theory Stack
  imports Heap
begin

text \<open>
  \<^verbatim>\<open>src/src/vm/stack.cpp\<close>: the call stack of a VM thread. Frames are laid out on pages; a frame
  has a descriptor (kept in the frame table of the heap), followed by its memory, which begins
  with the saved program counter, the link to the previous frame and the module reference to
  restore. \<open>alloc_frame\<close> prepares a frame, \<open>push_frame\<close> makes the frame allocated last the top
  frame, \<open>pop_frame\<close> destroys the top frame and gives back its page once it is empty.
\<close>

section \<open>State and layout\<close>

record stack_page =
  pg_addr :: nat
  pg_limit_addr :: nat
  pg_top_frame :: nat

record vm_stack =
  stk_page_size :: nat
  stk_pages :: "stack_page list"
  stk_top_frame :: nat

definition sizeof_stack_page :: nat where "sizeof_stack_page = 12"
definition sizeof_frame :: nat where "sizeof_frame = 8"
definition sizeof_frame_base :: nat where "sizeof_frame_base = 16"

definition stack_data :: "stack_page \<Rightarrow> nat" where
  "stack_data p = pg_addr p + sizeof_stack_page"

definition contains_frame :: "stack_page \<Rightarrow> nat \<Rightarrow> bool" where
  "contains_frame p frame = (stack_data p \<le> frame \<and> frame < pg_limit_addr p)"

definition frame_base :: "nat \<Rightarrow> nat" where
  "frame_base frame = frame + sizeof_frame"

definition frame_type :: "nat \<Rightarrow> ('z, type_desc) heff" where
  "frame_type frame = (\<lambda>h. case map_of (h_frame_types h) frame of
     None \<Rightarrow> (Inl (Undefined ''not a frame''), h) | Some td \<Rightarrow> (Inr td, h))"

definition prev_pc :: "nat \<Rightarrow> ('z, word_t) heff" where "prev_pc frame = get32 (frame_base frame)"
definition set_prev_pc :: "nat \<Rightarrow> word_t \<Rightarrow> ('z, unit) heff" where
  "set_prev_pc frame pc = put32 (frame_base frame) pc"

definition prev_frame :: "nat \<Rightarrow> ('z, nat) heff" where "prev_frame frame = pt_ref (frame_base frame + 4)"
definition set_prev_frame :: "nat \<Rightarrow> nat \<Rightarrow> ('z, unit) heff" where
  "set_prev_frame frame f = set_pt_ref (frame_base frame + 4) f"

definition prev_module_ref :: "nat \<Rightarrow> ('z, nat) heff" where "prev_module_ref frame = pt_ref (frame_base frame + 8)"
definition set_prev_module_ref :: "nat \<Rightarrow> nat \<Rightarrow> ('z, unit) heff" where
  "set_prev_module_ref frame m = set_pt_ref (frame_base frame + 8) m"

definition default_register_count :: nat where
  "default_register_count = sizeof_frame_base div 4 + 1"
definition fixed_point_register_1_offset :: nat where
  "fixed_point_register_1_offset = default_register_count * 4"
definition fixed_point_register_2_offset :: nat where
  "fixed_point_register_2_offset = fixed_point_register_1_offset + 2 * 4"

definition size_as_size_t :: "type_desc \<Rightarrow> nat" where
  "size_as_size_t td = unat (word_of_int (td_size td) :: word_t)"

definition fixed_point_register :: "nat \<Rightarrow> nat \<Rightarrow> ('z, nat) heff" where
  "fixed_point_register offset frame = ebind (frame_type frame) (\<lambda>td.
     eseq (vm_assert (offset < size_as_size_t td) ''offset < frame_type->size_in_bytes'')
       (eret (frame_base frame + offset)))"

definition fixed_point_register_1 :: "nat \<Rightarrow> ('z, nat) heff" where
  "fixed_point_register_1 = fixed_point_register fixed_point_register_1_offset"

definition fixed_point_register_2 :: "nat \<Rightarrow> ('z, nat) heff" where
  "fixed_point_register_2 = fixed_point_register fixed_point_register_2_offset"

section \<open>Frames\<close>

definition construct_frame :: "nat \<Rightarrow> type_desc \<Rightarrow> ('z, unit) heff" where
  "construct_frame frame td =
     eseq (modify (\<lambda>h. h\<lparr> h_frame_types := AList.update frame td (h_frame_types h) \<rparr>))
    (eseq (init_memory td (frame_base frame))
    (eseq (set_prev_pc frame (- 1))
    (eseq (set_prev_frame frame 0) (set_prev_module_ref frame 0))))"

definition destroy_frame :: "nat \<Rightarrow> ('z, unit) heff" where
  "destroy_frame frame = ebind (prev_module_ref frame) (\<lambda>m.
     eseq (dec_ref_count_and_free m)
    (ebind (frame_type frame) (\<lambda>td. destroy_memory td (frame_base frame))))"

definition copy_frame_contents :: "nat \<Rightarrow> nat \<Rightarrow> ('z, unit) heff" where
  "copy_frame_contents this other = ebind (frame_type this) (\<lambda>td.
     let n = size_as_size_t td - sizeof_frame_base in
     eseq (vm_assert (sizeof_frame_base < size_as_size_t td) ''frame_type->size_in_bytes'')
    (ebind (load n (frame_base other + sizeof_frame_base)) (\<lambda>bs.
     eseq (store (frame_base this + sizeof_frame_base) bs) (inc_ref_count_in_memory td (frame_base this)))))"

section \<open>Pages\<close>

definition new_page :: "vm_stack \<Rightarrow> ('z, vm_stack) heff" where
  "new_page st = ebind (alloc_block (sizeof_stack_page + stk_page_size st)) (\<lambda>a.
     eret (st\<lparr> stk_pages := \<lparr> pg_addr = a, pg_limit_addr = a + stk_page_size st, pg_top_frame = 0 \<rparr> # stk_pages st \<rparr>))"

definition drop_page :: "vm_stack \<Rightarrow> ('z, vm_stack) heff" where
  "drop_page st = (case stk_pages st of
     p # q # ps \<Rightarrow> eseq (free_block (pg_addr p) (sizeof_stack_page + stk_page_size st))
                      (eret (st\<lparr> stk_pages := q # ps \<rparr>))
   | _ \<Rightarrow> throw (AssertFailed ''current_stack_page != nullptr''))"

definition create_stack :: "nat \<Rightarrow> ('z, vm_stack) heff" where
  "create_stack stack_extent =
     ebind (new_page \<lparr> stk_page_size = stack_extent, stk_pages = [], stk_top_frame = 0 \<rparr>) (\<lambda>st.
     eseq (vm_assert (0 < stack_extent \<and> stack_extent < 2 ^ 31 - 1) ''stack_extent'') (eret st))"

definition set_page_top :: "nat \<Rightarrow> vm_stack \<Rightarrow> vm_stack" where
  "set_page_top frame st = (case stk_pages st of [] \<Rightarrow> st
     | p # ps \<Rightarrow> st\<lparr> stk_pages := p\<lparr> pg_top_frame := frame \<rparr> # ps \<rparr>)"

definition top_page :: "vm_stack \<Rightarrow> ('z, stack_page) heff" where
  "top_page st = (case stk_pages st of [] \<Rightarrow> throw (Undefined ''no stack page'') | p # _ \<Rightarrow> eret p)"

section \<open>Operations\<close>

definition alloc_frame :: "type_desc \<Rightarrow> vm_stack \<Rightarrow> ('z, nat \<times> vm_stack) heff" where
  "alloc_frame td st =
     eseq (vm_assert (sizeof_frame_base < size_as_size_t td) ''Requested frame size less than VM frame base size'')
    (ebind (top_page st) (\<lambda>page.
     let page_top_frame = pg_top_frame page; new_frame_size = sizeof_frame + size_as_size_t td in
     eseq (check (\<not> stk_page_size st < new_frame_size)
            (SystemException ''Requested stack frame larger than stack page''))
    (ebind (if page_top_frame = 0 then eret (stack_data page, st)
            else ebind (frame_type page_top_frame) (\<lambda>top_td.
              let new_frame_addr_maybe = page_top_frame + (sizeof_frame + size_as_size_t top_td) in
              if new_frame_addr_maybe + new_frame_size \<ge> pg_limit_addr page
              then ebind (new_page st) (\<lambda>st'. ebind (top_page st') (\<lambda>p. eret (stack_data p, st')))
              else eret (new_frame_addr_maybe, st)))
       (\<lambda>(new_frame, st'). eseq (construct_frame new_frame td) (eret (new_frame, set_page_top new_frame st'))))))"

definition push_frame :: "vm_stack \<Rightarrow> ('z, nat \<times> vm_stack) heff" where
  "push_frame st = ebind (top_page st) (\<lambda>page.
     let new_top_frame = pg_top_frame page in
     eseq (if new_top_frame = 0 then throw (Undefined ''push without a frame'')
           else set_prev_frame new_top_frame (stk_top_frame st))
       (eret (new_top_frame, st\<lparr> stk_top_frame := new_top_frame \<rparr>)))"

definition after_pop :: "nat \<Rightarrow> vm_stack \<Rightarrow> ('z, nat \<times> vm_stack) heff" where
  "after_pop current_frame st =
     (let st' = set_page_top current_frame (st\<lparr> stk_top_frame := current_frame \<rparr>) in
      if current_frame = 0 then eret (current_frame, st')
      else ebind (top_page st') (\<lambda>page.
        if contains_frame page current_frame then eret (current_frame, st')
        else ebind (drop_page st') (\<lambda>st2. ebind (top_page st2) (\<lambda>page2.
          eseq (vm_assert (contains_frame page2 current_frame) ''top_page->contains_frame(current_frame)'')
            (eret (current_frame, st2))))))"

definition pop_frame :: "vm_stack \<Rightarrow> ('z, nat \<times> vm_stack) heff" where
  "pop_frame st =
     (let previous_frame = stk_top_frame st in
      if previous_frame = 0 then eret (0, st)
      else ebind (prev_frame previous_frame) (\<lambda>current_frame.
        eseq (destroy_frame previous_frame) (after_pop current_frame st)))"

definition peek_frame :: "vm_stack \<Rightarrow> nat" where
  "peek_frame st = stk_top_frame st"

primrec destroy_stack_fuel :: "nat \<Rightarrow> vm_stack \<Rightarrow> ('z, vm_stack) heff" where
  "destroy_stack_fuel 0 st = throw OutOfFuel"
| "destroy_stack_fuel (Suc n) st = ebind (pop_frame st) (\<lambda>(f, st').
     if f = 0 then eret st' else destroy_stack_fuel n st')"

definition destroy_stack :: "vm_stack \<Rightarrow> ('z, vm_stack) heff" where
  "destroy_stack st = (\<lambda>h. destroy_stack_fuel (Suc (length (h_frame_types h))) st h)"

definition free_stack :: "vm_stack \<Rightarrow> ('z, unit) heff" where
  "free_stack st = ebind (top_page st) (\<lambda>p. free_block (pg_addr p) (sizeof_stack_page + stk_page_size st))"

end
