(* ===== verification/Transfers.thy ===== *)
theory Transfers
  imports Heap
begin

text \<open>
  The moves of \<^verbatim>\<open>src/src/vm/execution_table.cpp\<close> that instructions and channels share: a
  channel transfers its data with the move of its element type. The value moves satisfy the
  contract \<open>cells\<close> of the channel's transfer on aligned, mapped cells, so that the queue a
  channel implements holds for channels of bytes, words and 64-bit values in the VM's memory.
\<close>

section \<open>Moves\<close>

definition mov_value :: "nat \<Rightarrow> nat \<Rightarrow> nat \<Rightarrow> ('z, unit) heff" where
  "mov_value n dest src = ebind (vt_load n src) (vt_store dest)"

definition mov_pointer :: "nat \<Rightarrow> nat \<Rightarrow> ('z, unit) heff" where
  "mov_pointer dest src =
     ebind (at_alloc dest) (\<lambda>alloc_prev.
     ebind (at_alloc src) (\<lambda>alloc.
     eseq (when_do (alloc \<noteq> 0) (add_ref alloc))
    (eseq (set_pt_ref dest alloc) (dec_ref_count_and_free alloc_prev))))"

definition channel_movm :: "nat \<Rightarrow> nat \<Rightarrow> type_desc \<Rightarrow> ('z, unit) heff" where
  "channel_movm dest src td = ebind (load (nat (td_size td)) src) (store dest)"

definition channel_movmp :: "nat \<Rightarrow> nat \<Rightarrow> type_desc \<Rightarrow> ('z, unit) heff" where
  "channel_movmp dest src td =
     eseq (destroy_memory td dest)
    (eseq (inc_ref_count_in_memory td src) (ebind (load (nat (td_size td)) src) (store dest)))"

definition transfer_data :: "transfer_kind \<Rightarrow> nat \<Rightarrow> nat \<Rightarrow> type_desc \<Rightarrow> ('z, unit) heff" where
  "transfer_data k dest src td = (case k of
     MovByte \<Rightarrow> mov_value 1 dest src
   | MovWord \<Rightarrow> mov_value 4 dest src
   | MovReal \<Rightarrow> mov_value 8 dest src
   | MovBig \<Rightarrow> mov_value 8 dest src
   | MovPointer \<Rightarrow> mov_pointer dest src
   | ChannelMovm \<Rightarrow> channel_movm dest src td
   | ChannelMovmp \<Rightarrow> channel_movmp dest src td)"

definition run_transfer :: "transfer_kind \<Rightarrow> 'z heap_scheme transfer" where
  "run_transfer k dest src td h = (case transfer_data k dest src td h of (Inl e, _) \<Rightarrow> Inl e | (Inr _, h') \<Rightarrow> Inr h')"

section \<open>Value moves on aligned cells\<close>

definition aligned_cell :: "nat \<Rightarrow> 'z heap_scheme \<Rightarrow> nat \<Rightarrow> bool" where
  "aligned_cell n h a \<longleftrightarrow> a \<noteq> 0 \<and> n dvd a \<and> mapped n a h"

lemma mov_value_run:
  assumes "mapped n d h" "mapped n s h" "d \<noteq> 0" "s \<noteq> 0"
  shows "mov_value n d s h = (Inr (), put_bytes d (bytes_at n h s) h)"
  using assms by (simp add: mov_value_def vt_load_def vt_store_def load_mapped store_mapped ebind_run)

lemma dvd_apart: "(n::nat) dvd a \<Longrightarrow> n dvd b \<Longrightarrow> a \<noteq> b \<Longrightarrow> a + n \<le> b \<or> b + n \<le> a"
proof -
  assume "n dvd a" "n dvd b" "a \<noteq> b"
  then obtain i j where ij: "a = n * i" "b = n * j" by (auto elim!: dvdE)
  with \<open>a \<noteq> b\<close> have "Suc i \<le> j \<or> Suc j \<le> i" by auto
  then have "n * Suc i \<le> n * j \<or> n * Suc j \<le> n * i" by (metis mult_le_mono2)
  with ij show ?thesis by auto
qed

lemma cells_mov_value:
  fixes transfer :: "'z heap_scheme transfer"
  assumes t: "\<And>d s td h. transfer d s td h = (case mov_value n d s h of (Inl e, _) \<Rightarrow> Inl e | (Inr _, h') \<Rightarrow> Inr h')"
  shows "cells transfer (bytes_at n) (aligned_cell n)"
proof
  fix st :: "'z heap_scheme" and d s ty
  assume c: "aligned_cell n st d" "aligned_cell n st s"
  then have e: "transfer d s ty st = Inr (put_bytes d (bytes_at n st s) st)"
    by (simp add: t mov_value_run aligned_cell_def)
  then show "\<exists>st'. transfer d s ty st = Inr st'" by blast
  fix st' assume "transfer d s ty st = Inr st'"
  with e have st': "st' = put_bytes d (bytes_at n st s) st" by simp
  show "aligned_cell n st' a = aligned_cell n st a" for a
    using c by (simp add: st' aligned_cell_def mapped_put_mapped)
  show "bytes_at n st' a = (if a = d then bytes_at n st s else bytes_at n st a)" if "aligned_cell n st a" for a
  proof (cases "a = d")
    case True
    then show ?thesis by (simp add: st' bytes_at_put_same)
  next
    case False
    then have "a + n \<le> d \<or> d + n \<le> a" using that c dvd_apart by (auto simp: aligned_cell_def)
    with False show ?thesis by (simp add: st' bytes_at_put_other)
  qed
qed

interpretation byte_cells: cells "run_transfer MovByte" "bytes_at 1" "aligned_cell 1"
  by (rule cells_mov_value) (simp add: run_transfer_def transfer_data_def)

interpretation word_cells: cells "run_transfer MovWord" "bytes_at 4" "aligned_cell 4"
  by (rule cells_mov_value) (simp add: run_transfer_def transfer_data_def)

interpretation big_cells: cells "run_transfer MovBig" "bytes_at 8" "aligned_cell 8"
  by (rule cells_mov_value) (simp add: run_transfer_def transfer_data_def)

section \<open>Channels in the VM's memory\<close>

text \<open>C12: receiving refines taking the head of a queue. On a channel of words in memory, a
  receive on the empty queue registers the request and changes nothing else; otherwise it
  delivers the first value, from the ring buffer or from the longest waiting sender, whose
  value then moves into the buffer, and the rest of the queue keeps its order.\<close>

theorem receive_takes_head:
  assumes "chan_inv ch pend" "chan_env (aligned_cell 4) ch (ch_senders ch) rq h" "pend (rq_mutex rq)"
  shows "\<exists>res. receive_data (run_transfer MovWord) ch rq pend h = Inr res \<and> chan_inv (cr_channel res) (cr_pending res) \<and>
    (case queue_of (bytes_at 4) ch pend h of
       [] \<Rightarrow> \<not> cr_handled res \<and> cr_state res = h \<and> cr_callback res = None \<and>
         ch_receivers (cr_channel res) = ch_receivers ch @ [rq] \<and>
         queue_of (bytes_at 4) (cr_channel res) (cr_pending res) (cr_state res) = []
     | v # vs \<Rightarrow> cr_handled res \<and> bytes_at 4 (cr_state res) (rq_data rq) = v \<and>
         queue_of (bytes_at 4) (cr_channel res) (cr_pending res) (cr_state res) = vs)"
  using assms by (rule word_cells.receive_queue)

text \<open>sending refines appending to a queue. With a receiver waiting, the first one gets the
  value, is named for the callback and is no longer pending, and the queue stays empty;
  otherwise the value is appended, and the send completes at once exactly when the ring
  buffer has room.\<close>

theorem send_appends:
  assumes "chan_inv ch pend" "chan_env (aligned_cell 4) ch (ch_receivers ch) rq h" "pend (rq_mutex rq)"
  shows "\<exists>res. send_data (run_transfer MovWord) ch rq pend h = Inr res \<and> chan_inv (cr_channel res) (cr_pending res) \<and>
    (case waiting pend (ch_receivers ch) of
       [] \<Rightarrow> cr_handled res = room ch \<and> cr_callback res = None \<and>
         queue_of (bytes_at 4) (cr_channel res) (cr_pending res) (cr_state res)
           = queue_of (bytes_at 4) ch pend h @ [bytes_at 4 h (rq_data rq)]
     | r # _ \<Rightarrow> cr_handled res \<and> cr_callback res = Some r \<and>
         bytes_at 4 (cr_state res) (rq_data r) = bytes_at 4 h (rq_data rq) \<and>
         \<not> cr_pending res (rq_mutex r) \<and> queue_of (bytes_at 4) (cr_channel res) (cr_pending res) (cr_state res) = [])"
  using assms by (rule word_cells.send_queue)

definition demo_memory :: heap where
  "demo_memory = empty_heap\<lparr> h_mem := map_zero 64 16 (\<lambda>_. None), h_brk := 80 \<rparr>"

definition buffered_channel :: channel where
  "buffered_channel = \<lparr> ch_buffer = Some (1, \<lparr> arr_addr = 64, arr_element_type = td_word, arr_original = None, arr_length = 2 \<rparr>),
     ch_head = 1, ch_count = 1, ch_type = td_word, ch_senders = [], ch_receivers = [] \<rparr>"

lemma demo_env: "chan_env (aligned_cell 4) buffered_channel [] \<lparr> rq_thread = 1, rq_data = 72, rq_mutex = 1 \<rparr> demo_memory"
  by (auto simp: chan_env_def slots_of_def buffered_channel_def aligned_cell_def mapped_def demo_memory_def map_zero_def
      slot_def td_defs less_2_cases_iff)

lemma demo_inv: "chan_inv buffered_channel (\<lambda>_. True)"
  by (simp add: chan_inv_def buffered_channel_def td_defs room_def)

lemma receive_takes_head_witness:
  "\<exists>res. receive_data (run_transfer MovWord) buffered_channel \<lparr> rq_thread = 1, rq_data = 72, rq_mutex = 1 \<rparr> (\<lambda>_. True)
     demo_memory = Inr res \<and> cr_handled res"
  using receive_takes_head [of buffered_channel "\<lambda>_. True" "\<lparr> rq_thread = 1, rq_data = 72, rq_mutex = 1 \<rparr>" demo_memory]
    demo_env demo_inv
  by (auto simp: buffered_channel_def queue_of_def buffer_slots_def)

lemma send_appends_witness:
  "\<exists>res. send_data (run_transfer MovWord) buffered_channel \<lparr> rq_thread = 1, rq_data = 72, rq_mutex = 1 \<rparr> (\<lambda>_. True)
     demo_memory = Inr res \<and> cr_handled res"
  using send_appends [of buffered_channel "\<lambda>_. True" "\<lparr> rq_thread = 1, rq_data = 72, rq_mutex = 1 \<rparr>" demo_memory]
    demo_env demo_inv
  by (auto simp: buffered_channel_def room_def)

end
