(* ===== verification/Machine.thy ===== *)
theory Machine
  imports Stack Transfers
begin

text \<open>
  The state a VM thread executes on. \<open>world\<close> extends the heap with what the VM shares between
  threads: the collector's list and epoch, the pending flags of the request mutexes, the
  scheduler's queues and saved threads (\<^verbatim>\<open>scheduler.cpp\<close>), the tools (\<^verbatim>\<open>tool_dispatch.cpp\<close>), the
  loaded and built-in modules (\<^verbatim>\<open>vm.cpp\<close>, \<^verbatim>\<open>builtin_module.cpp\<close>) and the file descriptors
  (\<^verbatim>\<open>fd_manager.cpp\<close>); \<open>cpu\<close> adds the registers of the running thread (\<^verbatim>\<open>vm_registers_t\<close>). The instructions are those of one VM thread at a
  time, as with the default of one system thread; a call into the scheduler is one step, since
  its queues change under its lock. The record \<open>env\<close>
  stands for what is not code of the VM: floating point, the random order of alternatives,
  the native functions of built-in modules, the tools that may be attached, and the files
  modules are read from.
\<close>

section \<open>Threads and registers\<close>

datatype thread_state = UnknownState | BlockedInAlt | BlockedSending | BlockedReceiving | DebugState | Ready
  | Running | Release | Exiting | EmptyStack | Broken

record registers =
  r_thread_id :: nat
  r_parent_id :: nat
  r_tool_dispatch :: bool
  r_stack :: vm_stack
  r_pc :: word_t
  r_next_pc :: word_t
  r_mp_base :: nat
  r_module_ref :: nat
  r_quanta :: nat
  r_state :: thread_state
  r_trap_flags :: nat
  r_src :: nat
  r_mid :: nat
  r_dest :: nat
  r_error_message :: "string option"

datatype vm_event = ModuleVmLoad | ModuleThreadLoad | ThreadBegin | ThreadEnd | ThreadBroken
  | ExceptionRaised | ExceptionUnhandled | BreakpointHit | TrapHit

record breakpoint_details =
  bd_module :: nat
  bd_pc :: word_t
  bd_opcode :: nat

record tool_dispatch =
  tl_tools :: "(nat \<times> nat) list"
  tl_tool_counter :: nat
  tl_callbacks :: "(vm_event \<times> (nat \<times> nat) list) list"
  tl_cookie_to_event :: "(nat \<times> vm_event) list"
  tl_event_cookies :: nat
  tl_details :: "(nat \<times> breakpoint_details) list"
  tl_originals :: "(nat \<times> (word_t \<times> nat \<times> nat) list) list"
  tl_break_cookies :: nat
  tl_suspended :: bool
  tl_suspended_count :: nat

record loaded_vm_module =
  lm_vm_id :: nat
  lm_origin :: vm_string
  lm_module :: nat

record world = heap +
  w_tracked :: "nat list"
  w_epoch :: nat
  w_pending :: "nat \<Rightarrow> bool"
  w_threads :: "(nat \<times> registers) list"
  w_runnable :: "nat list"
  w_blocked :: "nat list"
  w_running :: nat
  w_gc_counter :: nat
  w_terminating :: bool
  w_next_thread_id :: nat
  w_random :: nat
  w_tool_attached :: bool
  w_dispatch :: tool_dispatch
  w_modules :: "loaded_vm_module list"
  w_next_module :: nat
  w_builtins :: "nat list"
  w_syscall_error :: "byte_t list"
  w_fd_map :: "nat list"
  w_fd_available :: "nat list"
  w_fd_handles :: "(nat \<times> word_t \<times> nat) list"
  w_std_fds :: "word_t list"

record cpu = world +
  c_regs :: registers

type_synonym 'a exec = "(cpu, 'a) eff"

datatype tool_event = ToolBlock | ToolTrap | ToolRaised nat nat | ToolUnhandled nat nat | ToolBreakpoint
  | ToolModuleLoad nat | ToolThreadBegin nat | ToolThreadEnd | ToolThreadBroken | ToolVmLoad nat

record env =
  f_of_big :: "big_t \<Rightarrow> big_t"
  f_to_big :: "big_t \<Rightarrow> big_t"
  f_to_word :: "big_t \<Rightarrow> word_t"
  f_to_short :: "big_t \<Rightarrow> word_t"
  f_from_short :: "word_t \<Rightarrow> big_t"
  f_neg :: "big_t \<Rightarrow> big_t"
  f_add :: "big_t \<Rightarrow> big_t \<Rightarrow> big_t"
  f_sub :: "big_t \<Rightarrow> big_t \<Rightarrow> big_t"
  f_mul :: "big_t \<Rightarrow> big_t \<Rightarrow> big_t"
  f_div :: "big_t \<Rightarrow> big_t \<Rightarrow> big_t"
  f_less :: "big_t \<Rightarrow> big_t \<Rightarrow> bool"
  f_equal :: "big_t \<Rightarrow> big_t \<Rightarrow> bool"
  f_half :: big_t
  f_parse :: "byte_t list \<Rightarrow> big_t"
  f_print :: "big_t \<Rightarrow> byte_t list"
  e_shuffle :: "nat \<Rightarrow> nat \<Rightarrow> nat list"
  e_native :: "nat \<Rightarrow> unit exec"
  e_tool :: "tool_event \<Rightarrow> nat exec"
  e_load_module :: "byte_t list \<Rightarrow> nat exec"

section \<open>Access to the registers\<close>

definition reg :: "(registers \<Rightarrow> 'a) \<Rightarrow> 'a exec" where
  "reg f = gets (\<lambda>c. f (c_regs c))"

definition set_reg :: "(registers \<Rightarrow> registers) \<Rightarrow> unit exec" where
  "set_reg g = modify (\<lambda>c. c\<lparr> c_regs := g (c_regs c) \<rparr>)"

definition set_state :: "thread_state \<Rightarrow> unit exec" where
  "set_state s = set_reg (\<lambda>r. r\<lparr> r_state := s \<rparr>)"

definition on_stack :: "(vm_stack \<Rightarrow> (nat \<times> vm_stack) exec) \<Rightarrow> nat exec" where
  "on_stack f = ebind (reg r_stack) (\<lambda>st. ebind (f st) (\<lambda>(x, st').
     eseq (set_reg (\<lambda>r. r\<lparr> r_stack := st' \<rparr>)) (eret x)))"

definition module_ref_at :: "nat \<Rightarrow> ('z, module_ref) heff" where
  "module_ref_at p = ebind (obj_at p) (\<lambda>ob. case ob_data ob of
     ModuleRefObj mr \<Rightarrow> eret mr | _ \<Rightarrow> throw (Undefined ''not a module reference''))"

definition module_at :: "nat \<Rightarrow> ('z, vm_module) heff" where
  "module_at m = (\<lambda>h. case map_of (h_modules h) m of
     None \<Rightarrow> (Inl (Undefined ''no such module''), h) | Some md \<Rightarrow> (Inr md, h))"

definition module_of :: "nat \<Rightarrow> ('z, vm_module) heff" where
  "module_of p = ebind (module_ref_at p) (\<lambda>mr. module_at (mr_module mr))"

definition type_at :: "vm_module \<Rightarrow> word_t \<Rightarrow> ('z, type_desc) heff" where
  "type_at md type_id =
     eseq (vm_assert (0 \<le> sint type_id \<and> sint type_id < int (length (m_type_section md))) ''0 <= type_id'')
       (case m_type_section md ! unat type_id of None \<Rightarrow> throw (Undefined ''null type descriptor'') | Some td \<Rightarrow> eret td)"

definition current_module :: "vm_module exec" where
  "current_module = ebind (reg r_module_ref) module_of"

definition track_allocation :: "nat \<Rightarrow> unit exec" where
  "track_allocation p =
     eseq (vm_assert (p \<noteq> 0) ''alloc != nullptr'')
    (eseq (add_ref p)
    (ebind (gets w_epoch) (\<lambda>epoch. ebind (obj_at p) (\<lambda>ob.
     eseq (set_obj p (ob\<lparr> ob_gc := of_nat (epoch mod 3) \<rparr>))
       (modify (\<lambda>c. c\<lparr> w_tracked := p # w_tracked c \<rparr>))))))"

section \<open>Creation of threads\<close>

definition new_registers :: "nat \<Rightarrow> nat \<Rightarrow> nat \<Rightarrow> registers exec" where
  "new_registers thread_id parent entry = ebind (module_ref_at entry) (\<lambda>mr.
     ebind (module_at (mr_module mr)) (\<lambda>md.
     ebind (create_stack (unat (hd_stack_extent (m_header md)))) (\<lambda>st.
     eseq (when_do (mr_mp_base mr \<noteq> 0) (add_ref (mr_mp_base mr))) (
     eseq (add_ref entry) (
     eret \<lparr> r_thread_id = thread_id, r_parent_id = parent, r_tool_dispatch = False, r_stack = st,
         r_pc = hd_entry_pc (m_header md), r_next_pc = hd_entry_pc (m_header md), r_mp_base = mr_mp_base mr,
         r_module_ref = entry, r_quanta = 0, r_state = Ready, r_trap_flags = 0, r_src = 0, r_mid = 0, r_dest = 0,
         r_error_message = None \<rparr>)))))"

definition unique_thread_id :: "nat exec" where
  "unique_thread_id = ebind (gets w_next_thread_id) (\<lambda>n.
     eseq (modify (\<lambda>c. c\<lparr> w_next_thread_id := n + 1 \<rparr>)) (
     eret n))"

definition new_thread :: "nat \<Rightarrow> nat \<Rightarrow> registers exec" where
  "new_thread entry parent = ebind (new_registers 0 parent entry) (\<lambda>r0.
     ebind unique_thread_id (\<lambda>thread_id.
     let r = r0\<lparr> r_thread_id := thread_id \<rparr> in
     eseq (vm_assert (parent \<noteq> thread_id) ''_parent_thread_id != _thread_id'') (
     ebind (module_of entry) (\<lambda>md.
     eseq (vm_assert (unat (r_pc r) < length (m_code_section md)) ''_registers.pc'') (
     eseq (check (unat (hd_entry_type (m_header md)) < length (m_type_section md)) (Undefined ''entry type'')) (
     ebind (type_at md (hd_entry_type (m_header md))) (\<lambda>ft.
     ebind (alloc_frame ft (r_stack r)) (\<lambda>(_, st).
     ebind (push_frame st) (\<lambda>(_, st').
     eret (r\<lparr> r_stack := st' \<rparr>))))))))))"

definition new_thread_at :: "nat \<Rightarrow> nat \<Rightarrow> nat \<Rightarrow> word_t \<Rightarrow> registers exec" where
  "new_thread_at entry parent initial_frame start_pc = ebind (new_registers 0 parent entry) (\<lambda>r0.
     ebind unique_thread_id (\<lambda>thread_id.
     let r = r0\<lparr> r_thread_id := thread_id, r_pc := start_pc \<rparr> in
     eseq (vm_assert (parent \<noteq> thread_id) ''_parent_thread_id != _thread_id'') (
     ebind (module_of entry) (\<lambda>md.
     eseq (vm_assert (unat start_pc < length (m_code_section md)) ''_registers.pc'') (
     ebind (frame_type initial_frame) (\<lambda>ft.
     ebind (alloc_frame ft (r_stack r)) (\<lambda>(_, st).
     ebind (push_frame st) (\<lambda>(current_frame, st').
     eseq (copy_frame_contents current_frame initial_frame) (
     eret (r\<lparr> r_stack := st' \<rparr>))))))))))"

definition scheduler_add :: "registers \<Rightarrow> ('z world_scheme, unit) eff" where
  "scheduler_add r =
     eseq (check (r_state r = Ready) (SystemException ''Scheduled thread in invalid state''))
    (ebind (gets (\<lambda>c. r_thread_id r \<notin> fst ` set (w_threads c))) (\<lambda>fresh.
     eseq (vm_assert fresh ''_all_vm_threads.find(new_thread_id)'')
       (modify (\<lambda>c. c\<lparr> w_threads := (r_thread_id r, r) # w_threads c,
                       w_runnable := w_runnable c @ [r_thread_id r] \<rparr>))))"

definition schedule_thread :: "env \<Rightarrow> registers \<Rightarrow> unit exec" where
  "schedule_thread E r = ebind (gets w_tool_attached) (\<lambda>attached.
     if attached then ebind (e_tool E (ToolThreadBegin (r_thread_id r))) (\<lambda>_. scheduler_add (r\<lparr> r_tool_dispatch := True \<rparr>))
     else scheduler_add r)"

definition fork :: "env \<Rightarrow> nat \<Rightarrow> nat \<Rightarrow> nat \<Rightarrow> word_t \<Rightarrow> nat exec" where
  "fork E parent_tid mref initial_frame initial_pc = ebind (module_of mref) (\<lambda>md.
     eseq (check (\<not> (sint initial_pc < 0 \<or> int (length (m_code_section md)) \<le> sint initial_pc))
        (UserException ''Invalid entry program counter''))
    (ebind (new_thread_at mref parent_tid initial_frame initial_pc) (\<lambda>r.
     eseq (schedule_thread E r) (eret (r_thread_id r)))))"

section \<open>Blocked threads\<close>

definition enqueue_blocked_thread :: "nat \<Rightarrow> ('z world_scheme, unit) eff" where
  "enqueue_blocked_thread thread_id = ebind (gets (\<lambda>c. thread_id \<in> fst ` set (w_threads c))) (\<lambda>known.
     eseq (vm_assert known ''Unknown thread to enqueue'')
    (ebind (gets (\<lambda>c. thread_id \<in> set (w_blocked c))) (\<lambda>blocked.
     eseq (vm_assert blocked ''Thread to enqueue not blocked'')
       (modify (\<lambda>c. c\<lparr> w_blocked := remove1 thread_id (w_blocked c), w_runnable := w_runnable c @ [thread_id] \<rparr>)))))"

end
