(* ===== verification/ExecValue.thy ===== *)
theory ExecValue
  imports Machine
begin

text \<open>
  The instructions of \<^verbatim>\<open>src/src/vm/execution_table.cpp\<close> that compute on values: bitwise
  operations, shifts, conversions between number types, arithmetic, fixed-point arithmetic,
  moves, comparisons with branches, and the case tables. Bytes are unsigned; words and bigs
  are read as signed where the source compares, divides or widens them. Overflow of signed
  arithmetic wraps around in two's complement, as the compilers the VM is built with do; a
  shift by a negative count or by at least the width of the promoted type is \<open>Undefined\<close>, as is
  the one quotient that does not fit. Reals are 64-bit patterns handed to the floating-point
  operations of \<open>env\<close>.
\<close>

section \<open>Operands\<close>

definition bin8 :: "(byte_t \<Rightarrow> byte_t \<Rightarrow> byte_t res) \<Rightarrow> unit exec" where
  "bin8 f = ebind (reg r_src) (\<lambda>s.
     ebind (reg r_mid) (\<lambda>m.
     ebind (reg r_dest) (\<lambda>d.
     ebind (get8 s) (\<lambda>x.
     ebind (get8 m) (\<lambda>y.
     ebind (lift_res (f x y)) (\<lambda>v.
     put8 d v))))))"

definition bin32 :: "(word_t \<Rightarrow> word_t \<Rightarrow> word_t res) \<Rightarrow> unit exec" where
  "bin32 f = ebind (reg r_src) (\<lambda>s.
     ebind (reg r_mid) (\<lambda>m.
     ebind (reg r_dest) (\<lambda>d.
     ebind (get32 s) (\<lambda>x.
     ebind (get32 m) (\<lambda>y.
     ebind (lift_res (f x y)) (\<lambda>v.
     put32 d v))))))"

definition bin64 :: "(big_t \<Rightarrow> big_t \<Rightarrow> big_t res) \<Rightarrow> unit exec" where
  "bin64 f = ebind (reg r_src) (\<lambda>s.
     ebind (reg r_mid) (\<lambda>m.
     ebind (reg r_dest) (\<lambda>d.
     ebind (get64 s) (\<lambda>x.
     ebind (get64 m) (\<lambda>y.
     ebind (lift_res (f x y)) (\<lambda>v.
     put64 d v))))))"

definition conv :: "(nat \<Rightarrow> 'a exec) \<Rightarrow> (nat \<Rightarrow> 'b \<Rightarrow> unit exec) \<Rightarrow> ('a \<Rightarrow> 'b) \<Rightarrow> unit exec" where
  "conv getter putter f = ebind (reg r_src) (\<lambda>s.
     ebind (reg r_dest) (\<lambda>d.
     ebind (getter s) (\<lambda>x.
     putter d (f x))))"

section \<open>Bit-wise operations\<close>

definition andb :: "unit exec" where "andb = bin8 (\<lambda>s m. Inr (s AND m))"
definition andw :: "unit exec" where "andw = bin32 (\<lambda>s m. Inr (s AND m))"
definition andl :: "unit exec" where "andl = bin64 (\<lambda>s m. Inr (s AND m))"
definition orb :: "unit exec" where "orb = bin8 (\<lambda>s m. Inr (s OR m))"
definition orw :: "unit exec" where "orw = bin32 (\<lambda>s m. Inr (s OR m))"
definition orl :: "unit exec" where "orl = bin64 (\<lambda>s m. Inr (s OR m))"
definition xorb :: "unit exec" where "xorb = bin8 (\<lambda>s m. Inr (s XOR m))"
definition xorw :: "unit exec" where "xorw = bin32 (\<lambda>s m. Inr (s XOR m))"
definition xorl :: "unit exec" where "xorl = bin64 (\<lambda>s m. Inr (s XOR m))"

section \<open>Shifts\<close>

definition shift_by :: "int \<Rightarrow> nat \<Rightarrow> (nat \<Rightarrow> 'a) \<Rightarrow> 'a res" where
  "shift_by count width f = require (0 \<le> count \<and> count < int width) (Undefined ''shift count'') (Inr (f (nat count)))"

definition shlb :: "unit exec" where "shlb = bin8 (\<lambda>s m. shift_by (uint s) 32 (\<lambda>n. push_bit n m))"
definition shlw :: "unit exec" where "shlw = bin32 (\<lambda>s m. shift_by (sint s) 32 (\<lambda>n. push_bit n m))"
definition shll :: "unit exec" where "shll = bin64 (\<lambda>s m. shift_by (sint s) 64 (\<lambda>n. push_bit n m))"
definition shrb :: "unit exec" where "shrb = bin8 (\<lambda>s m. shift_by (uint s) 32 (\<lambda>n. drop_bit n m))"

definition shrw :: "unit exec" where
  "shrw = eseq (bin32 (\<lambda>s m. shift_by (sint s) 32 (\<lambda>n. signed_drop_bit n m))) (
     ebind (reg r_mid) (\<lambda>m.
     ebind (reg r_dest) (\<lambda>d.
     ebind (get32 m) (\<lambda>x.
     ebind (get32 d) (\<lambda>y.
     vm_assert (0 \<le> sint x \<or> (sint x < 0 \<and> sint y < 0)) ''arithmetic shift'')))))"

definition shrl :: "unit exec" where
  "shrl = eseq (bin64 (\<lambda>s m. shift_by (sint s) 64 (\<lambda>n. signed_drop_bit n m))) (
     ebind (reg r_mid) (\<lambda>m.
     ebind (reg r_dest) (\<lambda>d.
     ebind (get64 m) (\<lambda>x.
     ebind (get64 d) (\<lambda>y.
     vm_assert (0 \<le> sint x \<or> (sint x < 0 \<and> sint y < 0)) ''arithmetic shift'')))))"

definition lsrw :: "unit exec" where "lsrw = bin32 (\<lambda>s m. shift_by (sint s) 32 (\<lambda>n. drop_bit n m))"
definition lsrl :: "unit exec" where "lsrl = bin64 (\<lambda>s m. shift_by (sint s) 64 (\<lambda>n. drop_bit n m))"

section \<open>Conversions\<close>

definition cvtbw :: "unit exec" where "cvtbw = conv get8 put32 ucast"
definition cvtwb :: "unit exec" where "cvtwb = conv get32 put8 ucast"
definition cvtwl :: "unit exec" where "cvtwl = conv get32 put64 scast"
definition cvtlw :: "unit exec" where "cvtlw = conv get64 put32 ucast"
definition cvtws :: "unit exec" where "cvtws = conv get32 put16 ucast"
definition cvtsw :: "unit exec" where "cvtsw = conv get16 put32 scast"
definition cvtrf :: "env \<Rightarrow> unit exec" where "cvtrf E = conv get64 put32 (f_to_short E)"
definition cvtfr :: "env \<Rightarrow> unit exec" where "cvtfr E = conv get32 put64 (f_from_short E)"
definition cvtlf :: "env \<Rightarrow> unit exec" where "cvtlf E = conv get64 put64 (f_of_big E)"
definition cvtwf :: "env \<Rightarrow> unit exec" where "cvtwf E = conv get32 put64 (\<lambda>w. f_of_big E (scast w))"

definition round_half :: "env \<Rightarrow> big_t \<Rightarrow> big_t" where
  "round_half E f = (if f_less E f (f_of_big E 0) then f_sub E f (f_half E) else f_add E f (f_half E))"

definition cvtfl :: "env \<Rightarrow> unit exec" where "cvtfl E = conv get64 put64 (\<lambda>f. f_to_big E (round_half E f))"
definition cvtfw :: "env \<Rightarrow> unit exec" where "cvtfw E = conv get64 put32 (\<lambda>f. f_to_word E (round_half E f))"

definition cvtxf :: "env \<Rightarrow> unit exec" where
  "cvtxf E = ebind (reg r_src) (\<lambda>s.
     ebind (reg r_mid) (\<lambda>m.
     ebind (reg r_dest) (\<lambda>d.
     ebind (get32 s) (\<lambda>w.
     ebind (get64 m) (\<lambda>f.
     put64 d (f_mul E (f_of_big E (scast w)) f))))))"

definition cvtfx :: "env \<Rightarrow> unit exec" where
  "cvtfx E = ebind (reg r_src) (\<lambda>s.
     ebind (reg r_mid) (\<lambda>m.
     ebind (reg r_dest) (\<lambda>d.
     ebind (get64 s) (\<lambda>x.
     ebind (get64 m) (\<lambda>y.
     put32 d (f_to_word E (round_half E (f_mul E x y))))))))"

section \<open>Fixed point\<close>

definition scale_pow2 :: "word_t \<Rightarrow> big_t \<Rightarrow> big_t res" where
  "scale_pow2 pow2_scale v =
     (if 0 \<le> sint pow2_scale then shift_by (sint pow2_scale) 64 (\<lambda>n. push_bit n v)
      else shift_by (sint (- pow2_scale)) 64 (\<lambda>n. signed_drop_bit n v))"

definition big_div :: "big_t \<Rightarrow> big_t \<Rightarrow> big_t res" where
  "big_div x y = require (y \<noteq> 0 \<and> \<not> (x = 0x8000000000000000 \<and> y = -1)) (Undefined ''quotient'')
     (Inr (word_of_int (sint x sdiv sint y)))"

definition fixed_register :: "(nat \<Rightarrow> nat exec) \<Rightarrow> word_t exec" where
  "fixed_register which = ebind (reg r_stack) (\<lambda>st.
     eseq (check (peek_frame st \<noteq> 0) (Undefined ''no frame'')) (
     ebind (which (peek_frame st)) (\<lambda>a.
     get32 a)))"

definition cvtxx :: "unit exec" where
  "cvtxx = ebind (reg r_src) (\<lambda>s.
     ebind (reg r_mid) (\<lambda>m.
     ebind (reg r_dest) (\<lambda>d.
     ebind (get32 m) (\<lambda>pow2_scale.
     ebind (get32 s) (\<lambda>w.
     ebind (lift_res (scale_pow2 pow2_scale (scast w))) (\<lambda>res.
     put32 d (ucast res)))))))"

definition cvtxx0 :: "unit exec" where
  "cvtxx0 = ebind (reg r_src) (\<lambda>s.
     ebind (reg r_mid) (\<lambda>m.
     ebind (reg r_dest) (\<lambda>d.
     ebind (get32 s) (\<lambda>w.
     if w = 0 then put32 d 0
     else (ebind (get32 m) (\<lambda>pow2_scale.
       ebind (lift_res (scale_pow2 pow2_scale (scast w))) (\<lambda>tmp.
       ebind (fixed_register fixed_point_register_1) (\<lambda>residual_scale.
       eseq (vm_assert (residual_scale \<noteq> 0) ''residual_scale != 0'') (
       ebind (lift_res (big_div tmp (scast residual_scale))) (\<lambda>result.
       put32 d (ucast result)))))))))))"

definition mulx :: "unit exec" where
  "mulx = ebind (reg r_src) (\<lambda>s.
     ebind (reg r_mid) (\<lambda>m.
     ebind (reg r_dest) (\<lambda>d.
     ebind (get32 m) (\<lambda>x.
     ebind (get32 s) (\<lambda>y.
     ebind (fixed_register fixed_point_register_2) (\<lambda>pow2_scale.
     ebind (lift_res (scale_pow2 pow2_scale (scast x * scast y))) (\<lambda>z.
     put32 d (ucast z))))))))"

definition divx :: "unit exec" where
  "divx = ebind (reg r_src) (\<lambda>s.
     ebind (reg r_mid) (\<lambda>m.
     ebind (reg r_dest) (\<lambda>d.
     ebind (get32 m) (\<lambda>x0.
     ebind (fixed_register fixed_point_register_2) (\<lambda>pow2_scale.
     ebind (lift_res (scale_pow2 pow2_scale (scast x0))) (\<lambda>x.
     ebind (get32 s) (\<lambda>y.
     eseq (check (y \<noteq> 0) DivideByZero) (
     ebind (lift_res (big_div x (scast y))) (\<lambda>z.
     put32 d (ucast z))))))))))"

definition mulx0 :: "unit exec" where
  "mulx0 = ebind (reg r_src) (\<lambda>s.
     ebind (reg r_mid) (\<lambda>m.
     ebind (reg r_dest) (\<lambda>d.
     ebind (get32 m) (\<lambda>x.
     ebind (get32 s) (\<lambda>y.
     if x = 0 \<or> y = 0 then put32 d 0
     else (ebind (fixed_register fixed_point_register_2) (\<lambda>pow2_scale.
       ebind (lift_res (scale_pow2 pow2_scale (scast x * scast y))) (\<lambda>tmp.
       ebind (fixed_register fixed_point_register_1) (\<lambda>residual_scale.
       eseq (vm_assert (residual_scale \<noteq> 0) ''residual_scale != 0'') (
       ebind (lift_res (big_div tmp (scast residual_scale))) (\<lambda>z.
       put32 d (ucast z))))))))))))"

definition divx0 :: "unit exec" where
  "divx0 = ebind (reg r_src) (\<lambda>s.
     ebind (reg r_mid) (\<lambda>m.
     ebind (reg r_dest) (\<lambda>d.
     ebind (get32 m) (\<lambda>x.
     ebind (get32 s) (\<lambda>y.
     eseq (check (y \<noteq> 0) DivideByZero) (
     if x = 0 then put32 d 0
     else (ebind (fixed_register fixed_point_register_1) (\<lambda>residual_scale.
       ebind (fixed_register fixed_point_register_2) (\<lambda>pow2_scale.
       ebind (lift_res (scale_pow2 pow2_scale (scast x * scast residual_scale))) (\<lambda>tmp.
       ebind (lift_res (big_div tmp (scast y))) (\<lambda>z.
       put32 d (ucast z))))))))))))"

section \<open>Arithmetic\<close>

definition negf :: "env \<Rightarrow> unit exec" where "negf E = conv get64 put64 (f_neg E)"
definition addb :: "unit exec" where "addb = bin8 (\<lambda>s m. Inr (s + m))"
definition addw :: "unit exec" where "addw = bin32 (\<lambda>s m. Inr (s + m))"
definition addl :: "unit exec" where "addl = bin64 (\<lambda>s m. Inr (s + m))"
definition addf :: "env \<Rightarrow> unit exec" where "addf E = bin64 (\<lambda>s m. Inr (f_add E s m))"
definition subb :: "unit exec" where "subb = bin8 (\<lambda>s m. Inr (m - s))"
definition subw :: "unit exec" where "subw = bin32 (\<lambda>s m. Inr (m - s))"
definition subl :: "unit exec" where "subl = bin64 (\<lambda>s m. Inr (m - s))"
definition subf :: "env \<Rightarrow> unit exec" where "subf E = bin64 (\<lambda>s m. Inr (f_sub E m s))"
definition mulb :: "unit exec" where "mulb = bin8 (\<lambda>s m. Inr (s * m))"
definition mulw :: "unit exec" where "mulw = bin32 (\<lambda>s m. Inr (s * m))"
definition mull :: "unit exec" where "mull = bin64 (\<lambda>s m. Inr (s * m))"
definition mulf :: "env \<Rightarrow> unit exec" where "mulf E = bin64 (\<lambda>s m. Inr (f_mul E s m))"

definition signed_div :: "'a::len word \<Rightarrow> 'a word \<Rightarrow> 'a word res" where
  "signed_div x y = require (\<not> (sint x = - (2 ^ (LENGTH('a) - 1)) \<and> y = -1)) (Undefined ''quotient'')
     (Inr (word_of_int (sint x sdiv sint y)))"

definition signed_rem :: "'a::len word \<Rightarrow> 'a word \<Rightarrow> 'a word res" where
  "signed_rem x y = require (\<not> (sint x = - (2 ^ (LENGTH('a) - 1)) \<and> y = -1)) (Undefined ''remainder'')
     (Inr (word_of_int (sint x smod sint y)))"

definition divb :: "unit exec" where "divb = bin8 (\<lambda>denom m. require (denom \<noteq> 0) DivideByZero (Inr (m div denom)))"
definition divw :: "unit exec" where "divw = bin32 (\<lambda>denom m. require (denom \<noteq> 0) DivideByZero (signed_div m denom))"
definition divl :: "unit exec" where "divl = bin64 (\<lambda>denom m. require (denom \<noteq> 0) DivideByZero (signed_div m denom))"
definition divf :: "env \<Rightarrow> unit exec" where "divf E = bin64 (\<lambda>denom m. Inr (f_div E m denom))"
definition modb :: "unit exec" where "modb = bin8 (\<lambda>denom m. require (denom \<noteq> 0) DivideByZero (Inr (m mod denom)))"
definition modw :: "unit exec" where "modw = bin32 (\<lambda>denom m. require (denom \<noteq> 0) DivideByZero (signed_rem m denom))"
definition modl :: "unit exec" where "modl = bin64 (\<lambda>denom m. require (denom \<noteq> 0) DivideByZero (signed_rem m denom))"

primrec power_loop :: "nat \<Rightarrow> ('a \<Rightarrow> 'a \<Rightarrow> 'a) \<Rightarrow> 'a \<Rightarrow> word_t \<Rightarrow> 'a \<Rightarrow> 'a res" where
  "power_loop 0 mul base pw result = Inl OutOfFuel"
| "power_loop (Suc n) mul base pw result =
     (let result' = (if bit pw 0 then mul result base else result);
          pw' = signed_drop_bit 1 pw in
      if pw' = 0 then Inr result' else power_loop n mul (mul base base) pw' result')"

definition exp_by_squaring :: "('a \<Rightarrow> 'a \<Rightarrow> 'a) \<Rightarrow> 'a \<Rightarrow> ('a \<Rightarrow> 'a res) \<Rightarrow> 'a \<Rightarrow> word_t \<Rightarrow> 'a res" where
  "exp_by_squaring mul one invert base pw0 =
     (let inverse = sint pw0 < 0; pw = (if inverse then - pw0 else pw0) in
      rbind (power_loop 33 mul base pw one) (\<lambda>result. if inverse then invert result else Inr result))"

definition exec_exp :: "(nat \<Rightarrow> 'a exec) \<Rightarrow> (nat \<Rightarrow> 'a \<Rightarrow> unit exec) \<Rightarrow> ('a \<Rightarrow> 'a \<Rightarrow> 'a) \<Rightarrow> 'a \<Rightarrow> ('a \<Rightarrow> 'a res) \<Rightarrow> unit exec" where
  "exec_exp getter putter mul one invert = ebind (reg r_src) (\<lambda>s.
     ebind (reg r_mid) (\<lambda>m.
     ebind (reg r_dest) (\<lambda>d.
     ebind (getter m) (\<lambda>base.
     ebind (get32 s) (\<lambda>pw.
     ebind (lift_res (exp_by_squaring mul one invert base pw)) (\<lambda>result.
     putter d result))))))"

definition expw :: "unit exec" where
  "expw = exec_exp get32 put32 (*) 1 (\<lambda>r. require (r \<noteq> 0) (Undefined ''division by zero'') (signed_div 1 r))"
definition expl :: "unit exec" where
  "expl = exec_exp get64 put64 (*) 1 (\<lambda>r. require (r \<noteq> 0) (Undefined ''division by zero'') (signed_div 1 r))"
definition expf :: "env \<Rightarrow> unit exec" where
  "expf E = exec_exp get64 put64 (f_mul E) (f_of_big E 1) (\<lambda>r. Inr (f_div E (f_of_big E 1) r))"

section \<open>Moves of values\<close>

definition movb :: "unit exec" where "movb = ebind (reg r_src) (\<lambda>s.
     ebind (reg r_dest) (\<lambda>d.
     mov_value 1 d s))"
definition movw :: "unit exec" where "movw = ebind (reg r_src) (\<lambda>s.
     ebind (reg r_dest) (\<lambda>d.
     mov_value 4 d s))"
definition movf :: "unit exec" where "movf = ebind (reg r_src) (\<lambda>s.
     ebind (reg r_dest) (\<lambda>d.
     mov_value 8 d s))"
definition movl :: "unit exec" where "movl = ebind (reg r_src) (\<lambda>s.
     ebind (reg r_dest) (\<lambda>d.
     mov_value 8 d s))"

definition movm :: "unit exec" where
  "movm = ebind (reg r_src) (\<lambda>s.
     ebind (reg r_mid) (\<lambda>m.
     ebind (reg r_dest) (\<lambda>d.
     eseq (vm_assert (s \<noteq> 0 \<and> d \<noteq> 0) ''r.src != nullptr && r.dest != nullptr'') (
     ebind (get32 m) (\<lambda>n.
     ebind (load (unat n) s) (\<lambda>bs.
     store d bs))))))"

definition lea :: "unit exec" where "lea = ebind (reg r_src) (\<lambda>s.
     ebind (reg r_dest) (\<lambda>d.
     set_pt_ref d s))"

end
