(* ===== verification/ExecBranch.thy ===== *)
theory ExecBranch
  imports ExecValue
begin

text \<open>
  The instructions of \<^verbatim>\<open>src/src/vm/execution_table.cpp\<close> that choose the next instruction:
  comparisons with a branch, jumps, and the case tables. A case table in memory holds the
  number of its entries, the entries (a low bound, an excluded high bound and a target) and
  the target to fall back to.
\<close>

section \<open>Strings as operands\<close>

definition string_of :: "(nat \<times> obj) option \<Rightarrow> ('z, vm_string option) heff" where
  "string_of v = (case v of None \<Rightarrow> eret None
     | Some (p, ob) \<Rightarrow> (case ob_data ob of
         StringObj s \<Rightarrow> eret (Some (s\<lparr> str_ref_count := ob_refs ob \<rparr>))
       | _ \<Rightarrow> throw (Undefined ''not a string'')))"

definition at_string :: "nat \<Rightarrow> ('z, nat \<times> vm_string option) heff" where
  "at_string a = ebind (at_val td_string a) (\<lambda>v.
     ebind (string_of v) (\<lambda>s.
     eret (case v of None \<Rightarrow> 0 | Some (p, _) \<Rightarrow> p, s)))"

definition compare_operands :: "nat \<Rightarrow> nat \<Rightarrow> ('z, int) heff" where
  "compare_operands a b = ebind (at_string a) (\<lambda>(p1, s1).
     ebind (at_string b) (\<lambda>(p2, s2).
     lift_res (compare_strings (p1 = p2) s1 s2)))"

section \<open>Compare and branch\<close>

definition branch_to_dest :: "unit exec" where
  "branch_to_dest = ebind (reg r_dest) (\<lambda>d.
     ebind (get32 d) (\<lambda>target.
     set_reg (\<lambda>r. r\<lparr> r_next_pc := target \<rparr>)))"

definition branch_if :: "(nat \<Rightarrow> 'a exec) \<Rightarrow> ('a \<Rightarrow> 'a \<Rightarrow> bool) \<Rightarrow> unit exec" where
  "branch_if getter P = ebind (reg r_src) (\<lambda>s.
     ebind (reg r_mid) (\<lambda>m.
     ebind (getter s) (\<lambda>x.
     ebind (getter m) (\<lambda>y.
     when_do (P x y) branch_to_dest))))"

definition branch_if_compare :: "(int \<Rightarrow> bool) \<Rightarrow> unit exec" where
  "branch_if_compare P = ebind (reg r_src) (\<lambda>s.
     ebind (reg r_mid) (\<lambda>m.
     ebind (compare_operands s m) (\<lambda>result.
     when_do (P result) branch_to_dest)))"

definition bltb :: "unit exec" where "bltb = branch_if get8 (\<lambda>x y. x < y)"
definition bgtb :: "unit exec" where "bgtb = branch_if get8 (\<lambda>x y. x > y)"
definition bleb :: "unit exec" where "bleb = branch_if get8 (\<lambda>x y. x \<le> y)"
definition bgeb :: "unit exec" where "bgeb = branch_if get8 (\<lambda>x y. x \<ge> y)"
definition beqb :: "unit exec" where "beqb = branch_if get8 (\<lambda>x y. x = y)"
definition bneb :: "unit exec" where "bneb = branch_if get8 (\<lambda>x y. x \<noteq> y)"

definition bltw :: "unit exec" where "bltw = branch_if get32 (\<lambda>x y. sint x < sint y)"
definition bgtw :: "unit exec" where "bgtw = branch_if get32 (\<lambda>x y. sint x > sint y)"
definition blew :: "unit exec" where "blew = branch_if get32 (\<lambda>x y. sint x \<le> sint y)"
definition bgew :: "unit exec" where "bgew = branch_if get32 (\<lambda>x y. sint x \<ge> sint y)"
definition beqw :: "unit exec" where "beqw = branch_if get32 (\<lambda>x y. sint x = sint y)"
definition bnew :: "unit exec" where "bnew = branch_if get32 (\<lambda>x y. sint x \<noteq> sint y)"

definition bltf :: "env \<Rightarrow> unit exec" where "bltf E = branch_if get64 (\<lambda>x y. f_less E x y)"
definition bgtf :: "env \<Rightarrow> unit exec" where "bgtf E = branch_if get64 (\<lambda>x y. f_less E y x)"
definition blef :: "env \<Rightarrow> unit exec" where "blef E = branch_if get64 (\<lambda>x y. f_less E x y \<or> f_equal E x y)"
definition bgef :: "env \<Rightarrow> unit exec" where "bgef E = branch_if get64 (\<lambda>x y. f_less E y x \<or> f_equal E x y)"
definition beqf :: "env \<Rightarrow> unit exec" where "beqf E = branch_if get64 (\<lambda>x y. f_equal E x y)"
definition bnef :: "env \<Rightarrow> unit exec" where "bnef E = branch_if get64 (\<lambda>x y. \<not> f_equal E x y)"

definition bltl :: "unit exec" where "bltl = branch_if get64 (\<lambda>x y. sint x < sint y)"
definition bgtl :: "unit exec" where "bgtl = branch_if get64 (\<lambda>x y. sint x > sint y)"
definition blel :: "unit exec" where "blel = branch_if get64 (\<lambda>x y. sint x \<le> sint y)"
definition bgel :: "unit exec" where "bgel = branch_if get64 (\<lambda>x y. sint x \<ge> sint y)"
definition beql :: "unit exec" where "beql = branch_if get64 (\<lambda>x y. sint x = sint y)"
definition bnel :: "unit exec" where "bnel = branch_if get64 (\<lambda>x y. sint x \<noteq> sint y)"

definition bltc :: "unit exec" where "bltc = branch_if_compare (\<lambda>c. c < 0)"
definition bgtc :: "unit exec" where "bgtc = branch_if_compare (\<lambda>c. c > 0)"
definition blec :: "unit exec" where "blec = branch_if_compare (\<lambda>c. c \<le> 0)"
definition bgec :: "unit exec" where "bgec = branch_if_compare (\<lambda>c. c \<ge> 0)"
definition beqc :: "unit exec" where "beqc = branch_if_compare (\<lambda>c. c = 0)"
definition bnec :: "unit exec" where "bnec = branch_if_compare (\<lambda>c. c \<noteq> 0)"

definition jmp :: "unit exec" where "jmp = branch_to_dest"

definition goto_op :: "unit exec" where
  "goto_op = ebind (reg r_src) (\<lambda>s.
     ebind (reg r_dest) (\<lambda>d.
     ebind (get32 s) (\<lambda>pc_index.
     eseq (vm_assert (d \<noteq> 0) ''r.dest != nullptr'') (
     ebind (load 4 (ptr_add d (4 * pc_index))) (\<lambda>bs.
     set_reg (\<lambda>r. r\<lparr> r_next_pc := word32 bs \<rparr>))))))"

section \<open>Case tables\<close>

definition table_entry :: "nat \<Rightarrow> nat \<Rightarrow> int \<Rightarrow> nat" where
  "table_entry width table index = ptr_add table (word_of_int (index * int width))"

primrec case_search :: "(nat \<Rightarrow> int exec) \<Rightarrow> nat \<Rightarrow> int \<Rightarrow> nat \<Rightarrow> nat \<Rightarrow> int \<Rightarrow> int exec" where
  "case_search get width value 0 entry target = eret target"
| "case_search get width value (Suc n) entry target = ebind (get (table_entry width entry 0)) (\<lambda>low.
     if value < low then case_search get width value n (table_entry width entry 3) target
     else (ebind (get (table_entry width entry 1)) (\<lambda>high.
       if high \<le> value then case_search get width value n (table_entry width entry 3) target
       else get (table_entry width entry 2))))"

definition case_op :: "(nat \<Rightarrow> int exec) \<Rightarrow> nat \<Rightarrow> unit exec" where
  "case_op get width = ebind (reg r_src) (\<lambda>s.
     ebind (reg r_dest) (\<lambda>table.
     ebind (get s) (\<lambda>value.
     eseq (vm_assert (table \<noteq> 0) ''r.dest != nullptr'') (
     ebind (get (table_entry width table 0)) (\<lambda>entry_count.
     eseq (vm_assert (entry_count < 2 ^ 31 - 1) ''entry_count'') (
     ebind (get (table_entry width table (1 + entry_count * 3))) (\<lambda>fallback.
     ebind (case_search get width value (nat entry_count) (table_entry width table 1) fallback) (\<lambda>target_pc.
     ebind current_module (\<lambda>md.
     eseq (vm_assert (unat (word_of_int target_pc :: word_t) < length (m_code_section md)) ''target_pc'') (
     set_reg (\<lambda>r. r\<lparr> r_next_pc := word_of_int target_pc \<rparr>)))))))))))"

definition casew :: "unit exec" where
  "casew = case_op (\<lambda>a. ebind (get32 a) (\<lambda>w. eret (sint w))) 4"

definition casel :: "unit exec" where
  "casel = case_op (\<lambda>a. ebind (get64 a) (\<lambda>w. eret (sint w))) 8"

primrec casec_search :: "nat \<Rightarrow> vm_string option \<Rightarrow> nat \<Rightarrow> nat \<Rightarrow> word_t \<Rightarrow> word_t exec" where
  "casec_search p value 0 entry target = eret target"
| "casec_search p value (Suc n) entry target = ebind (at_string (table_entry 4 entry 0)) (\<lambda>(low_p, string_low).
     ebind (lift_res (compare_strings (p = low_p) value string_low)) (\<lambda>result.
     if result = 0 then get32 (table_entry 4 entry 2)
     else if result < 0 then casec_search p value n (table_entry 4 entry 3) target
     else (ebind (at_string (table_entry 4 entry 1)) (\<lambda>(high_p, string_high).
       ebind (if string_high = None then eret True
                   else ebind (lift_res (compare_strings (p = high_p) value string_high)) (\<lambda>c. eret (c \<noteq> 0))) (\<lambda>differs.
       if differs then casec_search p value n (table_entry 4 entry 3) target
       else get32 (table_entry 4 entry 2))))))"

definition casec :: "unit exec" where
  "casec = ebind (reg r_src) (\<lambda>s.
     ebind (reg r_dest) (\<lambda>table.
     ebind (at_string s) (\<lambda>(p, value).
     eseq (vm_assert (table \<noteq> 0) ''r.dest != nullptr'') (
     ebind (get32 (table_entry 4 table 0)) (\<lambda>entry_count.
     ebind (get32 (table_entry 4 table (1 + sint entry_count * 3))) (\<lambda>fallback.
     ebind (casec_search p value (nat (sint entry_count)) (table_entry 4 table 1) fallback) (\<lambda>target_pc.
     ebind current_module (\<lambda>md.
     eseq (vm_assert (0 \<le> sint target_pc \<and> unat target_pc < length (m_code_section md)) ''target_pc'') (
     set_reg (\<lambda>r. r\<lparr> r_next_pc := target_pc \<rparr>))))))))))"

end
