(* ===== verification/ExecString.thy ===== *)
theory ExecString
  imports ExecBranch
begin

text \<open>
  The instructions of \<^verbatim>\<open>src/src/vm/execution_table.cpp\<close> on strings and their conversions to and
  from numbers and byte arrays. \<open>c_strtol\<close> and \<open>c_decimal\<close> are the C library's
  \<^verbatim>\<open>strtol\<close>/\<^verbatim>\<open>strtoll\<close> in base ten and the \<open>%d\<close>/\<open>%lld\<close> formats the source uses.
\<close>

section \<open>Numbers as text\<close>

definition is_space :: "byte_t \<Rightarrow> bool" where
  "is_space b = (b = 32 \<or> (9 \<le> b \<and> b \<le> 13))"

definition is_digit :: "byte_t \<Rightarrow> bool" where
  "is_digit b = (48 \<le> b \<and> b \<le> 57)"

definition digits_value :: "byte_t list \<Rightarrow> int" where
  "digits_value ds = foldl (\<lambda>v d. 10 * v + (uint d - 48)) 0 ds"

definition clamp :: "nat \<Rightarrow> int \<Rightarrow> int" where
  "clamp width v = max (- (2 ^ (width - 1))) (min (2 ^ (width - 1) - 1) v)"

definition c_strtol :: "nat \<Rightarrow> byte_t list \<Rightarrow> int" where
  "c_strtol width text =
     (let t = dropWhile is_space text;
          negative = (t \<noteq> [] \<and> hd t = 45);
          u = (if t \<noteq> [] \<and> (hd t = 45 \<or> hd t = 43) then tl t else t);
          v = digits_value (takeWhile is_digit u)
      in clamp width (if negative then - v else v))"

fun nat_digits :: "nat \<Rightarrow> byte_t list" where
  "nat_digits n = (if n < 10 then [word_of_nat (48 + n)] else nat_digits (n div 10) @ [word_of_nat (48 + n mod 10)])"

definition c_decimal :: "int \<Rightarrow> byte_t list" where
  "c_decimal i = (if i < 0 then 45 # nat_digits (nat (- i)) else nat_digits (nat i))"

declare nat_digits.simps [simp del]

section \<open>String objects\<close>

definition put_string :: "nat \<Rightarrow> vm_string \<Rightarrow> ('z, unit) heff" where
  "put_string p s = ebind (obj_at p) (\<lambda>ob.
     set_obj p (ob\<lparr> ob_data := StringObj s \<rparr>))"

definition string_str :: "nat \<Rightarrow> vm_string \<Rightarrow> ('z, byte_t list) heff" where
  "string_str p s = ebind (lift_res (str s)) (\<lambda>s'.
     eseq (put_string p s') (
     eret (c_string (str_bytes s'))))"

definition new_string_utf8 :: "byte_t list \<Rightarrow> ('z, nat) heff" where
  "new_string_utf8 bs = ebind (lift_res (string_of_utf8 bs)) (\<lambda>s.
     new_string s)"

definition new_string_res :: "vm_string res \<Rightarrow> ('z, nat) heff" where
  "new_string_res r = ebind (lift_res r) (\<lambda>s.
     new_string s)"

definition array_of_string :: "nat \<Rightarrow> vm_string option \<Rightarrow> ('z, nat) heff" where
  "array_of_string p s = (let arr = (\<lambda>a n. ArrayObj \<lparr> arr_addr = a, arr_element_type = td_byte, arr_original = None, arr_length = n \<rparr>) in
     case s of
       Some s \<Rightarrow> if 0 < get_length s then (ebind (string_str p s) (\<lambda>bs.
     ebind (new_object 0 0 td_array (\<lambda>_. Plain)) (\<lambda>q.
     ebind (construct q (alloc_block (length bs))) (\<lambda>a.
     eseq (store a bs) (
     ebind (obj_at q) (\<lambda>ob.
     eseq (set_obj q (ob\<lparr> ob_data := arr a (int (length bs)) \<rparr>)) (
     eret q)))))))
         else new_object 0 0 td_array (\<lambda>_. arr 0 0)
     | None \<Rightarrow> new_object 0 0 td_array (\<lambda>_. arr 0 0))"

definition at_array :: "nat \<Rightarrow> ('z, (nat \<times> vm_array) option) heff" where
  "at_array a = ebind (at_val td_array a) (\<lambda>v.
     case v of None \<Rightarrow> eret None
     | Some (p, ob) \<Rightarrow> (case ob_data ob of ArrayObj arr \<Rightarrow> eret (Some (p, arr))
         | _ \<Rightarrow> throw (Undefined ''not an array'')))"

section \<open>Conversions\<close>

definition cvtca :: "unit exec" where
  "cvtca = ebind (reg r_src) (\<lambda>s.
     ebind (reg r_dest) (\<lambda>d.
     ebind (at_alloc d) (\<lambda>old.
     eseq (dec_ref_count_and_free old) (
     ebind (at_string s) (\<lambda>(p, string).
     ebind (array_of_string p string) (\<lambda>new_array.
     set_pt_ref d new_array))))))"

definition cvtac :: "unit exec" where
  "cvtac = ebind (reg r_src) (\<lambda>s.
     ebind (reg r_dest) (\<lambda>d.
     ebind (at_alloc d) (\<lambda>old.
     eseq (dec_ref_count_and_free old) (
     ebind (at_array s) (\<lambda>arr.
     ebind (case arr of None \<Rightarrow> eret 0
       | Some (_, arr) \<Rightarrow> (eseq (check (arr_element_type arr = td_byte) (UserException ''Invalid array element type for string conversion'')) (
       ebind (lift_res (array_at arr 0)) (\<lambda>a.
       ebind (load (nat (arr_length arr)) a) (\<lambda>bs.
       new_string_utf8 bs))))) (\<lambda>str.
     set_pt_ref d str))))))"

definition string_to_number :: "(byte_t list \<Rightarrow> 'a) \<Rightarrow> 'a \<Rightarrow> (nat \<Rightarrow> 'a \<Rightarrow> unit exec) \<Rightarrow> unit exec" where
  "string_to_number parse nil_value putter = ebind (reg r_src) (\<lambda>s.
     ebind (reg r_dest) (\<lambda>d.
     ebind (at_string s) (\<lambda>(p, string).
     ebind (case string of None \<Rightarrow> eret nil_value | Some v \<Rightarrow> ebind (string_str p v) (\<lambda>bs. eret (parse bs))) (\<lambda>result.
     putter d result))))"

definition cvtcw :: "unit exec" where
  "cvtcw = string_to_number (\<lambda>bs. word_of_int (c_strtol 32 bs)) 0 put32"
definition cvtcl :: "unit exec" where
  "cvtcl = string_to_number (\<lambda>bs. word_of_int (c_strtol 64 bs)) 0 put64"
definition cvtcf :: "env \<Rightarrow> unit exec" where
  "cvtcf E = string_to_number (f_parse E) (f_of_big E 0) put64"

definition number_to_string :: "(nat \<Rightarrow> 'a exec) \<Rightarrow> ('a \<Rightarrow> byte_t list) \<Rightarrow> nat \<Rightarrow> unit exec" where
  "number_to_string getter render buffer_size = ebind (reg r_src) (\<lambda>s.
     ebind (reg r_dest) (\<lambda>d.
     ebind (getter s) (\<lambda>v.
     eseq (vm_assert (length (render v) \<le> buffer_size) ''len <= buffer.size()'') (
     ebind (new_string_utf8 (render v)) (\<lambda>p.
     ebind (at_alloc d) (\<lambda>old.
     eseq (dec_ref_count_and_free old) (
     set_pt_ref d p)))))))"

definition cvtwc :: "unit exec" where
  "cvtwc = number_to_string get32 (\<lambda>w. c_decimal (sint w)) 12"
definition cvtlc :: "unit exec" where
  "cvtlc = number_to_string get64 (\<lambda>w. c_decimal (sint w)) 21"
definition cvtfc :: "env \<Rightarrow> unit exec" where
  "cvtfc E = number_to_string get64 (f_print E) 25"

section \<open>Strings\<close>

definition lenc :: "unit exec" where
  "lenc = ebind (reg r_src) (\<lambda>s.
     ebind (reg r_dest) (\<lambda>d.
     ebind (at_string s) (\<lambda>(_, string).
     put32 d (case string of None \<Rightarrow> 0 | Some v \<Rightarrow> word_of_int (get_length v)))))"

definition indc :: "unit exec" where
  "indc = ebind (reg r_src) (\<lambda>s.
     ebind (reg r_mid) (\<lambda>m.
     ebind (reg r_dest) (\<lambda>d.
     ebind (at_string s) (\<lambda>(_, string).
     case string of None \<Rightarrow> throw (DereferenceNil ''Index string'')
     | Some v \<Rightarrow> (ebind (get32 m) (\<lambda>index.
       ebind (lift_res (get_rune v (sint index))) (\<lambda>rune.
       put32 d rune)))))))"

definition insc :: "unit exec" where
  "insc = ebind (reg r_src) (\<lambda>s.
     ebind (reg r_mid) (\<lambda>m.
     ebind (reg r_dest) (\<lambda>d.
     ebind (get32 s) (\<lambda>rune.
     ebind (get32 m) (\<lambda>index.
     ebind (at_string d) (\<lambda>(old_str, string).
     ebind (case string of None \<Rightarrow> new_string empty_string
       | Some v \<Rightarrow> if 1 < str_ref_count v then new_string_res (string_slice v 0 (get_length v)) else eret old_str) (\<lambda>p.
     ebind (ebind (obj_at p) (\<lambda>ob. string_of (Some (p, ob)))) (\<lambda>v.
     eseq (case v of None \<Rightarrow> eret ()
       | Some v \<Rightarrow> ebind (lift_res (set_rune v (sint index) rune)) (put_string p)) (
     when_do (p \<noteq> old_str) (eseq (set_pt_ref d p) (dec_ref_count_and_free old_str)))))))))))"

definition concat_string :: "nat \<Rightarrow> vm_string option \<Rightarrow> vm_string option \<Rightarrow> bool \<Rightarrow> ('z, nat) heff" where
  "concat_string p1 s1 s2 try_append_to_s1 = (case s1 of
     None \<Rightarrow> (case s2 of None \<Rightarrow> new_string empty_string
       | Some v2 \<Rightarrow> new_string_res (string_slice v2 0 (get_length v2)))
   | Some v1 \<Rightarrow>
       let try_append = (try_append_to_s1 \<and> \<not> 1 < str_ref_count v1) in
       (case s2 of
          None \<Rightarrow> if try_append then eret 0 else new_string_res (string_slice v1 0 (get_length v1))
        | Some v2 \<Rightarrow>
            if \<not> try_append then new_string_res (string_concat v1 v2)
            else (ebind (lift_res (append_string v1 v2)) (\<lambda>v.
     eseq (put_string p1 v) (
     eret 0)))))"

definition addc :: "unit exec" where
  "addc = ebind (reg r_src) (\<lambda>s.
     ebind (reg r_mid) (\<lambda>m.
     ebind (reg r_dest) (\<lambda>d.
     ebind (at_string m) (\<lambda>(p1, s1).
     ebind (at_string s) (\<lambda>(_, s2).
     ebind (concat_string p1 s1 s2 (m = d)) (\<lambda>new_str_maybe.
     when_do (new_str_maybe \<noteq> 0) (ebind (at_alloc d) (\<lambda>dest_maybe.
       eseq (dec_ref_count_and_free dest_maybe) (
       set_pt_ref d new_str_maybe)))))))))"

definition slicec :: "unit exec" where
  "slicec = ebind (reg r_src) (\<lambda>s.
     ebind (reg r_mid) (\<lambda>m.
     ebind (reg r_dest) (\<lambda>d.
     ebind (get32 s) (\<lambda>start.
     ebind (get32 m) (\<lambda>finish.
     ebind (at_string d) (\<lambda>(p, string).
     eseq (case string of
        Some v \<Rightarrow> (ebind (new_string_res (string_slice v (sint start) (sint finish))) (\<lambda>q.
       set_pt_ref d q))
      | None \<Rightarrow> if start = 0 \<and> finish = 0 then set_pt_ref d 0 else throw (DereferenceNil ''Slice a nil string'')) (
     dec_ref_count_and_free p)))))))"

end
