(* ===== verification/ExecHeap.thy ===== *)
theory ExecHeap
  imports ExecString
begin

text \<open>
  The instructions of \<^verbatim>\<open>src/src/vm/execution_table.cpp\<close> on pointers, arrays and lists, and the
  creation of objects. An instruction that creates an object with pointers hands it to the
  collector.
\<close>

section \<open>Pointers\<close>

definition movp :: "unit exec" where
  "movp = ebind (reg r_src) (\<lambda>s.
     ebind (reg r_dest) (\<lambda>d.
     mov_pointer d s))"

definition move_alloc :: "nat \<Rightarrow> nat \<Rightarrow> ('z, unit) heff" where
  "move_alloc dest alloc = ebind (at_alloc dest) (\<lambda>alloc_prev.
     eseq (when_do (alloc \<noteq> 0) (add_ref alloc)) (
     eseq (set_pt_ref dest alloc) (
     dec_ref_count_and_free alloc_prev)))"

definition movmp :: "unit exec" where
  "movmp = ebind (reg r_src) (\<lambda>s.
     ebind (reg r_mid) (\<lambda>m.
     ebind (reg r_dest) (\<lambda>d.
     ebind (get32 m) (\<lambda>type_id.
     ebind current_module (\<lambda>md.
     ebind (type_at md type_id) (\<lambda>td.
     eseq (inc_ref_count_in_memory td s) (
     eseq (destroy_memory td d) (
     eseq (vm_assert (s \<noteq> 0 \<and> d \<noteq> 0) ''r.src != nullptr && r.dest != nullptr'') (
     ebind (load (size_as_size_t td) s) (\<lambda>bs.
     store d bs))))))))))"

section \<open>Arrays\<close>

definition lena :: "unit exec" where
  "lena = ebind (reg r_src) (\<lambda>s.
     ebind (reg r_dest) (\<lambda>d.
     ebind (at_array s) (\<lambda>arr.
     put32 d (case arr of None \<Rightarrow> 0 | Some (_, arr) \<Rightarrow> word_of_int (arr_length arr)))))"

definition slicea :: "unit exec" where
  "slicea = ebind (reg r_src) (\<lambda>s.
     ebind (reg r_mid) (\<lambda>m.
     ebind (reg r_dest) (\<lambda>d.
     ebind (get32 s) (\<lambda>begin_index.
     ebind (get32 m) (\<lambda>end_index.
     let len = end_index - begin_index in
     ebind (at_array d) (\<lambda>arr.
     case arr of
       None \<Rightarrow> if len = 0 then eret () else throw (UserException ''Slice of empty array is invalid'')
     | Some (p, arr) \<Rightarrow> (eseq (check (\<not> (sint begin_index < 0 \<or> arr_length arr < sint end_index \<or> sint len < 0)) OutOfRangeMemory) (
       ebind (slice_array p arr begin_index len) (\<lambda>new_arr.
       ebind (obj_at p) (\<lambda>ob.
       eseq (when_do (0 < map_in_bytes (ob_type ob)) (track_allocation new_arr)) (
       set_pt_ref d new_arr)))))))))))"

definition slicela :: "unit exec" where
  "slicela = ebind (reg r_src) (\<lambda>s.
     ebind (reg r_mid) (\<lambda>m.
     ebind (reg r_dest) (\<lambda>d.
     ebind (at_array s) (\<lambda>src_arr.
     case src_arr of None \<Rightarrow> eret ()
     | Some (_, src_arr) \<Rightarrow> (ebind (at_array d) (\<lambda>dest_arr.
       case dest_arr of None \<Rightarrow> throw (DereferenceNil ''Slice assignment'')
         | Some (_, dest_arr) \<Rightarrow> (ebind (get32 m) (\<lambda>begin_index.
         copy_from dest_arr src_arr begin_index))))))))"

definition index_in :: "unit exec" where
  "index_in = ebind (reg r_src) (\<lambda>s.
     ebind (reg r_mid) (\<lambda>m.
     ebind (reg r_dest) (\<lambda>d.
     ebind (at_array s) (\<lambda>arr.
     case arr of None \<Rightarrow> throw (DereferenceNil ''Indexing into array'')
     | Some (_, arr) \<Rightarrow> (ebind (get32 d) (\<lambda>index.
       eseq (check (\<not> (sint index < 0 \<or> arr_length arr \<le> sint index)) (IndexOutOfRange 0 (arr_length arr) (sint index))) (
       ebind (lift_res (array_at arr (sint index))) (\<lambda>a.
       set_pt_ref m a))))))))"

definition indb :: "unit exec" where "indb = index_in"
definition indw :: "unit exec" where "indw = index_in"
definition indf :: "unit exec" where "indf = index_in"
definition indl :: "unit exec" where "indl = index_in"
definition indx :: "unit exec" where "indx = index_in"

section \<open>Lists\<close>

definition at_list :: "nat \<Rightarrow> ('z, (nat \<times> obj \<times> vm_list) option) heff" where
  "at_list a = ebind (at_val td_list a) (\<lambda>v.
     case v of None \<Rightarrow> eret None
     | Some (p, ob) \<Rightarrow> (case ob_data ob of ListObj l \<Rightarrow> eret (Some (p, ob, l)) | _ \<Rightarrow> throw (Undefined ''not a list'')))"

definition lenl :: "unit exec" where
  "lenl = ebind (reg r_src) (\<lambda>s.
     ebind (reg r_dest) (\<lambda>d.
     ebind (at_list s) (\<lambda>l.
     ebind (case l of None \<Rightarrow> eret 0
       | Some (_, ob, l) \<Rightarrow> (eseq (vm_assert (ob_type ob = td_list) ''list->alloc_type == vm_list_t::type_desc()'') (
       list_get_length l))) (\<lambda>len.
     put32 d len))))"

definition cons_value :: "type_desc \<Rightarrow> nat \<Rightarrow> unit exec" where
  "cons_value td n = ebind (reg r_src) (\<lambda>s.
     ebind (reg r_dest) (\<lambda>d.
     ebind (at_list d) (\<lambda>tail_maybe.
     let tail_p = (case tail_maybe of None \<Rightarrow> 0 | Some (p, _) \<Rightarrow> p) in
     ebind (new_list td tail_p) (\<lambda>(p, l).
     eseq (when_do (tail_p \<noteq> 0) (ebind (release tail_p) (\<lambda>_. eret ()))) (
     ebind (vt_load n s) (\<lambda>value.
     eseq (vt_store (ls_value l) value) (
     set_pt_ref d p)))))))"

definition consb :: "unit exec" where "consb = cons_value td_byte 1"
definition consw :: "unit exec" where "consw = cons_value td_word 4"
definition consf :: "unit exec" where "consf = cons_value td_real 8"
definition consl :: "unit exec" where "consl = cons_value td_big 8"

definition consp :: "unit exec" where
  "consp = ebind (reg r_src) (\<lambda>s.
     ebind (reg r_dest) (\<lambda>d.
     ebind (at_list d) (\<lambda>tail_maybe.
     let tail_p = (case tail_maybe of None \<Rightarrow> 0 | Some (p, _) \<Rightarrow> p) in
     ebind (new_list td_pointer tail_p) (\<lambda>(p, l).
     eseq (when_do (tail_p \<noteq> 0) (ebind (release tail_p) (\<lambda>_. eret ()))) (
     ebind (at_alloc s) (\<lambda>alloc.
     eseq (if alloc \<noteq> 0 then (eseq (add_ref alloc) (
       eseq (set_pt_ref (ls_value l) alloc) (
       track_allocation p)))
      else set_pt_ref (ls_value l) 0) (
     set_pt_ref d p)))))))"

definition consmp :: "unit exec" where
  "consmp = ebind (reg r_src) (\<lambda>s.
     ebind (reg r_mid) (\<lambda>m.
     ebind (reg r_dest) (\<lambda>d.
     ebind (get32 m) (\<lambda>type_id.
     ebind current_module (\<lambda>md.
     ebind (type_at md type_id) (\<lambda>td.
     eseq (inc_ref_count_in_memory td s) (
     ebind (at_list d) (\<lambda>tail_maybe.
     let tail_p = (case tail_maybe of None \<Rightarrow> 0 | Some (p, _) \<Rightarrow> p) in
     ebind (new_list td tail_p) (\<lambda>(p, l).
     eseq (when_do (tail_p \<noteq> 0) (ebind (release tail_p) (\<lambda>_. eret ()))) (
     ebind (load (size_as_size_t td) s) (\<lambda>bs.
     eseq (store (ls_value l) bs) (
     eseq (when_do (0 < td_size td) (track_allocation p)) (
     set_pt_ref d p)))))))))))))"

definition head_value :: "type_desc \<Rightarrow> nat \<Rightarrow> unit exec" where
  "head_value td n = ebind (reg r_src) (\<lambda>s.
     ebind (reg r_dest) (\<lambda>d.
     ebind (at_list s) (\<lambda>l.
     case l of None \<Rightarrow> throw (DereferenceNil ''Head of list'')
     | Some (_, _, l) \<Rightarrow> (eseq (vm_assert (ls_element_type l = td) ''head->get_element_type()'') (
       ebind (vt_load n (ls_value l)) (\<lambda>value.
       vt_store d value))))))"

definition headb :: "unit exec" where "headb = head_value td_byte 1"
definition headw :: "unit exec" where "headw = head_value td_word 4"
definition headf :: "unit exec" where "headf = head_value td_real 8"
definition headl :: "unit exec" where "headl = head_value td_big 8"

definition headp :: "unit exec" where
  "headp = ebind (reg r_src) (\<lambda>s.
     ebind (at_list s) (\<lambda>l.
     case l of None \<Rightarrow> throw (DereferenceNil ''Head of list'')
     | Some (_, _, l) \<Rightarrow> (eseq (set_reg (\<lambda>r. r\<lparr> r_src := ls_value l \<rparr>)) (
       movp))))"

definition headmp :: "unit exec" where
  "headmp = ebind (reg r_src) (\<lambda>s.
     ebind (at_list s) (\<lambda>l.
     case l of None \<Rightarrow> throw (DereferenceNil ''Head of list'')
     | Some (_, _, l) \<Rightarrow> (eseq (set_reg (\<lambda>r. r\<lparr> r_src := ls_value l \<rparr>)) (
       movmp))))"

definition tail_op :: "unit exec" where
  "tail_op = ebind (reg r_src) (\<lambda>s.
     ebind (reg r_dest) (\<lambda>d.
     ebind (at_list s) (\<lambda>l.
     case l of None \<Rightarrow> throw (DereferenceNil ''Tail of list'')
     | Some (_, ob, l) \<Rightarrow> (eseq (vm_assert (ob_type ob = td_list) ''list->alloc_type == vm_list_t::type_desc()'') (
       move_alloc d (ls_tail l))))))"

section \<open>Creation of objects\<close>

definition create_tracked :: "type_desc \<Rightarrow> unit exec" where
  "create_tracked td = ebind (reg r_dest) (\<lambda>d.
     ebind (at_alloc d) (\<lambda>old.
     eseq (dec_ref_count_and_free old) (
     ebind (allocate td) (\<lambda>new_alloc.
     eseq (when_do (0 < map_in_bytes td) (track_allocation new_alloc)) (
     set_pt_ref d new_alloc)))))"

definition new_instance :: "unit exec" where
  "new_instance = ebind (reg r_src) (\<lambda>s.
     ebind (get32 s) (\<lambda>type_id.
     ebind current_module (\<lambda>md.
     ebind (type_at md type_id) (\<lambda>td.
     create_tracked td))))"

definition new_op :: "unit exec" where "new_op = new_instance"
definition newz :: "unit exec" where "newz = new_instance"

definition at_module_ref :: "nat \<Rightarrow> ('z, (nat \<times> module_ref) option) heff" where
  "at_module_ref a = ebind (at_val td_module_ref a) (\<lambda>v.
     case v of None \<Rightarrow> eret None
     | Some (p, ob) \<Rightarrow> (case ob_data ob of ModuleRefObj mr \<Rightarrow> eret (Some (p, mr))
         | _ \<Rightarrow> throw (Undefined ''not a module reference'')))"

definition mnewz :: "unit exec" where
  "mnewz = ebind (reg r_src) (\<lambda>s.
     ebind (reg r_mid) (\<lambda>m.
     ebind (at_module_ref s) (\<lambda>target_module.
     case target_module of None \<Rightarrow> throw (UserException ''Module not loaded'')
     | Some (_, mr) \<Rightarrow> (ebind (get32 m) (\<lambda>type_id.
       ebind (module_at (mr_module mr)) (\<lambda>md.
       ebind (type_at md type_id) (\<lambda>td.
       create_tracked td)))))))"

definition new_array_op :: "unit exec" where
  "new_array_op = ebind (reg r_src) (\<lambda>s.
     ebind (reg r_mid) (\<lambda>m.
     ebind (reg r_dest) (\<lambda>d.
     ebind (get32 m) (\<lambda>type_id.
     ebind current_module (\<lambda>md.
     ebind (type_at md type_id) (\<lambda>td.
     ebind (at_alloc d) (\<lambda>old.
     eseq (dec_ref_count_and_free old) (
     ebind (get32 s) (\<lambda>array_size.
     ebind (new_array td array_size) (\<lambda>p.
     eseq (when_do (0 < map_in_bytes td) (track_allocation p)) (
     set_pt_ref d p)))))))))))"

definition newa :: "unit exec" where "newa = new_array_op"
definition newaz :: "unit exec" where "newaz = new_array_op"

definition tcmp :: "unit exec" where
  "tcmp = ebind (reg r_src) (\<lambda>sreg.
     ebind (reg r_dest) (\<lambda>dreg.
     ebind (at_alloc sreg) (\<lambda>s.
     ebind (at_alloc dreg) (\<lambda>d.
     if s = 0 then eret ()
     else if d = 0 then throw TypeViolation
     else (ebind (obj_at s) (\<lambda>s_ob.
       ebind (obj_at d) (\<lambda>d_ob.
       check (type_is_equal (ob_type s_ob) (Some (ob_type d_ob))) TypeViolation)))))))"

end
