(* ===== verification/ExecChannel.thy ===== *)
theory ExecChannel
  imports ExecHeap
begin

text \<open>
  The instructions of \<^verbatim>\<open>src/src/vm/execution_table.cpp\<close> on channels. The callback a request
  carries is determined by the state its thread is blocked in: a thread blocked in a send or a
  receive is made runnable; one blocked in an alternation first withdraws its other requests
  and is told the index of the channel that served it. The random order in which an
  alternation tries its channels is \<open>e_shuffle\<close>.
\<close>

section \<open>Creation\<close>

definition new_channel :: "type_desc \<Rightarrow> transfer_kind \<Rightarrow> word_t \<Rightarrow> ('z, nat) heff" where
  "new_channel td k buffer_len = (let ch = \<lparr> ch_buffer = None, ch_head = 0, ch_count = 0, ch_type = td,
       ch_senders = [], ch_receivers = [] \<rparr> in (ebind (new_object 0 0 td_channel (\<lambda>_. ChannelObj k ch)) (\<lambda>p.
     eseq (construct p (eseq (check (\<not> sint buffer_len < 0) OutOfRangeMemory) (
       when_do (0 < sint buffer_len) (ebind (new_array td buffer_len) (\<lambda>q.
         ebind (obj_at q) (\<lambda>aob.
         ebind (obj_at p) (\<lambda>ob.
         case ob_data aob of
           ArrayObj arr \<Rightarrow> set_obj p (ob\<lparr> ob_data := ChannelObj k (ch\<lparr> ch_buffer := Some (q, arr) \<rparr>) \<rparr>)
         | _ \<Rightarrow> throw (Undefined ''not an array'')))))))) (
     eret p))))"

definition newc :: "type_desc \<Rightarrow> transfer_kind \<Rightarrow> unit exec" where
  "newc td k = ebind (reg r_mid) (\<lambda>m.
     ebind (reg r_dest) (\<lambda>d.
     ebind (if m \<noteq> d then (ebind (get32 m) (\<lambda>n.
       eseq (check (\<not> sint n < 0) OutOfRangeMemory) (
       eret n)))
       else eret 0) (\<lambda>buffer_len.
     ebind (at_alloc d) (\<lambda>old.
     eseq (dec_ref_count_and_free old) (
     ebind (new_channel td k buffer_len) (\<lambda>p.
     eseq (when_do (0 < map_in_bytes td) (track_allocation p)) (
     set_pt_ref d p)))))))"

definition newcb :: "unit exec" where "newcb = newc td_byte MovByte"
definition newcw :: "unit exec" where "newcw = newc td_word MovWord"
definition newcf :: "unit exec" where "newcf = newc td_real MovReal"
definition newcl :: "unit exec" where "newcl = newc td_big MovBig"
definition newcp :: "unit exec" where "newcp = newc td_pointer MovPointer"

definition newcm :: "unit exec" where
  "newcm = ebind (reg r_src) (\<lambda>s.
     ebind (get32 s) (\<lambda>memory_size.
     ebind (lift_res (type_create (sint memory_size) [])) (\<lambda>td.
     newc td ChannelMovm)))"

definition newcmp :: "unit exec" where
  "newcmp = ebind (reg r_src) (\<lambda>s.
     ebind (get32 s) (\<lambda>type_id.
     ebind current_module (\<lambda>md.
     ebind (type_at md type_id) (\<lambda>td.
     newc td ChannelMovmp))))"

section \<open>Requests\<close>

definition channel_at :: "nat \<Rightarrow> ('z, transfer_kind \<times> channel) heff" where
  "channel_at p = ebind (obj_at p) (\<lambda>ob.
     case ob_data ob of ChannelObj k ch \<Rightarrow> eret (k, ch) | _ \<Rightarrow> throw (Undefined ''not a channel''))"

definition put_channel :: "nat \<Rightarrow> transfer_kind \<Rightarrow> channel \<Rightarrow> ('z, unit) heff" where
  "put_channel p k ch = ebind (obj_at p) (\<lambda>ob.
     set_obj p (ob\<lparr> ob_data := ChannelObj k ch \<rparr>))"

definition at_channel :: "nat \<Rightarrow> ('z, nat) heff" where
  "at_channel a = ebind (at_val td_channel a) (\<lambda>v.
     eret (case v of None \<Rightarrow> 0 | Some (p, _) \<Rightarrow> p))"

definition channel_request ::
    "(cpu transfer \<Rightarrow> channel \<Rightarrow> request \<Rightarrow> pending \<Rightarrow> cpu \<Rightarrow> cpu channel_result res) \<Rightarrow> nat \<Rightarrow> request \<Rightarrow> (bool \<times> request option) exec" where
  "channel_request op p rq = ebind (channel_at p) (\<lambda>(k, ch).
     ebind (\<lambda>c. case op (run_transfer k) ch rq (w_pending c) c of
         Inl e \<Rightarrow> (Inl e, c)
       | Inr res \<Rightarrow> (Inr res, (cr_state res)\<lparr> w_pending := cr_pending res \<rparr>)) (\<lambda>res.
     eseq (put_channel p k (cr_channel res)) (
     eret (cr_handled res, cr_callback res))))"

definition cancel_channel_request :: "nat \<Rightarrow> nat \<Rightarrow> ('z, unit) heff" where
  "cancel_channel_request p thread_id = ebind (channel_at p) (\<lambda>(k, ch).
     put_channel p k (cancel_request ch thread_id))"

definition alt_send_count :: "nat \<Rightarrow> ('z, word_t) heff" where "alt_send_count alt = get32 alt"
definition alt_receive_count :: "nat \<Rightarrow> ('z, word_t) heff" where "alt_receive_count alt = get32 (alt + 4)"
definition alt_channel_alloc :: "nat \<Rightarrow> nat \<Rightarrow> nat" where "alt_channel_alloc alt i = alt + 8 + 8 * i"
definition alt_channel_data :: "nat \<Rightarrow> nat \<Rightarrow> nat" where "alt_channel_data alt i = alt + 12 + 8 * i"

primrec cancel_outstanding_loop :: "nat \<Rightarrow> nat \<Rightarrow> nat \<Rightarrow> nat list \<Rightarrow> int \<Rightarrow> ('z, int) heff" where
  "cancel_outstanding_loop thread_id alt handled [] handled_index = eret handled_index"
| "cancel_outstanding_loop thread_id alt handled (i # is) handled_index = ebind (pt_ref (alt_channel_alloc alt i)) (\<lambda>ch_pointer.
     if ch_pointer = handled then (eseq (vm_assert (handled_index = -1) ''Index should only be set once'') (
       cancel_outstanding_loop thread_id alt handled is (int i)))
     else (eseq (check (ch_pointer \<noteq> 0) (Undefined ''null channel'')) (
       eseq (cancel_channel_request ch_pointer thread_id) (
       cancel_outstanding_loop thread_id alt handled is handled_index))))"

definition cancel_outstanding_channel_requests :: "nat \<Rightarrow> nat \<Rightarrow> nat \<Rightarrow> ('z, word_t) heff" where
  "cancel_outstanding_channel_requests thread_id alt handled = ebind (alt_send_count alt) (\<lambda>sends.
     ebind (alt_receive_count alt) (\<lambda>receives.
     ebind (cancel_outstanding_loop thread_id alt handled [0..<nat (sint (sends + receives))] (-1)) (\<lambda>handled_index.
     eseq (vm_assert (handled_index \<noteq> -1) ''Index should be set'') (
     eret (word_of_int handled_index)))))"

definition request_handled :: "nat \<Rightarrow> request option \<Rightarrow> unit exec" where
  "request_handled handled_channel callback = (case callback of None \<Rightarrow> eret ()
     | Some rq \<Rightarrow> (ebind (gets w_threads) (\<lambda>threads.
     case map_of threads (rq_thread rq) of None \<Rightarrow> throw (Undefined ''thread is gone'')
         | Some r \<Rightarrow> (eseq (when_do (r_state r = BlockedInAlt) (ebind (cancel_outstanding_channel_requests (rq_thread rq) (r_src r) handled_channel) (\<lambda>handled_index.
         put32 (r_dest r) handled_index))) (
       ebind (gets w_pending) (\<lambda>pend.
       eseq (vm_assert (\<not> pend (rq_mutex rq) \<and> r_state r \<in> {BlockedSending, BlockedReceiving, BlockedInAlt})
               ''!pending_request && current_thread_state'') (
       enqueue_blocked_thread (rq_thread rq))))))))"

section \<open>Send and receive\<close>

definition begin_request :: "thread_state \<Rightarrow> nat exec" where
  "begin_request blocked = ebind (reg r_thread_id) (\<lambda>thread_id.
     ebind (gets w_pending) (\<lambda>pend.
     eseq (vm_assert (\<not> pend thread_id) ''There should be no pending request for the thread'') (
     eseq (modify (\<lambda>c. c\<lparr> w_pending := (w_pending c)(thread_id := True) \<rparr>)) (
     ebind (reg r_state) (\<lambda>st.
     eseq (vm_assert (st = Running) ''r.current_thread_state == running'') (
     eseq (set_state blocked) (
     eret thread_id)))))))"

definition send :: "unit exec" where
  "send = ebind (reg r_src) (\<lambda>s.
     ebind (reg r_dest) (\<lambda>d.
     ebind (at_channel d) (\<lambda>p.
     eseq (check (p \<noteq> 0) (DereferenceNil ''Send to channel'')) (
     ebind (begin_request BlockedSending) (\<lambda>thread_id.
     ebind (channel_request send_data p \<lparr> rq_thread = thread_id, rq_data = s, rq_mutex = thread_id \<rparr>) (\<lambda>(handled, callback).
     eseq (request_handled p callback) (
     when_do handled (set_state Running))))))))"

definition recv :: "unit exec" where
  "recv = ebind (reg r_src) (\<lambda>s.
     ebind (reg r_dest) (\<lambda>d.
     ebind (at_channel s) (\<lambda>p.
     eseq (check (p \<noteq> 0) (DereferenceNil ''Receive from channel'')) (
     ebind (begin_request BlockedReceiving) (\<lambda>thread_id.
     ebind (channel_request receive_data p \<lparr> rq_thread = thread_id, rq_data = d, rq_mutex = thread_id \<rparr>) (\<lambda>(handled, callback).
     eseq (request_handled p callback) (
     when_do handled (set_state Running))))))))"

section \<open>Alternation\<close>

primrec alt_loop :: "nat \<Rightarrow> nat \<Rightarrow> int \<Rightarrow> nat list \<Rightarrow> nat \<Rightarrow> bool exec" where
  "alt_loop thread_id alt send_count [] requests_queued = eret False"
| "alt_loop thread_id alt send_count (rnd_idx # rest) requests_queued = ebind (pt_ref (alt_channel_alloc alt rnd_idx)) (\<lambda>p.
     eseq (check (p \<noteq> 0) (DereferenceNil ''Alt channel'')) (
     ebind (at_channel (alt_channel_alloc alt rnd_idx)) (\<lambda>ch.
     ebind (pt_ref (alt_channel_data alt rnd_idx)) (\<lambda>data_p.
     let rq = \<lparr> rq_thread = thread_id, rq_data = data_p, rq_mutex = thread_id \<rparr> in
     ebind (if int rnd_idx < send_count then channel_request send_data ch rq
                             else channel_request receive_data ch rq) (\<lambda>(handled, callback).
     eseq (request_handled ch callback) (
     if handled then (eseq (when_do (0 < requests_queued) (ebind (cancel_outstanding_channel_requests thread_id alt ch) (\<lambda>handled_index.
         vm_assert (handled_index = of_nat rnd_idx) ''handled_index == rnd_idx''))) (
       ebind (reg r_dest) (\<lambda>d.
       eseq (put32 d (of_nat rnd_idx)) (
       eseq (set_state Running) (
       eret True)))))
     else alt_loop thread_id alt send_count rest (Suc requests_queued)))))))"

definition exec_alt :: "env \<Rightarrow> bool \<Rightarrow> unit exec" where
  "exec_alt E blocking = ebind (reg r_src) (\<lambda>alt.
     eseq (vm_assert (alt \<noteq> 0) ''alt != nullptr'') (
     ebind (begin_request BlockedInAlt) (\<lambda>thread_id.
     ebind (alt_send_count alt) (\<lambda>sends.
     ebind (alt_receive_count alt) (\<lambda>receives.
     let channel_count = sint (sends + receives) in
     eseq (vm_assert (0 < channel_count) ''channel_count > 0'') (
     ebind (gets w_random) (\<lambda>rnd.
     eseq (modify (\<lambda>c. c\<lparr> w_random := rnd + 1 \<rparr>)) (
     ebind (alt_loop thread_id alt (sint sends) (e_shuffle E rnd (nat channel_count)) 0) (\<lambda>handled.
     ebind (gets w_pending) (\<lambda>pend.
     when_do (\<not> handled \<and> \<not> blocking \<and> pend thread_id) (eseq (modify (\<lambda>c. c\<lparr> w_pending := (w_pending c)(thread_id := False) \<rparr>)) (
       eseq (for_each (\<lambda>i. (ebind (pt_ref (alt_channel_alloc alt i)) (\<lambda>ch_pointer.
         eseq (check (ch_pointer \<noteq> 0) (Undefined ''null channel'')) (
         cancel_channel_request ch_pointer thread_id)))) [0..<nat channel_count]) (
       ebind (reg r_dest) (\<lambda>d.
       eseq (put32 d (word_of_int channel_count)) (
       set_state Running)))))))))))))))"

definition alt_op :: "env \<Rightarrow> unit exec" where "alt_op E = exec_alt E True"
definition nbalt :: "env \<Rightarrow> unit exec" where "nbalt E = exec_alt E False"

end
