(* ===== verification/ModuleRef.thy ===== *)
theory ModuleRef
  imports ExecBranch
begin

text \<open>
  \<^verbatim>\<open>src/src/vm/module_ref.cpp\<close>: references to loaded modules. A reference owns a copy of the
  module's data, and one made for an importing module resolves each imported function to the
  exported function with the same signature and name.
\<close>

section \<open>Import resolution\<close>

fun find_export :: "vm_string option \<Rightarrow> export_function list \<Rightarrow> export_function option res" where
  "find_export name [] = Inr None"
| "find_export name (e # es) =
     rbind (compare_strings False (ex_name e) name) (\<lambda>c. if c = 0 then Inr (Some e) else find_export name es)"

definition exports_with_sig :: "(word_t \<times> export_function) list \<Rightarrow> word_t \<Rightarrow> export_function list" where
  "exports_with_sig exports sig = map snd (filter (\<lambda>(k, _). k = sig) exports)"

definition resolve_import :: "(word_t \<times> export_function) list \<Rightarrow> import_function \<Rightarrow> (word_t \<times> word_t) res" where
  "resolve_import exports im =
     (if exports_with_sig exports (im_sig im) = []
      then Inl (UserException ''Module does not export a function with expected signature'')
      else rbind (find_export (im_name im) (exports_with_sig exports (im_sig im))) (\<lambda>m.
        case m of None \<Rightarrow> Inl (UserException ''Type check failure for exported function'')
        | Some e \<Rightarrow> Inr (ex_pc e, ex_frame_type e)))"

fun resolve_imports :: "(word_t \<times> export_function) list \<Rightarrow> import_function list \<Rightarrow> (word_t \<times> word_t) list res" where
  "resolve_imports exports [] = Inr []"
| "resolve_imports exports (im # ims) =
     rbind (resolve_import exports im) (\<lambda>r. rbind (resolve_imports exports ims) (\<lambda>rs. Inr (r # rs)))"

section \<open>References\<close>

definition new_module_ref_with :: "nat \<Rightarrow> (word_t \<times> word_t) list option \<Rightarrow> ('z, nat) heff" where
  "new_module_ref_with m refs = ebind (module_at m) (\<lambda>md.
     let mr = \<lparr> mr_module = m, mr_mp_base = 0, mr_builtin = has_flag (hd_runtime_flag (m_header md)) builtin_flag,
         mr_function_refs = refs \<rparr> in
     ebind (new_object 0 0 td_module_ref (\<lambda>_. ModuleRefObj mr)) (\<lambda>p.
     eseq (when_do (m_original_mp md \<noteq> 0) (construct p (ebind (copy_alloc (m_original_mp md)) (\<lambda>mp.
       ebind (obj_at p) (\<lambda>ob.
       set_obj p (ob\<lparr> ob_data := ModuleRefObj (mr\<lparr> mr_mp_base := mp \<rparr>) \<rparr>)))))) (
     eret p)))"

definition new_module_ref :: "nat \<Rightarrow> ('z, nat) heff" where
  "new_module_ref m = new_module_ref_with m None"

definition new_import_ref :: "nat \<Rightarrow> import_function list \<Rightarrow> ('z, nat) heff" where
  "new_import_ref m ims = ebind (module_at m) (\<lambda>md.
     ebind (lift_res (resolve_imports (m_export_section md) ims)) (\<lambda>refs.
     eseq (vm_assert (hd_data_size (m_header md) = 0 \<or> m_original_mp md \<noteq> 0) ''module->original_mp != nullptr'') (
     new_module_ref_with m (Some refs))))"

definition get_function_ref :: "module_ref \<Rightarrow> word_t \<Rightarrow> (word_t \<times> word_t) res" where
  "get_function_ref mr index = (case mr_function_refs mr of
     None \<Rightarrow> Inl (AssertFailed ''_function_refs != nullptr'')
   | Some refs \<Rightarrow>
       if sint index < 0 \<or> int (length refs) \<le> sint index
       then Inl (SystemException ''Invalid function reference index into module reference functions'')
       else Inr (refs ! unat index))"

section \<open>What resolution gives\<close>

definition same_name :: "vm_string option \<Rightarrow> vm_string option \<Rightarrow> bool" where
  "same_name a b = (compare_strings False a b = Inr 0)"

lemma find_export_Some:
  "find_export name es = Inr (Some e) \<Longrightarrow> e \<in> set es \<and> same_name (ex_name e) name"
  by (induction es) (auto simp: same_name_def rbind_eq_Inr split: if_splits)

lemma find_export_None:
  "find_export name es = Inr None \<Longrightarrow> e \<in> set es \<Longrightarrow> \<not> same_name (ex_name e) name"
  by (induction es) (auto simp: same_name_def rbind_eq_Inr split: if_splits)

lemma resolve_import_Inr:
  "resolve_import exports im = Inr r \<Longrightarrow>
     \<exists>e. (im_sig im, e) \<in> set exports \<and> same_name (ex_name e) (im_name im) \<and> r = (ex_pc e, ex_frame_type e)"
proof -
  assume "resolve_import exports im = Inr r"
  then obtain e where "find_export (im_name im) (exports_with_sig exports (im_sig im)) = Inr (Some e)"
      and r: "r = (ex_pc e, ex_frame_type e)"
    by (auto simp: resolve_import_def rbind_eq_Inr split: if_splits option.splits)
  from find_export_Some [OF this(1)] have "(im_sig im, e) \<in> set exports" "same_name (ex_name e) (im_name im)"
    by (auto simp: exports_with_sig_def)
  with r show ?thesis by blast
qed

text \<open>linking is sound. When resolution succeeds there is one entry per import, in order,
  and each is the program counter and frame type of an exported function whose signature is
  the import's and whose name compares equal to it; an import whose signature no export has
  makes it fail with the signature error.\<close>

theorem resolve_imports_sound:
  "(resolve_imports exports ims = Inr refs \<longrightarrow>
     list_all2 (\<lambda>im r. \<exists>e. (im_sig im, e) \<in> set exports \<and> same_name (ex_name e) (im_name im) \<and>
       r = (ex_pc e, ex_frame_type e)) ims refs) \<and>
   (ims \<noteq> [] \<and> im_sig (hd ims) \<notin> fst ` set exports \<longrightarrow>
     resolve_imports exports ims = Inl (UserException ''Module does not export a function with expected signature''))"
proof (intro conjI impI)
  show "resolve_imports exports ims = Inr refs \<Longrightarrow>
     list_all2 (\<lambda>im r. \<exists>e. (im_sig im, e) \<in> set exports \<and> same_name (ex_name e) (im_name im) \<and>
       r = (ex_pc e, ex_frame_type e)) ims refs"
    by (induction ims arbitrary: refs) (auto simp: rbind_eq_Inr dest: resolve_import_Inr)
  assume "ims \<noteq> [] \<and> im_sig (hd ims) \<notin> fst ` set exports"
  then show "resolve_imports exports ims = Inl (UserException ''Module does not export a function with expected signature'')"
    by (cases ims) (auto simp: resolve_import_def exports_with_sig_def filter_empty_conv rev_image_eqI)
qed

definition demo_export :: export_function where
  "demo_export = \<lparr> ex_pc = 3, ex_frame_type = 1, ex_sig = 7, ex_name = None \<rparr>"

lemma resolve_imports_sound_witness:
  "resolve_imports [(7, demo_export)] [\<lparr> im_sig = 7, im_name = None \<rparr>] = Inr [(3, 1)] \<and>
   resolve_imports [(7, demo_export)] [\<lparr> im_sig = 8, im_name = None \<rparr>]
     = Inl (UserException ''Module does not export a function with expected signature'')"
proof -
  have "resolve_imports [(7, demo_export)] [\<lparr> im_sig = 7, im_name = None \<rparr>] = Inr [(3, 1)]" by code_simp
  with resolve_imports_sound [of "[(7, demo_export)]" "[\<lparr> im_sig = 7, im_name = None \<rparr>]" "[(3, 1)]"]
    resolve_imports_sound [of "[(7, demo_export)]" "[\<lparr> im_sig = 8, im_name = None \<rparr>]"]
  show ?thesis by simp
qed

end
