(* ===== verification/ExecControl.thy ===== *)
theory ExecControl
  imports ExecChannel ModuleRef
begin

text \<open>
  Calls, threads, exceptions and modules: the remaining instructions of
  \<^verbatim>\<open>src/src/vm/execution_table.cpp\<close> and the search for an exception handler of
  \<^verbatim>\<open>src/src/vm/vm_exception_handler.cpp\<close>. Loops over the frames of a stack have as fuel the
  number of frames known to the heap; running out of it is the loop over a cyclic chain.
\<close>

section \<open>Search for a handler\<close>

definition compare_to :: "vm_string \<Rightarrow> vm_string option \<Rightarrow> int res" where
  "compare_to s other = compare_strings False (Some s) other"

definition invalid_program_counter :: word_t where "invalid_program_counter = -1"

fun search_exceptions :: "vm_string \<Rightarrow> exception_entry list \<Rightarrow> word_t option res" where
  "search_exceptions exc_id [] = Inr None"
| "search_exceptions exc_id (ex # exs) =
     rbind (compare_to exc_id (ee_name ex)) (\<lambda>c.
       if c = 0 then Inr (Some (ee_pc ex))
       else if ee_name ex = None \<and> ee_pc ex \<noteq> invalid_program_counter then Inr (Some (ee_pc ex))
       else search_exceptions exc_id exs)"

fun search_handlers :: "word_t \<Rightarrow> vm_string \<Rightarrow> handler_entry list \<Rightarrow> (handler_entry \<times> word_t) option res" where
  "search_handlers pc exc_id [] = Inr None"
| "search_handlers pc exc_id (h # hs) =
     (if sint pc < sint (he_begin_pc h) \<or> sint (he_end_pc h) \<le> sint pc then search_handlers pc exc_id hs
      else rbind (search_exceptions exc_id (he_exception_table h)) (\<lambda>m.
        case m of Some target \<Rightarrow> Inr (Some (h, target)) | None \<Rightarrow> search_handlers pc exc_id hs))"

primrec find_handler_fuel ::
    "nat \<Rightarrow> nat \<Rightarrow> nat \<Rightarrow> word_t \<Rightarrow> vm_string \<Rightarrow> ('z, (handler_entry \<times> nat \<times> word_t) option) heff" where
  "find_handler_fuel 0 frame module_p pc exc_id = (if frame = 0 then eret None else throw OutOfFuel)"
| "find_handler_fuel (Suc n) frame module_p pc exc_id = (if frame = 0 then eret None else (ebind (module_of module_p) (\<lambda>md.
     ebind (lift_res (search_handlers pc exc_id (m_handler_section md))) (\<lambda>found.
     case found of Some (h, target) \<Rightarrow> eret (Some (h, frame, target))
     | None \<Rightarrow> (ebind (prev_pc frame) (\<lambda>saved.
       ebind (prev_module_ref frame) (\<lambda>prev_mod_ref.
       ebind (prev_frame frame) (\<lambda>next.
       find_handler_fuel n next (if prev_mod_ref \<noteq> 0 then prev_mod_ref else module_p) (saved - 1) exc_id))))))))"

definition find_exception_handler ::
    "vm_stack \<Rightarrow> nat \<Rightarrow> word_t \<Rightarrow> vm_string \<Rightarrow> ('z, (handler_entry \<times> nat \<times> word_t) option) heff" where
  "find_exception_handler st faulting_module faulting_pc exc_id =
     (\<lambda>h. find_handler_fuel (Suc (length (h_frame_types h))) (peek_frame st) faulting_module faulting_pc exc_id h)"

section \<open>Calls\<close>

definition frame_op :: "unit exec" where
  "frame_op = ebind (reg r_src) (\<lambda>s.
     ebind (reg r_dest) (\<lambda>d.
     ebind (get32 s) (\<lambda>frame_type_id.
     ebind current_module (\<lambda>md.
     ebind (type_at md frame_type_id) (\<lambda>td.
     ebind (on_stack (alloc_frame td)) (\<lambda>f.
     set_pt_ref d (frame_base f)))))))"

definition mframe :: "unit exec" where
  "mframe = ebind (reg r_src) (\<lambda>s.
     ebind (reg r_mid) (\<lambda>m.
     ebind (reg r_dest) (\<lambda>d.
     ebind (at_module_ref s) (\<lambda>target_module.
     case target_module of None \<Rightarrow> throw (UserException ''Module not loaded'')
     | Some (_, mr) \<Rightarrow> (ebind (get32 m) (\<lambda>function_id.
       ebind (lift_res (get_function_ref mr function_id)) (\<lambda>(_, frame_type_id).
       ebind (module_at (mr_module mr)) (\<lambda>md.
       ebind (type_at md frame_type_id) (\<lambda>td.
       ebind (on_stack (alloc_frame td)) (\<lambda>f.
       set_pt_ref d (frame_base f)))))))))))"

definition restore_module :: "nat \<Rightarrow> unit exec" where
  "restore_module frame = ebind (prev_module_ref frame) (\<lambda>prev.
     when_do (prev \<noteq> 0) (ebind (reg r_module_ref) (\<lambda>current.
       eseq (dec_ref_count_and_free current) (
       eseq (set_reg (\<lambda>r. r\<lparr> r_module_ref := prev \<rparr>)) (
       eseq (set_prev_module_ref frame 0) (
       ebind (reg r_mp_base) (\<lambda>mp.
       eseq (dec_ref_count_and_free mp) (
       ebind (module_ref_at prev) (\<lambda>mr.
       set_reg (\<lambda>r. r\<lparr> r_mp_base := mr_mp_base mr \<rparr>))))))))))"

definition ret_op :: "unit exec" where
  "ret_op = ebind (reg (\<lambda>r. peek_frame (r_stack r))) (\<lambda>current_top_frame.
     eseq (vm_assert (current_top_frame \<noteq> 0) ''current_top_frame != nullptr'') (
     ebind (prev_pc current_top_frame) (\<lambda>pc.
     eseq (set_reg (\<lambda>r. r\<lparr> r_next_pc := pc \<rparr>)) (
     eseq (restore_module current_top_frame) (
     ebind (on_stack pop_frame) (\<lambda>new_frame.
     when_do (new_frame = 0) (set_state EmptyStack)))))))"

definition validate_stack :: "nat \<Rightarrow> unit exec" where
  "validate_stack top_frame = ebind (reg r_src) (\<lambda>s.
     ebind (pt_ref s) (\<lambda>frame_base_pointer.
     eseq (vm_assert (frame_base_pointer \<noteq> 0) ''frame_base_pointer != nullptr'') (
     vm_assert (frame_base top_frame = frame_base_pointer) ''top_frame->base() == frame_base_pointer'')))"

definition call_op :: "unit exec" where
  "call_op = ebind (reg r_dest) (\<lambda>d.
     ebind (on_stack push_frame) (\<lambda>top_frame.
     ebind (reg r_next_pc) (\<lambda>next_pc.
     eseq (set_prev_pc top_frame next_pc) (
     eseq (validate_stack top_frame) (
     ebind (get32 d) (\<lambda>target.
     set_reg (\<lambda>r. r\<lparr> r_next_pc := target \<rparr>)))))))"

section \<open>Exceptions\<close>

primrec unwind_fuel :: "nat \<Rightarrow> nat \<Rightarrow> unit exec" where
  "unwind_fuel 0 target_frame = throw OutOfFuel"
| "unwind_fuel (Suc n) target_frame = ebind (reg (\<lambda>r. peek_frame (r_stack r))) (\<lambda>curr_frame.
     eseq (check (curr_frame \<noteq> 0) (Undefined ''unwound past the last frame'')) (
     eseq (restore_module curr_frame) (
     ebind (on_stack pop_frame) (\<lambda>f.
     if f = target_frame then eret () else unwind_fuel n target_frame))))"

definition unwind_to :: "nat \<Rightarrow> unit exec" where
  "unwind_to target_frame = ebind (reg (\<lambda>r. peek_frame (r_stack r))) (\<lambda>top.
     when_do (target_frame \<noteq> top) (\<lambda>c. unwind_fuel (Suc (length (h_frame_types c))) target_frame c))"

definition exception_id_of :: "nat \<Rightarrow> (nat \<times> vm_string) exec" where
  "exception_id_of e = ebind (obj_at e) (\<lambda>ob.
     ebind (if ob_type ob = td_string then ebind (string_of (Some (e, ob))) (\<lambda>s. eret (e, s)) else at_string e) (\<lambda>(p, exc_id).
     case exc_id of None \<Rightarrow> throw (AssertFailed ''exception_id != nullptr'') | Some s \<Rightarrow> eret (p, s)))"

definition tool_event :: "env \<Rightarrow> tool_event \<Rightarrow> unit exec" where
  "tool_event E ev = ebind (reg r_tool_dispatch) (\<lambda>tool.
     when_do tool (ebind (e_tool E ev) (\<lambda>_. eret ())))"

definition enter_handler :: "nat \<Rightarrow> handler_entry \<Rightarrow> nat \<Rightarrow> word_t \<Rightarrow> unit exec" where
  "enter_handler e h target_frame handler_pc = eseq (case he_type_desc h of None \<Rightarrow> eret ()
      | Some td \<Rightarrow> eseq (destroy_memory td (frame_base target_frame)) (init_memory td (frame_base target_frame))) (
     let exception_destination = ptr_add (frame_base target_frame) (he_exception_offset h) in
     ebind (at_alloc exception_destination) (\<lambda>old.
     eseq (dec_ref_count_and_free old) (
     eseq (set_pt_ref exception_destination e) (
     set_reg (\<lambda>r. r\<lparr> r_next_pc := handler_pc \<rparr>)))))"

definition raise_alloc :: "env \<Rightarrow> nat \<Rightarrow> unit exec" where
  "raise_alloc E e = eseq (check (e \<noteq> 0) (DereferenceNil ''Raise exception'')) (
     ebind (exception_id_of e) (\<lambda>(id_p, exc_id).
     eseq (tool_event E (ToolRaised id_p e)) (
     ebind (reg r_pc) (\<lambda>faulting_pc.
     ebind (reg r_module_ref) (\<lambda>faulting_module.
     ebind (reg r_stack) (\<lambda>st.
     ebind (find_exception_handler st faulting_module faulting_pc exc_id) (\<lambda>found.
     case found of
       None \<Rightarrow> (eseq (tool_event E (ToolUnhandled id_p e)) (
       ebind (module_of faulting_module) (\<lambda>md.
       ebind (string_str id_p exc_id) (\<lambda>id_text.
       (case m_module_name md of None \<Rightarrow> throw (Undefined ''null module name'')
          | Some name \<Rightarrow> ebind (lift_res (str name)) (\<lambda>n.
              throw (UnhandledUserException id_text (c_string (str_bytes n)) (sint faulting_pc))))))))
     | Some (h, target_frame, handler_pc) \<Rightarrow> (eseq (vm_assert (target_frame \<noteq> 0 \<and> handler_pc \<noteq> invalid_program_counter) ''target_frame != nullptr'') (
       eseq (add_ref e) (
       eseq (unwind_to target_frame) (
       enter_handler e h target_frame handler_pc)))))))))))"

definition raise_op :: "env \<Rightarrow> unit exec" where
  "raise_op E = ebind (reg r_src) (\<lambda>s.
     ebind (at_alloc s) (\<lambda>e.
     raise_alloc E e))"

section \<open>Calls between modules\<close>

definition native_call :: "env \<Rightarrow> nat \<Rightarrow> nat exec" where
  "native_call E f = catch (eseq (e_native E f) (eseq ret_op (eret 0)))
     (\<lambda>e. case e of MarshallableUserException msg \<Rightarrow> new_string_utf8 (c_string (map of_char msg)) | _ \<Rightarrow> throw e)"

definition mcall :: "env \<Rightarrow> unit exec" where
  "mcall E = ebind (reg r_mid) (\<lambda>m.
     ebind (reg r_dest) (\<lambda>d.
     ebind (at_module_ref d) (\<lambda>target.
     case target of None \<Rightarrow> throw (UserException ''Module not loaded'')
     | Some (target_module, mr) \<Rightarrow> (ebind (get32 m) (\<lambda>export_id.
       ebind (lift_res (get_function_ref mr export_id)) (\<lambda>(function_pc, _).
       ebind (module_at (mr_module mr)) (\<lambda>md.
       eseq (vm_assert (unat function_pc < length (m_code_section md)) ''function_pc'') (
       ebind (on_stack push_frame) (\<lambda>top_frame.
       eseq (validate_stack top_frame) (
       ebind (reg r_next_pc) (\<lambda>next_pc.
       ebind (reg r_module_ref) (\<lambda>current.
       eseq (set_prev_pc top_frame next_pc) (
       eseq (set_prev_module_ref top_frame current) (
       eseq (add_ref target_module) (
       eseq (set_reg (\<lambda>r. r\<lparr> r_module_ref := target_module, r_mp_base := mr_mp_base mr, r_next_pc := function_pc \<rparr>)) (
       if \<not> mr_builtin mr then add_ref (mr_mp_base mr)
         else case m_code_section md ! unat function_pc of
           Exec _ \<Rightarrow> throw (Undefined ''not a native function'')
         | Native f \<Rightarrow> (eseq (vm_assert (mr_mp_base mr = 0) ''Built-in modules should not have module data (MP register)'') (
         eseq (set_state Release) (
         ebind (native_call E f) (\<lambda>marshallable_err.
         ebind (reg r_state) (\<lambda>st.
         eseq (when_do (st = Release) (set_state Running)) (
         when_do (marshallable_err \<noteq> 0) (ebind (reg r_state) (\<lambda>st'.
           eseq (vm_assert (st' = Running) ''Throwing a marshallable error should not alter the VM thread state'') (
           eseq (raise_alloc E marshallable_err) (
           dec_ref_count_and_free marshallable_err))))))))))))))))))))))))))"

section \<open>Threads\<close>

definition pop_argument_frame :: "unit exec" where
  "pop_argument_frame = ebind (on_stack pop_frame) (\<lambda>new_frame.
     when_do (new_frame = 0) (set_state EmptyStack))"

definition spawn_op :: "env \<Rightarrow> unit exec" where
  "spawn_op E = ebind (reg r_dest) (\<lambda>d.
     ebind (on_stack push_frame) (\<lambda>spawned_frame.
     eseq (validate_stack spawned_frame) (
     ebind (get32 d) (\<lambda>starting_pc.
     ebind (reg r_module_ref) (\<lambda>mref.
     eseq (vm_assert (mref \<noteq> 0) ''r.module_ref != nullptr'') (
     ebind (reg r_thread_id) (\<lambda>thread_id.
     ebind (fork E thread_id mref spawned_frame starting_pc) (\<lambda>_.
     pop_argument_frame))))))))"

definition mspawn :: "env \<Rightarrow> unit exec" where
  "mspawn E = ebind (reg r_mid) (\<lambda>m.
     ebind (reg r_dest) (\<lambda>d.
     ebind (on_stack push_frame) (\<lambda>spawned_frame.
     eseq (validate_stack spawned_frame) (
     ebind (get32 m) (\<lambda>import_function_id.
     ebind (at_module_ref d) (\<lambda>target.
     case target of None \<Rightarrow> throw (AssertFailed ''target_module_ref != nullptr'')
     | Some (target_module, mr) \<Rightarrow> (ebind (lift_res (get_function_ref mr import_function_id)) (\<lambda>(entry_pc, _).
       eseq (check (\<not> mr_builtin mr) (UserException ''Spawning a built-in module is not permitted'')) (
       ebind (reg r_thread_id) (\<lambda>thread_id.
       ebind (fork E thread_id target_module spawned_frame entry_pc) (\<lambda>_.
       pop_argument_frame)))))))))))"

definition exit_op :: "unit exec" where "exit_op = set_state Exiting"
definition runt :: "unit exec" where "runt = eret ()"
definition notimpl :: "unit exec" where "notimpl = throw (AssertFailed ''Instruction not implemented'')"
definition invalid_op :: "unit exec" where "invalid_op = throw (SystemException ''Illegal Dis VM instruction'')"
definition eclr :: "unit exec" where "eclr = throw (AssertFailed ''The eclr instruction is not expected to be used'')"

section \<open>Loading\<close>

definition self_path :: "byte_t list" where "self_path = map of_char ''$self''"

definition load_op :: "env \<Rightarrow> unit exec" where
  "load_op E = ebind (reg r_src) (\<lambda>s.
     ebind (reg r_mid) (\<lambda>m.
     ebind (reg r_dest) (\<lambda>d.
     ebind (reg r_module_ref) (\<lambda>this.
     ebind (module_ref_at this) (\<lambda>this_ref.
     ebind (module_at (mr_module this_ref)) (\<lambda>importing.
     eseq (check (has_flag (hd_runtime_flag (m_header importing)) has_import) (UserException ''Invalid importing module'')) (
     ebind (at_string s) (\<lambda>(p, string).
     case string of None \<Rightarrow> throw (AssertFailed ''str != nullptr'')
     | Some v \<Rightarrow> (ebind (at_alloc d) (\<lambda>old.
       eseq (dec_ref_count_and_free old) (
       eseq (set_pt_ref d 0) (
       ebind (string_str p v) (\<lambda>path.
       ebind (if path = self_path then eret (Some (mr_module this_ref))
           else catch (ebind (e_load_module E path) (\<lambda>i. eret (Some i)))
             (\<lambda>e. case e of ModuleException _ \<Rightarrow> eret None | _ \<Rightarrow> throw e)) (\<lambda>imported.
       case imported of None \<Rightarrow> eret ()
         | Some imported_module \<Rightarrow> (ebind (get32 m) (\<lambda>module_import_index.
         eseq (vm_assert (unat module_import_index < length (m_import_section importing)) ''module_import_index < imports.size()'') (
         ebind (new_import_ref imported_module (m_import_section importing ! unat module_import_index)) (\<lambda>q.
         eseq (set_pt_ref d q) (
         tool_event E (ToolModuleLoad imported_module))))))))))))))))))))"

end
