(* ===== verification/Decode.thy ===== *)
theory Decode
  imports Machine
begin

text \<open>
  Operand decoding, \<^verbatim>\<open>src/src/vm/address_decoding.inc\<close>: the table from the addressing code of an
  instruction to the modes of its three operands, and the decoders that turn an operand into
  the address of its data. An immediate operand is a location inside the instruction.
\<close>

section \<open>Decoders of one operand\<close>

definition current_frame_base :: "nat exec" where
  "current_frame_base = (ebind (reg r_stack) (\<lambda>st.
     if peek_frame st = 0 then throw (Undefined ''no frame'') else eret (frame_base (peek_frame st))))"

definition current_mp :: "nat exec" where
  "current_mp = (ebind (reg r_mp_base) (\<lambda>mp.
     eret (if mp = 0 then sizeof_vm_alloc else mp)))"

definition indirect :: "nat \<Rightarrow> word_t \<Rightarrow> (nat \<Rightarrow> unit exec) \<Rightarrow> unit exec" where
  "indirect a register2 store_reg = (ebind (load 4 a) (\<lambda>bs.
     let offset = word32 bs in
     store_reg (if offset \<noteq> 0 then unat (offset + register2) else 0)))"

definition dec_src :: "addr_mode \<Rightarrow> exec_op \<Rightarrow> nat \<Rightarrow> unit exec" where
  "dec_src M inst inst_addr = (let opnd = in_source inst; store_reg = (\<lambda>a. set_reg (\<lambda>r. r\<lparr> r_src := a \<rparr>)) in
     case M of
       IndirectFp \<Rightarrow> (eseq (vm_assert (op_mode opnd = IndirectFp) ''mode'') (
     ebind current_frame_base (\<lambda>fp.
     store_reg (ptr_add fp (op_register1 opnd)))))
     | IndirectMp \<Rightarrow> (eseq (vm_assert (op_mode opnd = IndirectMp) ''mode'') (
     ebind current_mp (\<lambda>mp.
     store_reg (ptr_add mp (op_register1 opnd)))))
     | DoubleFp \<Rightarrow> (eseq (vm_assert (op_mode opnd = DoubleFp) ''mode'') (
     ebind current_frame_base (\<lambda>fp.
     indirect (ptr_add fp (op_register1 opnd)) (op_register2 opnd) store_reg)))
     | DoubleMp \<Rightarrow> (eseq (vm_assert (op_mode opnd = DoubleMp) ''mode'') (
     ebind current_mp (\<lambda>mp.
     indirect (ptr_add mp (op_register1 opnd)) (op_register2 opnd) store_reg)))
     | Immediate \<Rightarrow> (eseq (vm_assert (op_mode opnd = Immediate) ''mode'') (
     store_reg (inst_addr + source_offset)))
     | NoOperand \<Rightarrow> (eseq (vm_assert (op_mode opnd = NoOperand) ''mode'') (
     store_reg 0))
     | _ \<Rightarrow> throw (AssertFailed ''Unknown addressing''))"

definition dec_dest :: "addr_mode \<Rightarrow> exec_op \<Rightarrow> nat \<Rightarrow> unit exec" where
  "dec_dest M inst inst_addr = (let opnd = in_destination inst; store_reg = (\<lambda>a. set_reg (\<lambda>r. r\<lparr> r_dest := a \<rparr>)) in
     case M of
       IndirectFp \<Rightarrow> (eseq (vm_assert (op_mode opnd = IndirectFp) ''mode'') (
     ebind current_frame_base (\<lambda>fp.
     store_reg (ptr_add fp (op_register1 opnd)))))
     | IndirectMp \<Rightarrow> (eseq (vm_assert (op_mode opnd = IndirectMp) ''mode'') (
     ebind current_mp (\<lambda>mp.
     store_reg (ptr_add mp (op_register1 opnd)))))
     | DoubleFp \<Rightarrow> (eseq (vm_assert (op_mode opnd = DoubleFp) ''mode'') (
     ebind current_frame_base (\<lambda>fp.
     indirect (ptr_add fp (op_register1 opnd)) (op_register2 opnd) store_reg)))
     | DoubleMp \<Rightarrow> (eseq (vm_assert (op_mode opnd = DoubleMp) ''mode'') (
     ebind current_mp (\<lambda>mp.
     indirect (ptr_add mp (op_register1 opnd)) (op_register2 opnd) store_reg)))
     | Immediate \<Rightarrow> (eseq (vm_assert (op_mode opnd = Immediate) ''mode'') (
     store_reg (inst_addr + destination_offset)))
     | NoOperand \<Rightarrow> (eseq (vm_assert (op_mode opnd = NoOperand) ''mode'') (
     store_reg 0))
     | _ \<Rightarrow> throw (AssertFailed ''Unknown addressing''))"

definition dec_mid :: "middle_mode \<Rightarrow> exec_op \<Rightarrow> nat \<Rightarrow> unit exec" where
  "dec_mid M inst inst_addr = (let opnd = in_middle inst; store_reg = (\<lambda>a. set_reg (\<lambda>r. r\<lparr> r_mid := a \<rparr>)) in
     case M of
       MidSmallFp \<Rightarrow> (eseq (vm_assert (mid_mode opnd = MidSmallFp) ''mode'') (
     ebind current_frame_base (\<lambda>fp.
     store_reg (ptr_add fp (mid_register1 opnd)))))
     | MidSmallMp \<Rightarrow> (eseq (vm_assert (mid_mode opnd = MidSmallMp) ''mode'') (
     ebind current_mp (\<lambda>mp.
     store_reg (ptr_add mp (mid_register1 opnd)))))
     | MidSmallImmediate \<Rightarrow> (eseq (vm_assert (mid_mode opnd = MidSmallImmediate) ''mode'') (
     store_reg (inst_addr + middle_offset)))
     | MidNone \<Rightarrow> (eseq (vm_assert (mid_mode opnd = MidNone) ''mode'') (
     ebind (reg r_dest) (\<lambda>d.
     store_reg d))))"

definition da :: "middle_mode \<times> addr_mode \<times> addr_mode \<Rightarrow> exec_op \<Rightarrow> nat \<Rightarrow> unit exec" where
  "da modes inst inst_addr = (case modes of (MM, SM, DM) \<Rightarrow> (eseq (dec_src SM inst inst_addr) (
     eseq (dec_dest DM inst inst_addr) (
     dec_mid MM inst inst_addr))))"

section \<open>The table\<close>

definition decode_table_low :: "(middle_mode \<times> addr_mode \<times> addr_mode) list" where
  "decode_table_low = [
    (MidNone, IndirectMp, IndirectMp), (MidNone, IndirectMp, IndirectFp), (MidNone, IndirectMp, Immediate),
    (MidNone, IndirectMp, NoOperand), (MidNone, IndirectMp, DoubleMp), (MidNone, IndirectMp, DoubleFp),
    (MidNone, IndirectMp, Reserved1), (MidNone, IndirectMp, Reserved2), (MidNone, IndirectFp, IndirectMp),
    (MidNone, IndirectFp, IndirectFp), (MidNone, IndirectFp, Immediate), (MidNone, IndirectFp, NoOperand),
    (MidNone, IndirectFp, DoubleMp), (MidNone, IndirectFp, DoubleFp), (MidNone, IndirectFp, Reserved1),
    (MidNone, IndirectFp, Reserved2), (MidNone, Immediate, IndirectMp), (MidNone, Immediate, IndirectFp),
    (MidNone, Immediate, Immediate), (MidNone, Immediate, NoOperand), (MidNone, Immediate, DoubleMp),
    (MidNone, Immediate, DoubleFp), (MidNone, Immediate, Reserved1), (MidNone, Immediate, Reserved2),
    (MidNone, NoOperand, IndirectMp), (MidNone, NoOperand, IndirectFp), (MidNone, NoOperand, Immediate),
    (MidNone, NoOperand, NoOperand), (MidNone, NoOperand, DoubleMp), (MidNone, NoOperand, DoubleFp),
    (MidNone, NoOperand, Reserved1), (MidNone, NoOperand, Reserved2), (MidNone, DoubleMp, IndirectMp),
    (MidNone, DoubleMp, IndirectFp), (MidNone, DoubleMp, Immediate), (MidNone, DoubleMp, NoOperand),
    (MidNone, DoubleMp, DoubleMp), (MidNone, DoubleMp, DoubleFp), (MidNone, DoubleMp, Reserved1),
    (MidNone, DoubleMp, Reserved2), (MidNone, DoubleFp, IndirectMp), (MidNone, DoubleFp, IndirectFp),
    (MidNone, DoubleFp, Immediate), (MidNone, DoubleFp, NoOperand), (MidNone, DoubleFp, DoubleMp),
    (MidNone, DoubleFp, DoubleFp), (MidNone, DoubleFp, Reserved1), (MidNone, DoubleFp, Reserved2),
    (MidNone, Reserved1, IndirectMp), (MidNone, Reserved1, IndirectFp), (MidNone, Reserved1, Immediate),
    (MidNone, Reserved1, NoOperand), (MidNone, Reserved1, DoubleMp), (MidNone, Reserved1, DoubleFp),
    (MidNone, Reserved1, Reserved1), (MidNone, Reserved1, Reserved2), (MidNone, Reserved2, IndirectMp),
    (MidNone, Reserved2, IndirectFp), (MidNone, Reserved2, Immediate), (MidNone, Reserved2, NoOperand),
    (MidNone, Reserved2, DoubleMp), (MidNone, Reserved2, DoubleFp), (MidNone, Reserved2, Reserved1),
    (MidNone, Reserved2, Reserved2), (MidSmallImmediate, IndirectMp, IndirectMp),
    (MidSmallImmediate, IndirectMp, IndirectFp), (MidSmallImmediate, IndirectMp, Immediate),
    (MidSmallImmediate, IndirectMp, NoOperand), (MidSmallImmediate, IndirectMp, DoubleMp),
    (MidSmallImmediate, IndirectMp, DoubleFp), (MidSmallImmediate, IndirectMp, Reserved1),
    (MidSmallImmediate, IndirectMp, Reserved2), (MidSmallImmediate, IndirectFp, IndirectMp),
    (MidSmallImmediate, IndirectFp, IndirectFp), (MidSmallImmediate, IndirectFp, Immediate),
    (MidSmallImmediate, IndirectFp, NoOperand), (MidSmallImmediate, IndirectFp, DoubleMp),
    (MidSmallImmediate, IndirectFp, DoubleFp), (MidSmallImmediate, IndirectFp, Reserved1),
    (MidSmallImmediate, IndirectFp, Reserved2), (MidSmallImmediate, Immediate, IndirectMp),
    (MidSmallImmediate, Immediate, IndirectFp), (MidSmallImmediate, Immediate, Immediate),
    (MidSmallImmediate, Immediate, NoOperand), (MidSmallImmediate, Immediate, DoubleMp),
    (MidSmallImmediate, Immediate, DoubleFp), (MidSmallImmediate, Immediate, Reserved1),
    (MidSmallImmediate, Immediate, Reserved2), (MidSmallImmediate, NoOperand, IndirectMp),
    (MidSmallImmediate, NoOperand, IndirectFp), (MidSmallImmediate, NoOperand, Immediate),
    (MidSmallImmediate, NoOperand, NoOperand), (MidSmallImmediate, NoOperand, DoubleMp),
    (MidSmallImmediate, NoOperand, DoubleFp), (MidSmallImmediate, NoOperand, Reserved1),
    (MidSmallImmediate, NoOperand, Reserved2), (MidSmallImmediate, DoubleMp, IndirectMp),
    (MidSmallImmediate, DoubleMp, IndirectFp), (MidSmallImmediate, DoubleMp, Immediate),
    (MidSmallImmediate, DoubleMp, NoOperand), (MidSmallImmediate, DoubleMp, DoubleMp),
    (MidSmallImmediate, DoubleMp, DoubleFp), (MidSmallImmediate, DoubleMp, Reserved1),
    (MidSmallImmediate, DoubleMp, Reserved2), (MidSmallImmediate, DoubleFp, IndirectMp),
    (MidSmallImmediate, DoubleFp, IndirectFp), (MidSmallImmediate, DoubleFp, Immediate),
    (MidSmallImmediate, DoubleFp, NoOperand), (MidSmallImmediate, DoubleFp, DoubleMp),
    (MidSmallImmediate, DoubleFp, DoubleFp), (MidSmallImmediate, DoubleFp, Reserved1),
    (MidSmallImmediate, DoubleFp, Reserved2), (MidSmallImmediate, Reserved1, IndirectMp),
    (MidSmallImmediate, Reserved1, IndirectFp), (MidSmallImmediate, Reserved1, Immediate),
    (MidSmallImmediate, Reserved1, NoOperand), (MidSmallImmediate, Reserved1, DoubleMp),
    (MidSmallImmediate, Reserved1, DoubleFp), (MidSmallImmediate, Reserved1, Reserved1),
    (MidSmallImmediate, Reserved1, Reserved2), (MidSmallImmediate, Reserved2, IndirectMp),
    (MidSmallImmediate, Reserved2, IndirectFp), (MidSmallImmediate, Reserved2, Immediate),
    (MidSmallImmediate, Reserved2, NoOperand), (MidSmallImmediate, Reserved2, DoubleMp),
    (MidSmallImmediate, Reserved2, DoubleFp), (MidSmallImmediate, Reserved2, Reserved1),
    (MidSmallImmediate, Reserved2, Reserved2)]"

definition decode_table_high :: "(middle_mode \<times> addr_mode \<times> addr_mode) list" where
  "decode_table_high = [
    (MidSmallFp, IndirectMp, IndirectMp), (MidSmallFp, IndirectMp, IndirectFp),
    (MidSmallFp, IndirectMp, Immediate), (MidSmallFp, IndirectMp, NoOperand),
    (MidSmallFp, IndirectMp, DoubleMp), (MidSmallFp, IndirectMp, DoubleFp), (MidSmallFp, IndirectMp, Reserved1),
    (MidSmallFp, IndirectMp, Reserved2), (MidSmallFp, IndirectFp, IndirectMp),
    (MidSmallFp, IndirectFp, IndirectFp), (MidSmallFp, IndirectFp, Immediate),
    (MidSmallFp, IndirectFp, NoOperand), (MidSmallFp, IndirectFp, DoubleMp), (MidSmallFp, IndirectFp, DoubleFp),
    (MidSmallFp, IndirectFp, Reserved1), (MidSmallFp, IndirectFp, Reserved2),
    (MidSmallFp, Immediate, IndirectMp), (MidSmallFp, Immediate, IndirectFp),
    (MidSmallFp, Immediate, Immediate), (MidSmallFp, Immediate, NoOperand), (MidSmallFp, Immediate, DoubleMp),
    (MidSmallFp, Immediate, DoubleFp), (MidSmallFp, Immediate, Reserved1), (MidSmallFp, Immediate, Reserved2),
    (MidSmallFp, NoOperand, IndirectMp), (MidSmallFp, NoOperand, IndirectFp),
    (MidSmallFp, NoOperand, Immediate), (MidSmallFp, NoOperand, NoOperand), (MidSmallFp, NoOperand, DoubleMp),
    (MidSmallFp, NoOperand, DoubleFp), (MidSmallFp, NoOperand, Reserved1), (MidSmallFp, NoOperand, Reserved2),
    (MidSmallFp, DoubleMp, IndirectMp), (MidSmallFp, DoubleMp, IndirectFp), (MidSmallFp, DoubleMp, Immediate),
    (MidSmallFp, DoubleMp, NoOperand), (MidSmallFp, DoubleMp, DoubleMp), (MidSmallFp, DoubleMp, DoubleFp),
    (MidSmallFp, DoubleMp, Reserved1), (MidSmallFp, DoubleMp, Reserved2), (MidSmallFp, DoubleFp, IndirectMp),
    (MidSmallFp, DoubleFp, IndirectFp), (MidSmallFp, DoubleFp, Immediate), (MidSmallFp, DoubleFp, NoOperand),
    (MidSmallFp, DoubleFp, DoubleMp), (MidSmallFp, DoubleFp, DoubleFp), (MidSmallFp, DoubleFp, Reserved1),
    (MidSmallFp, DoubleFp, Reserved2), (MidSmallFp, Reserved1, IndirectMp), (MidSmallFp, Reserved1, IndirectFp),
    (MidSmallFp, Reserved1, Immediate), (MidSmallFp, Reserved1, NoOperand), (MidSmallFp, Reserved1, DoubleMp),
    (MidSmallFp, Reserved1, DoubleFp), (MidSmallFp, Reserved1, Reserved1), (MidSmallFp, Reserved1, Reserved2),
    (MidSmallFp, Reserved2, IndirectMp), (MidSmallFp, Reserved2, IndirectFp),
    (MidSmallFp, Reserved2, Immediate), (MidSmallFp, Reserved2, NoOperand), (MidSmallFp, Reserved2, DoubleMp),
    (MidSmallFp, Reserved2, DoubleFp), (MidSmallFp, Reserved2, Reserved1), (MidSmallFp, Reserved2, Reserved2),
    (MidSmallMp, IndirectMp, IndirectMp), (MidSmallMp, IndirectMp, IndirectFp),
    (MidSmallMp, IndirectMp, Immediate), (MidSmallMp, IndirectMp, NoOperand),
    (MidSmallMp, IndirectMp, DoubleMp), (MidSmallMp, IndirectMp, DoubleFp), (MidSmallMp, IndirectMp, Reserved1),
    (MidSmallMp, IndirectMp, Reserved2), (MidSmallMp, IndirectFp, IndirectMp),
    (MidSmallMp, IndirectFp, IndirectFp), (MidSmallMp, IndirectFp, Immediate),
    (MidSmallMp, IndirectFp, NoOperand), (MidSmallMp, IndirectFp, DoubleMp), (MidSmallMp, IndirectFp, DoubleFp),
    (MidSmallMp, IndirectFp, Reserved1), (MidSmallMp, IndirectFp, Reserved2),
    (MidSmallMp, Immediate, IndirectMp), (MidSmallMp, Immediate, IndirectFp),
    (MidSmallMp, Immediate, Immediate), (MidSmallMp, Immediate, NoOperand), (MidSmallMp, Immediate, DoubleMp),
    (MidSmallMp, Immediate, DoubleFp), (MidSmallMp, Immediate, Reserved1), (MidSmallMp, Immediate, Reserved2),
    (MidSmallMp, NoOperand, IndirectMp), (MidSmallMp, NoOperand, IndirectFp),
    (MidSmallMp, NoOperand, Immediate), (MidSmallMp, NoOperand, NoOperand), (MidSmallMp, NoOperand, DoubleMp),
    (MidSmallMp, NoOperand, DoubleFp), (MidSmallMp, NoOperand, Reserved1), (MidSmallMp, NoOperand, Reserved2),
    (MidSmallMp, DoubleMp, IndirectMp), (MidSmallMp, DoubleMp, IndirectFp), (MidSmallMp, DoubleMp, Immediate),
    (MidSmallMp, DoubleMp, NoOperand), (MidSmallMp, DoubleMp, DoubleMp), (MidSmallMp, DoubleMp, DoubleFp),
    (MidSmallMp, DoubleMp, Reserved1), (MidSmallMp, DoubleMp, Reserved2), (MidSmallMp, DoubleFp, IndirectMp),
    (MidSmallMp, DoubleFp, IndirectFp), (MidSmallMp, DoubleFp, Immediate), (MidSmallMp, DoubleFp, NoOperand),
    (MidSmallMp, DoubleFp, DoubleMp), (MidSmallMp, DoubleFp, DoubleFp), (MidSmallMp, DoubleFp, Reserved1),
    (MidSmallMp, DoubleFp, Reserved2), (MidSmallMp, Reserved1, IndirectMp), (MidSmallMp, Reserved1, IndirectFp),
    (MidSmallMp, Reserved1, Immediate), (MidSmallMp, Reserved1, NoOperand), (MidSmallMp, Reserved1, DoubleMp),
    (MidSmallMp, Reserved1, DoubleFp), (MidSmallMp, Reserved1, Reserved1), (MidSmallMp, Reserved1, Reserved2),
    (MidSmallMp, Reserved2, IndirectMp), (MidSmallMp, Reserved2, IndirectFp),
    (MidSmallMp, Reserved2, Immediate), (MidSmallMp, Reserved2, NoOperand), (MidSmallMp, Reserved2, DoubleMp),
    (MidSmallMp, Reserved2, DoubleFp), (MidSmallMp, Reserved2, Reserved1), (MidSmallMp, Reserved2, Reserved2)]"

definition decode_table :: "(middle_mode \<times> addr_mode \<times> addr_mode) list" where
  "decode_table = decode_table_low @ decode_table_high"

definition decode_address :: "exec_op \<Rightarrow> nat \<Rightarrow> unit exec" where
  "decode_address inst inst_addr = da (decode_table ! unat (in_addr_code inst)) inst inst_addr"

section \<open>The table and the bits of the addressing code\<close>

definition middle_modes :: "middle_mode list" where
  "middle_modes = [MidNone, MidSmallImmediate, MidSmallFp, MidSmallMp]"

definition addr_modes :: "addr_mode list" where
  "addr_modes = [IndirectMp, IndirectFp, Immediate, NoOperand, DoubleMp, DoubleFp, Reserved1, Reserved2]"

definition mode_middle :: "byte_t \<Rightarrow> middle_mode" where
  "mode_middle c = middle_modes ! unat (drop_bit 6 (c AND 0xc0))"

definition mode_source :: "byte_t \<Rightarrow> addr_mode" where
  "mode_source c = addr_modes ! unat (drop_bit 3 (c AND 0x38))"

definition mode_destination :: "byte_t \<Rightarrow> addr_mode" where
  "mode_destination c = addr_modes ! unat (c AND 0x07)"

lemma decode_table_rows:
  "length decode_table = 256 \<and> list_all (\<lambda>n. decode_table ! n =
     (mode_middle (word_of_nat n), mode_source (word_of_nat n), mode_destination (word_of_nat n))) [0..<256]"
  by code_simp

lemma decode_table_row:
  "length decode_table = 256 \<and> decode_table ! unat c = (mode_middle c, mode_source c, mode_destination c)"
proof -
  have "unat c < 256" using unsigned_less [of c] by simp
  then have "unat c \<in> set [0..<256]" by simp
  then show ?thesis using decode_table_rows unfolding list_all_iff by fastforce
qed

text \<open>every row of the decode table has the modes that the fields of its addressing code
  spell: the middle mode in the top two bits, the source mode in the next three, and the
  destination mode in the lowest three.\<close>

theorem decode_table_bits:
  "length decode_table = 256 \<and> decode_table ! unat c = (mode_middle c, mode_source c, mode_destination c)"
  by (rule decode_table_row)

end
