(* ===== verification/Interpreter.thy ===== *)
theory Interpreter
  imports ExecControl Decode
begin

text \<open>
  The execution table of \<^verbatim>\<open>src/src/vm/execution_table.cpp\<close> and the interpreter loop of
  \<^verbatim>\<open>src/src/vm/thread.cpp\<close>. The loop runs at most the quanta it is given, so it always ends; a
  breakpoint runs the instruction it replaced, and the table handed to it has no entry for a
  breakpoint of its own.
\<close>

section \<open>The execution table\<close>

definition exec_table_low :: "env \<Rightarrow> unit exec list" where
  "exec_table_low E = [
    invalid_op, alt_op E, nbalt E, goto_op, call_op, frame_op, spawn_op E, runt, load_op E, mcall E,
    mspawn E, mframe, ret_op, jmp, casew, exit_op, new_op, newa, newcb, newcw, newcf, newcp, newcm,
    newcmp, send, recv, consb, consw, consp, consf, notimpl, consmp, headb, headw, headp, headf,
    notimpl, headmp, tail_op, lea, indx, movp, movm, movmp, movb, movw, movf, cvtbw, cvtwb, cvtfw E,
    cvtwf E, cvtca, cvtac, cvtwc, cvtcw, cvtfc E, cvtcf E, addb, addw, addf E, subb, subw, subf E, mulb,
    mulw, mulf E, divb, divw, divf E, modw, modb, andb, andw, orb, orw, xorb, xorw, shlb, shlw, shrb,
    shrw, insc, indc, addc, lenc, lena, lenl, beqb]"

definition exec_table_high :: "unit exec \<Rightarrow> env \<Rightarrow> unit exec list" where
  "exec_table_high brk E = [
    bneb, bltb, bleb, bgtb, bgeb, beqw, bnew, bltw, blew, bgtw, bgew, beqf E, bnef E, bltf E, blef E,
    bgtf E, bgef E, beqc, bnec, bltc, blec, bgtc, bgec, slicea, slicela, slicec, indw, indf, indb,
    negf E, movl, addl, subl, divl, modl, mull, andl, orl, xorl, shll, shrl, bnel, bltl, blel, bgtl,
    bgel, beql, cvtlf E, cvtfl E, cvtlw, cvtwl, cvtlc, cvtcl, headl, consl, newcl, casec, indl, notimpl,
    tcmp, mnewz, cvtrf E, cvtfr E, cvtws, cvtsw, lsrw, lsrl, eclr, newz, newaz, raise_op E, casel, mulx,
    divx, cvtxx, mulx0, divx0, cvtxx0, notimpl, notimpl, notimpl, cvtfx E, cvtxf E, expw, expl, expf E,
    notimpl, brk]"

definition brkpt :: "env \<Rightarrow> unit exec" where
  "brkpt E = ebind (reg r_tool_dispatch) (\<lambda>tool.
     if \<not> tool then throw (AssertFailed ''Breakpoint set but no tool dispatcher found'')
     else (ebind (e_tool E ToolBreakpoint) (\<lambda>original_op.
       if original_op \<le> last_opcode
       then (exec_table_low E @ exec_table_high (throw OutOfFuel) E) ! original_op
       else throw (Undefined ''index into the execution table''))))"

definition exec_table :: "env \<Rightarrow> unit exec list" where
  "exec_table E = exec_table_low E @ exec_table_high (brkpt E) E"

section \<open>The interpreter loop\<close>

definition trap_instruction :: nat where "trap_instruction = 1"

definition begin_exec_loop :: "env \<Rightarrow> bool \<Rightarrow> unit exec" where
  "begin_exec_loop E with_tool = when_do with_tool (ebind (reg r_tool_dispatch) (\<lambda>tool.
     eseq (vm_assert tool ''tool_dispatch != nullptr'') (
     ebind (e_tool E ToolBlock) (\<lambda>_.
     eret ()))))"

definition after_exec :: "env \<Rightarrow> bool \<Rightarrow> unit exec" where
  "after_exec E with_tool = ebind (reg r_trap_flags) (\<lambda>flags.
     when_do (with_tool \<and> odd flags) (ebind (reg r_tool_dispatch) (\<lambda>tool.
       eseq (vm_assert tool ''tool_dispatch != nullptr'') (
       ebind (e_tool E ToolTrap) (\<lambda>_.
       eret ())))))"

definition exec_step :: "env \<Rightarrow> bool \<Rightarrow> unit exec" where
  "exec_step E with_tool = eseq (begin_exec_loop E with_tool) (
     ebind (reg (\<lambda>r. peek_frame (r_stack r))) (\<lambda>top.
     eseq (vm_assert (top \<noteq> 0) ''Thread state should not be running with empty stack'') (
     ebind (reg r_module_ref) (\<lambda>this.
     ebind (module_ref_at this) (\<lambda>mr.
     ebind (module_at (mr_module mr)) (\<lambda>md.
     ebind (reg r_pc) (\<lambda>pc.
     eseq (vm_assert (unat pc < length (m_code_section md)) ''r.pc < code_section.size()'') (
     eseq (vm_assert (\<not> mr_builtin mr) ''Interpreter thread is unable to execute native instructions'') (
     case m_code_section md ! unat pc of
       Native _ \<Rightarrow> throw (Undefined ''native instruction'')
     | Exec inst \<Rightarrow> (eseq (vm_assert (in_opcode inst \<le> last_opcode) ''opcode <= last_opcode'') (
       eseq (decode_address inst (m_code_base md + instruction_size * unat pc)) (
       eseq (set_reg (\<lambda>r. r\<lparr> r_next_pc := pc + 1 \<rparr>)) (
       eseq (exec_table E ! in_opcode inst) (
       eseq (set_reg (\<lambda>r. r\<lparr> r_pc := r_next_pc r \<rparr>)) (
       after_exec E with_tool)))))))))))))))"

primrec exec_loop :: "env \<Rightarrow> bool \<Rightarrow> nat \<Rightarrow> unit exec" where
  "exec_loop E with_tool 0 = set_reg (\<lambda>r. r\<lparr> r_quanta := 0 \<rparr>)"
| "exec_loop E with_tool (Suc n) = eseq (set_reg (\<lambda>r. r\<lparr> r_quanta := Suc n \<rparr>)) (
     eseq (exec_step E with_tool) (
     ebind (reg r_state) (\<lambda>st.
     if st = Running then exec_loop E with_tool n else eret ())))"

section \<open>Execution of a thread\<close>

definition what_text :: "vm_exn \<Rightarrow> string" where
  "what_text e = (case e of
     UserException m \<Rightarrow> m
   | MarshallableUserException m \<Rightarrow> m
   | TermRequest m \<Rightarrow> m
   | DivideByZero \<Rightarrow> ''Divide by 0''
   | InvalidUtf8 \<Rightarrow> ''Invalid UTF-8 string''
   | DereferenceNil _ \<Rightarrow> ''Dereference of nil value''
   | TypeViolation \<Rightarrow> ''Inconsistent types in operation''
   | OutOfRangeMemory \<Rightarrow> ''Out of range access''
   | IndexOutOfRange _ _ _ \<Rightarrow> ''Out of range access''
   | UnhandledUserException _ _ _ \<Rightarrow> ''Unhandled exception''
   | _ \<Rightarrow> [])"

definition ascii_text :: "byte_t list \<Rightarrow> string" where
  "ascii_text bs = map (\<lambda>b. char_of (unat b)) bs"

definition decimal_text :: "int \<Rightarrow> string" where
  "decimal_text i = ascii_text (c_decimal i)"

definition error_message :: "vm_exn \<Rightarrow> string" where
  "error_message e = (case e of
     UnhandledUserException exception_id module_name pc \<Rightarrow>
       what_text e @ '' in '' @ ascii_text module_name @ '' @'' @ decimal_text pc @ [char_of (10 :: nat)] @ ''  '' @ ascii_text exception_id
   | IndexOutOfRange valid_min valid_max invalid_value \<Rightarrow>
       what_text e @ '' - '' @ decimal_text invalid_value @ '' ['' @ decimal_text valid_min @ '','' @ decimal_text valid_max @ '']''
   | _ \<Rightarrow> what_text e)"

definition is_user_exception :: "vm_exn \<Rightarrow> bool" where
  "is_user_exception e = (case e of
     UserException _ \<Rightarrow> True | MarshallableUserException _ \<Rightarrow> True | DivideByZero \<Rightarrow> True | InvalidUtf8 \<Rightarrow> True
   | DereferenceNil _ \<Rightarrow> True | TypeViolation \<Rightarrow> True | OutOfRangeMemory \<Rightarrow> True | IndexOutOfRange _ _ _ \<Rightarrow> True
   | UnhandledUserException _ _ _ \<Rightarrow> True | _ \<Rightarrow> False)"

definition max_error_message :: nat where "max_error_message = 1024"

definition break_thread :: "vm_exn \<Rightarrow> unit exec" where
  "break_thread e = (if is_user_exception e then (let msg = error_message e in
     eseq (vm_assert (msg \<noteq> [] \<and> length msg < max_error_message) ''ec > 0 && ec < max_error_message'') (
     set_reg (\<lambda>r. r\<lparr> r_error_message := Some msg, r_state := Broken \<rparr>)))
     else throw e)"

definition finish_slice :: "env \<Rightarrow> bool \<Rightarrow> thread_state exec" where
  "finish_slice E with_tool = ebind (reg r_state) (\<lambda>st.
     eseq (if st = Running then set_state (if with_tool then DebugState else Ready)
      else if st = EmptyStack \<or> st = Exiting then when_do with_tool (ebind (e_tool E ToolThreadEnd) (\<lambda>_. eret ()))
      else if st = Broken then when_do with_tool (ebind (e_tool E ToolThreadBroken) (\<lambda>_. eret ()))
      else eret ()) (
     reg r_state))"

definition execute :: "env \<Rightarrow> nat \<Rightarrow> thread_state exec" where
  "execute E quanta = eseq (set_state Running) (
     eseq (vm_assert (quanta \<le> 0xffff) ''quanta <= max'') (
     ebind (reg r_pc) (\<lambda>pc.
     eseq (vm_assert (pc \<noteq> invalid_program_counter) ''_registers.pc != invalid_program_counter'') (
     ebind (reg r_tool_dispatch) (\<lambda>with_tool.
     eseq (catch (exec_loop E with_tool quanta) break_thread) (
     finish_slice E with_tool))))))"

section \<open>Walking the stack\<close>

primrec walk_stack_fuel :: "nat \<Rightarrow> nat \<Rightarrow> nat \<Rightarrow> word_t \<Rightarrow> ('z, (nat \<times> word_t \<times> nat) list) heff" where
  "walk_stack_fuel 0 frame module_p pc = (if frame = 0 then eret [] else throw OutOfFuel)"
| "walk_stack_fuel (Suc n) frame module_p pc = (if frame = 0 then eret [] else (ebind (prev_pc frame) (\<lambda>saved.
     ebind (prev_module_ref frame) (\<lambda>prev_module_maybe.
     ebind (prev_frame frame) (\<lambda>next.
     ebind (walk_stack_fuel n next (if prev_module_maybe \<noteq> 0 then prev_module_maybe else module_p) saved) (\<lambda>rest.
     eret ((frame_base frame, pc, module_p) # rest)))))))"

definition walk_stack :: "registers \<Rightarrow> ('z, (nat \<times> word_t \<times> nat) list) heff" where
  "walk_stack r = (\<lambda>h. walk_stack_fuel (Suc (length (h_frame_types h))) (peek_frame (r_stack r)) (r_module_ref r) (r_pc r) h)"

section \<open>The table and the opcodes\<close>

lemma length_exec_table: "length (exec_table E) = Suc last_opcode"
  by (simp add: exec_table_def exec_table_low_def exec_table_high_def last_opcode_def)

end
