(* ===== verification/Sample.thy ===== *)
theory Sample
  imports Interpreter
begin

text \<open>
  A concrete machine on which the properties of the interpreter are instantiated: one thread
  whose module holds a short program, its frame on the first page of its stack, no tools and no
  native functions.
\<close>

definition idle_env :: env where
  "idle_env = \<lparr> f_of_big = id, f_to_big = id, f_to_word = (\<lambda>x. 0), f_to_short = (\<lambda>x. 0), f_from_short = (\<lambda>x. 0),
     f_neg = id, f_add = (\<lambda>x y. x), f_sub = (\<lambda>x y. x), f_mul = (\<lambda>x y. x), f_div = (\<lambda>x y. x), f_less = (\<lambda>x y. False),
     f_equal = (\<lambda>x y. x = y), f_half = 0, f_parse = (\<lambda>bs. 0), f_print = (\<lambda>x. []), e_shuffle = (\<lambda>r n. [0..<n]),
     e_native = (\<lambda>f. eret ()), e_tool = (\<lambda>ev. eret 0), e_load_module = (\<lambda>p. throw (ModuleException ''no such file'')) \<rparr>"

definition frame_td :: type_desc where
  "frame_td = \<lparr> td_size = 32, td_map = [], td_finalizer = None, td_tag = Created \<rparr>"

definition op_imm :: "word_t \<Rightarrow> operand" where
  "op_imm x = \<lparr> op_mode = Immediate, op_register1 = x, op_register2 = 0 \<rparr>"

definition op_fp :: "word_t \<Rightarrow> operand" where
  "op_fp x = \<lparr> op_mode = IndirectFp, op_register1 = x, op_register2 = 0 \<rparr>"

definition op_none :: operand where
  "op_none = \<lparr> op_mode = NoOperand, op_register1 = 0, op_register2 = 0 \<rparr>"

definition mid_none :: middle_data where "mid_none = \<lparr> mid_mode = MidNone, mid_register1 = 0 \<rparr>"

definition binary_inst :: "nat \<Rightarrow> operand \<Rightarrow> operand \<Rightarrow> exec_op" where
  "binary_inst opcode s d = \<lparr> in_opcode = opcode,
     in_addr_code = (if op_mode s = Immediate then 0x11 else 0x1b),
     in_source = s, in_middle = mid_none, in_destination = d \<rparr>"

definition sample_header :: header where
  "sample_header = \<lparr> hd_magic_number = 0, hd_signature = [], hd_runtime_flag = 0, hd_stack_extent = 64, hd_code_size = 3,
     hd_data_size = 0, hd_type_size = 1, hd_export_size = 0, hd_entry_pc = 0, hd_entry_type = 0 \<rparr>"

definition sample_module :: "instruction list \<Rightarrow> vm_module" where
  "sample_module code = \<lparr> m_vm_id = 0, m_header = sample_header, m_code_section = code, m_code_base = 1024, m_original_mp = 0,
     m_type_section = [Some frame_td], m_module_name = Some empty_string, m_export_section = [], m_import_section = [],
     m_handler_section = [] \<rparr>"

definition operand_bytes :: "instruction \<Rightarrow> byte_t list" where
  "operand_bytes i = (case i of Native _ \<Rightarrow> replicate 36 0
     | Exec e \<Rightarrow> replicate 8 0 @ bytes32 (op_register1 (in_source e)) @ replicate 24 0)"

definition bytes_memory :: "nat \<Rightarrow> byte_t list \<Rightarrow> nat \<Rightarrow> byte_t option" where
  "bytes_memory a bs x = (if a \<le> x \<and> x < a + length bs then Some (bs ! (x - a)) else None)"

definition sample_regs :: registers where
  "sample_regs = \<lparr> r_thread_id = 1, r_parent_id = 0, r_tool_dispatch = False,
     r_stack = \<lparr> stk_page_size = 64, stk_pages = [\<lparr> pg_addr = 500, pg_limit_addr = 564, pg_top_frame = 512 \<rparr>], stk_top_frame = 512 \<rparr>,
     r_pc = 0, r_next_pc = 0, r_mp_base = 0, r_module_ref = 100, r_quanta = 0, r_state = Ready, r_trap_flags = 0, r_src = 0,
     r_mid = 0, r_dest = 0, r_error_message = None \<rparr>"

definition no_tools :: tool_dispatch where
  "no_tools = \<lparr> tl_tools = [], tl_tool_counter = 1, tl_callbacks = [], tl_cookie_to_event = [], tl_event_cookies = 1,
     tl_details = [], tl_originals = [], tl_break_cookies = 1, tl_suspended = False, tl_suspended_count = 0 \<rparr>"

definition sample_cpu :: "instruction list \<Rightarrow> cpu" where
  "sample_cpu code = \<lparr> h_mem = bytes_memory 520 (replicate 32 0) ++ bytes_memory 1024 (concat (map operand_bytes code)),
     h_brk = 4096,
     h_objs = [(100, \<lparr> ob_refs = 1, ob_type = td_module_ref, ob_gc = 0,
       ob_data = ModuleRefObj \<lparr> mr_module = 0, mr_mp_base = 0, mr_builtin = False, mr_function_refs = None \<rparr> \<rparr>)],
     h_frame_types = [(512, frame_td)], h_modules = [(0, sample_module code)], h_finalized = [],
     w_tracked = [], w_epoch = 0, w_pending = (\<lambda>x. False), w_threads = [], w_runnable = [], w_blocked = [],
     w_running = 1, w_gc_counter = 0, w_terminating = False, w_next_thread_id = 2, w_random = 0, w_tool_attached = False, w_dispatch = no_tools, w_modules = [], w_next_module = 1, w_builtins = [],
     w_syscall_error = replicate 128 0, w_fd_map = [], w_fd_available = [], w_fd_handles = [], w_std_fds = [],
     c_regs = sample_regs \<rparr>"

definition move_add_exit :: "instruction list" where
  "move_add_exit = [Exec (binary_inst 45 (op_imm 7) (op_fp 24)), Exec (binary_inst 58 (op_imm 5) (op_fp 24)),
     Exec (binary_inst 15 op_none op_none)]"


lemma table_entries: "exec_table E ! 45 = movw" "exec_table E ! 58 = addw" "exec_table E ! 15 = exit_op" "exec_table E ! 67 = divw"
  by (simp_all add: exec_table_def exec_table_low_def nth_append)

lemma decode_entries: "decode_table ! 17 = (MidNone, Immediate, IndirectFp)" "decode_table ! 27 = (MidNone, NoOperand, NoOperand)"
  by (simp_all add: decode_table_def decode_table_low_def)

lemmas sample_defs = sample_cpu_def sample_regs_def sample_module_def sample_header_def operand_bytes_def bytes_memory_def
  binary_inst_def op_imm_def op_fp_def op_none_def mid_none_def frame_td_def idle_env_def

lemmas step_defs = execute_def exec_step_def begin_exec_loop_def after_exec_def finish_slice_def break_thread_def
  module_ref_at_def module_at_def obj_at_def reg_def set_reg_def set_state_def decode_address_def da_def dec_src_def
  dec_dest_def dec_mid_def current_frame_base_def peek_frame_def frame_base_def sizeof_frame_def ptr_add_def
  instruction_size_def source_offset_def last_opcode_def invalid_program_counter_def exit_op_def catch_def ebind_run eseq_def

lemma upt_4: "[0..<4] = [0, 1, 2, 3::nat]"
  by code_simp

lemma length_bytes32: "length (bytes32 w) = 4"
  by (simp add: bytes32_def)

lemmas memory_defs = get32_def put32_def vt_load_def vt_store_def load_def store_def read_bytes_def write_bytes_def upt_4
  mov_value_def bin32_def movw_def addw_def divw_def map_add_def bytes32_def word32_def length_bytes32

lemma loop_3: "exec_loop E t 3 = eseq (set_reg (\<lambda>r. r\<lparr> r_quanta := 3 \<rparr>)) (
     eseq (exec_step E t) (
     ebind (reg r_state) (\<lambda>st.
     if st = Running then exec_loop E t 2 else eret ())))"
proof -
  have "(3::nat) = Suc 2" by simp
  then show ?thesis by (simp only: exec_loop.simps)
qed

lemma loop_2: "exec_loop E t 2 = eseq (set_reg (\<lambda>r. r\<lparr> r_quanta := 2 \<rparr>)) (
     eseq (exec_step E t) (
     ebind (reg r_state) (\<lambda>st.
     if st = Running then exec_loop E t 1 else eret ())))"
proof -
  have "(2::nat) = Suc 1" by simp
  then show ?thesis by (simp only: exec_loop.simps)
qed

lemmas run_defs = step_defs table_entries decode_entries sample_defs memory_defs loop_3 loop_2

text \<open>The program \<^verbatim>\<open>movw $7, 24(fp); addw $5, 24(fp); exit\<close> leaves 12 in its frame and ends the thread.\<close>

lemma run_move_add_exit:
  "fst (ebind (execute idle_env 3) (\<lambda>st. ebind (get32 544) (\<lambda>v. eret (st, v))) (sample_cpu move_add_exit)) = Inr (Exiting, 12)"
  by (simp add: run_defs move_add_exit_def nth_append)

definition div_zero :: "instruction list" where
  "div_zero = [Exec (binary_inst 45 (op_imm 7) (op_fp 24)), Exec (binary_inst 67 (op_imm 0) (op_fp 24)),
     Exec (binary_inst 15 op_none op_none)]"

text \<open>A division by zero breaks the thread with the message of the exception, at the faulting instruction.\<close>

lemma run_div_zero:
  "let (r, c) = execute idle_env 3 (sample_cpu div_zero) in
     r = Inr Broken \<and> r_error_message (c_regs c) = Some ''Divide by 0'' \<and> r_pc (c_regs c) = 1"
  by (simp add: run_defs div_zero_def require_def error_message_def what_text_def is_user_exception_def max_error_message_def nth_append)

end
