(* ===== verification/ExecInvariant.thy ===== *)
theory ExecInvariant
  imports Sample
begin

text \<open>
  Every instruction keeps the heap invariant, on every outcome: the invariant of the
  primitives lifts through the call stack, the channels, the handlers of the execution table
  and the interpreter loop, one group of operations at a time.
\<close>

section \<open>Registers, stacks and modules\<close>

lemma heap_inv_set_reg [keeps_intros]: "keeps heap_inv (set_reg g)" "keeps heap_inv (reg f)" "keeps heap_inv (set_state s)"
  by (simp_all add: keeps_def set_reg_def reg_def set_state_def heap_inv_def)

lemma heap_inv_world [keeps_intros]:
  "keeps heap_inv (modify (\<lambda>c. c\<lparr> w_tracked := x c \<rparr>))" "keeps heap_inv (modify (\<lambda>c. c\<lparr> w_pending := y c \<rparr>))"
  "keeps heap_inv (modify (\<lambda>c. c\<lparr> w_random := z c \<rparr>))" "keeps heap_inv (modify (\<lambda>c. c\<lparr> w_next_thread_id := z c \<rparr>))"
  "keeps heap_inv (modify (\<lambda>c. c\<lparr> w_threads := t c, w_runnable := u c \<rparr>))"
  "keeps heap_inv (modify (\<lambda>c. c\<lparr> w_blocked := u c, w_runnable := v c \<rparr>))"
  by (simp_all add: keeps_def heap_inv_def)

lemma heap_inv_frame_types [keeps_intros]: "keeps heap_inv (modify (\<lambda>h. h\<lparr> h_frame_types := f h \<rparr>))"
  by (simp add: keeps_def heap_inv_def)

lemma heap_inv_lookup [keeps_intros]: "keeps heap_inv (frame_type f)" "keeps heap_inv (module_at m)"
  by (simp_all add: keeps_def frame_type_def module_at_def split: option.split)

lemma heap_inv_modules [keeps_intros]: "keeps heap_inv (module_ref_at p)" "keeps heap_inv (module_of p)"
  "keeps heap_inv (type_at md i)" "keeps heap_inv current_module"
  unfolding module_ref_at_def module_of_def type_at_def current_module_def by (intro keeps_intros)+

lemma keeps_list_case [keeps_intros]:
  "keeps I p \<Longrightarrow> (\<And>x xs. keeps I (f x xs)) \<Longrightarrow> keeps I (case l of [] \<Rightarrow> p | x # xs \<Rightarrow> f x xs)"
  by (cases l) simp_all

lemma keeps_state_dep: "(\<And>n. keeps I (f n)) \<Longrightarrow> keeps I (\<lambda>h. f (g h) h)"
  by (simp add: keeps_def)

lemma heap_inv_frames [keeps_intros]:
  "keeps heap_inv (prev_pc f)" "keeps heap_inv (set_prev_pc f pc)" "keeps heap_inv (prev_frame f)"
  "keeps heap_inv (set_prev_frame f g)" "keeps heap_inv (prev_module_ref f)" "keeps heap_inv (set_prev_module_ref f m)"
  "keeps heap_inv (fixed_point_register_1 f)" "keeps heap_inv (fixed_point_register_2 f)"
  "keeps heap_inv (construct_frame f td)" "keeps heap_inv (destroy_frame f)" "keeps heap_inv (copy_frame_contents f g)"
  unfolding prev_pc_def set_prev_pc_def prev_frame_def set_prev_frame_def prev_module_ref_def set_prev_module_ref_def
    fixed_point_register_1_def fixed_point_register_2_def fixed_point_register_def construct_frame_def destroy_frame_def
    copy_frame_contents_def Let_def
  by (intro keeps_intros)+

lemma heap_inv_pages [keeps_intros]: "keeps heap_inv (new_page st)" "keeps heap_inv (drop_page st)"
  "keeps heap_inv (create_stack n)" "keeps heap_inv (top_page st)"
proof -
  show n: "keeps heap_inv (new_page st)" for st unfolding new_page_def by (intro keeps_intros)
  show "keeps heap_inv (drop_page st)" unfolding drop_page_def by (intro keeps_intros)
  show "keeps heap_inv (create_stack n)" unfolding create_stack_def by (intro keeps_intros n)
  show "keeps heap_inv (top_page st)" unfolding top_page_def by (intro keeps_intros)
qed

lemma heap_inv_stack [keeps_intros]: "keeps heap_inv (alloc_frame td st)" "keeps heap_inv (push_frame st)"
  "keeps heap_inv (pop_frame st)"
  unfolding alloc_frame_def push_frame_def pop_frame_def after_pop_def Let_def by (intro keeps_intros)+

lemma heap_inv_on_stack [keeps_intros]: "(\<And>st. keeps heap_inv (f st)) \<Longrightarrow> keeps heap_inv (on_stack f)"
  unfolding on_stack_def by (intro keeps_intros | assumption)+

lemma heap_inv_track [keeps_intros]: "keeps heap_inv (track_allocation p)"
  unfolding track_allocation_def by (intro keeps_intros)

lemma heap_inv_strings [keeps_intros]: "keeps heap_inv (string_of v)" "keeps heap_inv (at_string a)"
  "keeps heap_inv (compare_operands a b)" "keeps heap_inv (put_string p s)" "keeps heap_inv (string_str p s)"
  "keeps heap_inv (new_string_utf8 bs)" "keeps heap_inv (new_string_res r)" "keeps heap_inv (at_array a)"
  "keeps heap_inv (at_list a)" "keeps heap_inv (at_module_ref a)"
  "keeps heap_inv (concat_string p s1 s2 try)" "keeps heap_inv (array_of_string p s1)"
  unfolding at_string_def compare_operands_def string_of_def put_string_def string_str_def new_string_utf8_def
    new_string_res_def at_array_def at_list_def at_module_ref_def concat_string_def array_of_string_def Let_def
  by (intro keeps_intros)+

lemma heap_inv_list_length [keeps_intros]: "keeps heap_inv (list_get_length l)"
proof -
  have f: "keeps heap_inv (list_length_fuel n p)" for n p
  proof (induction n arbitrary: p)
    case 0
    show ?case unfolding list_length_fuel.simps by (intro keeps_intros)
  next
    case (Suc n)
    show ?case unfolding list_length_fuel.simps by (intro keeps_intros Suc.IH)
  qed
  show ?thesis unfolding list_get_length_def by (rule keeps_state_dep) (intro keeps_intros f)
qed

section \<open>Value instructions and branches\<close>

lemma heap_inv_operands [keeps_intros]:
  "keeps heap_inv (bin8 f8)" "keeps heap_inv (bin32 f32)" "keeps heap_inv (bin64 f64)"
  "(\<And>a. keeps heap_inv (getter a)) \<Longrightarrow> (\<And>a v. keeps heap_inv (putter a v)) \<Longrightarrow> keeps heap_inv (conv getter putter f)"
  "(\<And>a. keeps heap_inv (getter' a)) \<Longrightarrow> (\<And>a v. keeps heap_inv (putter' a v)) \<Longrightarrow>
     keeps heap_inv (exec_exp getter' putter' mul one invert)"
  unfolding bin8_def bin32_def bin64_def conv_def exec_exp_def by (intro keeps_intros | assumption)+

lemma heap_inv_fixed_register [keeps_intros]:
  "(\<And>f. keeps heap_inv (which f)) \<Longrightarrow> keeps heap_inv (fixed_register which)"
  unfolding fixed_register_def by (intro keeps_intros | assumption)+

lemma heap_inv_moves [keeps_intros]: "keeps heap_inv (mov_value n d s)" "keeps heap_inv (mov_pointer d s)"
  "keeps heap_inv (channel_movm d s td)" "keeps heap_inv (channel_movmp d s td)" "keeps heap_inv (move_alloc d s)"
  unfolding mov_value_def mov_pointer_def channel_movm_def channel_movmp_def move_alloc_def by (intro keeps_intros)+

lemma heap_inv_branches [keeps_intros]:
  "keeps heap_inv branch_to_dest" "(\<And>a. keeps heap_inv (getter a)) \<Longrightarrow> keeps heap_inv (branch_if getter P)"
  "keeps heap_inv (branch_if_compare Q)"
  unfolding branch_to_dest_def branch_if_def branch_if_compare_def by (intro keeps_intros | assumption)+

lemma heap_inv_case_search:
  assumes "\<And>a. keeps heap_inv (get a)"
  shows "keeps heap_inv (case_search get w v n e t)"
  by (induction n arbitrary: e) (simp_all only: case_search.simps, (intro keeps_intros assms | assumption)+)

lemma heap_inv_casec_search [keeps_intros]: "keeps heap_inv (casec_search p v n e t)"
  by (induction n arbitrary: e) (simp_all only: casec_search.simps, (intro keeps_intros | assumption)+)

lemma heap_inv_case_op [keeps_intros]: "(\<And>a. keeps heap_inv (get a)) \<Longrightarrow> keeps heap_inv (case_op get w)"
  unfolding case_op_def by (intro keeps_intros heap_inv_case_search | assumption)+

lemmas value_defs = andb_def andw_def andl_def orb_def orw_def orl_def xorb_def xorw_def xorl_def shlb_def shlw_def
  shll_def shrb_def shrw_def shrl_def lsrw_def lsrl_def cvtbw_def cvtwb_def cvtwl_def cvtlw_def cvtws_def cvtsw_def
  cvtrf_def cvtfr_def cvtlf_def cvtwf_def cvtfl_def cvtfw_def cvtxf_def cvtfx_def cvtxx_def cvtxx0_def mulx_def
  divx_def mulx0_def divx0_def negf_def addb_def addw_def addl_def addf_def subb_def subw_def subl_def subf_def
  mulb_def mulw_def mull_def mulf_def divb_def divw_def divl_def divf_def modb_def modw_def modl_def expw_def
  expl_def expf_def movb_def movw_def movf_def movl_def movm_def lea_def

lemmas branch_defs = bltb_def bgtb_def bleb_def bgeb_def beqb_def bneb_def bltw_def bgtw_def blew_def bgew_def
  beqw_def bnew_def bltf_def bgtf_def blef_def bgef_def beqf_def bnef_def bltl_def bgtl_def blel_def bgel_def
  beql_def bnel_def bltc_def bgtc_def blec_def bgec_def beqc_def bnec_def jmp_def goto_op_def casew_def casel_def
  casec_def

lemma keeps_value_instructions [keeps_intros]:
  "keeps heap_inv andb" "keeps heap_inv andw" "keeps heap_inv andl" "keeps heap_inv orb" "keeps heap_inv orw"
  "keeps heap_inv orl" "keeps heap_inv xorb" "keeps heap_inv xorw" "keeps heap_inv xorl" "keeps heap_inv shlb"
  "keeps heap_inv shlw" "keeps heap_inv shll" "keeps heap_inv shrb" "keeps heap_inv shrw" "keeps heap_inv shrl"
  "keeps heap_inv lsrw" "keeps heap_inv lsrl" "keeps heap_inv cvtbw" "keeps heap_inv cvtwb" "keeps heap_inv cvtwl"
  "keeps heap_inv cvtlw" "keeps heap_inv cvtws" "keeps heap_inv cvtsw" "keeps heap_inv (cvtrf E)" "keeps heap_inv (cvtfr E)"
  "keeps heap_inv (cvtlf E)" "keeps heap_inv (cvtwf E)" "keeps heap_inv (cvtfl E)" "keeps heap_inv (cvtfw E)"
  "keeps heap_inv (cvtxf E)" "keeps heap_inv (cvtfx E)" "keeps heap_inv cvtxx" "keeps heap_inv cvtxx0" "keeps heap_inv mulx"
  "keeps heap_inv divx" "keeps heap_inv mulx0" "keeps heap_inv divx0" "keeps heap_inv (negf E)" "keeps heap_inv addb"
  "keeps heap_inv addw" "keeps heap_inv addl" "keeps heap_inv (addf E)" "keeps heap_inv subb" "keeps heap_inv subw"
  "keeps heap_inv subl" "keeps heap_inv (subf E)" "keeps heap_inv mulb" "keeps heap_inv mulw" "keeps heap_inv mull"
  "keeps heap_inv (mulf E)" "keeps heap_inv divb" "keeps heap_inv divw" "keeps heap_inv divl" "keeps heap_inv (divf E)"
  "keeps heap_inv modb" "keeps heap_inv modw" "keeps heap_inv modl" "keeps heap_inv expw" "keeps heap_inv expl"
  "keeps heap_inv (expf E)" "keeps heap_inv movb" "keeps heap_inv movw" "keeps heap_inv movf" "keeps heap_inv movl"
  "keeps heap_inv movm" "keeps heap_inv lea"
  unfolding value_defs by (intro keeps_intros)+

lemma keeps_branch_instructions [keeps_intros]:
  "keeps heap_inv bltb" "keeps heap_inv bgtb" "keeps heap_inv bleb" "keeps heap_inv bgeb" "keeps heap_inv beqb"
  "keeps heap_inv bneb" "keeps heap_inv bltw" "keeps heap_inv bgtw" "keeps heap_inv blew" "keeps heap_inv bgew"
  "keeps heap_inv beqw" "keeps heap_inv bnew" "keeps heap_inv (bltf E)" "keeps heap_inv (bgtf E)" "keeps heap_inv (blef E)"
  "keeps heap_inv (bgef E)" "keeps heap_inv (beqf E)" "keeps heap_inv (bnef E)" "keeps heap_inv bltl" "keeps heap_inv bgtl"
  "keeps heap_inv blel" "keeps heap_inv bgel" "keeps heap_inv beql" "keeps heap_inv bnel" "keeps heap_inv bltc"
  "keeps heap_inv bgtc" "keeps heap_inv blec" "keeps heap_inv bgec" "keeps heap_inv beqc" "keeps heap_inv bnec"
  "keeps heap_inv jmp" "keeps heap_inv goto_op" "keeps heap_inv casew" "keeps heap_inv casel" "keeps heap_inv casec"
  unfolding branch_defs by (intro keeps_intros)+

section \<open>Instructions on objects\<close>

lemma keeps_string_conversions [keeps_intros]:
  "(\<And>a v. keeps heap_inv (putter a v)) \<Longrightarrow> keeps heap_inv (string_to_number parse nil_value putter)"
  "(\<And>a. keeps heap_inv (getter a)) \<Longrightarrow> keeps heap_inv (number_to_string getter render n)"
  unfolding string_to_number_def number_to_string_def by (intro keeps_intros | assumption)+

lemma keeps_string_instructions [keeps_intros]:
  "keeps heap_inv cvtca" "keeps heap_inv cvtac" "keeps heap_inv cvtcw" "keeps heap_inv cvtcl" "keeps heap_inv (cvtcf E)"
  "keeps heap_inv cvtwc" "keeps heap_inv cvtlc" "keeps heap_inv (cvtfc E)" "keeps heap_inv lenc" "keeps heap_inv indc"
  "keeps heap_inv insc" "keeps heap_inv addc" "keeps heap_inv slicec"
  unfolding cvtca_def cvtac_def cvtcw_def cvtcl_def cvtcf_def cvtwc_def cvtlc_def cvtfc_def lenc_def indc_def insc_def
    addc_def slicec_def Let_def
  by (intro keeps_intros)+

lemma keeps_movp [keeps_intros]: "keeps heap_inv movp"
  unfolding movp_def Let_def by (intro keeps_intros)

lemma keeps_movmp [keeps_intros]: "keeps heap_inv movmp"
  unfolding movmp_def Let_def by (intro keeps_intros)

lemma keeps_lena [keeps_intros]: "keeps heap_inv lena"
  unfolding lena_def Let_def by (intro keeps_intros)

lemma keeps_slicea [keeps_intros]: "keeps heap_inv slicea"
  unfolding slicea_def Let_def by (intro keeps_intros)

lemma keeps_slicela [keeps_intros]: "keeps heap_inv slicela"
  unfolding slicela_def Let_def by (intro keeps_intros)

lemma keeps_index_in [keeps_intros]: "keeps heap_inv index_in"
  unfolding index_in_def Let_def by (intro keeps_intros)

lemma keeps_lenl [keeps_intros]: "keeps heap_inv lenl"
  unfolding lenl_def Let_def by (intro keeps_intros)

lemma keeps_cons_value [keeps_intros]: "keeps heap_inv (cons_value td n)"
  unfolding cons_value_def Let_def by (intro keeps_intros)

lemma keeps_consp [keeps_intros]: "keeps heap_inv consp"
  unfolding consp_def Let_def by (intro keeps_intros)

lemma keeps_consmp [keeps_intros]: "keeps heap_inv consmp"
  unfolding consmp_def Let_def by (intro keeps_intros)

lemma keeps_head_value [keeps_intros]: "keeps heap_inv (head_value td n)"
  unfolding head_value_def Let_def by (intro keeps_intros)

lemma keeps_tail_op [keeps_intros]: "keeps heap_inv tail_op"
  unfolding tail_op_def Let_def by (intro keeps_intros)

lemma keeps_create_tracked [keeps_intros]: "keeps heap_inv (create_tracked td)"
  unfolding create_tracked_def Let_def by (intro keeps_intros)

lemma keeps_new_array_op [keeps_intros]: "keeps heap_inv new_array_op"
  unfolding new_array_op_def Let_def by (intro keeps_intros)

lemma keeps_tcmp [keeps_intros]: "keeps heap_inv tcmp"
  unfolding tcmp_def Let_def by (intro keeps_intros)

lemma keeps_object_instructions2 [keeps_intros]:
  "keeps heap_inv headp" "keeps heap_inv headmp" "keeps heap_inv new_instance" "keeps heap_inv mnewz"
  unfolding headp_def headmp_def new_instance_def mnewz_def by (intro keeps_intros)+

lemmas object_aliases = indb_def indw_def indf_def indl_def indx_def consb_def consw_def consf_def consl_def headb_def
  headw_def headf_def headl_def new_op_def newz_def newa_def newaz_def

lemma keeps_object_aliases [keeps_intros]:
  "keeps heap_inv indb" "keeps heap_inv indw" "keeps heap_inv indf" "keeps heap_inv indl" "keeps heap_inv indx"
  "keeps heap_inv consb" "keeps heap_inv consw" "keeps heap_inv consf" "keeps heap_inv consl" "keeps heap_inv headb"
  "keeps heap_inv headw" "keeps heap_inv headf" "keeps heap_inv headl" "keeps heap_inv new_op" "keeps heap_inv newz"
  "keeps heap_inv newa" "keeps heap_inv newaz"
  unfolding object_aliases by (intro keeps_intros)+

section \<open>Channels\<close>

definition transfer_keeps :: "('s \<Rightarrow> bool) \<Rightarrow> 's transfer \<Rightarrow> bool" where
  "transfer_keeps I transfer = (\<forall>d s td st st'. transfer d s td st = Inr st' \<longrightarrow> I st \<longrightarrow> I st')"

lemma try_keeps:
  assumes "transfer_keeps I transfer" "I st"
  shows "try_send_to_buffer transfer ch rq pend st = Inr (b, ch', pend', st') \<Longrightarrow> I st'"
    "try_receive_from_buffer transfer ch rq pend st = Inr (b, ch', pend', st') \<Longrightarrow> I st'"
  using assms unfolding try_send_to_buffer_def try_receive_from_buffer_def transfer_keeps_def
  by (auto simp: Let_def rbind_eq_Inr split: option.splits if_splits)

lemma send_keeps:
  assumes t: "transfer_keeps I transfer" and i: "I st"
    and s: "send_data transfer ch rq pend st = Inr res"
  shows "I (cr_state res)"
proof (cases "drop_stale pend (ch_receivers ch)")
  case Nil
  then show ?thesis using s i
    by (auto simp: send_data_def channel_result_def require_eq_Inr rbind_eq_Inr Let_def
      split: option.splits if_splits prod.splits dest: try_keeps [OF t i])
next
  case (Cons r rs)
  then show ?thesis using s i t
    by (auto simp: send_data_def channel_result_def require_eq_Inr rbind_eq_Inr transfer_keeps_def split: if_splits)
qed

lemma receive_keeps:
  assumes t: "transfer_keeps I transfer" and i: "I st"
    and s: "receive_data transfer ch rq pend st = Inr res"
  shows "I (cr_state res)"
proof (cases "drop_stale pend (ch_senders ch)")
  case Nil
  then show ?thesis using s i
    by (auto simp: receive_data_def channel_result_def require_eq_Inr rbind_eq_Inr Let_def
      split: option.splits if_splits prod.splits dest: try_keeps [OF t i])
next
  case (Cons r rs)
  have "I st2" if "transfer d a td st = Inr st2" for d a td st2 using t i that by (auto simp: transfer_keeps_def)
  moreover have "I st2" if "try_receive_from_buffer transfer c q p st = Inr (b, c', p', st1)"
      "try_send_to_buffer transfer c' q' p' st1 = Inr (b', c'', p'', st2)" for c q p b c' p' st1 q' b' c'' p'' st2
    using try_keeps(1) [OF t try_keeps(2) [OF t i that(1)] that(2)] .
  ultimately show ?thesis using s i Cons
    by (auto simp: receive_data_def channel_result_def require_eq_Inr rbind_eq_Inr Let_def
      split: option.splits if_splits prod.splits)
qed

lemma heap_inv_transfer: "transfer_keeps heap_inv (run_transfer k)"
proof -
  have k: "keeps heap_inv (transfer_data k d s td)" for d s td
    unfolding transfer_data_def by (cases k) (simp_all add: keeps_intros)
  show ?thesis
    unfolding transfer_keeps_def run_transfer_def
    using k keepsD by (fastforce split: prod.splits sum.splits)
qed

lemma keeps_channel_objects [keeps_intros]:
  "keeps heap_inv (channel_at p)" "keeps heap_inv (put_channel p k ch)" "keeps heap_inv (at_channel a)"
  "keeps heap_inv (new_channel td k w)"
  unfolding channel_at_def put_channel_def at_channel_def new_channel_def Let_def by (intro keeps_intros)+

lemma heap_inv_pending [simp]: "heap_inv (c\<lparr> w_pending := x \<rparr>) = heap_inv c"
  by (simp add: heap_inv_def)

lemma keeps_request:
  assumes "\<And>tr ch rq pend st res. transfer_keeps heap_inv tr \<Longrightarrow> heap_inv st \<Longrightarrow> op tr ch rq pend st = Inr res \<Longrightarrow> heap_inv (cr_state res)"
  shows "keeps heap_inv (channel_request op p rq)"
proof -
  have "keeps heap_inv (\<lambda>c. case op (run_transfer k) ch rq (w_pending c) c of
         Inl e \<Rightarrow> (Inl e, c) | Inr res \<Rightarrow> (Inr res, (cr_state res)\<lparr> w_pending := cr_pending res \<rparr>))" for k ch
    unfolding keeps_def by (auto dest: assms [OF heap_inv_transfer] split: sum.split)
  then show ?thesis unfolding channel_request_def by (intro keeps_intros)
qed

lemma keeps_requests [keeps_intros]:
  "keeps heap_inv (channel_request send_data p rq)" "keeps heap_inv (channel_request receive_data p rq)"
  by (rule keeps_request, erule (2) send_keeps) (rule keeps_request, erule (2) receive_keeps)

lemma keeps_cancel [keeps_intros]: "keeps heap_inv (cancel_channel_request p t)"
  "keeps heap_inv (alt_send_count a)" "keeps heap_inv (alt_receive_count a)"
  unfolding cancel_channel_request_def alt_send_count_def alt_receive_count_def by (intro keeps_intros)+

lemma keeps_cancel_loop [keeps_intros]: "keeps heap_inv (cancel_outstanding_loop t a h is i)"
  by (induction "is" arbitrary: i) (simp_all only: cancel_outstanding_loop.simps, (intro keeps_intros | assumption)+)

lemma keeps_cancel_all [keeps_intros]: "keeps heap_inv (cancel_outstanding_channel_requests t a h)"
  "keeps heap_inv (enqueue_blocked_thread t)" "keeps heap_inv (begin_request s)"
  unfolding cancel_outstanding_channel_requests_def enqueue_blocked_thread_def begin_request_def by (intro keeps_intros)+

lemma keeps_request_handled [keeps_intros]: "keeps heap_inv (request_handled p cb)"
  unfolding request_handled_def by (intro keeps_intros)

lemma keeps_alt_loop [keeps_intros]: "keeps heap_inv (alt_loop t a n is q)"
  by (induction "is" arbitrary: q) (simp_all only: alt_loop.simps Let_def, (intro keeps_intros | assumption)+)

lemma keeps_channel_instructions [keeps_intros]:
  "keeps heap_inv (newc td k)" "keeps heap_inv send" "keeps heap_inv recv" "keeps heap_inv (exec_alt E b)"
  unfolding newc_def send_def recv_def exec_alt_def Let_def by (intro keeps_intros)+

lemma keeps_channel_instructions2 [keeps_intros]:
  "keeps heap_inv newcb" "keeps heap_inv newcw" "keeps heap_inv newcf" "keeps heap_inv newcl" "keeps heap_inv newcp"
  "keeps heap_inv newcm" "keeps heap_inv newcmp" "keeps heap_inv (alt_op E)" "keeps heap_inv (nbalt E)"
  unfolding newcb_def newcw_def newcf_def newcl_def newcp_def newcm_def newcmp_def alt_op_def nbalt_def
  by (intro keeps_intros)+

section \<open>Control\<close>

definition env_keeps :: "(cpu \<Rightarrow> bool) \<Rightarrow> env \<Rightarrow> bool" where
  "env_keeps I E = ((\<forall>f. keeps I (e_native E f)) \<and> (\<forall>ev. keeps I (e_tool E ev)) \<and> (\<forall>path. keeps I (e_load_module E path)))"

lemma keeps_find_handler [keeps_intros]: "keeps heap_inv (find_exception_handler st m pc s)"
proof -
  have "keeps heap_inv (find_handler_fuel n f m pc s)" for n f m pc
  proof (induction n arbitrary: f m pc)
    case 0
    show ?case unfolding find_handler_fuel.simps by (intro keeps_intros)
  next
    case (Suc n)
    show ?case unfolding find_handler_fuel.simps by (intro keeps_intros Suc.IH)
  qed
  from keeps_state_dep [of heap_inv "\<lambda>n. find_handler_fuel n (peek_frame st) m pc s" "\<lambda>h. Suc (length (h_frame_types h))", OF this]
  show ?thesis unfolding find_exception_handler_def .
qed

lemma keeps_call_parts [keeps_intros]: "keeps heap_inv (restore_module f)" "keeps heap_inv (validate_stack f)"
  "keeps heap_inv pop_argument_frame" "keeps heap_inv (exception_id_of e)"
  "keeps heap_inv (enter_handler e h f pc)" "keeps heap_inv (new_module_ref_with m refs)"
  unfolding restore_module_def validate_stack_def pop_argument_frame_def exception_id_of_def enter_handler_def
    new_module_ref_with_def Let_def
  by (intro keeps_intros)+

lemma keeps_unwind [keeps_intros]: "keeps heap_inv (unwind_to f)"
proof -
  have u: "keeps heap_inv (unwind_fuel n f)" for n
    by (induction n) (simp_all only: unwind_fuel.simps, (intro keeps_intros | assumption)+)
  have "keeps heap_inv (\<lambda>c. unwind_fuel (Suc (length (h_frame_types c))) f c)"
    by (rule keeps_state_dep [of heap_inv "\<lambda>n. unwind_fuel n f" "\<lambda>h. Suc (length (h_frame_types h))", OF u])
  then show ?thesis unfolding unwind_to_def by (intro keeps_intros)
qed

lemma keeps_threads [keeps_intros]: "keeps heap_inv (new_registers t p e)" "keeps heap_inv unique_thread_id"
  "keeps heap_inv (scheduler_add r)" "keeps heap_inv (new_import_ref m ims)"
  unfolding new_registers_def unique_thread_id_def scheduler_add_def new_import_ref_def by (intro keeps_intros)+

lemma keeps_new_thread [keeps_intros]: "keeps heap_inv (new_thread_at e p f pc)" "keeps heap_inv (new_thread e p)"
  unfolding new_thread_at_def new_thread_def Let_def by (intro keeps_intros)+

lemma keeps_control_instructions [keeps_intros]:
  "keeps heap_inv frame_op" "keeps heap_inv mframe" "keeps heap_inv ret_op" "keeps heap_inv call_op"
  "keeps heap_inv exit_op" "keeps heap_inv runt" "keeps heap_inv notimpl" "keeps heap_inv invalid_op" "keeps heap_inv eclr"
  unfolding frame_op_def mframe_def ret_op_def call_op_def exit_op_def runt_def notimpl_def invalid_op_def eclr_def
  by (intro keeps_intros)+

lemma keeps_vm_exn [keeps_intros]: "(\<And>m. keeps I (f m)) \<Longrightarrow> (\<And>m. keeps I (g m)) \<Longrightarrow>
    keeps I (case e of MarshallableUserException m \<Rightarrow> f m | ModuleException m \<Rightarrow> g m | _ \<Rightarrow> throw e)"
  by (cases e) (simp_all add: keeps_basic)

lemma keeps_env [keeps_intros]:
  "env_keeps heap_inv E \<Longrightarrow> keeps heap_inv (e_native E f)" "env_keeps heap_inv E \<Longrightarrow> keeps heap_inv (e_tool E ev)"
  "env_keeps heap_inv E \<Longrightarrow> keeps heap_inv (e_load_module E path)"
  by (simp_all add: env_keeps_def)

lemma keeps_tool_event [keeps_intros]: "env_keeps heap_inv E \<Longrightarrow> keeps heap_inv (tool_event E ev)"
  unfolding tool_event_def by (intro keeps_intros | assumption)+

lemma keeps_raise [keeps_intros]: "env_keeps heap_inv E \<Longrightarrow> keeps heap_inv (raise_alloc E e)"
  unfolding raise_alloc_def by (intro keeps_intros | assumption)+

lemma keeps_raise_op [keeps_intros]: "env_keeps heap_inv E \<Longrightarrow> keeps heap_inv (raise_op E)"
  unfolding raise_op_def by (intro keeps_intros | assumption)+

lemma keeps_code_entry [keeps_intros]:
  "(\<And>i. keeps I (f i)) \<Longrightarrow> (\<And>i. keeps I (g i)) \<Longrightarrow> keeps I (case e of Exec i \<Rightarrow> f i | Native j \<Rightarrow> g j)"
  by (cases e) simp_all

lemma keeps_marshallable [keeps_intros]:
  "(\<And>m. keeps I (f m)) \<Longrightarrow> keeps I (case e of MarshallableUserException m \<Rightarrow> f m | _ \<Rightarrow> throw e)"
  by (cases e) (simp_all add: keeps_basic)

lemma keeps_module_exception [keeps_intros]:
  "(\<And>m. keeps I (f m)) \<Longrightarrow> keeps I (case e of ModuleException m \<Rightarrow> f m | _ \<Rightarrow> throw e)"
  by (cases e) (simp_all add: keeps_basic)

lemma keeps_native_call [keeps_intros]: "env_keeps heap_inv E \<Longrightarrow> keeps heap_inv (native_call E f)"
  unfolding native_call_def by (intro keeps_intros | assumption)+

lemma keeps_mcall [keeps_intros]: "env_keeps heap_inv E \<Longrightarrow> keeps heap_inv (mcall E)"
  unfolding mcall_def by (intro keeps_intros | assumption)+

lemma keeps_fork [keeps_intros]: "env_keeps heap_inv E \<Longrightarrow> keeps heap_inv (fork E t m f pc)"
  unfolding fork_def schedule_thread_def by (intro keeps_intros | assumption)+

lemma keeps_spawn [keeps_intros]: "env_keeps heap_inv E \<Longrightarrow> keeps heap_inv (spawn_op E)"
  unfolding spawn_op_def by (intro keeps_intros | assumption)+

lemma keeps_mspawn [keeps_intros]: "env_keeps heap_inv E \<Longrightarrow> keeps heap_inv (mspawn E)"
  unfolding mspawn_def by (intro keeps_intros | assumption)+

lemma keeps_load [keeps_intros]: "env_keeps heap_inv E \<Longrightarrow> keeps heap_inv (load_op E)"
  unfolding load_op_def by (intro keeps_intros | assumption)+

section \<open>The interpreter\<close>

lemma keeps_decode [keeps_intros]: "keeps heap_inv (decode_address inst a)"
proof -
  have fp: "keeps heap_inv current_frame_base" "keeps heap_inv current_mp"
    unfolding current_frame_base_def current_mp_def by (intro keeps_intros)+
  have i: "(\<And>b. keeps heap_inv (g b)) \<Longrightarrow> keeps heap_inv (indirect x r g)" for x r g
    unfolding indirect_def by (intro keeps_intros | assumption)+
  have s: "keeps heap_inv (dec_src M inst a)" for M
    unfolding dec_src_def Let_def by (cases M) (simp_all only: addr_mode.simps, (intro keeps_intros fp i)+)
  have d: "keeps heap_inv (dec_dest M inst a)" for M
    unfolding dec_dest_def Let_def by (cases M) (simp_all only: addr_mode.simps, (intro keeps_intros fp i)+)
  have m: "keeps heap_inv (dec_mid M inst a)" for M
    unfolding dec_mid_def Let_def by (cases M) (simp_all only: middle_mode.simps, (intro keeps_intros fp i)+)
  show ?thesis unfolding decode_address_def da_def by (intro keeps_intros s d m)
qed

lemma keeps_table_low: "env_keeps heap_inv E \<Longrightarrow> m \<in> set (exec_table_low E) \<Longrightarrow> keeps heap_inv m"
  unfolding exec_table_low_def list.set insert_iff empty_iff
  by (elim disjE; hypsubst?; (intro keeps_intros | assumption | simp))

lemma keeps_table_high:
  "env_keeps heap_inv E \<Longrightarrow> keeps heap_inv brk \<Longrightarrow> m \<in> set (exec_table_high brk E) \<Longrightarrow> keeps heap_inv m"
  unfolding exec_table_high_def list.set insert_iff empty_iff
  by (elim disjE; hypsubst?; (intro keeps_intros | assumption | simp))

lemma keeps_table:
  assumes "env_keeps heap_inv E" "keeps heap_inv brk" "n \<le> last_opcode"
  shows "keeps heap_inv ((exec_table_low E @ exec_table_high brk E) ! n)"
proof -
  have "n < length (exec_table_low E @ exec_table_high brk E)"
    using assms(3) by (simp add: exec_table_low_def exec_table_high_def last_opcode_def)
  then have "(exec_table_low E @ exec_table_high brk E) ! n \<in> set (exec_table_low E) \<union> set (exec_table_high brk E)"
    using nth_mem set_append by metis
  then show ?thesis using keeps_table_low [OF assms(1)] keeps_table_high [OF assms(1,2)] by blast
qed

lemma keeps_brkpt: 
  assumes "env_keeps heap_inv E"
  shows "keeps heap_inv (brkpt E)"
  unfolding brkpt_def by (intro keeps_intros assms keeps_table [OF assms keeps_basic(2)] | assumption)+

lemma keeps_exec_table: "env_keeps heap_inv E \<Longrightarrow> n \<le> last_opcode \<Longrightarrow> keeps heap_inv (exec_table E ! n)"
  unfolding exec_table_def by (rule keeps_table [OF _ keeps_brkpt])

lemma keeps_vm_assert_bind:
  "(b \<Longrightarrow> keeps I m) \<Longrightarrow> keeps I (eseq (vm_assert b msg) m)"
  by (cases b) (simp_all add: keeps_basic)

lemma keeps_exec_step:
  assumes E: "env_keeps heap_inv E"
  shows "keeps heap_inv (exec_step E t)"
proof -
  have a: "keeps heap_inv (begin_exec_loop E t)" "keeps heap_inv (after_exec E t)"
    unfolding begin_exec_loop_def after_exec_def by (intro keeps_intros E)+
  have b: "keeps heap_inv (eseq (vm_assert (in_opcode i \<le> last_opcode) s) (eseq (decode_address i b)
      (eseq (set_reg g) (eseq (exec_table E ! in_opcode i) (eseq (set_reg g') (after_exec E t))))))" for i s b g g'
    by (rule keeps_vm_assert_bind) (intro keeps_intros keeps_exec_table E a | assumption)+
  show ?thesis unfolding exec_step_def
    by (rule a b keeps_basic keeps_bind keeps_seq keeps_code_entry heap_inv_set_reg heap_inv_lookup heap_inv_modules)+
qed

lemma keeps_exec_loop:
  assumes E: "env_keeps heap_inv E"
  shows "keeps heap_inv (exec_loop E t n)"
  by (induction n) (simp_all only: exec_loop.simps, (intro keeps_intros keeps_exec_step [OF E] | assumption)+)

lemma keeps_execute:
  assumes E: "env_keeps heap_inv E"
  shows "keeps heap_inv (execute E n)"
proof -
  have "keeps heap_inv (break_thread e)" for e
    unfolding break_thread_def Let_def by (intro keeps_intros)
  moreover have "keeps heap_inv (finish_slice E t)" for t
    unfolding finish_slice_def by (intro keeps_intros E)
  ultimately show ?thesis unfolding execute_def by (intro keeps_intros keeps_exec_loop [OF E])
qed

text \<open>
  A time slice of a thread keeps the heap invariant however it ends: objects stay distinct,
  inside the allocated range and described by a type, whichever of the 176 instructions run,
  whether they return or throw, provided the native functions, the tools and the module loader
  do.
\<close>

theorem execute_keeps_heap_inv:
  assumes "env_keeps heap_inv E" "heap_inv c"
  shows "heap_inv (snd (execute E n c))"
  using keeps_execute [OF assms(1)] assms(2) unfolding keeps_def by blast

lemma sample_env_keeps: "env_keeps I idle_env"
  by (simp add: env_keeps_def idle_env_def keeps_basic)

lemma sample_heap_inv: "heap_inv (sample_cpu move_add_exit)"
  by (auto simp: heap_inv_def sample_defs move_add_exit_def map_add_def bytes32_def address_limit_def split: option.splits if_splits)

theorem execute_keeps_heap_inv_witness: "heap_inv (snd (execute idle_env 3 (sample_cpu move_add_exit)))"
  by (rule execute_keeps_heap_inv [OF sample_env_keeps sample_heap_inv])

end
