(* ===== verification/ExecSpec.thy ===== *)
theory ExecSpec
  imports Sample
begin

text \<open>
  What the instructions compute: exponentiation against the power function, signed division
  and remainder against each other.
\<close>

section \<open>Exponentiation\<close>

lemma sint_half: "sint (signed_drop_bit 1 (w :: word_t)) = sint w div 2"
  by (simp add: sint_signed_drop_bit_eq drop_bit_eq_div)

lemma sint_zero_iff: "sint w = 0 \<longleftrightarrow> w = 0"
  by (metis signed_0 signed_word_eqI)

lemma bit_0_odd: "bit (w :: word_t) 0 \<longleftrightarrow> odd (sint w)"
  by (simp add: bit_0 even_word_iff bit_sint_iff flip: bit_0)

lemma square_power: "(b * b) ^ k = b ^ (2 * k)" for b :: "'a::monoid_mult"
  by (simp add: power_mult power2_eq_square)

lemma power_loop_power:
  fixes base :: "'a::comm_monoid_mult"
  assumes "0 \<le> sint pw" "sint pw < 2 ^ Suc n"
  shows "power_loop (Suc n) (*) base pw result = Inr (result * base ^ nat (sint pw))"
  using assms
proof (induction n arbitrary: base pw result)
  case 0
  then have "sint pw = 0 \<or> sint pw = 1" by auto
  then show ?case using sint_half [of pw]
    by (auto simp: bit_0_odd sint_zero_iff simp flip: sint_zero_iff [of "signed_drop_bit 1 pw"])
next
  case (Suc n)
  define q where "q = signed_drop_bit 1 pw"
  define r where "r = (if bit pw 0 then result * base else result)"
  have q: "sint q = sint pw div 2" "0 \<le> sint q" "sint q < 2 ^ Suc n"
    using Suc.prems unfolding q_def sint_half by auto
  have e: "r * (base * base) ^ nat (sint q) = result * base ^ nat (sint pw)"
  proof (cases "odd (sint pw)")
    case True
    then have "nat (sint pw) = Suc (2 * nat (sint q))" using q Suc.prems(1) by (simp add: nat_eq_iff; presburger?)
    then show ?thesis using True by (simp add: r_def bit_0_odd square_power ac_simps)
  next
    case False
    then have "nat (sint pw) = 2 * nat (sint q)" using q Suc.prems(1) by (simp add: nat_eq_iff; presburger?)
    then show ?thesis using False by (simp add: r_def bit_0_odd square_power)
  qed
  have s: "power_loop (Suc (Suc n)) (*) base pw result = (if q = 0 then Inr r else power_loop (Suc n) (*) (base * base) q r)"
    unfolding power_loop.simps(2) [of "Suc n"] Let_def q_def r_def ..
  show ?case
  proof (cases "q = 0")
    case True
    then show ?thesis using e by (simp add: s del: power_loop.simps)
  next
    case False
    then show ?thesis using Suc.IH [OF q(2,3)] e by (simp add: s del: power_loop.simps)
  qed
qed

text \<open>
  \<^verbatim>\<open>_exp\<close> raises the base to the power: for every exponent but the least integer the loop of
  squarings ends within its 33 rounds with the product the power function defines, wrapped to
  the type of the base, and a negative exponent inverts the power of its absolute value.
\<close>

theorem exp_by_squaring_power:
  fixes base :: "'a::len word"
  assumes "pw \<noteq> 0x80000000"
  shows "exp_by_squaring (*) 1 invert base pw =
    (if 0 \<le> sint pw then Inr (base ^ nat (sint pw)) else invert (base ^ nat (- sint pw)))"
proof -
  have r: "- (2 ^ 31) \<le> sint pw" "sint pw < 2 ^ 31"
    using sint_greater_eq [of pw] sint_less [of pw] by simp_all
  have m: "sint pw \<noteq> - (2 ^ 31)"
    using assms signed_word_eqI [of pw "0x80000000"] by auto
  have n: "sint (- pw) = - sint pw"
    using r m by (simp add: sint_word_minus signed_take_bit_int_eq_self)
  show ?thesis
    using r n power_loop_power [of pw 32 base 1] power_loop_power [of "- pw" 32 base 1]
    by (auto simp: exp_by_squaring_def simp del: power_loop.simps)
qed

theorem exp_by_squaring_power_witness:
  "exp_by_squaring (*) 1 (\<lambda>r. require (r \<noteq> 0) DivideByZero (signed_div 1 r)) (3 :: word_t) 5 = Inr 243"
  by (simp add: exp_by_squaring_power)

text \<open>
  The least integer is its own negation, so raising to it leaves the loop with a negative
  exponent, which shifting right never brings to zero: no number of rounds ends the loop, whatever
  the base.
\<close>

theorem power_loop_negative:
  "exp_by_squaring mul one invert base 0x80000000 = Inl OutOfFuel \<and> power_loop n mul base (- 0x80000000) result = Inl OutOfFuel"
proof -
  have l: "power_loop n mul b pw r = Inl OutOfFuel" if "sint pw < 0" for n b pw r
    using that
  proof (induction n arbitrary: b pw r)
    case (Suc n)
    have "sint (signed_drop_bit 1 pw) < 0" using Suc.prems by (simp only: sint_half)
    then have "signed_drop_bit 1 pw \<noteq> 0" by auto
    with Suc.IH [OF \<open>sint (signed_drop_bit 1 pw) < 0\<close>] show ?case by simp
  qed simp
  have "sint (0x80000000 :: word_t) < 0" by simp
  moreover have e: "(- 0x80000000 :: word_t) = 0x80000000" by code_simp
  ultimately show ?thesis using l [of "0x80000000"] unfolding exp_by_squaring_def Let_def e
    by (simp del: power_loop.simps)
qed

section \<open>Operands in memory\<close>

definition cell :: "nat \<Rightarrow> nat \<Rightarrow> cpu \<Rightarrow> bool" where
  "cell n a c = (a \<noteq> 0 \<and> mapped n a c)"

definition word_at :: "cpu \<Rightarrow> nat \<Rightarrow> word_t" where
  "word_at c a = word32 (bytes_at 4 c a)"

lemma get32_cell [eff_simps]: "cell 4 a c \<Longrightarrow> get32 a c = (Inr (word_at c a), c)"
  by (simp add: get32_def vt_load_def cell_def load_mapped word_at_def ebind_run)

lemma put32_cell [eff_simps]: "cell 4 a c \<Longrightarrow> put32 a v c = (Inr (), put_bytes a (bytes32 v) c)"
  by (simp add: put32_def vt_store_def cell_def store_mapped)

lemma reg_run [simp, eff_simps]: "reg f c = (Inr (f (c_regs c)), c)"
  by (simp add: reg_def)

lemma set_reg_run [simp, eff_simps]: "set_reg g c = (Inr (), c\<lparr> c_regs := g (c_regs c) \<rparr>)"
  by (simp add: set_reg_def)

definition word_operands :: "cpu \<Rightarrow> bool" where
  "word_operands c = (cell 4 (r_src (c_regs c)) c \<and> cell 4 (r_mid (c_regs c)) c \<and> cell 4 (r_dest (c_regs c)) c)"

lemma bin32_run:
  "word_operands c \<Longrightarrow> bin32 f c = (case f (word_at c (r_src (c_regs c))) (word_at c (r_mid (c_regs c))) of
     Inl e \<Rightarrow> (Inl e, c) | Inr v \<Rightarrow> (Inr (), put_bytes (r_dest (c_regs c)) (bytes32 v) c))"
  by (auto simp: bin32_def word_operands_def ebind_run eff_simps split: sum.split)

section \<open>Division and remainder\<close>

lemma quotient_in_range:
  fixes x y :: word_t
  assumes "y \<noteq> 0" "\<not> (sint x = - (2 ^ 31) \<and> y = - 1)"
  shows "sint (word_of_int (sint x sdiv sint y) :: word_t) = sint x sdiv sint y"
    "sint (word_of_int (sint x smod sint y) :: word_t) = sint x smod sint y"
proof -
  have x: "- (2 ^ 31) \<le> sint x" "sint x < 2 ^ 31" and y: "- (2 ^ 31) \<le> sint y" "sint y < 2 ^ 31"
    using sint_greater_eq [of x] sint_less [of x] sint_greater_eq [of y] sint_less [of y] by simp_all
  have y0: "sint y \<noteq> 0" using assms(1) sint_zero_iff by blast
  have r: "sint x sdiv sint y \<in> {- abs (sint x)..abs (sint x)}" by (rule sdiv_int_range)
  have q: "sint x sdiv sint y < 2 ^ 31"
  proof (rule ccontr)
    assume "\<not> sint x sdiv sint y < 2 ^ 31"
    with r x have *: "sint x sdiv sint y = - sint x" "sint x = - (2 ^ 31)"
      unfolding atLeastAtMost_iff by linarith+
    from *(2) have "sint x \<noteq> 0" by simp
    from int_sdiv_negated_is_minus1 [OF this, of "sint y"] *(1) have "sint y = - 1" by blast
    then have "y = - 1" by (metis signed_minus_1 signed_word_eqI)
    with * assms(2) show False by blast
  qed
  have "sint x smod sint y \<in> {- abs (sint y) + 1..abs (sint y) - 1}" using y0 by (rule smod_int_range)
  then have m: "- (2 ^ 31) \<le> sint x smod sint y" "sint x smod sint y < 2 ^ 31" using y by auto
  have d: "- (2 ^ 31) \<le> sint x sdiv sint y" using r x by auto
  show "sint (word_of_int (sint x sdiv sint y) :: word_t) = sint x sdiv sint y"
    using d q by (simp add: sint_sbintrunc' signed_take_bit_int_eq_self)
  show "sint (word_of_int (sint x smod sint y) :: word_t) = sint x smod sint y"
    using m by (simp add: sint_sbintrunc' signed_take_bit_int_eq_self)
qed

text \<open>
  \<^verbatim>\<open>divw\<close> and \<^verbatim>\<open>modw\<close> on the same operands: on a zero divisor both throw and leave the
  state as it was; otherwise, but for the one quotient that does not fit, they store a quotient
  and a remainder that give the dividend back, the remainder being smaller than the divisor in
  absolute value and zero or of the sign of the dividend, and nothing else changes.
\<close>

theorem divw_modw:
  assumes "word_operands c"
  defines "d \<equiv> sint (word_at c (r_src (c_regs c)))" and "m \<equiv> sint (word_at c (r_mid (c_regs c)))"
  shows "if d = 0 then divw c = (Inl DivideByZero, c) \<and> modw c = (Inl DivideByZero, c)
    else m = - (2 ^ 31) \<and> d = - 1 \<or> (\<exists>q r. divw c = (Inr (), put_bytes (r_dest (c_regs c)) (bytes32 q) c) \<and>
      modw c = (Inr (), put_bytes (r_dest (c_regs c)) (bytes32 r) c) \<and>
      sint q * d + sint r = m \<and> abs (sint r) < abs d \<and> (sint r = 0 \<or> sgn (sint r) = sgn m))"
proof -
  let ?d = "word_at c (r_src (c_regs c))" and ?m = "word_at c (r_mid (c_regs c))"
  have n1: "?d = - 1 \<longleftrightarrow> d = - 1" unfolding d_def by (metis signed_minus_1 signed_word_eqI)
  show ?thesis
  proof (cases "d = 0 \<or> m = - (2 ^ 31) \<and> d = - 1")
    case True
    then show ?thesis using assms(1)
      by (auto simp: divw_def modw_def bin32_run require_def d_def sint_zero_iff)
  next
    case False
    let ?q = "word_of_int (m sdiv d) :: word_t" and ?r = "word_of_int (m smod d) :: word_t"
    have d0: "?d \<noteq> 0" using False by (auto simp: d_def)
    have ok: "\<not> (sint ?m = - (2 ^ 31) \<and> ?d = - 1)" using False n1 m_def by simp
    have sv: "sint ?q = m sdiv d" "sint ?r = m smod d"
      unfolding m_def d_def using quotient_in_range [OF d0 ok] by simp_all
    have "divw c = (Inr (), put_bytes (r_dest (c_regs c)) (bytes32 ?q) c)"
      "modw c = (Inr (), put_bytes (r_dest (c_regs c)) (bytes32 ?r) c)"
      using d0 ok assms(1)
      by (simp_all add: divw_def modw_def bin32_run require_def signed_div_def signed_rem_def d_def m_def)
    moreover have "sint ?q * d + sint ?r = m" unfolding sv by (rule sdiv_mult_smod_eq)
    moreover have "abs (sint ?r) < abs d" using False smod_int_range [of d m] unfolding sv by auto
    moreover have "sint ?r = 0 \<or> sgn (sint ?r) = sgn m"
    proof (cases "abs m mod abs d = 0")
      case nz: False
      moreover have "0 \<le> abs m mod abs d" using False by simp
      ultimately have "sgn (abs m mod abs d) = 1" by (simp add: sgn_if)
      then show ?thesis unfolding sv unfolding smod_int_alt_def sgn_mult by simp
    qed (simp add: sv smod_int_alt_def)
    ultimately show ?thesis using False by auto
  qed
qed

definition operand_cpu :: cpu where
  "operand_cpu = (sample_cpu move_add_exit)\<lparr> c_regs := sample_regs\<lparr> r_src := 1068, r_mid := 1032, r_dest := 544 \<rparr> \<rparr>"

lemma operand_cpu_words: "word_operands operand_cpu" "word_at operand_cpu 1068 = 5" "word_at operand_cpu 1032 = 7"
  by (auto simp: operand_cpu_def word_operands_def cell_def mapped_def sample_defs move_add_exit_def map_add_def word_at_def
      bytes_at_def upt_4 nth_append word32_def bytes32_def)

theorem divw_modw_witness: "\<exists>q r. divw operand_cpu = (Inr (), put_bytes 544 (bytes32 q) operand_cpu) \<and>
    modw operand_cpu = (Inr (), put_bytes 544 (bytes32 r) operand_cpu) \<and> sint q * 5 + sint r = 7"
  using divw_modw [OF operand_cpu_words(1)] operand_cpu_words(2,3)
  by (auto simp: operand_cpu_def)

section \<open>Case tables\<close>

definition word_entries :: "cpu \<Rightarrow> nat \<Rightarrow> nat \<Rightarrow> (int \<times> int \<times> int) list" where
  "word_entries c a n = map (\<lambda>i. (sint (word_at c (a + 12 * i)), sint (word_at c (a + 12 * i + 4)),
     sint (word_at c (a + 12 * i + 8)))) [0..<n]"

definition pick :: "int \<Rightarrow> (int \<times> int \<times> int) list \<Rightarrow> int \<Rightarrow> int" where
  "pick v es d = (case find (\<lambda>(low, high, _). low \<le> v \<and> v < high) es of None \<Rightarrow> d | Some (_, _, target) \<Rightarrow> target)"

lemma word_entries_Suc:
  "word_entries c a (Suc n) = (sint (word_at c a), sint (word_at c (a + 4)), sint (word_at c (a + 8))) # word_entries c (a + 12) n"
  by (simp add: word_entries_def upt_rec [of 0 "Suc n"] map_Suc_upt [symmetric] comp_def add.assoc del: upt_Suc)

definition table_at :: "nat \<Rightarrow> nat \<Rightarrow> cpu \<Rightarrow> bool" where
  "table_at a n c = (0 < a \<and> a + 4 * n < 2 ^ 32 \<and> (\<forall>i<n. cell 4 (a + 4 * i) c))"

lemma ptr_add_no_wrap: "a + k < 2 ^ 32 \<Longrightarrow> ptr_add a (word_of_int (int k)) = a + k"
  unfolding ptr_add_def by (simp add: unat_of_nat take_bit_nat_eq_self flip: of_nat_add)

lemma table_entry_no_wrap: "table_at a n c \<Longrightarrow> k \<le> n \<Longrightarrow> table_entry 4 a (int k) = a + 4 * k"
proof -
  assume "table_at a n c" "k \<le> n"
  then have "a + 4 * k < 2 ^ 32" by (simp add: table_at_def)
  from ptr_add_no_wrap [OF this] show ?thesis by (simp add: table_entry_def mult.commute)
qed

definition signed_word :: "nat \<Rightarrow> int exec" where
  "signed_word = (\<lambda>a. ebind (get32 a) (\<lambda>w. eret (sint w)))"

lemma signed_word_run: "cell 4 a c \<Longrightarrow> signed_word a c = (Inr (sint (word_at c a)), c)"
  by (simp add: signed_word_def eff_simps)

lemma signed_word_entry:
  "table_at a n c \<Longrightarrow> k < n \<Longrightarrow> signed_word (table_entry 4 a (int k)) c = (Inr (sint (word_at c (a + 4 * k))), c)"
  using table_entry_no_wrap [of a n c k] by (simp add: signed_word_run table_at_def)

lemma table_at_shift: "table_at a (m + n) c \<Longrightarrow> table_at (a + 4 * m) n c"
  unfolding table_at_def by (metis add.assoc add_less_cancel_left add_mult_distrib2 trans_less_add1)

lemma case_search_pick:
  "table_at a (3 * n) c \<Longrightarrow> case_search signed_word 4 v n a d c = (Inr (pick v (word_entries c a n) d), c)"
proof (induction n arbitrary: a)
  case 0
  show ?case by (simp add: pick_def word_entries_def)
next
  case (Suc n)
  have r: "signed_word (table_entry 4 a 0) c = (Inr (sint (word_at c a)), c)"
    "signed_word (table_entry 4 a 1) c = (Inr (sint (word_at c (a + 4))), c)"
    "signed_word (table_entry 4 a 2) c = (Inr (sint (word_at c (a + 8))), c)"
    "table_entry 4 a 3 = a + 12"
    using signed_word_entry [OF Suc.prems, of 0] signed_word_entry [OF Suc.prems, of 1] signed_word_entry [OF Suc.prems, of 2]
      table_entry_no_wrap [OF Suc.prems, of 3] by simp_all
  have "table_at (a + 12) (3 * n) c" using table_at_shift [of a 3 "3 * n" c] Suc.prems by simp
  from Suc.IH [OF this] show ?case
    by (simp add: ebind_run r word_entries_Suc pick_def)
qed

text \<open>
  \<^verbatim>\<open>casew\<close> computes the lookup of its operand in the list of intervals its table spells out:
  the next instruction is the target of the first interval, low bound included and high bound
  excluded, that holds the value, else the default behind the entries; a target outside the
  module's code fails without effect.
\<close>

theorem casew_picks:
  fixes c :: cpu
  defines "table \<equiv> r_dest (c_regs c)" and "v \<equiv> sint (word_at c (r_src (c_regs c)))"
  assumes src: "cell 4 (r_src (c_regs c)) c" and t: "table_at table (2 + 3 * n) c"
    and n: "sint (word_at c table) = int n" and md: "current_module c = (Inr md, c)"
  shows "casew c = (let target = pick v (word_entries c (table + 4) n) (sint (word_at c (table + 4 + 12 * n)));
      pc = word_of_int target :: word_t in
    if unat pc < length (m_code_section md) then (Inr (), c\<lparr> c_regs := (c_regs c)\<lparr> r_next_pc := pc \<rparr> \<rparr>)
    else (Inl (AssertFailed ''target_pc''), c))"
proof -
  have nb: "int n < 2 ^ 31 - 1" using t by (simp add: table_at_def)
  have r: "signed_word (table_entry 4 table 0) c = (Inr (int n), c)"
    "signed_word (table_entry 4 table (1 + int n * 3)) c = (Inr (sint (word_at c (table + 4 + 12 * n))), c)"
    "table_entry 4 table 1 = table + 4"
    using signed_word_entry [OF t, of 0] signed_word_entry [OF t, of "1 + 3 * n"] table_entry_no_wrap [OF t, of 1] n
    by (simp_all add: algebra_simps)
  have "table_at (table + 4) (3 * n + 1) c" using table_at_shift [of table 1 "3 * n + 1" c] t by (simp add: ac_simps)
  then have "table_at (table + 4) (3 * n) c" by (auto simp: table_at_def)
  note s = case_search_pick [OF this]
  have "table \<noteq> 0" using t by (simp add: table_at_def)
  then show ?thesis using nb src
    by (simp add: casew_def case_op_def ebind_run eseq_def r s md signed_word_run Let_def vm_assert_def check_def
      flip: table_def v_def signed_word_def)
qed

definition case_cpu :: cpu where
  "case_cpu = (sample_cpu [Exec (binary_inst 45 (op_imm 7) (op_fp 24)), Exec (binary_inst 15 op_none op_none)])\<lparr>
     h_mem := bytes_memory 600 (concat (map bytes32 [1, 5, 8, 1, 0])) ++ bytes_memory 1024 (replicate 8 0 @ bytes32 7),
     c_regs := sample_regs\<lparr> r_src := 1032, r_dest := 600 \<rparr> \<rparr>"

theorem casew_picks_witness: "casew case_cpu = (Inr (), case_cpu\<lparr> c_regs := (c_regs case_cpu)\<lparr> r_next_pc := 1 \<rparr> \<rparr>)"
proof -
  have m: "cell 4 1032 case_cpu" "table_at 600 (2 + 3 * 1) case_cpu"
    by (auto simp: case_cpu_def cell_def mapped_def table_at_def map_add_def bytes_memory_def length_concat comp_def
        sum_list_triv split: option.splits)
  have w: "word_at case_cpu 1032 = 7" "map (word_at case_cpu) [600, 604, 608, 612, 616] = [1, 5, 8, 1, 0]"
    by (simp_all add: case_cpu_def word_at_def bytes_at_def map_add_def bytes_memory_def upt_4 nth_append word32_def bytes32_def)
  have md: "current_module case_cpu = (Inr (sample_module [Exec (binary_inst 45 (op_imm 7) (op_fp 24)),
      Exec (binary_inst 15 op_none op_none)]), case_cpu)"
    by (simp add: current_module_def module_of_def module_ref_at_def obj_at_def module_at_def ebind_run case_cpu_def
        sample_cpu_def sample_regs_def)
  show ?thesis
    using casew_picks [of case_cpu 1, OF _ _ _ md] m w
    by (simp add: case_cpu_def sample_regs_def pick_def word_entries_def sample_module_def Let_def)
qed

end
