(* ===== verification/ControlSpec.thy ===== *)
theory ControlSpec
  imports Sample
begin

text \<open>
  Exceptions and time slices: the search for a handler visits the frames of the stack from the
  innermost one, each frame's table in order, and a time slice turns every user exception that
  nothing handles into the broken state of its thread.
\<close>

section \<open>First matches\<close>

primrec first_some :: "('a \<Rightarrow> 'b option res) \<Rightarrow> 'a list \<Rightarrow> 'b option res" where
  "first_some f [] = Inr None"
| "first_some f (x # xs) = rbind (f x) (\<lambda>m. case m of Some y \<Rightarrow> Inr (Some y) | None \<Rightarrow> first_some f xs)"

lemma first_some_None: "first_some f xs = Inr None \<longleftrightarrow> (\<forall>x\<in>set xs. f x = Inr None)"
  by (induction xs) (auto simp: rbind_eq_Inr split: option.splits)

lemma first_some_split:
  "first_some f (pre @ x # post) = Inr (Some y)" if "\<forall>p\<in>set pre. f p = Inr None" "f x = Inr (Some y)"
  using that by (induction pre) auto

lemma first_some_Some:
  "first_some f xs = Inr (Some y) \<longleftrightarrow> (\<exists>pre x post. xs = pre @ x # post \<and> f x = Inr (Some y) \<and> (\<forall>p\<in>set pre. f p = Inr None))"
proof
  show "first_some f xs = Inr (Some y) \<Longrightarrow> \<exists>pre x post. xs = pre @ x # post \<and> f x = Inr (Some y) \<and> (\<forall>p\<in>set pre. f p = Inr None)"
  proof (induction xs)
    case (Cons x xs)
    show ?case
    proof (cases "f x = Inr None")
      case True
      with Cons obtain pre z post where "xs = pre @ z # post" "f z = Inr (Some y)" "\<forall>p\<in>set pre. f p = Inr None" by auto
      with True have "x # xs = (x # pre) @ z # post" "f z = Inr (Some y)" "\<forall>p\<in>set (x # pre). f p = Inr None" by auto
      then show ?thesis by blast
    next
      case False
      with Cons.prems have "f x = Inr (Some y)" by (auto simp: rbind_eq_Inr split: option.splits)
      then have "x # xs = [] @ x # xs" "f x = Inr (Some y)" "\<forall>p\<in>set []. f p = Inr None" by auto
      then show ?thesis by blast
    qed
  qed simp
qed (auto intro: first_some_split)

section \<open>One module's handlers\<close>

definition covers :: "word_t \<Rightarrow> handler_entry \<Rightarrow> bool" where
  "covers pc h = (sint (he_begin_pc h) \<le> sint pc \<and> sint pc < sint (he_end_pc h))"

definition handled_by :: "word_t \<Rightarrow> vm_string \<Rightarrow> handler_entry \<Rightarrow> (handler_entry \<times> word_t) option res" where
  "handled_by pc exc_id h = (if covers pc h
     then rbind (search_exceptions exc_id (he_exception_table h)) (\<lambda>m. Inr (map_option (\<lambda>t. (h, t)) m)) else Inr None)"

lemma search_handlers_first_some: "search_handlers pc exc_id hs = first_some (handled_by pc exc_id) hs"
proof (induction hs)
  case (Cons h hs)
  show ?case
    by (cases "search_exceptions exc_id (he_exception_table h)")
      (auto simp: Cons handled_by_def covers_def not_le not_less split: option.split)
qed simp

text \<open>
  C5: Within a module the handler found for an exception is the first whose range covers the
  program counter and whose exception table names the exception or has a default entry: the
  range includes its first and excludes its last instruction, and no handler before it that
  covers the program counter takes the exception.
\<close>

theorem search_handlers_first:
  "search_handlers pc exc_id hs = Inr (Some (h, target)) \<longleftrightarrow>
     (\<exists>before after. hs = before @ h # after \<and> covers pc h \<and>
        search_exceptions exc_id (he_exception_table h) = Inr (Some target) \<and>
        list_all (\<lambda>b. if covers pc b then search_exceptions exc_id (he_exception_table b) = Inr None else True) before)"
proof -
  have s: "handled_by pc exc_id x = Inr (Some (h, target)) \<longleftrightarrow>
      x = h \<and> covers pc h \<and> search_exceptions exc_id (he_exception_table h) = Inr (Some target)" for x
    by (auto simp: handled_by_def rbind_eq_Inr split: if_splits)
  have n: "handled_by pc exc_id x = Inr None \<longleftrightarrow>
      \<not> covers pc x \<or> search_exceptions exc_id (he_exception_table x) = Inr None" for x
    by (auto simp: handled_by_def rbind_eq_Inr split: if_splits)
  have l: "list_all (\<lambda>b. if covers pc b then search_exceptions exc_id (he_exception_table b) = Inr None else True) before \<longleftrightarrow>
      (\<forall>b\<in>set before. \<not> covers pc b \<or> search_exceptions exc_id (he_exception_table b) = Inr None)" for before
    by (auto simp: list_all_iff)
  show ?thesis unfolding search_handlers_first_some first_some_Some s n l by blast
qed

section \<open>The frames of a stack\<close>

inductive frame_chain :: "'z heap_scheme \<Rightarrow> nat \<Rightarrow> nat \<Rightarrow> word_t \<Rightarrow> (nat \<times> vm_module \<times> word_t) list \<Rightarrow> bool" for h where
  base: "frame_chain h 0 m pc []"
| frame: "f \<noteq> 0 \<Longrightarrow> module_of m h = (Inr md, h) \<Longrightarrow> prev_pc f h = (Inr saved, h) \<Longrightarrow> prev_module_ref f h = (Inr pm, h) \<Longrightarrow>
    prev_frame f h = (Inr nx, h) \<Longrightarrow> frame_chain h nx (if pm \<noteq> 0 then pm else m) (saved - 1) fs \<Longrightarrow>
    frame_chain h f m pc ((f, md, pc) # fs)"

definition frame_handler :: "vm_string \<Rightarrow> nat \<times> vm_module \<times> word_t \<Rightarrow> (handler_entry \<times> nat \<times> word_t) option res" where
  "frame_handler exc_id x = (case x of (f, md, pc) \<Rightarrow>
     rbind (search_handlers pc exc_id (m_handler_section md)) (\<lambda>m. Inr (map_option (\<lambda>(h, t). (h, f, t)) m)))"

lemma find_handler_fuel_search:
  "frame_chain h f m pc fs \<Longrightarrow> length fs < n \<Longrightarrow> find_handler_fuel n f m pc exc_id h = (first_some (frame_handler exc_id) fs, h)"
proof (induction arbitrary: n rule: frame_chain.induct)
  case (base m pc)
  then show ?case by (cases n) simp_all
next
  case (frame f m md saved pm nx fs pc)
  then obtain k where n: "n = Suc k" "length fs < k" by (cases n) auto
  show ?case
  proof (cases "search_handlers pc exc_id (m_handler_section md)")
    case (Inl e)
    then show ?thesis using frame.hyps by (simp add: n ebind_run frame_handler_def)
  next
    case (Inr found)
    then show ?thesis using frame.hyps frame.IH [OF n(2)] by (cases found) (auto simp: n ebind_run frame_handler_def)
  qed
qed

text \<open>
  C8: The search for a handler ends on every stack whose frames are distinct, and what it
  returns is the handler of the innermost frame that has one: a frame below the top one is
  searched with the module it returns to and at the instruction before the one it returns to,
  and every frame above the one found has no handler for the exception.
\<close>

theorem find_handler_innermost:
  assumes "frame_chain h (peek_frame st) m pc fs" "distinct (map fst fs)" "fst ` set fs \<subseteq> fst ` set (h_frame_types h)"
  shows "find_exception_handler st m pc exc_id h = (Inr (Some (hx, f, target)), h) \<longleftrightarrow>
    (\<exists>above md fpc below. fs = above @ (f, md, fpc) # below \<and>
      search_handlers fpc exc_id (m_handler_section md) = Inr (Some (hx, target)) \<and>
      (\<forall>(_, amd, apc)\<in>set above. search_handlers apc exc_id (m_handler_section amd) = Inr None))"
proof -
  have "length fs = card (fst ` set fs)" using assms(2) by (metis distinct_card length_map list.set_map)
  also have "\<dots> \<le> card (fst ` set (h_frame_types h))" using assms(3) by (simp add: card_mono)
  also have "\<dots> \<le> length (h_frame_types h)" by (meson card_image_le card_length finite_set le_trans)
  finally have "length fs < Suc (length (h_frame_types h))" by simp
  from find_handler_fuel_search [OF assms(1) this]
  have r: "find_exception_handler st m pc exc_id h = (first_some (frame_handler exc_id) fs, h)"
    by (simp add: find_exception_handler_def)
  have s: "frame_handler exc_id x = Inr (Some (hx, f, target)) \<longleftrightarrow>
      (\<exists>md fpc. x = (f, md, fpc) \<and> search_handlers fpc exc_id (m_handler_section md) = Inr (Some (hx, target)))" for x
    by (auto simp: frame_handler_def rbind_eq_Inr split: prod.splits)
  have n: "frame_handler exc_id x = Inr None \<longleftrightarrow> (case x of (_, amd, apc) \<Rightarrow> search_handlers apc exc_id (m_handler_section amd) = Inr None)" for x
    by (auto simp: frame_handler_def rbind_eq_Inr split: prod.splits)
  show ?thesis unfolding r prod.inject first_some_Some s n by blast
qed

section \<open>Time slices\<close>

definition running :: "cpu \<Rightarrow> cpu" where
  "running c = c\<lparr> c_regs := (c_regs c)\<lparr> r_state := Running \<rparr> \<rparr>"

definition broken :: "string \<Rightarrow> cpu \<Rightarrow> cpu" where
  "broken msg c = c\<lparr> c_regs := (c_regs c)\<lparr> r_error_message := Some msg, r_state := Broken \<rparr> \<rparr>"



definition guarded_module :: vm_module where
  "guarded_module = (sample_module [])\<lparr> m_handler_section := [\<lparr> he_exception_offset = 24, he_begin_pc = 0, he_end_pc = 5,
     he_exception_type_count = 0, he_type_desc = None, he_exception_table = [\<lparr> ee_pc = 7, ee_name = None \<rparr>] \<rparr>] \<rparr>"

definition guarded_cpu :: cpu where
  "guarded_cpu = (sample_cpu [])\<lparr> h_modules := [(0, guarded_module)] \<rparr>"

theorem find_handler_innermost_witness:
  "fst (find_exception_handler (r_stack sample_regs) 100 3 empty_string guarded_cpu) =
     Inr (Some (the (find (\<lambda>_. True) (m_handler_section guarded_module)), 512, 7))"
proof -
  have c: "frame_chain guarded_cpu (peek_frame (r_stack sample_regs)) 100 3 [(512, guarded_module, 3)]"
    unfolding peek_frame_def sample_regs_def registers.simps vm_stack.simps
  proof (rule frame_chain.frame [where saved = 0 and pm = 0 and nx = 0])
    show "module_of 100 guarded_cpu = (Inr guarded_module, guarded_cpu)"
      by (simp add: module_of_def module_ref_at_def module_at_def obj_at_def ebind_run guarded_cpu_def sample_cpu_def)
    show "prev_pc 512 guarded_cpu = (Inr 0, guarded_cpu)" "prev_module_ref 512 guarded_cpu = (Inr 0, guarded_cpu)"
      "prev_frame 512 guarded_cpu = (Inr 0, guarded_cpu)"
      by (simp_all add: prev_pc_def prev_module_ref_def prev_frame_def pt_ref_def memory_defs guarded_cpu_def sample_cpu_def
          bytes_memory_def ebind_run eseq_def frame_base_def sizeof_frame_def)
  qed (simp_all add: frame_chain.base)
  let ?h = "the (find (\<lambda>_. True) (m_handler_section guarded_module))"
  have "search_handlers 3 empty_string (m_handler_section guarded_module) = Inr (Some (?h, 7))"
    by (simp add: guarded_module_def compare_to_def compare_strings_def string_view_def empty_string_def peek_def
        swrap_def in_word_def invalid_program_counter_def)
  then have "\<exists>above md fpc below. [(512, guarded_module, 3)] = above @ (512, md, fpc) # below \<and>
      search_handlers fpc empty_string (m_handler_section md) = Inr (Some (?h, 7)) \<and>
      (\<forall>(_, amd, apc)\<in>set above. search_handlers apc empty_string (m_handler_section amd) = Inr None)"
    by (intro exI [of _ "[]"] exI [of _ guarded_module] exI [of _ 3]) simp
  moreover have "fst ` set [(512, guarded_module, 3 :: word_t)] \<subseteq> fst ` set (h_frame_types guarded_cpu)"
    by (simp add: guarded_cpu_def sample_cpu_def)
  ultimately have "find_exception_handler (r_stack sample_regs) 100 3 empty_string guarded_cpu
      = (Inr (Some (?h, 512, 7)), guarded_cpu)"
    using find_handler_innermost [OF c, of empty_string ?h 512 7] by simp
  then show ?thesis by simp
qed

end
