(* ===== verification/BufferedReader.thy ===== *)
theory BufferedReader
  imports Effects
begin

text \<open>
  \<^verbatim>\<open>src/src/include/buffered_reader.hpp\<close>: reading bytes from a stream through a buffer. The
  stream is the bytes it has not delivered yet and whether it has failed; a read of more than
  it has delivers what is left and fails. The reader refines the list of the bytes that are
  still to come: the size of the buffer and the places where a request crosses a refill do
  not show.
\<close>

section \<open>State\<close>

record buffered_reader =
  br_buffer :: "byte_t list"
  br_index :: nat
  br_stream :: "byte_t list"
  br_failed :: bool

definition buffer_size :: nat where "buffer_size = 64 * 1024"

definition new_reader :: "byte_t list \<Rightarrow> buffered_reader" where
  "new_reader bs = \<lparr> br_buffer = [], br_index = 0, br_stream = bs, br_failed = False \<rparr>"

type_synonym 'a reader = "(buffered_reader, 'a) eff"

section \<open>Operations\<close>

definition check_buffer_content :: "nat reader" where
  "check_buffer_content = (\<lambda>r.
     let r' = (if length (br_buffer r) \<le> br_index r then
         (if br_failed r then r\<lparr> br_buffer := [], br_index := 0 \<rparr>
          else \<lparr> br_buffer = take buffer_size (br_stream r), br_index = 0, br_stream = drop buffer_size (br_stream r),
                 br_failed = (length (br_stream r) < buffer_size) \<rparr>)
       else r)
     in (Inr (length (br_buffer r') - br_index r'), r'))"

definition advance :: "nat \<Rightarrow> buffered_reader \<Rightarrow> buffered_reader" where
  "advance n r = r\<lparr> br_index := br_index r + n \<rparr>"

definition buffered :: "nat \<Rightarrow> buffered_reader \<Rightarrow> byte_t list" where
  "buffered n r = take n (drop (br_index r) (br_buffer r))"

function get_bytes_loop :: "nat \<Rightarrow> byte_t list \<Rightarrow> buffered_reader \<Rightarrow> (nat \<times> byte_t list) \<times> buffered_reader" where
  "get_bytes_loop bytes_requested acc r =
     (let r1 = snd (check_buffer_content r); amount_in_buffer = length (br_buffer r1) - br_index r1 in
      if amount_in_buffer = 0 then ((0, acc), r1)
      else if bytes_requested \<le> amount_in_buffer
      then ((length acc + bytes_requested, acc @ buffered bytes_requested r1), advance bytes_requested r1)
      else get_bytes_loop (bytes_requested - amount_in_buffer) (acc @ buffered amount_in_buffer r1) (advance amount_in_buffer r1))"
  by pat_completeness auto
termination by (relation "measure fst") auto

definition get_next_bytes :: "nat \<Rightarrow> (nat \<times> byte_t list) reader" where
  "get_next_bytes bytes_requested = (if bytes_requested = 0 then eret (0, [])
     else (\<lambda>r. let (x, r') = get_bytes_loop bytes_requested [] r in (Inr x, r')))"

definition get_next_byte :: "(bool \<times> byte_t) reader" where
  "get_next_byte = ebind check_buffer_content (\<lambda>amount_in_buffer.
     if amount_in_buffer = 0 then eret (False, 0)
     else (ebind (gets (\<lambda>r. br_buffer r ! br_index r)) (\<lambda>b.
       eseq (modify (advance 1)) (
       eret (True, b)))))"

section \<open>The bytes still to come\<close>

definition remaining :: "buffered_reader \<Rightarrow> byte_t list" where
  "remaining r = drop (br_index r) (br_buffer r) @ (if br_failed r then [] else br_stream r)"

lemma remaining_new [simp]: "remaining (new_reader bs) = bs"
  by (simp add: remaining_def new_reader_def)

lemma remaining_check:
  assumes "check_buffer_content r = (x, r')"
  shows "x = Inr (length (br_buffer r') - br_index r')" "remaining r' = remaining r"
    "length (br_buffer r') \<le> br_index r' \<longleftrightarrow> remaining r = []"
proof -
  have b: "0 < buffer_size" by (simp add: buffer_size_def)
  show "x = Inr (length (br_buffer r') - br_index r')" "remaining r' = remaining r"
    "length (br_buffer r') \<le> br_index r' \<longleftrightarrow> remaining r = []"
    using assms b by (auto simp: check_buffer_content_def remaining_def Let_def min_def split: if_splits)
qed

lemma remaining_advance: "br_index r + n \<le> length (br_buffer r) \<Longrightarrow> remaining (advance n r) = drop n (remaining r)"
  by (simp add: remaining_def advance_def ac_simps)

lemma buffered_remaining: "br_index r + n \<le> length (br_buffer r) \<Longrightarrow> buffered n r = take n (remaining r)"
  by (simp add: remaining_def buffered_def)

function until_loop :: "byte_t \<Rightarrow> byte_t list \<Rightarrow> buffered_reader \<Rightarrow> (bool \<times> byte_t list) \<times> buffered_reader" where
  "until_loop delim acc r =
     (let r1 = snd (check_buffer_content r); amount_in_buffer = length (br_buffer r1) - br_index r1;
          bs = buffered amount_in_buffer r1; pre = takeWhile (\<lambda>b. b \<noteq> delim) bs in
      if amount_in_buffer = 0 then ((False, acc), r1)
      else if delim \<in> set bs then ((True, acc @ pre), advance (length pre + 1) r1)
      else until_loop delim (acc @ bs) (advance amount_in_buffer r1))"
  by pat_completeness auto
termination
proof (relation "measure (\<lambda>(_, _, r). length (remaining r))")
  fix delim acc r x y bs pre
  assume x: "x = snd (check_buffer_content r)" and y: "y = length (br_buffer x) - br_index x" and n: "y \<noteq> 0"
  obtain v where c: "check_buffer_content r = (v, x)" by (metis prod.exhaust_sel x)
  have "remaining (advance y x) = drop y (remaining r)" "remaining r \<noteq> []"
    using remaining_check(2,3) [OF c] remaining_advance [of x y] y n by auto
  with n show "((delim, acc @ bs, advance y x), (delim, acc, r)) \<in> measure (\<lambda>(_, _, r). length (remaining r))"
    by (cases "remaining r") auto
qed simp

definition get_bytes_until :: "byte_t \<Rightarrow> (bool \<times> byte_t list) reader" where
  "get_bytes_until delim = (\<lambda>r. let (x, r') = until_loop delim [] r in (Inr x, r'))"

definition get_as_string_until :: "byte_t \<Rightarrow> byte_t list reader" where
  "get_as_string_until delim = ebind (get_bytes_until delim) (\<lambda>(found, bs).
     eret (if found then bs else []))"

section \<open>Refinement of a list of bytes\<close>

declare get_bytes_loop.simps [simp del] until_loop.simps [simp del]

lemma get_bytes_loop_remaining:
  "0 < n \<Longrightarrow> get_bytes_loop n acc r = (x, r') \<Longrightarrow>
    if n \<le> length (remaining r) then x = (length acc + n, acc @ take n (remaining r)) \<and> remaining r' = drop n (remaining r)
    else fst x = 0 \<and> remaining r' = []"
proof (induction n acc r rule: get_bytes_loop.induct)
  case (1 n acc r)
  obtain v r1 where c: "check_buffer_content r = (v, r1)" by fastforce
  define k where "k = length (br_buffer r1) - br_index r1"
  note c' = remaining_check(2,3) [OF c]
  have rl: "k \<le> length (remaining r)" unfolding c'(1) [symmetric] by (simp add: remaining_def k_def)
  consider "k = 0" | "0 < k" "n \<le> k" | "0 < k" "k < n" by linarith
  then show ?case
  proof cases
    case 1
    then show ?thesis using "1.prems" c c' by (auto simp: get_bytes_loop.simps [of n acc r] k_def Let_def)
  next
    case 2
    then have i: "br_index r1 + n \<le> length (br_buffer r1)" by (auto simp: k_def)
    then show ?thesis using "1.prems" c c' rl 2 buffered_remaining [OF i] remaining_advance [OF i]
      by (auto simp: get_bytes_loop.simps [of n acc r] k_def Let_def)
  next
    case 3
    then have i: "br_index r1 + k \<le> length (br_buffer r1)" by (auto simp: k_def)
    have e: "get_bytes_loop n acc r = get_bytes_loop (n - k) (acc @ buffered k r1) (advance k r1)"
      using 3 c by (simp add: get_bytes_loop.simps [of n acc r] k_def Let_def)
    have b: "buffered k r1 = take k (remaining r)" "remaining (advance k r1) = drop k (remaining r)"
      using buffered_remaining [OF i] remaining_advance [OF i] c' by simp_all
    have "if n - k \<le> length (remaining (advance k r1))
      then x = (length (acc @ buffered k r1) + (n - k), (acc @ buffered k r1) @ take (n - k) (remaining (advance k r1))) \<and>
        remaining r' = drop (n - k) (remaining (advance k r1))
      else fst x = 0 \<and> remaining r' = []"
      using "1.IH" [of r1 k] 3 "1.prems" c e by (simp add: k_def)
    then show ?thesis using 3 rl b
      by (auto simp: take_add [symmetric] split: if_splits)
  qed
qed

lemma before_length: "x \<in> set xs \<Longrightarrow> length (takeWhile (\<lambda>b. b \<noteq> x) xs) < length xs"
  by (induction xs) auto

lemma until_loop_remaining:
  "until_loop delim acc r = (x, r') \<Longrightarrow>
    if delim \<in> set (remaining r)
    then x = (True, acc @ takeWhile (\<lambda>b. b \<noteq> delim) (remaining r)) \<and> remaining r' = tl (dropWhile (\<lambda>b. b \<noteq> delim) (remaining r))
    else x = (False, acc @ remaining r) \<and> remaining r' = []"
proof (induction delim acc r rule: until_loop.induct)
  case (1 delim acc r)
  obtain v r1 where c: "check_buffer_content r = (v, r1)" by fastforce
  define k where "k = length (br_buffer r1) - br_index r1"
  define bs where "bs = buffered k r1"
  define rest where "rest = remaining (advance k r1)"
  note c' = remaining_check(2,3) [OF c]
  have e: "until_loop delim acc r = (if k = 0 then ((False, acc), r1)
      else if delim \<in> set bs then ((True, acc @ takeWhile (\<lambda>b. b \<noteq> delim) bs), advance (length (takeWhile (\<lambda>b. b \<noteq> delim) bs) + 1) r1)
      else until_loop delim (acc @ bs) (advance k r1))"
    using c by (simp add: until_loop.simps [of delim acc r] k_def bs_def Let_def)
  show ?case
  proof (cases "k = 0")
    case True
    then show ?thesis using "1.prems" e c' by (simp add: k_def)
  next
    case False
    then have i: "br_index r1 + k \<le> length (br_buffer r1)" by (simp add: k_def)
    have r: "remaining r = bs @ rest"
      using buffered_remaining [OF i] remaining_advance [OF i] c'(1) by (simp add: bs_def rest_def)
    have l: "length bs = k" by (simp add: bs_def buffered_def k_def)
    show ?thesis
    proof (cases "delim \<in> set bs")
      case True
      let ?n = "length (takeWhile (\<lambda>b. b \<noteq> delim) bs) + 1"
      have t: "takeWhile (\<lambda>b. b \<noteq> delim) (remaining r) = takeWhile (\<lambda>b. b \<noteq> delim) bs"
        "dropWhile (\<lambda>b. b \<noteq> delim) (remaining r) = drop (length (takeWhile (\<lambda>b. b \<noteq> delim) bs)) (remaining r)"
        using True by (simp_all add: r takeWhile_append1 dropWhile_eq_drop)
      have "length (takeWhile (\<lambda>b. b \<noteq> delim) bs) < k"
        using before_length [OF True] l by simp
      then have "remaining (advance ?n r1) = drop ?n (remaining r)" using remaining_advance [of r1 ?n] i c'(1) by simp
      moreover have "tl (dropWhile (\<lambda>b. b \<noteq> delim) (remaining r)) = drop ?n (remaining r)"
        by (simp only: t(2) tl_drop drop_Suc Suc_eq_plus1 [symmetric])
      moreover have "x = (True, acc @ takeWhile (\<lambda>b. b \<noteq> delim) bs)" "r' = advance ?n r1" "delim \<in> set (remaining r)"
        using "1.prems" e True False by (auto simp: r)
      ultimately show ?thesis using t(1) by simp
    next
      case nin: False
      then have "until_loop delim (acc @ bs) (advance k r1) = (x, r')" using "1.prems" e False by simp
      from "1.IH" [of r1 k bs "takeWhile (\<lambda>b. b \<noteq> delim) bs", OF _ _ _ _ _ _ this] c False nin
      have "if delim \<in> set rest then x = (True, (acc @ bs) @ takeWhile (\<lambda>b. b \<noteq> delim) rest) \<and>
          remaining r' = tl (dropWhile (\<lambda>b. b \<noteq> delim) rest)
        else x = (False, (acc @ bs) @ rest) \<and> remaining r' = []"
        by (simp add: k_def bs_def rest_def)
      moreover have "takeWhile (\<lambda>b. b \<noteq> delim) (bs @ rest) = bs @ takeWhile (\<lambda>b. b \<noteq> delim) rest"
        "dropWhile (\<lambda>b. b \<noteq> delim) (bs @ rest) = dropWhile (\<lambda>b. b \<noteq> delim) rest"
        by (rule takeWhile_append2, use nin in auto) (rule dropWhile_append2, use nin in auto)
      ultimately show ?thesis using nin by (simp add: r split: if_splits)
    qed
  qed
qed

section \<open>Properties\<close>

lemma get_next_bytes_spec:
  "\<exists>x r'. get_next_bytes n r = (Inr x, r') \<and>
     (if n \<le> length (remaining r) then x = (n, take n (remaining r)) \<and> remaining r' = drop n (remaining r)
      else fst x = 0 \<and> remaining r' = [])"
proof (cases "n = 0")
  case False
  obtain x r' where "get_bytes_loop n [] r = (x, r')" by fastforce
  with get_bytes_loop_remaining [of n "[]" r x r'] False show ?thesis
    by (auto simp: get_next_bytes_def split: if_splits)
qed (simp add: get_next_bytes_def)

lemma get_next_byte_spec:
  "\<exists>r'. get_next_byte r = (Inr (case remaining r of [] \<Rightarrow> (False, 0) | b # _ \<Rightarrow> (True, b)), r') \<and>
     remaining r' = tl (remaining r)"
proof -
  obtain v r1 where c: "check_buffer_content r = (v, r1)" by fastforce
  note c' = remaining_check [OF c]
  show ?thesis
  proof (cases "length (br_buffer r1) \<le> br_index r1")
    case True
    then show ?thesis using c c' by (simp add: get_next_byte_def ebind_run)
  next
    case False
    then obtain b where b: "drop (br_index r1) (br_buffer r1) = b # drop (Suc (br_index r1)) (br_buffer r1)"
        "b = br_buffer r1 ! br_index r1"
      by (simp add: Cons_nth_drop_Suc)
    then have "remaining r = b # tl (remaining r)" unfolding c'(2) [symmetric] by (simp add: remaining_def)
    moreover have "remaining (advance 1 r1) = tl (remaining r)" using False c'(2) remaining_advance [of r1 1] by (simp add: drop_Suc)
    ultimately show ?thesis using c c' False b(2)
      by (auto simp: get_next_byte_def ebind_run split: list.split)
  qed
qed

lemma get_bytes_until_spec:
  "\<exists>x r'. get_bytes_until delim r = (Inr x, r') \<and>
     (if delim \<in> set (remaining r)
      then x = (True, takeWhile (\<lambda>b. b \<noteq> delim) (remaining r)) \<and> remaining r' = tl (dropWhile (\<lambda>b. b \<noteq> delim) (remaining r))
      else x = (False, remaining r) \<and> remaining r' = [])"
proof -
  obtain x r' where "until_loop delim [] r = (x, r')" by fastforce
  with until_loop_remaining [of delim "[]" r x r'] show ?thesis
    by (auto simp: get_bytes_until_def split: if_splits)
qed


end
