(* ===== verification/ModuleReader.thy ===== *)
theory ModuleReader
  imports BufferedReader ModuleRef
begin

text \<open>
  \<^verbatim>\<open>src/src/vm/module_reader.cpp\<close>: reading a module file. The reader works on the heap and on the
  bytes still to come; a module is built section by section in the order of the file format.
  A failed read is a module exception with the message of the source; a section size that is
  negative makes the container it sizes throw an exception of the C++ library. The code of a
  module lives in memory, since an immediate operand is read from the instruction itself.
\<close>

type_synonym ('z, 'a) rd = "('z heap_scheme \<times> buffered_reader, 'a) eff"

definition on_heap :: "('z, 'a) heff \<Rightarrow> ('z, 'a) rd" where
  "on_heap m = (\<lambda>(h, r). let (x, h') = m h in (x, (h', r)))"

definition on_reader :: "'a reader \<Rightarrow> ('z, 'a) rd" where
  "on_reader m = (\<lambda>(h, r). let (x, r') = m r in (x, (h, r')))"

section \<open>Operands and words\<close>

definition xmagic :: word_t where "xmagic = 819248"
definition smagic :: word_t where "smagic = 923426"

definition next_bytes :: "nat \<Rightarrow> ('z, nat \<times> byte_t list) rd" where
  "next_bytes n = on_reader (get_next_bytes n)"

definition read_next_operand :: "('z, bool \<times> word_t) rd" where
  "read_next_operand = ebind (next_bytes 1) (\<lambda>(n, bs).
     if n = 0 then eret (False, 0)
     else (let result = ucast (bs ! 0) :: word_t; mode = result AND 0xc0;
           extended = (if result AND 0x20 \<noteq> 0 then result OR NOT 0x3f else result AND 0x3f) in
       if mode = 0x00 then eret (True, result)
       else if mode = 0x40 then eret (True, result OR NOT 0x7f)
       else if mode = 0x80 then (ebind (next_bytes 1) (\<lambda>(n1, b1).
         if n1 = 0 then eret (False, 0)
         else eret (True, push_bit 8 extended OR ucast (b1 ! 0))))
       else (ebind (next_bytes 3) (\<lambda>(n3, b3).
         if n3 = 0 then eret (False, 0)
         else eret (True, push_bit 24 extended OR push_bit 16 (ucast (b3 ! 0)) OR push_bit 8 (ucast (b3 ! 1)) OR ucast (b3 ! 2))))))"

definition read_next_word :: "('z, bool \<times> word_t) rd" where
  "read_next_word = ebind (next_bytes 4) (\<lambda>(n, bs).
     if n = 0 then eret (False, 0)
     else eret (True, push_bit 24 (ucast (bs ! 0)) OR push_bit 16 (ucast (bs ! 1)) OR push_bit 8 (ucast (bs ! 2)) OR ucast (bs ! 3)))"

definition operand_or :: "string \<Rightarrow> ('z, word_t) rd" where
  "operand_or msg = ebind read_next_operand (\<lambda>(success, v).
     eseq (check success (ModuleException msg)) (
     eret v))"

definition word_or :: "string \<Rightarrow> ('z, word_t) rd" where
  "word_or msg = ebind read_next_word (\<lambda>(success, v).
     eseq (check success (ModuleException msg)) (
     eret v))"

definition name_or :: "string \<Rightarrow> ('z, vm_string) rd" where
  "name_or msg = ebind (on_reader (get_bytes_until 0)) (\<lambda>(found, bs).
     eseq (check found (ModuleException msg)) (
     lift_res (string_of_utf8 bs)))"

definition container_size :: "word_t \<Rightarrow> ('z, unit) rd" where
  "container_size n = check (0 \<le> sint n) (StdException ''length_error'')"

primrec repeat_read :: "nat \<Rightarrow> ('z, 'a) rd \<Rightarrow> ('z, 'a list) rd" where
  "repeat_read 0 m = eret []"
| "repeat_read (Suc n) m = ebind m (\<lambda>x.
     ebind (repeat_read n m) (\<lambda>xs.
     eret (x # xs)))"

section \<open>Header\<close>

definition read_signature :: "word_t \<Rightarrow> ('z, byte_t list) rd" where
  "read_signature magic = (
     if magic = smagic then (ebind (operand_or ''Failed to read signature length'') (\<lambda>len.
     eseq (check (0 \<le> sint len) (StdException ''bad_array_new_length'')) (
     ebind (next_bytes (unat len)) (\<lambda>(n, bs).
     eseq (check (n = unat len) (ModuleException ''Failed to read full signature'')) (
     eret bs)))))
     else if magic = xmagic then eret []
     else throw (ModuleException ''Invalid magic number in module''))"

definition read_header :: "('z, header) rd" where
  "read_header = ebind (operand_or ''Failed to read magic number'') (\<lambda>magic.
     ebind (read_signature magic) (\<lambda>signature.
     ebind (operand_or ''Failed to read runtime flag'') (\<lambda>runtime_flags.
     ebind (operand_or ''Failed to read stack extent'') (\<lambda>stack_extent.
     ebind (operand_or ''Failed to read code size'') (\<lambda>code_size.
     ebind (operand_or ''Failed to read data size'') (\<lambda>data_size.
     ebind (operand_or ''Failed to read type size'') (\<lambda>type_size.
     ebind (operand_or ''Failed to read export size'') (\<lambda>export_size.
     ebind (operand_or ''Failed to entry pc'') (\<lambda>entry_pc.
     ebind (operand_or ''Failed to read entry type'') (\<lambda>entry_type.
     eret \<lparr> hd_magic_number = magic, hd_signature = signature, hd_runtime_flag = runtime_flags, hd_stack_extent = stack_extent,
        hd_code_size = code_size, hd_data_size = data_size, hd_type_size = type_size, hd_export_size = export_size,
        hd_entry_pc = entry_pc, hd_entry_type = entry_type \<rparr>))))))))))"

section \<open>Code\<close>

definition code_middle :: "byte_t \<Rightarrow> middle_mode" where
  "code_middle c = [MidNone, MidSmallImmediate, MidSmallFp, MidSmallMp] ! unat (drop_bit 6 (c AND 0xc0))"

definition code_mode :: "byte_t \<Rightarrow> addr_mode" where
  "code_mode c = [IndirectMp, IndirectFp, Immediate, NoOperand, DoubleMp, DoubleFp, Reserved1, Reserved2] ! unat c"

definition convert_to_address_mode :: "byte_t \<Rightarrow> middle_mode \<times> addr_mode \<times> addr_mode" where
  "convert_to_address_mode c = (code_middle c, code_mode (drop_bit 3 (c AND 0x38)), code_mode (c AND 0x07))"

definition read_operand_registers :: "string \<Rightarrow> string \<Rightarrow> addr_mode \<Rightarrow> ('z, operand) rd" where
  "read_operand_registers msg1 msg2 mode = (if mode = NoOperand
     then eret \<lparr> op_mode = mode, op_register1 = 0, op_register2 = 0 \<rparr>
     else (ebind (operand_or msg1) (\<lambda>register1.
     if mode = DoubleFp \<or> mode = DoubleMp then (ebind (operand_or msg2) (\<lambda>register2.
       eseq (vm_assert (sint register1 \<le> 65535) ''register1 <= max'') (
       eseq (vm_assert (sint register2 \<le> 65535) ''register2 <= max'') (
       eret \<lparr> op_mode = mode, op_register1 = register1, op_register2 = register2 \<rparr>))))
       else eret \<lparr> op_mode = mode, op_register1 = register1, op_register2 = 0 \<rparr>)))"

definition read_middle :: "middle_mode \<Rightarrow> ('z, middle_data) rd" where
  "read_middle mode = (if mode = MidNone then eret \<lparr> mid_mode = mode, mid_register1 = 0 \<rparr>
     else (ebind (operand_or ''Failed to read middle register'') (\<lambda>register1.
     eret \<lparr> mid_mode = mode, mid_register1 = register1 \<rparr>)))"

definition read_instruction :: "('z, exec_op) rd" where
  "read_instruction = ebind (next_bytes 2) (\<lambda>(n, bs).
     eseq (check (n = 2) (ModuleException ''Failed to read op code and address mode'')) (
     eseq (vm_assert (unat (bs ! 0) \<le> last_opcode) ''opcode <= last_opcode'') (
     let (mid, src, dest) = convert_to_address_mode (bs ! 1) in
     ebind (read_middle mid) (\<lambda>middle.
     ebind (read_operand_registers ''Failed to read source register 1'' ''Failed to read source register 2'' src) (\<lambda>source.
     ebind (read_operand_registers ''Failed to read destination register 1'' ''Failed to destination register 2'' dest) (\<lambda>destination.
     eret \<lparr> in_opcode = unat (bs ! 0), in_addr_code = bs ! 1, in_source = source, in_middle = middle, in_destination = destination \<rparr>))))))"

definition place_instruction :: "nat \<Rightarrow> exec_op \<Rightarrow> ('z, unit) heff" where
  "place_instruction a i = eseq (store (a + source_offset) (bytes32 (op_register1 (in_source i)))) (
     eseq (store (a + middle_offset) (bytes32 (mid_register1 (in_middle i)))) (
     store (a + destination_offset) (bytes32 (op_register1 (in_destination i)))))"

primrec read_instructions :: "nat \<Rightarrow> nat \<Rightarrow> ('z, exec_op list) rd" where
  "read_instructions 0 a = eret []"
| "read_instructions (Suc n) a = ebind read_instruction (\<lambda>i.
     eseq (on_heap (place_instruction a i)) (
     ebind (read_instructions n (a + instruction_size)) (\<lambda>rest.
     eret (i # rest))))"

definition read_code_section :: "header \<Rightarrow> nat \<Rightarrow> ('z, exec_op list) rd" where
  "read_code_section hdr code_base = ebind (read_instructions (unat (hd_code_size hdr)) code_base) (\<lambda>code.
     eseq (check (\<not> (hd_entry_pc hdr \<noteq> -1 \<and> length code \<le> unat (hd_entry_pc hdr)))
       (ModuleException ''Invalid initial program counter value for code section'')) (
     eret code))"

section \<open>Types\<close>

definition max_type_pointer_count :: int where "max_type_pointer_count = 128 * 1024"

definition read_type :: "type_desc option list \<Rightarrow> ('z, type_desc option list) rd" where
  "read_type types = ebind (operand_or ''Failed to read type descriptor number'') (\<lambda>desc_number.
     ebind (operand_or ''Failed to read type size'') (\<lambda>size.
     ebind (operand_or ''Failed to read type pointer count'') (\<lambda>map_in_bytes.
     eseq (check (sint map_in_bytes \<le> max_type_pointer_count) (ModuleException ''Invalid Limbo type'')) (
     eseq (container_size map_in_bytes) (
     ebind (next_bytes (unat map_in_bytes)) (\<lambda>(n, pointer_map).
     eseq (check (n = unat map_in_bytes) (ModuleException ''Failed to read type pointer map'')) (
     ebind (lift_res (type_create (sint size) pointer_map)) (\<lambda>td.
     eseq (check (unat desc_number < length types) (Undefined ''type_section[desc_number]'')) (
     eret (types[unat desc_number := Some td]))))))))))"

primrec read_types :: "nat \<Rightarrow> type_desc option list \<Rightarrow> ('z, type_desc option list) rd" where
  "read_types 0 types = eret types"
| "read_types (Suc n) types = ebind (read_type types) (\<lambda>types'.
     read_types n types')"

definition read_type_section :: "header \<Rightarrow> ('z, type_desc option list) rd" where
  "read_type_section hdr = eseq (container_size (hd_type_size hdr)) (
     read_types (unat (hd_type_size hdr)) (replicate (unat (hd_type_size hdr)) None))"

section \<open>Data\<close>

record data_state =
  ds_base :: nat
  ds_stack :: "nat list"

definition array_address_stack_size :: nat where "array_address_stack_size = 4"

primrec read_byte_items :: "nat \<Rightarrow> nat \<Rightarrow> ('z, unit) rd" where
  "read_byte_items 0 data_dest = eret ()"
| "read_byte_items (Suc n) data_dest = ebind (on_reader get_next_byte) (\<lambda>(success, byte).
     eseq (check success (ModuleException ''Failed to read 1 byte'')) (
     eseq (on_heap (store data_dest [byte])) (
     read_byte_items n (data_dest + 1))))"

primrec read_word_items :: "nat \<Rightarrow> nat \<Rightarrow> ('z, unit) rd" where
  "read_word_items 0 data_dest = eret ()"
| "read_word_items (Suc n) data_dest = ebind (word_or ''Failed to read word'') (\<lambda>word.
     eseq (on_heap (store data_dest (bytes32 word))) (
     read_word_items n (data_dest + 4)))"

definition convert_to_real :: "word_t \<Rightarrow> word_t \<Rightarrow> big_t" where
  "convert_to_real f s = push_bit 32 (scast f) OR (scast s AND 0xffffffff)"

primrec read_8byte_segments :: "nat \<Rightarrow> nat \<Rightarrow> ('z, unit) rd" where
  "read_8byte_segments 0 dest = eret ()"
| "read_8byte_segments (Suc n) dest = ebind (word_or ''Failed to read first word'') (\<lambda>first.
     ebind (word_or ''Failed to read second word'') (\<lambda>second.
     eseq (on_heap (store dest (bytes64 (convert_to_real first second)))) (
     read_8byte_segments n (dest + 8))))"

definition read_string_item :: "nat \<Rightarrow> nat \<Rightarrow> ('z, unit) rd" where
  "read_string_item count data_dest = eseq (check (count < 2 ^ 31) (StdException ''length_error'')) (
     ebind (next_bytes count) (\<lambda>(n, str_buffer).
     eseq (check (n = count) (ModuleException ''Failed to read string data'')) (
     ebind (lift_res (string_of_utf8 str_buffer)) (\<lambda>v.
     ebind (on_heap (new_string v)) (\<lambda>p.
     on_heap (store data_dest (bytes32 (of_nat p))))))))"

definition read_array_item :: "header \<Rightarrow> type_desc option list \<Rightarrow> nat \<Rightarrow> ('z, unit) rd" where
  "read_array_item hdr types data_dest = ebind (word_or ''Failed to read word'') (\<lambda>element_type.
     ebind (word_or ''Failed to read word'') (\<lambda>element_count.
     eseq (check (unat element_type < length types) (Undefined ''type_section[element_type]'')) (
     case types ! unat element_type of None \<Rightarrow> throw (Undefined ''null type descriptor'')
     | Some td \<Rightarrow> (ebind (on_heap (new_array td element_count)) (\<lambda>p.
       on_heap (store data_dest (bytes32 (of_nat p))))))))"

definition array_at_address :: "nat \<Rightarrow> ('z, vm_array) heff" where
  "array_at_address data_dest = ebind (load 4 data_dest) (\<lambda>bs.
     let p = unat (word32 bs) in
     eseq (vm_assert (p \<noteq> 0) ''arr_maybe != nullptr'') (
     ebind (obj_at p) (\<lambda>ob.
     eseq (check (ob_type ob = td_array) (ModuleException ''Data index not an array type'')) (
     case ob_data ob of ArrayObj arr \<Rightarrow> eret arr | _ \<Rightarrow> throw (Undefined ''not an array'')))))"

definition set_array_item :: "data_state \<Rightarrow> nat \<Rightarrow> ('z, data_state) rd" where
  "set_array_item ds data_dest = eseq (check (data_dest \<noteq> 0) (ModuleException ''Invalid data type processing'')) (
     ebind (on_heap (array_at_address data_dest)) (\<lambda>arr.
     ebind (word_or ''Failed to read word'') (\<lambda>array_index.
     eseq (check (\<not> (sint array_index < 0 \<or> arr_length arr \<le> sint array_index \<or> array_address_stack_size \<le> length (ds_stack ds)))
       (ModuleException ''Invalid array stack pointer'')) (
     eret \<lparr> ds_base = ptr_add (arr_addr arr) (array_index * word_of_int (td_size td_array)), ds_stack = ds_base ds # ds_stack ds \<rparr>))))"

definition restore_address :: "data_state \<Rightarrow> ('z, data_state) rd" where
  "restore_address ds = (case ds_stack ds of
     [] \<Rightarrow> throw (ModuleException ''Invalid array stack pointer'')
   | base # rest \<Rightarrow> (eseq (vm_assert (base \<noteq> 0) ''base != nullptr'') (
     eret \<lparr> ds_base = base, ds_stack = rest \<rparr>)))"

definition read_datum :: "header \<Rightarrow> type_desc option list \<Rightarrow> nat \<Rightarrow> nat \<Rightarrow> nat \<Rightarrow> data_state \<Rightarrow> ('z, data_state) rd" where
  "read_datum hdr types code count data_dest ds = (
     if code = 1 then eseq (read_byte_items count data_dest) (eret ds)
     else if code = 2 then eseq (read_word_items count data_dest) (eret ds)
     else if code = 3 then eseq (read_string_item count data_dest) (eret ds)
     else if code = 4 then eseq (read_8byte_segments count data_dest) (eret ds)
     else if code = 5 then eseq (read_array_item hdr types data_dest) (eret ds)
     else if code = 6 then set_array_item ds data_dest
     else if code = 7 then restore_address ds
     else if code = 8 then eseq (read_8byte_segments count data_dest) (eret ds)
     else throw (ModuleException ''Unknown item data type''))"

primrec read_data_items :: "nat \<Rightarrow> header \<Rightarrow> type_desc option list \<Rightarrow> data_state \<Rightarrow> ('z, unit) rd" where
  "read_data_items 0 hdr types ds = throw OutOfFuel"
| "read_data_items (Suc n) hdr types ds = ebind (next_bytes 1) (\<lambda>(k, bs).
     eseq (check (k = 1) (ModuleException ''Failed to read data item code'')) (
     let code = bs ! 0 in
     if code = 0 then eret ()
     else (ebind (if code AND 0x0f = 0 then operand_or ''Failed to read long item datum count'' else eret (ucast (code AND 0x0f))) (\<lambda>count.
       ebind (operand_or ''Failed to read offset'') (\<lambda>byte_offset.
       ebind (read_datum hdr types (unat (drop_bit 4 (code AND 0xf0))) (unat count) (ptr_add (ds_base ds) byte_offset) ds) (\<lambda>ds'.
       read_data_items n hdr types ds'))))))"

definition allocate_original_mp :: "header \<Rightarrow> type_desc option list \<Rightarrow> ('z, nat) rd" where
  "allocate_original_mp hdr types = (if hd_data_size hdr = 0 then eret 0 else (eseq (check (types \<noteq> []) (Undefined ''type_section[0]'')) (
     case types ! 0 of None \<Rightarrow> throw (Undefined ''null type descriptor'')
     | Some td \<Rightarrow> (eseq (check (td_size td = sint (hd_data_size hdr)) (ModuleException ''Invalid type desc for MP'')) (
       on_heap (allocate td))))))"

definition read_data_section :: "header \<Rightarrow> type_desc option list \<Rightarrow> nat \<Rightarrow> ('z, unit) rd" where
  "read_data_section hdr types original_mp = (\<lambda>(h, r).
     read_data_items (Suc (length (remaining r))) hdr types
       \<lparr> ds_base = (if original_mp = 0 then sizeof_vm_alloc else original_mp), ds_stack = [] \<rparr> (h, r))"

section \<open>Name, exports and imports\<close>

definition max_module_name_bytes :: int where "max_module_name_bytes = 128"

definition read_module_name :: "('z, vm_string) rd" where
  "read_module_name = ebind (name_or ''Failed to read module name'') (\<lambda>name.
     eseq (vm_assert (get_length name \<le> max_module_name_bytes) ''module_name->get_length()'') (
     eret name))"

definition read_export :: "('z, word_t \<times> export_function) rd" where
  "read_export = ebind (operand_or ''Failed to read linkage pc'') (\<lambda>pc.
     ebind (operand_or ''Failed to read linkage frame type index'') (\<lambda>frame_type.
     ebind (word_or ''Failed to read linkage signature'') (\<lambda>sig.
     ebind (name_or ''Failed to read linkage name'') (\<lambda>name.
     eret (sig, \<lparr> ex_pc = pc, ex_frame_type = frame_type, ex_sig = sig, ex_name = Some name \<rparr>)))))"

definition read_link_section :: "header \<Rightarrow> ('z, (word_t \<times> export_function) list) rd" where
  "read_link_section hdr = eseq (container_size (hd_export_size hdr)) (
     repeat_read (unat (hd_export_size hdr)) read_export)"

definition read_import :: "('z, import_function) rd" where
  "read_import = ebind (word_or ''Failed to read import function signature'') (\<lambda>sig.
     ebind (name_or ''Failed to read import function name'') (\<lambda>name.
     eret \<lparr> im_sig = sig, im_name = Some name \<rparr>))"

definition read_import_module :: "('z, import_function list) rd" where
  "read_import_module = ebind (operand_or ''Failed to read function import count'') (\<lambda>func_import_count.
     eseq (container_size func_import_count) (
     repeat_read (unat func_import_count) read_import))"

definition read_final_byte :: "string \<Rightarrow> ('z, unit) rd" where
  "read_final_byte msg = ebind (on_reader get_next_byte) (\<lambda>(success, value).
     check (success \<and> value = 0) (ModuleException msg))"

definition read_import_section :: "('z, import_function list list) rd" where
  "read_import_section = ebind (operand_or ''Failed to read module import count'') (\<lambda>module_import_count.
     eseq (container_size module_import_count) (
     ebind (repeat_read (unat module_import_count) read_import_module) (\<lambda>imports'.
     eseq (read_final_byte ''Failed to read final byte from import section'') (
     eret imports'))))"

section \<open>Handlers\<close>

definition read_exception :: "('z, exception_entry) rd" where
  "read_exception = ebind (name_or ''Failed to read exception name'') (\<lambda>name.
     ebind (operand_or ''Failed to read exception pc'') (\<lambda>pc.
     eret \<lparr> ee_pc = pc, ee_name = Some name \<rparr>))"

definition handler_type :: "type_desc option list \<Rightarrow> word_t \<Rightarrow> ('z, type_desc option) rd" where
  "handler_type types type_desc_number = (if type_desc_number = -1 then eret None else (eseq (vm_assert (0 \<le> sint type_desc_number \<and> sint type_desc_number < int (length types)) ''0 <= type_desc_number'') (
     eseq (vm_assert (types ! unat type_desc_number \<noteq> None) ''handler.type_desc != nullptr'') (
     eret (types ! unat type_desc_number)))))"

definition read_handler :: "type_desc option list \<Rightarrow> ('z, handler_entry) rd" where
  "read_handler types = ebind (operand_or ''Failed to read exception offset'') (\<lambda>exception_offset.
     ebind (operand_or ''Failed to read handler begin program counter'') (\<lambda>begin_pc.
     ebind (operand_or ''Failed to read handler end program counter'') (\<lambda>end_pc.
     ebind (operand_or ''Failed to read handler type description ID'') (\<lambda>type_desc_number.
     ebind (handler_type types type_desc_number) (\<lambda>td.
     ebind read_next_operand (\<lambda>(_, handler_cases).
     let total_count = unat (handler_cases AND 0xffff) in
     ebind (repeat_read total_count read_exception) (\<lambda>exceptions.
     ebind (operand_or ''Failed to read wildcard exception pc'') (\<lambda>wildcard_pc.
     eret \<lparr> he_exception_offset = exception_offset, he_begin_pc = begin_pc, he_end_pc = end_pc,
        he_exception_type_count = signed_drop_bit 16 handler_cases, he_type_desc = td,
        he_exception_table = exceptions @ [\<lparr> ee_pc = wildcard_pc, ee_name = None \<rparr>] \<rparr>))))))))"

definition read_handler_section :: "type_desc option list \<Rightarrow> ('z, handler_entry list) rd" where
  "read_handler_section types = ebind read_next_operand (\<lambda>(_, handler_count).
     eseq (container_size handler_count) (
     ebind (repeat_read (unat handler_count) (read_handler types)) (\<lambda>handlers.
     eseq (read_final_byte ''Failed to read final byte from handler section'') (
     eret handlers))))"

section \<open>The module\<close>

definition destroy_original_mp :: "nat \<Rightarrow> ('z, unit) heff" where
  "destroy_original_mp p = when_do (p \<noteq> 0) (ebind (release p) (\<lambda>_.
     delete_alloc dec_ref_count_and_free p))"

definition free_code :: "header \<Rightarrow> nat \<Rightarrow> ('z, unit) heff" where
  "free_code hdr code_base = free_block code_base (instruction_size * unat (hd_code_size hdr))"

definition destroy_module :: "vm_module \<Rightarrow> ('z, unit) heff" where
  "destroy_module m = eseq (destroy_original_mp (m_original_mp m)) (free_code (m_header m) (m_code_base m))"

definition or_else_do :: "('s, 'a) eff \<Rightarrow> ('s, unit) eff \<Rightarrow> ('s, 'a) eff" where
  "or_else_do m cleanup = catch m (\<lambda>e. eseq cleanup (throw e))"

definition read_sections :: "header \<Rightarrow> nat \<Rightarrow> exec_op list \<Rightarrow> type_desc option list \<Rightarrow> nat \<Rightarrow> ('z, vm_module) rd" where
  "read_sections hdr code_base code types original_mp = eseq (read_data_section hdr types original_mp) (
     ebind read_module_name (\<lambda>name.
     ebind (read_link_section hdr) (\<lambda>exports.
     ebind (if has_flag (hd_runtime_flag hdr) has_import then read_import_section else eret []) (\<lambda>imports'.
     ebind (if has_flag (hd_runtime_flag hdr) has_handler then read_handler_section types else eret []) (\<lambda>handlers.
     eseq (vm_assert (\<not> has_flag (hd_runtime_flag hdr) must_compile) ''must_compile'') (
     eret \<lparr> m_vm_id = 0, m_header = hdr, m_code_section = map Exec code, m_code_base = code_base, m_original_mp = original_mp,
        m_type_section = types, m_module_name = Some name, m_export_section = exports, m_import_section = imports',
        m_handler_section = handlers \<rparr>))))))"

definition alloc_code :: "header \<Rightarrow> ('z, nat) heff" where
  "alloc_code hdr = catch (alloc_block (instruction_size * unat (hd_code_size hdr))) (\<lambda>_. throw (StdException ''bad_alloc''))"

definition read_module :: "('z, vm_module) rd" where
  "read_module = ebind read_header (\<lambda>hdr.
     eseq (check (\<not> has_flag (hd_runtime_flag hdr) has_import_deprecated) (ModuleException ''Obsolete module'')) (
     eseq (container_size (hd_code_size hdr)) (
     ebind (on_heap (alloc_code hdr)) (\<lambda>code_base.
     or_else_do (ebind (read_code_section hdr code_base) (\<lambda>code.
       ebind (read_type_section hdr) (\<lambda>types.
       ebind (allocate_original_mp hdr types) (\<lambda>original_mp.
       or_else_do (read_sections hdr code_base code types original_mp) (on_heap (destroy_original_mp original_mp))))))
       (on_heap (free_code hdr code_base))))))"

definition load_module_file :: "byte_t list \<Rightarrow> ('z, vm_module) heff" where
  "load_module_file data = (\<lambda>h. case read_module (h, new_reader data) of (x, (h', _)) \<Rightarrow> (x, h'))"

end
