(* ===== verification/Outcomes.thy ===== *)
theory Outcomes
  imports Effects
begin

text \<open>
  Statements about the outcomes of a computation, proved along its structure: \<open>yields m P\<close> says
  that every result satisfies \<open>P\<close>, and \<open>throws_only Q m\<close> that every exception satisfies \<open>Q\<close>.
\<close>

section \<open>Results\<close>

definition yields :: "('s, 'a) eff \<Rightarrow> ('a \<Rightarrow> bool) \<Rightarrow> bool" where
  "yields m P \<longleftrightarrow> (\<forall>s x s'. m s = (Inr x, s') \<longrightarrow> P x)"

named_theorems yields_intros \<open>rules for postconditions\<close>

lemma yields_ret [yields_intros]: "P x \<Longrightarrow> yields (eret x) P"
  by (simp add: yields_def)

lemma yields_throw [yields_intros]: "yields (throw e) P"
  by (simp add: yields_def)

lemma yieldsD: "yields m P \<Longrightarrow> m s = (Inr x, s') \<Longrightarrow> P x"
  by (auto simp: yields_def)

lemma yields_weaken: "yields m Q \<Longrightarrow> (\<And>x. Q x \<Longrightarrow> P x) \<Longrightarrow> yields m P"
  by (auto simp: yields_def)

lemma yields_bind: "yields m Q \<Longrightarrow> (\<And>x. Q x \<Longrightarrow> yields (k x) P) \<Longrightarrow> yields (ebind m k) P"
  unfolding yields_def ebind_def by (fastforce split: prod.splits sum.splits)

lemma yields_bind_any: "(\<And>x. yields (k x) P) \<Longrightarrow> yields (ebind m k) P"
  by (rule yields_bind [where Q = "\<lambda>_. True"]) (simp_all add: yields_def)

lemma yields_seq: "yields k P \<Longrightarrow> yields (eseq m k) P"
  unfolding eseq_def by (rule yields_bind_any)

lemma yields_check: "(b \<Longrightarrow> yields k P) \<Longrightarrow> yields (eseq (check b e) k) P" "(b \<Longrightarrow> yields k P) \<Longrightarrow> yields (eseq (vm_assert b msg) k) P"
  by (cases b; simp add: yields_throw)+

section \<open>Exceptions\<close>

definition throws_only :: "(vm_exn \<Rightarrow> bool) \<Rightarrow> ('s, 'a) eff \<Rightarrow> bool" where
  "throws_only Q m \<longleftrightarrow> (\<forall>s e s'. m s = (Inl e, s') \<longrightarrow> Q e)"

named_theorems throws_intros \<open>rules for the exceptions of a computation\<close>

lemma throws_onlyD: "throws_only Q m \<Longrightarrow> m s = (Inl e, s') \<Longrightarrow> Q e"
  by (auto simp: throws_only_def)

lemma throws_basic [throws_intros]:
  "throws_only Q (eret x)" "throws_only Q (gets f)" "throws_only Q (modify g)" "Q e \<Longrightarrow> throws_only Q (throw e)"
  "(\<And>e. r = Inl e \<Longrightarrow> Q e) \<Longrightarrow> throws_only Q (lift_res r)" "Q e \<Longrightarrow> throws_only Q (check b e)"
  "Q (AssertFailed msg) \<Longrightarrow> throws_only Q (vm_assert b msg)" "throws_only Q (Pair (Inr x))"
  by (auto simp: throws_only_def check_def vm_assert_def)

lemma throws_assert: "b \<Longrightarrow> throws_only Q (vm_assert b msg)"
  by (simp add: throws_only_def)

lemma throws_bind [throws_intros]: "throws_only Q m \<Longrightarrow> (\<And>x. throws_only Q (k x)) \<Longrightarrow> throws_only Q (ebind m k)"
  unfolding throws_only_def ebind_def by (fastforce split: prod.splits sum.splits)

lemma throws_seq [throws_intros]: "throws_only Q m \<Longrightarrow> throws_only Q k \<Longrightarrow> throws_only Q (eseq m k)"
  unfolding eseq_def by (rule throws_bind)

lemma throws_when [throws_intros]: "throws_only Q m \<Longrightarrow> throws_only Q (when_do b m)"
  by (cases b) (simp_all add: throws_only_def)

lemma throws_if [throws_intros]: "(b \<Longrightarrow> throws_only Q m) \<Longrightarrow> (\<not> b \<Longrightarrow> throws_only Q n) \<Longrightarrow> throws_only Q (if b then m else n)"
  by simp

lemma throws_option [throws_intros]:
  "throws_only Q m \<Longrightarrow> (\<And>x. throws_only Q (k x)) \<Longrightarrow> throws_only Q (case v of None \<Rightarrow> m | Some x \<Rightarrow> k x)"
  by (cases v) simp_all

lemma throws_list [throws_intros]:
  "throws_only Q m \<Longrightarrow> (\<And>x xs. throws_only Q (k x xs)) \<Longrightarrow> throws_only Q (case v of [] \<Rightarrow> m | x # xs \<Rightarrow> k x xs)"
  by (cases v) simp_all

lemma throws_prod [throws_intros]: "(\<And>x y. throws_only Q (k x y)) \<Longrightarrow> throws_only Q (case v of (x, y) \<Rightarrow> k x y)"
  by (cases v) simp

lemma throws_for_each [throws_intros]: "(\<And>x. throws_only Q (f x)) \<Longrightarrow> throws_only Q (for_each f xs)"
  by (induction xs) (simp_all add: throws_intros)

lemma throws_catch [throws_intros]:
  "throws_only Q m \<Longrightarrow> (\<And>e. Q e \<Longrightarrow> throws_only R (h e)) \<Longrightarrow> throws_only R (catch m h)"
  unfolding throws_only_def catch_def by (fastforce split: prod.splits sum.splits)

end
