(* ===== verification/ModuleReaderSpec.thy ===== *)
theory ModuleReaderSpec
  imports ModuleReader ExecInvariant Outcomes
begin

text \<open>
  What reading a module guarantees: operands in the variable-length encoding of the format
  read back, every module that is returned is well formed, and its instructions decode.
\<close>

section \<open>The encoding of operands\<close>

definition encode_operand :: "word_t \<Rightarrow> byte_t list" where
  "encode_operand w =
     (if -64 \<le> sint w \<and> sint w < 64 then [ucast w AND 0x7f]
      else if -8192 \<le> sint w \<and> sint w < 8192 then [0x80 OR (ucast (drop_bit 8 w) AND 0x3f), ucast w]
      else [0xc0 OR (ucast (drop_bit 24 w) AND 0x3f), ucast (drop_bit 16 w), ucast (drop_bit 8 w), ucast w])"

definition extend6 :: "word_t \<Rightarrow> word_t" where
  "extend6 result = (if result AND 0x20 \<noteq> 0 then result OR NOT 0x3f else result AND 0x3f)"

lemma sign_bits:
  fixes w :: word_t
  assumes "- (2 ^ m) \<le> sint w" "sint w < 2 ^ m" "n < 32" "m \<le> n"
  shows "bit w n = bit w m"
proof -
  have "signed_take_bit m (sint w) = sint w" using assms(1,2) by (rule signed_take_bit_int_eq_self)
  then have "bit (sint w) n = bit (sint w) m"
    using assms(4) by (metis bit_signed_take_bit_iff min.absorb1 min.idem possible_bit_int)
  then show ?thesis using assms(3,4) by (simp add: bit_sint_iff)
qed

lemma masks: "(0x3f :: int) = mask 6" "(0x7f :: int) = mask 7" "(0xc0 :: int) = push_bit 6 (mask 2)" "(-128 :: int) = NOT (mask 7)"
  "(-64 :: int) = NOT (mask 6)"
  by (simp_all add: mask_eq_exp_minus_1 push_bit_eq_mult not_int_def)

lemma mask_bits:
  "bit (0x3f :: int) n \<longleftrightarrow> n < 6" "bit (0x7f :: int) n \<longleftrightarrow> n < 7" "bit (0xc0 :: int) n \<longleftrightarrow> n = 6 \<or> n = 7" "bit (-128 :: int) n \<longleftrightarrow> 7 \<le> n"
  "bit (-64 :: int) n \<longleftrightarrow> 6 \<le> n"
  "bit (0x80 :: int) n \<longleftrightarrow> n = 7" "bit (0x40 :: int) n \<longleftrightarrow> n = 6"
proof -
  show "bit (0x3f :: int) n \<longleftrightarrow> n < 6" "bit (0x7f :: int) n \<longleftrightarrow> n < 7" "bit (0xc0 :: int) n \<longleftrightarrow> n = 6 \<or> n = 7" "bit (-128 :: int) n \<longleftrightarrow> 7 \<le> n"
  "bit (-64 :: int) n \<longleftrightarrow> 6 \<le> n"
    unfolding masks by (auto simp: bit_mask_iff bit_push_bit_iff bit_not_iff)
  show "bit (0x80 :: int) n \<longleftrightarrow> n = 7" "bit (0x40 :: int) n \<longleftrightarrow> n = 6"
    using bit_exp_iff [of 7 n, where 'a = int] bit_exp_iff [of 6 n, where 'a = int] by simp_all
qed

lemma single_bits: "(w AND 0x20 = 0) = (\<not> bit w 5)" "(w AND 0x40 = 0) = (\<not> bit w 6)" for w :: "'a::len word"
  using and_exp_eq_0_iff_not_bit [of w 5] and_exp_eq_0_iff_not_bit [of w 6] by simp_all

lemmas word_bits = bit_push_bit_iff bit_signed_take_bit_iff bit_ucast_iff bit_drop_bit_eq bit_and_iff bit_or_iff bit_not_iff
  bit_mask_iff mask_bits min_def

lemma two_byte_mode: "ucast (0x80 OR (b AND 0x3f) :: byte_t) AND 0xc0 = (0x80 :: word_t)"
  by (rule bit_word_eqI) (auto simp: word_bits)

lemma four_byte_mode: "ucast (0xc0 OR (b AND 0x3f) :: byte_t) AND 0xc0 = (0xc0 :: word_t)"
  by (rule bit_word_eqI) (auto simp: word_bits)

lemma extend6_byte: "extend6 (ucast (c OR (b AND 0x3f) :: byte_t)) = signed_take_bit 5 (ucast b)"
  if "c = 0x80 \<or> c = 0xc0" for b c :: byte_t
proof -
  have l: "n = 5" if "5 \<le> n" "n < 6" for n :: nat using that by simp
  have "bit (ucast (c OR (b AND 0x3f)) :: word_t) n = bit b n" if "n < 6" for n
    using \<open>c = 0x80 \<or> c = 0xc0\<close> that by (auto simp: word_bits)
  then show ?thesis
    unfolding extend6_def single_bits
    by (intro bit_word_eqI)
      (auto simp: bit_and_iff bit_or_iff bit_not_iff mask_bits bit_signed_take_bit_iff bit_ucast_iff [of b] min_def dest: l)
qed

lemma one_byte:
  "(if b AND 0x40 = 0 then ucast (b AND 0x7f) AND 0xc0 = (0 :: word_t) \<and> ucast (b AND 0x7f) = (signed_take_bit 6 (ucast b) :: word_t)
    else ucast (b AND 0x7f) AND 0xc0 = (0x40 :: word_t) \<and> ucast (b AND 0x7f) OR NOT 0x7f = (signed_take_bit 6 (ucast b) :: word_t))"
  for b :: byte_t
proof -
  have l: "n = 6" if "6 \<le> n" "n < 7" for n :: nat using that by simp
  have c: "n = 6" if "6 \<le> n" "\<not> 7 \<le> n" for n :: nat using that by simp
  show ?thesis unfolding single_bits
    by (cases "bit b 6") (simp_all, safe intro!: bit_word_eqI, auto simp: word_bits dest: l c split: if_splits)
qed

lemma sign_extended:
  fixes w :: word_t
  assumes "- (2 ^ (k + 5)) \<le> sint w" "sint w < 2 ^ (k + 5)" "k + 5 < 32"
  shows "push_bit k (signed_take_bit 5 (ucast (ucast (drop_bit k w) :: byte_t))) = (w AND NOT (mask k))"
proof (rule bit_word_eqI)
  fix n assume "n < LENGTH(32)"
  then have n: "n < 32" by simp
  show "bit (push_bit k (signed_take_bit 5 (ucast (ucast (drop_bit k w) :: byte_t))) :: word_t) n = bit (w AND NOT (mask k)) n"
  proof (cases "n < k + 5")
    case True
    then show ?thesis using n
      by (auto simp: bit_push_bit_iff bit_signed_take_bit_iff bit_ucast_iff bit_drop_bit_eq bit_and_iff bit_not_iff bit_mask_iff min_def)
  next
    case False
    then have "bit w n = bit w (k + 5)" using sign_bits [OF assms(1,2) n] by simp
    then show ?thesis using n False assms(3)
      by (auto simp: bit_push_bit_iff bit_signed_take_bit_iff bit_ucast_iff bit_drop_bit_eq bit_and_iff bit_not_iff bit_mask_iff min_def ac_simps)
  qed
qed

lemma sign_extended7:
  fixes w :: word_t
  assumes "- 64 \<le> sint w" "sint w < 64"
  shows "signed_take_bit 6 (ucast (ucast w :: byte_t)) = w"
proof (rule bit_word_eqI)
  fix n assume "n < LENGTH(32)"
  then have n: "n < 32" by simp
  have "bit w n = bit w 6" if "6 \<le> n" using sign_bits [of 6 w n] assms n that by simp
  then show "bit (signed_take_bit 6 (ucast (ucast w :: byte_t)) :: word_t) n = bit w n"
    using n by (cases "n < 6") (simp_all add: bit_signed_take_bit_iff bit_ucast_iff min_def)
qed

lemma next_bytes_remaining:
  assumes "n \<le> length (remaining r)"
  shows "\<exists>r'. next_bytes n (h, r) = (Inr (n, take n (remaining r)), (h, r')) \<and> remaining r' = drop n (remaining r)"
  using get_next_bytes_spec [of n r] assms by (auto simp: next_bytes_def on_reader_def)

lemma operand_step: "read_next_operand s = (case next_bytes 1 s of (Inl e, s') \<Rightarrow> (Inl e, s')
   | (Inr (n, bs), s1) \<Rightarrow> if n = 0 then (Inr (False, 0), s1) else
     let result = ucast (bs ! 0) :: word_t; mode = result AND 0xc0 in
       if mode = 0x00 then (Inr (True, result), s1)
       else if mode = 0x40 then (Inr (True, result OR NOT 0x7f), s1)
       else if mode = 0x80 then (case next_bytes 1 s1 of (Inl e, s') \<Rightarrow> (Inl e, s')
         | (Inr (n1, b1), s') \<Rightarrow> (if n1 = 0 then Inr (False, 0) else Inr (True, push_bit 8 (extend6 result) OR ucast (b1 ! 0)), s'))
       else (case next_bytes 3 s1 of (Inl e, s') \<Rightarrow> (Inl e, s')
         | (Inr (n3, b3), s') \<Rightarrow> (if n3 = 0 then Inr (False, 0) else Inr (True, push_bit 24 (extend6 result) OR
             push_bit 16 (ucast (b3 ! 0)) OR push_bit 8 (ucast (b3 ! 1)) OR ucast (b3 ! 2)), s')))"
  by (auto simp: read_next_operand_def ebind_run Let_def extend6_def split: prod.split sum.split)

lemma low_byte: fixes w :: word_t shows "ucast (ucast w :: byte_t) = (w AND mask 8 :: word_t)"
  by (rule bit_word_eqI) (auto simp: bit_ucast_iff bit_and_iff bit_mask_iff)

lemma low_bytes: fixes w :: word_t shows "push_bit 16 (ucast (ucast (drop_bit 16 w) :: byte_t)) OR push_bit 8 (ucast (ucast (drop_bit 8 w) :: byte_t)) OR
     ucast (ucast w :: byte_t) = (w AND mask 24 :: word_t)"
proof (rule bit_word_eqI)
  fix n assume "n < LENGTH(32)"
  then consider "n < 8" | "8 \<le> n" "n < 16" | "16 \<le> n" "n < 24" | "24 \<le> n" "n < 32" by fastforce
  then show "bit (push_bit 16 (ucast (ucast (drop_bit 16 w) :: byte_t)) OR push_bit 8 (ucast (ucast (drop_bit 8 w) :: byte_t)) OR
     ucast (ucast w :: byte_t) :: word_t) n = bit (w AND mask 24) n"
    by cases (auto simp: bit_or_iff bit_push_bit_iff bit_ucast_iff bit_drop_bit_eq bit_and_iff bit_mask_iff)
qed

lemma split_at: "w AND NOT (mask k) OR (w AND mask k) = (w :: word_t)"
  by (rule bit_word_eqI) (auto simp: bit_or_iff bit_and_iff bit_not_iff)

text \<open>
  Operands read back: whatever follows in the file, \<^verbatim>\<open>read_next_operand\<close> reads the one, two
  or four byte encoding of every integer of thirty bits as that integer and consumes exactly
  its bytes.
\<close>

theorem operand_roundtrip:
  assumes "remaining r = encode_operand w @ rest" "- (2 ^ 29) \<le> sint w" "sint w < 2 ^ 29"
  shows "\<exists>r'. read_next_operand (h, r) = (Inr (True, w), (h, r')) \<and> remaining r' = rest"
proof -
  consider (one) "-64 \<le> sint w" "sint w < 64"
    | (two) "\<not> (-64 \<le> sint w \<and> sint w < 64)" "-8192 \<le> sint w" "sint w < 8192"
    | (four) "\<not> (-64 \<le> sint w \<and> sint w < 64)" "\<not> (-8192 \<le> sint w \<and> sint w < 8192)" by blast
  then show ?thesis
  proof cases
    case one
    then have rem: "remaining r = (ucast w AND 0x7f) # rest" using assms(1) by (simp add: encode_operand_def)
    then obtain r1 where n: "next_bytes 1 (h, r) = (Inr (1, [ucast w AND 0x7f]), (h, r1))" "remaining r1 = rest"
      using next_bytes_remaining [of 1 r h] by auto
    have s6: "signed_take_bit 6 (ucast (ucast w :: byte_t)) = w"
      using one by (rule sign_extended7)
    define b where "b = (ucast w AND 0x7f :: byte_t)"
    have "(ucast b :: word_t) AND 0xc0 = 0 \<and> ucast b = w \<or> (ucast b :: word_t) AND 0xc0 = 0x40 \<and> ucast b OR NOT 0x7f = w"
      using one_byte [of "ucast w"] unfolding s6 b_def by argo
    then have "read_next_operand (h, r) = (Inr (True, w), (h, r1))"
      unfolding operand_step n(1) [folded b_def] by (elim disjE conjE) (simp_all add: Let_def)
    with n(2) show ?thesis by blast
  next
    case two
    then have rem: "remaining r = (0x80 OR (ucast (drop_bit 8 w) AND 0x3f)) # ucast w # rest"
      using assms(1) by (simp add: encode_operand_def)
    then obtain r1 where n: "next_bytes 1 (h, r) = (Inr (1, [0x80 OR (ucast (drop_bit 8 w) AND 0x3f)]), (h, r1))"
        "remaining r1 = ucast w # rest"
      using next_bytes_remaining [of 1 r h] by auto
    then obtain r2 where n2: "next_bytes 1 (h, r1) = (Inr (1, [ucast w]), (h, r2))" "remaining r2 = rest"
      using next_bytes_remaining [of 1 r1 h] by auto
    have "push_bit 8 (signed_take_bit 5 (ucast (ucast (drop_bit 8 w) :: byte_t))) = w AND NOT (mask 8)"
      using two by (intro sign_extended) simp_all
    then show ?thesis using n n2 split_at [of w 8]
      by (simp add: operand_step Let_def two_byte_mode extend6_byte low_byte)
  next
    case four
    then have rem: "remaining r = (0xc0 OR (ucast (drop_bit 24 w) AND 0x3f)) # ucast (drop_bit 16 w) # ucast (drop_bit 8 w) # ucast w # rest"
      using assms(1) by (simp add: encode_operand_def)
    then obtain r1 where n: "next_bytes 1 (h, r) = (Inr (1, [0xc0 OR (ucast (drop_bit 24 w) AND 0x3f)]), (h, r1))"
        "remaining r1 = ucast (drop_bit 16 w) # ucast (drop_bit 8 w) # ucast w # rest"
      using next_bytes_remaining [of 1 r h] by auto
    then obtain r2 where n2: "next_bytes 3 (h, r1) = (Inr (3, [ucast (drop_bit 16 w), ucast (drop_bit 8 w), ucast w]), (h, r2))"
        "remaining r2 = rest"
      using next_bytes_remaining [of 3 r1 h] by auto
    have "push_bit 24 (signed_take_bit 5 (ucast (ucast (drop_bit 24 w) :: byte_t))) = w AND NOT (mask 24)"
      using assms(2,3) by (intro sign_extended) simp_all
    then show ?thesis using n n2 split_at [of w 24] low_bytes [of w]
      by (simp add: operand_step Let_def four_byte_mode extend6_byte or.assoc)
  qed
qed

theorem operand_roundtrip_witness:
  "\<exists>r'. read_next_operand (empty_heap, new_reader [0x80 OR 0x3e, 0xd4, 9]) = (Inr (True, -300), (empty_heap, r')) \<and> remaining r' = [9]"
proof -
  have "encode_operand (-300) = [0x80 OR 0x3e, 0xd4]" by code_simp
  then have "remaining (new_reader [0x80 OR 0x3e, 0xd4, 9]) = encode_operand (-300) @ [9]" by simp
  from operand_roundtrip [OF this] show ?thesis by simp
qed

section \<open>Postconditions\<close>

lemma yields_or_else: "yields m P \<Longrightarrow> yields (or_else_do m c) P"
  unfolding yields_def or_else_do_def catch_def eseq_def ebind_def by (auto split: prod.splits sum.splits)

lemma yields_repeat: "yields m P \<Longrightarrow> yields (repeat_read n m) (\<lambda>xs. length xs = n \<and> list_all P xs)"
proof (induction n)
  case (Suc n)
  then show ?case unfolding repeat_read.simps
    by (intro yields_bind [where Q = P]) (auto intro!: yields_bind [OF Suc.IH] yields_ret)
qed (simp add: yields_ret)

lemma yields_repeat_length: "yields (repeat_read n m) (\<lambda>xs. length xs = n)"
  using yields_repeat [of m "\<lambda>_. True" n] by (simp add: yields_def)

definition instruction_ok :: "exec_op \<Rightarrow> bool" where
  "instruction_ok i \<longleftrightarrow> in_opcode i \<le> last_opcode \<and>
     (mid_mode (in_middle i), op_mode (in_source i), op_mode (in_destination i)) = decode_table ! unat (in_addr_code i)"

lemma convert_row: "convert_to_address_mode c = decode_table ! unat c"
  by (simp add: decode_table_row convert_to_address_mode_def code_middle_def code_mode_def mode_middle_def mode_source_def
      mode_destination_def middle_modes_def addr_modes_def)

lemma yields_middle: "yields (read_middle mode) (\<lambda>m. mid_mode m = mode)"
  unfolding read_middle_def by (auto intro!: yields_ret yields_bind_any)

lemma yields_registers: "yields (read_operand_registers a b mode) (\<lambda>x. op_mode x = mode)"
  unfolding read_operand_registers_def by (auto intro!: yields_ret yields_bind_any yields_seq)

lemma yields_instruction: "yields read_instruction instruction_ok"
proof -
  have rest: "yields (ebind (read_middle mid) (\<lambda>middle. ebind (read_operand_registers a b src) (\<lambda>source.
      ebind (read_operand_registers c d dest) (\<lambda>destination. eret \<lparr> in_opcode = n, in_addr_code = ac, in_source = source,
        in_middle = middle, in_destination = destination \<rparr>)))) instruction_ok"
    if "n \<le> last_opcode" "(mid, src, dest) = decode_table ! unat ac" for mid src dest n ac a b c d
    using that by (intro yields_bind [OF yields_middle] yields_bind [OF yields_registers] yields_ret) (simp add: instruction_ok_def)
  show ?thesis unfolding read_instruction_def Let_def
    by (rule yields_bind_any) (auto intro!: yields_check rest simp: convert_row split: prod.split)
qed

lemma yields_instructions: "yields (read_instructions n a) (\<lambda>code. length code = n \<and> list_all instruction_ok code)"
proof (induction n arbitrary: a)
  case (Suc n)
  show ?case unfolding read_instructions.simps
    by (intro yields_bind [OF yields_instruction] yields_seq yields_bind [OF Suc.IH] yields_ret) simp
qed (simp add: yields_ret)

definition entry_ok :: "header \<Rightarrow> exec_op list \<Rightarrow> bool" where
  "entry_ok hdr code \<longleftrightarrow> hd_entry_pc hdr = -1 \<or> unat (hd_entry_pc hdr) < length code"

lemma yields_code_section:
  "yields (read_code_section hdr a) (\<lambda>code. length code = unat (hd_code_size hdr) \<and> list_all instruction_ok code \<and> entry_ok hdr code)"
  unfolding read_code_section_def
  by (rule yields_bind [OF yields_instructions]) (auto intro!: yields_check yields_ret simp: entry_ok_def)

lemma yields_types: "yields (read_types n types) (\<lambda>ts. length ts = length types)"
proof (induction n arbitrary: types)
  case (Suc n)
  have t: "yields (read_type types) (\<lambda>ts. length ts = length types)"
    unfolding read_type_def by (auto intro!: yields_bind_any yields_seq yields_ret split: prod.split)
  show ?case unfolding read_types.simps
    by (rule yields_bind [OF t]) (use Suc.IH in \<open>metis (mono_tags)\<close>)
qed (simp add: yields_ret)

lemma yields_header: "yields read_header (\<lambda>hdr. hd_magic_number hdr \<in> {xmagic, smagic})"
proof -
  have m: "yields (read_signature magic) (\<lambda>_. magic \<in> {xmagic, smagic})" for magic
    unfolding read_signature_def by (auto simp: yields_def)
  show ?thesis unfolding read_header_def
    by (rule yields_bind_any, rule yields_bind [OF m]) (intro yields_bind_any yields_ret, simp)
qed

lemma yields_original_mp: "yields (allocate_original_mp hdr types) (\<lambda>mp. (mp = 0) = (hd_data_size hdr = 0))"
proof -
  have "yields (on_heap (allocate td)) (\<lambda>mp. mp \<noteq> 0)" for td
    by (auto simp: yields_def on_heap_def allocate_def new_object_def ebind_run eseq_def reserve_def sizeof_vm_alloc_def Let_def
        split: if_splits prod.splits)
  then show ?thesis unfolding allocate_original_mp_def
    by (auto intro!: yields_ret yields_seq yields_throw split: option.split elim!: yields_weaken)
qed

lemma yields_export: "yields read_export (\<lambda>(sig, e). ex_sig e = sig \<and> ex_name e \<noteq> None)"
  unfolding read_export_def by (auto intro!: yields_bind_any yields_ret)

lemma yields_exports: "yields (read_link_section hdr)
    (\<lambda>es. length es = unat (hd_export_size hdr) \<and> list_all (\<lambda>(sig, e). ex_sig e = sig \<and> ex_name e \<noteq> None) es)"
  unfolding read_link_section_def by (rule yields_seq) (rule yields_repeat [OF yields_export])

definition handler_ok :: "handler_entry \<Rightarrow> bool" where
  "handler_ok h \<longleftrightarrow> he_exception_table h \<noteq> [] \<and> ee_name (last (he_exception_table h)) = None \<and>
     list_all (\<lambda>e. ee_name e \<noteq> None) (butlast (he_exception_table h))"

lemma yields_handler: "yields (read_handler types) handler_ok"
proof -
  have e: "yields read_exception (\<lambda>e. ee_name e \<noteq> None)"
    unfolding read_exception_def by (auto intro!: yields_bind_any yields_ret)
  have t: "yields (ebind (repeat_read n read_exception) (\<lambda>exceptions. ebind (operand_or msg) (\<lambda>wildcard_pc.
      eret \<lparr> he_exception_offset = a, he_begin_pc = b, he_end_pc = c, he_exception_type_count = d, he_type_desc = td,
        he_exception_table = exceptions @ [\<lparr> ee_pc = wildcard_pc, ee_name = None \<rparr>] \<rparr>))) handler_ok" for n msg a b c d td
    by (rule yields_bind [OF yields_repeat [OF e]]) (auto intro!: yields_bind_any yields_ret simp: handler_ok_def)
  show ?thesis unfolding read_handler_def Let_def
    by (intro yields_bind_any) (simp add: t split: prod.split)
qed

lemma yields_handlers: "yields (read_handler_section types) (list_all handler_ok)"
proof -
  have r: "yields (eseq (container_size n) (ebind (repeat_read (unat n) (read_handler types)) (\<lambda>handlers.
      eseq (read_final_byte msg) (eret handlers)))) (list_all handler_ok)" for n msg
    by (rule yields_seq, rule yields_bind [OF yields_repeat [OF yields_handler]]) (auto intro!: yields_seq yields_ret)
  show ?thesis unfolding read_handler_section_def by (intro yields_bind_any) (simp add: r split: prod.split)
qed

definition module_ok :: "vm_module \<Rightarrow> bool" where
  "module_ok m \<longleftrightarrow> (let hdr = m_header m in
     hd_magic_number hdr \<in> {xmagic, smagic} \<and>
     (\<exists>code. m_code_section m = map Exec code \<and> length code = unat (hd_code_size hdr) \<and> list_all instruction_ok code \<and> entry_ok hdr code) \<and>
     length (m_type_section m) = unat (hd_type_size hdr) \<and>
     (m_original_mp m = 0) = (hd_data_size hdr = 0) \<and>
     length (m_export_section m) = unat (hd_export_size hdr) \<and>
     list_all (\<lambda>(sig, e). ex_sig e = sig \<and> ex_name e \<noteq> None) (m_export_section m) \<and>
     list_all handler_ok (m_handler_section m) \<and> m_module_name m \<noteq> None)"

lemma yields_sections:
  assumes "hd_magic_number hdr \<in> {xmagic, smagic}" "length code = unat (hd_code_size hdr)" "list_all instruction_ok code"
    "entry_ok hdr code" "length types = unat (hd_type_size hdr)" "(mp = 0) = (hd_data_size hdr = 0)"
  shows "yields (read_sections hdr a code types mp) module_ok"
proof -
  have h: "yields (if b then read_handler_section types else eret []) (list_all handler_ok)" for b
    by (simp add: yields_handlers yields_ret)
  have m: "module_ok \<lparr> m_vm_id = 0, m_header = hdr, m_code_section = map Exec code, m_code_base = a, m_original_mp = mp,
        m_type_section = types, m_module_name = Some name, m_export_section = es, m_import_section = ims,
        m_handler_section = hs \<rparr>"
    if "length es = unat (hd_export_size hdr) \<and> list_all (\<lambda>(sig, e). ex_sig e = sig \<and> ex_name e \<noteq> None) es"
      "list_all handler_ok hs" for name es ims hs
    using assms that unfolding module_ok_def by auto
  show ?thesis unfolding read_sections_def
    by (rule yields_seq, rule yields_bind_any, rule yields_bind [OF yields_exports], rule yields_bind_any,
        rule yields_bind [OF h], rule yields_check(2)) (intro yields_ret m)
qed

lemma yields_module: "yields read_module module_ok"
proof -
  have b: "yields (or_else_do (ebind (read_code_section hdr a) (\<lambda>code. ebind (read_type_section hdr) (\<lambda>types.
      ebind (allocate_original_mp hdr types) (\<lambda>mp. or_else_do (read_sections hdr a code types mp) (on_heap (destroy_original_mp mp))))))
      (on_heap (free_code hdr a))) module_ok"
    if "hd_magic_number hdr \<in> {xmagic, smagic}" for hdr a
  proof (rule yields_or_else, rule yields_bind [OF yields_code_section])
    have t: "yields (read_type_section hdr) (\<lambda>ts. length ts = unat (hd_type_size hdr))"
      unfolding read_type_section_def by (rule yields_seq) (use yields_types in \<open>fastforce elim!: yields_weaken\<close>)
    fix code assume "length code = unat (hd_code_size hdr) \<and> list_all instruction_ok code \<and> entry_ok hdr code"
    with that show "yields (ebind (read_type_section hdr) (\<lambda>types. ebind (allocate_original_mp hdr types)
        (\<lambda>mp. or_else_do (read_sections hdr a code types mp) (on_heap (destroy_original_mp mp))))) module_ok"
      by (intro yields_bind [OF t] yields_bind [OF yields_original_mp] yields_or_else yields_sections) simp_all
  qed
  show ?thesis unfolding read_module_def
    by (rule yields_bind [OF yields_header], rule yields_seq, rule yields_seq, rule yields_bind_any) (rule b)
qed

lemma read_module_wf:
  assumes "load_module_file data h = (Inr m, h')"
  shows "module_ok m"
proof -
  from assms obtain r' where "read_module (h, new_reader data) = (Inr m, (h', r'))"
    by (auto simp: load_module_file_def split: prod.splits)
  then show ?thesis by (rule yieldsD [OF yields_module])
qed

text \<open>
  C6: Every module the reader returns is well formed: the header carries one of the two magic
  numbers, the code, type and export sections have the sizes the header announces, each
  instruction has a known opcode and operands in the modes its addressing code spells, the
  entry point lies in the code, the module has data exactly when the header says so, exports
  are filed under their signature, and each exception table ends in its one default entry.
\<close>

theorem read_module_ok:
  assumes "load_module_file data h = (Inr m, h')"
  shows "module_ok m"
  using assms by (rule read_module_wf)

definition tiny_file :: "byte_t list" where
  "tiny_file = [0xc0, 0x0c, 0x80, 0x30, 0x00, 0x00, 0x01, 0x00, 0x00, 0x00, 0x00, 0x00, 15, 0x1b, 0, 0]"

lemmas reader_defs = load_module_file_def read_module_def new_reader_def read_header_def operand_or_def read_next_operand_def
  next_bytes_def on_reader_def on_heap_def get_next_bytes_def get_bytes_loop.simps check_buffer_content_def buffer_size_def advance_def
  buffered_def read_signature_def xmagic_def smagic_def ebind_run eseq_def Let_def has_flag_def has_import_deprecated_def
  container_size_def

lemmas section_defs = alloc_code_def or_else_do_def catch_def read_code_section_def alloc_block_def reserve_def address_limit_def
  read_type_section_def read_instruction_def read_operand_registers_def read_middle_def instruction_size_def empty_heap_def
  convert_to_address_mode_def code_middle_def code_mode_def read_sections_def read_data_section_def allocate_original_mp_def
  place_instruction_def store_def write_bytes_def map_zero_def last_opcode_def source_offset_def middle_offset_def
  destination_offset_def upt_4 bytes32_def read_module_name_def name_or_def get_bytes_until_def until_loop.simps
  read_link_section_def max_module_name_bytes_def has_import_def has_handler_def must_compile_def

lemma empty_name: "\<exists>s. string_of_utf8 [] = Inr s \<and> get_length s = 0"
  by (simp add: string_of_utf8_def count_codepoints_def get_length_def Let_def local_max_length_def poke_def local_size_def)

theorem read_module_ok_witness:
  "case load_module_file tiny_file empty_heap of (Inr m, _) \<Rightarrow> module_ok m \<and> length (m_code_section m) = 1 | (Inl _, _) \<Rightarrow> False"
proof -
  obtain s where "string_of_utf8 [] = Inr s" "get_length s = 0" using empty_name by blast
  then have l: "case load_module_file tiny_file empty_heap of (Inr m, _) \<Rightarrow> length (m_code_section m) = 1 | (Inl _, _) \<Rightarrow> False"
    by (simp add: reader_defs tiny_file_def section_defs)
  obtain x h where e: "load_module_file tiny_file empty_heap = (x, h)" by fastforce
  with l obtain m where "x = Inr m" "length (m_code_section m) = 1" by (cases x) auto
  with e read_module_ok [of tiny_file empty_heap m h] show ?thesis by simp
qed

section \<open>Instructions that were read decode\<close>

text \<open>
  An instruction that was read never fails the consistency checks of operand decoding: if
  decoding it asserts, one of its operands has a reserved addressing mode, which the format
  leaves undefined.
\<close>

theorem read_instruction_decodes:
  assumes "load_module_file data h = (Inr m, h')" "Exec i \<in> set (m_code_section m)"
    "fst (decode_address i a c) = Inl (AssertFailed msg)"
  shows "op_mode (in_source i) \<in> {Reserved1, Reserved2} \<or> op_mode (in_destination i) \<in> {Reserved1, Reserved2}"
proof -
  have "instruction_ok i"
    using read_module_wf [OF assms(1)] assms(2) by (auto simp: module_ok_def Let_def list_all_iff)
  then have t: "decode_table ! unat (in_addr_code i) = (mid_mode (in_middle i), op_mode (in_source i), op_mode (in_destination i))"
    by (simp add: instruction_ok_def)
  show ?thesis
  proof (rule ccontr)
    assume r: "\<not> ?thesis"
    define Q where "Q = (\<lambda>e. \<forall>msg. e \<noteq> AssertFailed msg)"
    have q: "Q (Undefined u)" for u by (simp add: Q_def)
    have l: "throws_only Q (load n x :: byte_t list exec)" for n x
      by (auto simp: throws_only_def load_def Q_def split: option.splits)
    have f: "throws_only Q current_frame_base" "throws_only Q current_mp"
      unfolding current_frame_base_def current_mp_def reg_def by (intro throws_intros q)+
    have st: "throws_only Q (set_reg g)" for g by (simp add: throws_only_def set_reg_def)
    have ind: "(\<And>y. throws_only Q (g y)) \<Longrightarrow> throws_only Q (indirect x w g)" for x w g
      unfolding indirect_def Let_def by (intro throws_intros l | assumption)+
    have "throws_only Q (dec_src (op_mode (in_source i)) i a)"
      unfolding dec_src_def Let_def using r
      by (cases "op_mode (in_source i)") (simp_all, (intro throws_intros throws_assert f st ind, assumption?)+)
    moreover have "throws_only Q (dec_dest (op_mode (in_destination i)) i a)"
      unfolding dec_dest_def Let_def using r
      by (cases "op_mode (in_destination i)") (simp_all, (intro throws_intros throws_assert f st ind, assumption?)+)
    moreover have "throws_only Q (dec_mid (mid_mode (in_middle i)) i a)"
      unfolding dec_mid_def Let_def reg_def
      by (cases "mid_mode (in_middle i)") (simp_all, (intro throws_intros throws_assert f st ind, assumption?)+)
    ultimately have "throws_only Q (decode_address i a)"
      unfolding decode_address_def t da_def by (simp add: throws_intros)
    with assms(3) show False unfolding throws_only_def Q_def by (metis prod.exhaust_sel)
  qed
qed

definition reserved_file :: "byte_t list" where
  "reserved_file = [0xc0, 0x0c, 0x80, 0x30, 0x00, 0x00, 0x01, 0x00, 0x00, 0x00, 0x00, 0x00, 15, 0x33, 9, 0, 0]"

text \<open>A file whose one instruction has a reserved addressing mode loads, and the decoding of that instruction asserts.\<close>

theorem read_instruction_decodes_witness:
  "case load_module_file reserved_file empty_heap of (Inr m, _) \<Rightarrow>
     (\<exists>i. m_code_section m = [Exec i] \<and> (op_mode (in_source i) \<in> {Reserved1, Reserved2} \<or> op_mode (in_destination i) \<in> {Reserved1, Reserved2}))
   | (Inl _, _) \<Rightarrow> False"
proof -
  obtain s where "string_of_utf8 [] = Inr s" "get_length s = 0" using empty_name by blast
  then have l: "case load_module_file reserved_file empty_heap of (Inr m, _) \<Rightarrow> \<exists>i. m_code_section m = [Exec i] \<and>
      fst (decode_address i 0 (sample_cpu [])) = Inl (AssertFailed ''Unknown addressing'') | (Inl _, _) \<Rightarrow> False"
    by (simp add: reader_defs reserved_file_def section_defs decode_address_def decode_table_row da_def dec_src_def
        mode_middle_def mode_source_def mode_destination_def middle_modes_def addr_modes_def)
  obtain x h where e: "load_module_file reserved_file empty_heap = (x, h)" by fastforce
  with l obtain m i where "x = Inr m" "m_code_section m = [Exec i]"
      "fst (decode_address i 0 (sample_cpu [])) = Inl (AssertFailed ''Unknown addressing'')" by (cases x) auto
  with e read_instruction_decodes [of reserved_file empty_heap m h i 0 "sample_cpu []" "''Unknown addressing''"] show ?thesis by simp
qed

end
