(* ===== verification/ModuleReaderInv.thy ===== *)
theory ModuleReaderInv
  imports ModuleReaderSpec
begin

text \<open>
  Loading a module keeps the heap invariant, whether or not the file is well formed.
\<close>

section \<open>The heap invariant\<close>

definition rd_inv :: "'z heap_scheme \<times> buffered_reader \<Rightarrow> bool" where
  "rd_inv s = heap_inv (fst s)"

lemma keeps_on_heap [keeps_intros]: "keeps heap_inv m \<Longrightarrow> keeps rd_inv (on_heap m)"
  unfolding keeps_def rd_inv_def on_heap_def by (force split: prod.splits)

lemma keeps_on_reader [keeps_intros]: "keeps rd_inv (on_reader m)"
  by (auto simp: keeps_def rd_inv_def on_reader_def split: prod.splits)

lemma keeps_next_bytes [keeps_intros]: "keeps rd_inv (next_bytes n)"
  unfolding next_bytes_def by (intro keeps_intros)

lemma keeps_next_operand [keeps_intros]: "keeps rd_inv read_next_operand" "keeps rd_inv read_next_word"
  unfolding read_next_operand_def read_next_word_def Let_def by (intro keeps_intros)+

lemma keeps_operand_or [keeps_intros]: "keeps rd_inv (operand_or msg)" "keeps rd_inv (word_or msg)" "keeps rd_inv (name_or msg)"
  "keeps rd_inv (container_size n)"
  unfolding operand_or_def word_or_def name_or_def container_size_def by (intro keeps_intros)+

lemma keeps_repeat [keeps_intros]: "keeps rd_inv m \<Longrightarrow> keeps rd_inv (repeat_read n m)"
  by (induction n) (auto simp only: repeat_read.simps intro!: keeps_intros)

lemma keeps_header [keeps_intros]: "keeps rd_inv read_header"
proof -
  have "keeps rd_inv (read_signature magic)" for magic
    unfolding read_signature_def by (intro keeps_intros)
  then show ?thesis unfolding read_header_def by (intro keeps_intros)
qed

lemma keeps_instruction [keeps_intros]: "keeps rd_inv read_instruction"
  unfolding read_instruction_def read_middle_def read_operand_registers_def Let_def by (intro keeps_intros)

lemma keeps_place [keeps_intros]: "keeps heap_inv (place_instruction a i)"
  unfolding place_instruction_def by (intro keeps_intros)

lemma keeps_code_section [keeps_intros]: "keeps rd_inv (read_code_section hdr a)"
proof -
  have "keeps rd_inv (read_instructions n a)" for n a
    by (induction n arbitrary: a) (simp_all only: read_instructions.simps, (intro keeps_intros | assumption)+)
  then show ?thesis unfolding read_code_section_def by (intro keeps_intros)
qed

lemma keeps_type_section [keeps_intros]: "keeps rd_inv (read_type_section hdr)"
proof -
  have "keeps rd_inv (read_types n types)" for n types
    by (induction n arbitrary: types) (simp_all only: read_types.simps read_type_def, (intro keeps_intros | assumption)+)
  then show ?thesis unfolding read_type_section_def by (intro keeps_intros)
qed

lemma keeps_items [keeps_intros]: "keeps rd_inv (read_byte_items n a)" "keeps rd_inv (read_word_items n a)"
  "keeps rd_inv (read_8byte_segments n a)" "keeps rd_inv (read_string_item n a)" "keeps rd_inv (read_array_item hdr types a)"
proof -
  show "keeps rd_inv (read_byte_items n a)"
    by (induction n arbitrary: a) (simp_all only: read_byte_items.simps, (intro keeps_intros | assumption)+)
  show "keeps rd_inv (read_word_items n a)"
    by (induction n arbitrary: a) (simp_all only: read_word_items.simps, (intro keeps_intros | assumption)+)
  show "keeps rd_inv (read_8byte_segments n a)"
    by (induction n arbitrary: a) (simp_all only: read_8byte_segments.simps, (intro keeps_intros | assumption)+)
  show "keeps rd_inv (read_string_item n a)" unfolding read_string_item_def by (intro keeps_intros)
  show "keeps rd_inv (read_array_item hdr types a)" unfolding read_array_item_def by (intro keeps_intros)
qed

lemma keeps_array_at [keeps_intros]: "keeps heap_inv (array_at_address a)"
  unfolding array_at_address_def Let_def by (intro keeps_intros)

lemma keeps_datum [keeps_intros]: "keeps rd_inv (read_datum hdr types code count a ds)"
proof -
  have "keeps rd_inv (restore_address ds)" unfolding restore_address_def by (cases "ds_stack ds") (auto intro!: keeps_intros)
  then show ?thesis unfolding read_datum_def set_array_item_def by (intro keeps_intros)
qed

lemma keeps_data_section [keeps_intros]: "keeps rd_inv (read_data_section hdr types mp)"
proof -
  have i: "keeps rd_inv (read_data_items n hdr types ds)" for n ds
    by (induction n arbitrary: ds) (simp_all only: read_data_items.simps Let_def, (intro keeps_intros | assumption)+)
  show ?thesis using i unfolding read_data_section_def keeps_def by (auto simp del: read_data_items.simps)
qed

lemma keeps_original_mp [keeps_intros]: "keeps rd_inv (allocate_original_mp hdr types)" "keeps heap_inv (destroy_original_mp p)"
  "keeps heap_inv (free_code hdr a)" "keeps heap_inv (alloc_code hdr)"
  unfolding allocate_original_mp_def destroy_original_mp_def free_code_def alloc_code_def by (intro keeps_intros)+

lemma keeps_link_sections [keeps_intros]: "keeps rd_inv read_module_name" "keeps rd_inv (read_link_section hdr)"
  "keeps rd_inv read_import_section" "keeps rd_inv (read_handler_section types)"
  unfolding read_module_name_def read_link_section_def read_export_def read_import_section_def read_import_module_def
    read_import_def read_final_byte_def read_handler_section_def read_handler_def handler_type_def read_exception_def Let_def
  by (intro keeps_intros)+

lemma keeps_or_else [keeps_intros]: "keeps I m \<Longrightarrow> keeps I c \<Longrightarrow> keeps I (or_else_do m c)"
  unfolding or_else_do_def by (intro keeps_intros)

lemma keeps_module [keeps_intros]: "keeps rd_inv read_module"
  unfolding read_module_def read_sections_def by (intro keeps_intros)

lemma load_module_keeps: "keeps heap_inv (load_module_file data)"
proof -
  have "heap_inv h'" if "heap_inv h" "read_module (h, r) = (x, (h', r'))" for h :: "'z heap_scheme" and r x h' r'
    using keepsD [OF keeps_module, of "(h, r)" x "(h', r')"] that by (simp add: rd_inv_def)
  then show ?thesis unfolding keeps_def load_module_file_def by (auto split: prod.splits)
qed

lemma destroy_module_keeps: "keeps heap_inv (destroy_module m)"
  unfolding destroy_module_def by (intro keeps_intros)

text \<open>
  Loading and destroying a module keep the heap invariant on every outcome: a truncated or
  malformed file, which makes the loader throw in the middle of a section with part of the
  data placed, leaves an object table and a memory that are still consistent.
\<close>

theorem load_module_heap_inv:
  "keeps heap_inv (load_module_file data) \<and> keeps heap_inv (destroy_module m)"
  by (simp add: load_module_keeps destroy_module_keeps)

end
