(* ===== verification/ModuleReaderEnd.thy ===== *)
theory ModuleReaderEnd
  imports ModuleReaderInv
begin

text \<open>
  Loading a module ends: the loop over the data items consumes at least one byte of the file in
  each round, so the fuel it is given, the bytes that are left, is never used up.
\<close>

section \<open>Results that are not out of fuel\<close>

definition fueled :: "'a res \<Rightarrow> bool" where
  "fueled r \<longleftrightarrow> r \<noteq> Inl OutOfFuel"

lemma fueled_basic: "fueled (Inr x)" "e \<noteq> OutOfFuel \<Longrightarrow> fueled (Inl e)"
  "e \<noteq> OutOfFuel \<Longrightarrow> fueled r \<Longrightarrow> fueled (require b e r)" "fueled m \<Longrightarrow> (\<And>x. fueled (k x)) \<Longrightarrow> fueled (rbind m k)"
  by (cases b; cases m; simp add: fueled_def)+

lemma fueled_memory: "fueled (peek off n b)" "fueled (poke off bs b)" "fueled (alloc_memory i)" "fueled (swrap j)"
  "fueled (put_elem enc n k x b)" "fueled (get_elem dec n k b)"
  by (simp_all add: fueled_def peek_def poke_def alloc_memory_def swrap_def put_elem_def get_elem_def require_def rbind_def)

lemma fueled_decode: "fueled (decode bs)"
proof -
  have "fueled (decode_loop st cp n bs)" for st cp n bs
    by (induction bs arbitrary: st cp n) (auto simp: fueled_def Let_def split: if_splits prod.splits)
  then show ?thesis by (simp add: decode_def)
qed

lemma fueled_string: "fueled (string_of_utf8 bs)"
proof -
  have d: "fueled (decode_runes is src dest)" for "is" src dest
    by (induction "is" arbitrary: src dest) (auto intro!: fueled_basic fueled_decode fueled_memory split: prod.split)
  show ?thesis unfolding string_of_utf8_def compute_max_length_def Let_def
    by (auto intro!: fueled_basic fueled_memory d split: prod.split)
qed

section \<open>Computations that consume\<close>

definition settles :: "('z, 'a) rd \<Rightarrow> bool" where
  "settles m \<longleftrightarrow> (\<forall>s. fst (m s) \<noteq> Inl OutOfFuel \<and> length (remaining (snd (snd (m s)))) \<le> length (remaining (snd s)))"

lemma settlesD: "settles m \<Longrightarrow> m s = (r, s') \<Longrightarrow> r \<noteq> Inl OutOfFuel \<and> length (remaining (snd s')) \<le> length (remaining (snd s))"
  unfolding settles_def by (drule spec [of _ s]) simp

lemma settlesI: "(\<And>s r s'. m s = (r, s') \<Longrightarrow> r \<noteq> Inl OutOfFuel \<and> length (remaining (snd s')) \<le> length (remaining (snd s))) \<Longrightarrow> settles m"
  unfolding settles_def by (metis surj_pair fst_conv snd_conv)

named_theorems settles_intros \<open>rules for computations on a file that end\<close>

lemma settles_basic [settles_intros]:
  "settles (eret x)" "e \<noteq> OutOfFuel \<Longrightarrow> settles (throw e)" "e \<noteq> OutOfFuel \<Longrightarrow> settles (check b e)" "settles (vm_assert b msg)"
  "fueled r \<Longrightarrow> settles (lift_res r)" "settles (Pair (Inr x))"
  by (auto simp: settles_def fueled_def check_def vm_assert_def)

lemma settles_bind [settles_intros]:
  assumes m: "settles m" and k: "\<And>x. settles (k x)"
  shows "settles (ebind m k)"
proof (rule settlesI)
  fix s r s' assume e: "ebind m k s = (r, s')"
  obtain r1 s1 where r1: "m s = (r1, s1)" by (rule prod.exhaust)
  note m' = settlesD [OF m r1]
  show "r \<noteq> Inl OutOfFuel \<and> length (remaining (snd s')) \<le> length (remaining (snd s))"
  proof (cases r1)
    case (Inl x)
    with e r1 m' show ?thesis by (auto simp: ebind_run)
  next
    case (Inr x)
    with e r1 have "k x s1 = (r, s')" by (simp add: ebind_run)
    with settlesD [OF k] m' show ?thesis by fastforce
  qed
qed

lemma settles_seq [settles_intros]: "settles m \<Longrightarrow> settles k \<Longrightarrow> settles (eseq m k)"
  unfolding eseq_def by (rule settles_bind)

lemma settles_if [settles_intros]: "(b \<Longrightarrow> settles m) \<Longrightarrow> (\<not> b \<Longrightarrow> settles n) \<Longrightarrow> settles (if b then m else n)"
  by simp

lemma settles_prod [settles_intros]: "(\<And>x y. settles (k x y)) \<Longrightarrow> settles (case v of (x, y) \<Rightarrow> k x y)"
  by (cases v) simp

lemma settles_option [settles_intros]: "settles m \<Longrightarrow> (\<And>x. settles (k x)) \<Longrightarrow> settles (case v of None \<Rightarrow> m | Some x \<Rightarrow> k x)"
  by (cases v) simp_all

lemma settles_repeat [settles_intros]: "settles m \<Longrightarrow> settles (repeat_read n m)"
  by (induction n) (auto simp only: repeat_read.simps intro!: settles_intros)

lemma settles_or_else [settles_intros]:
  assumes m: "settles m" and c: "settles c"
  shows "settles (or_else_do m c)"
proof (rule settlesI)
  fix s r s' assume e: "or_else_do m c s = (r, s')"
  obtain r1 s1 where r1: "m s = (r1, s1)" by (rule prod.exhaust)
  note m' = settlesD [OF m r1]
  show "r \<noteq> Inl OutOfFuel \<and> length (remaining (snd s')) \<le> length (remaining (snd s))"
  proof (cases r1)
    case (Inl x)
    with m' have "settles (eseq c (throw x))" by (auto intro!: settles_intros c)
    moreover have "eseq c (throw x) s1 = (r, s')" using e r1 Inl by (simp add: or_else_do_def catch_def)
    ultimately show ?thesis using settlesD m' by fastforce
  qed (use e r1 m' in \<open>simp add: or_else_do_def catch_def\<close>)
qed

section \<open>The reader\<close>

abbreviation not_fuel :: "vm_exn \<Rightarrow> bool" where "not_fuel e \<equiv> e \<noteq> OutOfFuel"

lemma settles_on_heap [settles_intros]: "throws_only not_fuel m \<Longrightarrow> settles (on_heap m)"
  unfolding settles_def on_heap_def throws_only_def by (auto split: prod.splits)

lemma settles_reader:
  assumes "\<And>r. \<exists>x r'. m r = (Inr x, r') \<and> length (remaining r') \<le> length (remaining r)"
  shows "settles (on_reader m :: ('z, 'a) rd)"
proof -
  have "fst (on_reader m s) \<noteq> Inl OutOfFuel \<and> length (remaining (snd (snd (on_reader m s)))) \<le> length (remaining (snd s))"
    for s :: "'z heap_scheme \<times> buffered_reader"
    using assms [of "snd s"] by (auto simp: on_reader_def split: prod.splits)
  then show ?thesis unfolding settles_def by blast
qed

lemma settles_bytes [settles_intros]: "settles (next_bytes n)" "settles (on_reader get_next_byte)" "settles (on_reader (get_bytes_until c))"
proof -
  show "settles (next_bytes n)" unfolding next_bytes_def
  proof (rule settles_reader)
    fix r
    show "\<exists>x r'. get_next_bytes n r = (Inr x, r') \<and> length (remaining r') \<le> length (remaining r)"
      using get_next_bytes_spec [of n r] by (metis diff_le_self length_drop list.size(3) zero_le)
  qed
  show "settles (on_reader get_next_byte)"
  proof (rule settles_reader)
    fix r
    show "\<exists>x r'. get_next_byte r = (Inr x, r') \<and> length (remaining r') \<le> length (remaining r)"
      using get_next_byte_spec [of r] by (metis diff_le_self length_tl)
  qed
  show "settles (on_reader (get_bytes_until c))"
  proof (rule settles_reader)
    fix r
    have "length (tl (dropWhile (\<lambda>b. b \<noteq> c) (remaining r))) \<le> length (remaining r)"
      using length_dropWhile_le [of "\<lambda>b. b \<noteq> c" "remaining r"] by simp
    then show "\<exists>x r'. get_bytes_until c r = (Inr x, r') \<and> length (remaining r') \<le> length (remaining r)"
      using get_bytes_until_spec [of c r] by (metis list.size(3) zero_le)
  qed
qed

lemma settles_operands [settles_intros]: "settles read_next_operand" "settles read_next_word" "settles (operand_or msg)"
  "settles (word_or msg)" "settles (name_or msg)" "settles (container_size n)"
proof -
  show o: "settles read_next_operand" and w: "settles read_next_word"
    unfolding read_next_operand_def read_next_word_def Let_def by (intro settles_intros)+
  show "settles (operand_or msg)" "settles (word_or msg)" "settles (name_or msg)" "settles (container_size n)"
    unfolding operand_or_def word_or_def name_or_def container_size_def
    by (intro settles_intros o w fueled_string; simp)+
qed

lemma settles_header [settles_intros]: "settles read_header"
proof -
  have "settles (read_signature magic)" for magic
    unfolding read_signature_def by (intro settles_intros; simp)
  then show ?thesis unfolding read_header_def by (intro settles_intros)
qed

lemma fuel_read [throws_intros]: "throws_only not_fuel (load n a)" "throws_only not_fuel (obj_at p)" "throws_only not_fuel (reserve n)"
  by (auto simp: throws_only_def load_def obj_at_def reserve_def Let_def split: option.splits if_splits)

lemma fuel_write [throws_intros]: "throws_only not_fuel (store a bs)" "throws_only not_fuel (free_block a n)" "throws_only not_fuel (set_obj p ob)"
  "throws_only not_fuel (discard_obj p)"
  by (auto simp: throws_only_def store_def free_block_def set_obj_def discard_obj_def split: option.splits)

lemma fuel_alloc [throws_intros]: "throws_only not_fuel (alloc_block n)" "throws_only not_fuel (new_object off n td pl)"
  unfolding alloc_block_def new_object_def Let_def by (intro throws_intros)+

lemma fuel_construct [throws_intros]: "throws_only not_fuel m \<Longrightarrow> throws_only not_fuel (construct p m)"
  unfolding construct_def by (intro throws_intros | assumption)+

lemma fuel_objects [throws_intros]: "throws_only not_fuel (allocate td)" "throws_only not_fuel (new_string v)"
  "throws_only not_fuel (new_array td len)"
  unfolding allocate_def new_string_def new_array_def by (intro throws_intros; simp)+

lemma settles_instruction [settles_intros]: "settles read_instruction"
  unfolding read_instruction_def read_middle_def read_operand_registers_def Let_def by (intro settles_intros; simp)

lemma settles_code_section [settles_intros]: "settles (read_code_section hdr a)"
proof -
  have p: "settles (on_heap (place_instruction a i))" for a i
    unfolding place_instruction_def by (intro settles_intros throws_intros)
  have "settles (read_instructions n a)" for n a
    by (induction n arbitrary: a) (auto simp only: read_instructions.simps intro!: settles_intros p)
  then show ?thesis unfolding read_code_section_def by (auto intro!: settles_intros)
qed

lemma settles_type_section [settles_intros]: "settles (read_type_section hdr)"
proof -
  have t: "settles (read_type types)" for types
    unfolding read_type_def type_create_def by (intro settles_intros fueled_basic; simp)
  have "settles (read_types n types)" for n types
    by (induction n arbitrary: types) (auto simp only: read_types.simps intro!: settles_intros t)
  then show ?thesis unfolding read_type_section_def by (auto intro!: settles_intros)
qed

section \<open>Data\<close>

lemma settles_items [settles_intros]: "settles (read_byte_items n a)" "settles (read_word_items n a)"
  "settles (read_8byte_segments n a)" "settles (read_string_item n a)" "settles (read_array_item hdr types a)"
proof -
  show "settles (read_byte_items n a)"
    by (induction n arbitrary: a) (auto simp only: read_byte_items.simps intro!: settles_intros throws_intros)
  show "settles (read_word_items n a)"
    by (induction n arbitrary: a) (auto simp only: read_word_items.simps intro!: settles_intros throws_intros)
  show "settles (read_8byte_segments n a)"
    by (induction n arbitrary: a) (auto simp only: read_8byte_segments.simps intro!: settles_intros throws_intros)
  show "settles (read_string_item n a)" unfolding read_string_item_def
    by (intro settles_intros throws_intros fueled_string; simp)
  show "settles (read_array_item hdr types a)" unfolding read_array_item_def
    by (intro settles_intros throws_intros; simp)
qed

lemma fuel_array_at [throws_intros]: "throws_only not_fuel (array_at_address a)"
proof -
  have "throws_only not_fuel (case ob_data ob of ArrayObj arr \<Rightarrow> eret arr | _ \<Rightarrow> throw (Undefined ''not an array''))" for ob :: obj
    by (cases "ob_data ob") (simp_all add: throws_intros)
  then show ?thesis unfolding array_at_address_def Let_def by (auto intro!: throws_intros)
qed

lemma settles_datum [settles_intros]: "settles (read_datum hdr types code count a ds)"
proof -
  have "settles (restore_address ds)" unfolding restore_address_def
    by (cases "ds_stack ds") (auto intro!: settles_intros)
  then show ?thesis unfolding read_datum_def set_array_item_def by (auto intro!: settles_intros throws_intros)
qed

lemma data_items_end:
  fixes s s' :: "'z heap_scheme \<times> buffered_reader"
  assumes "length (remaining (snd s)) < n" "read_data_items n hdr types ds s = (r, s')"
  shows "r \<noteq> Inl OutOfFuel \<and> length (remaining (snd s')) \<le> length (remaining (snd s))"
  using assms
proof (induction n arbitrary: ds s r s')
  case (Suc n)
  obtain h rd where s: "s = (h, rd)" by (cases s)
  obtain k bs rd' where n: "next_bytes 1 (h, rd) = (Inr (k, bs), (h, rd'))"
      "k = 1 \<longrightarrow> length (remaining rd') < length (remaining rd)" "length (remaining rd') \<le> length (remaining rd)"
    using get_next_bytes_spec [of 1 rd] unfolding next_bytes_def on_reader_def by (fastforce split: if_splits)
  define code where "code = bs ! 0"
  define rest :: "('z, data_state) rd" where "rest = ebind (if code AND 0x0f = 0 then operand_or ''Failed to read long item datum count''
      else eret (ucast (code AND 0x0f))) (\<lambda>count. ebind (operand_or ''Failed to read offset'') (\<lambda>byte_offset.
        read_datum hdr types (unat (drop_bit 4 (code AND 0xf0))) (unat count) (ptr_add (ds_base ds) byte_offset) ds))"
  have st: "settles rest" unfolding rest_def by (intro settles_intros)
  have e: "read_data_items (Suc n) hdr types ds s = (if k \<noteq> 1 then (Inl (ModuleException ''Failed to read data item code''), (h, rd'))
      else if code = 0 then (Inr (), (h, rd')) else ebind rest (read_data_items n hdr types) (h, rd'))"
    using n(1) by (simp add: s ebind_Inr Let_def rest_def ebind_assoc eseq_def code_def)
  show ?case
  proof (cases "k = 1 \<and> code \<noteq> 0")
    case False
    with e n(3) Suc.prems(2) show ?thesis by (auto simp: s split: if_splits)
  next
    case True
    obtain r1 s1 where r1: "rest (h, rd') = (r1, s1)" by (rule prod.exhaust)
    note m = settlesD [OF st r1]
    show ?thesis
    proof (cases r1)
      case (Inl x)
      with True e n(3) m r1 Suc.prems(2) show ?thesis by (auto simp: s ebind_run)
    next
      case (Inr ds')
      with True e r1 Suc.prems(2) have "read_data_items n hdr types ds' s1 = (r, s')" by (simp add: ebind_run)
      moreover have "length (remaining (snd s1)) < n" using m n(2) True Suc.prems(1) by (simp add: s)
      ultimately show ?thesis using Suc.IH [of s1 ds' r s'] m n(3) by (simp add: s)
    qed
  qed
qed simp

lemma settles_data_section [settles_intros]: "settles (read_data_section hdr types mp)"
proof (rule settlesI)
  fix s r s' assume "read_data_section hdr types mp s = (r, s')"
  then show "r \<noteq> Inl OutOfFuel \<and> length (remaining (snd s')) \<le> length (remaining (snd s))"
    using data_items_end [of s "Suc (length (remaining (snd s)))"] by (cases s) (simp add: read_data_section_def del: read_data_items.simps)
qed

section \<open>The module\<close>

lemma fuel_shrinks:
  assumes "\<And>n. shrinks n m"
  shows "throws_only not_fuel m"
  unfolding throws_only_def
proof (intro allI impI)
  fix s e s' assume "m s = (Inl e, s')"
  then show "not_fuel e" using assms [of "Suc (total_refs s)"] unfolding shrinks_def by (drule_tac spec [of _ s]) auto
qed

lemma shrinks_dec: "shrinks n (dec_ref_count_and_free p)"
  using dec_ref_shrinks unfolding shrinks_def dec_ref_count_and_free_def by blast

lemma fuel_release [throws_intros]: "throws_only not_fuel (release p)"
  unfolding throws_only_def
proof (intro allI impI)
  fix s e s' assume "release p s = (Inl e, s')"
  then show "not_fuel e" by (rule_tac release_cases [of p s]) auto
qed

lemma fuel_destroy_original_mp [throws_intros]: "throws_only not_fuel (destroy_original_mp p)"
  unfolding destroy_original_mp_def by (intro throws_intros fuel_shrinks shrinks_delete shrinks_dec)

lemma settles_original_mp [settles_intros]: "settles (allocate_original_mp hdr types)"
  unfolding allocate_original_mp_def by (auto intro!: settles_intros throws_intros)

lemma settles_sections [settles_intros]: "settles read_module_name" "settles (read_link_section hdr)"
  "settles read_import_section" "settles (read_handler_section types)"
  unfolding read_module_name_def read_link_section_def read_export_def read_import_section_def read_import_module_def
    read_import_def read_final_byte_def read_handler_section_def read_handler_def handler_type_def read_exception_def Let_def
  by (intro settles_intros; simp)+

lemma settles_module: "settles read_module"
proof -
  have "throws_only not_fuel (alloc_code hdr)" for hdr
    unfolding alloc_code_def throws_only_def catch_def by (auto split: prod.splits sum.splits)
  moreover have "throws_only not_fuel (free_code hdr a)" for hdr a
    unfolding free_code_def by (intro throws_intros)
  ultimately show ?thesis unfolding read_module_def read_sections_def by (auto intro!: settles_intros throws_intros)
qed

lemma load_module_ends: "fst (load_module_file data h) \<noteq> Inl OutOfFuel"
proof -
  obtain r s' where "read_module (h, new_reader data) = (r, s')" by (rule prod.exhaust)
  with settlesD [OF settles_module this] show ?thesis by (simp add: load_module_file_def split: prod.split)
qed

text \<open>
  C14: Loading a module file ends, whatever the bytes of the file are: no loop of the reader,
  and no destruction in its clean-up, uses up its fuel.
\<close>

theorem load_module_terminates: "fst (load_module_file data h) \<noteq> Inl OutOfFuel"
  by (rule load_module_ends)

end
