(* ===== verification/Collector.thy ===== *)
theory Collector
  imports Machine
begin

text \<open>
  The collector of \<^verbatim>\<open>src/src/vm/garbage_collector.cpp\<close>. It holds a reference to every allocation
  a thread created and drops it when marking has passed the allocation by in two collections.
  Colours rotate with the epoch, so that the colour to sweep is the one that was current two
  epochs ago. The mark stack is a list with its top in front. The collection runs while no VM
  thread does; the mutex of the list has no effect in the model.
\<close>

section \<open>Colours\<close>

datatype gc_colour = White | Grey | Black

definition colour_code :: "gc_colour \<Rightarrow> word_t" where
  "colour_code c = (case c of White \<Rightarrow> 0 | Grey \<Rightarrow> 1 | Black \<Rightarrow> 2)"

definition current_colours :: "gc_colour list" where "current_colours = [White, Grey, Black]"
definition sweeper_colours :: "gc_colour list" where "sweeper_colours = [Grey, Black, White]"

definition get_current_colour :: "nat \<Rightarrow> gc_colour" where
  "get_current_colour epoch = current_colours ! (epoch mod length current_colours)"

definition get_sweeper_colour :: "nat \<Rightarrow> gc_colour" where
  "get_sweeper_colour epoch = sweeper_colours ! (epoch mod length sweeper_colours)"

definition get_gc_colour :: "nat \<Rightarrow> ('z, word_t) heff" where
  "get_gc_colour a = ebind (obj_at a) (\<lambda>ob. eret (ob_gc ob))"

definition set_gc_colour :: "nat \<Rightarrow> gc_colour \<Rightarrow> ('z, unit) heff" where
  "set_gc_colour a c = ebind (obj_at a) (\<lambda>ob. set_obj a (ob\<lparr> ob_gc := colour_code c \<rparr>))"

section \<open>Marking\<close>

definition mark_pointer_maybe :: "gc_colour \<Rightarrow> nat \<Rightarrow> nat list \<Rightarrow> ('z, nat list) heff" where
  "mark_pointer_maybe c p stack = (if p = 0 then eret stack else (ebind (get_gc_colour p) (\<lambda>colour.
     eret (if colour \<noteq> colour_code c then p # stack else stack))))"

primrec mark_fields :: "gc_colour \<Rightarrow> nat \<Rightarrow> nat list \<Rightarrow> nat list \<Rightarrow> ('z, nat list) heff" where
  "mark_fields c memory [] stack = eret stack"
| "mark_fields c memory (k # ks) stack = ebind (pt_ref (memory + 4 * k)) (\<lambda>p.
     ebind (mark_pointer_maybe c p stack) (\<lambda>stack'.
     mark_fields c memory ks stack'))"

definition mark_pointer_fields :: "gc_colour \<Rightarrow> type_desc \<Rightarrow> nat \<Rightarrow> nat list \<Rightarrow> ('z, nat list) heff" where
  "mark_pointer_fields c td data stack = eseq (vm_assert (data \<noteq> 0) ''data != nullptr'') (
     mark_fields c data (flagged_fields td) stack)"

definition mark_frame :: "gc_colour \<Rightarrow> nat \<Rightarrow> nat list \<Rightarrow> ('z, nat list) heff" where
  "mark_frame c frame stack = ebind (prev_module_ref frame) (\<lambda>prev_module.
     ebind (if prev_module \<noteq> 0 then ebind (module_ref_at prev_module) (\<lambda>mr. eret (mr_mp_base mr # stack)) else eret stack) (\<lambda>stack1.
     ebind (frame_type frame) (\<lambda>td.
     if td_map td \<noteq> [] then mark_pointer_fields c td (frame_base frame) stack1 else eret stack1)))"

primrec mark_frames :: "nat \<Rightarrow> gc_colour \<Rightarrow> nat \<Rightarrow> nat list \<Rightarrow> ('z, nat list) heff" where
  "mark_frames 0 c frame stack = (if frame = 0 then eret stack else throw OutOfFuel)"
| "mark_frames (Suc n) c frame stack = (if frame = 0 then eret stack else (ebind (mark_frame c frame stack) (\<lambda>stack'.
     ebind (prev_frame frame) (\<lambda>next.
     mark_frames n c next stack'))))"

primrec mark_roots :: "gc_colour \<Rightarrow> registers list \<Rightarrow> nat list \<Rightarrow> ('z, nat list) heff" where
  "mark_roots c [] stack = eret stack"
| "mark_roots c (r # rs) stack = ebind (gets (\<lambda>h. length (h_frame_types h))) (\<lambda>frames.
     ebind (mark_frames (Suc frames) c (peek_frame (r_stack r)) (r_mp_base r # stack)) (\<lambda>stack'.
     mark_roots c rs stack'))"

definition mark_one :: "gc_colour \<Rightarrow> nat \<Rightarrow> nat list \<Rightarrow> ('z, nat list) heff" where
  "mark_one c node stack = eseq (set_gc_colour node c) (
     ebind (obj_at node) (\<lambda>ob.
     if td_map (ob_type ob) \<noteq> [] then mark_pointer_fields c (ob_type ob) node stack else eret stack))"

primrec mark_loop :: "nat \<Rightarrow> gc_colour \<Rightarrow> nat list \<Rightarrow> ('z, unit) heff" where
  "mark_loop 0 c stack = (if stack = [] then eret () else throw OutOfFuel)"
| "mark_loop (Suc n) c stack = (case stack of [] \<Rightarrow> eret ()
   | node # rest \<Rightarrow> ebind (mark_one c node rest) (mark_loop n c))"

definition max_fields :: "'z heap_scheme \<Rightarrow> nat" where
  "max_fields h = sum_list (map (\<lambda>(p, ob). length (flagged_fields (ob_type ob))) (h_objs h))"

definition mark_fuel :: "nat list \<Rightarrow> 'z heap_scheme \<Rightarrow> nat" where
  "mark_fuel stack h = length stack + max_fields h * (2 * length (h_objs h))"

definition mark_graph :: "gc_colour \<Rightarrow> nat list \<Rightarrow> ('z, unit) heff" where
  "mark_graph c stack = (\<lambda>h. mark_loop (mark_fuel stack h) c stack h)"

definition mark :: "gc_colour \<Rightarrow> registers list \<Rightarrow> ('z, unit) heff" where
  "mark c threads = ebind (mark_roots c threads []) (mark_graph c)"

section \<open>Sweeping and collecting\<close>

primrec sweep_list :: "gc_colour \<Rightarrow> nat list \<Rightarrow> ('z, nat list) heff" where
  "sweep_list c [] = eret []"
| "sweep_list c (a # as) = ebind (get_gc_colour a) (\<lambda>colour.
     if colour = colour_code c then eseq (dec_ref_count_and_free a) (sweep_list c as)
     else ebind (sweep_list c as) (\<lambda>rest. eret (a # rest)))"

definition sweep :: "gc_colour \<Rightarrow> ('z world_scheme, unit) eff" where
  "sweep c = ebind (gets w_tracked) (\<lambda>tracked.
     ebind (sweep_list c tracked) (\<lambda>kept.
     modify (\<lambda>w. w\<lparr> w_tracked := kept \<rparr>)))"

definition collect :: "registers list \<Rightarrow> ('z world_scheme, bool) eff" where
  "collect threads = ebind (gets w_tracked) (\<lambda>tracked.
     if tracked = [] then eret False
     else (ebind (gets w_epoch) (\<lambda>epoch.
       eseq (mark (get_current_colour epoch) threads) (
       eseq (sweep (get_sweeper_colour epoch)) (
       eseq (modify (\<lambda>w. w\<lparr> w_epoch := epoch + 1 \<rparr>)) (
       eret True))))))"

definition enum_tracked_allocations :: "(nat \<Rightarrow> ('z world_scheme, unit) eff) \<Rightarrow> ('z world_scheme, unit) eff" where
  "enum_tracked_allocations callback = ebind (gets w_tracked) (for_each callback)"

definition destroy_collector :: "('z world_scheme, unit) eff" where
  "destroy_collector = ebind (gets w_tracked) (for_each dec_ref_count_and_free)"

end
