(* ===== verification/Scheduler.thy ===== *)
theory Scheduler
  imports Interpreter Collector
begin

text \<open>
  The scheduler of \<^verbatim>\<open>src/src/vm/scheduler.cpp\<close>. Its operations run under the lock of the thread
  collections, so each is one step on the queues of the world; the set of blocked threads is a
  list without repetitions, and the number of running threads an unsigned 32-bit counter. The
  loop of \<^verbatim>\<open>next_thread\<close> is split where it gives the lock up: \<^verbatim>\<open>begin_pick\<close> is an iteration up
  to the wait for another worker's collection, \<^verbatim>\<open>take_runnable\<close> the rest of it. A worker that
  waits leaves its loop with the value of what it waits for. A worker's output to the standard
  error stream is the text it stops with.
\<close>

section \<open>Queues\<close>

definition enqueue_thread_unsafe :: "nat \<Rightarrow> thread_state \<Rightarrow> string option \<Rightarrow> ('z world_scheme, bool) eff" where
  "enqueue_thread_unsafe thread_id current_state err = (
     if current_state = Ready \<or> current_state = DebugState then (eseq (modify (\<lambda>w. w\<lparr> w_runnable := w_runnable w @ [thread_id] \<rparr>)) (
     eret True))
     else if current_state = BlockedInAlt \<or> current_state = BlockedSending \<or> current_state = BlockedReceiving then (eseq (modify (\<lambda>w. w\<lparr> w_blocked := List.insert thread_id (w_blocked w) \<rparr>)) (
     eret False))
     else if current_state = EmptyStack \<or> current_state = Exiting then (ebind (gets (\<lambda>w. thread_id \<in> fst ` set (w_threads w))) (\<lambda>known.
     eseq (vm_assert known ''thread_to_remove != _all_vm_threads.cend()'') (
     eseq (modify (\<lambda>w. w\<lparr> w_threads := AList.delete thread_id (w_threads w) \<rparr>)) (
     eret False))))
     else if current_state = Broken then (case err of
         None \<Rightarrow> throw (AssertFailed ''err_msg != nullptr'')
       | Some msg \<Rightarrow> throw (TermRequest msg))
     else throw (AssertFailed ''Unexpected thread state''))"

definition counter_limit :: nat where "counter_limit = 2 ^ 32"

definition release_thread :: "nat \<Rightarrow> thread_state \<Rightarrow> string option \<Rightarrow> ('z world_scheme, bool) eff" where
  "release_thread thread_id current_state err = eseq (modify (\<lambda>w. w\<lparr> w_running := (w_running w + counter_limit - 1) mod counter_limit \<rparr>)) (
     enqueue_thread_unsafe thread_id current_state err)"

datatype pick = Picked nat | StopWorker | WaitEvent | WaitGc

definition take_runnable :: "('z world_scheme, pick) eff" where
  "take_runnable = ebind (gets w_runnable) (\<lambda>runnable.
     case runnable of
       thread_id # rest \<Rightarrow> (eseq (modify (\<lambda>w. w\<lparr> w_runnable := rest \<rparr>)) (
       ebind (gets (\<lambda>w. thread_id \<in> fst ` set (w_threads w))) (\<lambda>known.
       eseq (vm_assert known ''iter != _all_vm_threads.cend()'') (
       eseq (modify (\<lambda>w. w\<lparr> w_running := (w_running w + 1) mod counter_limit, w_gc_counter := (w_gc_counter w + 1) mod counter_limit \<rparr>)) (
       eret (Picked thread_id))))))
     | [] \<Rightarrow> (ebind (gets (\<lambda>w. w_threads w \<noteq> [] \<and> length (w_blocked w) = length (w_threads w))) (\<lambda>deadlock.
       eseq (vm_assert (\<not> deadlock) ''VM thread deadlock detected'') (
       ebind (gets w_terminating) (\<lambda>terminating.
       eret (if terminating then StopWorker else WaitEvent))))))"

definition perform_gc :: "('z world_scheme, bool) eff" where
  "perform_gc = ebind (gets (\<lambda>w. filter (\<lambda>r. r_state r \<noteq> Broken) (map snd (w_threads w)))) (\<lambda>threads.
     collect threads)"

definition gc_due :: "'z world_scheme \<Rightarrow> bool" where
  "gc_due w \<longleftrightarrow> w_gc_counter w mod 256 = 0"

definition begin_pick :: "('z world_scheme, pick) eff" where
  "begin_pick = ebind (gets gc_due) (\<lambda>due.
     ebind (gets w_running) (\<lambda>running.
     if due \<and> running \<noteq> 0 then eret WaitGc
     else (eseq (when_do due (ebind perform_gc (\<lambda>_. eret ()))) (
       take_runnable))))"

definition wake_worker :: "('z world_scheme, pick) eff" where
  "wake_worker = ebind (gets w_terminating) (\<lambda>terminating.
     if terminating then eret StopWorker else begin_pick)"

section \<open>The interface of the scheduler\<close>

definition is_idle :: "'z world_scheme \<Rightarrow> bool" where
  "is_idle w \<longleftrightarrow> w_terminating w \<or> (w_running w = 0 \<and> w_runnable w = [] \<and> w_blocked w = [])"

definition get_all_threads :: "'z world_scheme \<Rightarrow> registers list" where
  "get_all_threads w = map snd (w_threads w)"

definition create_scheduler :: "nat \<Rightarrow> nat \<Rightarrow> ('z world_scheme, unit) eff" where
  "create_scheduler system_thread_count thread_quanta = eseq (modify (\<lambda>w. w\<lparr> w_gc_counter := 1, w_running := 0, w_terminating := False, w_threads := [], w_runnable := [], w_blocked := [] \<rparr>)) (
     eseq (check (system_thread_count \<noteq> 0) (SystemException ''Work thread count must be > 0'')) (
     check (thread_quanta \<noteq> 0) (SystemException ''Work thread quanta must be > 0'')))"

definition stop_scheduler :: "('z world_scheme, unit) eff" where
  "stop_scheduler = modify (\<lambda>w. w\<lparr> w_terminating := True, w_runnable := [], w_threads := [] \<rparr>)"

definition set_tool_dispatch :: "bool \<Rightarrow> nat \<Rightarrow> ('z world_scheme, unit) eff" where
  "set_tool_dispatch dispatch thread_id = ebind (gets w_threads) (\<lambda>threads.
     case map_of threads thread_id of None \<Rightarrow> eret ()
     | Some r \<Rightarrow> (eseq (vm_assert (r_tool_dispatch r \<noteq> dispatch) ''Dispatch value should toggle between null and non-null'') (
       modify (\<lambda>w. w\<lparr> w_threads := AList.update thread_id (r\<lparr> r_tool_dispatch := dispatch \<rparr>) threads \<rparr>))))"

definition set_dispatch_round :: "bool \<Rightarrow> nat set \<Rightarrow> nat list \<Rightarrow> ('z world_scheme, nat list) eff" where
  "set_dispatch_round dispatch owned ids = eseq (for_each (set_tool_dispatch dispatch) (filter (\<lambda>t. t \<notin> owned) ids)) (
     eret (filter (\<lambda>t. t \<in> owned) ids))"

primrec set_dispatch_rounds :: "bool \<Rightarrow> nat set list \<Rightarrow> nat list \<Rightarrow> ('z world_scheme, nat list) eff" where
  "set_dispatch_rounds dispatch [] ids = eret ids"
| "set_dispatch_rounds dispatch (owned # rounds) ids = ebind (set_dispatch_round dispatch owned ids) (\<lambda>rest.
     ebind (gets (\<lambda>w. filter (\<lambda>t. t \<in> fst ` set (w_threads w)) rest)) (\<lambda>known.
     set_dispatch_rounds dispatch rounds known))"

definition set_tool_dispatch_on_all_threads :: "bool \<Rightarrow> nat set list \<Rightarrow> ('z world_scheme, nat list) eff" where
  "set_tool_dispatch_on_all_threads dispatch rounds = ebind (gets (\<lambda>w. map fst (w_threads w))) (\<lambda>ids.
     set_dispatch_rounds dispatch rounds ids)"

section \<open>A worker\<close>

definition destroy_thread :: "registers \<Rightarrow> ('z, unit) heff" where
  "destroy_thread r = eseq (dec_ref_count_and_free (r_mp_base r)) (
     eseq (dec_ref_count_and_free (r_module_ref r)) (
     ebind (destroy_stack (r_stack r)) (\<lambda>st.
     free_stack st)))"

definition finally_do :: "('s, 'a) eff \<Rightarrow> ('s, unit) eff \<Rightarrow> ('s, 'a) eff" where
  "finally_do m cleanup = ebind (catch m (\<lambda>e. eseq cleanup (throw e))) (\<lambda>x.
     eseq cleanup (
     eret x))"

definition next_thread :: "nat option \<Rightarrow> pick exec" where
  "next_thread prev_thread = (case prev_thread of None \<Rightarrow> begin_pick
   | Some thread_id \<Rightarrow> (ebind (gets c_regs) (\<lambda>r.
     ebind (release_thread thread_id (r_state r) (r_error_message r)) (\<lambda>runnable.
     ebind (gets (\<lambda>w. thread_id \<in> fst ` set (w_threads w))) (\<lambda>known.
     finally_do begin_pick (when_do (\<not> known) (destroy_thread r)))))))"

definition run_slice :: "env \<Rightarrow> nat \<Rightarrow> nat \<Rightarrow> unit exec" where
  "run_slice E quanta thread_id = ebind (gets w_threads) (\<lambda>threads.
     case map_of threads thread_id of None \<Rightarrow> throw (Undefined ''null thread'')
     | Some r \<Rightarrow> (eseq (set_reg (\<lambda>_. r)) (
       ebind (execute E quanta) (\<lambda>_.
       ebind (gets c_regs) (\<lambda>r'.
       modify (\<lambda>w. w\<lparr> w_threads := AList.update thread_id r' (w_threads w) \<rparr>))))))"

datatype worker_end = Waits pick | Stops string | StillRuns

definition terminate :: "string \<Rightarrow> worker_end exec" where
  "terminate msg = eseq (modify (\<lambda>w. w\<lparr> w_terminating := True \<rparr>)) (
     eret (Stops msg))"

definition frame_line :: "nat \<times> word_t \<times> nat \<Rightarrow> ('z, string) heff" where
  "frame_line x = (case x of (base, pc, module_p) \<Rightarrow> (ebind (module_of module_p) (\<lambda>md.
     ebind (case m_module_name md of None \<Rightarrow> eret ''<No Name>''
       | Some s \<Rightarrow> ebind (lift_res (str s)) (\<lambda>n. eret (ascii_text (c_string (str_bytes n))))) (\<lambda>name.
     eret (''    '' @ name @ '' @'' @ decimal_text (sint pc) @ [char_of (10 :: nat)])))))"

definition report_failure :: "bool \<Rightarrow> string \<Rightarrow> worker_end exec" where
  "report_failure has_thread msg = ebind (gets c_regs) (\<lambda>r.
     ebind (if has_thread then walk_stack r else eret []) (\<lambda>frames.
     ebind (map_each frame_line frames) (\<lambda>ls.
     terminate (msg @ [char_of (10 :: nat)] @ concat ls))))"

definition handle_worker_exception :: "bool \<Rightarrow> vm_exn \<Rightarrow> worker_end exec" where
  "handle_worker_exception has_thread e = (case e of
     TermRequest msg \<Rightarrow> terminate msg
   | SystemException msg \<Rightarrow> report_failure has_thread msg
   | ModuleException msg \<Rightarrow> report_failure has_thread msg
   | _ \<Rightarrow> throw e)"

primrec worker_loop :: "nat \<Rightarrow> env \<Rightarrow> nat \<Rightarrow> nat option \<Rightarrow> worker_end exec" where
  "worker_loop 0 E quanta current_thread = eret StillRuns"
| "worker_loop (Suc n) E quanta current_thread = ebind (catch (ebind (next_thread current_thread) (\<lambda>p. eret (Inl p)))
       (\<lambda>e. ebind (handle_worker_exception False e) (\<lambda>x. eret (Inr x)))) (\<lambda>p.
     case p of Inr x \<Rightarrow> eret x
     | Inl (Picked thread_id) \<Rightarrow> (ebind (catch (eseq (run_slice E quanta thread_id) (eret None))
           (\<lambda>e. ebind (handle_worker_exception True e) (\<lambda>x. eret (Some x)))) (\<lambda>failed.
       case failed of Some x \<Rightarrow> eret x | None \<Rightarrow> worker_loop n E quanta (Some thread_id)))
     | Inl StopWorker \<Rightarrow> eret (Stops [])
     | Inl WaitEvent \<Rightarrow> eret (Waits WaitEvent)
     | Inl WaitGc \<Rightarrow> eret (Waits WaitGc))"

definition worker_main :: "nat \<Rightarrow> env \<Rightarrow> nat \<Rightarrow> worker_end exec" where
  "worker_main slices E quanta = worker_loop slices E quanta None"

end
