(* ===== verification/CollectorSpec.thy ===== *)
theory CollectorSpec
  imports Collector ExecInvariant Outcomes
begin

text \<open>
  What a collection does: which objects marking colours, that it ends, what sweeping keeps, and
  how long an allocation that nothing marks stays tracked.
\<close>

section \<open>Colours and epochs\<close>

lemma colour_code_inject [simp]: "colour_code c = colour_code d \<longleftrightarrow> c = d"
  by (cases c; cases d) (simp_all add: colour_code_def)

lemma sweeper_is_older: "get_sweeper_colour e = get_current_colour e' \<longleftrightarrow> e mod 3 = (e' + 2) mod 3"
proof -
  have m: "e mod 3 = 0 \<or> e mod 3 = 1 \<or> e mod 3 = 2" "e' mod 3 = 0 \<or> e' mod 3 = 1 \<or> e' mod 3 = 2" by linarith+
  have s: "(e' + 2) mod 3 = (e' mod 3 + 2) mod 3" by (metis mod_add_left_eq)
  show ?thesis unfolding s get_sweeper_colour_def get_current_colour_def sweeper_colours_def current_colours_def
    using m by auto
qed

section \<open>Reading the object graph\<close>

lemma load_objs: "load n a (h\<lparr> h_objs := os \<rparr>) = (let (r, h') = load n a h in (r, h'\<lparr> h_objs := os \<rparr>))"
  by (simp add: load_def split: option.split)

lemma pt_ref_objs: "fst (pt_ref a (h\<lparr> h_objs := os \<rparr>)) = fst (pt_ref a h)"
  by (simp add: pt_ref_def get32_def vt_load_def ebind_run eseq_def vm_assert_def check_def load_def split: option.split prod.split sum.split)

lemma pt_ref_same: "snd (pt_ref a h) = h"
  by (simp add: pt_ref_def get32_def vt_load_def ebind_run eseq_def vm_assert_def check_def load_def split: option.split prod.split sum.split)

definition colour_of :: "'z heap_scheme \<Rightarrow> nat \<Rightarrow> word_t option" where
  "colour_of h p = map_option ob_gc (map_of (h_objs h) p)"

definition child :: "'z heap_scheme \<Rightarrow> nat \<Rightarrow> nat \<Rightarrow> bool" where
  "child h x y \<longleftrightarrow> (\<exists>ob k. map_of (h_objs h) x = Some ob \<and> k \<in> set (flagged_fields (ob_type ob)) \<and>
     fst (pt_ref (x + 4 * k) h) = Inr y \<and> y \<noteq> 0)"

lemma get_gc_colour_run: "get_gc_colour p h = (case colour_of h p of None \<Rightarrow> (Inl (Undefined ''access to a dead object''), h) | Some w \<Rightarrow> (Inr w, h))"
  by (simp add: get_gc_colour_def obj_at_def ebind_run colour_of_def split: option.split)

lemma mark_pointer_maybe_run:
  assumes "mark_pointer_maybe c p stack h = (Inr stack', h')"
  shows "h' = h \<and> stack' = (if p \<noteq> 0 \<and> colour_of h p \<noteq> Some (colour_code c) then p # stack else stack) \<and> (p \<noteq> 0 \<longrightarrow> colour_of h p \<noteq> None)"
  using assms by (auto simp: mark_pointer_maybe_def ebind_run get_gc_colour_run split: if_splits option.splits)

lemma mark_fields_run:
  assumes "mark_fields c memory ks stack h = (Inr stack', h')"
  shows "h' = h \<and> set stack' = set stack \<union> {y. \<exists>k\<in>set ks. fst (pt_ref (memory + 4 * k) h) = Inr y \<and> y \<noteq> 0 \<and> colour_of h y \<noteq> Some (colour_code c)}"
  using assms
proof (induction ks arbitrary: stack)
  case (Cons k ks)
  from Cons.prems obtain p where p: "pt_ref (memory + 4 * k) h = (Inr p, h)"
    using pt_ref_same [of "memory + 4 * k" h] by (auto simp: ebind_run split: prod.splits sum.splits)
  with Cons.prems obtain stack1 h1 where m: "mark_pointer_maybe c p stack h = (Inr stack1, h1)" "mark_fields c memory ks stack1 h1 = (Inr stack', h')"
    by (auto simp: ebind_run split: prod.splits sum.splits)
  note m1 = mark_pointer_maybe_run [OF m(1)]
  from Cons.IH [of stack1] m(2) m1 show ?case by (auto simp: p)
qed simp

section \<open>What marking colours\<close>

inductive marked :: "'z heap_scheme \<Rightarrow> word_t \<Rightarrow> nat list \<Rightarrow> nat \<Rightarrow> bool" for h w roots where
  root: "x \<in> set roots \<Longrightarrow> marked h w roots x"
| child: "marked h w roots x \<Longrightarrow> child h x y \<Longrightarrow> colour_of h y \<noteq> Some w \<Longrightarrow> marked h w roots y"

definition coloured :: "'z heap_scheme \<Rightarrow> word_t \<Rightarrow> (nat \<Rightarrow> bool) \<Rightarrow> 'z heap_scheme \<Rightarrow> bool" where
  "coloured h w P h' \<longleftrightarrow> h' = h\<lparr> h_objs := h_objs h' \<rparr> \<and>
     (\<forall>x. map_of (h_objs h') x = map_option (\<lambda>ob. if P x then ob\<lparr> ob_gc := w \<rparr> else ob) (map_of (h_objs h) x))"

lemma coloured_child: "coloured h w P h' \<Longrightarrow> child h' = child h"
proof -
  assume c: "coloured h w P h'"
  then have p: "fst (pt_ref a h') = fst (pt_ref a h)" for a
    unfolding coloured_def by (metis pt_ref_objs)
  show "child h' = child h"
  proof (intro ext)
    fix x y
    have "map_of (h_objs h') x = map_option (\<lambda>ob. if P x then ob\<lparr>ob_gc := w\<rparr> else ob) (map_of (h_objs h) x)"
      using c unfolding coloured_def by blast
    then show "child h' x y = child h x y" by (cases "map_of (h_objs h) x") (simp_all add: child_def p)
  qed
qed

lemma coloured_colour: "coloured h w P h' \<Longrightarrow> colour_of h' x = (if P x then map_option (\<lambda>_. w) (colour_of h x) else colour_of h x)"
  by (cases "map_of (h_objs h) x") (simp_all add: coloured_def colour_of_def)

lemma coloured_trans:
  assumes a: "coloured h w P h1" and b: "coloured h1 w Q h2"
  shows "coloured h w (\<lambda>x. P x \<or> Q x) h2"
proof -
  have "h1 = h\<lparr> h_objs := h_objs h1 \<rparr>" "h2 = h1\<lparr> h_objs := h_objs h2 \<rparr>" using a b unfolding coloured_def by blast+
  then have "h2 = h\<lparr> h_objs := h_objs h2 \<rparr>" by (metis heap.update_convs(3) heap.surjective)
  moreover have "map_of (h_objs h2) x = map_option (\<lambda>ob. if P x \<or> Q x then ob\<lparr>ob_gc := w\<rparr> else ob) (map_of (h_objs h) x)" for x
  proof -
    have "map_of (h_objs h1) x = map_option (\<lambda>ob. if P x then ob\<lparr>ob_gc := w\<rparr> else ob) (map_of (h_objs h) x)"
      "map_of (h_objs h2) x = map_option (\<lambda>ob. if Q x then ob\<lparr>ob_gc := w\<rparr> else ob) (map_of (h_objs h1) x)"
      using a b unfolding coloured_def by blast+
    then show ?thesis by (cases "map_of (h_objs h) x") simp_all
  qed
  ultimately show ?thesis unfolding coloured_def by blast
qed

lemma set_gc_colour_run:
  assumes "set_gc_colour x c h = (Inr u, h')"
  shows "coloured h (colour_code c) (\<lambda>y. y = x) h'" "colour_of h x \<noteq> None" "map fst (h_objs h') = map fst (h_objs h)"
  using assms by (auto simp: set_gc_colour_def obj_at_def ebind_run set_obj_def coloured_def colour_of_def map_of_map_entry
      option.map_id0 [unfolded id_def, simplified] option.map_ident split: option.splits)

lemma mark_one_run:
  assumes "mark_one c x rest h = (Inr stack, h')"
  shows "coloured h (colour_code c) (\<lambda>y. y = x) h' \<and>
     set stack = set rest \<union> {y. child h x y \<and> colour_of h' y \<noteq> Some (colour_code c)}"
proof -
  from assms obtain u h1 where h1: "set_gc_colour x c h = (Inr u, h1)"
    by (auto simp: mark_one_def eseq_def ebind_run split: prod.splits sum.splits)
  note col = set_gc_colour_run [OF h1]
  from assms h1 obtain ob where ob: "map_of (h_objs h1) x = Some ob"
      "(if td_map (ob_type ob) \<noteq> [] then mark_pointer_fields c (ob_type ob) x rest else eret rest) h1 = (Inr stack, h')"
    by (auto simp: mark_one_def eseq_def ebind_run obj_at_def split: option.splits)
  have "h' = h1 \<and> set stack = set rest \<union> {y. child h1 x y \<and> colour_of h1 y \<noteq> Some (colour_code c)}"
  proof (cases "td_map (ob_type ob) = []")
    case True
    then have "flagged_fields (ob_type ob) = []" by (simp add: flagged_fields_def)
    with True ob show ?thesis by (simp add: child_def)
  next
    case False
    with ob(2) have "mark_fields c x (flagged_fields (ob_type ob)) rest h1 = (Inr stack, h')"
      by (auto simp: mark_pointer_fields_def eseq_def ebind_run vm_assert_def check_def split: if_splits)
    from mark_fields_run [OF this] ob(1) show ?thesis by (auto simp: child_def)
  qed
  with col coloured_child [OF col(1)] show ?thesis by simp
qed

lemma marked_pop:
  assumes c: "coloured h w (\<lambda>y. y = x) h1" and s: "set stack = set rest \<union> {y. child h x y \<and> colour_of h1 y \<noteq> Some w}"
    and x: "colour_of h x \<noteq> None"
  shows "marked h w (x # rest) y \<longleftrightarrow> y = x \<or> marked h1 w stack y"
proof
  note k = coloured_child [OF c] and g = coloured_colour [OF c]
  show "y = x \<or> marked h1 w stack y" if "marked h w (x # rest) y"
    using that
  proof induction
    case (child y z)
    then show ?case
      by (cases "z = x") (auto intro: marked.intros simp: k g s)
  qed (auto intro: marked.intros simp: s)
  have "marked h w (x # rest) y" if "marked h1 w stack y"
    using that
  proof induction
    case (root z)
    have "marked h w (x # rest) z" if "child h x z" "colour_of h z \<noteq> Some w"
      by (rule marked.child [OF marked.root that]) simp
    with root show ?case by (auto simp: s g intro: marked.intros split: if_splits)
  next
    case (child y z)
    then show ?case by (auto simp: k g intro: marked.intros split: if_splits)
  qed
  then show "marked h w (x # rest) y" if "y = x \<or> marked h1 w stack y" using that by (auto intro: marked.intros)
qed

lemma mark_loop_colours:
  "mark_loop n c stack h = (Inr u, h') \<Longrightarrow> coloured h (colour_code c) (marked h (colour_code c) stack) h'"
proof (induction n arbitrary: stack h)
  case 0
  then have "\<not> marked h (colour_code c) [] x" for x by (auto elim: marked.induct)
  with 0 show ?case by (auto simp: coloured_def map_option_case split: if_splits option.split)
next
  case (Suc n)
  show ?case
  proof (cases stack)
    case Nil
    have "\<not> marked h (colour_code c) [] x" for x by (auto elim: marked.induct)
    with Suc Nil show ?thesis by (auto simp: coloured_def map_option_case split: option.split)
  next
    case (Cons x rest)
    with Suc.prems obtain stack1 h1 where m: "mark_one c x rest h = (Inr stack1, h1)" "mark_loop n c stack1 h1 = (Inr u, h')"
      by (auto simp: ebind_run split: prod.splits sum.splits)
    note o1 = mark_one_run [OF m(1)]
    have x: "colour_of h x \<noteq> None" using m(1) set_gc_colour_run(2)
      by (fastforce simp: mark_one_def eseq_def ebind_run split: prod.splits sum.splits)
    have e: "(\<lambda>y. y = x \<or> marked h1 (colour_code c) stack1 y) = marked h (colour_code c) (x # rest)"
      using marked_pop [OF o1 [THEN conjunct1] o1 [THEN conjunct2] x] by (intro ext) blast
    from coloured_trans [OF o1 [THEN conjunct1] Suc.IH [OF m(2)]] show ?thesis by (simp add: e Cons)
  qed
qed

section \<open>Marking ends\<close>

definition uncoloured :: "word_t \<Rightarrow> 'z heap_scheme \<Rightarrow> nat" where
  "uncoloured w h = length (filter (\<lambda>p. colour_of h p \<noteq> Some w) (map fst (h_objs h)))"

lemma uncoloured_coloured:
  assumes c: "coloured h w (\<lambda>y. y = x) h1" and k: "map fst (h_objs h1) = map fst (h_objs h)" and x: "colour_of h x \<noteq> None"
  shows "uncoloured w h1 + (if colour_of h x \<noteq> Some w then 1 else 0) \<le> uncoloured w h"
proof -
  let ?ps = "filter (\<lambda>p. colour_of h p \<noteq> Some w) (map fst (h_objs h))"
  have f: "filter (\<lambda>p. colour_of h1 p \<noteq> Some w) (map fst (h_objs h)) = filter (\<lambda>p. p \<noteq> x) ?ps"
    using x by (auto simp: coloured_colour [OF c] intro: filter_cong)
  have m: "x \<in> set (map fst (h_objs h))" using x by (auto simp: colour_of_def map_of_eq_None_iff image_iff)
  show ?thesis
  proof (cases "colour_of h x = Some w")
    case False
    with m have "x \<in> set ?ps" by simp
    from length_filter_less [OF this, of "\<lambda>p. p \<noteq> x"] False show ?thesis by (simp add: uncoloured_def k f)
  next
    case True
    have "length (filter (\<lambda>p. p \<noteq> x) ?ps) \<le> length ?ps" by (rule length_filter_le)
    with True show ?thesis unfolding uncoloured_def k f by simp
  qed
qed

lemma mark_fields_pushes:
  assumes "mark_fields c memory ks stack h = (Inr stack', h')"
  shows "\<exists>new. stack' = new @ stack \<and> length new \<le> length ks \<and> list_all (\<lambda>y. colour_of h y \<noteq> None \<and> colour_of h y \<noteq> Some (colour_code c)) new"
  using assms
proof (induction ks arbitrary: stack)
  case (Cons k ks)
  from Cons.prems obtain p where p: "pt_ref (memory + 4 * k) h = (Inr p, h)"
    using pt_ref_same [of "memory + 4 * k" h] by (auto simp: ebind_run split: prod.splits sum.splits)
  with Cons.prems obtain stack1 h1 where m: "mark_pointer_maybe c p stack h = (Inr stack1, h1)" "mark_fields c memory ks stack1 h1 = (Inr stack', h')"
    by (auto simp: ebind_run split: prod.splits sum.splits)
  note m1 = mark_pointer_maybe_run [OF m(1)]
  from Cons.IH [of stack1] m(2) m1 obtain new where n: "stack' = new @ stack1" "length new \<le> length ks"
      "list_all (\<lambda>y. colour_of h y \<noteq> None \<and> colour_of h y \<noteq> Some (colour_code c)) new" by auto
  show ?case
  proof (cases "stack1 = stack")
    case False
    with m1 n show ?thesis by (intro exI [of _ "new @ [p]"]) (auto split: if_splits)
  qed (use n in \<open>auto intro: exI [of _ new]\<close>)
qed simp

definition fields_bounded :: "nat \<Rightarrow> 'z heap_scheme \<Rightarrow> bool" where
  "fields_bounded f h \<longleftrightarrow> (\<forall>x ob. map_of (h_objs h) x = Some ob \<longrightarrow> length (flagged_fields (ob_type ob)) \<le> f)"

lemma fields_bounded_max: "fields_bounded (max_fields h) h"
  unfolding fields_bounded_def max_fields_def
proof (intro allI impI)
  fix x ob assume "map_of (h_objs h) x = Some ob"
  then have "length (flagged_fields (ob_type ob)) \<in> set (map (\<lambda>(p, ob). length (flagged_fields (ob_type ob))) (h_objs h))"
    by (force dest: map_of_SomeD)
  then show "length (flagged_fields (ob_type ob)) \<le> sum_list (map (\<lambda>(p, ob). length (flagged_fields (ob_type ob))) (h_objs h))"
    by (simp add: member_le_sum_list)
qed

lemma fields_bounded_coloured:
  assumes b: "fields_bounded f h" and c: "coloured h w P h'"
  shows "fields_bounded f h'"
  unfolding fields_bounded_def
proof (intro allI impI)
  fix x ob assume "map_of (h_objs h') x = Some ob"
  moreover have "map_of (h_objs h') x = map_option (\<lambda>ob. if P x then ob\<lparr>ob_gc := w\<rparr> else ob) (map_of (h_objs h) x)"
    using c unfolding coloured_def by blast
  ultimately show "length (flagged_fields (ob_type ob)) \<le> f"
    using b by (auto simp: fields_bounded_def split: if_splits)
qed

definition pending_marks :: "nat \<Rightarrow> word_t \<Rightarrow> nat list \<Rightarrow> 'z heap_scheme \<Rightarrow> nat" where
  "pending_marks f w stack h = length stack + f * (2 * uncoloured w h -
     (if stack \<noteq> [] \<and> colour_of h (hd stack) \<noteq> None \<and> colour_of h (hd stack) \<noteq> Some w then 1 else 0))"

lemma mark_one_decreases:
  assumes m: "mark_one c x rest h = (Inr stack, h')" and b: "fields_bounded f h"
  shows "pending_marks f (colour_code c) stack h' < pending_marks f (colour_code c) (x # rest) h"
proof -
  let ?w = "colour_code c"
  from m obtain u h1 where h1: "set_gc_colour x c h = (Inr u, h1)"
    by (auto simp: mark_one_def eseq_def ebind_run split: prod.splits sum.splits)
  note col = set_gc_colour_run [OF h1]
  from m h1 obtain ob where ob: "map_of (h_objs h1) x = Some ob"
      "(if td_map (ob_type ob) \<noteq> [] then mark_pointer_fields c (ob_type ob) x rest else eret rest) h1 = (Inr stack, h')"
    by (auto simp: mark_one_def eseq_def ebind_run obj_at_def split: option.splits)
  have "h' = h1 \<and> (\<exists>new. stack = new @ rest \<and> length new \<le> length (flagged_fields (ob_type ob)) \<and>
      list_all (\<lambda>y. colour_of h1 y \<noteq> None \<and> colour_of h1 y \<noteq> Some ?w) new)"
  proof (cases "td_map (ob_type ob) = []")
    case False
    with ob(2) have m: "mark_fields c x (flagged_fields (ob_type ob)) rest h1 = (Inr stack, h')"
      by (auto simp: mark_pointer_fields_def eseq_def ebind_run vm_assert_def check_def split: if_splits)
    from mark_fields_run [OF m] mark_fields_pushes [OF m] show ?thesis by blast
  qed (use ob in simp)
  then obtain new where n: "h' = h1" "stack = new @ rest" "length new \<le> length (flagged_fields (ob_type ob))"
      "list_all (\<lambda>y. colour_of h1 y \<noteq> None \<and> colour_of h1 y \<noteq> Some ?w) new" by blast
  have f: "length new \<le> f"
    using fields_bounded_coloured [OF b col(1)] ob(1) n(3) unfolding fields_bounded_def by fastforce
  note u = uncoloured_coloured [OF col(1,3,2)]
  have pos: "0 < uncoloured ?w h1" if "colour_of h1 (hd stack) \<noteq> None" "colour_of h1 (hd stack) \<noteq> Some ?w"
  proof -
    have "hd stack \<in> set (filter (\<lambda>p. colour_of h1 p \<noteq> Some ?w) (map fst (h_objs h1)))"
      using that by (auto simp: colour_of_def map_of_eq_None_iff image_iff)
    then show ?thesis unfolding uncoloured_def by (metis length_pos_if_in_set)
  qed
  define bx :: nat where "bx = (if colour_of h x \<noteq> Some ?w then 1 else 0)"
  define u1 where "u1 = uncoloured ?w h1"
  have ux: "u1 + bx \<le> uncoloured ?w h" using u unfolding bx_def u1_def .
  have x: "pending_marks f ?w (x # rest) h = Suc (length rest) + f * (2 * uncoloured ?w h - bx)"
    using col(2) by (simp add: pending_marks_def bx_def)
  show ?thesis
  proof (cases "new = []")
    case True
    have "2 * u1 - i \<le> 2 * uncoloured ?w h - bx" for i using ux by linarith
    then have "f * (2 * u1 - i) \<le> f * (2 * uncoloured ?w h - bx)" for i by (rule mult_le_mono2)
    then show ?thesis unfolding x by (simp add: pending_marks_def n(1,2) True u1_def less_Suc_eq_le)
  next
    case False
    then have hd: "colour_of h1 (hd stack) \<noteq> None" "colour_of h1 (hd stack) \<noteq> Some ?w"
      using n(2,4) by (cases new; simp)+
    from pos [OF hd] have u1: "0 < u1" unfolding u1_def .
    have "length new + f * (2 * u1 - 1) \<le> f * (2 * u1)" using f u1 by (cases u1) (simp_all add: algebra_simps)
    also have "\<dots> \<le> f * (2 * uncoloured ?w h - bx)" by (rule mult_le_mono2) (use ux bx_def in \<open>auto split: if_splits\<close>)
    finally have "length new + f * (2 * u1 - 1) \<le> f * (2 * uncoloured ?w h - bx)" .
    moreover have "pending_marks f ?w stack h' = length new + length rest + f * (2 * u1 - 1)"
      using hd False n(2) by (simp add: pending_marks_def n(1) u1_def)
    ultimately show ?thesis unfolding x by simp
  qed
qed

lemma mark_one_fuel: "throws_only (\<lambda>e. e \<noteq> OutOfFuel) (mark_one c x rest)"
proof -
  have o: "throws_only (\<lambda>e. e \<noteq> OutOfFuel) (obj_at p)" for p
    by (auto simp: throws_only_def obj_at_def split: option.splits)
  have r: "throws_only (\<lambda>e. e \<noteq> OutOfFuel) (pt_ref a)" for a
    unfolding pt_ref_def get32_def vt_load_def by (intro throws_intros) (auto simp: throws_only_def load_def split: option.splits)
  have f: "throws_only (\<lambda>e. e \<noteq> OutOfFuel) (mark_fields c m ks s)" for m ks s
    by (induction ks arbitrary: s) (auto simp only: mark_fields.simps mark_pointer_maybe_def get_gc_colour_def intro!: throws_intros o r)
  show ?thesis unfolding mark_one_def set_gc_colour_def set_obj_def mark_pointer_fields_def
    by (auto intro!: throws_intros o f)
qed

lemma mark_loop_ends:
  assumes "fields_bounded f h" "pending_marks f (colour_code c) stack h \<le> n"
  shows "fst (mark_loop n c stack h) \<noteq> Inl OutOfFuel"
  using assms
proof (induction n arbitrary: stack h)
  case 0
  then show ?case by (cases stack) (simp_all add: pending_marks_def)
next
  case (Suc n)
  show ?case
  proof (cases stack)
    case (Cons x rest)
    obtain r h1 where m: "mark_one c x rest h = (r, h1)" by (rule prod.exhaust)
    show ?thesis
    proof (cases r)
      case (Inl e)
      with m mark_one_fuel [THEN throws_onlyD] show ?thesis by (fastforce simp: Cons ebind_run)
    next
      case (Inr stack1)
      note m' = m [unfolded Inr]
      have "fields_bounded f h1" using fields_bounded_coloured [OF Suc.prems(1)] mark_one_run [OF m'] by blast
      moreover have "pending_marks f (colour_code c) stack1 h1 \<le> n"
        using mark_one_decreases [OF m' Suc.prems(1)] Suc.prems(2) Cons by simp
      ultimately show ?thesis using Suc.IH [of h1 stack1] by (simp add: Cons ebind_run m')
    qed
  qed simp
qed

lemma mark_graph_ends: "fst (mark_graph c stack h) \<noteq> Inl OutOfFuel"
proof -
  have u: "uncoloured (colour_code c) h \<le> length (h_objs h)"
    unfolding uncoloured_def by (metis length_filter_le length_map)
  have "pending_marks (max_fields h) (colour_code c) stack h \<le> length stack + max_fields h * (2 * uncoloured (colour_code c) h)"
    unfolding pending_marks_def by (intro add_left_mono mult_le_mono2) simp
  also have "\<dots> \<le> mark_fuel stack h" unfolding mark_fuel_def by (intro add_left_mono mult_le_mono2) (use u in simp)
  finally show ?thesis unfolding mark_graph_def by (rule mark_loop_ends [OF fields_bounded_max])
qed

section \<open>Sweeping\<close>

definition keeps_colours :: "(nat \<Rightarrow> word_t option) \<Rightarrow> 'z heap_scheme \<Rightarrow> bool" where
  "keeps_colours f h \<longleftrightarrow> (\<forall>x. colour_of h x = None \<or> colour_of h x = f x)"

lemma keeps_colours_objs: "(\<And>h. h_objs (snd (m h)) = h_objs h) \<Longrightarrow> keeps (keeps_colours f) m"
  by (simp add: keeps_def keeps_colours_def colour_of_def)

lemma colours_memory [keeps_intros]:
  "keeps (keeps_colours f) (load n a)" "keeps (keeps_colours f) (store a bs)" "keeps (keeps_colours f) (free_block a n)"
  "keeps (keeps_colours f) (obj_at p)" "keeps (keeps_colours f) (finalize td p)" "keeps (keeps_colours f) (host_do act)" "keeps (keeps_colours f) (pt_ref a)"
  by (rule keeps_colours_objs, simp add: load_def store_def free_block_def obj_at_def finalize_def host_do_def pt_ref_same split: option.split)+

lemma colours_discard [keeps_intros]: "keeps (keeps_colours f) (discard_obj p)"
  by (auto simp: keeps_def keeps_colours_def colour_of_def discard_obj_def delete_conv')

lemma colours_release [keeps_intros]: "keeps (keeps_colours f) (release p)"
  unfolding keeps_def
proof (intro allI impI)
  fix h assume k: "keeps_colours f h"
  show "keeps_colours f (snd (release p h))"
  proof (rule release_cases [of p h])
    fix ob assume "map_of (h_objs h) p = Some ob"
      "release p h = (Inr (ob_refs ob - 1), h\<lparr> h_objs := AList.map_entry p (\<lambda>_. ob\<lparr> ob_refs := ob_refs ob - 1 \<rparr>) (h_objs h) \<rparr>)"
    with k show ?thesis unfolding keeps_colours_def colour_of_def by (auto simp: map_of_map_entry dest: spec [of _ p])
  qed (use k in simp)
qed

lemma colours_delete:
  assumes "\<And>p. keeps (keeps_colours f) (dec p)"
  shows "keeps (keeps_colours f) (delete_alloc dec p)"
proof -
  have e: "keeps (keeps_colours f) (enum_pointer_fields td d dec)" for td d
    unfolding enum_pointer_fields_def by (intro keeps_intros assms)
  then have d: "keeps (keeps_colours f) (destroy_fields dec td d)" for td d
    unfolding destroy_fields_def dec_fields_def assign_debug_memory_def by (intro keeps_intros)
  have "keeps (keeps_colours f) (destroy_payload dec pl)" for pl
    unfolding destroy_payload_def destroy_array_def destroy_list_def destroy_fd_def
    by (cases pl) (simp_all, (intro keeps_intros assms d)+)
  then show ?thesis unfolding delete_alloc_def by (intro keeps_intros d)
qed

lemma colours_dec [keeps_intros]: "keeps (keeps_colours f) (dec_ref_count_and_free p)"
proof -
  have "keeps (keeps_colours f) (dec_ref_fuel n p)" for n
    by (induction n arbitrary: p) (simp_all only: dec_ref_fuel.simps, (intro keeps_intros colours_delete | assumption)+)
  then show ?thesis unfolding keeps_def dec_ref_count_and_free_def by blast
qed

lemma sweep_list_filter:
  assumes "sweep_list c as h = (Inr kept, h')" "keeps_colours f h"
  shows "kept = filter (\<lambda>a. f a \<noteq> Some (colour_code c)) as"
  using assms
proof (induction as arbitrary: h kept)
  case (Cons a as)
  from Cons.prems(1) obtain w where w: "colour_of h a = Some w"
    by (auto simp: ebind_run get_gc_colour_run split: option.splits)
  with Cons.prems(2) have f: "f a = Some w" unfolding keeps_colours_def by (metis option.distinct(1))
  show ?case
  proof (cases "w = colour_code c")
    case True
    with Cons.prems(1) w obtain u h1 where d: "dec_ref_count_and_free a h = (Inr u, h1)" "sweep_list c as h1 = (Inr kept, h')"
      by (auto simp: ebind_run eseq_def get_gc_colour_run split: prod.splits sum.splits)
    have "keeps_colours f h1" by (rule keepsD [OF colours_dec Cons.prems(2) d(1)])
    from Cons.IH [OF d(2) this] f True show ?thesis by simp
  next
    case False
    with Cons.prems(1) w obtain rest where "sweep_list c as h = (Inr rest, h')" "kept = a # rest"
      by (auto simp: ebind_run get_gc_colour_run split: prod.splits sum.splits)
    with Cons.IH Cons.prems(2) f False show ?thesis by simp
  qed
qed simp

section \<open>A collection\<close>

lemma reads_only [keeps_intros]:
  "keeps ((=) h) (pt_ref a)" "keeps ((=) h) (obj_at p)" "keeps ((=) h) (frame_type p)" "keeps ((=) h) (get_gc_colour p)"
  by (auto simp: keeps_def pt_ref_same obj_at_def frame_type_def get_gc_colour_run split: option.split)

lemma mark_roots_reads: "keeps ((=) h) (mark_roots c threads stack)"
proof -
  have mr: "keeps ((=) h) (module_ref_at p)" for h :: "'a heap_scheme" and p
    unfolding module_ref_at_def
    by (intro keeps_intros)
  have f: "keeps ((=) h) (mark_fields c m ks s)" for h :: "'a heap_scheme" and m ks s
    by (induction ks arbitrary: s) (simp_all only: mark_fields.simps mark_pointer_maybe_def, (intro keeps_intros | assumption)+)
  have fr: "keeps ((=) h) (mark_frame c frame s)" for h :: "'a heap_scheme" and frame s
    unfolding mark_frame_def mark_pointer_fields_def prev_module_ref_def by (intro keeps_intros mr f)
  have "keeps ((=) h) (mark_frames n c frame s)" for h :: "'a heap_scheme" and n frame s
    by (induction n arbitrary: frame s) (simp_all only: mark_frames.simps prev_frame_def, (intro keeps_intros fr | assumption)+)
  note fs = this
  show ?thesis
    by (induction threads arbitrary: stack) (simp_all only: mark_roots.simps, (intro keeps_intros fs | assumption)+)
qed

lemma collect_spec:
  assumes "collect threads w = (Inr b, w')" "w_tracked w \<noteq> []"
  shows "b \<and> w_epoch w' = w_epoch w + 1 \<and> (\<exists>roots. mark_roots (get_current_colour (w_epoch w)) threads [] w = (Inr roots, w) \<and>
     w_tracked w' = filter (\<lambda>a. marked w (colour_code (get_current_colour (w_epoch w))) roots a \<or>
       colour_of w a \<noteq> Some (colour_code (get_sweeper_colour (w_epoch w)))) (w_tracked w))"
proof -
  let ?c = "get_current_colour (w_epoch w)" and ?s = "get_sweeper_colour (w_epoch w)"
  have ne: "?c \<noteq> ?s" using sweeper_is_older [of "w_epoch w" "w_epoch w"] 
  proof -
    have "w_epoch w mod 3 \<noteq> (w_epoch w + 2) mod 3" by presburger
    then show ?thesis using sweeper_is_older [of "w_epoch w" "w_epoch w"] by metis
  qed
  from assms obtain roots w1 where r: "mark_roots ?c threads [] w = (Inr roots, w1)"
    by (auto simp: collect_def mark_def eseq_def ebind_run split: prod.splits sum.splits)
  have w1: "w1 = w" using keepsD [OF mark_roots_reads refl r] by simp
  from assms r w1 obtain u w2 where m: "mark_graph ?c roots w = (Inr u, w2)"
    by (auto simp: collect_def mark_def eseq_def ebind_run split: prod.splits sum.splits)
  note col = mark_loop_colours [OF m [unfolded mark_graph_def]]
  then have "w2 = w\<lparr> h_objs := h_objs w2 \<rparr>" by (simp add: coloured_def)
  then obtain os where w2: "w2 = w\<lparr> h_objs := os \<rparr>" by blast
  from assms r w1 m obtain kept w3 where s: "sweep_list ?s (w_tracked w) w2 = (Inr kept, w3)" "b" "w' = w3\<lparr> w_tracked := kept, w_epoch := w_epoch w + 1 \<rparr>"
    by (auto simp: collect_def mark_def sweep_def eseq_def ebind_run w2 split: prod.splits sum.splits)
  have "keeps_colours (colour_of w2) w2" by (simp add: keeps_colours_def)
  from sweep_list_filter [OF s(1) this] have k: "kept = filter (\<lambda>a. colour_of w2 a \<noteq> Some (colour_code ?s)) (w_tracked w)" .
  have "colour_of w2 a \<noteq> Some (colour_code ?s) \<longleftrightarrow> marked w (colour_code ?c) roots a \<or> colour_of w a \<noteq> Some (colour_code ?s)" for a
    using coloured_colour [OF col, of a] ne by auto
  then show ?thesis using s k r w1 by simp
qed

text \<open>
  C7: A collection keeps tracked exactly the allocations that marking reached from the modules
  and frames of the threads and those whose colour is not that of the sweeper; it advances the
  epoch. Marking goes through pointer maps and stops at what already has the current colour,
  so an allocation is dropped only when it was last coloured two epochs ago.
\<close>

theorem collect_keeps_marked:
  assumes "collect threads w = (Inr b, w')" "w_tracked w \<noteq> []"
  shows "b \<and> w_epoch w' = w_epoch w + 1 \<and> (\<exists>roots. mark_roots (get_current_colour (w_epoch w)) threads [] w = (Inr roots, w) \<and>
     w_tracked w' = filter (\<lambda>a. marked w (colour_code (get_current_colour (w_epoch w))) roots a \<or>
       colour_of w a \<noteq> Some (colour_code (get_sweeper_colour (w_epoch w)))) (w_tracked w))"
  using assms by (rule collect_spec)

section \<open>A world to collect\<close>

definition pair_td :: type_desc where
  "pair_td = \<lparr> td_size = 4, td_map = [0x80], td_finalizer = None, td_tag = Created \<rparr>"

definition pair_obj :: "nat \<Rightarrow> obj" where
  "pair_obj n = \<lparr> ob_refs = n, ob_type = pair_td, ob_gc = 0, ob_data = Plain \<rparr>"

definition cyclic_world :: cpu where
  "cyclic_world = (sample_cpu [])\<lparr>
     h_mem := bytes_memory 100 (bytes32 200) ++ bytes_memory 200 (bytes32 0) ++ bytes_memory 300 (bytes32 400) ++
       bytes_memory 400 (bytes32 300),
     h_objs := [(100, pair_obj 2), (200, pair_obj 2), (300, pair_obj 2), (400, pair_obj 2)],
     w_tracked := [100, 200, 300, 400], w_epoch := 2 \<rparr>"

definition rooted :: registers where
  "rooted = sample_regs\<lparr> r_mp_base := 100, r_stack := \<lparr> stk_page_size = 64, stk_pages = [], stk_top_frame = 0 \<rparr> \<rparr>"

lemmas collect_defs = collect_def mark_def sweep_def mark_graph_def mark_fuel_def max_fields_def mark_one_def mark_pointer_fields_def
  mark_pointer_maybe_def get_gc_colour_def set_gc_colour_def obj_at_def set_obj_def colour_code_def get_current_colour_def
  get_sweeper_colour_def current_colours_def sweeper_colours_def ebind_run eseq_def pt_ref_def get32_def vt_load_def load_def
  read_bytes_def dec_ref_count_and_free_def release_def total_refs_def peek_frame_def upt_4 ptr_add_def

lemma pair_fields: "flagged_fields pair_td = [0]" "td_map pair_td \<noteq> []"
  by (code_simp, simp add: pair_td_def)

lemma loop_numeral: "mark_loop (numeral k) c stack = (case stack of [] \<Rightarrow> eret ()
     | node # rest \<Rightarrow> ebind (mark_one c node rest) (mark_loop (pred_numeral k) c))"
  "dec_ref_fuel (numeral k) p = (if p = 0 then eret () else
     ebind (release p) (\<lambda>c. when_do (c = 0) (delete_alloc (dec_ref_fuel (pred_numeral k)) p)))"
  by (simp_all add: numeral_eq_Suc)

lemma collect_cyclic: "case collect [rooted] cyclic_world of (Inl _, _) \<Rightarrow> False
   | (Inr b, w) \<Rightarrow> w_tracked w = [100, 200] \<and> map_option ob_refs (map_of (h_objs w) 300) = Some 1 \<and>
       map_option ob_refs (map_of (h_objs w) 400) = Some 1"
  by (simp add: collect_defs cyclic_world_def rooted_def sample_defs pair_obj_def pair_fields bytes32_def word32_def map_add_def loop_numeral)

theorem collect_keeps_marked_witness:
  "case collect [rooted] cyclic_world of (Inl _, _) \<Rightarrow> False | (Inr b, w) \<Rightarrow> b \<and> w_epoch w = 3 \<and> w_tracked w = [100, 200]"
proof -
  obtain r w where c: "collect [rooted] cyclic_world = (r, w)" by (rule prod.exhaust)
  with collect_cyclic obtain b where b: "r = Inr b" "w_tracked w = [100, 200]" by (cases r) auto
  with collect_keeps_marked [of "[rooted]" cyclic_world b w] c show ?thesis by (simp add: cyclic_world_def)
qed

text \<open>
  A cycle is never freed. In a world with four objects, of which two refer to each other
  and nothing else refers to them, the collection drops the two from its list and leaves each
  with the one reference the other holds: they stay in memory and no later collection sees them.
\<close>

theorem collect_leaks_cycles:
  "case collect [rooted] cyclic_world of (Inl _, _) \<Rightarrow> False
   | (Inr b, w) \<Rightarrow> w_tracked w = [100, 200] \<and> map_option ob_refs (map_of (h_objs w) 300) = Some 1 \<and>
       map_option ob_refs (map_of (h_objs w) 400) = Some 1"
  by (rule collect_cyclic)

text \<open>A thread whose module has no data makes the collection write a colour through a null pointer.\<close>

lemma collect_null_mp: "fst (collect [rooted\<lparr> r_mp_base := 0 \<rparr>] cyclic_world) = Inl (Undefined ''access to a dead object'')"
  by (simp add: collect_defs cyclic_world_def rooted_def sample_defs pair_obj_def pair_fields loop_numeral)

text \<open>
  Marking ends on every heap, cycles included: between two uncoloured objects at the top
  of the stack the collector pops at most one that is coloured already and that adds to the
  stack, so the bound of the traversal, twice the pointer fields of the heap for each of its
  objects, is never exceeded.
\<close>

theorem marking_terminates: "fst (mark_graph c stack h) \<noteq> Inl OutOfFuel"
  by (rule mark_graph_ends)

section \<open>The heap invariant\<close>

lemma heap_inv_colour [keeps_intros]: "keeps heap_inv (get_gc_colour a)" "keeps heap_inv (set_gc_colour a c)"
  unfolding get_gc_colour_def set_gc_colour_def by (intro keeps_intros)+

lemma heap_inv_mark_fields [keeps_intros]: "keeps heap_inv (mark_fields c m ks s)" "keeps heap_inv (mark_pointer_fields c td d s)"
proof -
  show f: "keeps heap_inv (mark_fields c m ks s)" for m ks s
    by (induction ks arbitrary: s) (simp_all only: mark_fields.simps mark_pointer_maybe_def, (intro keeps_intros | assumption)+)
  show "keeps heap_inv (mark_pointer_fields c td d s)" unfolding mark_pointer_fields_def by (intro keeps_intros f)
qed

lemma heap_inv_mark [keeps_intros]: "keeps heap_inv (mark c threads)"
proof -
  have fr: "keeps heap_inv (mark_frames n c frame s)" for n frame s
    by (induction n arbitrary: frame s) (simp_all only: mark_frames.simps mark_frame_def, (intro keeps_intros | assumption)+)
  have r: "keeps heap_inv (mark_roots c threads s)" for s
    by (induction threads arbitrary: s) (simp_all only: mark_roots.simps, (intro keeps_intros fr | assumption)+)
  have l: "keeps heap_inv (mark_loop n c s)" for n s
  proof (induction n arbitrary: s)
    case (Suc n)
    have "keeps heap_inv (mark_one c x rest)" for x rest unfolding mark_one_def by (intro keeps_intros)
    then show ?case by (cases s) (auto intro!: keeps_intros Suc.IH)
  qed (simp add: keeps_intros)
  have "keeps heap_inv (mark_graph c s)" for s using l unfolding keeps_def mark_graph_def by blast
  then show ?thesis unfolding mark_def by (intro keeps_intros r)
qed

lemma heap_inv_collect [keeps_intros]: "keeps heap_inv (collect threads)"
proof -
  have m: "keeps heap_inv (modify (\<lambda>w. w\<lparr> w_tracked := k \<rparr>))" "keeps heap_inv (modify (\<lambda>w. w\<lparr> w_epoch := e \<rparr>))" for k e
    by (simp_all add: keeps_def heap_inv_def)
  have s: "keeps heap_inv (sweep_list c as)" for c as
    by (induction as) (simp_all only: sweep_list.simps, (intro keeps_intros | assumption)+)
  show ?thesis unfolding collect_def sweep_def by (intro keeps_intros m s)
qed

end
