(* ===== verification/SchedulerSpec.thy ===== *)
theory SchedulerSpec
  imports Scheduler CollectorSpec
begin

text \<open>
  The scheduler with any number of workers, as a transition system over the queues of the world
  and what each worker is doing. A step is one critical section of \<^verbatim>\<open>scheduler.cpp\<close>, or what
  the VM threads do between two of them, which leaves the queues alone.
\<close>

section \<open>Workers\<close>

datatype worker = Seeking | Executing nat | AwaitEvent | AwaitGc | Halted | Failed nat

record pool =
  pl_count :: nat
  pl_workers :: "nat \<Rightarrow> worker"
  pl_gc_complete :: bool

definition worker_of :: "pick \<Rightarrow> worker" where
  "worker_of p = (case p of Picked t \<Rightarrow> Executing t | StopWorker \<Rightarrow> Halted | WaitEvent \<Rightarrow> AwaitEvent | WaitGc \<Rightarrow> AwaitGc)"

definition becomes :: "nat \<Rightarrow> worker \<Rightarrow> pool \<Rightarrow> pool" where
  "becomes i x P = P\<lparr> pl_workers := (pl_workers P)(i := x) \<rparr>"

definition after_begin :: "'z world_scheme \<Rightarrow> nat \<Rightarrow> pick \<Rightarrow> pool \<Rightarrow> pool" where
  "after_begin w i p P = (becomes i (worker_of p) P)\<lparr> pl_gc_complete :=
     (if p = WaitGc then False else if gc_due w then True else pl_gc_complete P) \<rparr>"

definition queues :: "'z world_scheme \<Rightarrow> nat list \<times> nat list \<times> nat list \<times> nat \<times> nat \<times> bool" where
  "queues w = (map fst (w_threads w), w_runnable w, w_blocked w, w_running w, w_gc_counter w, w_terminating w)"

inductive sched_step :: "'z world_scheme \<times> pool \<Rightarrow> nat list \<Rightarrow> 'z world_scheme \<times> pool \<Rightarrow> bool" where
  schedule: "scheduler_add r w = (Inr (), w') \<Longrightarrow> sched_step (w, P) [] (w', P)"
| unblock: "enqueue_blocked_thread t w = (Inr (), w') \<Longrightarrow> sched_step (w, P) [] (w', P)"
| compute: "queues w' = queues w \<Longrightarrow> sched_step (w, P) [] (w', P)"
| seek: "i < pl_count P \<Longrightarrow> pl_workers P i = Seeking \<Longrightarrow> begin_pick w = (Inr p, w') \<Longrightarrow>
    sched_step (w, P) (case p of Picked t \<Rightarrow> [t] | _ \<Rightarrow> []) (w', after_begin w i p P)"
| wake: "i < pl_count P \<Longrightarrow> pl_workers P i = AwaitEvent \<Longrightarrow> \<not> w_terminating w \<Longrightarrow> begin_pick w = (Inr p, w') \<Longrightarrow>
    sched_step (w, P) (case p of Picked t \<Rightarrow> [t] | _ \<Rightarrow> []) (w', after_begin w i p P)"
| halt: "i < pl_count P \<Longrightarrow> pl_workers P i = AwaitEvent \<Longrightarrow> w_terminating w \<Longrightarrow> sched_step (w, P) [] (w, becomes i Halted P)"
| collected: "i < pl_count P \<Longrightarrow> pl_workers P i = AwaitGc \<Longrightarrow> pl_gc_complete P \<Longrightarrow> take_runnable w = (Inr p, w') \<Longrightarrow>
    sched_step (w, P) (case p of Picked t \<Rightarrow> [t] | _ \<Rightarrow> []) (w', becomes i (worker_of p) P)"
| release: "i < pl_count P \<Longrightarrow> pl_workers P i = Executing t \<Longrightarrow> release_thread t st err w = (Inr b, w') \<Longrightarrow>
    sched_step (w, P) [] (w', becomes i Seeking P)"
| broken: "i < pl_count P \<Longrightarrow> pl_workers P i = Executing t \<Longrightarrow> release_thread t Broken (Some msg) w = (Inl e, w') \<Longrightarrow>
    sched_step (w, P) [] (w'\<lparr> w_terminating := True \<rparr>, becomes i Halted P)"
| fail: "i < pl_count P \<Longrightarrow> pl_workers P i = Executing t \<Longrightarrow>
    sched_step (w, P) [] (w\<lparr> w_terminating := True \<rparr>, becomes i (Failed t) P)"

inductive sched_run :: "'z world_scheme \<times> pool \<Rightarrow> nat list \<Rightarrow> 'z world_scheme \<times> pool \<Rightarrow> bool" for s where
  start: "sched_run s [] s"
| step: "sched_run s ps s' \<Longrightarrow> sched_step s' qs s'' \<Longrightarrow> sched_run s (ps @ qs) s''"

section \<open>Picks come in the order of the queue\<close>

lemma queues_more: "heap.more w = heap.more w' \<Longrightarrow> queues w = queues w'"
  by (cases w; cases w') (simp add: queues_def)

lemma more_memory [keeps_intros]:
  "keeps (\<lambda>h. heap.more h = m) (load n a)" "keeps (\<lambda>h. heap.more h = m) (store a bs)" "keeps (\<lambda>h. heap.more h = m) (free_block a n)"
  "keeps (\<lambda>h. heap.more h = m) (obj_at p)" "keeps (\<lambda>h. heap.more h = m) (finalize td p)" "keeps (\<lambda>h. heap.more h = m) (host_do act)" "keeps (\<lambda>h. heap.more h = m) (pt_ref a)"
  "keeps (\<lambda>h. heap.more h = m) (set_obj p ob)" "keeps (\<lambda>h. heap.more h = m) (discard_obj p)"
  by (auto simp: keeps_def load_def store_def free_block_def obj_at_def finalize_def host_do_def pt_ref_same set_obj_def discard_obj_def split: option.split)

lemma more_delete:
  assumes "\<And>p. keeps (\<lambda>h. heap.more h = m) (dec p)"
  shows "keeps (\<lambda>h. heap.more h = m) (delete_alloc dec p)"
proof -
  have e: "keeps (\<lambda>h. heap.more h = m) (destroy_fields dec td d)" for td d
    unfolding destroy_fields_def dec_fields_def enum_pointer_fields_def assign_debug_memory_def by (intro keeps_intros assms)
  have "keeps (\<lambda>h. heap.more h = m) (destroy_payload dec pl)" for pl
    unfolding destroy_payload_def destroy_array_def destroy_list_def destroy_fd_def
    by (cases pl) (simp_all, (intro keeps_intros assms e)+)
  then show ?thesis unfolding delete_alloc_def by (intro keeps_intros e)
qed

lemma more_release [keeps_intros]: "keeps (\<lambda>h. heap.more h = m) (release p)" "keeps (\<lambda>h. heap.more h = m) (add_ref p)"
  unfolding release_def add_ref_def by (intro keeps_intros)+

lemma more_dec [keeps_intros]: "keeps (\<lambda>h. heap.more h = m) (dec_ref_count_and_free p)"
proof -
  have "keeps (\<lambda>h. heap.more h = m) (dec_ref_fuel n p)" for n
    by (induction n arbitrary: p) (simp_all only: dec_ref_fuel.simps, (intro keeps_intros more_delete | assumption)+)
  then show ?thesis unfolding keeps_def dec_ref_count_and_free_def by blast
qed

lemma collect_queues:
  assumes "collect threads w = (Inr b, w')"
  shows "queues w' = queues w"
proof (cases "w_tracked w = []")
  case False
  let ?c = "get_current_colour (w_epoch w)" and ?s = "get_sweeper_colour (w_epoch w)"
  from assms False obtain roots w1 u w2 kept w3 where r: "mark_roots ?c threads [] w = (Inr roots, w1)" "mark_graph ?c roots w1 = (Inr u, w2)"
      "sweep_list ?s (w_tracked w2) w2 = (Inr kept, w3)" "w' = w3\<lparr> w_tracked := kept, w_epoch := w_epoch w + 1 \<rparr>"
    by (auto simp: collect_def mark_def sweep_def eseq_def ebind_run split: prod.splits sum.splits)
  have "w1 = w" using keepsD [OF mark_roots_reads refl r(1)] by simp
  moreover have "heap.more w2 = heap.more w1"
    using mark_loop_colours [OF r(2) [unfolded mark_graph_def]] unfolding coloured_def by (metis heap.update_convs(3) heap.surjective heap.select_convs(7))
  moreover have k: "keeps (\<lambda>h. heap.more h = heap.more w2) (sweep_list ?s as)" for as
    by (induction as) (simp_all only: sweep_list.simps get_gc_colour_def, (intro keeps_intros | assumption)+)
  have "heap.more w3 = heap.more w2" by (rule keepsD [OF k [of "w_tracked w2"] refl r(3)])
  ultimately have "queues w3 = queues w" by (intro queues_more) simp
  then show ?thesis by (simp add: r(4) queues_def)
qed (use assms in \<open>simp add: collect_def\<close>)

lemma take_runnable_cases:
  assumes "take_runnable w = (Inr p, w')"
  obtains (picked) t rest where "p = Picked t" "w_runnable w = t # rest" "t \<in> fst ` set (w_threads w)"
      "queues w' = (map fst (w_threads w), rest, w_blocked w, (w_running w + 1) mod counter_limit,
         (w_gc_counter w + 1) mod counter_limit, w_terminating w)"
    | (none) "w_runnable w = []" "p = (if w_terminating w then StopWorker else WaitEvent)" "w' = w"
proof (cases "w_runnable w")
  case Nil
  with assms have "p = (if w_terminating w then StopWorker else WaitEvent)" "w' = w"
    by (simp_all add: take_runnable_def ebind_run eseq_def vm_assert_def check_def split: if_splits)
  with Nil none show ?thesis by blast
next
  case (Cons t rest)
  show ?thesis
  proof (cases "t \<in> fst ` set (w_threads w)")
    case True
    with assms Cons have "p = Picked t" "w' = w\<lparr> w_runnable := rest, w_running := (w_running w + 1) mod counter_limit,
        w_gc_counter := (w_gc_counter w + 1) mod counter_limit \<rparr>"
      by (simp_all add: take_runnable_def ebind_run eseq_def)
    with picked Cons True show ?thesis by (simp add: queues_def)
  next
    case False
    with assms Cons show ?thesis by (simp add: take_runnable_def ebind_run eseq_def)
  qed
qed

lemma begin_pick_cases:
  assumes "begin_pick w = (Inr p, w')"
  obtains (gc) "gc_due w" "w_running w \<noteq> 0" "p = WaitGc" "w' = w"
    | (take) w1 where "queues w1 = queues w" "take_runnable w1 = (Inr p, w')" "gc_due w \<Longrightarrow> w_running w = 0"
proof (cases "gc_due w \<and> w_running w \<noteq> 0")
  case True
  with assms have "p = WaitGc" "w' = w" by (simp_all add: begin_pick_def ebind_run)
  with True show ?thesis by (intro gc) simp_all
next
  case False
  show ?thesis
  proof (cases "gc_due w")
    case True
    let ?threads = "filter (\<lambda>r. r_state r \<noteq> Broken) (map snd (w_threads w))"
    obtain x w1 where c: "collect ?threads w = (x, w1)" by (rule prod.exhaust)
    from True False have "begin_pick w = eseq (ebind perform_gc (\<lambda>_. eret ())) take_runnable w" by (simp add: begin_pick_def)
    with assms obtain b where p: "x = Inr b" "take_runnable w1 = (Inr p, w')"
      using c by (cases x) (simp_all add: perform_gc_def eseq_def ebind_run)
    from c p(1) have "collect ?threads w = (Inr b, w1)" by simp
    from collect_queues [OF this] p(2) show ?thesis by (rule take) (use False True in simp)
  next
    case no: False
    then have "begin_pick w = take_runnable w" by (simp add: begin_pick_def)
    with assms have "take_runnable w = (Inr p, w')" by simp
    with refl show ?thesis by (rule take) (use no in simp)
  qed
qed

lemma sched_step_fifo:
  assumes "sched_step s qs s'"
  shows "\<exists>new. qs @ w_runnable (fst s') = w_runnable (fst s) @ new"
  using assms
proof cases
  case (release i P t st err w b w')
  then show ?thesis
    by (auto simp: release_thread_def enqueue_thread_unsafe_def ebind_run eseq_def vm_assert_def check_def
        split: if_splits option.splits)
next
  case (broken i P t msg w e w')
  then show ?thesis
    by (auto simp: release_thread_def enqueue_thread_unsafe_def ebind_run eseq_def split: if_splits)
next
  case (schedule r w w' P)
  then show ?thesis by (auto simp: scheduler_add_def ebind_run eseq_def vm_assert_def check_def split: if_splits)
next
  case (unblock t w w' P)
  then show ?thesis by (auto simp: enqueue_blocked_thread_def ebind_run eseq_def vm_assert_def check_def split: if_splits)
next
  case (compute w' w P)
  then show ?thesis by (simp add: queues_def)
next
  case (seek i P w p w')
  from seek(6) show ?thesis
  proof (cases rule: begin_pick_cases)
    case (take w1)
    from take(2) show ?thesis
      by (cases rule: take_runnable_cases) (use seek take(1) in \<open>auto simp: queues_def\<close>)
  qed (use seek in simp)
next
  case (wake i P w p w')
  from wake(7) show ?thesis
  proof (cases rule: begin_pick_cases)
    case (take w1)
    from take(2) show ?thesis
      by (cases rule: take_runnable_cases) (use wake take(1) in \<open>auto simp: queues_def\<close>)
  qed (use wake in simp)
next
  case (collected i P w p w')
  from collected(7) show ?thesis
    by (cases rule: take_runnable_cases) (use collected in \<open>auto simp: queues_def\<close>)
qed simp_all

lemma sched_run_fifo: "sched_run s ps s' \<Longrightarrow> \<exists>new. ps @ w_runnable (fst s') = w_runnable (fst s) @ new"
proof (induction rule: sched_run.induct)
  case (step ps s' qs s'')
  from step.IH obtain new where n: "ps @ w_runnable (fst s') = w_runnable (fst s) @ new" by blast
  from sched_step_fifo [OF step.hyps(2)] obtain new' where "qs @ w_runnable (fst s'') = w_runnable (fst s') @ new'" by blast
  with n show ?case by (metis append.assoc)
qed simp

section \<open>Every thread is in one place\<close>

definition held :: "worker \<Rightarrow> nat option" where
  "held x = (case x of Executing t \<Rightarrow> Some t | Failed t \<Rightarrow> Some t | _ \<Rightarrow> None)"

definition holds :: "pool \<Rightarrow> nat \<Rightarrow> nat option" where
  "holds P i = (if i < pl_count P then held (pl_workers P i) else None)"

definition placed :: "nat \<Rightarrow> (nat \<Rightarrow> nat option) \<Rightarrow> nat list \<times> nat list \<times> nat list \<times> nat \<times> nat \<times> bool \<Rightarrow> bool" where
  "placed N H q \<longleftrightarrow> (case q of (ids, runnable, blocked, running, counter, terminating) \<Rightarrow>
     distinct ids \<and> distinct (runnable @ blocked) \<and> set (runnable @ blocked) \<subseteq> set ids \<and>
     ran H \<subseteq> set ids - set (runnable @ blocked) \<and> inj_on H (dom H) \<and> dom H \<subseteq> {..<N} \<and> N < counter_limit \<and>
     running = card (dom H) \<and> (terminating \<or> set ids = set (runnable @ blocked) \<union> ran H))"

definition sched_inv :: "'z world_scheme \<times> pool \<Rightarrow> bool" where
  "sched_inv s \<longleftrightarrow> placed (pl_count (snd s)) (holds (snd s)) (queues (fst s))"

lemma holds_becomes: "i < pl_count P \<Longrightarrow> holds (becomes i x P) = (holds P)(i := held x)"
  "pl_count (becomes i x P) = pl_count P"
  "holds (P\<lparr> pl_gc_complete := b \<rparr>) = holds P"
  by (auto simp: holds_def becomes_def fun_eq_iff)

lemma holds_idle: "i < pl_count P \<Longrightarrow> held (pl_workers P i) = None \<Longrightarrow> (holds P)(i := None) = holds P"
  by (auto simp: holds_def fun_eq_iff)

lemma card_dom_bound: "dom H \<subseteq> {..<N} \<Longrightarrow> card (dom H) \<le> N" "dom H \<subseteq> {..<N} \<Longrightarrow> finite (dom H)"
  by (metis card_lessThan card_mono finite_lessThan, meson finite_lessThan finite_subset)

lemma placed_pick:
  assumes "placed N H (ids, t # rest, blocked, running, counter, terminating)" "i < N" "H i = None"
  shows "placed N (H(i \<mapsto> t)) (ids, rest, blocked, (running + 1) mod counter_limit, counter', terminating)"
proof -
  from assms(1) have d: "dom H \<subseteq> {..<N}" and n: "N < counter_limit" and r: "running = card (dom H)" and t: "t \<notin> ran H"
      and i: "inj_on H (dom H)"
    by (auto simp: placed_def)
  have "card (dom (H(i \<mapsto> t))) = Suc (card (dom H))"
    using assms(3) card_dom_bound(2) [OF d] by (simp add: domIff)
  moreover have "card (dom (H(i \<mapsto> t))) \<le> N" using d assms(2) by (intro card_dom_bound) auto
  ultimately have c: "(running + 1) mod counter_limit = card (dom (H(i \<mapsto> t)))" using n r by simp
  have "inj_on (H(i \<mapsto> t)) (dom (H(i \<mapsto> t)))"
    using i t by (auto simp: inj_on_def ran_def dom_def split: if_splits)
  with assms c show ?thesis unfolding placed_def by (auto simp: ran_map_upd)
qed

lemma ran_release: "inj_on H (dom H) \<Longrightarrow> H i = Some t \<Longrightarrow> ran (H(i := None)) = ran H - {t}"
  by (auto simp: ran_def inj_on_def dom_def split: if_splits) (metis option.inject)+

lemma placed_release:
  assumes p: "placed N H (ids, runnable, blocked, running, counter, terminating)" and t: "H i = Some t"
  shows "dom (H(i := None)) \<subseteq> {..<N}" "inj_on (H(i := None)) (dom (H(i := None)))"
    "(running + counter_limit - 1) mod counter_limit = card (dom (H(i := None)))"
    "ran (H(i := None)) = ran H - {t}" "t \<in> ran H"
proof -
  from p have d: "dom H \<subseteq> {..<N}" and n: "N < counter_limit" and r: "running = card (dom H)" and i: "inj_on H (dom H)"
    by (auto simp: placed_def)
  show "dom (H(i := None)) \<subseteq> {..<N}" using d by auto
  show "inj_on (H(i := None)) (dom (H(i := None)))" using i by (auto simp: inj_on_def dom_def split: if_splits)
  show "ran (H(i := None)) = ran H - {t}" using i t by (rule ran_release)
  show "t \<in> ran H" using t by (rule ranI)
  have "0 < card (dom H)" using t card_dom_bound(2) [OF d] by (auto simp: card_gt_0_iff)
  moreover have "card (dom H) < counter_limit" using card_dom_bound(1) [OF d] n by simp
  moreover have "card (dom (H(i := None))) = card (dom H) - 1" using t card_dom_bound(2) [OF d] by (simp add: domIff)
  ultimately show "(running + counter_limit - 1) mod counter_limit = card (dom (H(i := None)))"
    using r by (simp add: mod_if)
qed

lemma sched_inv_begin:
  assumes inv: "sched_inv (w, P)" and i: "i < pl_count P" "held (pl_workers P i) = None"
    and p: "queues w1 = queues w" "take_runnable w1 = (Inr p, w')"
  shows "sched_inv (w', becomes i (worker_of p) P)"
  using p(2)
proof (cases rule: take_runnable_cases)
  case (picked t rest)
  have "holds P i = None" using i by (simp add: holds_def)
  with inv i(1) p(1) picked show ?thesis
    using placed_pick [of "pl_count P" "holds P" _ t rest _ _ _ _ i]
    by (simp add: sched_inv_def holds_becomes worker_of_def held_def queues_def)
next
  case none
  with inv i p(1) show ?thesis
    by (auto simp: sched_inv_def holds_becomes holds_idle worker_of_def held_def)
qed

lemma placed_moves:
  assumes p: "placed N H (ids, runnable, blocked, running, counter, terminating)" and t: "H i = Some t"
  shows "placed N (H(i := None)) (ids, runnable @ [t], blocked, (running + counter_limit - 1) mod counter_limit, counter, terminating)"
    "placed N (H(i := None)) (ids, runnable, List.insert t blocked, (running + counter_limit - 1) mod counter_limit, counter, terminating)"
    "placed N (H(i := None)) (filter (\<lambda>x. x \<noteq> t) ids, runnable, blocked, (running + counter_limit - 1) mod counter_limit, counter, terminating)"
    "placed N (H(i := None)) (ids, runnable, blocked, (running + counter_limit - 1) mod counter_limit, counter, True)"
proof -
  note rel = placed_release [OF p t]
  have q: "distinct ids" "distinct (runnable @ blocked)" "set (runnable @ blocked) \<subseteq> set ids" "ran H \<subseteq> set ids - set (runnable @ blocked)"
      "N < counter_limit" "terminating \<or> set ids = set (runnable @ blocked) \<union> ran H"
    using p by (auto simp: placed_def)
  show "placed N (H(i := None)) (ids, runnable @ [t], blocked, (running + counter_limit - 1) mod counter_limit, counter, terminating)"
    using q rel unfolding placed_def by auto
  show "placed N (H(i := None)) (ids, runnable, List.insert t blocked, (running + counter_limit - 1) mod counter_limit, counter, terminating)"
    using q rel unfolding placed_def by auto
  show "placed N (H(i := None)) (filter (\<lambda>x. x \<noteq> t) ids, runnable, blocked, (running + counter_limit - 1) mod counter_limit, counter, terminating)"
    using q rel unfolding placed_def by auto
  show "placed N (H(i := None)) (ids, runnable, blocked, (running + counter_limit - 1) mod counter_limit, counter, True)"
    using q rel unfolding placed_def by auto
qed

lemma placed_queue:
  assumes p: "placed N H (ids, runnable, blocked, running, counter, terminating)"
  shows "t \<notin> set ids \<Longrightarrow> placed N H (t # ids, runnable @ [t], blocked, running, counter, terminating)"
    "t \<in> set blocked \<Longrightarrow> placed N H (ids, runnable @ [t], remove1 t blocked, running, counter, terminating)"
  using p unfolding placed_def by auto

lemma enqueue_cases:
  assumes "enqueue_thread_unsafe t st err w = (Inr b, w')"
  obtains (run) "w' = w\<lparr> w_runnable := w_runnable w @ [t] \<rparr>"
    | (block) "w' = w\<lparr> w_blocked := List.insert t (w_blocked w) \<rparr>"
    | (exit) "w' = w\<lparr> w_threads := AList.delete t (w_threads w) \<rparr>"
proof -
  consider "st = Ready \<or> st = DebugState" | "st = BlockedInAlt \<or> st = BlockedSending \<or> st = BlockedReceiving"
    | "st = EmptyStack \<or> st = Exiting" | "st = Broken" | "st = UnknownState \<or> st = Running \<or> st = Release" by (cases st) auto
  then show ?thesis
  proof cases
    case 1
    with assms have "w' = w\<lparr> w_runnable := w_runnable w @ [t] \<rparr>" by (auto simp: enqueue_thread_unsafe_def)
    then show ?thesis by (rule run)
  next
    case 2
    with assms have "w' = w\<lparr> w_blocked := List.insert t (w_blocked w) \<rparr>" by (auto simp: enqueue_thread_unsafe_def)
    then show ?thesis by (rule block)
  next
    case 3
    with assms have "w' = w\<lparr> w_threads := AList.delete t (w_threads w) \<rparr>"
      by (auto simp: enqueue_thread_unsafe_def vm_assert_def check_def eseq_def ebind_run split: if_splits)
    then show ?thesis by (rule exit)
  next
    case 4
    with assms show ?thesis by (cases err) (auto simp: enqueue_thread_unsafe_def)
  next
    case 5
    with assms show ?thesis by (auto simp: enqueue_thread_unsafe_def)
  qed
qed

lemma map_fst_delete: "map fst (AList.delete t xs) = filter (\<lambda>x. x \<noteq> t) (map fst xs)"
  by (induction xs) auto

lemma sched_inv_release:
  assumes inv: "sched_inv (w, P)" and i: "i < pl_count P" "pl_workers P i = Executing t"
    and r: "release_thread t st err w = (Inr b, w')"
  shows "sched_inv (w', becomes i Seeking P)"
proof -
  let ?H = "holds P"
  have h: "?H i = Some t" using i by (simp add: holds_def held_def)
  have H': "holds (becomes i Seeking P) = ?H(i := None)" using i(1) by (simp add: holds_becomes held_def)
  from inv have p: "placed (pl_count P) ?H (queues w)" by (simp add: sched_inv_def)
  note moves = placed_moves [OF p [unfolded queues_def] h]
  from r have "enqueue_thread_unsafe t st err (w\<lparr> w_running := (w_running w + counter_limit - 1) mod counter_limit \<rparr>) = (Inr b, w')"
    by (simp add: release_thread_def)
  then have "placed (pl_count P) (?H(i := None)) (queues w')"
    by (cases rule: enqueue_cases) (simp_all add: queues_def moves [unfolded One_nat_def] map_fst_delete)
  then show ?thesis by (simp add: sched_inv_def H' holds_becomes)
qed

lemma sched_inv_step:
  assumes "sched_step s qs s'" "sched_inv s"
  shows "sched_inv s'"
  using assms
proof (induction rule: sched_step.induct)
  case (schedule r w w' P)
  then have "r_thread_id r \<notin> set (map fst (w_threads w))"
      "w' = w\<lparr> w_threads := (r_thread_id r, r) # w_threads w, w_runnable := w_runnable w @ [r_thread_id r] \<rparr>"
    by (auto simp: scheduler_add_def ebind_run eseq_def vm_assert_def check_def split: if_splits)
  with schedule(2) show ?case by (simp add: sched_inv_def queues_def placed_queue)
next
  case (unblock t w w' P)
  then have "t \<in> set (w_blocked w)" "w' = w\<lparr> w_blocked := remove1 t (w_blocked w), w_runnable := w_runnable w @ [t] \<rparr>"
    by (auto simp: enqueue_blocked_thread_def ebind_run eseq_def vm_assert_def check_def split: if_splits)
  with unblock(2) show ?case by (simp add: sched_inv_def queues_def placed_queue)
next
  case (seek i P w p w')
  from seek(3) show ?case
  proof (cases rule: begin_pick_cases)
    case gc
    with seek show ?thesis by (simp add: after_begin_def sched_inv_def holds_becomes worker_of_def held_def holds_idle)
  next
    case (take w1)
    from sched_inv_begin [OF seek(4,1) _ take(1,2)] seek(2) show ?thesis
      by (simp add: after_begin_def sched_inv_def holds_becomes held_def)
  qed
next
  case (wake i P w p w')
  from wake(4) show ?case
  proof (cases rule: begin_pick_cases)
    case gc
    with wake show ?thesis by (simp add: after_begin_def sched_inv_def holds_becomes worker_of_def held_def holds_idle)
  next
    case (take w1)
    from sched_inv_begin [OF wake(5,1) _ take(1,2)] wake(2) show ?thesis
      by (simp add: after_begin_def sched_inv_def holds_becomes held_def)
  qed
next
  case (collected i P w p w')
  from sched_inv_begin [OF collected(5,1) _ refl collected(4)] collected(2) show ?case by (simp add: held_def)
next
  case (release i P t st err w b w')
  then show ?case by (intro sched_inv_release)
next
  case (broken i P t msg w e w')
  then have h: "holds P i = Some t" by (simp add: holds_def held_def)
  from broken(4) have p: "placed (pl_count P) (holds P) (queues w)" by (simp add: sched_inv_def)
  note moves = placed_moves [OF p [unfolded queues_def] h]
  from broken(3) have "w' = w\<lparr> w_running := (w_running w + counter_limit - 1) mod counter_limit \<rparr>"
    by (simp add: release_thread_def enqueue_thread_unsafe_def ebind_run eseq_def)
  with broken moves show ?case by (simp add: sched_inv_def queues_def holds_becomes held_def)
next
  case (fail i P t w)
  then have "(holds P)(i := held (Failed t)) = holds P" by (auto simp: holds_def held_def fun_eq_iff)
  with fail show ?case by (auto simp: sched_inv_def holds_becomes placed_def queues_def)
next
  case (halt i P w)
  then show ?case by (simp add: sched_inv_def holds_becomes held_def holds_idle)
qed (simp add: sched_inv_def)

lemma sched_inv_run: "sched_run s ps s' \<Longrightarrow> sched_inv s \<Longrightarrow> sched_inv s'"
  by (induction rule: sched_run.induct) (auto intro: sched_inv_step)

definition idle_pool :: "nat \<Rightarrow> pool" where
  "idle_pool n = \<lparr> pl_count = n, pl_workers = (\<lambda>i. Seeking), pl_gc_complete = True \<rparr>"

lemma sched_inv_create:
  assumes "create_scheduler n quanta w0 = (Inr (), w)" "n < counter_limit"
  shows "sched_inv (w, idle_pool n)"
proof -
  have "holds (idle_pool n) = (\<lambda>i. None)" by (simp add: holds_def idle_pool_def held_def fun_eq_iff)
  with assms show ?thesis
    by (auto simp: create_scheduler_def eseq_def ebind_run check_def sched_inv_def placed_def queues_def idle_pool_def split: if_splits)
qed

text \<open>
  C3: Every thread the scheduler knows is in one place. However the steps of the workers
  interleave, the ids are distinct, a thread is in the runnable queue or blocked or held by one
  worker and never in two of these, no two workers execute the same thread, the count of running
  threads is the number of workers that hold one and does not wrap around, and until the
  scheduler terminates no thread it knows is lost.
\<close>

theorem threads_in_one_place:
  assumes "create_scheduler n quanta w0 = (Inr (), w)" "n < counter_limit" "sched_run (w, idle_pool n) ps s'"
  shows "sched_inv s'"
  using sched_inv_run [OF assms(3) sched_inv_create [OF assms(1,2)]] .

definition start_cpu :: cpu where
  "start_cpu = (sample_cpu [])\<lparr> w_gc_counter := 1, w_running := 0 \<rparr>"

definition picked_cpu :: cpu where
  "picked_cpu = start_cpu\<lparr> w_threads := [(1, sample_regs)], w_running := 1, w_gc_counter := 2 \<rparr>"

lemma start_run: "sched_run (start_cpu, idle_pool 2) [1] (picked_cpu, after_begin start_cpu 0 (Picked 1) (idle_pool 2))"
proof -
  let ?w = "start_cpu\<lparr> w_threads := [(1, sample_regs)], w_runnable := [1] \<rparr>"
  have a: "scheduler_add sample_regs start_cpu = (Inr (), ?w)"
    by (simp add: scheduler_add_def eseq_def ebind_run start_cpu_def sample_cpu_def sample_regs_def)
  have b: "begin_pick ?w = (Inr (Picked 1), picked_cpu)"
    by (simp add: begin_pick_def take_runnable_def gc_due_def eseq_def ebind_run start_cpu_def picked_cpu_def sample_cpu_def counter_limit_def)
  have "sched_run (start_cpu, idle_pool 2) ([] @ []) (?w, idle_pool 2)"
    by (rule sched_run.step [OF sched_run.start sched_step.schedule [OF a]])
  from sched_run.step [OF this sched_step.seek [OF _ _ b, of 0]]
  show ?thesis by (simp add: idle_pool_def after_begin_def becomes_def gc_due_def start_cpu_def)
qed

lemma create_start: "create_scheduler 2 2048 (sample_cpu []) = (Inr (), start_cpu)"
  by (simp add: create_scheduler_def eseq_def ebind_run start_cpu_def sample_cpu_def)

theorem threads_in_one_place_witness:
  "sched_inv (picked_cpu, after_begin start_cpu 0 (Picked 1) (idle_pool 2)) \<and> holds (after_begin start_cpu 0 (Picked 1) (idle_pool 2)) 0 = Some 1"
  using threads_in_one_place [OF create_start _ start_run]
  by (simp add: counter_limit_def holds_def after_begin_def becomes_def idle_pool_def worker_of_def held_def)

text \<open>
  C36: The scheduler is fair. Whatever the workers do, the threads they have picked, followed
  by the threads that are still in the runnable queue, are the queue they started with followed
  by the threads that became runnable since: the thread at position \<^verbatim>\<open>k\<close> is the one picked
  after \<^verbatim>\<open>k\<close> others, and no thread that becomes runnable later overtakes it.
\<close>

theorem picks_in_queue_order:
  assumes "sched_run s ps s'"
  shows "\<exists>new. ps @ w_runnable (fst s') = w_runnable (fst s) @ new"
  using assms by (rule sched_run_fifo)

theorem picks_in_queue_order_witness: "\<exists>new. [1] @ w_runnable picked_cpu = w_runnable start_cpu @ new"
  using picks_in_queue_order [OF start_run] by simp

section \<open>Collections\<close>

lemma collects_alone:
  assumes "sched_inv (w, P)" "begin_pick w = (Inr p, w')" "gc_due w" "p \<noteq> WaitGc"
  shows "holds P i = None"
  using assms(2)
proof (cases rule: begin_pick_cases)
  case (take w1)
  with assms(1,3) have "card (dom (holds P)) = 0" "finite (dom (holds P))"
    using card_dom_bound(2) by (auto simp: sched_inv_def placed_def queues_def)
  then show ?thesis by (simp add: domIff)
qed (use assms in simp)

text \<open>
  C37: A collection runs alone: a worker that passes the point where a collection is due without
  waiting for one has performed it while no worker held a thread.
\<close>

theorem collection_stops_the_world:
  assumes "sched_inv (w, P)" "begin_pick w = (Inr p, w')" "gc_due w" "p \<noteq> WaitGc"
  shows "holds P i = None"
  using assms by (rule collects_alone)

theorem collection_stops_the_world_witness: "holds (idle_pool 2) 0 = None"
proof -
  let ?w = "start_cpu\<lparr> w_gc_counter := 256 \<rparr>"
  have "sched_inv (start_cpu, idle_pool 2)" by (rule sched_inv_create [OF create_start]) (simp add: counter_limit_def)
  then have "sched_inv (?w, idle_pool 2)" by (simp add: sched_inv_def queues_def placed_def)
  moreover have "begin_pick ?w = (Inr WaitEvent, ?w)"
    by (simp add: begin_pick_def gc_due_def perform_gc_def collect_def take_runnable_def eseq_def ebind_run start_cpu_def sample_cpu_def)
  ultimately show ?thesis by (rule collection_stops_the_world) (simp_all add: gc_due_def)
qed

section \<open>A shutdown that hangs\<close>

definition stuck :: "nat \<Rightarrow> 'z world_scheme \<times> pool \<Rightarrow> bool" where
  "stuck i s \<longleftrightarrow> pl_workers (snd s) i = AwaitGc \<and> \<not> pl_gc_complete (snd s) \<and>
     (\<forall>j<pl_count (snd s). j \<noteq> i \<longrightarrow> pl_workers (snd s) j = Halted)"

lemma stuck_step: "sched_step s qs s' \<Longrightarrow> stuck i s \<Longrightarrow> stuck i s'"
  by (induction rule: sched_step.induct) (auto simp: stuck_def)

lemma stuck_run: "sched_run s ps s' \<Longrightarrow> stuck i s \<Longrightarrow> stuck i s'"
  by (induction rule: sched_run.induct) (auto intro: stuck_step)

text \<open>
  A worker can wait for ever at shutdown. When a collection is due and one worker waits for
  the other, which still executes a thread, and that thread breaks, then the other worker stops
  and wakes those that wait for threads, but nobody performs the collection: in every
  continuation the first worker still waits for it, although the scheduler is terminating.
\<close>

theorem shutdown_hangs:
  assumes "pl_count P = 2" "pl_workers P 0 = Seeking" "pl_workers P 1 = Executing t" "gc_due w" "w_running w = 1"
  shows "\<exists>s. sched_run (w, P) [] s \<and> w_terminating (fst s) \<and> (\<forall>ps s'. sched_run s ps s' \<longrightarrow> pl_workers (snd s') 0 = AwaitGc)"
proof -
  let ?P1 = "after_begin w 0 WaitGc P"
  let ?w2 = "w\<lparr> w_running := (w_running w + counter_limit - 1) mod counter_limit \<rparr>"
  let ?s = "(?w2\<lparr> w_terminating := True \<rparr>, becomes 1 Halted ?P1)"
  have "begin_pick w = (Inr WaitGc, w)" using assms by (simp add: begin_pick_def ebind_run)
  from sched_step.seek [OF _ assms(2) this] have "sched_step (w, P) [] (w, ?P1)" using assms by simp
  from sched_run.step [OF sched_run.start this] have r: "sched_run (w, P) [] (w, ?P1)" by simp
  have "release_thread t Broken (Some []) w = (Inl (TermRequest []), ?w2)"
    by (simp add: release_thread_def enqueue_thread_unsafe_def)
  from sched_step.broken [OF _ _ this, of 1 ?P1] have "sched_step (w, ?P1) [] ?s"
    using assms by (simp add: after_begin_def becomes_def)
  from sched_run.step [OF r this] have "sched_run (w, P) [] ?s" by simp
  moreover have st: "stuck 0 ?s"
    using assms(1) by (auto simp: stuck_def after_begin_def becomes_def worker_of_def less_2_cases_iff)
  have "pl_workers (snd s') 0 = AwaitGc" if "sched_run ?s ps s'" for ps s'
    using stuck_run [OF that st] by (simp add: stuck_def)
  ultimately show ?thesis by (intro exI [of _ ?s]) simp
qed

theorem shutdown_hangs_witness:
  "let P = becomes 1 (Executing 1) (idle_pool 2); w = picked_cpu\<lparr> w_gc_counter := 256 \<rparr> in
     \<exists>s. sched_run (w, P) [] s \<and> w_terminating (fst s) \<and> (\<forall>ps s'. sched_run s ps s' \<longrightarrow> pl_workers (snd s') 0 = AwaitGc)"
  unfolding Let_def
  by (rule shutdown_hangs) (simp_all add: becomes_def idle_pool_def gc_due_def picked_cpu_def)

end
