(* ===== verification/ToolDispatch.thy ===== *)
theory ToolDispatch
  imports Interpreter
begin

text \<open>
  The tools of \<^verbatim>\<open>src/src/vm/tool_dispatch.cpp\<close>: a tool subscribes callbacks to events, sets
  breakpoints in modules, and suspends threads. The hash maps of the source are association
  lists and a missing entry of a map of maps stands for an empty one; the order in which the
  callbacks of an event run, which the source leaves to the hash map, is that of the list.
  The tools are the parameter \<open>tool_host\<close>: what a tool does when it is loaded, unloaded or
  called back, and how a thread waits to be resumed. A tool, a callback and a module are named
  by numbers, with \<open>None\<close> for null.
\<close>

section \<open>Tools and events\<close>

datatype context_value = NoValue | CookieValue nat | TrapValue nat | ModuleValue nat | RegistersValue
  | ThreadValue nat | StringValue nat | AllocValue nat | LoadedValue nat

type_synonym event_context = "context_value \<times> context_value \<times> context_value"

record tool_host =
  th_on_load :: "nat \<Rightarrow> nat \<Rightarrow> unit exec"
  th_on_unload :: "nat \<Rightarrow> unit exec"
  th_call :: "nat \<Rightarrow> vm_event \<Rightarrow> event_context \<Rightarrow> unit exec"
  th_wait :: "unit exec"

definition tools :: "(tool_dispatch \<Rightarrow> 'a) \<Rightarrow> ('z world_scheme, 'a) eff" where
  "tools f = gets (\<lambda>w. f (w_dispatch w))"

definition set_tools :: "(tool_dispatch \<Rightarrow> tool_dispatch) \<Rightarrow> ('z world_scheme, unit) eff" where
  "set_tools g = modify (\<lambda>w. w\<lparr> w_dispatch := g (w_dispatch w) \<rparr>)"

definition entries :: "('k \<times> ('a \<times> 'b) list) list \<Rightarrow> 'k \<Rightarrow> ('a \<times> 'b) list" where
  "entries m k = (case map_of m k of None \<Rightarrow> [] | Some es \<Rightarrow> es)"

definition create_dispatch :: "('z world_scheme, unit) eff" where
  "create_dispatch = set_tools (\<lambda>d. d\<lparr> tl_tools := [], tl_callbacks := [], tl_cookie_to_event := [], tl_event_cookies := 1,
     tl_details := [], tl_originals := [], tl_break_cookies := 1, tl_suspended := False, tl_suspended_count := 0 \<rparr>)"

definition destroy_dispatch :: "tool_host \<Rightarrow> unit exec" where
  "destroy_dispatch H = ebind (tools tl_tools) (\<lambda>loaded.
     for_each (\<lambda>(tool_id, tool). th_on_unload H tool) loaded)"

definition load_tool :: "tool_host \<Rightarrow> nat option \<Rightarrow> nat exec" where
  "load_tool H tool = (case tool of None \<Rightarrow> throw (SystemException ''Tool cannot be null'')
   | Some t \<Rightarrow> (ebind (tools tl_tool_counter) (\<lambda>current_id.
     eseq (set_tools (\<lambda>d. d\<lparr> tl_tool_counter := current_id + 1, tl_tools := AList.update current_id t (tl_tools d) \<rparr>)) (
     eseq (catch (th_on_load H t current_id)
         (\<lambda>e. eseq (set_tools (\<lambda>d. d\<lparr> tl_tools := AList.delete current_id (tl_tools d) \<rparr>)) (throw e))) (
     eret current_id)))))"

definition unload_tool :: "tool_host \<Rightarrow> nat \<Rightarrow> nat exec" where
  "unload_tool H tool_id = ebind (tools tl_tools) (\<lambda>loaded.
     eseq (case map_of loaded tool_id of None \<Rightarrow> eret ()
      | Some t \<Rightarrow> (eseq (set_tools (\<lambda>d. d\<lparr> tl_tools := AList.delete tool_id (tl_tools d) \<rparr>)) (
       th_on_unload H t))) (
     tools (\<lambda>d. length (tl_tools d))))"

definition fire_event_callbacks :: "tool_host \<Rightarrow> vm_event \<Rightarrow> event_context \<Rightarrow> unit exec" where
  "fire_event_callbacks H event_type cxt = ebind (tools (\<lambda>d. map snd (entries (tl_callbacks d) event_type))) (\<lambda>callbacks.
     for_each (\<lambda>c. th_call H c event_type cxt) callbacks)"

definition subscribe_event :: "vm_event \<Rightarrow> nat option \<Rightarrow> ('z world_scheme, nat) eff" where
  "subscribe_event evt cb = (case cb of None \<Rightarrow> throw (SystemException ''Invalid callback for event'')
   | Some c \<Rightarrow> (ebind (tools tl_event_cookies) (\<lambda>cookie_id.
     eseq (set_tools (\<lambda>d. d\<lparr> tl_event_cookies := cookie_id + 1,
         tl_callbacks := AList.update evt (AList.update cookie_id c (entries (tl_callbacks d) evt)) (tl_callbacks d),
         tl_cookie_to_event := AList.update cookie_id evt (tl_cookie_to_event d) \<rparr>)) (
     eret cookie_id))))"

definition unsubscribe_event :: "nat \<Rightarrow> ('z world_scheme, unit) eff" where
  "unsubscribe_event cookie_id = ebind (tools tl_cookie_to_event) (\<lambda>events.
     case map_of events cookie_id of None \<Rightarrow> eret ()
     | Some evt \<Rightarrow> set_tools (\<lambda>d. d\<lparr>
         tl_callbacks := AList.update evt (AList.delete cookie_id (entries (tl_callbacks d) evt)) (tl_callbacks d),
         tl_cookie_to_event := AList.delete cookie_id (tl_cookie_to_event d) \<rparr>))"

section \<open>Breakpoints\<close>

definition brkpt_opcode :: nat where "brkpt_opcode = last_opcode"

definition set_opcode :: "nat \<Rightarrow> word_t \<Rightarrow> nat \<Rightarrow> ('z, unit) heff" where
  "set_opcode m pc opcode = modify (\<lambda>h. h\<lparr> h_modules := AList.map_entry m (\<lambda>md. md\<lparr> m_code_section :=
     (case m_code_section md ! unat pc of
        Exec op \<Rightarrow> (m_code_section md)[unat pc := Exec (op\<lparr> in_opcode := opcode \<rparr>)]
      | Native _ \<Rightarrow> m_code_section md) \<rparr>) (h_modules h) \<rparr>)"

definition opcode_at :: "vm_module \<Rightarrow> word_t \<Rightarrow> ('z, nat) eff" where
  "opcode_at md pc = eseq (check (unat pc < length (m_code_section md)) (Undefined ''code_section[pc]'')) (
     case m_code_section md ! unat pc of Exec op \<Rightarrow> eret (in_opcode op)
     | Native _ \<Rightarrow> throw (Undefined ''not a VM instruction''))"

definition set_breakpoint :: "nat option \<Rightarrow> word_t \<Rightarrow> ('z world_scheme, nat) eff" where
  "set_breakpoint module pc = (case module of None \<Rightarrow> throw (SystemException ''Unable to set breakpoint in supplied module'')
   | Some m \<Rightarrow> (ebind (module_at m) (\<lambda>md.
     eseq (check (\<not> has_flag (hd_runtime_flag (m_header md)) builtin_flag) (SystemException ''Unable to set breakpoint in supplied module'')) (
     eseq (check (sint pc < int (length (m_code_section md))) (SystemException ''Invalid PC for module'')) (
     ebind (opcode_at md pc) (\<lambda>real_opcode.
     ebind (tools (\<lambda>d. entries (tl_originals d) m)) (\<lambda>pc_map.
     if real_opcode = brkpt_opcode \<and> map_of pc_map pc \<noteq> None then eret (snd (the (map_of pc_map pc)))
       else (ebind (tools tl_break_cookies) (\<lambda>cookie_id.
       eseq (set_tools (\<lambda>d. d\<lparr> tl_break_cookies := cookie_id + 1,
           tl_details := AList.update cookie_id \<lparr> bd_module = m, bd_pc = pc, bd_opcode = real_opcode \<rparr> (tl_details d),
           tl_originals := AList.update m (AList.update pc (real_opcode, cookie_id) pc_map) (tl_originals d) \<rparr>)) (
       eseq (set_opcode m pc brkpt_opcode) (
       eret cookie_id)))))))))))"

definition get_breakpoint_details :: "nat \<Rightarrow> ('z world_scheme, breakpoint_details) eff" where
  "get_breakpoint_details cookie_id = ebind (tools tl_details) (\<lambda>details.
     case map_of details cookie_id of None \<Rightarrow> throw (SystemException ''Unknown breakpoint cookie'') | Some d \<Rightarrow> eret d)"

definition clear_breakpoint :: "nat \<Rightarrow> ('z world_scheme, unit) eff" where
  "clear_breakpoint cookie_id = ebind (get_breakpoint_details cookie_id) (\<lambda>details.
     let m = bd_module details in
     let target_pc = bd_pc details in
     ebind (tools tl_originals) (\<lambda>originals.
     case map_of originals m of None \<Rightarrow> throw (AssertFailed ''iter_orig != _breakpoints.original_opcodes.cend()'')
     | Some pc_map \<Rightarrow> (case map_of pc_map target_pc of None \<Rightarrow> throw (AssertFailed ''iter_pc != pc_map.cend()'')
       | Some (original_opcode, _) \<Rightarrow> (ebind (module_at m) (\<lambda>md.
       ebind (opcode_at md target_pc) (\<lambda>current.
       eseq (vm_assert (current = brkpt_opcode) ''code_section[target_pc].op.opcode == opcode_t::brkpt'') (
       eseq (set_opcode m target_pc original_opcode) (
       let rest = AList.delete target_pc pc_map in
       set_tools (\<lambda>d. d\<lparr>
             tl_originals := (if rest = [] then AList.delete m (tl_originals d) else AList.update m rest (tl_originals d)),
             tl_details := AList.delete cookie_id (tl_details d) \<rparr>)))))))))"

definition get_original_opcode_and_cookie :: "(nat \<times> nat) exec" where
  "get_original_opcode_and_cookie = ebind (reg r_module_ref) (\<lambda>module_p.
     ebind (module_ref_at module_p) (\<lambda>mr.
     ebind (module_at (mr_module mr)) (\<lambda>md.
     eseq (check (\<not> has_flag (hd_runtime_flag (m_header md)) builtin_flag)
       (SystemException ''Unable to determine original opcode in supplied module'')) (
     ebind (reg r_pc) (\<lambda>pc.
     ebind (tools (\<lambda>d. map_of (entries (tl_originals d) (mr_module mr)) pc)) (\<lambda>found.
     case found of None \<Rightarrow> throw (AssertFailed ''Why are we missing this information?'') | Some x \<Rightarrow> eret x))))))"

section \<open>Events of the VM\<close>

definition on_trap :: "tool_host \<Rightarrow> nat \<Rightarrow> unit exec" where
  "on_trap H f = eseq (set_reg (\<lambda>r. r\<lparr> r_trap_flags := r_trap_flags r - (r_trap_flags r AND f) \<rparr>)) (
     fire_event_callbacks H TrapHit (RegistersValue, TrapValue f, NoValue))"

definition on_breakpoint :: "tool_host \<Rightarrow> nat exec" where
  "on_breakpoint H = ebind get_original_opcode_and_cookie (\<lambda>(original_op, cookie_id).
     eseq (fire_event_callbacks H BreakpointHit (RegistersValue, CookieValue cookie_id, NoValue)) (
     eret original_op))"

definition on_exception_raised :: "tool_host \<Rightarrow> nat \<Rightarrow> nat \<Rightarrow> unit exec" where
  "on_exception_raised H id_p e = fire_event_callbacks H ExceptionRaised (RegistersValue, StringValue id_p, AllocValue e)"

definition on_exception_unhandled :: "tool_host \<Rightarrow> nat \<Rightarrow> nat \<Rightarrow> unit exec" where
  "on_exception_unhandled H id_p e = fire_event_callbacks H ExceptionUnhandled (RegistersValue, StringValue id_p, AllocValue e)"

definition on_module_vm_load :: "tool_host \<Rightarrow> nat \<Rightarrow> unit exec" where
  "on_module_vm_load H vm_id = fire_event_callbacks H ModuleVmLoad (LoadedValue vm_id, NoValue, NoValue)"

definition on_module_thread_load :: "tool_host \<Rightarrow> nat \<Rightarrow> unit exec" where
  "on_module_thread_load H m = fire_event_callbacks H ModuleThreadLoad (RegistersValue, ModuleValue m, NoValue)"

definition on_thread_begin :: "tool_host \<Rightarrow> nat \<Rightarrow> unit exec" where
  "on_thread_begin H t = fire_event_callbacks H ThreadBegin (ThreadValue t, NoValue, NoValue)"

definition on_thread_end :: "tool_host \<Rightarrow> nat \<Rightarrow> unit exec" where
  "on_thread_end H t = fire_event_callbacks H ThreadEnd (ThreadValue t, NoValue, NoValue)"

definition on_thread_broken :: "tool_host \<Rightarrow> nat \<Rightarrow> unit exec" where
  "on_thread_broken H t = fire_event_callbacks H ThreadBroken (ThreadValue t, NoValue, NoValue)"

section \<open>Suspension\<close>

primrec wait_resumed :: "nat \<Rightarrow> tool_host \<Rightarrow> unit exec" where
  "wait_resumed 0 H = throw OutOfFuel"
| "wait_resumed (Suc n) H = ebind (tools tl_suspended) (\<lambda>suspended.
     when_do suspended (eseq (th_wait H) (wait_resumed n H)))"

definition block_if_thread_suspended :: "nat \<Rightarrow> tool_host \<Rightarrow> unit exec" where
  "block_if_thread_suspended n H = ebind (tools tl_suspended) (\<lambda>suspended.
     when_do suspended (eseq (set_tools (\<lambda>d. d\<lparr> tl_suspended_count := tl_suspended_count d + 1 \<rparr>)) (
       eseq (wait_resumed n H) (
       set_tools (\<lambda>d. d\<lparr> tl_suspended_count := tl_suspended_count d - 1 \<rparr>)))))"

primrec wait_suspended :: "nat \<Rightarrow> nat \<Rightarrow> unit exec \<Rightarrow> nat exec" where
  "wait_suspended 0 sys_thread_count sleep = throw OutOfFuel"
| "wait_suspended (Suc n) sys_thread_count sleep = ebind (tools tl_suspended_count) (\<lambda>suspended.
     if suspended + 1 < sys_thread_count then eseq sleep (wait_suspended n sys_thread_count sleep) else eret suspended)"

definition suspend_all_threads :: "nat \<Rightarrow> nat \<Rightarrow> unit exec \<Rightarrow> unit exec" where
  "suspend_all_threads n sys_thread_count sleep = eseq (set_tools (\<lambda>d. d\<lparr> tl_suspended := True \<rparr>)) (
     eseq (vm_assert (sys_thread_count \<noteq> 0) ''sys_thread_count != 0'') (
     ebind (wait_suspended n sys_thread_count sleep) (\<lambda>suspended.
     vm_assert (suspended < sys_thread_count) ''suspended < sys_thread_count'')))"

definition resume_all_threads :: "('z world_scheme, unit) eff" where
  "resume_all_threads = set_tools (\<lambda>d. d\<lparr> tl_suspended := False \<rparr>)"

definition set_thread_trap_flag :: "nat \<Rightarrow> nat \<Rightarrow> unit exec" where
  "set_thread_trap_flag thread_id flag = ebind (tools tl_suspended) (\<lambda>suspended.
     eseq (check suspended (SystemException ''Unable to set thread trap flag while threads are not suspended'')) (
     ebind (reg r_thread_id) (\<lambda>current.
     if thread_id = current then set_reg (\<lambda>r. r\<lparr> r_trap_flags := r_trap_flags r OR flag \<rparr>)
     else modify (\<lambda>c. c\<lparr> w_threads := AList.map_entry thread_id (\<lambda>r. r\<lparr> r_trap_flags := r_trap_flags r OR flag \<rparr>) (w_threads c) \<rparr>))))"

section \<open>The tools as the interpreter sees them\<close>

definition dispatch_event :: "nat \<Rightarrow> tool_host \<Rightarrow> tool_event \<Rightarrow> nat exec" where
  "dispatch_event n H ev = (let done = (\<lambda>m. eseq m (eret 0)) in case ev of
     ToolBlock \<Rightarrow> done (block_if_thread_suspended n H)
   | ToolTrap \<Rightarrow> done (on_trap H trap_instruction)
   | ToolRaised id_p e \<Rightarrow> done (on_exception_raised H id_p e)
   | ToolUnhandled id_p e \<Rightarrow> done (on_exception_unhandled H id_p e)
   | ToolBreakpoint \<Rightarrow> on_breakpoint H
   | ToolModuleLoad m \<Rightarrow> done (on_module_thread_load H m)
   | ToolThreadBegin t \<Rightarrow> done (on_thread_begin H t)
   | ToolThreadEnd \<Rightarrow> ebind (reg r_thread_id) (\<lambda>t. done (on_thread_end H t))
   | ToolThreadBroken \<Rightarrow> ebind (reg r_thread_id) (\<lambda>t. done (on_thread_broken H t))
   | ToolVmLoad vm_id \<Rightarrow> done (on_module_vm_load H vm_id))"

definition with_tools :: "nat \<Rightarrow> tool_host \<Rightarrow> env \<Rightarrow> env" where
  "with_tools n H E = E\<lparr> e_tool := dispatch_event n H \<rparr>"

end
