(* ===== verification/VmCore.thy ===== *)
theory VmCore
  imports ToolDispatch ModuleReader Scheduler
begin

text \<open>
  The virtual machine itself (\<^verbatim>\<open>src/src/vm/vm.cpp\<close>), the resolution of paths to modules
  (\<^verbatim>\<open>module_resolver.cpp\<close>) and the registry of built-in modules (\<^verbatim>\<open>builtin_module.cpp\<close>). A
  path is a C string, the bytes before its terminator; the file system is the parameter
  \<open>files\<close>, which gives the contents of the files that can be opened. A module is named by
  its key in the table of modules; the weak pointer a loaded module leaves behind is expired
  when the table has no entry for it. The text a loaded module's origin caches when it is
  compared is not kept, and the clean-up of a thread whose construction fails is left out.
\<close>

section \<open>The message of the last system call\<close>

definition error_message_size :: nat where "error_message_size = 128"

definition push_syscall_error_message :: "byte_t list \<Rightarrow> ('z world_scheme, unit) eff" where
  "push_syscall_error_message msg = modify (\<lambda>w. w\<lparr> w_syscall_error :=
     (let bytes_to_copy = min (length (c_string msg)) (error_message_size - 1)
      in take bytes_to_copy (c_string msg) @ [0] @ drop (bytes_to_copy + 1) (w_syscall_error w)) \<rparr>)"

definition pop_syscall_error_message :: "('z world_scheme, byte_t list) eff" where
  "pop_syscall_error_message = ebind (gets (\<lambda>w. c_string (w_syscall_error w))) (\<lambda>msg.
     eseq (modify (\<lambda>w. w\<lparr> w_syscall_error := (w_syscall_error w)[0 := 0] \<rparr>)) (
     eret msg))"

section \<open>Built-in modules\<close>

record runtab =
  rt_name :: "byte_t list"
  rt_sig :: word_t
  rt_fn :: nat
  rt_frame_size :: int
  rt_pointer_map :: "byte_t list"

definition builtin_prefix :: byte_t where "builtin_prefix = 0x24"

definition adopt_module :: "vm_module \<Rightarrow> ('z world_scheme, nat) eff" where
  "adopt_module md = ebind (gets w_next_module) (\<lambda>key.
     eseq (modify (\<lambda>w. w\<lparr> w_next_module := key + 1, h_modules := (key, md) # h_modules w \<rparr>)) (
     eret key))"

definition builtin_header :: "nat \<Rightarrow> header" where
  "builtin_header table_length = \<lparr> hd_magic_number = xmagic, hd_signature = [], hd_runtime_flag = builtin_flag, hd_stack_extent = 0,
     hd_code_size = of_nat table_length, hd_data_size = 0, hd_type_size = of_nat table_length, hd_export_size = of_nat table_length,
     hd_entry_pc = invalid_program_counter, hd_entry_type = - 1 \<rparr>"

definition builtin_export :: "nat \<times> runtab \<Rightarrow> (word_t \<times> export_function) res" where
  "builtin_export x = (case x of (i, rt) \<Rightarrow> rbind (string_of_utf8 (rt_name rt)) (\<lambda>name.
     Inr (rt_sig rt, \<lparr> ex_pc = of_nat i, ex_frame_type = of_nat i, ex_sig = rt_sig rt, ex_name = Some name \<rparr>)))"

definition builtin_type :: "runtab \<Rightarrow> type_desc option res" where
  "builtin_type rt = rbind (type_create (rt_frame_size rt) (rt_pointer_map rt)) (\<lambda>td. Inr (Some td))"

definition module_has_name :: "byte_t list \<Rightarrow> nat \<Rightarrow> ('z, bool) heff" where
  "module_has_name name key = ebind (module_at key) (\<lambda>md.
     case m_module_name md of None \<Rightarrow> throw (Undefined ''null module name'')
     | Some s \<Rightarrow> ebind (lift_res (str s)) (\<lambda>n. eret (c_string (str_bytes n) = name)))"

definition register_module_exports :: "byte_t list \<Rightarrow> runtab list \<Rightarrow> ('z world_scheme, unit) eff" where
  "register_module_exports name table = eseq (vm_assert (name \<noteq> [] \<and> name ! 0 = builtin_prefix) ''Built-in modules should have the prefix'') (
     ebind (lift_res (string_of_utf8 name)) (\<lambda>module_name.
     ebind (map_each (\<lambda>rt. lift_res (builtin_type rt)) table) (\<lambda>types.
     ebind (map_each (\<lambda>x. lift_res (builtin_export x)) (enumerate 0 table)) (\<lambda>exports.
     ebind (gets w_builtins) (\<lambda>builtins.
     ebind (map_each (module_has_name name) builtins) (\<lambda>same.
     eseq (vm_assert (True \<notin> set same) ''Built-in module with matching name already exists'') (
     ebind (adopt_module \<lparr> m_vm_id = 0, m_header = builtin_header (length table), m_code_section = map (\<lambda>rt. Native (rt_fn rt)) table,
        m_code_base = 0, m_original_mp = 0, m_type_section = types, m_module_name = Some module_name,
        m_export_section = exports, m_import_section = [], m_handler_section = [] \<rparr>) (\<lambda>key.
     modify (\<lambda>w. w\<lparr> w_builtins := key # w_builtins w \<rparr>)))))))))"

primrec find_builtin :: "byte_t list \<Rightarrow> nat list \<Rightarrow> ('z, nat) heff" where
  "find_builtin name [] = throw (ModuleException ''Unknown built-in module'')"
| "find_builtin name (m # ms) = ebind (module_has_name name m) (\<lambda>same.
     if same then eret m else find_builtin name ms)"

definition get_builtin_module :: "byte_t list \<Rightarrow> ('z world_scheme, nat) eff" where
  "get_builtin_module name = ebind (gets w_builtins) (find_builtin name)"

definition initialize_builtin_modules :: "('z world_scheme, unit) eff list \<Rightarrow> ('z world_scheme, unit) eff" where
  "initialize_builtin_modules initializers = ebind (gets (\<lambda>w. w_builtins w \<noteq> [])) (\<lambda>initialized.
     when_do (\<not> initialized) (for_each id initializers))"

section \<open>Resolution of paths\<close>

primrec open_first :: "(byte_t list \<Rightarrow> byte_t list option) \<Rightarrow> byte_t list list \<Rightarrow> byte_t list option" where
  "open_first files [] = None"
| "open_first files (p # ps) = (case files p of Some data \<Rightarrow> Some data | None \<Rightarrow> open_first files ps)"

definition try_resolve_module ::
  "(byte_t list \<Rightarrow> byte_t list option) \<Rightarrow> byte_t list list \<Rightarrow> byte_t list \<Rightarrow> ('z world_scheme, vm_module option) eff" where
  "try_resolve_module files probing_paths path =
     (case open_first files (path # map (\<lambda>p. p @ path) probing_paths) of
        None \<Rightarrow> (eseq (push_syscall_error_message (map of_char ''Unable to resolve path'')) (
     eret None))
      | Some data \<Rightarrow> ebind (load_module_file data) (\<lambda>md. eret (Some md)))"

type_synonym 'z resolver = "byte_t list \<Rightarrow> ('z world_scheme, vm_module option) eff"

definition inferno_root_path :: "byte_t list" where "inferno_root_path = map of_char ''/dis/''"
definition sizeof_pointer :: nat where "sizeof_pointer = 4"

definition same_prefix :: "byte_t list \<Rightarrow> byte_t list \<Rightarrow> nat \<Rightarrow> bool" where
  "same_prefix a b n = (take n a = take n b)"

definition after_last_slash :: "byte_t list \<Rightarrow> byte_t list" where
  "after_last_slash path = rev (takeWhile (\<lambda>b. b \<noteq> of_char CHR ''/'') (rev path))"

definition is_exception :: "vm_exn \<Rightarrow> bool" where
  "is_exception e = (case e of OutOfFuel \<Rightarrow> False | AssertFailed _ \<Rightarrow> False | Undefined _ \<Rightarrow> False | _ \<Rightarrow> True)"

definition no_throw :: "('z world_scheme, 'a option) eff \<Rightarrow> ('z world_scheme, 'a option) eff" where
  "no_throw m = catch m (\<lambda>e. if is_exception e then eret None else throw e)"

primrec first_resolved :: "'z resolver list \<Rightarrow> byte_t list \<Rightarrow> ('z world_scheme, vm_module option) eff" where
  "first_resolved [] path = eret None"
| "first_resolved (r # rs) path = ebind (r path) (\<lambda>found.
     case found of Some md \<Rightarrow> eret (Some md) | None \<Rightarrow> first_resolved rs path)"

definition resolve_module_from_path :: "byte_t list \<Rightarrow> 'z resolver list \<Rightarrow> ('z world_scheme, vm_module) eff" where
  "resolve_module_from_path path resolvers = eseq (vm_assert (resolvers \<noteq> []) ''!resolvers.empty()'') (
     let module_name = after_last_slash path in
     ebind (if same_prefix path inferno_root_path sizeof_pointer \<and> module_name \<noteq> []
       then first_resolved (map (\<lambda>r p. no_throw (r p)) resolvers) module_name else eret None) (\<lambda>inferno.
     case inferno of Some md \<Rightarrow> eret md
     | None \<Rightarrow> (ebind (first_resolved resolvers path) (\<lambda>found.
       case found of Some md \<Rightarrow> eret md
         | None \<Rightarrow> throw (ModuleException (''Failed to resolve path to module: '' @ ascii_text path))))))"

section \<open>Loading\<close>

primrec find_loaded :: "byte_t list \<Rightarrow> loaded_vm_module list \<Rightarrow> ('z, loaded_vm_module option) eff" where
  "find_loaded path [] = eret None"
| "find_loaded path (l # ls) = ebind (lift_res (str (lm_origin l))) (\<lambda>origin.
     if c_string (str_bytes origin) = path then eret (Some l) else find_loaded path ls)"

definition set_vm_id :: "nat \<Rightarrow> nat \<Rightarrow> ('z, unit) heff" where
  "set_vm_id key vm_id = modify (\<lambda>h. h\<lparr> h_modules := AList.map_entry key (\<lambda>md. md\<lparr> m_vm_id := vm_id \<rparr>) (h_modules h) \<rparr>)"

definition reload_module :: "'z resolver list \<Rightarrow> byte_t list \<Rightarrow> loaded_vm_module \<Rightarrow> ('z world_scheme, nat) eff" where
  "reload_module resolvers path l = ebind (gets (\<lambda>w. map_of (h_modules w) (lm_module l) \<noteq> None)) (\<lambda>alive.
     if alive then eret (lm_module l)
     else (ebind (resolve_module_from_path path resolvers) (\<lambda>md.
       ebind (adopt_module (md\<lparr> m_vm_id := lm_vm_id l \<rparr>)) (\<lambda>key.
       eseq (modify (\<lambda>w. w\<lparr> w_modules := map (\<lambda>x. if x = l then x\<lparr> lm_module := key \<rparr> else x) (w_modules w) \<rparr>)) (
       eret key)))))"

definition load_new_module :: "'z resolver list \<Rightarrow> byte_t list \<Rightarrow> ('z world_scheme, nat \<times> nat) eff" where
  "load_new_module resolvers path = ebind (if path \<noteq> [] \<and> path ! 0 = builtin_prefix then ebind (get_builtin_module path) (\<lambda>key. eret (Inl key))
       else ebind (resolve_module_from_path path resolvers) (\<lambda>md. eret (Inr md))) (\<lambda>found.
     ebind (or_else_do (lift_res (string_of_utf8 path)) (case found of Inl _ \<Rightarrow> eret () | Inr md \<Rightarrow> destroy_module md)) (\<lambda>path_local.
     ebind (gets (\<lambda>w. case w_modules w of [] \<Rightarrow> 1 | l # _ \<Rightarrow> lm_vm_id l + 1)) (\<lambda>vm_id_next.
     ebind (case found of Inl key \<Rightarrow> eret key | Inr md \<Rightarrow> adopt_module md) (\<lambda>key.
     eseq (set_vm_id key vm_id_next) (
     eseq (modify (\<lambda>w. w\<lparr> w_modules := \<lparr> lm_vm_id = vm_id_next, lm_origin = path_local, lm_module = key \<rparr> # w_modules w \<rparr>)) (
     eret (key, vm_id_next)))))))"

definition load_module :: "env \<Rightarrow> unit cpu_ext resolver list \<Rightarrow> byte_t list option \<Rightarrow> nat exec" where
  "load_module E resolvers path = (case path of None \<Rightarrow> throw (UserException ''Invalid module path'')
   | Some p \<Rightarrow> (ebind (gets w_modules) (\<lambda>loaded.
     ebind (find_loaded p loaded) (\<lambda>entry.
     case entry of Some l \<Rightarrow> reload_module resolvers p l
       | None \<Rightarrow> (ebind (load_new_module resolvers p) (\<lambda>(key, vm_id).
       ebind (gets w_tool_attached) (\<lambda>attached.
       eseq (when_do attached (ebind (e_tool E (ToolVmLoad vm_id)) (\<lambda>_. eret ()))) (
       eret key))))))))"

primrec enum_modules :: "(loaded_vm_module \<Rightarrow> ('z world_scheme, bool) eff) \<Rightarrow> loaded_vm_module list \<Rightarrow> ('z world_scheme, unit) eff" where
  "enum_modules callback [] = eret ()"
| "enum_modules callback (l # ls) = ebind (callback l) (\<lambda>more_modules.
     when_do more_modules (enum_modules callback ls))"

definition enum_loaded_modules :: "(loaded_vm_module \<Rightarrow> ('z world_scheme, bool) eff) option \<Rightarrow> ('z world_scheme, unit) eff" where
  "enum_loaded_modules callback = (case callback of None \<Rightarrow> throw (SystemException ''Callback should not be null'')
   | Some f \<Rightarrow> ebind (gets w_modules) (enum_modules f))"

section \<open>The machine\<close>

record vm_config =
  cf_sys_thread_pool_size :: nat
  cf_thread_quanta :: nat
  cf_probing_paths :: "byte_t list list"

definition default_config :: vm_config where
  "default_config = \<lparr> cf_sys_thread_pool_size = 1, cf_thread_quanta = 2048, cf_probing_paths = [] \<rparr>"

definition vm_resolvers :: "(byte_t list \<Rightarrow> byte_t list option) \<Rightarrow> 'z resolver list \<Rightarrow> vm_config \<Rightarrow> 'z resolver list" where
  "vm_resolvers files additional cf = additional @ [try_resolve_module files (cf_probing_paths cf)]"

definition create_vm :: "('z world_scheme, unit) eff list \<Rightarrow> vm_config \<Rightarrow> ('z world_scheme, unit) eff" where
  "create_vm initializers cf = eseq (modify (\<lambda>w. w\<lparr> w_syscall_error := replicate error_message_size 0, w_modules := [], w_tracked := [], w_epoch := 0,
       w_tool_attached := False \<rparr>)) (
     eseq (initialize_builtin_modules initializers) (
     create_scheduler (cf_sys_thread_pool_size cf) (cf_thread_quanta cf)))"

definition destroy_vm :: "('z world_scheme, unit) eff" where
  "destroy_vm = eseq stop_scheduler (
     eseq destroy_collector (
     modify (\<lambda>w. w\<lparr> w_modules := [] \<rparr>)))"

definition root_vm_thread_id :: nat where "root_vm_thread_id = 0"

definition create_thread_safe :: "nat \<Rightarrow> registers exec" where
  "create_thread_safe entry_module_ref = ebind (new_thread entry_module_ref root_vm_thread_id) (\<lambda>thread.
     ebind (release entry_module_ref) (\<lambda>_.
     eret thread))"

definition exec_module :: "env \<Rightarrow> nat \<Rightarrow> nat exec" where
  "exec_module E entry_module = ebind (new_module_ref entry_module) (\<lambda>entry_module_ref.
     ebind (create_thread_safe entry_module_ref) (\<lambda>thread.
     eseq (schedule_thread E thread) (
     eret (r_thread_id thread))))"

definition exec_path :: "env \<Rightarrow> unit cpu_ext resolver list \<Rightarrow> byte_t list \<Rightarrow> nat exec" where
  "exec_path E resolvers path = ebind (load_module E resolvers (Some path)) (exec_module E)"

primrec spin_sleep_till_idle :: "nat \<Rightarrow> ('z world_scheme, unit) eff \<Rightarrow> ('z world_scheme, unit) eff" where
  "spin_sleep_till_idle 0 sleep = throw OutOfFuel"
| "spin_sleep_till_idle (Suc n) sleep = eseq sleep (
     ebind (gets is_idle) (\<lambda>idle.
     when_do (\<not> idle) (spin_sleep_till_idle n sleep)))"

definition vm_load_tool :: "tool_host \<Rightarrow> nat set list \<Rightarrow> nat option \<Rightarrow> nat exec" where
  "vm_load_tool H rounds tool = ebind (gets w_tool_attached) (\<lambda>attached.
     eseq (when_do (\<not> attached) (eseq create_dispatch (
       eseq (modify (\<lambda>c. c\<lparr> w_tool_attached := True \<rparr>)) (
       ebind (set_tool_dispatch_on_all_threads True rounds) (\<lambda>_. eret ()))))) (
     load_tool H tool))"

definition vm_unload_tool :: "tool_host \<Rightarrow> nat set list \<Rightarrow> nat \<Rightarrow> unit exec" where
  "vm_unload_tool H rounds tool_id = ebind (gets w_tool_attached) (\<lambda>attached.
     when_do attached (ebind (unload_tool H tool_id) (\<lambda>tool_count.
       when_do (tool_count = 0) (ebind (set_tool_dispatch_on_all_threads False rounds) (\<lambda>_. eret ())))))"

definition with_loader :: "unit cpu_ext resolver list \<Rightarrow> env \<Rightarrow> env" where
  "with_loader resolvers E = E\<lparr> e_load_module := (\<lambda>path. load_module E resolvers (Some path)) \<rparr>"

end
