(* ===== verification/ToolSpec.thy ===== *)
theory ToolSpec
  imports ToolDispatch ExecInvariant Sample
begin

text \<open>
  Breakpoints are consistent: the tables of the dispatcher and the opcodes in the code of the
  modules agree in every state that tools reach, so that a breakpoint can always be cleared,
  clearing it restores the code, and executing it runs the instruction it replaced.
\<close>

section \<open>The opcodes of the code\<close>

definition code_opcode :: "'z heap_scheme \<Rightarrow> nat \<Rightarrow> word_t \<Rightarrow> nat option" where
  "code_opcode h m pc = (case map_of (h_modules h) m of None \<Rightarrow> None
   | Some md \<Rightarrow> if unat pc < length (m_code_section md)
       then (case m_code_section md ! unat pc of Exec op \<Rightarrow> Some (in_opcode op) | Native _ \<Rightarrow> None) else None)"

lemma code_opcode_Some:
  assumes "code_opcode h m pc = Some x"
  obtains md op where "map_of (h_modules h) m = Some md" "unat pc < length (m_code_section md)"
    "m_code_section md ! unat pc = Exec op" "in_opcode op = x"
  using assms by (auto simp: code_opcode_def split: option.splits if_splits instruction.splits)

lemma code_opcode_set:
  assumes "code_opcode h m pc = Some x"
  shows "code_opcode (snd (set_opcode m pc y h)) k q = (if k = m \<and> q = pc then Some y else code_opcode h k q)"
proof -
  obtain md op where m: "map_of (h_modules h) m = Some md" "unat pc < length (m_code_section md)" "m_code_section md ! unat pc = Exec op"
    using assms by (rule code_opcode_Some)
  show ?thesis
  proof (cases "k = m")
    case True
    with m show ?thesis
      by (cases "q = pc") (auto simp: code_opcode_def set_opcode_def map_of_map_entry nth_list_update simp flip: word_eq_iff_unsigned)
  qed (simp add: code_opcode_def set_opcode_def map_of_map_entry)
qed

lemma set_opcode_run: "set_opcode m pc y h = (Inr (), snd (set_opcode m pc y h))"
  by (simp add: set_opcode_def)

lemma opcode_at_run:
  assumes "map_of (h_modules h) m = Some md"
  shows "opcode_at md pc s = (case code_opcode h m pc of Some x \<Rightarrow> (Inr x, s)
    | None \<Rightarrow> (fst (opcode_at md pc s), s))" "code_opcode h m pc = None \<Longrightarrow> \<exists>e. fst (opcode_at md pc s) = Inl e"
  using assms by (auto simp: opcode_at_def code_opcode_def eseq_def ebind_run check_def split: instruction.splits)

lemma map_entry_twice: "AList.map_entry k g (AList.map_entry k f xs) = AList.map_entry k (g \<circ> f) xs"
  by (induction xs) auto

lemma map_entry_same: "(\<And>v. map_of xs k = Some v \<Longrightarrow> f v = v) \<Longrightarrow> AList.map_entry k f xs = xs"
  by (induction xs) auto

lemma set_opcode_twice:
  assumes "code_opcode h m pc = Some x"
  shows "h_modules (snd (set_opcode m pc x (snd (set_opcode m pc y h)))) = h_modules h"
proof -
  obtain md op where m: "map_of (h_modules h) m = Some md" "unat pc < length (m_code_section md)" "m_code_section md ! unat pc = Exec op"
    "in_opcode op = x" using assms by (rule code_opcode_Some)
  show ?thesis
    unfolding set_opcode_def by (simp add: map_entry_twice) (rule map_entry_same, use m in \<open>auto simp: list_update_same_conv\<close>)
qed

section \<open>The tables\<close>

lemma entries_update: "entries (AList.update m es l) k = (if k = m then es else entries l k)"
  by (simp add: entries_def update_conv')

lemma entries_delete: "entries (AList.delete m l) k = (if k = m then [] else entries l k)"
  by (simp add: entries_def delete_conv')

definition breaks_inv :: "'z world_scheme \<Rightarrow> bool" where
  "breaks_inv w \<longleftrightarrow>
     (\<forall>c bd. map_of (tl_details (w_dispatch w)) c = Some bd \<longrightarrow> c < tl_break_cookies (w_dispatch w) \<and>
        code_opcode w (bd_module bd) (bd_pc bd) = Some brkpt_opcode) \<and>
     (\<forall>m pc op c. map_of (entries (tl_originals (w_dispatch w)) m) pc = Some (op, c) \<longleftrightarrow>
        map_of (tl_details (w_dispatch w)) c = Some \<lparr> bd_module = m, bd_pc = pc, bd_opcode = op \<rparr>)"

lemma breaks_inv_details:
  assumes "breaks_inv w" "map_of (tl_details (w_dispatch w)) c = Some bd"
  shows "c < tl_break_cookies (w_dispatch w)" "code_opcode w (bd_module bd) (bd_pc bd) = Some brkpt_opcode"
    "map_of (entries (tl_originals (w_dispatch w)) (bd_module bd)) (bd_pc bd) = Some (bd_opcode bd, c)"
  using assms unfolding breaks_inv_def by (blast, blast, cases bd, simp)

lemma set_breakpoint_cases:
  assumes "set_breakpoint module pc w = (r, w')"
  obtains e where "r = Inl e" "w' = w"
  | m c op where "module = Some m" "r = Inr c" "w' = w" "code_opcode w m pc = Some brkpt_opcode"
      "map_of (entries (tl_originals (w_dispatch w)) m) pc = Some (op, c)"
  | m x where "module = Some m" "code_opcode w m pc = Some x" "r = Inr (tl_break_cookies (w_dispatch w))"
      "x = brkpt_opcode \<longrightarrow> map_of (entries (tl_originals (w_dispatch w)) m) pc = None"
      "w' = snd (set_opcode m pc brkpt_opcode (w\<lparr> w_dispatch := (w_dispatch w)\<lparr> tl_break_cookies := tl_break_cookies (w_dispatch w) + 1,
         tl_details := AList.update (tl_break_cookies (w_dispatch w)) \<lparr> bd_module = m, bd_pc = pc, bd_opcode = x \<rparr> (tl_details (w_dispatch w)),
         tl_originals := AList.update m (AList.update pc (x, tl_break_cookies (w_dispatch w)) (entries (tl_originals (w_dispatch w)) m))
           (tl_originals (w_dispatch w)) \<rparr> \<rparr>))"
proof (cases module)
  case None
  with assms that(1) show ?thesis by (auto simp: set_breakpoint_def)
next
  case (Some m)
  note mod = this
  show ?thesis
  proof (cases "map_of (h_modules w) m")
    case None
    with mod assms that(1) show ?thesis by (auto simp: set_breakpoint_def module_at_def ebind_run)
  next
    case (Some md)
    note md = this
    show ?thesis
    proof (cases "\<not> has_flag (hd_runtime_flag (m_header md)) builtin_flag \<and> sint pc < int (length (m_code_section md))")
      case False
      with mod md assms that(1) show ?thesis by (auto simp: set_breakpoint_def module_at_def ebind_run eseq_def check_def split: if_splits)
    next
      case True
      note ok = this
      show ?thesis
      proof (cases "code_opcode w m pc")
        case None
        with opcode_at_run [OF md, of pc w] obtain e where "opcode_at md pc w = (Inl e, w)" by (cases "opcode_at md pc w") auto
        with mod md ok assms that(1) show ?thesis by (auto simp: set_breakpoint_def module_at_def ebind_run eseq_def)
      next
        case (Some x)
        with opcode_at_run(1) [OF md, of pc w] have x: "opcode_at md pc w = (Inr x, w)" by simp
        show ?thesis
        proof (cases "x = brkpt_opcode \<and> map_of (entries (tl_originals (w_dispatch w)) m) pc \<noteq> None")
          case True
          with mod md ok x Some assms that(2) show ?thesis
            by (auto simp: set_breakpoint_def module_at_def ebind_run eseq_def tools_def)
        next
          case False
          then have new: "x = brkpt_opcode \<longrightarrow> map_of (entries (tl_originals (w_dispatch w)) m) pc = None" by blast
          from False mod md ok x assms show ?thesis
            by (intro that(3) [OF mod Some _ new])
              (auto simp: set_breakpoint_def module_at_def ebind_run eseq_def tools_def set_tools_def set_opcode_def split: if_splits)
        qed
      qed
    qed
  qed
qed

lemma set_opcode_dispatch: "w_dispatch (snd (set_opcode m pc y w)) = w_dispatch w"
  by (simp add: set_opcode_def)

lemma breaks_inv_set:
  assumes "breaks_inv w" "set_breakpoint module pc w = (r, w')"
  shows "breaks_inv w'"
  using assms(2)
proof (rule set_breakpoint_cases)
  fix m x
  let ?c = "tl_break_cookies (w_dispatch w)"
  assume x: "code_opcode w m pc = Some x"
    and new: "x = brkpt_opcode \<longrightarrow> map_of (entries (tl_originals (w_dispatch w)) m) pc = None"
    and w': "w' = snd (set_opcode m pc brkpt_opcode (w\<lparr> w_dispatch := (w_dispatch w)\<lparr> tl_break_cookies := ?c + 1,
         tl_details := AList.update ?c \<lparr> bd_module = m, bd_pc = pc, bd_opcode = x \<rparr> (tl_details (w_dispatch w)),
         tl_originals := AList.update m (AList.update pc (x, ?c) (entries (tl_originals (w_dispatch w)) m))
           (tl_originals (w_dispatch w)) \<rparr> \<rparr>))" (is "w' = snd (set_opcode m pc _ ?w)")
  have x': "code_opcode ?w m pc = Some x" using x by (simp add: code_opcode_def)
  have code: "code_opcode w' k q = (if k = m \<and> q = pc then Some brkpt_opcode else code_opcode w k q)" for k q
    unfolding w' code_opcode_set [OF x'] by (simp add: code_opcode_def)
  have none: "map_of (entries (tl_originals (w_dispatch w)) m) pc = None"
  proof (cases "map_of (entries (tl_originals (w_dispatch w)) m) pc")
    case (Some y)
    then obtain op c where "map_of (entries (tl_originals (w_dispatch w)) m) pc = Some (op, c)" by (cases y) auto
    with assms(1) have "map_of (tl_details (w_dispatch w)) c = Some \<lparr> bd_module = m, bd_pc = pc, bd_opcode = op \<rparr>"
      unfolding breaks_inv_def by blast
    from breaks_inv_details(2) [OF assms(1) this] x have "x = brkpt_opcode" by simp
    with new show ?thesis by simp
  qed simp
  have fresh: "map_of (tl_details (w_dispatch w)) ?c = None"
    using breaks_inv_details(1) [OF assms(1), of ?c] by (cases "map_of (tl_details (w_dispatch w)) ?c") auto
  have d: "tl_break_cookies (w_dispatch w') = ?c + 1"
    "map_of (tl_details (w_dispatch w')) = (map_of (tl_details (w_dispatch w)))(?c \<mapsto> \<lparr> bd_module = m, bd_pc = pc, bd_opcode = x \<rparr>)"
    "map_of (entries (tl_originals (w_dispatch w')) k) = (if k = m then (map_of (entries (tl_originals (w_dispatch w)) m))(pc \<mapsto> (x, ?c))
        else map_of (entries (tl_originals (w_dispatch w)) k))" for k
    unfolding w' set_opcode_dispatch by (simp_all add: update_conv' entries_update)
  show ?thesis
    unfolding breaks_inv_def
  proof (intro conjI allI impI)
    fix c bd assume c: "map_of (tl_details (w_dispatch w')) c = Some bd"
    show "c < tl_break_cookies (w_dispatch w')" "code_opcode w' (bd_module bd) (bd_pc bd) = Some brkpt_opcode"
      using c breaks_inv_details(1,2) [OF assms(1), of c bd] unfolding d code by (auto split: if_splits)
  next
    fix k q op c
    have old: "map_of (entries (tl_originals (w_dispatch w)) k) q = Some (op, c) \<longleftrightarrow>
        map_of (tl_details (w_dispatch w)) c = Some \<lparr> bd_module = k, bd_pc = q, bd_opcode = op \<rparr>"
      using assms(1) unfolding breaks_inv_def by blast
    then have "c \<noteq> ?c" if "map_of (entries (tl_originals (w_dispatch w)) k) q = Some (op, c)" using that fresh by auto
    with old none show "map_of (entries (tl_originals (w_dispatch w')) k) q = Some (op, c) \<longleftrightarrow>
        map_of (tl_details (w_dispatch w')) c = Some \<lparr> bd_module = k, bd_pc = q, bd_opcode = op \<rparr>"
      unfolding d by auto
  qed
qed (use assms(1) in simp_all)

lemma clear_breakpoint_run:
  assumes "breaks_inv w" "map_of (tl_details (w_dispatch w)) c = Some bd"
  defines "pcs \<equiv> entries (tl_originals (w_dispatch w)) (bd_module bd)"
  defines "rest \<equiv> AList.delete (bd_pc bd) pcs"
  shows "clear_breakpoint c w = (Inr (), (snd (set_opcode (bd_module bd) (bd_pc bd) (bd_opcode bd) w))\<lparr> w_dispatch := (w_dispatch w)\<lparr>
    tl_originals := (if rest = [] then AList.delete (bd_module bd) (tl_originals (w_dispatch w))
       else AList.update (bd_module bd) rest (tl_originals (w_dispatch w))),
    tl_details := AList.delete c (tl_details (w_dispatch w)) \<rparr> \<rparr>)"
proof -
  note inv = breaks_inv_details [OF assms(1,2)]
  obtain md where md: "map_of (h_modules w) (bd_module bd) = Some md" using inv(2) by (rule code_opcode_Some)
  have pcs: "map_of (tl_originals (w_dispatch w)) (bd_module bd) = Some pcs"
    using inv(3) by (auto simp: pcs_def entries_def split: option.splits)
  have at: "opcode_at md (bd_pc bd) w = (Inr brkpt_opcode, w)" using opcode_at_run(1) [OF md, of "bd_pc bd" w] inv(2) by simp
  show ?thesis
    using inv(3) assms(2) pcs md at
    by (simp add: clear_breakpoint_def get_breakpoint_details_def tools_def set_tools_def ebind_run eseq_def module_at_def Let_def
      set_opcode_def pcs_def [symmetric] rest_def [symmetric])
qed

lemma clear_breakpoint_unknown:
  "map_of (tl_details (w_dispatch w)) c = None \<Longrightarrow> clear_breakpoint c w = (Inl (SystemException ''Unknown breakpoint cookie''), w)"
  by (simp add: clear_breakpoint_def get_breakpoint_details_def tools_def ebind_run)

lemma clear_breakpoint_tables:
  assumes "breaks_inv w" "map_of (tl_details (w_dispatch w)) c = Some bd" "clear_breakpoint c w = (r, w')"
  shows "tl_break_cookies (w_dispatch w') = tl_break_cookies (w_dispatch w)"
    "map_of (tl_details (w_dispatch w')) = (map_of (tl_details (w_dispatch w)))(c := None)"
    "map_of (entries (tl_originals (w_dispatch w')) k) = (if k = bd_module bd
       then (map_of (entries (tl_originals (w_dispatch w)) k))(bd_pc bd := None) else map_of (entries (tl_originals (w_dispatch w)) k))"
    "code_opcode w' k q = (if k = bd_module bd \<and> q = bd_pc bd then Some (bd_opcode bd) else code_opcode w k q)"
proof -
  let ?rest = "AList.delete (bd_pc bd) (entries (tl_originals (w_dispatch w)) (bd_module bd))"
  have e: "?rest = [] \<Longrightarrow> (map_of (entries (tl_originals (w_dispatch w)) (bd_module bd)))(bd_pc bd := None) = Map.empty"
    by (metis delete_conv' map_of.simps(1))
  note run = clear_breakpoint_run [OF assms(1,2)]
  show "tl_break_cookies (w_dispatch w') = tl_break_cookies (w_dispatch w)"
    "map_of (tl_details (w_dispatch w')) = (map_of (tl_details (w_dispatch w)))(c := None)"
    using assms(3) unfolding run by (auto simp: delete_conv')
  show "map_of (entries (tl_originals (w_dispatch w')) k) = (if k = bd_module bd
       then (map_of (entries (tl_originals (w_dispatch w)) k))(bd_pc bd := None) else map_of (entries (tl_originals (w_dispatch w)) k))"
    using assms(3) e unfolding run by (auto simp: entries_update entries_delete delete_conv')
  have "code_opcode w' k q = code_opcode (snd (set_opcode (bd_module bd) (bd_pc bd) (bd_opcode bd) w)) k q"
    using assms(3) unfolding run by (auto simp: code_opcode_def)
  then show "code_opcode w' k q = (if k = bd_module bd \<and> q = bd_pc bd then Some (bd_opcode bd) else code_opcode w k q)"
    unfolding code_opcode_set [OF breaks_inv_details(2) [OF assms(1,2)]] .
qed

lemma breaks_inv_clear:
  assumes "breaks_inv w" "clear_breakpoint c w = (r, w')"
  shows "breaks_inv w'"
proof (cases "map_of (tl_details (w_dispatch w)) c")
  case None
  with assms show ?thesis by (simp add: clear_breakpoint_unknown [OF None])
next
  case (Some bd)
  note t = clear_breakpoint_tables [OF assms(1) Some assms(2)]
  have iff: "map_of (entries (tl_originals (w_dispatch w)) k) q = Some (op, c') \<longleftrightarrow>
        map_of (tl_details (w_dispatch w)) c' = Some \<lparr> bd_module = k, bd_pc = q, bd_opcode = op \<rparr>" for k q op c'
    using assms(1) unfolding breaks_inv_def by blast
  have other: "\<not> (bd_module bd' = bd_module bd \<and> bd_pc bd' = bd_pc bd)" if "map_of (tl_details (w_dispatch w)) c' = Some bd'" "c' \<noteq> c" for c' bd'
    using breaks_inv_details(3) [OF assms(1) that(1)] breaks_inv_details(3) [OF assms(1) Some] that(2) by auto
  show ?thesis
    unfolding breaks_inv_def
  proof (intro conjI allI impI)
    fix c' bd' assume c': "map_of (tl_details (w_dispatch w')) c' = Some bd'"
    then have old: "map_of (tl_details (w_dispatch w)) c' = Some bd'" "c' \<noteq> c" unfolding t by (auto split: if_splits)
    show "c' < tl_break_cookies (w_dispatch w')" "code_opcode w' (bd_module bd') (bd_pc bd') = Some brkpt_opcode"
      using breaks_inv_details(1,2) [OF assms(1) old(1)] other [OF old] unfolding t by auto
  next
    fix k q op c'
    show "map_of (entries (tl_originals (w_dispatch w')) k) q = Some (op, c') \<longleftrightarrow>
        map_of (tl_details (w_dispatch w')) c' = Some \<lparr> bd_module = k, bd_pc = q, bd_opcode = op \<rparr>"
      using iff [of k q op c'] iff [of "bd_module bd" "bd_pc bd" "bd_opcode bd" c] Some other [of c' "\<lparr> bd_module = k, bd_pc = q, bd_opcode = op \<rparr>"]
      unfolding t by (cases bd) (auto split: if_splits)
  qed
qed

section \<open>Runs of tools\<close>

inductive tool_step :: "'z world_scheme \<Rightarrow> 'z world_scheme \<Rightarrow> bool" where
  set: "set_breakpoint module pc w = (r, w') \<Longrightarrow> tool_step w w'"
| clear: "clear_breakpoint c w = (r, w') \<Longrightarrow> tool_step w w'"
| other: "tl_details (w_dispatch w') = tl_details (w_dispatch w) \<Longrightarrow> tl_originals (w_dispatch w') = tl_originals (w_dispatch w) \<Longrightarrow>
    tl_break_cookies (w_dispatch w') = tl_break_cookies (w_dispatch w) \<Longrightarrow>
    (\<And>m md. map_of (h_modules w) m = Some md \<Longrightarrow> map_of (h_modules w') m = Some md) \<Longrightarrow> tool_step w w'"

lemma breaks_inv_step: "tool_step w w' \<Longrightarrow> breaks_inv w \<Longrightarrow> breaks_inv w'"
proof (induction rule: tool_step.induct)
  case (other w' w)
  have "code_opcode w' m pc = Some x" if "code_opcode w m pc = Some x" for m pc x
    using that other(4) by (auto simp: code_opcode_def split: option.splits if_splits instruction.splits)
  with other(1-3,5) show ?case unfolding breaks_inv_def by simp
qed (auto intro: breaks_inv_set breaks_inv_clear)

lemma breaks_inv_run: "rtranclp tool_step w w' \<Longrightarrow> breaks_inv w \<Longrightarrow> breaks_inv w'"
  by (induction rule: rtranclp_induct) (auto intro: breaks_inv_step)

lemma breaks_inv_create: "breaks_inv (snd (create_dispatch w))"
  by (simp add: breaks_inv_def create_dispatch_def set_tools_def entries_def)

section \<open>A world with a tool\<close>

definition traced_cpu :: cpu where
  "traced_cpu = (sample_cpu move_add_exit)\<lparr> c_regs := sample_regs\<lparr> r_tool_dispatch := True, r_pc := 1 \<rparr> \<rparr>"

definition halted_cpu :: cpu where "halted_cpu = snd (set_breakpoint (Some 0) 1 traced_cpu)"

lemma traced_module: "map_of (h_modules traced_cpu) 0 = Some (sample_module move_add_exit)"
  by (simp add: traced_cpu_def sample_cpu_def)

lemma traced_opcode: "code_opcode traced_cpu 0 1 = Some 58"
  by (simp add: code_opcode_def traced_module) (simp add: sample_module_def move_add_exit_def binary_inst_def)

lemma traced_inv: "breaks_inv traced_cpu"
  by (simp add: breaks_inv_def traced_cpu_def sample_cpu_def no_tools_def entries_def)

lemma traced_set: "set_breakpoint (Some 0) 1 traced_cpu = (Inr 1, halted_cpu)"
proof -
  have "fst (set_breakpoint (Some 0) 1 traced_cpu) = Inr 1"
    by (simp add: set_breakpoint_def module_at_def traced_module ebind_run eseq_def opcode_at_def)
      (simp add: sample_module_def sample_header_def move_add_exit_def binary_inst_def has_flag_def brkpt_opcode_def last_opcode_def
        tools_def set_tools_def set_opcode_def ebind_run traced_cpu_def sample_cpu_def no_tools_def entries_def)
  then show ?thesis by (simp add: halted_cpu_def prod_eq_iff)
qed

section \<open>Properties\<close>

text \<open>
  C4: Breakpoints are consistent. Whatever breakpoints tools set and clear, on any module and
  program counter and with whatever outcome, and whatever the VM does in between that leaves the
  code alone: each breakpoint is recorded once under its cookie and once under its module and
  program counter, with the same original opcode, cookies are never used twice, and the code
  holds the breakpoint opcode there.
\<close>

theorem breakpoints_consistent:
  assumes "create_dispatch w0 = (Inr (), w)" "rtranclp tool_step w w'"
  shows "breaks_inv w'"
proof -
  have "w = snd (create_dispatch w0)" using assms(1) by simp
  with assms(2) breaks_inv_create show ?thesis by (blast intro: breaks_inv_run)
qed

theorem breakpoints_consistent_witness: "breaks_inv (snd (set_breakpoint (Some 0) 1 (snd (create_dispatch traced_cpu))))"
proof -
  let ?w = "snd (create_dispatch traced_cpu)"
  obtain r w' where "set_breakpoint (Some 0) 1 ?w = (r, w')" by (rule prod.exhaust)
  moreover from this have "rtranclp tool_step ?w w'" by (blast intro: tool_step.set)
  moreover have "create_dispatch traced_cpu = (Inr (), ?w)" by (simp add: create_dispatch_def set_tools_def)
  ultimately show ?thesis using breakpoints_consistent [of traced_cpu ?w w'] by simp
qed

text \<open>
  C17: Clearing a breakpoint undoes setting it. A new breakpoint on an instruction that is not
  one itself can be cleared at once by the cookie that was returned, which never fails an
  assertion; the code of all modules is then what it was and so are both tables.
\<close>

theorem breakpoint_roundtrip:
  assumes "breaks_inv w" "set_breakpoint (Some m) pc w = (Inr c, w1)" "code_opcode w m pc \<noteq> Some brkpt_opcode"
  shows "\<exists>w2. clear_breakpoint c w1 = (Inr (), w2) \<and> h_modules w2 = h_modules w \<and>
    map_of (tl_details (w_dispatch w2)) = map_of (tl_details (w_dispatch w)) \<and>
    (\<forall>k. map_of (entries (tl_originals (w_dispatch w2)) k) = map_of (entries (tl_originals (w_dispatch w)) k))"
proof -
  let ?c = "tl_break_cookies (w_dispatch w)"
  from assms(2,3) obtain x where x: "code_opcode w m pc = Some x" "c = ?c"
    and w1: "w1 = snd (set_opcode m pc brkpt_opcode (w\<lparr> w_dispatch := (w_dispatch w)\<lparr> tl_break_cookies := ?c + 1,
         tl_details := AList.update ?c \<lparr> bd_module = m, bd_pc = pc, bd_opcode = x \<rparr> (tl_details (w_dispatch w)),
         tl_originals := AList.update m (AList.update pc (x, ?c) (entries (tl_originals (w_dispatch w)) m))
           (tl_originals (w_dispatch w)) \<rparr> \<rparr>))"
    by (elim set_breakpoint_cases) auto
  have inv1: "breaks_inv w1" using breaks_inv_set [OF assms(1,2)] .
  let ?bd = "\<lparr> bd_module = m, bd_pc = pc, bd_opcode = x \<rparr>"
  have c: "map_of (tl_details (w_dispatch w1)) c = Some ?bd" unfolding w1 set_opcode_dispatch x(2) by (simp add: update_conv')
  obtain r w2 where clear: "clear_breakpoint c w1 = (r, w2)" by (rule prod.exhaust)
  note run = clear_breakpoint_run [OF inv1 c] and tables = clear_breakpoint_tables [OF inv1 c clear]
  have none: "map_of (tl_details (w_dispatch w)) ?c = None"
    using breaks_inv_details(1) [OF assms(1), of ?c] by (cases "map_of (tl_details (w_dispatch w)) ?c") auto
  have none': "map_of (entries (tl_originals (w_dispatch w)) m) pc = None"
  proof (cases "map_of (entries (tl_originals (w_dispatch w)) m) pc")
    case (Some y)
    then obtain op c' where "map_of (entries (tl_originals (w_dispatch w)) m) pc = Some (op, c')" by (cases y) auto
    with assms(1) have "map_of (tl_details (w_dispatch w)) c' = Some \<lparr> bd_module = m, bd_pc = pc, bd_opcode = op \<rparr>"
      unfolding breaks_inv_def by blast
    from breaks_inv_details(2) [OF assms(1) this] assms(3) show ?thesis by simp
  qed simp
  have "h_modules w2 = h_modules (snd (set_opcode m pc x (snd (set_opcode m pc brkpt_opcode w))))"
  proof -
    have "h_modules w2 = h_modules (snd (set_opcode m pc x w1))" using clear run by (auto simp: set_opcode_def)
    then show ?thesis unfolding w1 by (simp add: set_opcode_def)
  qed
  then have modules: "h_modules w2 = h_modules w" using set_opcode_twice [OF x(1)] by simp
  have d: "map_of (tl_details (w_dispatch w2)) = map_of (tl_details (w_dispatch w))"
    unfolding tables w1 set_opcode_dispatch x(2) using none by (simp add: update_conv' fun_upd_idem)
  have o': "map_of (entries (tl_originals (w_dispatch w2)) k) = map_of (entries (tl_originals (w_dispatch w)) k)" for k
    unfolding tables w1 set_opcode_dispatch using none' by (simp add: entries_update update_conv' fun_upd_idem)
  have "r = Inr ()" using clear unfolding run by simp
  with clear modules d o' show ?thesis by blast
qed

theorem breakpoint_roundtrip_witness:
  "\<exists>w2. clear_breakpoint 1 halted_cpu = (Inr (), w2) \<and> h_modules w2 = h_modules traced_cpu \<and>
    map_of (tl_details (w_dispatch w2)) = map_of (tl_details (w_dispatch traced_cpu)) \<and>
    (\<forall>k. map_of (entries (tl_originals (w_dispatch w2)) k) = map_of (entries (tl_originals (w_dispatch traced_cpu)) k))"
  by (rule breakpoint_roundtrip [OF traced_inv traced_set]) (simp add: traced_opcode brkpt_opcode_def last_opcode_def)

text \<open>
  C20: A breakpoint is transparent. A thread with a tool that runs into a breakpoint tells the
  subscribers of the breakpoint its cookie and then executes the instruction that was there, as
  it would have without the breakpoint.
\<close>

theorem breakpoint_transparent:
  assumes "breaks_inv w" "map_of (tl_details (w_dispatch w)) c = Some bd" "bd_opcode bd < brkpt_opcode"
    and "r_tool_dispatch (c_regs w)" "r_pc (c_regs w) = bd_pc bd" "module_ref_at (r_module_ref (c_regs w)) w = (Inr mr, w)"
    and "mr_module mr = bd_module bd" "module_at (bd_module bd) w = (Inr md, w)" "\<not> has_flag (hd_runtime_flag (m_header md)) builtin_flag"
  shows "brkpt (with_tools n H E) w =
    eseq (fire_event_callbacks H BreakpointHit (RegistersValue, CookieValue c, NoValue)) (exec_table (with_tools n H E) ! bd_opcode bd) w"
proof -
  have "get_original_opcode_and_cookie w = (Inr (bd_opcode bd, c), w)"
    using assms(4-) breaks_inv_details(3) [OF assms(1,2)]
    by (simp add: get_original_opcode_and_cookie_def ebind_run reg_def tools_def)
  then have "e_tool (with_tools n H E) ToolBreakpoint w =
      (case fire_event_callbacks H BreakpointHit (RegistersValue, CookieValue c, NoValue) w of
         (Inl e, w') \<Rightarrow> (Inl e, w') | (Inr u, w') \<Rightarrow> (Inr (bd_opcode bd), w'))"
    by (simp add: with_tools_def dispatch_event_def on_breakpoint_def ebind_run eseq_def split: prod.split sum.split)
  moreover have "(exec_table_low E' @ exec_table_high brk E') ! bd_opcode bd = exec_table E' ! bd_opcode bd" for E' brk
    using assms(3) by (simp add: exec_table_def exec_table_low_def exec_table_high_def nth_append brkpt_opcode_def last_opcode_def nth_Cons')
  ultimately show ?thesis
    using assms(3,4) by (simp add: brkpt_def ebind_run reg_def eseq_def brkpt_opcode_def split: prod.split sum.split)
qed

lemma halted_run: "halted_cpu = snd (set_opcode 0 1 brkpt_opcode (traced_cpu\<lparr> w_dispatch := no_tools\<lparr> tl_break_cookies := 2,
    tl_details := [(1, \<lparr> bd_module = 0, bd_pc = 1, bd_opcode = 58 \<rparr>)], tl_originals := [(0, [(1, 58, 1)])] \<rparr> \<rparr>))"
  using traced_set
proof (rule set_breakpoint_cases)
  fix m x
  assume "Some 0 = Some m" "code_opcode traced_cpu m 1 = Some x"
    "halted_cpu = snd (set_opcode m 1 brkpt_opcode (traced_cpu\<lparr> w_dispatch := (w_dispatch traced_cpu)\<lparr> tl_break_cookies := tl_break_cookies (w_dispatch traced_cpu) + 1,
         tl_details := AList.update (tl_break_cookies (w_dispatch traced_cpu)) \<lparr> bd_module = m, bd_pc = 1, bd_opcode = x \<rparr> (tl_details (w_dispatch traced_cpu)),
         tl_originals := AList.update m (AList.update 1 (x, tl_break_cookies (w_dispatch traced_cpu)) (entries (tl_originals (w_dispatch traced_cpu)) m))
           (tl_originals (w_dispatch traced_cpu)) \<rparr> \<rparr>))"
  then show ?thesis by (simp add: traced_opcode) (simp add: traced_cpu_def sample_cpu_def no_tools_def entries_def numeral_2_eq_2)
qed (auto simp: traced_opcode brkpt_opcode_def last_opcode_def)

definition quiet_host :: tool_host where
  "quiet_host = \<lparr> th_on_load = (\<lambda>tool tool_id. eret ()), th_on_unload = (\<lambda>tool. eret ()), th_call = (\<lambda>c ev cxt. eret ()), th_wait = eret () \<rparr>"

theorem breakpoint_transparent_witness:
  "brkpt (with_tools 0 quiet_host idle_env) halted_cpu =
    eseq (fire_event_callbacks quiet_host BreakpointHit (RegistersValue, CookieValue 1, NoValue)) (exec_table (with_tools 0 quiet_host idle_env) ! 58) halted_cpu"
proof -
  have regs: "c_regs halted_cpu = c_regs traced_cpu" "h_objs halted_cpu = h_objs traced_cpu"
    unfolding halted_run by (simp_all add: set_opcode_def)
  have m: "map_of (h_modules halted_cpu) 0 = Some ((sample_module move_add_exit)\<lparr> m_code_section :=
      (m_code_section (sample_module move_add_exit))[1 := Exec (binary_inst 58 (op_imm 5) (op_fp 24)\<lparr> in_opcode := brkpt_opcode \<rparr>)] \<rparr>)" (is "_ = Some ?md")
    unfolding halted_run by (simp add: set_opcode_def map_of_map_entry traced_module) (simp add: sample_module_def move_add_exit_def)
  have "breaks_inv halted_cpu" using breaks_inv_set [OF traced_inv traced_set] .
  moreover have "map_of (tl_details (w_dispatch halted_cpu)) 1 = Some \<lparr> bd_module = 0, bd_pc = 1, bd_opcode = 58 \<rparr>"
    unfolding halted_run set_opcode_dispatch by simp
  moreover have "module_ref_at (r_module_ref (c_regs halted_cpu)) halted_cpu =
      (Inr \<lparr> mr_module = 0, mr_mp_base = 0, mr_builtin = False, mr_function_refs = None \<rparr>, halted_cpu)"
    unfolding module_ref_at_def obj_at_def ebind_run regs by (simp add: traced_cpu_def sample_cpu_def sample_regs_def)
  moreover have "module_at 0 halted_cpu = (Inr ?md, halted_cpu)" unfolding module_at_def m by simp
  moreover have "r_tool_dispatch (c_regs halted_cpu)" "r_pc (c_regs halted_cpu) = 1" unfolding regs by (simp_all add: traced_cpu_def)
  ultimately show ?thesis
    using breakpoint_transparent [of halted_cpu 1 "\<lparr> bd_module = 0, bd_pc = 1, bd_opcode = 58 \<rparr>" "\<lparr> mr_module = 0, mr_mp_base = 0, mr_builtin = False, mr_function_refs = None \<rparr>" ?md 0 quiet_host idle_env]
    by (simp add: brkpt_opcode_def last_opcode_def sample_module_def sample_header_def has_flag_def)
qed

section \<open>The heap invariant\<close>

lemma heap_inv_tools [keeps_intros]: "keeps heap_inv (tools f)" "keeps heap_inv (set_tools g)" "keeps heap_inv (set_opcode m pc x)"
  by (simp_all add: keeps_def tools_def set_tools_def set_opcode_def heap_inv_def)

definition host_keeps :: "(cpu \<Rightarrow> bool) \<Rightarrow> tool_host \<Rightarrow> bool" where
  "host_keeps I H \<longleftrightarrow> (\<forall>c ev cxt. keeps I (th_call H c ev cxt)) \<and> keeps I (th_wait H)"

lemma heap_inv_events:
  assumes "host_keeps heap_inv H"
  shows "keeps heap_inv (fire_event_callbacks H ev cxt)" "keeps heap_inv (wait_resumed n H)"
proof -
  show "keeps heap_inv (fire_event_callbacks H ev cxt)"
    using assms unfolding fire_event_callbacks_def host_keeps_def by (intro keeps_intros) blast
  show "keeps heap_inv (wait_resumed n H)"
    using assms by (induction n) (simp_all only: wait_resumed.simps host_keeps_def, (intro keeps_intros | blast)+)
qed

lemma heap_inv_dispatch_event:
  assumes "host_keeps heap_inv H"
  shows "keeps heap_inv (dispatch_event n H ev)"
  unfolding dispatch_event_def Let_def on_trap_def on_breakpoint_def on_exception_raised_def on_exception_unhandled_def
    on_module_vm_load_def on_module_thread_load_def on_thread_begin_def on_thread_end_def on_thread_broken_def
    block_if_thread_suspended_def get_original_opcode_and_cookie_def
  by (cases ev) (simp_all only: tool_event.case, (intro keeps_intros heap_inv_events assms)+)

lemma env_keeps_with_tools: "env_keeps heap_inv E \<Longrightarrow> host_keeps heap_inv H \<Longrightarrow> env_keeps heap_inv (with_tools n H E)"
  by (simp add: env_keeps_def with_tools_def heap_inv_dispatch_event)

end
