(* ===== verification/VmSpec.thy ===== *)
theory VmSpec
  imports VmCore ToolSpec ModuleReaderInv
begin

text \<open>
  The message of the last system call stays within its buffer; a path is loaded once; and the
  machine with the tools, the loader and the resolvers of the source in place of the parameters
  of the interpreter keeps the heap invariant.
\<close>

section \<open>The message buffer\<close>

lemma c_string_prefix: "0 \<notin> set bs \<Longrightarrow> c_string (bs @ 0 # cs) = bs"
  unfolding c_string_def by (induction bs) auto

lemma c_string_nonzero: "0 \<notin> set (c_string bs)"
  unfolding c_string_def by (induction bs) auto

lemma push_syscall_run:
  assumes "length (w_syscall_error w) = error_message_size"
  shows "\<exists>w1. push_syscall_error_message msg w = (Inr (), w1) \<and> length (w_syscall_error w1) = error_message_size \<and>
    c_string (w_syscall_error w1) = take 127 (c_string msg)"
proof -
  have "0 \<notin> set (take 127 (c_string msg))" using c_string_nonzero in_set_takeD by fast
  moreover have "0 \<notin> set (c_string msg)" by (rule c_string_nonzero)
  ultimately show ?thesis using assms
    by (simp add: push_syscall_error_message_def Let_def error_message_size_def min_def c_string_prefix)
qed

text \<open>
  The message of the last failed system call never leaves its buffer of 128 bytes. Pushing a
  message of any length, then taking it out, gives its first 127 bytes, and what is left in the
  buffer is an empty message.
\<close>

theorem syscall_message_bounded:
  assumes "length (w_syscall_error w) = error_message_size"
  shows "\<exists>w1 w2. push_syscall_error_message msg w = (Inr (), w1) \<and> length (w_syscall_error w1) = error_message_size \<and>
    pop_syscall_error_message w1 = (Inr (take 127 (c_string msg)), w2) \<and> length (w_syscall_error w2) = error_message_size \<and>
    fst (pop_syscall_error_message w2) = Inr []"
proof -
  obtain w1 where w1: "push_syscall_error_message msg w = (Inr (), w1)" "length (w_syscall_error w1) = error_message_size"
    "c_string (w_syscall_error w1) = take 127 (c_string msg)" using push_syscall_run [OF assms] by blast
  obtain b bs where "w_syscall_error w1 = b # bs" using w1(2) by (cases "w_syscall_error w1") (auto simp: error_message_size_def)
  then have "c_string ((w_syscall_error w1)[0 := 0]) = []" by (simp add: c_string_def)
  with w1 show ?thesis by (auto simp: pop_syscall_error_message_def ebind_run)
qed

theorem syscall_message_bounded_witness:
  "\<exists>w1 w2. push_syscall_error_message (replicate 300 65) (sample_cpu []) = (Inr (), w1) \<and> length (w_syscall_error w1) = error_message_size \<and>
    pop_syscall_error_message w1 = (Inr (take 127 (c_string (replicate 300 65))), w2) \<and> length (w_syscall_error w2) = error_message_size \<and>
    fst (pop_syscall_error_message w2) = Inr []"
  by (rule syscall_message_bounded) (simp add: sample_cpu_def error_message_size_def)

section \<open>Paths\<close>

definition plain_path :: "byte_t list \<Rightarrow> bool" where
  "plain_path p \<longleftrightarrow> p \<noteq> [] \<and> list_all (\<lambda>b. b \<noteq> 0 \<and> b < 0x80) p \<and> small (int (length p))"

lemma result_rules:
  "(\<And>x. P (k x)) \<Longrightarrow> (\<And>e. P (Inl e)) \<Longrightarrow> P (rbind m k)" "(b \<Longrightarrow> P x) \<Longrightarrow> (\<not> b \<Longrightarrow> P y) \<Longrightarrow> P (if b then x else y)"
  "(\<And>a b. P (g a b)) \<Longrightarrow> P (case z of (a, b) \<Rightarrow> g a b)"
  by (cases m) (auto split: prod.split)

lemma string_of_utf8_encoding:
  assumes "string_of_utf8 e = Inr s"
  shows "encoded_str s = NoEncoding"
proof -
  define P :: "vm_string res \<Rightarrow> bool" where "P y = (case y of Inl _ \<Rightarrow> True | Inr s \<Rightarrow> encoded_str s = NoEncoding)" for y
  have "P (string_of_utf8 e)"
    unfolding string_of_utf8_def Let_def require_def by (intro result_rules [where P = P]) (simp_all add: P_def)
  with assms show ?thesis by (simp add: P_def)
qed

lemma path_string:
  assumes "plain_path p"
  shows "\<exists>s s'. string_of_utf8 p = Inr s \<and> str s = Inr s' \<and> c_string (str_bytes s') = p"
proof -
  let ?rs = "map ucast p :: rune_t list"
  have b: "unat b < 128 \<and> b \<noteq> 0" if "b \<in> set p" for b using assms that by (auto simp: plain_path_def list_all_iff word_less_nat_alt)
  have r: "unat (ucast b :: rune_t) = unat (b :: byte_t)" for b using unat_byte [of b] by (simp add: unat_ucast_small)
  have sc: "list_all (\<lambda>r. scalar r \<and> r \<noteq> 0) ?rs"
    unfolding list_all_iff
  proof (intro ballI)
    fix x assume "x \<in> set ?rs"
    then obtain y where y: "x = ucast y" "y \<in> set p" by auto
    from b [OF y(2)] have "unat x < 128" "unat x \<noteq> 0" by (simp_all add: y(1) r unat_eq_0)
    then show "scalar x \<and> x \<noteq> 0" by (auto simp: scalar_def word_le_nat_alt word_less_nat_alt)
  qed
  have enc: "encode_all ?rs = Inr p"
    by (rule encode_all_ascii) (auto simp: list_all_iff max_codepoint_ascii_def word_le_nat_alt r dest!: b)
  have "?rs \<noteq> []" "small (int (length p))" using assms by (simp_all add: plain_path_def)
  from string_of_utf8_valid [OF sc enc this]
  obtain s where s: "string_of_utf8 p = Inr s" "runes s = ?rs" "str_inv s" "cap_inv s" by auto
  have n: "encoded_str s = NoEncoding" using s(1) by (rule string_of_utf8_encoding)
  have len: "str_length s = int (length p)"
  proof -
    have "length (runes s) = nat (str_length s)" using s(3) by (simp add: runes_def str_inv_def)
    with s(2,3) show ?thesis by (simp add: str_inv_def)
  qed
  obtain s' where s': "str s = Inr s'" "take (length p + 1) (str_bytes s') = p @ [0]"
    using str_encodes [OF s(3,4) n] len assms enc s(2) unfolding plain_path_def by auto
  have "str_bytes s' = p @ 0 # drop (length p + 1) (str_bytes s')"
    using append_take_drop_id [of "length p + 1" "str_bytes s'"] unfolding s'(2) by simp
  moreover have "0 \<notin> set p" using b by blast
  ultimately have "c_string (str_bytes s') = p" using c_string_prefix by metis
  with s s' show ?thesis by blast
qed

section \<open>A path is loaded once\<close>

lemma find_loaded_any: "find_loaded p ls s = (r, s1) \<Longrightarrow> s1 = s \<and> find_loaded p ls t = (r, t)"
proof (induction ls arbitrary: r s1)
  case (Cons l ls)
  show ?case
  proof (cases "str (lm_origin l)")
    case (Inr o')
    with Cons.prems Cons.IH [of r s1] show ?thesis by (auto simp: ebind_run split: if_splits)
  qed (use Cons.prems in \<open>auto simp: ebind_run\<close>)
qed simp

lemma find_loaded_replace:
  "find_loaded p ls s = (Inr (Some l), s1) \<Longrightarrow>
   find_loaded p (map (\<lambda>x. if x = l then x\<lparr> lm_module := k \<rparr> else x) ls) s = (Inr (Some (l\<lparr> lm_module := k \<rparr>)), s)"
proof (induction ls)
  case (Cons x ls)
  from Cons.prems obtain v where v: "str (lm_origin x) = Inr v" by (auto simp: ebind_run split: sum.splits)
  show ?case
  proof (cases "c_string (str_bytes v) = p")
    case True
    with Cons.prems v show ?thesis by (simp add: ebind_run)
  next
    case False
    with Cons.prems v have "find_loaded p ls s = (Inr (Some l), s1)" by (simp add: ebind_run)
    with Cons.IH False v show ?thesis by (auto simp: ebind_run)
  qed
qed simp

lemma find_builtin_run: "find_builtin name ms w = (Inr key, w') \<Longrightarrow> w' = w \<and> map_of (h_modules w) key \<noteq> None"
proof (induction ms)
  case (Cons m ms)
  show ?case
  proof (cases "map_of (h_modules w) m")
    case (Some md)
    note m = this
    show ?thesis
    proof (cases "m_module_name md")
      case None
      with Cons.prems m show ?thesis by (simp add: module_has_name_def module_at_def ebind_run)
    next
      case (Some v)
      with Cons m show ?thesis
        by (cases "str v") (auto simp: module_has_name_def module_at_def ebind_run split: if_splits)
    qed
  qed (use Cons.prems in \<open>simp add: module_has_name_def module_at_def ebind_run\<close>)
qed simp

definition loaded_state :: "loaded_vm_module list \<Rightarrow> bool \<Rightarrow> 'z world_scheme \<Rightarrow> bool" where
  "loaded_state ms b w \<longleftrightarrow> w_modules w = ms \<and> w_tool_attached w = b"

definition quiet_resolver :: "'z resolver \<Rightarrow> bool" where
  "quiet_resolver r \<longleftrightarrow> (\<forall>p ms b. keeps (loaded_state ms b) (r p))"

lemma keeps_no_throw [keeps_intros]: "keeps I m \<Longrightarrow> keeps I (no_throw m)"
  unfolding no_throw_def by (intro keeps_intros)

lemma keeps_first_resolved: "(\<And>r. r \<in> set rs \<Longrightarrow> keeps I (r p)) \<Longrightarrow> keeps I (first_resolved rs p)"
  by (induction rs) (simp_all only: first_resolved.simps list.set insert_iff, (intro keeps_intros | simp)+)

lemma keeps_resolve:
  assumes "\<And>r p. r \<in> set rs \<Longrightarrow> keeps I (r p)"
  shows "keeps I (resolve_module_from_path p rs)"
  unfolding resolve_module_from_path_def Let_def
  by (intro keeps_intros keeps_first_resolved) (use assms in \<open>auto intro: keeps_intros\<close>)

lemma load_entry:
  assumes "plain_path p" "\<forall>r\<in>set rs. quiet_resolver r" "\<not> w_tool_attached w"
    and "load_module E rs (Some p) w = (Inr k, w1)"
  shows "\<exists>l. find_loaded p (w_modules w1) w1 = (Inr (Some l), w1) \<and> lm_module l = k \<and> map_of (h_modules w1) k \<noteq> None"
proof -
  obtain r0 s0 where f0: "find_loaded p (w_modules w) w = (r0, s0)" by (rule prod.exhaust)
  have s0: "s0 = w" using find_loaded_any [OF f0, of w] by simp
  have quiet: "loaded_state (w_modules w) False w2" if "resolve_module_from_path p rs w = (x, w2)" for x w2
  proof -
    have "keeps (loaded_state (w_modules w) False) (resolve_module_from_path p rs)"
      using assms(2) by (intro keeps_resolve) (simp add: quiet_resolver_def)
    moreover have "loaded_state (w_modules w) False w" using assms(3) by (simp add: loaded_state_def)
    ultimately show ?thesis using that unfolding keeps_def by force
  qed
  from assms(4) f0 s0 consider (old) l where "r0 = Inr (Some l)" "reload_module rs p l w = (Inr k, w1)"
    | (new) vm_id w2 where "r0 = Inr None" "load_new_module rs p w = (Inr (k, vm_id), w2)" "w1 = w2 \<or> w_tool_attached w2"
    by (auto simp: load_module_def ebind_run eseq_def when_do_def split: sum.splits option.splits prod.splits if_splits)
  then show ?thesis
  proof cases
    case old
    show ?thesis
    proof (cases "map_of (h_modules w) (lm_module l) \<noteq> None")
      case True
      with old(2) have "k = lm_module l" "w1 = w" by (auto simp: reload_module_def ebind_run)
      with True f0 s0 old(1) show ?thesis by auto
    next
      case False
      with old(2) obtain md w2 where r: "resolve_module_from_path p rs w = (Inr md, w2)" and k: "k = w_next_module w2"
        and w1: "w1 = w2\<lparr> w_next_module := k + 1, h_modules := (k, md\<lparr> m_vm_id := lm_vm_id l \<rparr>) # h_modules w2,
           w_modules := map (\<lambda>x. if x = l then x\<lparr> lm_module := k \<rparr> else x) (w_modules w2) \<rparr>"
        by (auto simp: reload_module_def ebind_run eseq_def adopt_module_def split: sum.splits prod.splits)
      have "w_modules w2 = w_modules w" using quiet [OF r] by (simp add: loaded_state_def)
      with find_loaded_replace [of p "w_modules w" w l w k] f0 s0 old(1)
      have "find_loaded p (w_modules w1) w = (Inr (Some (l\<lparr> lm_module := k \<rparr>)), w)" by (simp add: w1)
      from find_loaded_any [OF this, of w1] show ?thesis by (auto simp: w1)
    qed
  next
    case new
    obtain s s' where s: "string_of_utf8 p = Inr s" "str s = Inr s'" "c_string (str_bytes s') = p" using path_string [OF assms(1)] by blast
    have front: "find_loaded p (\<lparr> lm_vm_id = i, lm_origin = s, lm_module = k \<rparr> # ls) t = (Inr (Some \<lparr> lm_vm_id = i, lm_origin = s, lm_module = k \<rparr>), t)" for i ls t
      using s by (simp add: ebind_run)
    have "w_modules w2 = \<lparr> lm_vm_id = vm_id, lm_origin = s, lm_module = k \<rparr> # w_modules w \<and> \<not> w_tool_attached w2 \<and> map_of (h_modules w2) k \<noteq> None"
    proof (cases "p ! 0 = builtin_prefix")
      case True
      with new(2) assms(1) s(1) obtain w3 where "find_builtin p (w_builtins w) w = (Inr k, w3)"
        and w2: "w2 = w3\<lparr> h_modules := AList.map_entry k (\<lambda>md. md\<lparr> m_vm_id := vm_id \<rparr>) (h_modules w3),
           w_modules := \<lparr> lm_vm_id = vm_id, lm_origin = s, lm_module = k \<rparr> # w_modules w3 \<rparr>"
        by (auto simp: load_new_module_def get_builtin_module_def ebind_run eseq_def set_vm_id_def or_else_do_def catch_def plain_path_def
          split: sum.splits prod.splits)
      from find_builtin_run [OF this(1)] assms(3) show ?thesis by (auto simp: w2 map_of_map_entry)
    next
      case False
      with new(2) assms(1) s(1) obtain md w3 where r: "resolve_module_from_path p rs w = (Inr md, w3)" and k: "k = w_next_module w3"
        and w2: "w2 = w3\<lparr> w_next_module := k + 1, h_modules := AList.map_entry k (\<lambda>md. md\<lparr> m_vm_id := vm_id \<rparr>) ((k, md) # h_modules w3),
           w_modules := \<lparr> lm_vm_id = vm_id, lm_origin = s, lm_module = k \<rparr> # w_modules w3 \<rparr>"
        by (auto simp: load_new_module_def ebind_run eseq_def set_vm_id_def adopt_module_def or_else_do_def catch_def plain_path_def
          split: sum.splits prod.splits)
      from quiet [OF r] show ?thesis by (simp add: w2 loaded_state_def)
    qed
    with new(3) have "w1 = w2" "w_modules w1 = \<lparr> lm_vm_id = vm_id, lm_origin = s, lm_module = k \<rparr> # w_modules w" "map_of (h_modules w1) k \<noteq> None"
      by auto
    with front [of vm_id "w_modules w" w1] show ?thesis by (auto simp del: find_loaded.simps)
  qed
qed

text \<open>
  C16: A path is loaded once. When a module has been loaded from a path, loading the path again
  gives the same module and changes nothing, whatever the file system holds by then, as long as
  the module is in use; also for built-in modules and for a module that was read again because
  nobody had used it any more.
\<close>

theorem load_module_once:
  assumes "plain_path p" "\<forall>r\<in>set rs. quiet_resolver r" "\<not> w_tool_attached w"
    and "load_module E rs (Some p) w = (Inr k, w1)"
  shows "load_module E' rs' (Some p) w1 = (Inr k, w1)"
proof -
  obtain l where "find_loaded p (w_modules w1) w1 = (Inr (Some l), w1)" "lm_module l = k" "map_of (h_modules w1) k \<noteq> None"
    using load_entry [OF assms] by blast
  then show ?thesis by (auto simp: load_module_def reload_module_def ebind_run)
qed

definition one_module :: "unit cpu_ext resolver" where
  "one_module p = eret (Some (sample_module move_add_exit))"

lemma load_one_module: "fst (load_module idle_env [one_module] (Some [0x61]) (sample_cpu [])) = Inr 1"
proof -
  have "plain_path [0x61]" by (simp add: plain_path_def small_def)
  then obtain s where s: "string_of_utf8 [0x61] = Inr s" using path_string by blast
  show ?thesis
    by (simp add: load_module_def ebind_run eseq_def sample_cpu_def load_new_module_def builtin_prefix_def resolve_module_from_path_def
      same_prefix_def inferno_root_path_def sizeof_pointer_def one_module_def or_else_do_def catch_def s adopt_module_def set_vm_id_def
      split: prod.split sum.split)
qed

theorem load_module_once_witness:
  "load_module idle_env [] (Some [0x61]) (snd (load_module idle_env [one_module] (Some [0x61]) (sample_cpu []))) =
     (Inr 1, snd (load_module idle_env [one_module] (Some [0x61]) (sample_cpu [])))"
proof (rule load_module_once)
  show "plain_path [0x61]" by (simp add: plain_path_def small_def)
  show "\<forall>r\<in>set [one_module]. quiet_resolver r" by (simp add: quiet_resolver_def one_module_def keeps_basic)
  show "\<not> w_tool_attached (sample_cpu [])" by (simp add: sample_cpu_def)
  show "load_module idle_env [one_module] (Some [0x61]) (sample_cpu []) =
     (Inr 1, snd (load_module idle_env [one_module] (Some [0x61]) (sample_cpu [])))"
    using load_one_module by (simp add: prod_eq_iff)
qed

text \<open>
  A path that only begins like the root of the Inferno OS is taken for one: the comparison is as
  long as a pointer, so that of a file below \<^verbatim>\<open>/disk\<close> the last component is looked up first.
\<close>

lemma resolves_inferno_prefix:
  assumes "r (map of_char ''m.dis'') w = (Inr (Some md), w1)"
  shows "resolve_module_from_path (map of_char ''/disk/a/m.dis'') [r] w = (Inr md, w1)"
  using assms
  by (simp add: resolve_module_from_path_def same_prefix_def inferno_root_path_def sizeof_pointer_def after_last_slash_def ebind_run
    no_throw_def catch_def Let_def)

text \<open>
  The dispatcher is kept when the last tool is unloaded, so that a tool loaded later attaches to
  no thread: those that run already never see it.
\<close>

lemma load_tool_again:
  assumes "w_tool_attached w"
  shows "vm_load_tool H rounds tool w = load_tool H tool w"
  using assms by (simp add: vm_load_tool_def ebind_run)

section \<open>The heap invariant of the whole machine\<close>

lemma heap_inv_vm_state [keeps_intros]:
  "keeps heap_inv (push_syscall_error_message msg)" "keeps heap_inv pop_syscall_error_message" "keeps heap_inv (adopt_module md)"
  "keeps heap_inv (set_vm_id key i)" "keeps heap_inv (modify (\<lambda>w. w\<lparr> w_modules := f w \<rparr>))"
  by (auto simp: keeps_def push_syscall_error_message_def pop_syscall_error_message_def adopt_module_def set_vm_id_def heap_inv_def
    ebind_run eseq_def)

lemma heap_inv_module_file [keeps_intros]: "keeps heap_inv (load_module_file data)" "keeps heap_inv (destroy_module md)"
  using load_module_keeps destroy_module_keeps by auto

lemma heap_inv_resolver: "keeps heap_inv (try_resolve_module files probing_paths p)"
  unfolding try_resolve_module_def by (intro keeps_intros)

lemma heap_inv_find_builtin [keeps_intros]: "keeps heap_inv (find_builtin name ms)"
  by (induction ms) (simp_all only: find_builtin.simps module_has_name_def, (intro keeps_intros | assumption)+)

lemma keeps_find_loaded [keeps_intros]: "keeps I (find_loaded p ls)"
  by (induction ls) (simp_all only: find_loaded.simps, (intro keeps_intros | assumption)+)

lemma keeps_or_else_do [keeps_intros]: "keeps I m \<Longrightarrow> keeps I c \<Longrightarrow> keeps I (or_else_do m c)"
  unfolding or_else_do_def by (intro keeps_intros)

lemma keeps_sum_case [keeps_intros]: "(\<And>a. keeps I (f a)) \<Longrightarrow> (\<And>b. keeps I (g b)) \<Longrightarrow> keeps I (case v of Inl a \<Rightarrow> f a | Inr b \<Rightarrow> g b)"
  by (cases v) simp_all

lemma heap_inv_load_module:
  assumes "env_keeps heap_inv E" "\<forall>r\<in>set rs. \<forall>p. keeps heap_inv (r p)"
  shows "keeps heap_inv (load_module E rs path)"
proof -
  have r: "keeps heap_inv (resolve_module_from_path p rs)" for p using assms(2) by (intro keeps_resolve) blast
  have "keeps heap_inv (reload_module rs p l)" for p l
    unfolding reload_module_def by (intro keeps_intros r)
  moreover have "keeps heap_inv (load_new_module rs p)" for p
    unfolding load_new_module_def get_builtin_module_def by (intro keeps_intros r)
  ultimately show ?thesis unfolding load_module_def by (intro keeps_intros assms(1))
qed

lemma env_keeps_with_loader:
  assumes "env_keeps heap_inv E" "\<forall>r\<in>set rs. \<forall>p. keeps heap_inv (r p)"
  shows "env_keeps heap_inv (with_loader rs E)"
  using assms heap_inv_load_module [OF assms] by (simp add: env_keeps_def with_loader_def)

text \<open>
  The machine as it is put together, with the tools dispatched to their callbacks and the
  modules loaded through the resolver of the file system: a time slice of a thread keeps the heap
  invariant however it ends, for all files, probing paths, callbacks that keep it themselves, and
  native functions that do.
\<close>

theorem vm_slice_keeps_heap_inv:
  assumes "env_keeps heap_inv E" "host_keeps heap_inv H" "heap_inv c"
  shows "heap_inv (snd (execute (with_loader [try_resolve_module files probing_paths] (with_tools n H E)) quanta c))"
proof -
  have "env_keeps heap_inv (with_loader [try_resolve_module files probing_paths] (with_tools n H E))"
    by (intro env_keeps_with_loader env_keeps_with_tools assms) (simp add: heap_inv_resolver)
  from keeps_execute [OF this] assms(3) show ?thesis unfolding keeps_def by blast
qed

theorem vm_slice_keeps_heap_inv_witness:
  "heap_inv (snd (execute (with_loader [try_resolve_module (\<lambda>p. None) []] (with_tools 5 quiet_host idle_env)) 3 (sample_cpu move_add_exit)))"
  by (rule vm_slice_keeps_heap_inv [OF sample_env_keeps _ sample_heap_inv]) (simp add: host_keeps_def quiet_host_def keeps_basic)

end
