(* ===== verification/FileDescriptors.thy ===== *)
theory FileDescriptors
  imports VmCore
begin

text \<open>
  The table of file descriptors (\<^verbatim>\<open>src/src/vm/sys/fd_manager.cpp\<close>) and the descriptors of the
  host's files (\<^verbatim>\<open>fd_types.cpp\<close>). A record of the table holds a reference counted descriptor
  object or null; a record that was dropped is reused, the lowest first, which the source
  keeps in a priority queue and the model in a sorted list. The C library's streams and the
  host's files are the parameter \<open>host\<close>; a stream is named by a number, with 0 for null.
\<close>

section \<open>The host\<close>

record host =
  ho_fopen :: "byte_t list \<Rightarrow> string \<Rightarrow> nat exec"
  ho_fclose :: "nat \<Rightarrow> unit exec"
  ho_fread :: "nat \<Rightarrow> nat \<Rightarrow> byte_t list exec"
  ho_fwrite :: "nat \<Rightarrow> byte_t list \<Rightarrow> unit exec"
  ho_ferror :: "nat \<Rightarrow> bool exec"
  ho_fseek :: "nat \<Rightarrow> int \<Rightarrow> nat \<Rightarrow> bool exec"
  ho_ftell :: "nat \<Rightarrow> big_t exec"
  ho_remove :: "byte_t list \<Rightarrow> word_t exec"
  ho_clock :: "int exec"
  ho_sleep :: "int \<Rightarrow> unit exec"

section \<open>The table\<close>

definition vm_invalid_fd :: word_t where "vm_invalid_fd = - 1"

definition create_fd_record :: "nat \<Rightarrow> ('z world_scheme, word_t) eff" where
  "create_fd_record vm_fd = eseq (vm_assert (vm_fd \<noteq> 0) ''vm_fd != nullptr'') (
     ebind (gets w_fd_available) (\<lambda>available.
     case available of
       [] \<Rightarrow> (ebind (gets (\<lambda>w. length (w_fd_map w))) (\<lambda>new_fd.
       eseq (modify (\<lambda>w. w\<lparr> w_fd_map := w_fd_map w @ [vm_fd] \<rparr>)) (
       eret (of_nat new_fd))))
     | new_fd # rest \<Rightarrow> (eseq (modify (\<lambda>w. w\<lparr> w_fd_available := rest \<rparr>)) (
       ebind (gets (\<lambda>w. w_fd_map w ! new_fd)) (\<lambda>current.
       eseq (vm_assert (current = 0) ''Reused FD should be null'') (
       eseq (modify (\<lambda>w. w\<lparr> w_fd_map := (w_fd_map w)[new_fd := vm_fd] \<rparr>)) (
       eret (of_nat new_fd))))))))"

definition in_fd_map :: "word_t \<Rightarrow> 'z world_scheme \<Rightarrow> bool" where
  "in_fd_map fd w = (\<not> (sint fd < 0 \<or> int (length (w_fd_map w)) \<le> sint fd))"

definition try_update_fd_record :: "word_t \<Rightarrow> nat \<Rightarrow> ('z world_scheme, bool) eff" where
  "try_update_fd_record fd vm_fd = eseq (vm_assert (fd \<noteq> vm_invalid_fd) ''fd != sys::vm_invalid_fd'') (
     eseq (vm_assert (vm_fd \<noteq> 0) ''vm_fd != nullptr'') (
     ebind (gets (in_fd_map fd)) (\<lambda>valid.
     if \<not> valid then eret False
     else (ebind (gets (\<lambda>w. w_fd_map w ! unat fd)) (\<lambda>vm_fd_curr.
       ebind (release vm_fd_curr) (\<lambda>current_ref.
       eseq (when_do (current_ref = 0) (delete_alloc dec_ref_count_and_free vm_fd_curr)) (
       eseq (modify (\<lambda>w. w\<lparr> w_fd_map := (w_fd_map w)[unat fd := vm_fd] \<rparr>)) (
       eret True))))))))"

definition fetch_fd_record :: "word_t \<Rightarrow> ('z world_scheme, nat) eff" where
  "fetch_fd_record fd = eseq (vm_assert (fd \<noteq> vm_invalid_fd) ''fd != sys::vm_invalid_fd'') (
     ebind (gets (in_fd_map fd)) (\<lambda>valid.
     if \<not> valid then eret 0
     else (ebind (gets (\<lambda>w. w_fd_map w ! unat fd)) (\<lambda>vm_fd.
       eseq (when_do (vm_fd \<noteq> 0) (add_ref vm_fd)) (
       eret vm_fd)))))"

definition drop_fd_record :: "word_t \<Rightarrow> ('z world_scheme, unit) eff" where
  "drop_fd_record fd = eseq (vm_assert (fd \<noteq> vm_invalid_fd) ''fd != sys::vm_invalid_fd'') (
     ebind (gets (in_fd_map fd)) (\<lambda>valid.
     when_do valid (ebind (gets (\<lambda>w. w_fd_map w ! unat fd)) (\<lambda>vm_fd.
       eseq (vm_assert (vm_fd \<noteq> 0) ''fd_map[fd] != nullptr'') (
       ebind (release vm_fd) (\<lambda>current_ref.
       when_do (current_ref = 0) (eseq (delete_alloc dec_ref_count_and_free vm_fd) (
         modify (\<lambda>w. w\<lparr> w_fd_map := (w_fd_map w)[unat fd := 0], w_fd_available := insort (unat fd) (w_fd_available w) \<rparr>)))))))))"

section \<open>Files\<close>

definition open_none :: word_t where "open_none = 0"
definition open_read :: word_t where "open_read = 1"
definition open_write :: word_t where "open_write = 2"
definition open_truncate :: word_t where "open_truncate = 4"
definition open_atomic :: word_t where "open_atomic = 8"
definition ensure_create :: word_t where "ensure_create = 16"
definition ensure_exists :: word_t where "ensure_exists = 32"
definition disable_seek :: word_t where "disable_seek = 128"

datatype seek_start = SeekStart | SeekRelative | SeekEnd

definition seek_to_int :: "seek_start \<Rightarrow> nat" where
  "seek_to_int m = (case m of SeekStart \<Rightarrow> 0 | SeekRelative \<Rightarrow> 1 | SeekEnd \<Rightarrow> 2)"

definition td_fd :: type_desc where "td_fd = intrinsic 0 [] 14"

definition new_sys_fd :: "nat \<Rightarrow> nat \<Rightarrow> word_t \<Rightarrow> ('z, nat) heff" where
  "new_sys_fd file path mode = ebind (new_object 0 0 td_fd (\<lambda>_. FdObj \<lparr> fd_mode = mode, fd_path = path, fd_file = file \<rparr>)) (\<lambda>p.
     eseq (vm_assert (file \<noteq> 0) ''sys_fd != nullptr'') (
     eseq (when_do (path \<noteq> 0) (add_ref path)) (
     eret p)))"

definition sys_fd_at :: "nat \<Rightarrow> ('z, sys_fd) heff" where
  "sys_fd_at p = ebind (obj_at p) (\<lambda>ob. case ob_data ob of FdObj fd \<Rightarrow> eret fd | _ \<Rightarrow> throw (Undefined ''not a file descriptor''))"

definition syscall_exception :: "string \<Rightarrow> ('z world_scheme, 'a) eff" where
  "syscall_exception msg = eseq (push_syscall_error_message (map of_char msg)) (throw (SystemException msg))"

definition read_fd :: "host \<Rightarrow> nat \<Rightarrow> int \<Rightarrow> nat \<Rightarrow> word_t exec" where
  "read_fd H p buffer_size_in_bytes buffer = ebind (sys_fd_at p) (\<lambda>fd.
     eseq (check (has_flag (fd_mode fd) open_read) (SystemException ''File descriptor not open for read operation'')) (
     ebind (ho_fread H (fd_file fd) (nat buffer_size_in_bytes)) (\<lambda>bytes.
     eseq (store buffer bytes) (
     ebind (ho_ferror H (fd_file fd)) (\<lambda>failed.
     if failed then syscall_exception ''Read operation error'' else eret (of_nat (length bytes)))))))"

definition write_fd :: "host \<Rightarrow> nat \<Rightarrow> byte_t list \<Rightarrow> unit exec" where
  "write_fd H p bytes = ebind (sys_fd_at p) (\<lambda>fd.
     eseq (check (has_flag (fd_mode fd) open_write) (SystemException ''File descriptor not open for write operation'')) (
     eseq (ho_fwrite H (fd_file fd) bytes) (
     ebind (ho_ferror H (fd_file fd)) (\<lambda>failed.
     if failed then syscall_exception ''Write operation error'' else eret ()))))"

definition seek_fd :: "host \<Rightarrow> nat \<Rightarrow> seek_start \<Rightarrow> big_t \<Rightarrow> big_t exec" where
  "seek_fd H p start offset = ebind (sys_fd_at p) (\<lambda>fd.
     eseq (check (\<not> has_flag (fd_mode fd) disable_seek)
       (UserException ''Unable to seek on a fifo file descriptor (e.g. stdin, stdout, stderr)'')) (
     ebind (ho_fseek H (fd_file fd) (sint (ucast offset :: word_t)) (seek_to_int start)) (\<lambda>done.
     if \<not> done then syscall_exception ''Seek operation error'' else ho_ftell H (fd_file fd))))"

definition fopen_mode_strings :: "string option list" where
  "fopen_mode_strings = [None, Some ''rb'', Some ''wb'', Some ''rwb'', None, Some ''rb+'', Some ''wb+'', Some ''wb+'']"

definition fopen_modes :: word_t where "fopen_modes = open_read OR open_write OR open_truncate"

definition mode_for_fopen :: "word_t \<Rightarrow> string option" where
  "mode_for_fopen mode = fopen_mode_strings ! unat (fopen_modes AND mode)"

definition path_text :: "nat \<Rightarrow> ('z, byte_t list) heff" where
  "path_text p = ebind (obj_at p) (\<lambda>ob.
     case ob_data ob of StringObj s \<Rightarrow> ebind (lift_res (str s)) (\<lambda>n. eseq (set_obj p (ob\<lparr> ob_data := StringObj n \<rparr>))
       (eret (c_string (str_bytes n))))
     | _ \<Rightarrow> throw (Undefined ''not a string''))"

definition file_exists :: "host \<Rightarrow> nat \<Rightarrow> bool exec" where
  "file_exists H path = ebind (path_text path) (\<lambda>name.
     ebind (ho_fopen H name (the (mode_for_fopen open_read))) (\<lambda>tmp.
     eseq (when_do (tmp \<noteq> 0) (ho_fclose H tmp)) (
     eret (tmp \<noteq> 0))))"

definition open_allowed :: "host \<Rightarrow> nat \<Rightarrow> word_t \<Rightarrow> bool exec" where
  "open_allowed H path mode = (
     if mode AND NOT fopen_modes \<noteq> open_none \<and> has_flag mode (ensure_create OR ensure_exists) then (eseq (vm_assert (has_flag mode ensure_create \<noteq> has_flag mode ensure_exists) ''Create/Exists flags are mutually exclusive'') (
     ebind (file_exists H path) (\<lambda>found.
     eret (\<not> (found \<and> has_flag mode ensure_create \<or> \<not> found \<and> has_flag mode ensure_exists)))))
     else eret True)"

definition create_from_file_path :: "host \<Rightarrow> nat \<Rightarrow> word_t \<Rightarrow> nat exec" where
  "create_from_file_path H path mode = ebind (open_allowed H path mode) (\<lambda>allowed.
     if \<not> allowed then eret 0
     else case mode_for_fopen mode of None \<Rightarrow> throw (AssertFailed ''fopen_mode != nullptr'')
     | Some fopen_mode \<Rightarrow> (ebind (path_text path) (\<lambda>name.
       ebind (ho_fopen H name fopen_mode) (\<lambda>file.
       if file = 0 then eret 0 else new_sys_fd file path mode))))"

definition std_in :: nat where "std_in = 1"
definition std_out :: nat where "std_out = 2"
definition std_err :: nat where "std_err = 3"

definition get_std_streams :: "('z, nat \<times> nat \<times> nat) heff" where
  "get_std_streams = ebind (new_sys_fd std_in 0 (open_read OR disable_seek)) (\<lambda>input.
     ebind (new_sys_fd std_out 0 (open_write OR disable_seek)) (\<lambda>output.
     ebind (new_sys_fd std_err 0 (open_write OR disable_seek)) (\<lambda>error.
     eret (input, output, error))))"

section \<open>The acts of destructors\<close>

text \<open>
  What a destructor does to the host is recorded by the heap and done here: the streams of
  deleted descriptors are closed, and files opened to be deleted on closing are removed.
\<close>

definition host_act :: "host \<Rightarrow> (nat \<Rightarrow> nat \<Rightarrow> unit exec) \<Rightarrow> host_act \<Rightarrow> unit exec" where
  "host_act H finalizer act = (case act of
     Finalized f p \<Rightarrow> finalizer f p
   | CloseFile file \<Rightarrow> ho_fclose H file
   | RemoveFile path \<Rightarrow> ebind (lift_res (str path)) (\<lambda>n. ebind (ho_remove H (c_string (str_bytes n))) (\<lambda>_. eret ())))"

primrec run_host_acts :: "nat \<Rightarrow> host \<Rightarrow> (nat \<Rightarrow> nat \<Rightarrow> unit exec) \<Rightarrow> unit exec" where
  "run_host_acts 0 H finalizer = throw OutOfFuel"
| "run_host_acts (Suc n) H finalizer = ebind (gets h_finalized) (\<lambda>acts.
     case acts of [] \<Rightarrow> eret ()
     | act # rest \<Rightarrow> (eseq (modify (\<lambda>c. c\<lparr> h_finalized := rest \<rparr>)) (
       eseq (host_act H finalizer act) (
       run_host_acts n H finalizer))))"

end
