(* ===== verification/Print.thy ===== *)
theory Print
  imports FileDescriptors
begin

text \<open>
  Formatted output (\<^verbatim>\<open>src/src/vm/sys/print.cpp\<close>). The format is the list of its code points; the
  buffer is the list of its bytes, which keeps what an earlier attempt left in it. The text the
  C library's \<^verbatim>\<open>snprintf\<close> makes of one conversion is the parameter \<open>formatter\<close>, which gives
  \<open>None\<close> where it returns a negative number; how much of the text fits is part of the model.
  The recursion over the format needs no more steps than it has code points; the doubling of a
  dynamic buffer has a bound of its own.
\<close>

datatype print_value = RealValue big_t | BigValue big_t | WordValue word_t | ObjectValue "nat \<times> type_desc option"

type_synonym formatter = "byte_t list \<Rightarrow> print_value \<Rightarrow> byte_t list option"

definition chr :: "char \<Rightarrow> rune_t" where "chr c = of_nat (of_char c)"

definition align_for :: "nat \<Rightarrow> nat \<Rightarrow> nat \<Rightarrow> nat" where
  "align_for width p base = base + (p - base + (width - 1)) div width * width"

definition string_runes :: "vm_string \<Rightarrow> ('z, rune_t list) heff" where
  "string_runes s = map_each (\<lambda>i. lift_res (get_rune s i)) [0..str_length s - 1]"

section \<open>The buffer\<close>

definition splice :: "nat \<Rightarrow> byte_t list \<Rightarrow> byte_t list \<Rightarrow> byte_t list" where
  "splice pos bs buf = take pos buf @ bs @ drop (pos + length bs) buf"

definition put_encoded :: "nat \<Rightarrow> rune_t \<Rightarrow> byte_t list \<Rightarrow> ('s, nat \<times> byte_t list) eff" where
  "put_encoded pos c buf = ebind (lift_res (encode c)) (\<lambda>bytes.
     eseq (check (pos + length bytes \<le> length buf) (Undefined ''write past the buffer'')) (
     eret (pos + length bytes, splice pos bytes buf)))"

definition c_snprintf :: "nat \<Rightarrow> nat \<Rightarrow> byte_t list \<Rightarrow> byte_t list \<Rightarrow> byte_t list" where
  "c_snprintf pos n text buf = (if n = 0 then buf else splice pos (take (n - 1) text @ [0]) buf)"

definition finish_print :: "nat \<Rightarrow> byte_t list \<Rightarrow> ('s, nat option \<times> byte_t list) eff" where
  "finish_print pos buf = eseq (check (pos < length buf) (Undefined ''read past the buffer'')) (
     eseq (vm_assert (buf ! pos = 0) ''The buffer should be null-terminated'') (
     eret (Some pos, buf)))"

section \<open>Format specifiers\<close>

definition integer_argument :: "formatter \<Rightarrow> byte_t list \<Rightarrow> bool \<Rightarrow> nat \<Rightarrow> nat \<Rightarrow> (nat \<times> byte_t list option) exec" where
  "integer_argument F format big_flag base args = (
     if big_flag then (let p = align_for 8 args base in
     ebind (get64 p) (\<lambda>b.
     eret (p + 8, F format (BigValue b))))
     else (ebind (get32 args) (\<lambda>w.
     eret (args + 4, F format (WordValue w)))))"

definition string_argument :: "nat \<Rightarrow> byte_t list option exec" where
  "string_argument args = ebind (at_string args) (\<lambda>(p, string).
     case string of None \<Rightarrow> eret None | Some s \<Rightarrow> ebind (string_str p s) (\<lambda>t. eret (Some t)))"

definition object_argument :: "nat \<Rightarrow> print_value exec" where
  "object_argument args = ebind (pt_ref args) (\<lambda>p.
     if p = 0 then eret (ObjectValue (2 ^ 32 - 1, None))
     else ebind (obj_at p) (\<lambda>ob. eret (ObjectValue (ob_refs ob, Some (ob_type ob)))))"

datatype printed = PrintFailed | NothingPrinted | PrintedText "byte_t list"

definition printed_text :: "byte_t list option \<Rightarrow> printed" where
  "printed_text t = (case t of None \<Rightarrow> PrintFailed | Some bs \<Rightarrow> PrintedText bs)"

primrec print_spec :: "formatter \<Rightarrow> nat \<Rightarrow> rune_t list \<Rightarrow> byte_t list \<Rightarrow> bool \<Rightarrow> bool \<Rightarrow> nat \<Rightarrow> (rune_t list \<times> nat \<times> printed) exec" where
  "print_spec F base [] format big_flag unsigned_flag args = eret ([], args, NothingPrinted)"
| "print_spec F base (c # cs) format big_flag unsigned_flag args = (
     if c = chr CHR ''b'' then
       print_spec F base cs (format @ [of_char CHR ''l'', of_char CHR ''l'']) True unsigned_flag args
     else if c = chr CHR ''*'' then
       ebind (get32 args) (\<lambda>w. print_spec F base cs (format @ c_decimal (sint w)) big_flag unsigned_flag (args + 4))
     else if c = chr CHR ''u'' then print_spec F base cs format big_flag True args
     else if c = chr CHR ''%'' then eret (cs, args, PrintedText [of_char CHR ''%'', of_char CHR ''%''])
     else if c \<in> chr ` set ''feEgG'' then (let p = align_for 8 args base in
     ebind (get64 p) (\<lambda>r.
     eret (cs, p + 8, printed_text (F (format @ [ucast c]) (RealValue r)))))
     else if c \<in> chr ` set ''doxXc'' then (let verb = (if c = chr CHR ''d'' \<and> unsigned_flag then of_char CHR ''u'' else ucast c) in
     ebind (integer_argument F (format @ [verb]) big_flag base args) (\<lambda>(args', t).
     eret (cs, args', printed_text t)))
     else if c = chr CHR ''q'' then throw (AssertFailed ''q format not implemented'')
     else if c = chr CHR ''s'' then (ebind (string_argument args) (\<lambda>t.
     eret (cs, args + 4, case t of None \<Rightarrow> NothingPrinted | Some bs \<Rightarrow> PrintedText bs)))
     else if c = chr CHR ''r'' then (ebind pop_syscall_error_message (\<lambda>err_msg.
     eret (cs, args, PrintedText err_msg)))
     else if c = chr CHR ''H'' then (ebind (object_argument args) (\<lambda>v.
     eret (cs, args + 4, printed_text (F (map of_char ''%lu.%#08lx'') v))))
     else print_spec F base cs (format @ [ucast c]) big_flag unsigned_flag args)"

section \<open>Printing\<close>

primrec printf_loop :: "nat \<Rightarrow> formatter \<Rightarrow> nat \<Rightarrow> rune_t list \<Rightarrow> nat \<Rightarrow> nat \<Rightarrow> byte_t list \<Rightarrow> (nat option \<times> byte_t list) exec" where
  "printf_loop 0 F base cs args pos buf = throw OutOfFuel"
| "printf_loop (Suc n) F base cs args pos buf = (case cs of [] \<Rightarrow> finish_print pos buf
   | c # rest \<Rightarrow>
       if length buf - 1 \<le> pos then eret (None, buf)
       else if c \<noteq> chr CHR ''%'' then
         ebind (put_encoded pos c buf) (\<lambda>(pos', buf'). printf_loop n F base rest args pos' buf')
       else (ebind (print_spec F base rest [of_char CHR ''%''] False False args) (\<lambda>(rest', args', out).
     case out of PrintFailed \<Rightarrow> eret (None, buf)
         | NothingPrinted \<Rightarrow> printf_loop n F base rest' args' pos buf
         | PrintedText t \<Rightarrow> printf_loop n F base rest' args' (pos + length t) (c_snprintf pos (length buf - 1 - pos) t buf))))"

definition printf_to_buffer :: "formatter \<Rightarrow> vm_string \<Rightarrow> nat \<Rightarrow> nat \<Rightarrow> byte_t list \<Rightarrow> (nat option \<times> byte_t list) exec" where
  "printf_to_buffer F msg_fmt msg_args base buffer = ebind (string_runes msg_fmt) (\<lambda>cs.
     printf_loop (Suc (length cs)) F base cs msg_args 0 buffer)"

primrec printf_to_dynamic_buffer :: "nat \<Rightarrow> formatter \<Rightarrow> vm_string \<Rightarrow> nat \<Rightarrow> nat \<Rightarrow> byte_t list \<Rightarrow> (nat \<times> byte_t list) exec" where
  "printf_to_dynamic_buffer 0 F msg_fmt msg_args base buffer = throw OutOfFuel"
| "printf_to_dynamic_buffer (Suc n) F msg_fmt msg_args base buffer = ebind (printf_to_buffer F msg_fmt msg_args base buffer) (\<lambda>(result, buf).
     case result of Some written \<Rightarrow> eret (written, buf)
     | None \<Rightarrow> printf_to_dynamic_buffer n F msg_fmt msg_args base (buf @ replicate (length buf) 0))"

definition printf_text :: "nat \<Rightarrow> formatter \<Rightarrow> nat \<Rightarrow> vm_string \<Rightarrow> nat \<Rightarrow> nat \<Rightarrow> byte_t list exec" where
  "printf_text n F static_size msg_fmt msg_args base = ebind (printf_to_buffer F msg_fmt msg_args base (replicate static_size 0)) (\<lambda>(written, buf).
     case written of Some k \<Rightarrow> eret (take k buf)
     | None \<Rightarrow> (ebind (printf_to_dynamic_buffer n F msg_fmt msg_args base (replicate (static_size * 2) 0)) (\<lambda>(k, dynamic_buffer).
       eret (take k dynamic_buffer))))"

definition printf_to_fd :: "nat \<Rightarrow> host \<Rightarrow> formatter \<Rightarrow> nat \<Rightarrow> vm_string \<Rightarrow> nat \<Rightarrow> nat \<Rightarrow> word_t exec" where
  "printf_to_fd n H F fd msg_fmt msg_args base = ebind (printf_text n F 1024 msg_fmt msg_args base) (\<lambda>text.
     eseq (write_fd H fd text) (
     eret (of_nat (length text))))"

end
