(* ===== verification/Sysmod.thy ===== *)
theory Sysmod
  imports Print
begin

text \<open>
  The built-in module \<^verbatim>\<open>$Sys\<close> (\<^verbatim>\<open>src/src/vm/sys/Sysmod.cpp\<close> and the frames of
  \<^verbatim>\<open>Sysmod.hpp\<close>). A native function finds the address of its result 16 bytes and its first
  argument 32 bytes into the frame on top of the stack. The finalizer of a descriptor runs with
  the other acts of destructors after the native function that dropped the last reference.
  \<open>fuel\<close> bounds the copies of \<^verbatim>\<open>stream\<close> and the retries of a dynamic buffer.
\<close>

section \<open>Frames of native functions\<close>

definition fp :: "nat exec" where "fp = reg (\<lambda>r. frame_base (peek_frame (r_stack r)))"
definition ret_offset :: nat where "ret_offset = 16"
definition args_offset :: nat where "args_offset = 32"

definition ret_addr :: "nat exec" where "ret_addr = ebind fp (\<lambda>b. pt_ref (b + ret_offset))"
definition arg_addr :: "nat \<Rightarrow> nat exec" where "arg_addr k = ebind fp (\<lambda>b. eret (b + args_offset + k))"
definition arg_word :: "nat \<Rightarrow> word_t exec" where "arg_word k = ebind (arg_addr k) get32"
definition arg_pointer :: "nat \<Rightarrow> nat exec" where "arg_pointer k = ebind (arg_addr k) pt_ref"

definition ret_word :: "word_t \<Rightarrow> unit exec" where
  "ret_word w = ebind ret_addr (\<lambda>a. put32 a w)"

definition arg_string :: "nat \<Rightarrow> (nat \<times> vm_string option) exec" where
  "arg_string k = ebind (arg_addr k) at_string"

definition arg_array :: "nat \<Rightarrow> (nat \<times> vm_array) option exec" where
  "arg_array k = ebind (arg_addr k) at_array"

definition clear_ret :: "nat \<Rightarrow> unit exec" where
  "clear_ret k = ebind ret_addr (\<lambda>a.
     ebind (pt_ref (a + k)) (\<lambda>old.
     eseq (dec_ref_count_and_free old) (
     set_pt_ref (a + k) 0)))"

definition replace_ret :: "nat \<Rightarrow> unit exec" where
  "replace_ret p = ebind ret_addr (\<lambda>a.
     ebind (pt_ref a) (\<lambda>old.
     eseq (dec_ref_count_and_free old) (
     set_pt_ref a p)))"

definition byte_array :: "vm_array \<Rightarrow> unit exec" where
  "byte_array arr = vm_assert (td_size (arr_element_type arr) = td_size td_byte) ''get_element_type()->size_in_bytes''"

definition not_implemented :: "unit exec" where
  "not_implemented = throw (SystemException ''Function not implemented'')"

section \<open>Descriptors of the module\<close>

definition fd_finalizer :: nat where "fd_finalizer = 1"
definition T_FD :: type_desc where "T_FD = type_create_finalized 8 [0] fd_finalizer"

definition set_fd_fields :: "nat \<Rightarrow> word_t \<Rightarrow> nat \<Rightarrow> unit exec" where
  "set_fd_fields p fd impl = eseq (put32 p fd) (
     eseq (set_pt_ref (p + 4) impl) (
     modify (\<lambda>c. c\<lparr> w_fd_handles := (p, fd, impl) # w_fd_handles c \<rparr>)))"

definition create_new :: "nat \<Rightarrow> nat exec" where
  "create_new vm_fd = eseq (vm_assert (vm_fd \<noteq> 0) ''vm_fd != nullptr'') (
     ebind (get_ref_count vm_fd) (\<lambda>refs.
     eseq (vm_assert (refs = 1) ''Should be a new FD'') (
     ebind (allocate T_FD) (\<lambda>p.
     ebind (create_fd_record vm_fd) (\<lambda>fd.
     eseq (set_fd_fields p fd vm_fd) (
     eseq (add_ref vm_fd) (
     eret p)))))))"

definition create_existing :: "word_t \<Rightarrow> nat \<Rightarrow> nat exec" where
  "create_existing fd vm_fd = eseq (vm_assert (vm_fd \<noteq> 0) ''vm_fd != nullptr'') (
     eseq (vm_assert (0 \<le> sint fd) ''fd >= 0'') (
     ebind (allocate T_FD) (\<lambda>p.
     eseq (set_fd_fields p fd vm_fd) (
     eret p))))"

definition finalize_fd :: "nat \<Rightarrow> nat \<Rightarrow> unit exec" where
  "finalize_fd f p = eseq (check (f = fd_finalizer) (Undefined ''unknown finalizer'')) (
     ebind (gets (\<lambda>c. map_of (w_fd_handles c) p)) (\<lambda>found.
     case found of None \<Rightarrow> throw (Undefined ''not a descriptor'')
     | Some (fd, impl) \<Rightarrow> (eseq (modify (\<lambda>c. c\<lparr> w_fd_handles := AList.delete p (w_fd_handles c) \<rparr>)) (
       eseq (drop_fd_record fd) (
       dec_ref_count_and_free impl)))))"

definition fd_of :: "nat \<Rightarrow> nat exec" where
  "fd_of p = ebind (obj_at p) (\<lambda>ob.
     eseq (vm_assert (ob_type ob = T_FD) ''fd_alloc->alloc_type == T_FD'') (
     pt_ref (p + 4)))"

section \<open>Modes\<close>

definition Sys_OWRITE :: word_t where "Sys_OWRITE = 1"
definition Sys_ORDWR :: word_t where "Sys_ORDWR = 2"
definition Sys_OTRUNC :: word_t where "Sys_OTRUNC = 0x10"
definition Sys_ORCLOSE :: word_t where "Sys_ORCLOSE = 0x40"
definition Sys_OEXCL :: word_t where "Sys_OEXCL = 0x1000"

definition convert_to_openmode :: "word_t \<Rightarrow> word_t" where
  "convert_to_openmode mode = (
     let om1 = (if has_flag mode Sys_OWRITE then open_write else open_read);
         om2 = (if has_flag mode Sys_ORDWR then om1 OR (open_write OR open_read) else om1);
         om3 = (if has_flag mode Sys_OTRUNC then om2 OR open_truncate else om2);
         om4 = (if has_flag mode Sys_OEXCL then om3 OR open_atomic else om3)
     in if has_flag mode Sys_ORCLOSE then om4 OR delete_on_close else om4)"

definition convert_to_seekdir :: "word_t \<Rightarrow> seek_start res" where
  "convert_to_seekdir start = (if start = 0 then Inr SeekStart else if start = 1 then Inr SeekRelative
     else if start = 2 then Inr SeekEnd else Inl (UserException ''Invalid seek mode''))"

section \<open>Functions that are not implemented\<close>

definition Sys_announce :: "unit exec" where "Sys_announce = not_implemented"
definition Sys_bind :: "unit exec" where "Sys_bind = not_implemented"
definition Sys_chdir :: "unit exec" where "Sys_chdir = not_implemented"
definition Sys_dial :: "unit exec" where "Sys_dial = not_implemented"
definition Sys_dirread :: "unit exec" where "Sys_dirread = not_implemented"
definition Sys_export :: "unit exec" where "Sys_export = not_implemented"
definition Sys_fauth :: "unit exec" where "Sys_fauth = not_implemented"
definition Sys_fd2path :: "unit exec" where "Sys_fd2path = not_implemented"
definition Sys_file2chan :: "unit exec" where "Sys_file2chan = not_implemented"
definition Sys_fstat :: "unit exec" where "Sys_fstat = not_implemented"
definition Sys_fversion :: "unit exec" where "Sys_fversion = not_implemented"
definition Sys_fwstat :: "unit exec" where "Sys_fwstat = not_implemented"
definition Sys_iounit :: "unit exec" where "Sys_iounit = not_implemented"
definition Sys_listen :: "unit exec" where "Sys_listen = not_implemented"
definition Sys_mount :: "unit exec" where "Sys_mount = not_implemented"
definition Sys_pctl :: "unit exec" where "Sys_pctl = not_implemented"
definition Sys_pipe :: "unit exec" where "Sys_pipe = not_implemented"
definition Sys_pread :: "unit exec" where "Sys_pread = not_implemented"
definition Sys_pwrite :: "unit exec" where "Sys_pwrite = not_implemented"
definition Sys_readn :: "unit exec" where "Sys_readn = not_implemented"
definition Sys_stat :: "unit exec" where "Sys_stat = not_implemented"
definition Sys_unmount :: "unit exec" where "Sys_unmount = not_implemented"
definition Sys_wstat :: "unit exec" where "Sys_wstat = not_implemented"

section \<open>Formatted output\<close>

definition Sys_print :: "nat \<Rightarrow> host \<Rightarrow> formatter \<Rightarrow> unit exec" where
  "Sys_print fuel H F = ebind fp (\<lambda>fp_base.
     ebind (arg_string 0) (\<lambda>(p, s).
     case s of None \<Rightarrow> throw (DereferenceNil ''Print string'')
     | Some string \<Rightarrow> (ebind (gets (\<lambda>c. w_std_fds c ! 1)) (\<lambda>fd_stdout.
       ebind (fetch_fd_record fd_stdout) (\<lambda>std_output.
       eseq (check (std_output \<noteq> 0) (SystemException ''stdout not available'')) (
       ebind (arg_addr 4) (\<lambda>vargs.
       ebind (printf_to_fd fuel H F std_output string vargs fp_base) (\<lambda>written.
       eseq (ret_word written) (
       dec_ref_count_and_free std_output)))))))))"

definition Sys_fprint :: "nat \<Rightarrow> host \<Rightarrow> formatter \<Rightarrow> unit exec" where
  "Sys_fprint fuel H F = ebind fp (\<lambda>fp_base.
     ebind (arg_pointer 0) (\<lambda>fd_alloc.
     ebind (fd_of fd_alloc) (\<lambda>fd.
     ebind (arg_string 4) (\<lambda>(p, s).
     case s of None \<Rightarrow> throw (DereferenceNil ''Print string to FD'')
     | Some string \<Rightarrow> (ebind (arg_addr 8) (\<lambda>vargs.
       ebind (printf_to_fd fuel H F fd string vargs fp_base) (\<lambda>written.
       ret_word written)))))))"

definition Sys_aprint :: "nat \<Rightarrow> formatter \<Rightarrow> unit exec" where
  "Sys_aprint fuel F = ebind fp (\<lambda>fp_base.
     ebind (arg_string 0) (\<lambda>(p, s).
     case s of None \<Rightarrow> throw (DereferenceNil ''Print string to array'')
     | Some string \<Rightarrow> (ebind (arg_addr 4) (\<lambda>vargs.
       ebind (printf_to_dynamic_buffer fuel F string vargs fp_base (replicate 128 0)) (\<lambda>(written, buffer).
       ebind (new_array td_byte (of_nat written)) (\<lambda>q.
       ebind (obj_at q) (\<lambda>ob.
       eseq (case ob_data ob of ArrayObj arr \<Rightarrow> ebind (lift_res (array_at arr 0)) (\<lambda>a. store a (take written buffer))
          | _ \<Rightarrow> throw (Undefined ''not an array'')) (
       replace_ret q))))))))"

definition Sys_sprint :: "nat \<Rightarrow> formatter \<Rightarrow> unit exec" where
  "Sys_sprint fuel F = ebind fp (\<lambda>fp_base.
     ebind (arg_string 0) (\<lambda>(p, s).
     case s of None \<Rightarrow> throw (DereferenceNil ''Print string to string'')
     | Some string \<Rightarrow> (ebind (arg_addr 4) (\<lambda>vargs.
       ebind (printf_text fuel F 128 string vargs fp_base) (\<lambda>text.
       ebind (new_string_utf8 text) (\<lambda>q.
       replace_ret q))))))"

section \<open>UTF-8\<close>

definition Sys_UTFerror :: word_t where "Sys_UTFerror = 0xfffd"

definition ret_triple :: "word_t \<Rightarrow> word_t \<Rightarrow> word_t \<Rightarrow> unit exec" where
  "ret_triple t0 t1 t2 = ebind ret_addr (\<lambda>a.
     eseq (put32 a t0) (
     eseq (put32 (a + 4) t1) (
     put32 (a + 8) t2)))"

primrec byte2char_loop :: "vm_array \<Rightarrow> int \<Rightarrow> int list \<Rightarrow> nat \<Rightarrow> rune_t \<Rightarrow> unit exec" where
  "byte2char_loop arr n [] state c = eret ()"
| "byte2char_loop arr n (i # is) state c = ebind (lift_res (array_at arr i)) (\<lambda>at.
     ebind (get8 at) (\<lambda>b.
     let (state', c') = decode_step state c b in
     if state' = accept then ret_triple c' (word_of_int (i - n + 1)) 1
     else if state' = reject then ebind ret_addr (\<lambda>a. put32 (a + 4) 1)
     else byte2char_loop arr n is state' c'))"

definition Sys_byte2char :: "unit exec" where
  "Sys_byte2char = ebind (arg_array 0) (\<lambda>buffer.
     case buffer of None \<Rightarrow> throw (Undefined ''buffer->get_element_type()'')
     | Some (_, arr) \<Rightarrow> (eseq (byte_array arr) (
       ebind (arg_word 4) (\<lambda>n.
       eseq (check (\<not> arr_length arr \<le> sint n) OutOfRangeMemory) (
       eseq (ret_triple Sys_UTFerror 0 0) (
       byte2char_loop arr (sint n) [sint n..arr_length arr - 1] accept 0))))))"

definition put_bytes_at :: "vm_array \<Rightarrow> int \<Rightarrow> byte_t list \<Rightarrow> unit exec" where
  "put_bytes_at arr n bytes = for_each (\<lambda>(i, b). ebind (lift_res (array_at arr (n + int i))) (\<lambda>a. put8 a b)) (enumerate 0 bytes)"

definition Sys_char2byte :: "unit exec" where
  "Sys_char2byte = ebind (arg_array 4) (\<lambda>buffer.
     case buffer of None \<Rightarrow> throw (Undefined ''buffer->get_element_type()'')
     | Some (_, arr) \<Rightarrow> (eseq (byte_array arr) (
       ebind (arg_word 8) (\<lambda>n.
       eseq (check (\<not> arr_length arr \<le> sint n) OutOfRangeMemory) (
       ebind (arg_word 0) (\<lambda>rune.
       ebind (lift_res (encode rune)) (\<lambda>bytes.
       let final_index = n + of_nat (length bytes) in
         if sint final_index > arr_length arr then ret_word 0
         else (eseq (put_bytes_at arr (sint n) bytes) (
         ret_word (of_nat (length bytes)))))))))))"

definition Sys_utfbytes :: "unit exec" where
  "Sys_utfbytes = ebind (arg_array 0) (\<lambda>buffer.
     ebind (arg_word 4) (\<lambda>n.
     case buffer of None \<Rightarrow> throw OutOfRangeMemory
     | Some (_, arr) \<Rightarrow> (eseq (check (\<not> sint n > arr_length arr) OutOfRangeMemory) (
       eseq (byte_array arr) (
       ebind (lift_res (array_at arr 0)) (\<lambda>raw_buffer.
       ebind (load (unat n) raw_buffer) (\<lambda>bytes.
       let (points, byte_count) = count_codepoints (Some bytes) in
         (eseq (ret_word (of_nat byte_count)) (
         vm_assert (sint (of_nat byte_count :: word_t) \<le> sint n) ''Code points should not exceed number of bytes processed'')))))))))"

section \<open>Files\<close>

definition open_file :: "host \<Rightarrow> word_t \<Rightarrow> unit exec" where
  "open_file H extra = eseq (clear_ret 0) (
     ebind (arg_string 0) (\<lambda>(path, s).
     ebind (arg_word 4) (\<lambda>mode.
     ebind (create_from_file_path H path (convert_to_openmode mode OR extra)) (\<lambda>vm_fd.
     when_do (vm_fd \<noteq> 0) (ebind (create_new vm_fd) (\<lambda>fd_alloc.
       ebind ret_addr (\<lambda>a.
       set_pt_ref a fd_alloc)))))))"

definition Sys_create :: "host \<Rightarrow> unit exec" where "Sys_create H = open_file H 0"
definition Sys_open :: "host \<Rightarrow> unit exec" where "Sys_open H = open_file H ensure_exists"

definition Sys_dup :: "unit exec" where
  "Sys_dup = ebind (arg_word 0) (\<lambda>old_fd.
     ebind (fetch_fd_record old_fd) (\<lambda>fd_maybe.
     eseq (check (fd_maybe \<noteq> 0) (MarshallableUserException ''Invalid FD value'')) (
     ebind (arg_word 4) (\<lambda>new_fd.
     ebind (if new_fd = vm_invalid_fd then create_fd_record fd_maybe
       else (ebind (try_update_fd_record new_fd fd_maybe) (\<lambda>updated.
       eseq (check updated (MarshallableUserException ''Invalid FD value'')) (
       eret new_fd)))) (\<lambda>new_fd_maybe.
     ret_word new_fd_maybe)))))"

definition Sys_fildes :: "unit exec" where
  "Sys_fildes = eseq (clear_ret 0) (
     ebind (arg_word 0) (\<lambda>fd.
     ebind (fetch_fd_record fd) (\<lambda>vm_fd.
     when_do (vm_fd \<noteq> 0) (ebind (create_existing fd vm_fd) (\<lambda>fd_alloc.
       ebind ret_addr (\<lambda>a.
       set_pt_ref a fd_alloc))))))"

definition fd_transfer :: "(nat \<Rightarrow> int \<Rightarrow> nat \<Rightarrow> word_t exec) \<Rightarrow> string \<Rightarrow> unit exec" where
  "fd_transfer f what = ebind (arg_array 4) (\<lambda>buffer.
     ebind (arg_word 8) (\<lambda>n.
     case buffer of None \<Rightarrow> ret_word 0
     | Some (_, arr) \<Rightarrow>
         if sint n \<le> 0 then ret_word 0
         else (eseq (byte_array arr) (
       let count = min (sint n) (arr_length arr) in
       ebind (arg_pointer 0) (\<lambda>fd_alloc.
       eseq (check (fd_alloc \<noteq> 0) (DereferenceNil what)) (
       ebind (fd_of fd_alloc) (\<lambda>fd.
       ebind (lift_res (array_at arr 0)) (\<lambda>a.
       ebind (f fd count a) (\<lambda>result.
       ret_word result)))))))))"

definition Sys_read :: "host \<Rightarrow> unit exec" where
  "Sys_read H = fd_transfer (read_fd H) ''Read from file descriptor''"

definition Sys_write :: "host \<Rightarrow> unit exec" where
  "Sys_write H = fd_transfer (\<lambda>fd n a. ebind (load (nat n) a) (\<lambda>bytes. eseq (write_fd H fd bytes) (eret (word_of_int n))))
     ''Write to file descriptor''"

definition Sys_seek :: "host \<Rightarrow> unit exec" where
  "Sys_seek H = ebind (arg_pointer 0) (\<lambda>fd_alloc.
     eseq (check (fd_alloc \<noteq> 0) (DereferenceNil ''Seek in file descriptor'')) (
     ebind (fd_of fd_alloc) (\<lambda>fd.
     ebind (arg_word 16) (\<lambda>start_word.
     ebind (lift_res (convert_to_seekdir start_word)) (\<lambda>start.
     ebind (arg_addr 8) (\<lambda>off_addr.
     ebind (get64 off_addr) (\<lambda>off.
     ebind (seek_fd H fd start off) (\<lambda>result.
     ebind ret_addr (\<lambda>a.
     put64 a result)))))))))"

primrec copy_stream :: "nat \<Rightarrow> host \<Rightarrow> nat \<Rightarrow> nat \<Rightarrow> int \<Rightarrow> nat \<Rightarrow> word_t \<Rightarrow> word_t exec" where
  "copy_stream 0 H src dst bufsiz buffer written = throw OutOfFuel"
| "copy_stream (Suc n) H src dst bufsiz buffer written = ebind (read_fd H src bufsiz buffer) (\<lambda>bytes_read.
     if bytes_read = 0 then eret written
     else (ebind (load (unat bytes_read) buffer) (\<lambda>bytes.
       eseq (write_fd H dst bytes) (
       copy_stream n H src dst bufsiz buffer (written + bytes_read)))))"

definition Sys_stream :: "nat \<Rightarrow> host \<Rightarrow> unit exec" where
  "Sys_stream fuel H = ebind (arg_pointer 0) (\<lambda>alloc_s.
     eseq (check (alloc_s \<noteq> 0) (DereferenceNil ''Source in stream'')) (
     ebind (arg_pointer 4) (\<lambda>alloc_d.
     eseq (check (alloc_d \<noteq> 0) (DereferenceNil ''Destination in stream'')) (
     ebind (obj_at alloc_s) (\<lambda>ob_s.
     ebind (obj_at alloc_d) (\<lambda>ob_d.
     eseq (vm_assert (type_is_equal (ob_type ob_s) (Some T_FD) \<and> type_is_equal (ob_type ob_d) (Some T_FD)) ''alloc_type->is_equal(T_FD)'') (
     ebind (pt_ref (alloc_s + 4)) (\<lambda>src.
     ebind (pt_ref (alloc_d + 4)) (\<lambda>dst.
     ebind (arg_word 8) (\<lambda>bufsiz.
     eseq (check (\<not> sint bufsiz \<le> 0) OutOfRangeMemory) (
     ebind (alloc_block (unat bufsiz)) (\<lambda>buffer.
     ebind (or_else_do (copy_stream fuel H src dst (sint bufsiz) buffer 0) (free_block buffer (unat bufsiz))) (\<lambda>written.
     eseq (ret_word written) (
     free_block buffer (unat bufsiz)))))))))))))))"

definition Sys_remove :: "host \<Rightarrow> unit exec" where
  "Sys_remove H = ebind (arg_string 0) (\<lambda>(p, s).
     case s of None \<Rightarrow> throw (DereferenceNil ''Remove path'')
     | Some string \<Rightarrow> (ebind (string_str p string) (\<lambda>path.
       ebind (ho_remove H path) (\<lambda>result.
       ret_word result))))"

section \<open>Time and errors\<close>

definition Sys_millisec :: "host \<Rightarrow> unit exec" where
  "Sys_millisec H = ebind (ho_clock H) (\<lambda>ms. ret_word (word_of_int ms))"

definition Sys_sleep :: "host \<Rightarrow> unit exec" where
  "Sys_sleep H = ebind (arg_word 0) (\<lambda>period_ms.
     eseq (ho_sleep H (sint period_ms)) (
     ret_word 0))"

definition Sys_werrstr :: "unit exec" where
  "Sys_werrstr = ebind (arg_string 0) (\<lambda>(p, s).
     ebind (case s of None \<Rightarrow> eret [] | Some string \<Rightarrow> string_str p string) (\<lambda>new_err.
     eseq (push_syscall_error_message new_err) (
     ret_word 0)))"

section \<open>Tokens\<close>

definition delim_order :: "int \<Rightarrow> int list" where
  "delim_order n = (if n = 3 then [2, 1, 0] else if n = 2 then [1, 0] else if n = 1 then [0] else [0..n - 1])"

primrec any_rune :: "vm_string \<Rightarrow> rune_t \<Rightarrow> int list \<Rightarrow> bool res" where
  "any_rune delim c [] = Inr False"
| "any_rune delim c (i # is) = rbind (get_rune delim i) (\<lambda>r. if r = c then Inr True else any_rune delim c is)"

definition is_delim :: "rune_t \<Rightarrow> vm_string \<Rightarrow> bool res" where
  "is_delim c delim = any_rune delim c (delim_order (str_length delim))"

primrec skip_runes :: "bool \<Rightarrow> vm_string \<Rightarrow> vm_string \<Rightarrow> int list \<Rightarrow> int \<Rightarrow> int res" where
  "skip_runes want s delim [] k = Inr k"
| "skip_runes want s delim (i # is) k = rbind (get_rune s i) (\<lambda>rune. rbind (is_delim rune delim) (\<lambda>d.
     if d = want then skip_runes want s delim is (i + 1) else Inr i))"

definition skip_from :: "bool \<Rightarrow> vm_string \<Rightarrow> vm_string \<Rightarrow> int \<Rightarrow> int res" where
  "skip_from want s delim k = skip_runes want s delim [k..str_length s - 1] k"

primrec tokenize_loop :: "nat \<Rightarrow> vm_string \<Rightarrow> vm_string \<Rightarrow> (nat \<times> vm_list) option \<Rightarrow> (nat \<times> vm_list) option \<Rightarrow> int \<Rightarrow> word_t \<Rightarrow> word_t exec" where
  "tokenize_loop 0 s delim prev curr_node begin_index n = throw OutOfFuel"
| "tokenize_loop (Suc k) s delim prev curr_node begin_index n = (
     if str_length s \<le> begin_index then eret n
     else (ebind (lift_res (skip_from True s delim begin_index)) (\<lambda>token_begin.
     ebind (lift_res (skip_from False s delim token_begin)) (\<lambda>token_end.
     if token_begin = token_end then eret n
       else (ebind (case curr_node of Some x \<Rightarrow> eret x | None \<Rightarrow> new_list td_pointer 0) (\<lambda>(node, l).
       ebind (new_string_res (string_slice s token_begin token_end)) (\<lambda>token.
       eseq (set_pt_ref (ls_value l) token) (
       eseq (case prev of None \<Rightarrow> eret ()
          | Some (prev_node, pl) \<Rightarrow> (ebind (set_tail prev_node pl node) (\<lambda>_.
         ebind (release node) (\<lambda>_.
         eret ())))) (
       tokenize_loop k s delim (Some (node, l)) None token_end (n + 1))))))))))"

definition Sys_tokenize :: "unit exec" where
  "Sys_tokenize = ebind ret_addr (\<lambda>a.
     eseq (put32 a 0) (
     eseq (clear_ret 4) (
     ebind (arg_string 0) (\<lambda>(p, s).
     case s of None \<Rightarrow> eret ()
     | Some string \<Rightarrow>
         when_do (str_length string \<noteq> 0) (ebind (new_list td_pointer 0) (\<lambda>(node, l).
       eseq (set_pt_ref (a + 4) node) (
       ebind (arg_string 4) (\<lambda>(q, d).
       if (case d of None \<Rightarrow> True | Some delim \<Rightarrow> str_length delim = 0) then (eseq (set_pt_ref (ls_value l) p) (
         eseq (add_ref p) (
         put32 a 1)))
           else (ebind (tokenize_loop (Suc (nat (str_length string))) string (the d) None (Some (node, l)) 0 0) (\<lambda>n.
         put32 a n))))))))))"

section \<open>The module\<close>

definition sys_entry :: "string \<Rightarrow> word_t \<Rightarrow> nat \<Rightarrow> int \<Rightarrow> byte_t list \<Rightarrow> runtab" where
  "sys_entry name sig f frame_size pointer_map = \<lparr> rt_name = map of_char name, rt_sig = sig, rt_fn = f, rt_frame_size = frame_size,
     rt_pointer_map = pointer_map \<rparr>"

definition Sysmodtab :: "runtab list" where
  "Sysmodtab = [
    sys_entry ''announce'' 0xb7c4ac0 0 40 [0x0, 0x80],
    sys_entry ''aprint'' 0x77442d46 1 0 [],
    sys_entry ''bind'' 0x66326d91 2 48 [0x0, 0xc0],
    sys_entry ''byte2char'' 0x3d6094f9 3 40 [0x0, 0x80],
    sys_entry ''char2byte'' 0x2ba5ab41 4 48 [0x0, 0x40],
    sys_entry ''chdir'' 0xc6935858 5 40 [0x0, 0x80],
    sys_entry ''create'' 0x54db77d9 6 48 [0x0, 0x80],
    sys_entry ''dial'' 0x29e90174 7 40 [0x0, 0xc0],
    sys_entry ''dirread'' 0x72210d71 8 40 [0x0, 0x80],
    sys_entry ''dup'' 0x6584767b 9 40 [],
    sys_entry ''export'' 0x6fc6dc03 10 48 [0x0, 0xc0],
    sys_entry ''fauth'' 0x20ccc34b 11 40 [0x0, 0xc0],
    sys_entry ''fd2path'' 0x749c6042 12 40 [0x0, 0x80],
    sys_entry ''fildes'' 0x1478f993 13 40 [],
    sys_entry ''file2chan'' 0x9f34d686 14 40 [0x0, 0xc0],
    sys_entry ''fprint'' 0xf46486c8 15 0 [],
    sys_entry ''fstat'' 0xda4499c2 16 40 [0x0, 0x80],
    sys_entry ''fversion'' 0xfe9c0a06 17 48 [0x0, 0xa0],
    sys_entry ''fwstat'' 0x50a6c7e0 18 104 [0x0, 0xbc],
    sys_entry ''iounit'' 0x5583b730 19 40 [0x0, 0x80],
    sys_entry ''listen'' 0xb97416e0 20 48 [0x0, 0xe0],
    sys_entry ''millisec'' 0x616977e8 21 32 [],
    sys_entry ''mount'' 0x74c17b3a 22 56 [0x0, 0xe8],
    sys_entry ''open'' 0x8f477f99 23 40 [0x0, 0x80],
    sys_entry ''pctl'' 0x5df27fb 24 40 [0x0, 0x40],
    sys_entry ''pipe'' 0x1f2c52ea 25 40 [0x0, 0x80],
    sys_entry ''pread'' 0x9d8aac6 26 56 [0x0, 0xc0],
    sys_entry ''print'' 0xac849033 27 0 [],
    sys_entry ''pwrite'' 0x9d8aac6 28 56 [0x0, 0xc0],
    sys_entry ''read'' 0x7cfef557 29 48 [0x0, 0xc0],
    sys_entry ''readn'' 0x7cfef557 30 48 [0x0, 0xc0],
    sys_entry ''remove'' 0xc6935858 31 40 [0x0, 0x80],
    sys_entry ''seek'' 0xaeccaddb 32 56 [0x0, 0x80],
    sys_entry ''sleep'' 0xe67bf126 33 40 [],
    sys_entry ''sprint'' 0x4c0624b6 34 0 [],
    sys_entry ''stat'' 0x319328dd 35 40 [0x0, 0x80],
    sys_entry ''stream'' 0xb9e8f9ea 36 48 [0x0, 0xc0],
    sys_entry ''tokenize'' 0x57338f20 37 40 [0x0, 0xc0],
    sys_entry ''unmount'' 0x21e337e3 38 40 [0x0, 0xc0],
    sys_entry ''utfbytes'' 0x1d4a1f4 39 40 [0x0, 0x80],
    sys_entry ''werrstr'' 0xc6935858 40 40 [0x0, 0x80],
    sys_entry ''write'' 0x7cfef557 41 48 [0x0, 0xc0],
    sys_entry ''wstat'' 0x56b02096 42 104 [0x0, 0xbc]]"

definition Sys_PATH :: "byte_t list" where "Sys_PATH = map of_char ''$Sys''"

definition Sysmodinit :: "('z world_scheme, unit) eff" where
  "Sysmodinit = eseq (register_module_exports Sys_PATH Sysmodtab) (
     ebind get_std_streams (\<lambda>(input, output, err).
     ebind (create_fd_record input) (\<lambda>fd_stdin.
     eseq (vm_assert (fd_stdin = 0) ''fd_stdin == 0'') (
     ebind (create_fd_record output) (\<lambda>fd_stdout.
     eseq (vm_assert (fd_stdout = 1) ''fd_stdout == 1'') (
     ebind (create_fd_record err) (\<lambda>fd_stderr.
     eseq (vm_assert (fd_stderr = 2) ''fd_stderr == 2'') (
     modify (\<lambda>w. w\<lparr> w_std_fds := [fd_stdin, fd_stdout, fd_stderr] \<rparr>)))))))))"

definition sys_functions :: "nat \<Rightarrow> host \<Rightarrow> formatter \<Rightarrow> unit exec list" where
  "sys_functions fuel H F = [Sys_announce, Sys_aprint fuel F, Sys_bind, Sys_byte2char, Sys_char2byte, Sys_chdir, Sys_create H, Sys_dial, Sys_dirread,
     Sys_dup, Sys_export, Sys_fauth, Sys_fd2path, Sys_fildes, Sys_file2chan, Sys_fprint fuel H F, Sys_fstat, Sys_fversion,
     Sys_fwstat, Sys_iounit, Sys_listen, Sys_millisec H, Sys_mount, Sys_open H, Sys_pctl, Sys_pipe, Sys_pread, Sys_print fuel H F,
     Sys_pwrite, Sys_read H, Sys_readn, Sys_remove H, Sys_seek H, Sys_sleep H, Sys_sprint fuel F, Sys_stat, Sys_stream fuel H,
     Sys_tokenize, Sys_unmount, Sys_utfbytes, Sys_werrstr, Sys_write H, Sys_wstat]"

definition sys_native :: "nat \<Rightarrow> host \<Rightarrow> formatter \<Rightarrow> nat \<Rightarrow> unit exec" where
  "sys_native fuel H F f = (
     if f < length (sys_functions fuel H F) then eseq (sys_functions fuel H F ! f) (run_host_acts fuel H finalize_fd)
     else throw (Undefined ''not a native function''))"

end
