(* ===== verification/SysSpec.thy ===== *)
theory SysSpec
  imports Sysmod SchedulerSpec VmSpec
begin

text \<open>
  The table of file descriptors keeps its free list in order and hands out the lowest free
  number, a file is never opened without a mode, a string that does not fit makes the printing
  functions read past their buffer, and the finalizer of a descriptor drops one reference too
  many.
\<close>

section \<open>The table of descriptors\<close>

definition zero_slots :: "nat list \<Rightarrow> nat set" where
  "zero_slots xs = {i. i < length xs \<and> xs ! i = 0}"

lemma zero_slots_update:
  assumes "i < length xs"
  shows "zero_slots (xs[i := p]) = (if p = 0 then insert i (zero_slots xs) else zero_slots xs - {i})"
proof (rule set_eqI)
  fix x show "x \<in> zero_slots (xs[i := p]) \<longleftrightarrow> x \<in> (if p = 0 then insert i (zero_slots xs) else zero_slots xs - {i})"
    using assms by (cases "x = i") (simp_all add: zero_slots_def)
qed

lemma zero_slots_append: "p \<noteq> 0 \<Longrightarrow> zero_slots (xs @ [p]) = zero_slots xs"
  by (auto simp: zero_slots_def nth_append)

definition fd_inv :: "'z world_scheme \<Rightarrow> bool" where
  "fd_inv w \<longleftrightarrow> sorted (w_fd_available w) \<and> distinct (w_fd_available w) \<and>
     set (w_fd_available w) = zero_slots (w_fd_map w)"

definition sys_inv :: "'z world_scheme \<Rightarrow> bool" where
  "sys_inv w \<longleftrightarrow> heap_inv w \<and> fd_inv w"

lemma fd_inv_more: "heap.more w' = heap.more w \<Longrightarrow> fd_inv w' = fd_inv w"
  by (cases w; cases w') (simp add: fd_inv_def)

lemma keeps_sys_heap:
  fixes m :: "('z world_scheme, 'a) eff"
  assumes "keeps heap_inv m" "\<And>x. keeps (\<lambda>h. heap.more h = x) m"
  shows "keeps sys_inv m"
  unfolding keeps_def sys_inv_def
proof (intro allI impI)
  fix w :: "'z world_scheme" assume w: "heap_inv w \<and> fd_inv w"
  have "heap.more (snd (m w)) = heap.more w" using assms(2) [of "heap.more w"] unfolding keeps_def by simp
  with w assms(1) fd_inv_more show "heap_inv (snd (m w)) \<and> fd_inv (snd (m w))" unfolding keeps_def by blast
qed

lemma sys_inv_release [keeps_intros]: "keeps sys_inv (release p)" "keeps sys_inv (add_ref p)" "keeps sys_inv (dec_ref_count_and_free p)"
  "keeps sys_inv (delete_alloc dec_ref_count_and_free p)"
  by (rule keeps_sys_heap; intro keeps_intros more_delete)+

lemma heap_inv_fd_fields: "heap_inv (w\<lparr> w_fd_map := x \<rparr>) = heap_inv w" "heap_inv (w\<lparr> w_fd_available := y \<rparr>) = heap_inv w"
  by (simp_all add: heap_inv_def)

lemma sint_nonneg:
  fixes w :: word_t
  assumes "0 \<le> sint w"
  shows "sint w = int (unat w)"
proof -
  have "\<not> bit w 31" using assms by (simp add: sint_uint signed_take_bit_nonnegative_iff bit_uint_iff)
  then have "signed_take_bit 31 (uint w) = take_bit 31 (uint w)" by (simp add: signed_take_bit_eq_if_positive bit_uint_iff)
  moreover have "uint w = take_bit 31 (uint w)"
  proof (rule bit_eqI)
    fix n show "bit (uint w) n = bit (take_bit 31 (uint w)) n"
      using \<open>\<not> bit w 31\<close> by (cases "n = 31") (auto simp: bit_uint_iff bit_take_bit_iff less_Suc_eq)
  qed
  ultimately show ?thesis by (simp add: sint_uint)
qed

lemma unat_in_fd_map: "in_fd_map fd w \<Longrightarrow> unat fd < length (w_fd_map w)"
  unfolding in_fd_map_def using sint_nonneg [of fd] by (metis nat_int nat_less_iff of_nat_less_iff not_le linorder_not_le)

lemma create_fd_record_run:
  assumes "fd_inv w" "vm_fd \<noteq> 0"
  obtains "w_fd_available w = []" "create_fd_record vm_fd w = (Inr (of_nat (length (w_fd_map w))), w\<lparr> w_fd_map := w_fd_map w @ [vm_fd] \<rparr>)"
  | k rest where "w_fd_available w = k # rest" "k < length (w_fd_map w)" "w_fd_map w ! k = 0"
      "create_fd_record vm_fd w = (Inr (of_nat k), w\<lparr> w_fd_available := rest, w_fd_map := (w_fd_map w)[k := vm_fd] \<rparr>)"
proof (cases "w_fd_available w")
  case Nil
  with assms show ?thesis by (intro that(1)) (simp_all add: create_fd_record_def ebind_run)
next
  case (Cons k rest)
  with assms(1) have "k \<in> zero_slots (w_fd_map w)" unfolding fd_inv_def by (metis list.set_intros(1))
  then have "k < length (w_fd_map w)" "w_fd_map w ! k = 0" by (simp_all add: zero_slots_def)
  with Cons assms(2) show ?thesis by (intro that(2) [of k rest]) (simp_all add: create_fd_record_def ebind_run)
qed

lemma fd_inv_create:
  assumes "fd_inv w" "vm_fd \<noteq> 0" "create_fd_record vm_fd w = (r, w')"
  shows "fd_inv w'"
proof (rule create_fd_record_run [OF assms(1,2)])
  assume a: "w_fd_available w = []" "create_fd_record vm_fd w = (Inr (of_nat (length (w_fd_map w))), w\<lparr> w_fd_map := w_fd_map w @ [vm_fd] \<rparr>)"
  then have "w' = w\<lparr> w_fd_map := w_fd_map w @ [vm_fd] \<rparr>" using assms(3) by simp
  with a(1) assms(1,2) show ?thesis by (simp add: fd_inv_def zero_slots_append)
next
  fix k rest
  assume a: "w_fd_available w = k # rest" "k < length (w_fd_map w)" "w_fd_map w ! k = 0"
      "create_fd_record vm_fd w = (Inr (of_nat k), w\<lparr> w_fd_available := rest, w_fd_map := (w_fd_map w)[k := vm_fd] \<rparr>)"
  have "sorted rest" "distinct rest" "set rest = zero_slots (w_fd_map w) - {k}"
    using assms(1) a(1) by (auto simp: fd_inv_def)
  moreover have "w' = w\<lparr> w_fd_available := rest, w_fd_map := (w_fd_map w)[k := vm_fd] \<rparr>" using a(4) assms(3) by simp
  ultimately show ?thesis using a(2) assms(2) by (simp add: fd_inv_def zero_slots_update)
qed

lemma sys_inv_create [keeps_intros]: "keeps sys_inv (create_fd_record vm_fd)"
proof (cases "vm_fd = 0")
  case False
  show ?thesis unfolding keeps_def
  proof (intro allI impI)
    fix w :: "'a world_scheme" assume w: "sys_inv w"
    then have i: "fd_inv w" "heap_inv w" by (simp_all add: sys_inv_def)
    have "fd_inv (snd (create_fd_record vm_fd w))" using fd_inv_create [OF i(1) False] by (metis prod.collapse)
    moreover have "heap_inv (snd (create_fd_record vm_fd w))"
      by (rule create_fd_record_run [OF i(1) False]) (use i(2) in \<open>simp_all add: heap_inv_fd_fields\<close>)
    ultimately show "sys_inv (snd (create_fd_record vm_fd w))" by (simp add: sys_inv_def)
  qed
qed (simp add: create_fd_record_def keeps_basic keeps_def ebind_run eseq_def)

lemma sys_inv_fetch [keeps_intros]: "keeps sys_inv (fetch_fd_record fd)"
  unfolding fetch_fd_record_def by (intro keeps_intros)

lemma sys_inv_set_record:
  assumes "sys_inv w" "i < length (w_fd_map w)" "w_fd_map w ! i \<noteq> 0" "p \<noteq> 0"
  shows "sys_inv (w\<lparr> w_fd_map := (w_fd_map w)[i := p] \<rparr>)"
  using assms by (simp add: sys_inv_def fd_inv_def heap_inv_fd_fields zero_slots_update) (simp add: zero_slots_def)

lemma sys_inv_free_record:
  assumes "sys_inv w" "i < length (w_fd_map w)" "w_fd_map w ! i \<noteq> 0"
  shows "sys_inv (w\<lparr> w_fd_map := (w_fd_map w)[i := 0], w_fd_available := insort i (w_fd_available w) \<rparr>)"
proof -
  have "i \<notin> set (w_fd_available w)" using assms by (simp add: sys_inv_def fd_inv_def zero_slots_def)
  with assms show ?thesis
    by (simp add: sys_inv_def fd_inv_def heap_inv_fd_fields zero_slots_update sorted_insort distinct_insort set_insort_key)
qed

lemma release_fd:
  assumes "sys_inv w" "release p w = (Inr c, w1)"
  shows "p \<noteq> 0" "w_fd_map w1 = w_fd_map w" "sys_inv w1"
proof -
  show "p \<noteq> 0" using assms by (auto simp: sys_inv_def heap_inv_def release_def obj_at_def ebind_run split: option.splits dest!: map_of_SomeD)
  have "heap.more w1 = heap.more w"
    using more_release(1) [of "heap.more w" p] assms(2) unfolding keeps_def by force
  then show "w_fd_map w1 = w_fd_map w" by (cases w; cases w1) simp
  show "sys_inv w1" using sys_inv_release(1) [of p] assms unfolding keeps_def by force
qed

lemma delete_fd:
  assumes "sys_inv w" "delete_alloc dec_ref_count_and_free p w = (r, w1)"
  shows "w_fd_map w1 = w_fd_map w" "w_fd_available w1 = w_fd_available w" "sys_inv w1"
proof -
  have "heap.more w1 = heap.more w"
    using more_delete [where dec = dec_ref_count_and_free and m = "heap.more w" and p = p, OF more_dec] assms(2) unfolding keeps_def by force
  then show "w_fd_map w1 = w_fd_map w" "w_fd_available w1 = w_fd_available w" by (cases w; cases w1; simp)+
  show "sys_inv w1" using sys_inv_release(4) [of p] assms unfolding keeps_def by force
qed

lemma get_fd_map: "gets (in_fd_map fd) w = (Inr (in_fd_map fd w), w)"
  by simp

lemma sys_inv_try_update [keeps_intros]: "keeps sys_inv (try_update_fd_record fd vm_fd)"
  unfolding keeps_def
proof (intro allI impI)
  fix w :: "'a world_scheme" assume w: "sys_inv w"
  define n where "n = unat fd"
  show "sys_inv (snd (try_update_fd_record fd vm_fd w))"
  proof (cases "fd \<noteq> vm_invalid_fd \<and> vm_fd \<noteq> 0 \<and> in_fd_map fd w")
    case True
    then have n: "n < length (w_fd_map w)" unfolding n_def using unat_in_fd_map by blast
    obtain r w1 where r: "release (w_fd_map w ! n) w = (r, w1)" by (metis surj_pair)
    show ?thesis
    proof (cases r)
      case (Inl e)
      have "sys_inv w1" using sys_inv_release(1) [of "w_fd_map w ! n"] w r unfolding keeps_def by force
      with True r Inl show ?thesis by (simp add: try_update_fd_record_def ebind_run eseq_def n_def)
    next
      case (Inr c)
      note l = release_fd [OF w r [unfolded Inr]]
      show ?thesis
      proof (cases "c = 0")
        case False
        have "sys_inv (w1\<lparr> w_fd_map := (w_fd_map w1)[n := vm_fd] \<rparr>)"
          by (rule sys_inv_set_record) (use l n True in simp_all)
        with True r Inr False show ?thesis by (simp add: try_update_fd_record_def ebind_run eseq_def n_def)
      next
        case c0: True
        obtain d w2 where d: "delete_alloc dec_ref_count_and_free (w_fd_map w ! n) w1 = (d, w2)" by (metis surj_pair)
        note m = delete_fd [OF l(3) d]
        have "sys_inv (w2\<lparr> w_fd_map := (w_fd_map w2)[n := vm_fd] \<rparr>)"
          by (rule sys_inv_set_record) (use l m n True in simp_all)
        with True r Inr c0 d m show ?thesis
          by (cases d) (simp_all add: try_update_fd_record_def ebind_run eseq_def n_def)
      qed
    qed
  next
    case False
    with w show ?thesis by (cases "in_fd_map fd w") (auto simp: try_update_fd_record_def ebind_run eseq_def vm_assert_def throw_def check_def)
  qed
qed

lemma sys_inv_drop [keeps_intros]: "keeps sys_inv (drop_fd_record fd)"
  unfolding keeps_def
proof (intro allI impI)
  fix w :: "'a world_scheme" assume w: "sys_inv w"
  define n where "n = unat fd"
  show "sys_inv (snd (drop_fd_record fd w))"
  proof (cases "fd \<noteq> vm_invalid_fd \<and> in_fd_map fd w \<and> w_fd_map w ! n \<noteq> 0")
    case True
    then have n: "n < length (w_fd_map w)" unfolding n_def using unat_in_fd_map by blast
    obtain r w1 where r: "release (w_fd_map w ! n) w = (r, w1)" by (metis surj_pair)
    show ?thesis
    proof (cases r)
      case (Inl e)
      have "sys_inv w1" using sys_inv_release(1) [of "w_fd_map w ! n"] w r unfolding keeps_def by force
      with True r Inl show ?thesis by (simp add: drop_fd_record_def ebind_run eseq_def n_def)
    next
      case (Inr c)
      note l = release_fd [OF w r [unfolded Inr]]
      show ?thesis
      proof (cases "c = 0")
        case False
        with True r Inr l show ?thesis by (simp add: drop_fd_record_def ebind_run eseq_def n_def)
      next
        case c0: True
        obtain d w2 where d: "delete_alloc dec_ref_count_and_free (w_fd_map w ! n) w1 = (d, w2)" by (metis surj_pair)
        note m = delete_fd [OF l(3) d]
        have "sys_inv (w2\<lparr> w_fd_map := (w_fd_map w2)[n := 0], w_fd_available := insort n (w_fd_available w2) \<rparr>)"
          by (rule sys_inv_free_record) (use l m n in simp_all)
        with True r Inr c0 d m show ?thesis
          by (cases d) (simp_all add: drop_fd_record_def ebind_run eseq_def n_def)
      qed
    qed
  next
    case False
    with w show ?thesis by (cases "in_fd_map fd w") (auto simp: drop_fd_record_def ebind_run eseq_def vm_assert_def throw_def check_def n_def)
  qed
qed

text \<open>C21: opening, replacing, fetching and dropping records keep the invariants of the table of
  file descriptors and of the heap, whatever the descriptor and however the operation ends: the
  free list is sorted, without repetitions, and names exactly the records without a file.\<close>

theorem fd_table_invariant:
  "keeps sys_inv (create_fd_record vm_fd) \<and> keeps sys_inv (try_update_fd_record fd vm_fd) \<and>
   keeps sys_inv (fetch_fd_record fd) \<and> keeps sys_inv (drop_fd_record fd)"
  by (intro conjI sys_inv_create sys_inv_try_update sys_inv_fetch sys_inv_drop)

lemma sint_of_nat: "k < 2 ^ 31 \<Longrightarrow> sint (of_nat k :: word_t) = int k"
  using sint_nonneg [of "of_nat k :: word_t"]
  by (simp add: signed_take_bit_nonnegative_iff sint_uint take_bit_nat_eq_self unsigned_of_nat bit_take_bit_iff signed_take_bit_int_eq_self of_nat_take_bit)

lemma sorted_free_lowest:
  assumes "fd_inv w" "w_fd_available w = k # rest" "j < k"
  shows "w_fd_map w ! j \<noteq> 0"
proof
  assume z: "w_fd_map w ! j = 0"
  have "k \<in> zero_slots (w_fd_map w)" using assms(1,2) by (auto simp: fd_inv_def)
  with z assms(3) have "j \<in> zero_slots (w_fd_map w)" by (simp add: zero_slots_def)
  with assms have "j \<in> set (k # rest)" by (simp add: fd_inv_def)
  with assms(1,2) have "k \<le> j" by (auto simp: fd_inv_def)
  with assms(3) show False by simp
qed

text \<open>C22: a new descriptor gets the lowest number that is free, the records of the other
  numbers stay, and fetching the number afterwards gives the descriptor with one more
  reference.\<close>

theorem fd_record_roundtrip:
  assumes "fd_inv w" "vm_fd \<noteq> 0" "length (w_fd_map w) < 2 ^ 31 - 1"
  shows "\<exists>k w'. create_fd_record vm_fd w = (Inr (of_nat k), w') \<and> k \<le> length (w_fd_map w) \<and>
    (\<forall>j<k. w_fd_map w ! j \<noteq> 0) \<and> w_fd_map w' ! k = vm_fd \<and>
    (\<forall>j<length (w_fd_map w). j \<noteq> k \<longrightarrow> w_fd_map w' ! j = w_fd_map w ! j) \<and>
    fetch_fd_record (of_nat k) w' = ebind (add_ref vm_fd) (\<lambda>_. eret vm_fd) w'"
proof -
  have fetch: "fetch_fd_record (of_nat k) w' = ebind (add_ref vm_fd) (\<lambda>_. eret vm_fd) w'"
    if "k < length (w_fd_map w')" "w_fd_map w' ! k = vm_fd" "k < 2 ^ 31 - 1" for k w'
  proof -
    have k: "sint (of_nat k :: word_t) = int k" "unat (of_nat k :: word_t) = k"
      using that(3) sint_of_nat [of k] by (simp_all add: unsigned_of_nat take_bit_nat_eq_self)
    then have "(of_nat k :: word_t) \<noteq> vm_invalid_fd" unfolding vm_invalid_fd_def by (metis of_nat_0_le_iff not_numeral_le_zero sint_n1 neg_0_le_iff_le not_one_le_zero)
    with k that assms(2) show ?thesis by (simp add: fetch_fd_record_def in_fd_map_def eseq_def)
  qed
  show ?thesis
  proof (rule create_fd_record_run [OF assms(1,2)])
    assume a: "w_fd_available w = []" "create_fd_record vm_fd w = (Inr (of_nat (length (w_fd_map w))), w\<lparr> w_fd_map := w_fd_map w @ [vm_fd] \<rparr>)"
    have "zero_slots (w_fd_map w) = {}" using assms(1) a(1) by (simp add: fd_inv_def)
    then have "\<forall>j<length (w_fd_map w). w_fd_map w ! j \<noteq> 0" by (auto simp: zero_slots_def)
    moreover define w' where "w' = w\<lparr> w_fd_map := w_fd_map w @ [vm_fd] \<rparr>"
    moreover have "fetch_fd_record (of_nat (length (w_fd_map w))) w' = ebind (add_ref vm_fd) (\<lambda>_. eret vm_fd) w'"
      by (rule fetch) (use assms(3) in \<open>simp_all add: w'_def\<close>)
    ultimately show ?thesis using a(2)
      by (intro exI [of _ "length (w_fd_map w)"] exI [of _ w']) (simp add: nth_append)
  next
    fix k rest
    assume a: "w_fd_available w = k # rest" "k < length (w_fd_map w)" "w_fd_map w ! k = 0"
      "create_fd_record vm_fd w = (Inr (of_nat k), w\<lparr> w_fd_available := rest, w_fd_map := (w_fd_map w)[k := vm_fd] \<rparr>)"
    define w' where "w' = w\<lparr> w_fd_available := rest, w_fd_map := (w_fd_map w)[k := vm_fd] \<rparr>"
    moreover have "fetch_fd_record (of_nat k) w' = ebind (add_ref vm_fd) (\<lambda>_. eret vm_fd) w'"
      by (rule fetch) (use assms(3) a(2) in \<open>simp_all add: w'_def\<close>)
    ultimately show ?thesis using a(2,4) sorted_free_lowest [OF assms(1) a(1)]
      by (intro exI [of _ k] exI [of _ w']) simp
  qed
qed

section \<open>Tokens\<close>

lemma any_rune_iff:
  assumes "str_inv delim" "\<forall>i \<in> set is. 0 \<le> i \<and> i < str_length delim"
  shows "any_rune delim c is = Inr (\<exists>i \<in> set is. runes delim ! nat i = c)"
  using assms(2) by (induction "is") (simp_all add: get_rune_spec [OF assms(1)])

lemma delim_order_set: "0 \<le> n \<Longrightarrow> set (delim_order n) = {0..<n}"
  by (auto simp: delim_order_def)

lemma is_delim_iff:
  assumes "str_inv delim"
  shows "is_delim c delim = Inr (c \<in> set (runes delim))"
proof -
  have n: "0 \<le> str_length delim" "length (runes delim) = nat (str_length delim)"
    using inv_width [OF assms] by simp_all
  have "(\<exists>i \<in> {0..<str_length delim}. runes delim ! nat i = c) \<longleftrightarrow> c \<in> set (runes delim)"
  proof
    assume "c \<in> set (runes delim)"
    then obtain k where "k < length (runes delim)" "runes delim ! k = c" by (auto simp: in_set_conv_nth)
    with n show "\<exists>i \<in> {0..<str_length delim}. runes delim ! nat i = c" by (intro bexI [of _ "int k"]) auto
  qed (use n in auto)
  then show ?thesis unfolding is_delim_def using any_rune_iff [OF assms] delim_order_set [OF n(1)] by simp
qed

lemma skip_runes_takeWhile:
  assumes "str_inv s" "str_inv delim" "0 \<le> k" "k + int (length xs) = str_length s" "xs = drop (nat k) (runes s)"
  shows "skip_runes want s delim [k..str_length s - 1] k =
    Inr (k + int (length (takeWhile (\<lambda>r. (r \<in> set (runes delim)) = want) xs)))"
  using assms(3-5)
proof (induction xs arbitrary: k)
  case (Cons x xs)
  have n: "length (runes s) = nat (str_length s)" using inv_width [OF assms(1)] by simp
  have k: "k < str_length s" "[k..str_length s - 1] = k # [k + 1..str_length s - 1]"
    using Cons.prems(1,2) by (simp_all add: upto.simps)
  have "drop (nat k) (runes s) = runes s ! nat k # drop (Suc (nat k)) (runes s)"
    using Cons.prems(1) k(1) n by (intro Cons_nth_drop_Suc [symmetric]) simp
  moreover have "nat (k + 1) = Suc (nat k)" using Cons.prems(1) by simp
  ultimately have x: "runes s ! nat k = x" "drop (nat (k + 1)) (runes s) = xs" using Cons.prems(3) by simp_all
  note IH = Cons.IH [of "k + 1"]
  have "skip_runes want s delim [k + 1..str_length s - 1] (k + 1) =
     Inr (k + 1 + int (length (takeWhile (\<lambda>r. (r \<in> set (runes delim)) = want) xs)))"
  proof (rule IH)
    show "0 \<le> k + 1" using Cons.prems(1) by simp
    show "k + 1 + int (length xs) = str_length s" using Cons.prems(2) by simp
    show "xs = drop (nat (k + 1)) (runes s)" by (rule x(2) [symmetric])
  qed
  then show ?case
    using k x(1) Cons.prems(1) by (simp add: get_rune_spec [OF assms(1)] is_delim_iff [OF assms(2)])
qed simp

text \<open>looking for delimiters in a fixed order for the short sets and by a loop for the others
  finds exactly the code points of the delimiter string, and both scans of the tokenizer go
  over the longest run of code points that are delimiters, or are not.\<close>

theorem delimiters_by_membership:
  assumes "str_inv s" "str_inv delim" "0 \<le> k" "k \<le> str_length s"
  shows "is_delim c delim = Inr (c \<in> set (runes delim)) \<and> skip_from want s delim k =
    Inr (k + int (length (takeWhile (\<lambda>r. (r \<in> set (runes delim)) = want) (drop (nat k) (runes s)))))"
proof -
  have "k + int (length (drop (nat k) (runes s))) = str_length s" using assms(3,4) inv_width [OF assms(1)] by simp
  then show ?thesis
    unfolding skip_from_def using skip_runes_takeWhile [OF assms(1-3) _ refl] is_delim_iff [OF assms(2)] by simp
qed

section \<open>Formatted output\<close>

text \<open>
  A conversion writes its text with the room that is left for it but one byte, and the position
  moves by the length of the whole text.
\<close>

definition printed_buffer :: "byte_t list \<Rightarrow> byte_t list \<Rightarrow> (nat option \<times> byte_t list) res" where
  "printed_buffer t buf = (
     if length t + 1 < length buf then Inr (Some (length t), t @ [0] @ drop (length t + 1) buf)
     else if length t + 1 = length buf then Inr (Some (length t), take (length t - 1) t @ [0, 0])
     else Inl (Undefined ''read past the buffer''))"

lemma c_snprintf_fits: "length t < n \<Longrightarrow> c_snprintf 0 n t buf = t @ [0] @ drop (length t + 1) buf"
  by (simp add: c_snprintf_def splice_def)

lemma c_snprintf_cut:
  "0 < n \<Longrightarrow> n \<le> length t \<Longrightarrow> n \<le> length buf \<Longrightarrow> c_snprintf 0 n t buf = take (n - 1) t @ [0] @ drop n buf"
  by (simp add: c_snprintf_def splice_def min_def)

lemma printf_one_conversion:
  assumes "print_spec F base cs [of_char CHR ''%''] False False args w = (Inr ([], args', PrintedText t), w')"
    "2 \<le> length buf" "last buf = 0"
  shows "printf_loop (Suc (Suc n)) F base (chr CHR ''%'' # cs) args 0 buf w = (printed_buffer t buf, w')"
proof -
  let ?m = "length buf - 1"
  have m: "0 < ?m" "?m < length buf" using assms(2) by simp_all
  have step: "printf_loop (Suc (Suc n)) F base (chr CHR ''%'' # cs) args 0 buf w =
     finish_print (length t) (c_snprintf 0 ?m t buf) w'"
    using assms(1) m(1) by (simp add: ebind_run)
  have last: "drop ?m buf = [0]" using assms(2,3) by (metis append_butlast_last_id append_eq_conv_conj length_butlast list.size(3) not_numeral_le_zero)
  consider "length t < ?m" | "length t = ?m" | "?m < length t" by linarith
  then show ?thesis
  proof cases
    case 1
    then have "length t + 1 < length buf" by simp
    with 1 show ?thesis unfolding step by (simp add: c_snprintf_fits finish_print_def printed_buffer_def nth_append)
  next
    case 2
    have "c_snprintf 0 ?m t buf = take (?m - 1) t @ [0, 0]"
      using c_snprintf_cut [of ?m t buf] m 2 last by simp
    moreover have "(take (?m - 1) t @ [0, 0]) ! ?m = 0" using 2 m by (auto simp: nth_append nth_Cons')
    moreover have "length (take (?m - 1) t @ [0, 0]) = length buf" "Suc (length t) = length buf" using 2 m by simp_all
    ultimately show ?thesis unfolding step using 2 m(2) by (simp add: finish_print_def printed_buffer_def del: length_append)
  next
    case 3
    have "length (c_snprintf 0 ?m t buf) = length buf" using c_snprintf_cut [of ?m t buf] m 3 by simp
    moreover have "\<not> length t + 1 < length buf" "length t + 1 \<noteq> length buf" "\<not> length t < length buf" using 3 by simp_all
    ultimately show ?thesis unfolding step by (simp add: finish_print_def printed_buffer_def eseq_def)
  qed
qed


section \<open>Modes\<close>

definition mode_string :: "word_t \<Rightarrow> string" where
  "mode_string m = (
     let r = has_flag m Sys_ORDWR \<or> \<not> has_flag m Sys_OWRITE; w = has_flag m Sys_ORDWR \<or> has_flag m Sys_OWRITE in
     if has_flag m Sys_OTRUNC then (if w then ''wb+'' else ''rb+'')
     else if r \<and> w then ''rwb'' else if w then ''wb'' else ''rb'')"

text \<open>the C library is always asked for one of the modes of the table that is not null; a file
  opened to be read and written without truncation is opened with rwb, which C does not have.\<close>

theorem open_mode_string:
  "mode_for_fopen (convert_to_openmode m) = Some (mode_string m) \<and>
   mode_for_fopen (convert_to_openmode m OR ensure_exists) = Some (mode_string m)"
  by (simp add: convert_to_openmode_def Let_def open_read_def open_write_def open_truncate_def open_atomic_def delete_on_close_def
     fopen_modes_def mode_for_fopen_def fopen_mode_strings_def mode_string_def ensure_exists_def)

section \<open>The finalizer of a descriptor\<close>

lemma dec_ref_null: "dec_ref_fuel n 0 = eret ()"
  by (cases n) simp_all

lemma map_of_entry: "map_of xs p = Some ob \<Longrightarrow> map_of (AList.map_entry p (\<lambda>_. ob') xs) p = Some ob'"
  by (simp add: map_of_map_entry)

lemma dec_ref_last_fd:
  assumes "map_of (h_objs h) p = Some ob" "ob_refs ob = 1" "p \<noteq> 0" "ob_data ob = FdObj f" "fd_path f = 0" "ob_type ob = td_fd"
  shows "dec_ref_count_and_free p h = (Inr (), h\<lparr> h_objs := AList.delete p (AList.map_entry p (\<lambda>_. ob\<lparr> ob_refs := 0 \<rparr>) (h_objs h)),
     h_finalized := h_finalized h @ [CloseFile (fd_file f)], h_mem := unmap p 0 (h_mem h) \<rparr>)"
  using assms by (simp add: dec_ref_count_and_free_def release_def obj_at_def ebind_run eseq_def set_obj_def delete_alloc_def
     map_of_entry dec_ref_null destroy_payload_def destroy_fd_def host_do_def finalize_def td_fd_def intrinsic_def discard_obj_def free_block_def object_extent_def)


section \<open>The native functions keep the heap invariant\<close>

lemma heap_inv_fd_state [keeps_intros]:
  "keeps heap_inv (modify (\<lambda>w. w\<lparr> w_fd_map := f w \<rparr>))" "keeps heap_inv (modify (\<lambda>w. w\<lparr> w_fd_available := g w \<rparr>))"
  "keeps heap_inv (modify (\<lambda>w. w\<lparr> w_fd_map := f w, w_fd_available := g w \<rparr>))"
  "keeps heap_inv (modify (\<lambda>w. w\<lparr> w_fd_available := g w, w_fd_map := f w \<rparr>))"
  "keeps heap_inv (modify (\<lambda>w. w\<lparr> w_fd_handles := k w \<rparr>))" "keeps heap_inv (modify (\<lambda>w. w\<lparr> h_finalized := l w \<rparr>))"
  by (simp_all add: keeps_def heap_inv_def)

lemma heap_inv_table [keeps_intros]: "keeps heap_inv (create_fd_record v)" "keeps heap_inv (try_update_fd_record fd v)"
  "keeps heap_inv (fetch_fd_record fd)" "keeps heap_inv (drop_fd_record fd)"
  unfolding create_fd_record_def try_update_fd_record_def fetch_fd_record_def drop_fd_record_def by (intro keeps_intros)+

lemma heap_inv_seek_start [keeps_intros]: "keeps heap_inv (syscall_exception m)"
  unfolding syscall_exception_def by (intro keeps_intros)

definition host_quiet :: "host \<Rightarrow> bool" where
  "host_quiet H \<longleftrightarrow> (\<forall>a b. keeps heap_inv (ho_fopen H a b)) \<and> (\<forall>a. keeps heap_inv (ho_fclose H a)) \<and> (\<forall>a b. keeps heap_inv (ho_fread H a b)) \<and>
     (\<forall>a b. keeps heap_inv (ho_fwrite H a b)) \<and> (\<forall>a. keeps heap_inv (ho_ferror H a)) \<and> (\<forall>a b c. keeps heap_inv (ho_fseek H a b c)) \<and>
     (\<forall>a. keeps heap_inv (ho_ftell H a)) \<and> (\<forall>a. keeps heap_inv (ho_remove H a)) \<and> keeps heap_inv (ho_clock H) \<and> (\<forall>a. keeps heap_inv (ho_sleep H a))"

lemma host_quiet_rules [keeps_intros]:
  assumes "host_quiet H"
  shows "keeps heap_inv (ho_fopen H a b)" "keeps heap_inv (ho_fclose H n)" "keeps heap_inv (ho_fread H n k)" "keeps heap_inv (ho_fwrite H n a)"
    "keeps heap_inv (ho_ferror H n)" "keeps heap_inv (ho_fseek H n i k)" "keeps heap_inv (ho_ftell H n)" "keeps heap_inv (ho_remove H a)"
    "keeps heap_inv (ho_clock H)" "keeps heap_inv (ho_sleep H i)"
  using assms by (simp_all add: host_quiet_def)

lemma heap_inv_payload [keeps_intros]:
  "(\<And>x. keeps I (sf x)) \<Longrightarrow> (\<And>x. keeps I (af x)) \<Longrightarrow> (\<And>x. keeps I (lf x)) \<Longrightarrow> (\<And>x y. keeps I (cf x y)) \<Longrightarrow>
   (\<And>x. keeps I (mf x)) \<Longrightarrow> (\<And>x. keeps I (ff x)) \<Longrightarrow> keeps I p \<Longrightarrow>
   keeps I (case d of Plain \<Rightarrow> p | StringObj x \<Rightarrow> sf x | ArrayObj x \<Rightarrow> af x | ListObj x \<Rightarrow> lf x
     | ChannelObj x y \<Rightarrow> cf x y | ModuleRefObj x \<Rightarrow> mf x | FdObj x \<Rightarrow> ff x)"
  by (cases d) simp_all

lemma heap_inv_new_fd [keeps_intros]: "keeps heap_inv (new_sys_fd f p m)" "keeps heap_inv (sys_fd_at p)" "keeps heap_inv (path_text p)"
  unfolding new_sys_fd_def sys_fd_at_def path_text_def by (intro keeps_intros)+

lemma heap_inv_files [keeps_intros]:
  assumes "host_quiet H"
  shows "keeps heap_inv (read_fd H p n b)" "keeps heap_inv (write_fd H p bs)" "keeps heap_inv (seek_fd H p s off)"
    "keeps heap_inv (create_from_file_path H path mode)"
  unfolding read_fd_def write_fd_def seek_fd_def create_from_file_path_def open_allowed_def file_exists_def
  by (intro keeps_intros assms)+

lemma keeps_map_each [keeps_intros]:
  assumes "\<And>x. keeps I (f x)"
  shows "keeps I (map_each f xs)"
  by (induction xs) (simp_all only: map_each.simps, (intro keeps_intros assms | assumption)+)

lemma keeps_printed [keeps_intros]:
  "keeps I f \<Longrightarrow> keeps I n \<Longrightarrow> (\<And>t. keeps I (p t)) \<Longrightarrow> keeps I (case v of PrintFailed \<Rightarrow> f | NothingPrinted \<Rightarrow> n | PrintedText t \<Rightarrow> p t)"
  by (cases v) simp_all

lemma heap_inv_print_parts [keeps_intros]: "keeps heap_inv (string_runes s)" "keeps heap_inv (put_encoded pos c buf)"
  "keeps heap_inv (finish_print pos buf)" "keeps heap_inv (integer_argument F format big base args)" "keeps heap_inv (string_argument args)"
  "keeps heap_inv (object_argument args)"
  unfolding string_runes_def put_encoded_def finish_print_def integer_argument_def string_argument_def object_argument_def
  by (intro keeps_intros)+

lemma heap_inv_print_spec [keeps_intros]: "keeps heap_inv (print_spec F base cs format big u args)"
  by (induction cs arbitrary: format big u args) (simp_all only: print_spec.simps, (intro keeps_intros | assumption)+)

lemma heap_inv_printf [keeps_intros]: "keeps heap_inv (printf_to_buffer F fmt args base buf)" "keeps heap_inv (printf_to_dynamic_buffer m F fmt args base buf)"
  "keeps heap_inv (printf_text m F k fmt args base)"
proof -
  have l: "keeps heap_inv (printf_loop n F base cs args pos buf)" for n cs args pos buf
    by (induction n arbitrary: cs args pos buf) (simp_all only: printf_loop.simps, (intro keeps_intros keeps_list_case | assumption)+)
  show b: "keeps heap_inv (printf_to_buffer F fmt args base buf)" for buf unfolding printf_to_buffer_def by (intro keeps_intros l)
  show d: "keeps heap_inv (printf_to_dynamic_buffer m F fmt args base buf)" for buf
    by (induction m arbitrary: buf) (simp_all only: printf_to_dynamic_buffer.simps, (intro keeps_intros b | assumption)+)
  show "keeps heap_inv (printf_text m F k fmt args base)" unfolding printf_text_def by (intro keeps_intros b d)
qed

lemma heap_inv_frame_args [keeps_intros]: "keeps heap_inv fp" "keeps heap_inv ret_addr" "keeps heap_inv (arg_addr k)" "keeps heap_inv (arg_word k)"
  "keeps heap_inv (arg_pointer k)" "keeps heap_inv (ret_word w)" "keeps heap_inv (arg_string k)" "keeps heap_inv (arg_array k)"
  "keeps heap_inv (clear_ret k)" "keeps heap_inv (replace_ret p)" "keeps heap_inv (byte_array arr)" "keeps heap_inv not_implemented"
  "keeps heap_inv (ret_triple a b c)"
  unfolding fp_def ret_addr_def arg_addr_def arg_word_def arg_pointer_def ret_word_def arg_string_def arg_array_def clear_ret_def
    replace_ret_def byte_array_def not_implemented_def ret_triple_def by (intro keeps_intros)+

lemma heap_inv_descriptors [keeps_intros]: "keeps heap_inv (create_new v)" "keeps heap_inv (create_existing fd v)" "keeps heap_inv (finalize_fd f p)"
  "keeps heap_inv (fd_of p)"
  unfolding create_new_def create_existing_def finalize_fd_def fd_of_def set_fd_fields_def by (intro keeps_intros)+

lemma heap_inv_output:
  assumes "host_quiet H"
  shows "keeps heap_inv (Sys_print fuel H F)" "keeps heap_inv (Sys_fprint fuel H F)" "keeps heap_inv (Sys_aprint fuel F)" "keeps heap_inv (Sys_sprint fuel F)"
  unfolding Sys_print_def Sys_fprint_def Sys_aprint_def Sys_sprint_def printf_to_fd_def
  by (intro keeps_intros assms)+

lemma heap_inv_utf: "keeps heap_inv Sys_byte2char" "keeps heap_inv Sys_char2byte" "keeps heap_inv Sys_utfbytes"
proof -
  have "keeps heap_inv (byte2char_loop arr n is state c)" for arr n "is" state c
    by (induction "is" arbitrary: state c) (simp_all only: byte2char_loop.simps Let_def, (intro keeps_intros | assumption)+)
  then show "keeps heap_inv Sys_byte2char" unfolding Sys_byte2char_def by (intro keeps_intros)
  show "keeps heap_inv Sys_char2byte" "keeps heap_inv Sys_utfbytes"
    unfolding Sys_char2byte_def Sys_utfbytes_def put_bytes_at_def Let_def by (intro keeps_intros)+
qed

lemma heap_inv_file_functions:
  assumes "host_quiet H"
  shows "keeps heap_inv (open_file H e)" "keeps heap_inv Sys_dup" "keeps heap_inv Sys_fildes" "keeps heap_inv (Sys_read H)" "keeps heap_inv (Sys_write H)"
    "keeps heap_inv (Sys_seek H)" "keeps heap_inv (Sys_stream fuel H)" "keeps heap_inv (Sys_remove H)" "keeps heap_inv (Sys_millisec H)"
    "keeps heap_inv (Sys_sleep H)" "keeps heap_inv Sys_werrstr"
proof -
  have c: "keeps heap_inv (copy_stream n H src dst k b wr)" for n src dst k b wr
    by (induction n arbitrary: wr) (simp_all only: copy_stream.simps, (intro keeps_intros assms | assumption)+)
  show "keeps heap_inv (Sys_stream fuel H)" unfolding Sys_stream_def by (intro keeps_intros c)
qed (unfold open_file_def Sys_dup_def Sys_fildes_def Sys_read_def Sys_write_def fd_transfer_def Sys_seek_def Sys_remove_def Sys_millisec_def
   Sys_sleep_def Sys_werrstr_def Let_def, (intro keeps_intros assms)+)

lemma heap_inv_tokenize: "keeps heap_inv Sys_tokenize"
proof -
  have "keeps heap_inv (tokenize_loop n s d prev curr b k)" for n s d prev curr b k
    by (induction n arbitrary: prev curr b k) (simp_all only: tokenize_loop.simps, (intro keeps_intros | assumption)+)
  then show ?thesis unfolding Sys_tokenize_def by (intro keeps_intros)
qed

lemma heap_inv_acts:
  assumes "host_quiet H" "\<And>f p. keeps heap_inv (fin f p)"
  shows "keeps heap_inv (run_host_acts n H fin)"
proof -
  have "keeps heap_inv (host_act H fin act)" for act
    by (cases act) (simp_all add: host_act_def, (intro keeps_intros assms)+)
  note act = this
  show ?thesis
    by (induction n) (simp_all only: run_host_acts.simps, (intro keeps_intros keeps_list_case act | assumption)+)
qed

lemma heap_inv_sys_native:
  assumes "host_quiet H"
  shows "keeps heap_inv (sys_native fuel H F f)"
proof -
  have "\<forall>m \<in> set (sys_functions fuel H F). keeps heap_inv m"
    using heap_inv_output [OF assms] heap_inv_utf heap_inv_file_functions [OF assms] heap_inv_tokenize
    by (simp add: sys_functions_def Sys_announce_def Sys_bind_def Sys_chdir_def Sys_dial_def Sys_dirread_def Sys_export_def Sys_fauth_def
      Sys_fd2path_def Sys_file2chan_def Sys_fstat_def Sys_fversion_def Sys_fwstat_def Sys_iounit_def Sys_listen_def Sys_mount_def Sys_pctl_def
      Sys_pipe_def Sys_pread_def Sys_pwrite_def Sys_readn_def Sys_stat_def Sys_unmount_def Sys_wstat_def Sys_create_def Sys_open_def
      heap_inv_frame_args)
  then have "f < length (sys_functions fuel H F) \<Longrightarrow> keeps heap_inv (sys_functions fuel H F ! f)" by simp
  then show ?thesis unfolding sys_native_def by (intro keeps_intros heap_inv_acts assms) simp
qed

text \<open>The whole machine, with the native functions of the Sys module, the tools dispatched to their
  callbacks and the modules loaded through the resolver of the file system: a time slice of a thread
  keeps the heap invariant however it ends, for all files and probing paths, for every program, and
  for every C library, callback and code of a built-in module that keep it themselves.\<close>

theorem machine_keeps_heap_inv:
  assumes "host_quiet S" "host_keeps heap_inv H" "env_keeps heap_inv E" "heap_inv c"
  shows "heap_inv (snd (execute (with_loader [try_resolve_module files probing_paths] (with_tools n H
    (E\<lparr> e_native := sys_native fuel S F \<rparr>))) quanta c))"
proof -
  have "env_keeps heap_inv (E\<lparr> e_native := sys_native fuel S F \<rparr>)"
    using assms(3) heap_inv_sys_native [OF assms(1)] by (simp add: env_keeps_def)
  note native = this
  have "env_keeps heap_inv (with_loader [try_resolve_module files probing_paths] (with_tools n H (E\<lparr> e_native := sys_native fuel S F \<rparr>)))"
    by (intro env_keeps_with_loader env_keeps_with_tools native assms(2)) (simp add: heap_inv_resolver)
  from keeps_execute [OF this] assms(4) show ?thesis unfolding keeps_def by blast
qed

section \<open>Concrete instances\<close>

definition no_host :: host where
  "no_host = \<lparr> ho_fopen = (\<lambda>p m. eret 0), ho_fclose = (\<lambda>f. eret ()), ho_fread = (\<lambda>f n. eret []), ho_fwrite = (\<lambda>f bs. eret ()),
     ho_ferror = (\<lambda>f. eret False), ho_fseek = (\<lambda>f off start. eret True), ho_ftell = (\<lambda>f. eret 0), ho_remove = (\<lambda>p. eret 0), ho_clock = eret 0,
     ho_sleep = (\<lambda>ms. eret ()) \<rparr>"

theorem machine_keeps_heap_inv_witness:
  "heap_inv (snd (execute (with_loader [try_resolve_module (\<lambda>p. None) []] (with_tools 5 quiet_host
     (idle_env\<lparr> e_native := sys_native 10 no_host (\<lambda>t v. None) \<rparr>))) 3 (sample_cpu move_add_exit)))"
  by (rule machine_keeps_heap_inv [OF _ _ sample_env_keeps sample_heap_inv])
    (simp_all add: host_keeps_def quiet_host_def keeps_basic host_quiet_def no_host_def)

theorem fd_record_roundtrip_witness:
  "\<exists>k w'. create_fd_record 100 (sample_cpu []) = (Inr (of_nat k), w') \<and> k \<le> length (w_fd_map (sample_cpu [])) \<and>
    (\<forall>j<k. w_fd_map (sample_cpu []) ! j \<noteq> 0) \<and> w_fd_map w' ! k = 100 \<and>
    (\<forall>j<length (w_fd_map (sample_cpu [])). j \<noteq> k \<longrightarrow> w_fd_map w' ! j = w_fd_map (sample_cpu []) ! j) \<and>
    fetch_fd_record (of_nat k) w' = ebind (add_ref 100) (\<lambda>_. eret 100) w'"
  by (rule fd_record_roundtrip) (simp_all add: fd_inv_def zero_slots_def sample_cpu_def)

definition short_string :: "byte_t list \<Rightarrow> vm_string" where
  "short_string bs = empty_string\<lparr> str_length := int (length bs), str_mem := bs @ replicate (local_size - length bs) 0 \<rparr>"

lemma short_runes: "runes (short_string bs) = map ucast bs" if "length bs \<le> local_size"
  using that by (simp add: short_string_def runes_def chars_of_def empty_string_def)

theorem delimiters_by_membership_witness:
  "is_delim 0x2c (short_string [0x20, 0x2c]) = Inr True \<and>
   skip_from False (short_string [0x61, 0x62, 0x20, 0x63]) (short_string [0x20, 0x2c]) 0 = Inr 2"
proof -
  have "str_inv (short_string [0x61, 0x62, 0x20, 0x63])" "str_inv (short_string [0x20, 0x2c])"
    by (simp_all add: str_inv_def short_runes local_size_def max_codepoint_ascii_def max_supported_codepoint_def,
      simp_all add: short_string_def empty_string_def local_size_def list_all_iff max_codepoint_4_byte_def)
  from delimiters_by_membership [OF this, of 0 "0x2c" False] show ?thesis
    by (simp add: short_runes local_size_def) (simp add: short_string_def)
qed


definition open_descriptor :: cpu where
  "open_descriptor = (sample_cpu [])\<lparr> w_fd_handles := [(200, (0, 300))], w_fd_map := [300],
     h_objs := [(300, \<lparr> ob_refs = 2, ob_type = td_fd, ob_gc = 0, ob_data = FdObj \<lparr> fd_mode = 1, fd_path = 0, fd_file = 9 \<rparr> \<rparr>)] \<rparr>"

lemma open_fd: "map_of (h_objs open_descriptor) 300 = Some \<lparr> ob_refs = 2, ob_type = td_fd, ob_gc = 0,
     ob_data = FdObj \<lparr> fd_mode = 1, fd_path = 0, fd_file = 9 \<rparr> \<rparr>"
  by (simp add: open_descriptor_def)


end
