(* ===== verification/Mathmod.thy ===== *)
theory Mathmod
  imports Sysmod
begin

text \<open>
  The built-in module \<^verbatim>\<open>$Math\<close> (\<^verbatim>\<open>src/src/vm/math/Mathmod.cpp\<close> with the frames of
  \<^verbatim>\<open>Mathmod.hpp\<close>) and the matrix product it calls (\<^verbatim>\<open>dgemm.c\<close>, \<^verbatim>\<open>lsame.c\<close>). A real is the
  64-bit pattern of a double; the functions of the C library on reals, its conversions and its
  floating point environment are the parameters \<open>libm\<close> and \<open>fenv\<close>. The two codings of the
  rounding modes and exceptions are part of the model, the values of the C library's flags part
  of the parameter.
\<close>

section \<open>The C library\<close>

datatype libm1 = Acos | Acosh | Asin | Asinh | Atan | Atanh | Cbrt | Ceil | Cos | Cosh | Erf | Erfc | Exp | Expm1 | Fabs | Floor
  | Log | Log10 | Log1p | Rint | Sin | Sinh | Sqrt | Tan | Tanh

datatype libm2 = Atan2 | Copysign | Fdim | Fmax | Fmin | Fmod | Hypot | Nextafter | Pow | Remainder

record libm =
  lm_fun1 :: "libm1 \<Rightarrow> big_t \<Rightarrow> big_t"
  lm_fun2 :: "libm2 \<Rightarrow> big_t \<Rightarrow> big_t \<Rightarrow> big_t"
  lm_add :: "big_t \<Rightarrow> big_t \<Rightarrow> big_t"
  lm_mul :: "big_t \<Rightarrow> big_t \<Rightarrow> big_t"
  lm_less :: "big_t \<Rightarrow> big_t \<Rightarrow> bool"
  lm_equal :: "big_t \<Rightarrow> big_t \<Rightarrow> bool"
  lm_isfinite :: "big_t \<Rightarrow> bool"
  lm_isnan :: "big_t \<Rightarrow> bool"
  lm_ilogb :: "big_t \<Rightarrow> word_t"
  lm_scalbln :: "big_t \<Rightarrow> word_t \<Rightarrow> big_t"
  lm_modf :: "big_t \<Rightarrow> big_t \<times> big_t"
  lm_to_word :: "big_t \<Rightarrow> word_t"
  lm_of_word :: "word_t \<Rightarrow> big_t"
  lm_to_float :: "big_t \<Rightarrow> word_t"
  lm_of_float :: "word_t \<Rightarrow> big_t"
  lm_sort :: "(word_t \<Rightarrow> word_t \<Rightarrow> bool) \<Rightarrow> word_t list \<Rightarrow> word_t list"

record fenv =
  fe_getround :: "word_t exec"
  fe_setround :: "word_t \<Rightarrow> bool exec"
  fe_getexcept :: "word_t option exec"
  fe_clearexcept :: "bool exec"
  fe_setexcept :: "word_t \<Rightarrow> word_t \<Rightarrow> bool exec"
  FE_TONEAREST :: word_t
  FE_DOWNWARD :: word_t
  FE_UPWARD :: word_t
  FE_TOWARDZERO :: word_t
  FE_ROUND_MASK :: word_t
  FE_INEXACT :: word_t
  FE_UNDERFLOW :: word_t
  FE_OVERFLOW :: word_t
  FE_DIVBYZERO :: word_t
  FE_INVALID :: word_t

definition real_zero :: big_t where "real_zero = 0"
definition real_one :: big_t where "real_one = 0x3ff0000000000000"
definition real_ten :: big_t where "real_ten = 0x4024000000000000"

section \<open>Flags of the floating point environment\<close>

definition Math_INVAL :: word_t where "Math_INVAL = 0x1"
definition Math_ZDIV :: word_t where "Math_ZDIV = 0x2"
definition Math_OVFL :: word_t where "Math_OVFL = 0x4"
definition Math_UNFL :: word_t where "Math_UNFL = 0x8"
definition Math_INEX :: word_t where "Math_INEX = 0x10"
definition Math_RND_NR :: word_t where "Math_RND_NR = 0"
definition Math_RND_NINF :: word_t where "Math_RND_NINF = 0x100"
definition Math_RND_PINF :: word_t where "Math_RND_PINF = 0x200"
definition Math_RND_Z :: word_t where "Math_RND_Z = 0x300"
definition Math_RND_MASK :: word_t where "Math_RND_MASK = 0x300"

definition convert_to_limbo_fp_round :: "fenv \<Rightarrow> word_t \<Rightarrow> word_t res" where
  "convert_to_limbo_fp_round V r = (let m = r AND FE_ROUND_MASK V in
     if m = FE_TONEAREST V then Inr Math_RND_NR
     else if m = FE_DOWNWARD V then Inr Math_RND_NINF
     else if m = FE_UPWARD V then Inr Math_RND_PINF
     else if m = FE_TOWARDZERO V then Inr Math_RND_Z
     else Inl (AssertFailed ''Invalid floating point rounding flag''))"

definition add_flag :: "word_t \<Rightarrow> word_t \<Rightarrow> word_t \<Rightarrow> word_t \<Rightarrow> word_t" where
  "add_flag e test flag flags = (if has_flag e test then flags OR flag else flags)"

definition convert_to_limbo_fp_exception :: "fenv \<Rightarrow> word_t \<Rightarrow> word_t" where
  "convert_to_limbo_fp_exception V e = add_flag e (FE_INVALID V) Math_INVAL (add_flag e (FE_DIVBYZERO V) Math_ZDIV
     (add_flag e (FE_OVERFLOW V) Math_OVFL (add_flag e (FE_UNDERFLOW V) Math_UNFL (add_flag e (FE_INEXACT V) Math_INEX 0))))"

definition convert_to_std_fp_round :: "fenv \<Rightarrow> word_t \<Rightarrow> word_t res" where
  "convert_to_std_fp_round V r = (let m = r AND Math_RND_MASK in
     if m = Math_RND_NR then Inr (FE_TONEAREST V)
     else if m = Math_RND_NINF then Inr (FE_DOWNWARD V)
     else if m = Math_RND_PINF then Inr (FE_UPWARD V)
     else if m = Math_RND_Z then Inr (FE_TOWARDZERO V)
     else Inl (AssertFailed ''Invalid floating point rounding flag''))"

definition convert_to_std_fp_exception :: "fenv \<Rightarrow> word_t \<Rightarrow> word_t" where
  "convert_to_std_fp_exception V e = add_flag e Math_INVAL (FE_INVALID V) (add_flag e Math_ZDIV (FE_DIVBYZERO V)
     (add_flag e Math_OVFL (FE_OVERFLOW V) (add_flag e Math_UNFL (FE_UNDERFLOW V) (add_flag e Math_INEX (FE_INEXACT V) 0))))"

definition get_fp_exception_flags :: "fenv \<Rightarrow> word_t exec" where
  "get_fp_exception_flags V = ebind (fe_getexcept V) (\<lambda>e_flags.
     case e_flags of None \<Rightarrow> throw (AssertFailed ''Failed to get except flag'')
     | Some e \<Rightarrow> eret (convert_to_limbo_fp_exception V e))"

definition get_all_fp_flags :: "fenv \<Rightarrow> word_t exec" where
  "get_all_fp_flags V = ebind (fe_getround V) (\<lambda>rnd_flag.
     ebind (get_fp_exception_flags V) (\<lambda>e_flags.
     ebind (lift_res (convert_to_limbo_fp_round V rnd_flag)) (\<lambda>rnd.
     eret (rnd OR e_flags))))"

definition set_fp_control_flags :: "fenv \<Rightarrow> word_t \<Rightarrow> word_t \<Rightarrow> unit exec" where
  "set_fp_control_flags V rnd_flag rnd_mask = when_do (rnd_mask \<noteq> 0) (ebind (fe_setround V (rnd_flag AND rnd_mask)) (\<lambda>ok.
     vm_assert ok ''ec == 0''))"

definition Math_FPcontrol :: "fenv \<Rightarrow> unit exec" where
  "Math_FPcontrol V = ebind (get_all_fp_flags V) (\<lambda>prev_fp_flags.
     ebind (arg_word 0) (\<lambda>r.
     ebind (arg_word 4) (\<lambda>mask.
     ebind (lift_res (convert_to_std_fp_round V (r AND mask))) (\<lambda>rnd_flag.
     eseq (set_fp_control_flags V rnd_flag (mask AND FE_ROUND_MASK V)) (
     ret_word (prev_fp_flags AND mask))))))"

definition Math_FPstatus :: "fenv \<Rightarrow> unit exec" where
  "Math_FPstatus V = ebind (get_fp_exception_flags V) (\<lambda>prev_e_flags.
     ebind (fe_clearexcept V) (\<lambda>cleared.
     eseq (vm_assert cleared ''ec == 0'') (
     ebind (arg_word 0) (\<lambda>r.
     ebind (arg_word 4) (\<lambda>mask.
     let e_mask = convert_to_std_fp_exception V mask in
     ebind (fe_setexcept V (convert_to_std_fp_exception V r) e_mask) (\<lambda>ok.
     eseq (vm_assert ok ''ec == 0'') (
     ret_word (prev_e_flags AND e_mask))))))))"

definition Math_getFPcontrol :: "fenv \<Rightarrow> unit exec" where
  "Math_getFPcontrol V = ebind (get_all_fp_flags V) ret_word"

definition Math_getFPstatus :: "fenv \<Rightarrow> unit exec" where
  "Math_getFPstatus V = ebind (get_fp_exception_flags V) ret_word"

section \<open>Functions of one and two reals\<close>

definition arg_real :: "nat \<Rightarrow> big_t exec" where "arg_real k = ebind (arg_addr k) get64"

definition ret_real :: "big_t \<Rightarrow> unit exec" where
  "ret_real x = ebind ret_addr (\<lambda>a. put64 a x)"

definition unary :: "libm \<Rightarrow> libm1 \<Rightarrow> unit exec" where
  "unary L f = ebind (arg_real 0) (\<lambda>x. ret_real (lm_fun1 L f x))"

definition binary :: "libm \<Rightarrow> libm2 \<Rightarrow> unit exec" where
  "binary L f = ebind (arg_real 0) (\<lambda>x. ebind (arg_real 8) (\<lambda>y. ret_real (lm_fun2 L f x y)))"

definition Math_acos :: "libm \<Rightarrow> unit exec" where "Math_acos L = unary L Acos"
definition Math_acosh :: "libm \<Rightarrow> unit exec" where "Math_acosh L = unary L Acosh"
definition Math_asin :: "libm \<Rightarrow> unit exec" where "Math_asin L = unary L Asin"
definition Math_asinh :: "libm \<Rightarrow> unit exec" where "Math_asinh L = unary L Asinh"
definition Math_atan :: "libm \<Rightarrow> unit exec" where "Math_atan L = unary L Atan"

definition Math_atan2 :: "libm \<Rightarrow> unit exec" where
  "Math_atan2 L = ebind (arg_real 0) (\<lambda>y. ebind (arg_real 8) (\<lambda>x. ret_real (lm_fun2 L Atan2 x y)))"

definition Math_atanh :: "libm \<Rightarrow> unit exec" where "Math_atanh L = unary L Atanh"

definition Math_bits32real :: "libm \<Rightarrow> unit exec" where
  "Math_bits32real L = ebind (arg_word 0) (\<lambda>b. ret_real (lm_of_float L b))"

definition Math_bits64real :: "unit exec" where "Math_bits64real = ebind (arg_real 0) ret_real"
definition Math_cbrt :: "libm \<Rightarrow> unit exec" where "Math_cbrt L = unary L Cbrt"
definition Math_ceil :: "libm \<Rightarrow> unit exec" where "Math_ceil L = unary L Ceil"
definition Math_copysign :: "libm \<Rightarrow> unit exec" where "Math_copysign L = binary L Copysign"
definition Math_cos :: "libm \<Rightarrow> unit exec" where "Math_cos L = unary L Cos"
definition Math_cosh :: "libm \<Rightarrow> unit exec" where "Math_cosh L = unary L Cosh"
definition Math_erf :: "libm \<Rightarrow> unit exec" where "Math_erf L = unary L Erf"
definition Math_erfc :: "libm \<Rightarrow> unit exec" where "Math_erfc L = unary L Erfc"
definition Math_exp :: "libm \<Rightarrow> unit exec" where "Math_exp L = unary L Exp"
definition Math_expm1 :: "libm \<Rightarrow> unit exec" where "Math_expm1 L = unary L Expm1"
definition Math_fabs :: "libm \<Rightarrow> unit exec" where "Math_fabs L = unary L Fabs"
definition Math_fdim :: "libm \<Rightarrow> unit exec" where "Math_fdim L = binary L Fdim"

definition Math_finite :: "libm \<Rightarrow> unit exec" where
  "Math_finite L = ebind (arg_real 0) (\<lambda>x. ret_word (if lm_isfinite L x then 1 else 0))"

definition Math_floor :: "libm \<Rightarrow> unit exec" where "Math_floor L = unary L Floor"
definition Math_fmax :: "libm \<Rightarrow> unit exec" where "Math_fmax L = binary L Fmax"
definition Math_fmin :: "libm \<Rightarrow> unit exec" where "Math_fmin L = binary L Fmin"
definition Math_fmod :: "libm \<Rightarrow> unit exec" where "Math_fmod L = binary L Fmod"
definition Math_hypot :: "libm \<Rightarrow> unit exec" where "Math_hypot L = binary L Hypot"

definition Math_ilogb :: "libm \<Rightarrow> unit exec" where
  "Math_ilogb L = ebind (arg_real 0) (\<lambda>x. ret_word (lm_ilogb L x))"

definition Math_isnan :: "libm \<Rightarrow> unit exec" where
  "Math_isnan L = ebind (arg_real 0) (\<lambda>x. ret_word (if lm_isnan L x then 1 else 0))"

definition Math_j0 :: "unit exec" where "Math_j0 = not_implemented"
definition Math_j1 :: "unit exec" where "Math_j1 = not_implemented"
definition Math_jn :: "unit exec" where "Math_jn = not_implemented"
definition Math_lgamma :: "unit exec" where "Math_lgamma = not_implemented"
definition Math_log :: "libm \<Rightarrow> unit exec" where "Math_log L = unary L Log"
definition Math_log10 :: "libm \<Rightarrow> unit exec" where "Math_log10 L = unary L Log10"
definition Math_log1p :: "libm \<Rightarrow> unit exec" where "Math_log1p L = unary L Log1p"

definition Math_modf :: "libm \<Rightarrow> unit exec" where
  "Math_modf L = ebind (arg_real 0) (\<lambda>x.
     let (integral_out, fractional_part) = lm_modf L x in
     (ebind ret_addr (\<lambda>a.
       eseq (put32 a (lm_to_word L integral_out)) (
       put64 (a + 8) fractional_part))))"

definition Math_nextafter :: "libm \<Rightarrow> unit exec" where "Math_nextafter L = binary L Nextafter"
definition Math_pow :: "libm \<Rightarrow> unit exec" where "Math_pow L = binary L Pow"

definition Math_pow10 :: "libm \<Rightarrow> unit exec" where
  "Math_pow10 L = ebind (arg_word 0) (\<lambda>p. ret_real (lm_fun2 L Pow real_ten (lm_of_word L p)))"

definition Math_realbits32 :: "libm \<Rightarrow> unit exec" where
  "Math_realbits32 L = ebind (arg_real 0) (\<lambda>x. ret_word (lm_to_float L x))"

definition Math_realbits64 :: "unit exec" where "Math_realbits64 = ebind (arg_real 0) ret_real"
definition Math_remainder :: "libm \<Rightarrow> unit exec" where "Math_remainder L = binary L Remainder"
definition Math_rint :: "libm \<Rightarrow> unit exec" where "Math_rint L = unary L Rint"

definition Math_scalbn :: "libm \<Rightarrow> unit exec" where
  "Math_scalbn L = ebind (arg_real 0) (\<lambda>x. ebind (arg_word 8) (\<lambda>n. ret_real (lm_scalbln L x n)))"

definition Math_sin :: "libm \<Rightarrow> unit exec" where "Math_sin L = unary L Sin"
definition Math_sinh :: "libm \<Rightarrow> unit exec" where "Math_sinh L = unary L Sinh"
definition Math_sqrt :: "libm \<Rightarrow> unit exec" where "Math_sqrt L = unary L Sqrt"
definition Math_tan :: "libm \<Rightarrow> unit exec" where "Math_tan L = unary L Tan"
definition Math_tanh :: "libm \<Rightarrow> unit exec" where "Math_tanh L = unary L Tanh"
definition Math_y0 :: "unit exec" where "Math_y0 = not_implemented"
definition Math_y1 :: "unit exec" where "Math_y1 = not_implemented"
definition Math_yn :: "unit exec" where "Math_yn = not_implemented"

section \<open>Arrays\<close>

definition typed :: "type_desc \<Rightarrow> vm_array \<Rightarrow> unit exec" where
  "typed td arr = vm_assert (type_is_equal (arr_element_type arr) (Some td)) ''get_element_type()->is_equal''"

definition typed_arg :: "type_desc \<Rightarrow> nat \<Rightarrow> vm_array exec" where
  "typed_arg td k = ebind (arg_array k) (\<lambda>maybe.
     case maybe of None \<Rightarrow> throw (Undefined ''get_element_type() of null'')
     | Some (_, arr) \<Rightarrow> (eseq (typed td arr) (
       eret arr)))"

definition nil_checked :: "string \<Rightarrow> nat \<Rightarrow> vm_array exec" where
  "nil_checked what k = ebind (arg_array k) (\<lambda>maybe.
     case maybe of None \<Rightarrow> throw (DereferenceNil what) | Some (_, arr) \<Rightarrow> eret arr)"

definition raw_real :: "nat \<Rightarrow> nat \<Rightarrow> big_t exec" where
  "raw_real a i = ebind (load 8 (a + 8 * i)) (\<lambda>bs. eret (word64 bs))"

primrec sum_loop :: "libm \<Rightarrow> (nat \<Rightarrow> big_t exec) \<Rightarrow> nat list \<Rightarrow> big_t \<Rightarrow> big_t exec" where
  "sum_loop L f [] result = eret result"
| "sum_loop L f (i # is) result = ebind (f i) (\<lambda>t. sum_loop L f is (lm_add L result t))"

definition Math_dot :: "libm \<Rightarrow> unit exec" where
  "Math_dot L = ebind (arg_array 0) (\<lambda>xs.
     ebind (arg_array 4) (\<lambda>ys.
     case (xs, ys) of (Some (_, x), Some (_, y)) \<Rightarrow> (eseq (typed td_real x) (
       eseq (typed td_real y) (
       eseq (check (arr_length x = arr_length y) (UserException ''Array lengths must be equal'')) (
       ebind (lift_res (array_at x 0)) (\<lambda>x_raw.
       ebind (lift_res (array_at y 0)) (\<lambda>y_raw.
       ebind (sum_loop L (\<lambda>i. ebind (raw_real x_raw i) (\<lambda>p. ebind (raw_real y_raw i) (\<lambda>q. eret (lm_mul L p q))))
           [0..<nat (arr_length x)] real_zero) (\<lambda>result.
       ret_real result)))))))
     | _ \<Rightarrow> throw (DereferenceNil ''dot product'')))"

definition Math_norm1 :: "libm \<Rightarrow> unit exec" where
  "Math_norm1 L = ebind (nil_checked ''norm1'' 0) (\<lambda>x.
     eseq (typed td_real x) (
     ebind (lift_res (array_at x 0)) (\<lambda>x_raw.
     ebind (sum_loop L (\<lambda>i. ebind (raw_real x_raw i) (\<lambda>p. eret (lm_fun1 L Fabs p))) [0..<nat (arr_length x)] real_zero) (\<lambda>result.
     ret_real result))))"

definition Math_norm2 :: "libm \<Rightarrow> unit exec" where
  "Math_norm2 L = ebind (nil_checked ''norm2'' 0) (\<lambda>x.
     eseq (typed td_real x) (
     ebind (lift_res (array_at x 0)) (\<lambda>x_raw.
     ebind (sum_loop L (\<lambda>i. ebind (raw_real x_raw i) (\<lambda>p. eret (lm_mul L p p))) [0..<nat (arr_length x)] real_zero) (\<lambda>result.
     ret_real (lm_fun1 L Sqrt result)))))"

primrec iamax_loop :: "libm \<Rightarrow> nat \<Rightarrow> nat list \<Rightarrow> nat \<Rightarrow> big_t \<Rightarrow> nat exec" where
  "iamax_loop L r_raw [] max_idx curr_max = eret max_idx"
| "iamax_loop L r_raw (i # is) max_idx curr_max = ebind (raw_real r_raw i) (\<lambda>x.
     let t = lm_fun1 L Fabs x in
     if lm_less L curr_max t then iamax_loop L r_raw is i t else iamax_loop L r_raw is max_idx curr_max)"

definition Math_iamax :: "libm \<Rightarrow> unit exec" where
  "Math_iamax L = eseq (ret_word (- 1)) (
     ebind (typed_arg td_real 0) (\<lambda>result.
     when_do (\<not> arr_length result \<le> 0) (ebind (lift_res (array_at result 0)) (\<lambda>r_raw.
       ebind (raw_real r_raw 0) (\<lambda>x.
       ebind (iamax_loop L r_raw [1..<nat (arr_length result)] 0 (lm_fun1 L Fabs x)) (\<lambda>max_idx.
       ret_word (of_nat max_idx)))))))"

section \<open>Import and export\<close>

definition buffer_fits :: "vm_array \<Rightarrow> nat \<Rightarrow> vm_array \<Rightarrow> unit exec" where
  "buffer_fits buffer item values = check ((word_of_int (arr_length buffer) :: word_t) = of_nat item * word_of_int (arr_length values))
     (UserException ''Invalid buffer size based on conversion'')"

definition put_big_endian :: "vm_array \<Rightarrow> int \<Rightarrow> byte_t list \<Rightarrow> unit exec" where
  "put_big_endian buffer i bytes = ebind (lift_res (array_at buffer (i * int (length bytes)))) (\<lambda>base.
     for_each (\<lambda>(k, b). store (base + k) [b]) (enumerate 0 bytes))"

definition export_loop :: "vm_array \<Rightarrow> vm_array \<Rightarrow> (nat \<Rightarrow> byte_t list exec) \<Rightarrow> unit exec" where
  "export_loop buffer values convert = for_each (\<lambda>i. (ebind (lift_res (array_at values i)) (\<lambda>a.
     ebind (convert a) (\<lambda>bytes.
     put_big_endian buffer i bytes)))) [0..arr_length values - 1]"

definition Math_export_int :: "unit exec" where
  "Math_export_int = ebind (typed_arg td_byte 0) (\<lambda>buffer.
     ebind (typed_arg td_word 4) (\<lambda>values.
     eseq (buffer_fits buffer 4 values) (
     export_loop buffer values (\<lambda>a. ebind (load 4 a) (\<lambda>bs. let x = word32 bs in
       eret [ucast (drop_bit 24 x), ucast (drop_bit 16 x), ucast (drop_bit 8 x), ucast x])))))"

definition Math_export_real :: "unit exec" where
  "Math_export_real = ebind (typed_arg td_byte 0) (\<lambda>buffer.
     ebind (typed_arg td_real 4) (\<lambda>values.
     eseq (buffer_fits buffer 8 values) (
     export_loop buffer values (\<lambda>a. ebind (load 8 a) (\<lambda>bs. let t = word64 bs in
       eret [ucast (drop_bit 56 t), ucast (drop_bit 48 t), ucast (drop_bit 40 t), ucast (drop_bit 32 t),
         ucast (drop_bit 24 t), ucast (drop_bit 16 t), ucast (drop_bit 8 t), ucast t])))))"

definition Math_export_real32 :: "libm \<Rightarrow> unit exec" where
  "Math_export_real32 L = ebind (typed_arg td_byte 0) (\<lambda>buffer.
     ebind (typed_arg td_real 4) (\<lambda>values.
     eseq (buffer_fits buffer 4 values) (
     export_loop buffer values (\<lambda>a. ebind (load 8 a) (\<lambda>bs. let t = lm_to_float L (word64 bs) in
       eret [ucast (drop_bit 24 t), ucast (drop_bit 16 t), ucast (drop_bit 8 t), ucast t])))))"

definition byte_of_buffer :: "vm_array \<Rightarrow> nat \<Rightarrow> byte_t exec" where
  "byte_of_buffer buffer j = ebind (lift_res (array_at buffer (int j))) (\<lambda>a. ebind (load 1 a) (\<lambda>bs. eret (bs ! 0)))"

primrec import_loop32 :: "vm_array \<Rightarrow> nat list \<Rightarrow> word_t \<Rightarrow> word_t exec" where
  "import_loop32 buffer [] t = eret t"
| "import_loop32 buffer (j # js) t = ebind (byte_of_buffer buffer j) (\<lambda>b. import_loop32 buffer js (push_bit 8 t OR ucast b))"

definition import_word :: "vm_array \<Rightarrow> word_t exec" where
  "import_word buffer = ebind (byte_of_buffer buffer 0) (\<lambda>b. import_loop32 buffer [1..<4] (ucast b))"

primrec import_loop64 :: "vm_array \<Rightarrow> nat list \<Rightarrow> big_t \<Rightarrow> big_t exec" where
  "import_loop64 buffer [] t = eret t"
| "import_loop64 buffer (j # js) t = ebind (byte_of_buffer buffer j) (\<lambda>b. import_loop64 buffer js (push_bit 8 t OR ucast b))"

definition import_big :: "vm_array \<Rightarrow> big_t exec" where
  "import_big buffer = ebind (byte_of_buffer buffer 0) (\<lambda>b. import_loop64 buffer [1..<8] (ucast b))"

definition import_items :: "vm_array \<Rightarrow> byte_t list exec \<Rightarrow> unit exec" where
  "import_items result item = for_each (\<lambda>i. (ebind item (\<lambda>bytes.
     ebind (lift_res (array_at result i)) (\<lambda>a.
     store a bytes)))) [0..arr_length result - 1]"

definition Math_import_int :: "unit exec" where
  "Math_import_int = ebind (typed_arg td_byte 0) (\<lambda>buffer.
     ebind (typed_arg td_word 4) (\<lambda>result.
     eseq (buffer_fits buffer 4 result) (
     import_items result (ebind (import_word buffer) (\<lambda>x. eret (bytes32 x))))))"

definition Math_import_real :: "unit exec" where
  "Math_import_real = ebind (typed_arg td_byte 0) (\<lambda>buffer.
     ebind (typed_arg td_real 4) (\<lambda>result.
     eseq (buffer_fits buffer 8 result) (
     import_items result (ebind (import_big buffer) (\<lambda>x. eret (bytes64 x))))))"

definition Math_import_real32 :: "libm \<Rightarrow> unit exec" where
  "Math_import_real32 L = ebind (typed_arg td_byte 0) (\<lambda>buffer.
     ebind (typed_arg td_real 4) (\<lambda>result.
     eseq (buffer_fits buffer 4 result) (
     import_items result (ebind (import_word buffer) (\<lambda>x. eret (bytes64 (lm_of_float L x)))))))"

section \<open>Sorting\<close>

definition load_words :: "nat \<Rightarrow> nat \<Rightarrow> word_t list exec" where
  "load_words a n = map_each (\<lambda>i. ebind (load 4 (a + 4 * i)) (\<lambda>bs. eret (word32 bs))) [0..<n]"

definition store_words :: "nat \<Rightarrow> word_t list \<Rightarrow> unit exec" where
  "store_words a ws = for_each (\<lambda>(i, w). store (a + 4 * i) (bytes32 w)) (enumerate 0 ws)"

definition sort_index_ok :: "int \<Rightarrow> word_t \<Rightarrow> bool" where
  "sort_index_ok words_len i = (\<not> (sint i < 0 \<or> words_len \<le> sint i))"

definition Math_sort :: "libm \<Rightarrow> unit exec" where
  "Math_sort L = ebind (arg_array 0) (\<lambda>xs.
     ebind (arg_array 4) (\<lambda>pis.
     case (xs, pis) of (Some (_, reals), Some (_, words)) \<Rightarrow> (eseq (typed td_real reals) (
       eseq (typed td_word words) (
       let words_len = arr_length words in
       eseq (check (arr_length reals = words_len) (UserException ''Array lengths must be equal'')) (
       when_do (\<not> words_len \<le> 1) (ebind (lift_res (array_at words 0)) (\<lambda>begin_words.
         ebind (load_words begin_words (nat words_len)) (\<lambda>indices.
         eseq (check (list_all (sort_index_ok words_len) indices) (UserException ''Invalid sort index values'')) (
         ebind (lift_res (array_at reals 0)) (\<lambda>reals_raw.
         ebind (map_each (raw_real reals_raw) [0..<nat words_len]) (\<lambda>values.
         store_words begin_words (lm_sort L (\<lambda>l r. lm_less L (values ! unat l) (values ! unat r)) indices)))))))))))
     | _ \<Rightarrow> throw (DereferenceNil ''Sort reals'')))"

section \<open>Matrix product\<close>

definition upper :: "int \<Rightarrow> int" where
  "upper c = (if 97 \<le> c \<and> c \<le> 122 then c - 32 else c)"

definition lsame :: "byte_t \<Rightarrow> char \<Rightarrow> bool" where
  "lsame ca cb = (ca = of_char cb \<or> upper (uint ca) = upper (of_char cb))"

definition mat_index :: "int \<Rightarrow> int \<Rightarrow> int \<Rightarrow> int res" where
  "mat_index ld i j = rbind (swrap ((j - 1) * ld)) (\<lambda>x. swrap (i - 1 + x))"

definition mat_at :: "nat \<Rightarrow> int \<Rightarrow> int \<Rightarrow> int \<Rightarrow> ('s, nat) eff" where
  "mat_at a ld i j = ebind (lift_res (mat_index ld i j)) (\<lambda>idx. eret (nat (int a + 8 * idx)))"

definition mat_get :: "nat \<Rightarrow> int \<Rightarrow> int \<Rightarrow> int \<Rightarrow> big_t exec" where
  "mat_get a ld i j = ebind (mat_at a ld i j) (\<lambda>p. ebind (load 8 p) (\<lambda>bs. eret (word64 bs)))"

definition mat_set :: "nat \<Rightarrow> int \<Rightarrow> int \<Rightarrow> int \<Rightarrow> big_t \<Rightarrow> unit exec" where
  "mat_set a ld i j x = ebind (mat_at a ld i j) (\<lambda>p. store p (bytes64 x))"

record gemm_args =
  g_transa :: byte_t
  g_transb :: byte_t
  g_m :: int
  g_n :: int
  g_k :: int
  g_alpha :: big_t
  g_a :: nat
  g_lda :: int
  g_b :: nat
  g_ldb :: int
  g_beta :: big_t
  g_c :: nat
  g_ldc :: int
  g_a_len :: int
  g_b_len :: int
  g_c_len :: int

definition nota :: "gemm_args \<Rightarrow> bool" where "nota G = lsame (g_transa G) CHR ''N''"
definition notb :: "gemm_args \<Rightarrow> bool" where "notb G = lsame (g_transb G) CHR ''N''"
definition nrowa :: "gemm_args \<Rightarrow> int" where "nrowa G = (if nota G then g_m G else g_k G)"
definition ncola :: "gemm_args \<Rightarrow> int" where "ncola G = (if nota G then g_k G else g_m G)"
definition nrowb :: "gemm_args \<Rightarrow> int" where "nrowb G = (if notb G then g_k G else g_n G)"
definition ncolb :: "gemm_args \<Rightarrow> int" where "ncolb G = (if notb G then g_n G else g_k G)"

definition matrix_info :: "int \<Rightarrow> int \<Rightarrow> int \<Rightarrow> int \<Rightarrow> int \<Rightarrow> int \<Rightarrow> int res \<Rightarrow> int res" where
  "matrix_info ld ncol len nrow short_info ld_info other = rbind (swrap (ncol - 1)) (\<lambda>c. rbind (swrap (ld * c)) (\<lambda>x.
     if x > len then Inr short_info else if ld < max 1 nrow then Inr ld_info else other))"

definition gemm_info :: "gemm_args \<Rightarrow> int res" where
  "gemm_info G = (
     if \<not> nota G \<and> \<not> lsame (g_transa G) CHR ''C'' \<and> \<not> lsame (g_transa G) CHR ''T'' then Inr 1
     else if \<not> notb G \<and> \<not> lsame (g_transb G) CHR ''C'' \<and> \<not> lsame (g_transb G) CHR ''T'' then Inr 2
     else if g_m G < 0 then Inr 3
     else if g_n G < 0 then Inr 4
     else if g_k G < 0 then Inr 5
     else matrix_info (g_lda G) (ncola G) (g_a_len G) (nrowa G) 7 8
         (matrix_info (g_ldb G) (ncolb G) (g_b_len G) (nrowb G) 9 10
         (matrix_info (g_ldc G) (g_n G) (g_c_len G) (g_m G) 12 13 (Inr 0))))"

definition get_A :: "gemm_args \<Rightarrow> int \<Rightarrow> int \<Rightarrow> big_t exec" where "get_A G i j = mat_get (g_a G) (g_lda G) i j"
definition get_B :: "gemm_args \<Rightarrow> int \<Rightarrow> int \<Rightarrow> big_t exec" where "get_B G i j = mat_get (g_b G) (g_ldb G) i j"
definition get_C :: "gemm_args \<Rightarrow> int \<Rightarrow> int \<Rightarrow> big_t exec" where "get_C G i j = mat_get (g_c G) (g_ldc G) i j"
definition set_C :: "gemm_args \<Rightarrow> int \<Rightarrow> int \<Rightarrow> big_t \<Rightarrow> unit exec" where "set_C G i j x = mat_set (g_c G) (g_ldc G) i j x"

definition clear_column :: "gemm_args \<Rightarrow> int \<Rightarrow> unit exec" where
  "clear_column G j = for_each (\<lambda>i. set_C G i j real_zero) [1..g_m G]"

definition scale_column :: "libm \<Rightarrow> gemm_args \<Rightarrow> int \<Rightarrow> unit exec" where
  "scale_column L G j = for_each (\<lambda>i. ebind (get_C G i j) (\<lambda>x. set_C G i j (lm_mul L (g_beta G) x))) [1..g_m G]"

definition prepare_column :: "libm \<Rightarrow> gemm_args \<Rightarrow> int \<Rightarrow> unit exec" where
  "prepare_column L G j = (
     if lm_equal L (g_beta G) real_zero then clear_column G j
     else if \<not> lm_equal L (g_beta G) real_one then scale_column L G j
     else eret ())"

definition add_columns :: "libm \<Rightarrow> gemm_args \<Rightarrow> (int \<Rightarrow> big_t exec) \<Rightarrow> int \<Rightarrow> unit exec" where
  "add_columns L G b j = for_each (\<lambda>l. (ebind (b l) (\<lambda>x.
     when_do (\<not> lm_equal L x real_zero) (let temp = lm_mul L (g_alpha G) x in
       for_each (\<lambda>i. (ebind (get_A G i l) (\<lambda>y.
         ebind (get_C G i j) (\<lambda>z.
         set_C G i j (lm_add L z (lm_mul L temp y)))))) [1..g_m G])))) [1..g_k G]"

primrec dot_loop :: "libm \<Rightarrow> (int \<Rightarrow> big_t exec) \<Rightarrow> (int \<Rightarrow> big_t exec) \<Rightarrow> int list \<Rightarrow> big_t \<Rightarrow> big_t exec" where
  "dot_loop L a b [] temp = eret temp"
| "dot_loop L a b (l # ls) temp = ebind (a l) (\<lambda>x. ebind (b l) (\<lambda>y. dot_loop L a b ls (lm_add L temp (lm_mul L x y))))"

definition dot_column :: "libm \<Rightarrow> gemm_args \<Rightarrow> (int \<Rightarrow> big_t exec) \<Rightarrow> int \<Rightarrow> unit exec" where
  "dot_column L G b j = for_each (\<lambda>i. (ebind (dot_loop L (\<lambda>l. get_A G l i) b [1..g_k G] real_zero) (\<lambda>temp.
     if lm_equal L (g_beta G) real_zero then set_C G i j (lm_mul L (g_alpha G) temp)
     else ebind (get_C G i j) (\<lambda>x. set_C G i j (lm_add L (lm_mul L (g_alpha G) temp) (lm_mul L (g_beta G) x)))))) [1..g_m G]"

definition dgemm :: "libm \<Rightarrow> gemm_args \<Rightarrow> int exec" where
  "dgemm L G = ebind (lift_res (gemm_info G)) (\<lambda>info.
     if info \<noteq> 0 then eret info
     else if g_m G = 0 \<or> g_n G = 0 \<or> (lm_equal L (g_alpha G) real_zero \<or> g_k G = 0) \<and> lm_equal L (g_beta G) real_one then eret 0
     else if lm_equal L (g_alpha G) real_zero then (eseq (for_each (\<lambda>j. if lm_equal L (g_beta G) real_zero then clear_column G j else scale_column L G j) [1..g_n G]) (
       eret 0))
     else (let b = (if notb G then (\<lambda>l j. get_B G l j) else (\<lambda>l j. get_B G j l)) in
       eseq (for_each (\<lambda>j. if nota G then eseq (prepare_column L G j) (add_columns L G (\<lambda>l. b l j) j) else dot_column L G (\<lambda>l. b l j) j) [1..g_n G]) (
       eret 0)))"

definition Math_gemm :: "libm \<Rightarrow> unit exec" where
  "Math_gemm L = ebind (arg_word 0) (\<lambda>transa.
     ebind (arg_word 4) (\<lambda>transb.
     ebind (arg_word 8) (\<lambda>m.
     ebind (arg_word 12) (\<lambda>n.
     ebind (arg_word 16) (\<lambda>k.
     ebind (arg_real 24) (\<lambda>alpha.
     ebind (arg_real 48) (\<lambda>beta.
     ebind (arg_word 36) (\<lambda>lda.
     ebind (nil_checked ''gemm - a'' 32) (\<lambda>a_v.
     ebind (arg_word 44) (\<lambda>ldb.
     ebind (nil_checked ''gemm - b'' 40) (\<lambda>b_v.
     ebind (arg_word 60) (\<lambda>ldc.
     ebind (nil_checked ''gemm - c'' 56) (\<lambda>c_v.
     eseq (typed td_real a_v) (
     eseq (typed td_real b_v) (
     eseq (typed td_real c_v) (
     ebind (lift_res (array_at a_v 0)) (\<lambda>a.
     ebind (lift_res (array_at b_v 0)) (\<lambda>b.
     ebind (lift_res (array_at c_v 0)) (\<lambda>c.
     ebind (dgemm L \<lparr> g_transa = ucast transa, g_transb = ucast transb, g_m = sint m, g_n = sint n, g_k = sint k, g_alpha = alpha,
       g_a = a, g_lda = sint lda, g_b = b, g_ldb = sint ldb, g_beta = beta, g_c = c, g_ldc = sint ldc,
       g_a_len = arr_length a_v, g_b_len = arr_length b_v, g_c_len = arr_length c_v \<rparr>) (\<lambda>result.
     check (result = 0) (UserException ''gemm invalid argument'')))))))))))))))))))))"

section \<open>The module\<close>

definition Math_PATH :: "byte_t list" where "Math_PATH = map of_char ''$Math''"

definition first_math_function :: nat where "first_math_function = 43"

definition math_entry :: "string \<Rightarrow> word_t \<Rightarrow> nat \<Rightarrow> int \<Rightarrow> byte_t list \<Rightarrow> runtab" where
  "math_entry name sig f frame_size pointer_map = sys_entry name sig (first_math_function + f) frame_size pointer_map"

definition Mathmodtab :: "runtab list" where
  "Mathmodtab = [
    math_entry ''FPcontrol'' 0x6584767b 0 40 [],
    math_entry ''FPstatus'' 0x6584767b 1 40 [],
    math_entry ''acos'' 0xa1d1fe48 2 40 [],
    math_entry ''acosh'' 0xa1d1fe48 3 40 [],
    math_entry ''asin'' 0xa1d1fe48 4 40 [],
    math_entry ''asinh'' 0xa1d1fe48 5 40 [],
    math_entry ''atan'' 0xa1d1fe48 6 40 [],
    math_entry ''atan2'' 0xf293f6cf 7 48 [],
    math_entry ''atanh'' 0xa1d1fe48 8 40 [],
    math_entry ''bits32real'' 0x40a58596 9 40 [],
    math_entry ''bits64real'' 0x5463c72c 10 40 [],
    math_entry ''cbrt'' 0xa1d1fe48 11 40 [],
    math_entry ''ceil'' 0xa1d1fe48 12 40 [],
    math_entry ''copysign'' 0xf293f6cf 13 48 [],
    math_entry ''cos'' 0xa1d1fe48 14 40 [],
    math_entry ''cosh'' 0xa1d1fe48 15 40 [],
    math_entry ''dot'' 0xfeca4db6 16 40 [0x0, 0xc0],
    math_entry ''erf'' 0xa1d1fe48 17 40 [],
    math_entry ''erfc'' 0xa1d1fe48 18 40 [],
    math_entry ''exp'' 0xa1d1fe48 19 40 [],
    math_entry ''expm1'' 0xa1d1fe48 20 40 [],
    math_entry ''export_int'' 0x3f1d94ee 21 40 [0x0, 0xc0],
    math_entry ''export_real'' 0xd1fb0c8c 22 40 [0x0, 0xc0],
    math_entry ''export_real32'' 0xd1fb0c8c 23 40 [0x0, 0xc0],
    math_entry ''fabs'' 0xa1d1fe48 24 40 [],
    math_entry ''fdim'' 0xf293f6cf 25 48 [],
    math_entry ''finite'' 0x7b2e5f52 26 40 [],
    math_entry ''floor'' 0xa1d1fe48 27 40 [],
    math_entry ''fmax'' 0xf293f6cf 28 48 [],
    math_entry ''fmin'' 0xf293f6cf 29 48 [],
    math_entry ''fmod'' 0xf293f6cf 30 48 [],
    math_entry ''gemm'' 0x53b8cd34 31 96 [0x0, 0x0, 0xa2],
    math_entry ''getFPcontrol'' 0x616977e8 32 32 [],
    math_entry ''getFPstatus'' 0x616977e8 33 32 [],
    math_entry ''hypot'' 0xf293f6cf 34 48 [],
    math_entry ''iamax'' 0xa5fc2e4d 35 40 [0x0, 0x80],
    math_entry ''ilogb'' 0x7b2e5f52 36 40 [],
    math_entry ''import_int'' 0x3f1d94ee 37 40 [0x0, 0xc0],
    math_entry ''import_real'' 0xd1fb0c8c 38 40 [0x0, 0xc0],
    math_entry ''import_real32'' 0xd1fb0c8c 39 40 [0x0, 0xc0],
    math_entry ''isnan'' 0x7b2e5f52 40 40 [],
    math_entry ''j0'' 0xa1d1fe48 41 40 [],
    math_entry ''j1'' 0xa1d1fe48 42 40 [],
    math_entry ''jn'' 0xb61ffc5b 43 48 [],
    math_entry ''lgamma'' 0x6e97c646 44 40 [],
    math_entry ''log'' 0xa1d1fe48 45 40 [],
    math_entry ''log10'' 0xa1d1fe48 46 40 [],
    math_entry ''log1p'' 0xa1d1fe48 47 40 [],
    math_entry ''modf'' 0x6e97c646 48 40 [],
    math_entry ''nextafter'' 0xf293f6cf 49 48 [],
    math_entry ''norm1'' 0x1629207e 50 40 [0x0, 0x80],
    math_entry ''norm2'' 0x1629207e 51 40 [0x0, 0x80],
    math_entry ''pow'' 0xf293f6cf 52 48 [],
    math_entry ''pow10'' 0x40a58596 53 40 [],
    math_entry ''realbits32'' 0x7b2e5f52 54 40 [],
    math_entry ''realbits64'' 0x9589d476 55 40 [],
    math_entry ''remainder'' 0xf293f6cf 56 48 [],
    math_entry ''rint'' 0xa1d1fe48 57 40 [],
    math_entry ''scalbn'' 0x64fa84ba 58 48 [],
    math_entry ''sin'' 0xa1d1fe48 59 40 [],
    math_entry ''sinh'' 0xa1d1fe48 60 40 [],
    math_entry ''sort'' 0xfc7c7b8 61 40 [0x0, 0xc0],
    math_entry ''sqrt'' 0xa1d1fe48 62 40 [],
    math_entry ''tan'' 0xa1d1fe48 63 40 [],
    math_entry ''tanh'' 0xa1d1fe48 64 40 [],
    math_entry ''y0'' 0xa1d1fe48 65 40 [],
    math_entry ''y1'' 0xa1d1fe48 66 40 [],
    math_entry ''yn'' 0xb61ffc5b 67 48 []]"

definition Mathmodinit :: "fenv \<Rightarrow> unit exec" where
  "Mathmodinit V = eseq (register_module_exports Math_PATH Mathmodtab) (
     set_fp_control_flags V (FE_TONEAREST V) (FE_ROUND_MASK V))"

definition math_functions :: "libm \<Rightarrow> fenv \<Rightarrow> unit exec list" where
  "math_functions L V = [Math_FPcontrol V, Math_FPstatus V, Math_acos L, Math_acosh L, Math_asin L, Math_asinh L, Math_atan L, Math_atan2 L, Math_atanh L,
     Math_bits32real L, Math_bits64real, Math_cbrt L, Math_ceil L, Math_copysign L, Math_cos L, Math_cosh L, Math_dot L, Math_erf
     L, Math_erfc L, Math_exp L, Math_expm1 L, Math_export_int, Math_export_real, Math_export_real32 L, Math_fabs L, Math_fdim L,
     Math_finite L, Math_floor L, Math_fmax L, Math_fmin L, Math_fmod L, Math_gemm L, Math_getFPcontrol V, Math_getFPstatus V,
     Math_hypot L, Math_iamax L, Math_ilogb L, Math_import_int, Math_import_real, Math_import_real32 L, Math_isnan L, Math_j0,
     Math_j1, Math_jn, Math_lgamma, Math_log L, Math_log10 L, Math_log1p L, Math_modf L, Math_nextafter L, Math_norm1 L,
     Math_norm2 L, Math_pow L, Math_pow10 L, Math_realbits32 L, Math_realbits64, Math_remainder L, Math_rint L, Math_scalbn L,
     Math_sin L, Math_sinh L, Math_sort L, Math_sqrt L, Math_tan L, Math_tanh L, Math_y0, Math_y1, Math_yn]"

definition native_function :: "nat \<Rightarrow> host \<Rightarrow> formatter \<Rightarrow> libm \<Rightarrow> fenv \<Rightarrow> nat \<Rightarrow> unit exec" where
  "native_function fuel H F L V f = (
     if first_math_function \<le> f \<and> f - first_math_function < length (math_functions L V) then math_functions L V ! (f - first_math_function)
     else sys_native fuel H F f)"

end
