(* ===== verification/MathSpec.thy ===== *)
theory MathSpec
  imports Mathmod SysSpec
begin

text \<open>
  The matrix product accepts arrays that are too short and then leaves them; importing numbers
  reads the first one over and over.
\<close>

section \<open>Loops over memory\<close>

lemma for_each_visits:
  assumes "for_each f xs w = (Inr (), w')" "\<And>x. keeps I (f x)" "I w" "x \<in> set xs"
  shows "\<exists>w1 w2. I w1 \<and> f x w1 = (Inr (), w2)"
  using assms(1,3,4)
proof (induction xs arbitrary: w)
  case (Cons y ys)
  obtain r w1 where y: "f y w = (r, w1)" by (metis surj_pair)
  with Cons.prems(1) have r: "r = Inr ()" "for_each f ys w1 = (Inr (), w')" by (cases r; simp add: eseq_def ebind_run)+
  have "I w1" using assms(2) [of y] Cons.prems(2) y unfolding keeps_def by force
  with Cons.IH [OF r(2)] Cons.prems y r(1) show ?case by auto
qed simp

lemma for_each_succeeds:
  assumes "\<And>x w. x \<in> set xs \<Longrightarrow> I w \<Longrightarrow> \<exists>w'. f x w = (Inr (), w') \<and> I w'" "I w"
  shows "\<exists>w'. for_each f xs w = (Inr (), w') \<and> I w'"
  using assms
proof (induction xs arbitrary: w)
  case (Cons y ys)
  then obtain w1 where "f y w = (Inr (), w1)" "I w1" by (metis list.set_intros(1))
  with Cons.IH [of w1] Cons.prems(1) show ?case by (simp add: eseq_def ebind_run)
qed simp

lemma store_run:
  assumes "\<forall>x. a \<le> x \<and> x < a + length bs \<longrightarrow> h_mem w x \<noteq> None"
  shows "store a bs w = (Inr (), w\<lparr> h_mem := (\<lambda>x. if a \<le> x \<and> x < a + length bs then Some (bs ! (x - a)) else h_mem w x) \<rparr>)"
proof -
  have "list_all (\<lambda>i. h_mem w (a + i) \<noteq> None) [0..<length bs]" using assms by (simp add: list_all_iff)
  then show ?thesis by (simp add: store_def write_bytes_def)
qed

lemma store_fails: "h_mem w a = None \<Longrightarrow> bs \<noteq> [] \<Longrightarrow> store a bs w = (Inl (Undefined ''write of invalid memory''), w)"
proof -
  assume a: "h_mem w a = None" and b: "bs \<noteq> []"
  have "\<not> list_all (\<lambda>i. h_mem w (a + i) \<noteq> None) [0..<length bs]"
    using a b by (auto simp: list_all_iff intro!: bexI [of _ 0])
  then show ?thesis by (simp add: store_def write_bytes_def)
qed

lemma bytes64_nonempty: "bytes64 x \<noteq> []" "length (bytes64 x) = 8"
  by (simp_all add: bytes64_def bytes32_def)

lemma keeps_unmapped: "keeps (\<lambda>w. h_mem w p = None) (store a bs)"
  unfolding keeps_def store_def using write_bytes_dom [of a bs _ _ p] by (simp split: option.split) (metis not_None_eq)

section \<open>The matrix product\<close>

definition maps_exactly :: "nat \<Rightarrow> nat \<Rightarrow> cpu \<Rightarrow> bool" where
  "maps_exactly a n w \<longleftrightarrow> (\<forall>x. a \<le> x \<longrightarrow> (h_mem w x \<noteq> None) = (x < a + n))"

lemma matrix_info_ok:
  assumes "matrix_info ld ncol len nrow e1 e2 other = Inr 0" "e1 \<noteq> 0" "e2 \<noteq> 0"
  shows "in_word (ncol - 1)" "in_word (ld * (ncol - 1))" "ld * (ncol - 1) \<le> len" "max 1 nrow \<le> ld" "other = Inr 0"
  using assms by (auto simp: matrix_info_def swrap_def rbind_eq_Inr require_eq_Inr split: if_splits)

lemma gemm_info_ok:
  assumes "gemm_info G = Inr 0"
  shows "0 \<le> g_m G" "0 \<le> g_n G" "in_word (g_ldc G * (g_n G - 1))" "g_ldc G * (g_n G - 1) \<le> g_c_len G" "max 1 (g_m G) \<le> g_ldc G"
proof -
  have m: "0 \<le> g_m G" "0 \<le> g_n G" and "matrix_info (g_lda G) (ncola G) (g_a_len G) (nrowa G) 7 8
         (matrix_info (g_ldb G) (ncolb G) (g_b_len G) (nrowb G) 9 10
         (matrix_info (g_ldc G) (g_n G) (g_c_len G) (g_m G) 12 13 (Inr 0))) = Inr 0"
    using assms by (simp_all add: gemm_info_def split: if_splits)
  note c = matrix_info_ok(5) [OF matrix_info_ok(5) [OF this(3)], simplified]
  note d = matrix_info_ok [OF c]
  from m d show "0 \<le> g_m G" "0 \<le> g_n G" "in_word (g_ldc G * (g_n G - 1))" "g_ldc G * (g_n G - 1) \<le> g_c_len G" "max 1 (g_m G) \<le> g_ldc G"
    by simp_all
qed

lemma set_C_unmapped: "keeps (\<lambda>w. h_mem w p = None) (set_C G i j x)"
  unfolding set_C_def mat_set_def mat_at_def by (intro keeps_intros keeps_unmapped)

lemma clear_unmapped: "keeps (\<lambda>w. h_mem w p = None) (clear_column G j)"
  unfolding clear_column_def by (intro keeps_for_each set_C_unmapped)

definition last_cell :: "gemm_args \<Rightarrow> int" where
  "last_cell G = g_ldc G * (g_n G - 1) + g_m G - 1"

lemma mat_index_ok: "in_word ((j - 1) * ld) \<Longrightarrow> in_word (i - 1 + (j - 1) * ld) \<Longrightarrow> mat_index ld i j = Inr ((j - 1) * ld + (i - 1))"
  by (simp add: mat_index_def swrap_def algebra_simps)

text \<open>Storing zeroes over the whole matrix leaves its array exactly when the array is too short.\<close>

lemma clear_too_short:
  assumes info: "gemm_info G = Inr 0" "0 < g_m G" "0 < g_n G" and w: "h_mem w (g_c G + 8 * nat (last_cell G)) = None"
  shows "fst (for_each (clear_column G) [1..g_n G] w) \<noteq> Inr ()"
proof
  let ?p = "g_c G + 8 * nat (last_cell G)"
  assume "fst (for_each (clear_column G) [1..g_n G] w) = Inr ()"
  then obtain w' where "for_each (clear_column G) [1..g_n G] w = (Inr (), w')" by (metis prod.collapse)
  from for_each_visits [OF this clear_unmapped, of ?p "g_n G"] w info(3) obtain w1 w2
    where w1: "h_mem w1 ?p = None" "clear_column G (g_n G) w1 = (Inr (), w2)" by auto
  from for_each_visits [OF w1(2) [unfolded clear_column_def] set_C_unmapped, of ?p "g_m G"] w1(1) info(2) obtain w3 w4
    where w3: "h_mem w3 ?p = None" "set_C G (g_m G) (g_n G) real_zero w3 = (Inr (), w4)" by auto
  from w3(2) have idx: "mat_index (g_ldc G) (g_m G) (g_n G) = Inr ((g_n G - 1) * g_ldc G + (g_m G - 1))"
    by (auto simp: set_C_def mat_set_def mat_at_def mat_index_def swrap_def ebind_run require_def algebra_simps split: sum.splits if_splits)
  have "0 \<le> g_ldc G * (g_n G - 1)" using gemm_info_ok(5) [OF info(1)] info(3) by simp
  then have "nat (int (g_c G) + 8 * ((g_n G - 1) * g_ldc G + (g_m G - 1))) = ?p"
    using info(2) by (simp add: last_cell_def algebra_simps nat_add_distrib nat_mult_distrib)
  with idx w3 show False by (simp add: set_C_def mat_set_def mat_at_def ebind_run store_fails bytes64_nonempty)
qed

lemma clear_fits:
  assumes info: "gemm_info G = Inr 0" "last_cell G < g_c_len G" "g_c_len G < 2 ^ 31"
    and w: "\<forall>x. g_c G \<le> x \<and> x < g_c G + 8 * nat (g_c_len G) \<longrightarrow> h_mem w x \<noteq> None"
  shows "fst (for_each (clear_column G) [1..g_n G] w) = Inr ()"
proof -
  let ?I = "\<lambda>w. \<forall>x. g_c G \<le> x \<and> x < g_c G + 8 * nat (g_c_len G) \<longrightarrow> h_mem w x \<noteq> None"
  note ok = gemm_info_ok [OF info(1)]
  have cell: "\<exists>w'. set_C G i j real_zero w = (Inr (), w') \<and> ?I w'" if i: "i \<in> set [1..g_m G]" and j: "j \<in> set [1..g_n G]" and w: "?I w" for i j w
  proof -
    let ?k = "(j - 1) * g_ldc G + (i - 1)"
    have le: "(j - 1) * g_ldc G \<le> (g_n G - 1) * g_ldc G" using j ok(5) by (intro mult_right_mono) simp_all
    have k0: "0 \<le> (j - 1) * g_ldc G" "0 \<le> ?k" using i j ok(5) by simp_all
    have kn: "?k \<le> last_cell G" using le i by (simp add: last_cell_def algebra_simps)
    have w1: "in_word ((j - 1) * g_ldc G)" using k0(1) le ok(3) by (simp add: in_word_def algebra_simps)
    have w2: "in_word (i - 1 + (j - 1) * g_ldc G)" using k0(2) kn info(2,3) by (simp add: in_word_def algebra_simps)
    have p: "nat (int (g_c G) + 8 * ?k) = g_c G + 8 * nat ?k" using k0(2) by (simp add: nat_add_distrib nat_mult_distrib)
    have n: "8 * nat ?k + 8 \<le> 8 * nat (g_c_len G)" using k0(2) kn info(2) by linarith
    have run: "store (g_c G + 8 * nat ?k) (bytes64 real_zero) w = (Inr (), w\<lparr> h_mem := (\<lambda>x. if g_c G + 8 * nat ?k \<le> x \<and>
        x < g_c G + 8 * nat ?k + length (bytes64 real_zero) then Some (bytes64 real_zero ! (x - (g_c G + 8 * nat ?k))) else h_mem w x) \<rparr>)"
      by (rule store_run) (use w n in \<open>auto simp: bytes64_nonempty(2)\<close>)
    have "set_C G i j real_zero w = store (g_c G + 8 * nat ?k) (bytes64 real_zero) w"
      using mat_index_ok [OF w1 w2] p by (simp add: set_C_def mat_set_def mat_at_def ebind_run)
    with run w show ?thesis by simp
  qed
  have column: "\<exists>w'. clear_column G j w = (Inr (), w') \<and> ?I w'" if "j \<in> set [1..g_n G]" "?I w" for j w
    unfolding clear_column_def using for_each_succeeds [of "[1..g_m G]" ?I "\<lambda>i. set_C G i j real_zero" w] cell that by blast
  show ?thesis using for_each_succeeds [of "[1..g_n G]" ?I "clear_column G" w] column w by force
qed

text \<open>C32: the arguments of a matrix product that clears its result are accepted when the array is at
  least as long as all columns but the last, and then the product stays in the array exactly
  when the last column fits as well: the check of the arguments is too weak.\<close>

theorem gemm_accepts_short_arrays:
  assumes "gemm_info G = Inr 0" "0 < g_m G" "0 < g_n G" "g_c_len G < 2 ^ 31"
    "lm_equal L (g_alpha G) real_zero" "lm_equal L (g_beta G) real_zero" "\<not> lm_equal L (g_beta G) real_one"
    "maps_exactly (g_c G) (8 * nat (g_c_len G)) w"
  shows "(fst (dgemm L G w) = Inr 0) = (g_ldc G * (g_n G - 1) + g_m G \<le> g_c_len G)"
proof -
  have d: "fst (dgemm L G w) = Inr 0 \<longleftrightarrow> fst (for_each (clear_column G) [1..g_n G] w) = Inr ()"
    using assms(1-3,5-7) by (auto simp: dgemm_def ebind_run eseq_def split: prod.split sum.split)
  show ?thesis
  proof (cases "last_cell G < g_c_len G")
    case True
    have "fst (for_each (clear_column G) [1..g_n G] w) = Inr ()"
      using clear_fits [OF assms(1) True assms(4)] assms(8) by (simp add: maps_exactly_def)
    with d True show ?thesis by (simp add: last_cell_def)
  next
    case False
    have "0 \<le> g_ldc G * (g_n G - 1)" using gemm_info_ok(5) [OF assms(1)] assms(2,3) by simp
    then have "0 \<le> last_cell G" using assms(2) by (simp add: last_cell_def)
    with False have "h_mem w (g_c G + 8 * nat (last_cell G)) = None"
      using assms(8) by (simp add: maps_exactly_def) (metis le_add1 nat_mono linorder_not_le nat_mult_less_cancel_disj add_less_cancel_left not_None_eq)
    from clear_too_short [OF assms(1-3) this] d False show ?thesis by (simp add: last_cell_def)
  qed
qed

section \<open>Import\<close>

definition be_bytes32 :: "word_t \<Rightarrow> byte_t list" where
  "be_bytes32 x = [ucast (drop_bit 24 x), ucast (drop_bit 16 x), ucast (drop_bit 8 x), ucast x]"

lemma be_word: "push_bit 8 (push_bit 8 (push_bit 8 (ucast (ucast (drop_bit 24 v) :: byte_t)) OR ucast (ucast (drop_bit 16 v) :: byte_t))
    OR ucast (ucast (drop_bit 8 v) :: byte_t)) OR ucast (ucast v :: byte_t) = (v :: word_t)"
proof (rule bit_word_eqI)
  fix n assume "n < LENGTH(32)"
  then have "n < 32" by simp
  then consider "n < 8" | "8 \<le> n" "n < 16" | "16 \<le> n" "n < 24" | "24 \<le> n" "n < 32" by linarith
  then show "bit (push_bit 8 (push_bit 8 (push_bit 8 (ucast (ucast (drop_bit 24 v) :: byte_t)) OR ucast (ucast (drop_bit 16 v) :: byte_t))
    OR ucast (ucast (drop_bit 8 v) :: byte_t)) OR ucast (ucast v :: byte_t) :: word_t) n \<longleftrightarrow> bit v n"
    by cases (auto simp: bit_or_iff bit_push_bit_iff bit_ucast_iff bit_drop_bit_eq)
qed

definition buffer_at :: "vm_array \<Rightarrow> byte_t list \<Rightarrow> cpu \<Rightarrow> bool" where
  "buffer_at buffer bs w \<longleftrightarrow> arr_element_type buffer = td_byte \<and> int (length bs) \<le> arr_length buffer \<and>
     (\<forall>k<length bs. h_mem w (arr_addr buffer + k) = Some (bs ! k))"

lemma byte_of_buffer_run: "buffer_at buffer bs w \<Longrightarrow> k < length bs \<Longrightarrow> byte_of_buffer buffer k w = (Inr (bs ! k), w)"
  by (simp add: buffer_at_def byte_of_buffer_def array_at_def ebind_run load_def read_bytes_def td_byte_def intrinsic_def)

lemma import_word_run:
  assumes "buffer_at buffer (be_bytes32 v) w"
  shows "import_word buffer w = (Inr v, w)"
proof -
  have b: "byte_of_buffer buffer 0 w = (Inr (ucast (drop_bit 24 v)), w)" "byte_of_buffer buffer 1 w = (Inr (ucast (drop_bit 16 v)), w)"
    "byte_of_buffer buffer 2 w = (Inr (ucast (drop_bit 8 v)), w)" "byte_of_buffer buffer 3 w = (Inr (ucast v), w)"
    using byte_of_buffer_run [OF assms] by (simp_all add: be_bytes32_def)
  have "[1..<4] = [1, 2, 3 :: nat]" by (simp add: upt_rec)
  with b be_word [of v] show ?thesis by (simp add: import_word_def ebind_run)
qed

definition result_at :: "vm_array \<Rightarrow> nat \<Rightarrow> cpu \<Rightarrow> bool" where
  "result_at result n w \<longleftrightarrow> arr_element_type result = td_word \<and> arr_length result = int n \<and>
     (\<forall>x. arr_addr result \<le> x \<and> x < arr_addr result + 4 * n \<longrightarrow> h_mem w x \<noteq> None)"

definition apart :: "vm_array \<Rightarrow> vm_array \<Rightarrow> bool" where
  "apart buffer result \<longleftrightarrow> arr_addr buffer + 4 \<le> arr_addr result \<or> arr_addr result + 4 * nat (arr_length result) \<le> arr_addr buffer"

definition filled :: "vm_array \<Rightarrow> nat \<Rightarrow> word_t \<Rightarrow> cpu \<Rightarrow> bool" where
  "filled result i v w \<longleftrightarrow> (\<forall>k<4 * i. h_mem w (arr_addr result + k) = Some (bytes32 v ! (k mod 4)))"

lemma import_item_run:
  assumes "buffer_at buffer (be_bytes32 v) w" "result_at result n w" "apart buffer result" "filled result i v w" "i < n"
  obtains w' where "ebind (ebind (import_word buffer) (\<lambda>x. eret (bytes32 x))) (\<lambda>bytes. ebind (lift_res (array_at result (int i))) (\<lambda>a. store a bytes)) w = (Inr (), w')"
    "buffer_at buffer (be_bytes32 v) w'" "result_at result n w'" "filled result (Suc i) v w'"
proof -
  let ?a = "arr_addr result + 4 * i"
  define w' where "w' = w\<lparr> h_mem := (\<lambda>x. if ?a \<le> x \<and> x < ?a + length (bytes32 v) then Some (bytes32 v ! (x - ?a)) else h_mem w x) \<rparr>"
  have a: "array_at result (int i) = Inr ?a"
    using assms(2,5) by (simp add: result_at_def array_at_def td_word_def intrinsic_def nat_mult_distrib)
  have s: "store ?a (bytes32 v) w = (Inr (), w')"
    unfolding w'_def by (rule store_run) (use assms(2,5) in \<open>auto simp: result_at_def\<close>)
  have "h_mem w' (arr_addr buffer + k) = h_mem w (arr_addr buffer + k)" if "k < 4" for k
    using assms(2,3,5) that by (auto simp: w'_def apart_def result_at_def)
  with assms(1) have b: "buffer_at buffer (be_bytes32 v) w'" by (simp add: buffer_at_def be_bytes32_def)
  have r: "result_at result n w'" using assms(2) by (simp add: result_at_def w'_def)
  have "h_mem w' (arr_addr result + k) = Some (bytes32 v ! (k mod 4))" if "k < 4 * Suc i" for k
  proof (cases "k < 4 * i")
    case True
    with assms(4) show ?thesis by (simp add: w'_def filled_def)
  next
    case False
    with that have "k = 4 * i + (k - 4 * i)" "k - 4 * i < 4" by simp_all
    then obtain d where "k = 4 * i + d" "d < 4" by blast
    then show ?thesis by (simp add: w'_def)
  qed
  then have f: "filled result (Suc i) v w'" unfolding filled_def by blast
  show ?thesis using import_word_run [OF assms(1)] a s b r f by (intro that [of w']) (simp_all add: ebind_run)
qed

lemma import_loop_run:
  assumes "buffer_at buffer (be_bytes32 v) w" "result_at result n w" "apart buffer result" "filled result i v w" "i \<le> n"
  shows "\<exists>w'. for_each (\<lambda>i. ebind (ebind (import_word buffer) (\<lambda>x. eret (bytes32 x))) (\<lambda>bytes. ebind (lift_res (array_at result i)) (\<lambda>a. store a bytes)))
     [int i..int n - 1] w = (Inr (), w') \<and> filled result n v w'"
  using assms
proof (induction "n - i" arbitrary: i w)
  case 0
  then show ?case by simp
next
  case (Suc d)
  then have i: "i < n" by simp
  then have l: "[int i..int n - 1] = int i # [int (Suc i)..int n - 1]" by (simp add: upto.simps add.commute)
  from import_item_run [OF Suc.prems(1-4) i] obtain w1 where w1:
    "ebind (ebind (import_word buffer) (\<lambda>x. eret (bytes32 x))) (\<lambda>bytes. ebind (lift_res (array_at result (int i))) (\<lambda>a. store a bytes)) w = (Inr (), w1)"
    "buffer_at buffer (be_bytes32 v) w1" "result_at result n w1" "filled result (Suc i) v w1" by blast
  have "d = n - Suc i" "Suc i \<le> n" using Suc.hyps(2) i by simp_all
  from Suc.hyps(1) [OF this(1) w1(2,3) Suc.prems(3) w1(4) this(2)] w1(1) show ?case
    by (simp only: l for_each.simps) (simp only: eseq_def ebind_run [of _ _ w] w1(1) prod.case sum.case)
qed

text \<open>importing integers from a buffer that begins with the coding export writes for an integer
  sets every element of the result to that integer, whatever follows it in the buffer: the loop
  reads the first four bytes each time.\<close>

theorem import_repeats_first:
  assumes "buffer_at buffer (be_bytes32 v) w" "result_at result n w" "apart buffer result"
  shows "\<exists>w'. import_items result (ebind (import_word buffer) (\<lambda>x. eret (bytes32 x))) w = (Inr (), w') \<and>
    (\<forall>i<n. get32 (arr_addr result + 4 * i) w' = (if arr_addr result + 4 * i = 0 then (Inl (AssertFailed ''vt != nullptr''), w') else (Inr v, w')))"
proof -
  have "filled result 0 v w" by (simp add: filled_def)
  from import_loop_run [OF assms this] assms(2) obtain w' where
    w': "import_items result (ebind (import_word buffer) (\<lambda>x. eret (bytes32 x))) w = (Inr (), w')" "filled result n v w'"
    by (auto simp: import_items_def result_at_def)
  have "get32 (arr_addr result + 4 * i) w' = (Inr v, w')" if "i < n" "arr_addr result + 4 * i \<noteq> 0" for i
  proof -
    have "read_bytes (arr_addr result + 4 * i) 4 (h_mem w') = Some (bytes32 v)"
    proof -
      have "h_mem w' (arr_addr result + 4 * i + k) = Some (bytes32 v ! k)" if "k < 4" for k
      proof -
        have "4 * i + k < 4 * n" using \<open>i < n\<close> that by linarith
        with w'(2) have "h_mem w' (arr_addr result + (4 * i + k)) = Some (bytes32 v ! ((4 * i + k) mod 4))" unfolding filled_def by blast
        with that show ?thesis by (simp add: add.assoc)
      qed
      note m = this [of 0] this [of 1] this [of 2] this [of 3]
      have "[0..<4] = [0, 1, 2, 3 :: nat]" by (simp add: upt_rec)
      with m show ?thesis by (simp add: read_bytes_def bytes32_def add.assoc)
    qed
    with that(2) show ?thesis by (simp add: get32_def vt_load_def load_def ebind_run eseq_def)
  qed
  moreover have "get32 0 w' = (Inl (AssertFailed ''vt != nullptr''), w')" by (simp add: get32_def vt_load_def ebind_run eseq_def)
  ultimately show ?thesis using w'(1) by auto
qed

section \<open>Concrete instances\<close>

definition real_library :: libm where
  "real_library = \<lparr> lm_fun1 = (\<lambda>f x. x), lm_fun2 = (\<lambda>f x y. x), lm_add = (\<lambda>x y. x), lm_mul = (\<lambda>x y. x), lm_less = (\<lambda>x y. False), lm_equal = (=),
     lm_isfinite = (\<lambda>x. True), lm_isnan = (\<lambda>x. False), lm_ilogb = (\<lambda>x. 0), lm_scalbln = (\<lambda>x n. x), lm_modf = (\<lambda>x. (x, 0)), lm_to_word = (\<lambda>x. ucast x),
     lm_of_word = (\<lambda>x. ucast x), lm_to_float = (\<lambda>x. ucast x), lm_of_float = (\<lambda>x. ucast x), lm_sort = (\<lambda>r xs. xs) \<rparr>"

definition short_product :: gemm_args where
  "short_product = \<lparr> g_transa = 78, g_transb = 78, g_m = 2, g_n = 1, g_k = 0, g_alpha = 0, g_a = 8, g_lda = 2, g_b = 8, g_ldb = 1, g_beta = 0,
     g_c = 64, g_ldc = 2, g_a_len = 0, g_b_len = 0, g_c_len = 1 \<rparr>"

definition one_real :: cpu where
  "one_real = (sample_cpu [])\<lparr> h_mem := (\<lambda>x. if 64 \<le> x \<and> x < 72 then Some 0 else None) \<rparr>"

theorem gemm_accepts_short_arrays_witness:
  "gemm_info short_product = Inr 0 \<and> fst (dgemm real_library short_product one_real) \<noteq> Inr 0"
proof -
  have i: "gemm_info short_product = Inr 0"
    by (simp add: gemm_info_def short_product_def matrix_info_def nota_def notb_def lsame_def nrowa_def ncola_def nrowb_def ncolb_def swrap_def in_word_def)
  have m: "maps_exactly (g_c short_product) (8 * nat (g_c_len short_product)) one_real"
    by (simp add: maps_exactly_def short_product_def one_real_def)
  have "(fst (dgemm real_library short_product one_real) = Inr 0) =
      (g_ldc short_product * (g_n short_product - 1) + g_m short_product \<le> g_c_len short_product)"
    by (rule gemm_accepts_short_arrays [OF i _ _ _ _ _ _ m]) (simp_all add: short_product_def real_library_def real_zero_def real_one_def)
  then show ?thesis using i by (simp add: short_product_def)
qed

text \<open>A buffer of eight bytes that begins with the integer 5, and an array of two integers.\<close>

definition eight_bytes :: vm_array where "eight_bytes = \<lparr> arr_addr = 100, arr_element_type = td_byte, arr_original = None, arr_length = 8 \<rparr>"
definition two_words :: vm_array where "two_words = \<lparr> arr_addr = 200, arr_element_type = td_word, arr_original = None, arr_length = 2 \<rparr>"

definition import_world :: cpu where
  "import_world = (sample_cpu [])\<lparr> h_mem := bytes_memory 100 (be_bytes32 5 @ be_bytes32 6) ++ bytes_memory 200 (replicate 8 0) \<rparr>"

theorem import_repeats_first_witness:
  "\<exists>w'. import_items two_words (ebind (import_word eight_bytes) (\<lambda>x. eret (bytes32 x))) import_world = (Inr (), w') \<and>
    (\<forall>i<2. get32 (200 + 4 * i) w' = (Inr 5, w'))"
proof -
  have b: "buffer_at eight_bytes (be_bytes32 5) import_world"
    by (simp add: buffer_at_def eight_bytes_def be_bytes32_def import_world_def bytes_memory_def map_add_def All_less_Suc)
  have r: "result_at two_words 2 import_world"
    by (auto simp: result_at_def two_words_def import_world_def bytes_memory_def map_add_def)
  have "apart eight_bytes two_words" by (simp add: apart_def eight_bytes_def two_words_def)
  from import_repeats_first [OF b r this] show ?thesis by (simp add: two_words_def)
qed

end
