(* ===== verification/MachineSpec.thy ===== *)
theory MachineSpec
  imports MathSpec
begin

text \<open>
  The whole machine: its threads run with the native functions of both built-in modules, the tools
  and the loader of the other theories, and keep the invariant of the heap. The codings of the
  floating point environment agree.
\<close>

section \<open>The functions of the Math module keep the heap invariant\<close>

definition fenv_quiet :: "fenv \<Rightarrow> bool" where
  "fenv_quiet V \<longleftrightarrow> keeps heap_inv (fe_getround V) \<and> (\<forall>r. keeps heap_inv (fe_setround V r)) \<and> keeps heap_inv (fe_getexcept V) \<and>
     keeps heap_inv (fe_clearexcept V) \<and> (\<forall>e m. keeps heap_inv (fe_setexcept V e m))"

lemma heap_inv_fenv [keeps_intros]:
  assumes "fenv_quiet V"
  shows "keeps heap_inv (fe_getround V)" "keeps heap_inv (fe_setround V r)" "keeps heap_inv (fe_getexcept V)"
    "keeps heap_inv (fe_clearexcept V)" "keeps heap_inv (fe_setexcept V e m)"
  using assms by (simp_all add: fenv_quiet_def)

lemma heap_inv_reals [keeps_intros]: "keeps heap_inv (arg_real k)" "keeps heap_inv (ret_real x)" "keeps heap_inv (unary L f1)"
  "keeps heap_inv (binary L f2)" "keeps heap_inv (typed td arr)" "keeps heap_inv (typed_arg td k)" "keeps heap_inv (nil_checked what k)"
  "keeps heap_inv (raw_real a i)" "keeps heap_inv (byte_of_buffer buf i)"
  unfolding arg_real_def ret_real_def unary_def binary_def typed_def typed_arg_def nil_checked_def raw_real_def byte_of_buffer_def
  by (intro keeps_intros)+

lemma heap_inv_flags [keeps_intros]:
  assumes "fenv_quiet V"
  shows "keeps heap_inv (get_fp_exception_flags V)" "keeps heap_inv (get_all_fp_flags V)" "keeps heap_inv (set_fp_control_flags V r m)"
  unfolding get_fp_exception_flags_def get_all_fp_flags_def set_fp_control_flags_def by (intro keeps_intros assms)+

lemma heap_inv_control:
  assumes "fenv_quiet V"
  shows "keeps heap_inv (Math_FPcontrol V)" "keeps heap_inv (Math_FPstatus V)" "keeps heap_inv (Math_getFPcontrol V)" "keeps heap_inv (Math_getFPstatus V)"
  unfolding Math_FPcontrol_def Math_FPstatus_def Math_getFPcontrol_def Math_getFPstatus_def Let_def by (intro keeps_intros assms)+

lemma keeps_sum_loop [keeps_intros]:
  assumes "\<And>i. keeps I (f i)"
  shows "keeps I (sum_loop L f is r)"
  by (induction "is" arbitrary: r) (simp_all only: sum_loop.simps, (intro keeps_intros assms | assumption)+)

lemma heap_inv_iamax_loop [keeps_intros]: "keeps heap_inv (iamax_loop L a is k m)"
  by (induction "is" arbitrary: k m) (simp_all only: iamax_loop.simps Let_def, (intro keeps_intros | assumption)+)

lemma heap_inv_sums: "keeps heap_inv (Math_dot L)" "keeps heap_inv (Math_norm1 L)" "keeps heap_inv (Math_norm2 L)" "keeps heap_inv (Math_iamax L)"
  unfolding Math_dot_def Math_norm1_def Math_norm2_def Math_iamax_def by (intro keeps_intros)+

lemma heap_inv_big_endian [keeps_intros]: "keeps heap_inv (import_loop32 buf js t)" "keeps heap_inv (import_loop64 buf js u)"
  by (induction js arbitrary: t u; simp only: import_loop32.simps import_loop64.simps; (intro keeps_intros | assumption)+)+

lemma heap_inv_import_parts [keeps_intros]: "keeps heap_inv (import_word buf)" "keeps heap_inv (import_big buf)" "keeps heap_inv (buffer_fits buf n vs)"
  "keeps heap_inv (put_big_endian buf i bytes)" "keeps heap_inv (load_words a k)" "keeps heap_inv (store_words a ws)"
  unfolding import_word_def import_big_def buffer_fits_def put_big_endian_def load_words_def store_words_def by (intro keeps_intros)+

lemma heap_inv_export_loop [keeps_intros]:
  assumes "\<And>a. keeps heap_inv (convert a)"
  shows "keeps heap_inv (export_loop buf vs convert)"
  unfolding export_loop_def by (intro keeps_intros assms)

lemma heap_inv_import_items [keeps_intros]: "keeps heap_inv item \<Longrightarrow> keeps heap_inv (import_items res item)"
  unfolding import_items_def by (intro keeps_intros | assumption)+

lemma heap_inv_conversions: "keeps heap_inv Math_export_int" "keeps heap_inv Math_export_real" "keeps heap_inv (Math_export_real32 L)"
  "keeps heap_inv Math_import_int" "keeps heap_inv Math_import_real" "keeps heap_inv (Math_import_real32 L)" "keeps heap_inv (Math_sort L)"
  unfolding Math_export_int_def Math_export_real_def Math_export_real32_def Math_import_int_def Math_import_real_def Math_import_real32_def
    Math_sort_def Let_def by (intro keeps_intros)+

lemma heap_inv_matrix [keeps_intros]: "keeps heap_inv (get_A G i j)" "keeps heap_inv (get_B G i j)" "keeps heap_inv (get_C G i j)"
  "keeps heap_inv (set_C G i j x)"
  unfolding get_A_def get_B_def get_C_def set_C_def mat_get_def mat_set_def mat_at_def by (intro keeps_intros)+

lemma keeps_dot_loop [keeps_intros]:
  assumes "\<And>l. keeps I (a l)" "\<And>l. keeps I (b l)"
  shows "keeps I (dot_loop L a b ls t)"
  by (induction ls arbitrary: t) (simp_all only: dot_loop.simps, (intro keeps_intros assms | assumption)+)

lemma heap_inv_gemm: "keeps heap_inv (Math_gemm L)"
proof -
  have c: "keeps heap_inv (clear_column G j)" "keeps heap_inv (scale_column L G j)" for G j
    unfolding clear_column_def scale_column_def by (intro keeps_intros)+
  have p: "keeps heap_inv (prepare_column L G j)" for G j unfolding prepare_column_def by (intro keeps_intros c)
  have a: "keeps heap_inv (add_columns L G b j)" "keeps heap_inv (dot_column L G b j)" if b: "\<And>l. keeps heap_inv (b l)" for G b j
    unfolding add_columns_def dot_column_def Let_def by (intro keeps_intros b)+
  have b: "keeps heap_inv ((if notb G then (\<lambda>l j. get_B G l j) else (\<lambda>l j. get_B G j l)) l j)" for G l j
    by (simp add: heap_inv_matrix)
  have "keeps heap_inv (dgemm L G)" for G
    unfolding dgemm_def Let_def by (intro keeps_intros c p a b)
  note g = this
  show ?thesis unfolding Math_gemm_def by (intro keeps_intros g)
qed

lemma heap_inv_real_functions: "keeps heap_inv (Math_atan2 L)" "keeps heap_inv (Math_bits32real L)" "keeps heap_inv Math_bits64real"
  "keeps heap_inv (Math_finite L)" "keeps heap_inv (Math_ilogb L)" "keeps heap_inv (Math_isnan L)" "keeps heap_inv (Math_modf L)"
  "keeps heap_inv (Math_pow10 L)" "keeps heap_inv (Math_realbits32 L)" "keeps heap_inv Math_realbits64" "keeps heap_inv (Math_scalbn L)"
  unfolding Math_atan2_def Math_bits32real_def Math_bits64real_def Math_finite_def Math_ilogb_def Math_isnan_def Math_modf_def
    Math_pow10_def Math_realbits32_def Math_realbits64_def Math_scalbn_def by (intro keeps_intros)+

lemmas unary_functions_def = Math_acos_def Math_acosh_def Math_asin_def Math_asinh_def Math_atan_def Math_atanh_def Math_cbrt_def Math_ceil_def
  Math_cos_def Math_cosh_def Math_erf_def Math_erfc_def Math_exp_def Math_expm1_def Math_fabs_def Math_floor_def Math_log_def Math_log10_def
  Math_log1p_def Math_rint_def Math_sin_def Math_sinh_def Math_sqrt_def Math_tan_def Math_tanh_def

lemmas binary_functions_def = Math_copysign_def Math_fdim_def Math_fmax_def Math_fmin_def Math_fmod_def Math_hypot_def Math_nextafter_def
  Math_pow_def Math_remainder_def

lemmas missing_functions_def = Math_j0_def Math_j1_def Math_jn_def Math_lgamma_def Math_y0_def Math_y1_def Math_yn_def

lemma heap_inv_native:
  assumes "host_quiet H" "fenv_quiet V"
  shows "keeps heap_inv (native_function fuel H F L V f)"
proof -
  have "\<forall>m \<in> set (math_functions L V). keeps heap_inv m"
    using heap_inv_control [OF assms(2)] heap_inv_sums heap_inv_conversions heap_inv_gemm heap_inv_real_functions
    by (simp add: math_functions_def unary_functions_def binary_functions_def missing_functions_def heap_inv_reals heap_inv_frame_args)
  then have "k < length (math_functions L V) \<Longrightarrow> keeps heap_inv (math_functions L V ! k)" for k by simp
  then show ?thesis unfolding native_function_def using heap_inv_sys_native [OF assms(1)] by simp
qed


section \<open>Flags of the floating point environment\<close>

text \<open>The flags of the C library on x86.\<close>

definition x86_fenv :: fenv where
  "x86_fenv = \<lparr> fe_getround = eret 0, fe_setround = (\<lambda>r. eret True), fe_getexcept = eret (Some 0), fe_clearexcept = eret True,
     fe_setexcept = (\<lambda>e m. eret True), FE_TONEAREST = 0, FE_DOWNWARD = 0x400, FE_UPWARD = 0x800, FE_TOWARDZERO = 0xc00, FE_ROUND_MASK = 0xc00,
     FE_INEXACT = 0x20, FE_UNDERFLOW = 0x10, FE_OVERFLOW = 0x8, FE_DIVBYZERO = 0x4, FE_INVALID = 0x1 \<rparr>"


definition round_modes_distinct :: "fenv \<Rightarrow> bool" where
  "round_modes_distinct V \<longleftrightarrow> distinct [FE_TONEAREST V, FE_DOWNWARD V, FE_UPWARD V, FE_TOWARDZERO V] \<and>
     (\<forall>r \<in> {FE_TONEAREST V, FE_DOWNWARD V, FE_UPWARD V, FE_TOWARDZERO V}. r AND FE_ROUND_MASK V = r)"

definition exceptions_disjoint :: "word_t list \<Rightarrow> bool" where
  "exceptions_disjoint fs \<longleftrightarrow> 0 \<notin> set fs \<and> (\<forall>i<length fs. \<forall>j<length fs. i \<noteq> j \<longrightarrow> fs ! i AND fs ! j = 0)"

definition std_exceptions :: "fenv \<Rightarrow> word_t list" where
  "std_exceptions V = [FE_INVALID V, FE_DIVBYZERO V, FE_OVERFLOW V, FE_UNDERFLOW V, FE_INEXACT V]"

definition limbo_exceptions :: "word_t list" where
  "limbo_exceptions = [Math_INVAL, Math_ZDIV, Math_OVFL, Math_UNFL, Math_INEX]"

primrec add_flags :: "word_t \<Rightarrow> (word_t \<times> word_t) list \<Rightarrow> word_t" where
  "add_flags e [] = 0"
| "add_flags e (p # ps) = add_flag e (fst p) (snd p) (add_flags e ps)"

lemma exception_codes:
  "convert_to_limbo_fp_exception V e = add_flags e (zip (std_exceptions V) limbo_exceptions)"
  "convert_to_std_fp_exception V e = add_flags e (zip limbo_exceptions (std_exceptions V))"
  by (simp_all add: convert_to_limbo_fp_exception_def convert_to_std_fp_exception_def std_exceptions_def limbo_exceptions_def)

lemma has_flag_or: "has_flag (a OR b) f \<longleftrightarrow> has_flag a f \<or> has_flag b f"
  by (simp add: has_flag_def bit.conj_disj_distrib2 or_eq_0_iff)

lemma add_flags_foreign: "\<forall>(t, f) \<in> set ps. f AND g = 0 \<Longrightarrow> \<not> has_flag (add_flags e ps) g"
  by (induction ps) (auto simp: add_flag_def has_flag_or, auto simp: has_flag_def)

lemma disjoint_Cons: "exceptions_disjoint (f # fs) \<Longrightarrow> exceptions_disjoint fs \<and> f \<noteq> 0 \<and> (\<forall>g \<in> set fs. f AND g = 0 \<and> g AND f = 0)"
proof -
  assume d: "exceptions_disjoint (f # fs)"
  have t: "exceptions_disjoint fs" unfolding exceptions_disjoint_def
  proof (intro conjI allI impI)
    show "0 \<notin> set fs" using d by (simp add: exceptions_disjoint_def)
    fix i j assume "i < length fs" "j < length fs" "i \<noteq> j"
    with d [unfolded exceptions_disjoint_def, THEN conjunct2, rule_format, of "Suc i" "Suc j"] show "fs ! i AND fs ! j = 0" by simp
  qed
  have "f AND fs ! i = 0" if "i < length fs" for i
    using d [unfolded exceptions_disjoint_def, THEN conjunct2, rule_format, of 0 "Suc i"] that by simp
  then have "\<forall>g \<in> set fs. f AND g = 0" by (metis in_set_conv_nth)
  with t d show ?thesis by (simp add: exceptions_disjoint_def and.commute)
qed

text \<open>Each flag of the first coding comes back as it was.\<close>

lemma flag_survives:
  assumes "length ts = length fs" "exceptions_disjoint fs" "i < length fs"
  shows "has_flag (add_flags e (zip ts fs)) (fs ! i) \<longleftrightarrow> has_flag e (ts ! i)"
  using assms
proof (induction ts fs arbitrary: i rule: list_induct2)
  case (Cons t ts f fs)
  note d = disjoint_Cons [OF Cons.prems(1)]
  show ?case
  proof (cases i)
    case 0
    have "\<not> has_flag (add_flags e (zip ts fs)) f"
      by (rule add_flags_foreign) (use d in \<open>auto dest: set_zip_rightD\<close>)
    with 0 d show ?thesis by (simp add: add_flag_def has_flag_or, simp add: has_flag_def)
  next
    case (Suc k)
    with Cons.prems have k: "k < length fs" by simp
    then have "\<not> has_flag f (fs ! k)" using d by (simp add: has_flag_def)
    with Suc Cons.IH [of k] d k show ?thesis by (simp add: add_flag_def has_flag_or)
  qed
qed simp

lemma add_flags_cong:
  assumes "length ts = length us" "length fs = length us" "\<forall>i<length us. has_flag e' (fs ! i) = has_flag e (ts ! i)"
  shows "add_flags e' (zip fs us) = add_flags e (zip ts us)"
  using assms
proof (induction us arbitrary: ts fs)
  case (Cons u us)
  obtain t ts' where t: "ts = t # ts'" using Cons.prems(1) by (cases ts) simp_all
  obtain f fs' where f: "fs = f # fs'" using Cons.prems(2) by (cases fs) simp_all
  have h: "has_flag e' f = has_flag e t" using Cons.prems(3) t f by force
  have "\<forall>i<length us. has_flag e' (fs' ! i) = has_flag e (ts' ! i)" using Cons.prems(3) t f by force
  with Cons.IH [of ts' fs'] Cons.prems(1,2) t f h show ?case by (simp add: add_flag_def)
qed simp

lemma one_bit: "(e AND 2 ^ k :: word_t) = (if has_flag e (2 ^ k) then 2 ^ k else 0)" if "k < 32"
  unfolding has_flag_def by (cases "bit e k") (auto simp: and_exp_eq_0_iff_not_bit intro!: bit_word_eqI simp: bit_and_iff bit_exp_iff)

lemma limbo_bits: "add_flags e (zip limbo_exceptions limbo_exceptions) = e AND 0x1f"
proof -
  have b: "e AND 1 = (if has_flag e 1 then 1 else 0)" "e AND 2 = (if has_flag e 2 then 2 else 0)" "e AND 4 = (if has_flag e 4 then 4 else 0)"
    "e AND 8 = (if has_flag e 8 then 8 else 0)" "e AND 16 = (if has_flag e 16 then 16 else 0)"
    using one_bit [of 0 e] one_bit [of 1 e] one_bit [of 2 e] one_bit [of 3 e] one_bit [of 4 e] by simp_all
  have "(0x1f :: word_t) = 1 OR (2 OR (4 OR (8 OR 16)))" by simp
  then have "e AND 0x1f = (e AND 1) OR ((e AND 2) OR ((e AND 4) OR ((e AND 8) OR (e AND 16))))"
    by (simp only: bit.conj_disj_distrib)
  then show ?thesis unfolding b
    by (simp add: limbo_exceptions_def add_flag_def Math_INVAL_def Math_ZDIV_def Math_OVFL_def Math_UNFL_def Math_INEX_def)
qed

lemma exceptions_roundtrip:
  assumes "exceptions_disjoint (std_exceptions V)"
  shows "convert_to_limbo_fp_exception V (convert_to_std_fp_exception V e) = e AND 0x1f"
proof -
  have l: "length limbo_exceptions = length (std_exceptions V)" by (simp add: limbo_exceptions_def std_exceptions_def)
  have "\<forall>i<length limbo_exceptions. has_flag (add_flags e (zip limbo_exceptions (std_exceptions V))) (std_exceptions V ! i) =
      has_flag e (limbo_exceptions ! i)"
    unfolding l by (intro allI impI flag_survives [OF l assms])
  from add_flags_cong [OF refl l [symmetric] this] show ?thesis unfolding exception_codes limbo_bits .
qed

lemma limbo_rounds: "r AND Math_RND_MASK \<in> {Math_RND_NR, Math_RND_NINF, Math_RND_PINF, Math_RND_Z}"
proof -
  have b: "r AND 0x100 = (if has_flag r 0x100 then 0x100 else 0)" "r AND 0x200 = (if has_flag r 0x200 then 0x200 else 0)"
    using one_bit [of 8 r] one_bit [of 9 r] by simp_all
  have "(0x300 :: word_t) = 0x100 OR 0x200" by simp
  then have "r AND 0x300 = (r AND 0x100) OR (r AND 0x200)" by (simp only: bit.conj_disj_distrib)
  then show ?thesis unfolding b by (simp add: Math_RND_MASK_def Math_RND_NR_def Math_RND_NINF_def Math_RND_PINF_def Math_RND_Z_def)
qed

lemma rounds_roundtrip:
  assumes "round_modes_distinct V"
  shows "rbind (convert_to_std_fp_round V r) (convert_to_limbo_fp_round V) = Inr (r AND Math_RND_MASK)"
proof -
  have m: "FE_TONEAREST V AND FE_ROUND_MASK V = FE_TONEAREST V" "FE_DOWNWARD V AND FE_ROUND_MASK V = FE_DOWNWARD V"
    "FE_UPWARD V AND FE_ROUND_MASK V = FE_UPWARD V" "FE_TOWARDZERO V AND FE_ROUND_MASK V = FE_TOWARDZERO V"
    using assms by (simp_all add: round_modes_distinct_def)
  have d: "FE_DOWNWARD V \<noteq> FE_TONEAREST V" "FE_UPWARD V \<noteq> FE_TONEAREST V" "FE_UPWARD V \<noteq> FE_DOWNWARD V" "FE_TOWARDZERO V \<noteq> FE_TONEAREST V"
    "FE_TOWARDZERO V \<noteq> FE_DOWNWARD V" "FE_TOWARDZERO V \<noteq> FE_UPWARD V"
    using assms by (auto simp: round_modes_distinct_def)
  have l: "convert_to_limbo_fp_round V (FE_TONEAREST V) = Inr Math_RND_NR" "convert_to_limbo_fp_round V (FE_DOWNWARD V) = Inr Math_RND_NINF"
    "convert_to_limbo_fp_round V (FE_UPWARD V) = Inr Math_RND_PINF" "convert_to_limbo_fp_round V (FE_TOWARDZERO V) = Inr Math_RND_Z"
    using m d by (simp_all add: convert_to_limbo_fp_round_def Let_def)
  have s: "convert_to_std_fp_round V r = Inr (FE_TONEAREST V)" if "r AND Math_RND_MASK = Math_RND_NR"
    using that by (simp add: convert_to_std_fp_round_def)
  have t: "convert_to_std_fp_round V r = Inr (FE_DOWNWARD V)" if "r AND Math_RND_MASK = Math_RND_NINF"
    using that by (simp add: convert_to_std_fp_round_def Math_RND_NR_def Math_RND_NINF_def)
  have u: "convert_to_std_fp_round V r = Inr (FE_UPWARD V)" if "r AND Math_RND_MASK = Math_RND_PINF"
    using that by (simp add: convert_to_std_fp_round_def Math_RND_NR_def Math_RND_NINF_def Math_RND_PINF_def)
  have v: "convert_to_std_fp_round V r = Inr (FE_TOWARDZERO V)" if "r AND Math_RND_MASK = Math_RND_Z"
    using that by (simp add: convert_to_std_fp_round_def Math_RND_NR_def Math_RND_NINF_def Math_RND_PINF_def Math_RND_Z_def)
  consider "r AND Math_RND_MASK = Math_RND_NR" | "r AND Math_RND_MASK = Math_RND_NINF" | "r AND Math_RND_MASK = Math_RND_PINF"
    | "r AND Math_RND_MASK = Math_RND_Z" using limbo_rounds [of r] by blast
  then show ?thesis
  proof cases
    case 1 then show ?thesis unfolding s [OF 1] 1 by (simp only: rbind_simps l)
  next
    case 2 then show ?thesis unfolding t [OF 2] 2 by (simp only: rbind_simps l)
  next
    case 3 then show ?thesis unfolding u [OF 3] 3 by (simp only: rbind_simps l)
  next
    case 4 then show ?thesis unfolding v [OF 4] 4 by (simp only: rbind_simps l)
  qed
qed

text \<open>a rounding mode and a set of exceptions of a program come back unchanged, but for the bits
  outside the masks, when they are put into the coding of the C library and taken out again.\<close>

theorem fp_flags_roundtrip:
  assumes "round_modes_distinct V" "exceptions_disjoint (std_exceptions V)"
  shows "rbind (convert_to_std_fp_round V r) (convert_to_limbo_fp_round V) = Inr (r AND Math_RND_MASK) \<and>
    convert_to_limbo_fp_exception V (convert_to_std_fp_exception V e) = e AND 0x1f"
  using rounds_roundtrip [OF assms(1)] exceptions_roundtrip [OF assms(2)] by simp

theorem fp_flags_roundtrip_witness:
  "rbind (convert_to_std_fp_round x86_fenv 0x207) (convert_to_limbo_fp_round x86_fenv) = Inr (0x207 AND Math_RND_MASK) \<and>
    convert_to_limbo_fp_exception x86_fenv (convert_to_std_fp_exception x86_fenv 0x35) = 0x35 AND 0x1f"
proof (rule fp_flags_roundtrip)
  show "round_modes_distinct x86_fenv" by (simp add: round_modes_distinct_def x86_fenv_def)
  show "exceptions_disjoint (std_exceptions x86_fenv)"
    by (simp add: exceptions_disjoint_def std_exceptions_def x86_fenv_def All_less_Suc)
qed

section \<open>Setting the rounding mode\<close>

lemma control_mode_ignored:
  assumes "\<And>x. fe_getround V x = (Inr mode, x)" "\<And>x. fe_getexcept V x = (Inr (Some flags), x)"
    "arg_word 0 w = (Inr r, w)" "arg_word 4 w = (Inr m, w)" "m AND FE_ROUND_MASK V = 0"
  shows "Math_FPcontrol (V\<lparr> fe_setround := setround \<rparr>) w = Math_FPcontrol V w"
proof -
  have e: "convert_to_limbo_fp_exception (V\<lparr> fe_setround := setround \<rparr>) = convert_to_limbo_fp_exception V"
    by (simp add: fun_eq_iff convert_to_limbo_fp_exception_def)
  have m: "convert_to_limbo_fp_round (V\<lparr> fe_setround := setround \<rparr>) = convert_to_limbo_fp_round V"
    by (simp add: fun_eq_iff convert_to_limbo_fp_round_def Let_def cong: if_cong)
  have "get_all_fp_flags (V\<lparr> fe_setround := setround \<rparr>) = get_all_fp_flags V"
    unfolding get_all_fp_flags_def get_fp_exception_flags_def e m by simp
  moreover have "\<exists>x. get_all_fp_flags V w = (x, w)"
    using assms(1,2) by (auto simp: get_all_fp_flags_def get_fp_exception_flags_def ebind_run split: sum.splits)
  then obtain x where "get_all_fp_flags V w = (x, w)" ..
  moreover have "convert_to_std_fp_round (V\<lparr> fe_setround := setround \<rparr>) x = convert_to_std_fp_round V x" for x
    by (simp add: convert_to_std_fp_round_def Let_def cong: if_cong)
  ultimately show ?thesis using assms(3-5)
    by (cases x) (simp_all add: Math_FPcontrol_def ebind_run eseq_def set_fp_control_flags_def when_do_def split: sum.split)
qed

text \<open>setting the rounding mode does nothing when the mask of the program has no bit of the C
  library's own mask, as on x86, where the modes of the two codings have no bit in common: what
  the C library would do to set the mode makes no difference.\<close>

theorem control_mode_never_set:
  assumes "arg_word 0 w = (Inr r, w)" "arg_word 4 w = (Inr m, w)" "m AND NOT Math_RND_MASK = 0"
  shows "Math_FPcontrol (x86_fenv\<lparr> fe_setround := setround \<rparr>) w = Math_FPcontrol x86_fenv w"
proof (rule control_mode_ignored)
  show "m AND FE_ROUND_MASK x86_fenv = 0"
  proof (rule bit_word_eqI)
    fix i
    have b: "bit Math_RND_MASK i \<longleftrightarrow> i = 8 \<or> i = 9" "bit (FE_ROUND_MASK x86_fenv) i \<longleftrightarrow> i = 10 \<or> i = 11" if "i < 32"
    proof -
      have e: "Math_RND_MASK = 2 ^ 8 OR 2 ^ 9" "FE_ROUND_MASK x86_fenv = 2 ^ 10 OR 2 ^ 11" by (simp_all add: Math_RND_MASK_def x86_fenv_def)
      show "bit Math_RND_MASK i \<longleftrightarrow> i = 8 \<or> i = 9" "bit (FE_ROUND_MASK x86_fenv) i \<longleftrightarrow> i = 10 \<or> i = 11"
        unfolding e bit_or_iff bit_exp_iff using that by auto
    qed
    assume "i < LENGTH(32)"
    then have i: "i < 32" by simp
    have "\<not> bit (m AND NOT Math_RND_MASK) i" using assms(3) by simp
    with b i show "bit (m AND FE_ROUND_MASK x86_fenv) i = bit (0 :: word_t) i" by (auto simp: bit_and_iff bit_not_iff)
  qed
qed (use assms in \<open>simp_all add: x86_fenv_def\<close>)

definition control_frame :: cpu where
  "control_frame = (sample_cpu [])\<lparr> h_mem := bytes_memory 520 (replicate 32 0 @ bytes32 0x200 @ bytes32 0x300) \<rparr>"

theorem control_mode_never_set_witness:
  "Math_FPcontrol (x86_fenv\<lparr> fe_setround := (\<lambda>r. throw OutOfFuel) \<rparr>) control_frame = Math_FPcontrol x86_fenv control_frame"
  by (rule control_mode_never_set [of _ "0x200" "0x300"])
    (simp_all add: arg_word_def arg_addr_def args_offset_def fp_def get32_def vt_load_def load_def read_bytes_def ebind_run eseq_def Math_RND_MASK_def
      control_frame_def sample_defs reg_def frame_base_def sizeof_frame_def peek_frame_def bytes32_def upt_rec word32_def nth_append)

end
