(* ===== verification/SymbolReader.thy ===== *)
theory SymbolReader
  imports BufferedReader ModuleReader
begin

text \<open>
  The reader of symbol files (\<^verbatim>\<open>src/src/asm/sbl_reader.cpp\<close>): the tables of an sbl file, the names of its
  types and functions, and the iterator of a debugger over its program counters. The members that
  the source leaves uninitialised are options. A type is read by recursion, with one unit of fuel
  for a level of nesting; every level takes a byte of the file. A \<^verbatim>\<open>long\<close> has 32 bits.
\<close>

section \<open>Strings and numbers\<close>

definition ch :: "char \<Rightarrow> byte_t" where "ch c = of_char c"
definition ascii :: "string \<Rightarrow> byte_t list" where "ascii s = map of_char s"

fun split_loop :: "byte_t list \<Rightarrow> byte_t list \<Rightarrow> byte_t list \<Rightarrow> byte_t list list" where
  "split_loop delims cur [] = (if cur = [] then [] else [cur])"
| "split_loop delims cur (c # cs) = (
     if c \<in> set delims then (if cur \<noteq> [] then [cur] else []) @ split_loop delims [] cs
     else split_loop delims (cur @ [c]) cs)"

definition split_at_any :: "byte_t list \<Rightarrow> byte_t list \<Rightarrow> byte_t list list" where
  "split_at_any delims bs = split_loop delims [] (c_string bs)"

definition c_isspace :: "byte_t \<Rightarrow> bool" where "c_isspace b \<longleftrightarrow> b = 32 \<or> (9 \<le> b \<and> b \<le> 13)"
definition c_isdigit :: "byte_t \<Rightarrow> bool" where "c_isdigit b \<longleftrightarrow> 48 \<le> b \<and> b \<le> 57"

definition decimal_value :: "byte_t list \<Rightarrow> int" where
  "decimal_value ds = foldl (\<lambda>v d. 10 * v + (uint d - 48)) 0 ds"

definition scan_int :: "byte_t list \<Rightarrow> (int \<times> nat) option" where
  "scan_int bs = (
     let spaces = length (takeWhile c_isspace bs); r1 = drop spaces bs;
         sign = (r1 \<noteq> [] \<and> (hd r1 = ch CHR ''-'' \<or> hd r1 = ch CHR ''+'')); r2 = (if sign then tl r1 else r1);
         ds = takeWhile c_isdigit r2; v = decimal_value ds
     in if ds = [] then None
        else Some (if sign \<and> hd r1 = ch CHR ''-'' then - v else v, spaces + (if sign then 1 else 0) + length ds))"

definition stoi :: "byte_t list \<Rightarrow> (int \<times> nat) res" where
  "stoi bs = (case scan_int bs of None \<Rightarrow> Inl (StdException ''invalid stoi argument'')
     | Some (v, consumed) \<Rightarrow> require (in_word v) (StdException ''stoi argument out of range'') (Inr (v, consumed)))"

definition stoul :: "byte_t list \<Rightarrow> word_t res" where
  "stoul bs = (case scan_int bs of None \<Rightarrow> Inl (StdException ''invalid stoul argument'')
     | Some (v, consumed) \<Rightarrow> require (abs v < 2 ^ 32) (StdException ''stoul argument out of range'') (Inr (word_of_int v)))"

section \<open>The tables of a symbol file\<close>

record source_ref =
  src_begin_source_id :: int
  src_begin_line :: int
  src_begin_column :: "int option"
  src_end_source_id :: "int option"
  src_end_line :: int
  src_end_column :: "int option"

datatype sbl_version = Sbl_2_0 | Sbl_2_1

record sbl_header =
  sh_version :: sbl_version
  sh_module_name :: "byte_t list"

record sbl_read_context =
  fc_pc_count :: int
  fc_last_file :: int
  fc_last_line :: int

record pc_item =
  pi_source :: source_ref
  pi_debug_statement :: int

record sbl_type =
  ty_class :: byte_t
  ty_index1 :: word_t
  ty_index2 :: word_t

record id_item =
  id_offset :: word_t
  id_name :: "byte_t list"
  id_source :: source_ref
  id_type :: sbl_type

record func_item =
  fn_entry_pc :: int
  fn_limit_pc :: int
  fn_name :: "byte_t list"
  fn_args :: "id_item list"
  fn_locals :: "id_item list"
  fn_return_type :: sbl_type

datatype name_source_size = NameSourceSize (nss_name: "byte_t list") (nss_source: source_ref) (nss_size: "int option")
  (nss_ids: "id_item list") (nss_tags: "name_source_size list option")

record tuple_item =
  tp_size :: int
  tp_ids :: "id_item list"

record type_table =
  tt_types :: "sbl_type list"
  tt_strings :: "byte_t list list"
  tt_inner :: "sbl_type list"
  tt_sources :: "source_ref list"
  tt_adts :: "name_source_size list"
  tt_tuples :: "tuple_item list"

definition string_table_mask :: word_t where "string_table_mask = 0x80000000"
definition inner_type_table_mask :: word_t where "inner_type_table_mask = 0x40000000"
definition source_table_mask :: word_t where "source_table_mask = 0x20000000"
definition adt_table_mask :: word_t where "adt_table_mask = 0x10000000"
definition tuple_type_mask :: word_t where "tuple_type_mask = 0x08000000"
definition types_mask :: word_t where "types_mask = 0"

definition masked_index :: "word_t \<Rightarrow> string \<Rightarrow> 'a list \<Rightarrow> word_t \<Rightarrow> 'a res" where
  "masked_index m what xs idx = (let idx_local = idx AND NOT m in
     require (unat idx_local < length xs) (StdException what) (Inr (xs ! unat idx_local)))"

definition resolve_string :: "type_table \<Rightarrow> word_t \<Rightarrow> byte_t list res" where
  "resolve_string tt idx = masked_index string_table_mask ''Invalid string table index'' (tt_strings tt) idx"

definition resolve_type :: "type_table \<Rightarrow> word_t \<Rightarrow> sbl_type res" where
  "resolve_type tt idx = (
     if has_flag idx inner_type_table_mask then masked_index inner_type_table_mask ''Invalid inner type table index'' (tt_inner tt) idx
     else require (\<not> (0 > sint idx \<or> length (tt_types tt) \<le> unat idx)) (StdException ''Invalid type table index'')
       (Inr (tt_types tt ! unat idx)))"

definition resolve_source :: "type_table \<Rightarrow> word_t \<Rightarrow> source_ref res" where
  "resolve_source tt idx = masked_index source_table_mask ''Invalid source table index'' (tt_sources tt) idx"

definition resolve_adt :: "type_table \<Rightarrow> word_t \<Rightarrow> name_source_size res" where
  "resolve_adt tt idx = masked_index adt_table_mask ''Invalid adt table index'' (tt_adts tt) idx"

definition resolve_tuple :: "type_table \<Rightarrow> word_t \<Rightarrow> tuple_item res" where
  "resolve_tuple tt idx = masked_index tuple_type_mask ''Invalid tuple table index'' (tt_tuples tt) idx"

record sbl_file =
  sf_header :: sbl_header
  sf_files :: "byte_t list list"
  sf_pcs :: "pc_item list"
  sf_types :: type_table
  sf_funcs :: "func_item list"
  sf_data :: "id_item list"

record sbl_state =
  sb_reader :: buffered_reader
  sb_types :: type_table
  sb_context :: sbl_read_context

type_synonym 'a sbl = "(sbl_state, 'a) eff"

definition sbl_reader :: "'a reader \<Rightarrow> 'a sbl" where
  "sbl_reader m = (\<lambda>s. let (x, r) = m (sb_reader s) in (x, s\<lparr> sb_reader := r \<rparr>))"

definition until :: "byte_t \<Rightarrow> byte_t list sbl" where "until b = sbl_reader (get_as_string_until b)"
definition next_byte :: "(bool \<times> byte_t) sbl" where "next_byte = sbl_reader get_next_byte"
definition newline :: byte_t where "newline = 10"

definition to_int :: "byte_t list \<Rightarrow> int sbl" where
  "to_int bs = ebind (lift_res (stoi bs)) (\<lambda>(v, _). eret v)"

definition read_count :: "nat sbl" where
  "read_count = ebind (until newline) (\<lambda>count_str.
     ebind (to_int count_str) (\<lambda>count.
     eseq (check (0 \<le> count) (StdException ''vector too long'')) (
     eret (nat count))))"

primrec repeat_sbl :: "nat \<Rightarrow> 'a sbl \<Rightarrow> 'a list sbl" where
  "repeat_sbl 0 m = eret []"
| "repeat_sbl (Suc n) m = ebind m (\<lambda>x. ebind (repeat_sbl n m) (\<lambda>xs. eret (x # xs)))"

section \<open>Header, files and program counters\<close>

definition read_sbl_header :: "sbl_header sbl" where
  "read_sbl_header = ebind (until newline) (\<lambda>v.
     ebind (if v = ascii ''limbo .sbl 2.1'' then eret Sbl_2_1
       else if v = ascii ''limbo .sbl 2.0'' then eret Sbl_2_0
       else throw (StdException ''Unknown symbol file version'')) (\<lambda>version.
     ebind (until newline) (\<lambda>module_name.
     eret \<lparr> sh_version = version, sh_module_name = module_name \<rparr>)))"

definition read_file_table :: "byte_t list list sbl" where
  "read_file_table = ebind read_count (\<lambda>count. repeat_sbl count (until newline))"

definition set_column :: "bool \<Rightarrow> int \<Rightarrow> source_ref \<Rightarrow> source_ref" where
  "set_column first v src = (if first then src\<lparr> src_begin_column := Some v \<rparr> else src)\<lparr> src_end_column := Some v \<rparr>"

definition set_line :: "bool \<Rightarrow> int \<Rightarrow> source_ref \<Rightarrow> source_ref" where
  "set_line first v src = (if first then src\<lparr> src_begin_line := v \<rparr> else src)\<lparr> src_end_line := v \<rparr>"

definition set_source :: "bool \<Rightarrow> int \<Rightarrow> source_ref \<Rightarrow> source_ref" where
  "set_source first v src = (if first then src\<lparr> src_begin_source_id := v \<rparr> else src)\<lparr> src_end_source_id := Some v \<rparr>"

function src_position :: "bool \<Rightarrow> byte_t list \<Rightarrow> source_ref \<times> sbl_read_context \<Rightarrow> (source_ref \<times> sbl_read_context) res" where
  "src_position first pos (src, fc) = (if pos = [] then Inr (src, fc) else
     rbind (stoi pos) (\<lambda>(v, consumed). case drop consumed pos of
       [] \<Rightarrow> Inr (set_column first v src, fc)
     | c # rest \<Rightarrow>
         if c = ch CHR ''.'' then src_position first rest (set_line first v src, fc\<lparr> fc_last_line := v \<rparr>)
         else if c = ch CHR '':'' then src_position first rest (set_source first v src, fc\<lparr> fc_last_file := v \<rparr>)
         else src_position first rest (src, fc)))"
  by pat_completeness auto
lemma drop_shrinks: "drop k xs = c # rest \<Longrightarrow> length rest < length xs"
  by (metis diff_le_self length_Cons length_drop less_eq_Suc_le)

termination src_position
  by (relation "measure (\<lambda>(_, pos, _). length pos)") (auto dest: drop_shrinks)

definition src_entry :: "byte_t list \<Rightarrow> sbl_read_context \<Rightarrow> (source_ref \<times> sbl_read_context) res" where
  "src_entry src_str fc = (case split_at_any (ascii '','') src_str of
     [p1, p2] \<Rightarrow> rbind (src_position True p1 (\<lparr> src_begin_source_id = fc_last_file fc, src_begin_line = fc_last_line fc, src_begin_column = None,
        src_end_source_id = None, src_end_line = fc_last_line fc, src_end_column = None \<rparr>, fc)) (src_position False p2)
   | _ \<Rightarrow> Inl (StdException ''Invalid source item''))"

definition read_src_entry :: "byte_t list \<Rightarrow> source_ref sbl" where
  "read_src_entry src_str = ebind (gets sb_context) (\<lambda>fc.
     ebind (lift_res (src_entry src_str fc)) (\<lambda>(src, fc').
     eseq (modify (\<lambda>s. s\<lparr> sb_context := fc' \<rparr>)) (
     eret src)))"

definition read_pc_item :: "pc_item sbl" where
  "read_pc_item = ebind (until newline) (\<lambda>item.
     case split_at_any (ascii '' '') item of
       [p1, p2] \<Rightarrow> (ebind (read_src_entry p1) (\<lambda>source.
       ebind (to_int p2) (\<lambda>stmt.
       eret \<lparr> pi_source = source, pi_debug_statement = stmt \<rparr>)))
     | _ \<Rightarrow> throw (StdException ''Invalid PC item''))"

definition read_pc_table :: "pc_item list sbl" where
  "read_pc_table = ebind read_count (\<lambda>count.
     ebind (repeat_sbl count read_pc_item) (\<lambda>pcs.
     eseq (modify (\<lambda>s. s\<lparr> sb_context := (sb_context s)\<lparr> fc_pc_count := int count \<rparr> \<rparr>)) (
     eret pcs)))"

section \<open>Types\<close>

definition read_id_item :: "sbl_type sbl \<Rightarrow> id_item sbl" where
  "read_id_item rt = ebind (until (ch CHR '':'')) (\<lambda>offset_part.
     eseq (check (offset_part \<noteq> []) (StdException ''Invalid ID table item (offset)'')) (
     ebind (until (ch CHR '':'')) (\<lambda>name_part.
     eseq (check (name_part \<noteq> []) (StdException ''Invalid ID table item (name)'')) (
     ebind (until (ch CHR '' '')) (\<lambda>source_part.
     eseq (check (source_part \<noteq> []) (StdException ''Invalid ID table item (source)'')) (
     ebind (lift_res (stoul offset_part)) (\<lambda>offset.
     ebind (read_src_entry source_part) (\<lambda>source.
     ebind rt (\<lambda>ty.
     ebind next_byte (\<lambda>(success, tmp).
     eseq (check (success \<and> tmp = newline) (StdException ''Invalid ID table item'')) (
     eret \<lparr> id_offset = offset, id_name = name_part, id_source = source, id_type = ty \<rparr>)))))))))))"

definition read_id_table :: "sbl_type sbl \<Rightarrow> id_item list sbl" where
  "read_id_table rt = ebind read_count (\<lambda>count. repeat_sbl count (read_id_item rt))"

definition create_name_source_size :: "sbl_type sbl \<Rightarrow> byte_t list list \<Rightarrow> name_source_size sbl" where
  "create_name_source_size rt parts = eseq (vm_assert (length parts = 2 \<or> length parts = 3) ''parts.size() == 2 || parts.size() == 3'') (
     ebind (read_src_entry (parts ! 1)) (\<lambda>source.
     if length parts = 3 then (ebind (to_int (parts ! 2)) (\<lambda>n.
       ebind (read_id_table rt) (\<lambda>ids.
       eret (NameSourceSize (parts ! 0) source (Some n) ids None))))
     else eret (NameSourceSize (parts ! 0) source None [] None)))"

definition read_tag :: "sbl_type sbl \<Rightarrow> name_source_size sbl" where
  "read_tag rt = ebind (until newline) (\<lambda>tmp.
     let tag_parts = split_at_any (ascii '' :'') tmp in
     eseq (check (length tag_parts = 2 \<or> length tag_parts = 3) (StdException ''Invalid tag item'')) (
     create_name_source_size rt tag_parts))"

definition read_tags :: "sbl_type sbl \<Rightarrow> name_source_size list sbl" where
  "read_tags rt = ebind (until newline) (\<lambda>tmp.
     ebind (to_int tmp) (\<lambda>count.
     repeat_sbl (nat count) (read_tag rt)))"

definition push_inner :: "sbl_type \<Rightarrow> unit sbl" where
  "push_inner t = modify (\<lambda>s. s\<lparr> sb_types := (sb_types s)\<lparr> tt_inner := tt_inner (sb_types s) @ [t] \<rparr> \<rparr>)"

definition push_string :: "byte_t list \<Rightarrow> unit sbl" where
  "push_string t = modify (\<lambda>s. s\<lparr> sb_types := (sb_types s)\<lparr> tt_strings := tt_strings (sb_types s) @ [t] \<rparr> \<rparr>)"

definition push_source :: "source_ref \<Rightarrow> unit sbl" where
  "push_source t = modify (\<lambda>s. s\<lparr> sb_types := (sb_types s)\<lparr> tt_sources := tt_sources (sb_types s) @ [t] \<rparr> \<rparr>)"

definition push_adt :: "name_source_size \<Rightarrow> unit sbl" where
  "push_adt t = modify (\<lambda>s. s\<lparr> sb_types := (sb_types s)\<lparr> tt_adts := tt_adts (sb_types s) @ [t] \<rparr> \<rparr>)"

definition push_tuple :: "tuple_item \<Rightarrow> unit sbl" where
  "push_tuple t = modify (\<lambda>s. s\<lparr> sb_types := (sb_types s)\<lparr> tt_tuples := tt_tuples (sb_types s) @ [t] \<rparr> \<rparr>)"

definition table_index :: "word_t \<Rightarrow> (type_table \<Rightarrow> 'a list) \<Rightarrow> word_t sbl" where
  "table_index m f = gets (\<lambda>s. m OR of_nat (length (f (sb_types s))))"

definition basic_classes :: "byte_t list" where "basic_classes = ascii ''nNBbifsP''"
definition wrapper_classes :: "byte_t list" where "wrapper_classes = ascii ''ACLR''"

definition read_inner :: "sbl_type sbl \<Rightarrow> word_t sbl" where
  "read_inner rt = ebind (table_index inner_type_table_mask tt_inner) (\<lambda>idx.
     ebind rt (\<lambda>t.
     eseq (push_inner t) (
     eret idx)))"

definition read_adt :: "sbl_type sbl \<Rightarrow> bool \<Rightarrow> word_t sbl" where
  "read_adt rt pick = ebind (until newline) (\<lambda>adt_line.
     let adt_parts = split_at_any (ascii '' '') adt_line in
     eseq (check (length adt_parts = 3) (StdException ''Invalid adt item'')) (
     ebind (create_name_source_size rt adt_parts) (\<lambda>item.
     ebind (if pick then ebind (read_tags rt) (\<lambda>tags. eret (NameSourceSize (nss_name item) (nss_source item) (nss_size item) (nss_ids item) (Some tags)))
       else eret item) (\<lambda>adt_item.
     ebind (table_index adt_table_mask tt_adts) (\<lambda>idx.
     eseq (push_adt adt_item) (
     eret idx))))))"

definition read_tuple :: "sbl_type sbl \<Rightarrow> word_t sbl" where
  "read_tuple rt = ebind (table_index tuple_type_mask tt_tuples) (\<lambda>idx.
     ebind (until (ch CHR ''.'')) (\<lambda>size_str.
     ebind (to_int size_str) (\<lambda>n.
     ebind (read_id_table rt) (\<lambda>ids.
     eseq (push_tuple \<lparr> tp_size = n, tp_ids = ids \<rparr>) (
     eret idx)))))"

definition read_module_type :: "(word_t \<times> word_t) sbl" where
  "read_module_type = ebind (table_index string_table_mask tt_strings) (\<lambda>idx1.
     ebind (until newline) (\<lambda>name.
     eseq (push_string name) (
     ebind (until newline) (\<lambda>src_str.
     ebind (table_index source_table_mask tt_sources) (\<lambda>idx2.
     ebind (read_src_entry src_str) (\<lambda>source.
     eseq (push_source source) (
     eret (idx1, idx2))))))))"

definition read_function_type :: "sbl_type sbl \<Rightarrow> (word_t \<times> word_t) sbl" where
  "read_function_type rt = ebind (table_index string_table_mask tt_strings) (\<lambda>idx1.
     ebind (until (ch CHR '' '')) (\<lambda>name.
     eseq (check (name \<noteq> []) (StdException ''Invalid function type'')) (
     eseq (push_string name) (
     ebind (read_inner rt) (\<lambda>idx2.
     eret (idx1, idx2))))))"

definition read_type_body :: "sbl_type sbl \<Rightarrow> byte_t \<Rightarrow> sbl_type sbl" where
  "read_type_body rt tc = (
     if tc \<in> set basic_classes then eret \<lparr> ty_class = tc, ty_index1 = 0, ty_index2 = 0 \<rparr>
     else if tc \<in> set wrapper_classes then ebind (read_inner rt) (\<lambda>i. eret \<lparr> ty_class = tc, ty_index1 = i, ty_index2 = 0 \<rparr>)
     else if tc = ch CHR ''@'' then (ebind (until newline) (\<lambda>type_index.
     ebind (to_int type_index) (\<lambda>idx.
     eret \<lparr> ty_class = tc, ty_index1 = types_mask OR word_of_int idx, ty_index2 = 0 \<rparr>)))
     else if tc = ch CHR ''a'' \<or> tc = ch CHR ''p'' then
       ebind (read_adt rt (tc = ch CHR ''p'')) (\<lambda>i. eret \<lparr> ty_class = tc, ty_index1 = i, ty_index2 = 0 \<rparr>)
     else if tc = ch CHR ''t'' then ebind (read_tuple rt) (\<lambda>i. eret \<lparr> ty_class = tc, ty_index1 = i, ty_index2 = 0 \<rparr>)
     else if tc = ch CHR ''m'' then ebind read_module_type (\<lambda>(i, j). eret \<lparr> ty_class = tc, ty_index1 = i, ty_index2 = j \<rparr>)
     else if tc = ch CHR ''F'' then ebind (read_function_type rt) (\<lambda>(i, j). eret \<lparr> ty_class = tc, ty_index1 = i, ty_index2 = j \<rparr>)
     else throw (StdException ''Invalid type value''))"

primrec read_type_fuel :: "nat \<Rightarrow> sbl_type sbl" where
  "read_type_fuel 0 = throw OutOfFuel"
| "read_type_fuel (Suc n) = ebind next_byte (\<lambda>(success, tc_byte).
     eseq (check success (StdException ''Invalid type'')) (
     read_type_body (read_type_fuel n) tc_byte))"

definition read_type :: "sbl_type sbl" where
  "read_type = ebind (gets (\<lambda>s. length (remaining (sb_reader s)))) (\<lambda>n. read_type_fuel (Suc n))"

primrec read_types :: "nat \<Rightarrow> nat \<Rightarrow> unit sbl" where
  "read_types i 0 = eret ()"
| "read_types i (Suc n) = ebind read_type (\<lambda>t.
     eseq (modify (\<lambda>s. s\<lparr> sb_types := (sb_types s)\<lparr> tt_types := (tt_types (sb_types s))[i := t] \<rparr> \<rparr>)) (
     read_types (Suc i) n))"

definition default_type :: sbl_type where "default_type = \<lparr> ty_class = 0, ty_index1 = 0, ty_index2 = 0 \<rparr>"

definition read_type_table :: "unit sbl" where
  "read_type_table = ebind read_count (\<lambda>count.
     eseq (modify (\<lambda>s. s\<lparr> sb_types := (sb_types s)\<lparr> tt_types := replicate count default_type \<rparr> \<rparr>)) (
     read_types 0 count))"

section \<open>Functions and data\<close>

definition read_func_item :: "int \<Rightarrow> func_item sbl" where
  "read_func_item last_pc = ebind (until (ch CHR '':'')) (\<lambda>entry_str.
     ebind (to_int entry_str) (\<lambda>entry.
     ebind (until newline) (\<lambda>name.
     ebind (read_id_table read_type) (\<lambda>args.
     ebind (read_id_table read_type) (\<lambda>locals.
     ebind read_type (\<lambda>ret.
     eret \<lparr> fn_entry_pc = entry, fn_limit_pc = last_pc, fn_name = name, fn_args = args, fn_locals = locals, fn_return_type = ret \<rparr>))))))"

definition close_previous :: "func_item list \<Rightarrow> int \<Rightarrow> func_item list" where
  "close_previous fs entry = (if fs = [] then [] else butlast fs @ [(last fs)\<lparr> fn_limit_pc := entry - 1 \<rparr>])"

primrec read_funcs :: "nat \<Rightarrow> int \<Rightarrow> func_item list \<Rightarrow> func_item list sbl" where
  "read_funcs 0 last_pc fs = eret fs"
| "read_funcs (Suc n) last_pc fs = ebind (read_func_item last_pc) (\<lambda>func.
     eseq (vm_assert (fs = [] \<or> fn_entry_pc (last fs) < fn_entry_pc func) ''Function table in sbl file is assumed to be in pc order'') (
     read_funcs n last_pc (close_previous fs (fn_entry_pc func) @ [func])))"

definition read_func_table :: "func_item list sbl" where
  "read_func_table = ebind (until newline) (\<lambda>count_str.
     ebind (gets (\<lambda>s. fc_pc_count (sb_context s))) (\<lambda>pc_count.
     ebind (to_int count_str) (\<lambda>count.
     eseq (check (0 \<le> count) (StdException ''vector too long'')) (
     read_funcs (nat count) (pc_count - 1) []))))"

definition read_data_table :: "id_item list sbl" where
  "read_data_table = read_id_table read_type"

definition empty_types :: type_table where
  "empty_types = \<lparr> tt_types = [], tt_strings = [], tt_inner = [], tt_sources = [], tt_adts = [], tt_tuples = [] \<rparr>"

definition start_state :: "byte_t list \<Rightarrow> sbl_state" where
  "start_state f = \<lparr> sb_reader = new_reader f, sb_types = empty_types, sb_context = \<lparr> fc_pc_count = 0, fc_last_file = 0, fc_last_line = 0 \<rparr> \<rparr>"

definition read_symbols :: "sbl_file sbl" where
  "read_symbols = ebind read_sbl_header (\<lambda>header.
     ebind read_file_table (\<lambda>files.
     ebind read_pc_table (\<lambda>pcs.
     eseq read_type_table (
     ebind read_func_table (\<lambda>funcs.
     ebind read_data_table (\<lambda>dat.
     ebind (gets sb_types) (\<lambda>types.
     eret \<lparr> sf_header = header, sf_files = files, sf_pcs = pcs, sf_types = types, sf_funcs = funcs, sf_data = dat \<rparr>)))))))"

definition symbol_read :: "byte_t list \<Rightarrow> sbl_file res" where
  "symbol_read f = fst (read_symbols (start_state f))"

end
