(* ===== verification/SymbolData.thy ===== *)
theory SymbolData
  imports SymbolReader Opcodes Decode ExecString
begin

text \<open>
  What a debugger asks of a symbol file (\<^verbatim>\<open>src/src/asm/sbl_reader.cpp\<close>): names of types and functions and
  an iterator over program counters; and the text of an instruction
  (\<^verbatim>\<open>src/src/asm/print_to_stream.cpp\<close>). A type that refers to itself through the table of types has no
  name: formatting it recurses for ever, and has no fuel that is enough.
\<close>

section \<open>Names of types\<close>

definition join_with :: "byte_t list \<Rightarrow> byte_t list list \<Rightarrow> byte_t list" where
  "join_with sep xs = (case xs of [] \<Rightarrow> [] | y # ys \<Rightarrow> y @ concat (map (\<lambda>z. sep @ z) ys))"

primrec map_res :: "('a \<Rightarrow> 'b res) \<Rightarrow> 'a list \<Rightarrow> 'b list res" where
  "map_res f [] = Inr []"
| "map_res f (x # xs) = rbind (f x) (\<lambda>y. rbind (map_res f xs) (\<lambda>ys. Inr (y # ys)))"

definition wrapper_text :: "byte_t \<Rightarrow> byte_t list" where
  "wrapper_text tc = (if tc = ch CHR ''A'' then ascii ''array of '' else if tc = ch CHR ''C'' then ascii ''chan of ''
     else if tc = ch CHR ''L'' then ascii ''list of '' else ascii ''ref '')"

definition basic_text :: "byte_t \<Rightarrow> byte_t list" where
  "basic_text tc = (if tc = ch CHR ''n'' then ascii ''<none>'' else if tc = ch CHR ''N'' then ascii ''nil'' else if tc = ch CHR ''B'' then ascii ''big''
     else if tc = ch CHR ''b'' then ascii ''byte'' else if tc = ch CHR ''i'' then ascii ''int'' else if tc = ch CHR ''f'' then ascii ''real''
     else if tc = ch CHR ''s'' then ascii ''string'' else ascii ''*'')"

primrec type_string :: "nat \<Rightarrow> sbl_type \<Rightarrow> type_table \<Rightarrow> byte_t list res" where
  "type_string 0 t tt = Inl OutOfFuel"
| "type_string (Suc n) t tt = (let tc = ty_class t in
     if tc \<in> set basic_classes then Inr (basic_text tc)
     else if tc \<in> set wrapper_classes then
       rbind (resolve_type tt (ty_index1 t)) (\<lambda>e. rbind (type_string n e tt) (\<lambda>s. Inr (wrapper_text tc @ s)))
     else if tc = ch CHR ''@'' then rbind (resolve_type tt (ty_index1 t)) (\<lambda>e. type_string n e tt)
     else if tc = ch CHR ''a'' \<or> tc = ch CHR ''p'' then rbind (resolve_adt tt (ty_index1 t)) (\<lambda>a. Inr (nss_name a))
     else if tc = ch CHR ''t'' then rbind (resolve_tuple tt (ty_index1 t)) (\<lambda>tp.
       rbind (map_res (\<lambda>i. type_string n (id_type i) tt) (tp_ids tp)) (\<lambda>ss. Inr ([ch CHR ''(''] @ join_with [ch CHR '',''] ss @ [ch CHR '')''])))
     else if tc = ch CHR ''m'' then resolve_string tt (ty_index1 t)
     else if tc = ch CHR ''F'' then rbind (resolve_string tt (ty_index1 t)) (\<lambda>name. rbind (resolve_type tt (ty_index2 t)) (\<lambda>e.
       rbind (type_string n e tt) (\<lambda>s. Inr (name @ [ch CHR '' ''] @ s))))
     else Inl (StdException ''Invalid type value''))"

definition fmt_name :: word_t where "fmt_name = 1"
definition fmt_return_type :: word_t where "fmt_return_type = 2"
definition fmt_arguments :: word_t where "fmt_arguments = 4"

definition func_string :: "nat \<Rightarrow> func_item \<Rightarrow> type_table \<Rightarrow> word_t \<Rightarrow> byte_t list res" where
  "func_string n f tt fmt = (
     let inc_name = has_flag fmt fmt_name; inc_arguments = has_flag fmt fmt_arguments;
         s1 = (if inc_name then fn_name f else []) in
     rbind (if inc_arguments then rbind (map_res (\<lambda>a. type_string n (id_type a) tt) (fn_args f)) (\<lambda>ss.
         Inr ([ch CHR ''(''] @ join_with [ch CHR '',''] ss @ [ch CHR '')''])) else Inr []) (\<lambda>s2.
     rbind (if has_flag fmt fmt_return_type \<and> ty_class (fn_return_type f) \<noteq> ch CHR ''n''
       then rbind (type_string n (fn_return_type f) tt) (\<lambda>s. Inr ((if inc_name \<or> inc_arguments then [ch CHR '':''] else []) @ s)) else Inr []) (\<lambda>s3.
     Inr (s1 @ s2 @ s3))))"

section \<open>The iterator over program counters\<close>

datatype advance_pc = CurrentPc | NextPc | NextDebugStatement

definition set_current_pc :: "sbl_file \<Rightarrow> int \<Rightarrow> int res" where
  "set_current_pc f pc = require (0 \<le> pc \<and> pc < int (length (sf_pcs f))) (AssertFailed ''0 <= pc'') (Inr pc)"

definition next_statement :: "sbl_file \<Rightarrow> nat \<Rightarrow> nat" where
  "next_statement f pc = pc + length (takeWhile (\<lambda>e. pi_debug_statement e = pi_debug_statement (sf_pcs f ! pc)) (drop pc (sf_pcs f)))"

definition try_advance_pc :: "sbl_file \<Rightarrow> advance_pc \<Rightarrow> bool \<Rightarrow> int \<Rightarrow> (bool \<times> int) res" where
  "try_advance_pc f adv wants_pc current_pc = (case adv of
     NextDebugStatement \<Rightarrow> require (0 \<le> current_pc \<and> current_pc < int (length (sf_pcs f))) (Undefined ''iterator past the end'')
       (let p = next_statement f (nat current_pc) in if p = length (sf_pcs f) then Inr (False, current_pc) else Inr (True, int p))
   | NextPc \<Rightarrow> if int (length (sf_pcs f)) \<le> current_pc + 1 then Inr (False, current_pc) else Inr (True, current_pc + 1)
   | CurrentPc \<Rightarrow> require wants_pc (AssertFailed ''pc_after_advance != nullptr'') (Inr (True, current_pc)))"

definition function_at :: "func_item list \<Rightarrow> int \<Rightarrow> func_item option" where
  "function_at fs pc = find (\<lambda>e. fn_entry_pc e \<le> pc \<and> pc \<le> fn_limit_pc e) fs"

definition current_function_name :: "nat \<Rightarrow> sbl_file \<Rightarrow> int \<Rightarrow> word_t \<Rightarrow> byte_t list res" where
  "current_function_name n f current_pc fmt = (case function_at (sf_funcs f) current_pc of
     None \<Rightarrow> Inl (StdException ''Unknown function'')
   | Some e \<Rightarrow> (case func_string n e (sf_types f) fmt of
       Inl (StdException m) \<Rightarrow> Inl (AssertFailed ''The SBL file appears to be corrupt or inconsistent'') | r \<Rightarrow> r))"

definition current_source_location :: "sbl_file \<Rightarrow> int \<Rightarrow> source_ref res" where
  "current_source_location f current_pc = require (0 \<le> current_pc \<and> current_pc < int (length (sf_pcs f))) (AssertFailed ''0 <= _current_pc'')
     (Inr (pi_source (sf_pcs f ! nat current_pc)))"

definition get_source_by_id :: "sbl_file \<Rightarrow> int \<Rightarrow> byte_t list res" where
  "get_source_by_id f source_id = require (0 \<le> source_id \<and> source_id < int (length (sf_files f))) (AssertFailed ''0 <= source_id'')
     (Inr (sf_files f ! nat source_id))"

record function_data =
  fd_entry_pc :: int
  fd_limit_pc :: int
  fd_name :: "byte_t list"

definition get_functions :: "nat \<Rightarrow> sbl_file \<Rightarrow> word_t \<Rightarrow> function_data list res" where
  "get_functions n f fmt = map_res (\<lambda>func. rbind (func_string n func (sf_types f) fmt) (\<lambda>name.
     Inr \<lparr> fd_entry_pc = fn_entry_pc func, fd_limit_pc = fn_limit_pc func, fd_name = name \<rparr>)) (sf_funcs f)"

definition get_instruction_count :: "sbl_file \<Rightarrow> nat" where "get_instruction_count f = length (sf_pcs f)"

section \<open>The text of an instruction\<close>

definition word_text :: "word_t \<Rightarrow> byte_t list" where "word_text w = c_decimal (sint w)"

definition operand_text :: "operand \<Rightarrow> byte_t list" where
  "operand_text m = (case op_mode m of
     IndirectMp \<Rightarrow> word_text (op_register1 m) @ ascii ''(mp)''
   | IndirectFp \<Rightarrow> word_text (op_register1 m) @ ascii ''(fp)''
   | Immediate \<Rightarrow> ascii ''$'' @ word_text (op_register1 m)
   | NoOperand \<Rightarrow> ascii ''_''
   | DoubleMp \<Rightarrow> word_text (op_register2 m) @ ascii ''('' @ word_text (op_register1 m) @ ascii ''(mp))''
   | DoubleFp \<Rightarrow> word_text (op_register2 m) @ ascii ''('' @ word_text (op_register1 m) @ ascii ''(fp))''
   | _ \<Rightarrow> ascii ''??'')"

definition middle_text :: "middle_data \<Rightarrow> byte_t list" where
  "middle_text m = (case mid_mode m of
     MidNone \<Rightarrow> ascii ''_''
   | MidSmallImmediate \<Rightarrow> ascii ''$'' @ word_text (mid_register1 m)
   | MidSmallFp \<Rightarrow> word_text (mid_register1 m) @ ascii ''(fp)''
   | MidSmallMp \<Rightarrow> word_text (mid_register1 m) @ ascii ''(mp)'')"

definition exec_op_text :: "exec_op \<Rightarrow> byte_t list res" where
  "exec_op_text m = (
     let print_d = op_mode (in_destination m) \<noteq> NoOperand;
         print_m = print_d \<or> mid_mode (in_middle m) \<noteq> MidNone;
         print_s = print_m \<or> op_mode (in_source m) \<noteq> NoOperand in
     rbind (opcode_to_token (in_opcode m)) (\<lambda>token. Inr (ascii token
       @ (if print_s then ascii '' '' @ operand_text (in_source m) else [])
       @ (if print_m then ascii '' '' @ middle_text (in_middle m) else [])
       @ (if print_d then ascii '' '' @ operand_text (in_destination m) else []))))"

end
