(* ===== verification/SymbolSpec.thy ===== *)
theory SymbolSpec
  imports SymbolData
begin

text \<open>
  A type of a symbol file whose elements are of a nested type is named after the innermost one; the
  functions that were read divide the program counters; stepping finds the next statement; and
  reading a symbol file ends.
\<close>

section \<open>Nested types\<close>

definition wrappers :: "byte_t list \<Rightarrow> bool" where "wrappers ws \<longleftrightarrow> set ws \<subseteq> set wrapper_classes"

definition basic_type :: "byte_t \<Rightarrow> sbl_type" where "basic_type b = \<lparr> ty_class = b, ty_index1 = 0, ty_index2 = 0 \<rparr>"

definition wrapped :: "byte_t \<Rightarrow> nat \<Rightarrow> sbl_type" where
  "wrapped w k = \<lparr> ty_class = w, ty_index1 = inner_type_table_mask OR of_nat k, ty_index2 = 0 \<rparr>"

definition left :: "sbl_state \<Rightarrow> byte_t list" where "left s = remaining (sb_reader s)"

lemma next_byte_run:
  assumes "left s = b # bs"
  obtains s' where "next_byte s = (Inr (True, b), s')" "left s' = bs" "sb_types s' = sb_types s" "sb_context s' = sb_context s"
proof -
  obtain r where "get_next_byte (sb_reader s) = (Inr (True, b), r)" "remaining r = bs"
    using get_next_byte_spec [of "sb_reader s"] assms by (auto simp: left_def)
  then show ?thesis by (intro that [of "s\<lparr> sb_reader := r \<rparr>"]) (simp_all add: next_byte_def sbl_reader_def left_def)
qed

lemma push_inner_run: "push_inner t s = (Inr (), s\<lparr> sb_types := (sb_types s)\<lparr> tt_inner := tt_inner (sb_types s) @ [t] \<rparr> \<rparr>)"
  by (simp add: push_inner_def)

lemma wrapper_class: "w \<in> set wrapper_classes \<Longrightarrow> w \<notin> set basic_classes"
  by (auto simp: wrapper_classes_def basic_classes_def ascii_def)

definition type_read :: "byte_t list \<Rightarrow> byte_t \<Rightarrow> nat \<Rightarrow> sbl_type" where
  "type_read ws b k = (if ws = [] then basic_type b else wrapped (hd ws) k)"

primrec inner_read :: "byte_t list \<Rightarrow> byte_t \<Rightarrow> nat \<Rightarrow> sbl_type list" where
  "inner_read [] b k = []"
| "inner_read (w # ws) b k = inner_read ws b k @ [type_read ws b k]"

lemma inner_read_hd: "ws \<noteq> [] \<Longrightarrow> inner_read ws b k \<noteq> [] \<and> hd (inner_read ws b k) = basic_type b"
  by (induction ws) (auto simp: type_read_def hd_append)

lemma read_wrapped:
  assumes "wrappers ws" "b \<in> set basic_classes" "left s = ws @ b # rest" "length ws \<le> n"
  shows "\<exists>s'. read_type_fuel (Suc n) s = (Inr (type_read ws b (length (tt_inner (sb_types s)))), s') \<and> left s' = rest \<and>
    sb_types s' = (sb_types s)\<lparr> tt_inner := tt_inner (sb_types s) @ inner_read ws b (length (tt_inner (sb_types s))) \<rparr> \<and>
    sb_context s' = sb_context s"
  using assms
proof (induction ws arbitrary: s n)
  case Nil
  obtain s' where "next_byte s = (Inr (True, b), s')" "left s' = rest" "sb_types s' = sb_types s" "sb_context s' = sb_context s"
    using next_byte_run Nil.prems(3) by (metis append_Nil)
  with Nil.prems(2) show ?case
    by (simp add: ebind_run eseq_def read_type_body_def basic_type_def type_read_def)
next
  case (Cons w ws)
  let ?k = "length (tt_inner (sb_types s))"
  obtain m where n: "n = Suc m" "length ws \<le> m" using Cons.prems(4) by (cases n) auto
  obtain s1 where s1: "next_byte s = (Inr (True, w), s1)" "left s1 = ws @ b # rest" "sb_types s1 = sb_types s" "sb_context s1 = sb_context s"
    using next_byte_run Cons.prems(3) by (metis append_Cons)
  have ws: "wrappers ws" "w \<in> set wrapper_classes" using Cons.prems(1) by (simp_all add: wrappers_def)
  obtain s2 where s2: "read_type_fuel (Suc m) s1 = (Inr (type_read ws b ?k), s2)" "left s2 = rest"
    "sb_types s2 = (sb_types s)\<lparr> tt_inner := tt_inner (sb_types s) @ inner_read ws b ?k \<rparr>" "sb_context s2 = sb_context s"
    using Cons.IH [OF ws(1) Cons.prems(2) s1(2) n(2)] s1(3,4) by auto
  define s3 where "s3 = s2\<lparr> sb_types := (sb_types s2)\<lparr> tt_inner := tt_inner (sb_types s2) @ [type_read ws b ?k] \<rparr> \<rparr>"
  have inner: "read_inner (read_type_fuel (Suc m)) s1 = (Inr (inner_type_table_mask OR of_nat ?k), s3)"
    unfolding read_inner_def table_index_def using s1(3) s2(1) push_inner_run [of "type_read ws b ?k" s2]
    by (simp add: ebind_run eseq_def s3_def del: read_type_fuel.simps)
  have "read_type_body (read_type_fuel (Suc m)) w s1 = (Inr (wrapped w ?k), s3)"
    using ws(2) wrapper_class [OF ws(2)] inner by (simp add: read_type_body_def ebind_run wrapped_def del: read_type_fuel.simps)
  then have "read_type_fuel (Suc n) s = (Inr (wrapped w ?k), s3)"
    unfolding n(1) read_type_fuel.simps(2) [of "Suc m"] using s1(1) by (simp add: ebind_run eseq_def del: read_type_fuel.simps)
  moreover have "left s3 = rest" using s2(2) by (simp add: s3_def left_def)
  ultimately show ?case using s2(3,4) by (simp add: s3_def type_read_def)
qed

lemma inner_index:
  assumes "k < 2 ^ 30"
  shows "has_flag (inner_type_table_mask OR of_nat k) inner_type_table_mask"
    "unat ((inner_type_table_mask OR of_nat k) AND NOT inner_type_table_mask) = k"
proof -
  have m: "bit inner_type_table_mask i \<longleftrightarrow> i = 30" for i
  proof -
    have "inner_type_table_mask = push_bit 30 1" by (simp add: inner_type_table_mask_def)
    then show ?thesis unfolding \<open>inner_type_table_mask = push_bit 30 1\<close> bit_push_bit_iff bit_1_iff by auto
  qed
  have k: "take_bit 30 k = k" using assms by (simp add: take_bit_nat_eq_self)
  have b: "\<not> bit k 30" using k by (metis bit_take_bit_iff less_irrefl)
  have "((inner_type_table_mask OR of_nat k) AND NOT inner_type_table_mask) = (of_nat k :: word_t)"
    by (rule bit_word_eqI) (use b in \<open>auto simp: m bit_simps\<close>)
  then show "unat ((inner_type_table_mask OR of_nat k) AND NOT inner_type_table_mask) = k"
    using assms by (simp add: unsigned_of_nat take_bit_nat_eq_self)
  have "bit ((inner_type_table_mask OR of_nat k) AND inner_type_table_mask :: word_t) 30" by (simp add: m bit_simps)
  then show "has_flag (inner_type_table_mask OR of_nat k) inner_type_table_mask" unfolding has_flag_def by (metis bit_0_eq bot_apply bot_bool_def)
qed

text \<open>C34: a type nested in any number of arrays, channels, lists and references, such as an array of
  arrays of integers, reads without an error but is named after its outermost and innermost
  type alone: its index is taken before the types inside it are put into the table, and refers
  to the innermost one.\<close>

theorem nested_type_flattened:
  assumes "wrappers ws" "ws \<noteq> []" "b \<in> set basic_classes" "left s = ws @ b # rest" "length (tt_inner (sb_types s)) < 2 ^ 30"
  shows "\<exists>t s'. read_type s = (Inr t, s') \<and> left s' = rest \<and>
    type_string (Suc (Suc n)) t (sb_types s') = Inr (wrapper_text (hd ws) @ basic_text b)"
proof -
  let ?k = "length (tt_inner (sb_types s))"
  obtain s' where s': "read_type_fuel (Suc (length (left s))) s = (Inr (wrapped (hd ws) ?k), s')" "left s' = rest"
    "sb_types s' = (sb_types s)\<lparr> tt_inner := tt_inner (sb_types s) @ inner_read ws b ?k \<rparr>"
    using read_wrapped [OF assms(1,3,4), of "length (left s)"] assms(2,4) by (auto simp: type_read_def)
  have h: "hd ws \<in> set wrapper_classes" using assms(1,2) by (auto simp: wrappers_def dest: hd_in_set)
  have "inner_read ws b ?k \<noteq> []" "hd (inner_read ws b ?k) = basic_type b" using inner_read_hd [OF assms(2)] by simp_all
  then have "tt_inner (sb_types s') ! ?k = basic_type b" "?k < length (tt_inner (sb_types s'))"
    using s'(3) by (simp_all add: nth_append hd_conv_nth)
  then have "resolve_type (sb_types s') (ty_index1 (wrapped (hd ws) ?k)) = Inr (basic_type b)"
    using inner_index [OF assms(5)] by (simp add: resolve_type_def masked_index_def wrapped_def Let_def)
  then have "type_string (Suc (Suc n)) (wrapped (hd ws) ?k) (sb_types s') = Inr (wrapper_text (hd ws) @ basic_text b)"
    using h wrapper_class [OF h] assms(3) by (simp add: wrapped_def basic_type_def Let_def)
  moreover have "read_type s = (Inr (wrapped (hd ws) ?k), s')"
    using s'(1) by (simp add: read_type_def left_def del: read_type_fuel.simps)
  ultimately show ?thesis using s'(2) by blast
qed

theorem nested_type_flattened_witness:
  "\<exists>t s'. read_type (start_state (ascii ''AALi'')) = (Inr t, s') \<and> left s' = [] \<and>
    type_string 2 t (sb_types s') = Inr (ascii ''array of int'')"
proof -
  have "left (start_state (ascii ''AALi'')) = ascii ''AAL'' @ ch CHR ''i'' # []" by (simp add: left_def start_state_def ascii_def ch_def)
  from nested_type_flattened [OF _ _ _ this, of 0]
  have "\<exists>t s'. read_type (start_state (ascii ''AALi'')) = (Inr t, s') \<and> left s' = [] \<and>
    type_string 2 t (sb_types s') = Inr (wrapper_text (hd (ascii ''AAL'')) @ basic_text (ch CHR ''i''))"
    by (simp add: wrappers_def wrapper_classes_def basic_classes_def ascii_def ch_def start_state_def empty_types_def numeral_2_eq_2 del: type_string.simps)
  then show ?thesis by (simp add: wrapper_text_def basic_text_def ascii_def ch_def del: type_string.simps)
qed

section \<open>Positions without a file\<close>

lemma src_position_unset:
  "58 \<notin> set pos \<Longrightarrow> src_position first pos (src, fc) = Inr (src', fc') \<Longrightarrow> src_end_source_id src' = src_end_source_id src"
proof (induction first pos "(src, fc)" arbitrary: src fc rule: src_position.induct)
  case (1 first pos src fc)
  show ?case
  proof (cases "pos = []")
    case False
    then obtain v consumed where v: "stoi pos = Inr (v, consumed)"
      using "1.prems"(2) by (cases "stoi pos") (auto simp: src_position.simps [of first pos src fc])
    show ?thesis
    proof (cases "drop consumed pos")
      case Nil
      with False v "1.prems"(2) show ?thesis by (auto simp: src_position.simps [of first pos src fc] set_column_def)
    next
      case (Cons c rest)
      have "set (drop consumed pos) \<subseteq> set pos" by (rule set_drop_subset)
      then have c: "c \<noteq> ch CHR '':''" "58 \<notin> set rest" using Cons "1.prems"(1) by (auto simp: ch_def)
      show ?thesis
      proof (cases "c = ch CHR ''.''")
        case True
        have "src_position first rest (set_line first v src, fc\<lparr> fc_last_line := v \<rparr>) = Inr (src', fc')"
          using False v Cons True "1.prems"(2) by (simp add: src_position.simps [of first pos src fc])
        from "1.hyps"(1) [OF False v refl Cons True c(2) this] show ?thesis by (simp add: set_line_def)
      next
        case dot: False
        have "src_position first rest (src, fc) = Inr (src', fc')"
          using False v Cons dot c(1) "1.prems"(2) by (simp add: src_position.simps [of first pos src fc])
        from "1.hyps"(3) [OF False v refl Cons dot c(1) c(2) this] show ?thesis .
      qed
    qed
  qed (use "1.prems" in \<open>simp add: src_position.simps [of first pos src fc]\<close>)
qed

lemma split_loop_subset: "p \<in> set (split_loop delims cur bs) \<Longrightarrow> set p \<subseteq> set cur \<union> set bs"
  by (induction delims cur bs rule: split_loop.induct) (auto split: if_splits)

text \<open>A position of a source that does not name a file leaves the file of its end unset.\<close>

lemma end_source_unset:
  assumes "58 \<notin> set bs" "src_entry bs fc = Inr (src, fc')"
  shows "src_end_source_id src = None"
proof -
  obtain p1 p2 where p: "split_at_any (ascii '','') bs = [p1, p2]"
    using assms(2) by (auto simp: src_entry_def split: list.splits)
  have sub: "58 \<notin> set p" if "p \<in> set (split_at_any (ascii '','') bs)" for p
    using split_loop_subset that assms(1) set_takeWhileD by (fastforce simp: split_at_any_def c_string_def)
  let ?s = "\<lparr> src_begin_source_id = fc_last_file fc, src_begin_line = fc_last_line fc, src_begin_column = None,
        src_end_source_id = None, src_end_line = fc_last_line fc, src_end_column = None \<rparr>"
  obtain s1 fc1 where 1: "src_position True p1 (?s, fc) = Inr (s1, fc1)" "src_position False p2 (s1, fc1) = Inr (src, fc')"
    using assms(2) p by (cases "src_position True p1 (?s, fc)") (auto simp: src_entry_def simp del: src_position.simps)
  show ?thesis using src_position_unset [OF sub 1(1)] src_position_unset [OF sub 1(2)] p by simp
qed

section \<open>Functions\<close>

fun pc_partition :: "int \<Rightarrow> func_item list \<Rightarrow> bool" where
  "pc_partition last_pc [] = True"
| "pc_partition last_pc [f] = (fn_limit_pc f = last_pc)"
| "pc_partition last_pc (f # g # fs) = (fn_entry_pc f < fn_entry_pc g \<and> fn_limit_pc f = fn_entry_pc g - 1 \<and> pc_partition last_pc (g # fs))"

lemma close_partition:
  assumes "pc_partition last_pc fs" "fs = [] \<or> fn_entry_pc (last fs) < fn_entry_pc g" "fn_limit_pc g = last_pc"
  shows "pc_partition last_pc (close_previous fs (fn_entry_pc g) @ [g])"
  using assms
proof (induction last_pc fs rule: pc_partition.induct)
  case (3 last_pc f h fs)
  then show ?case by (cases fs) (auto simp: close_previous_def)
qed (simp_all add: close_previous_def)

lemma func_item_limit: "read_func_item last_pc s = (Inr f, s') \<Longrightarrow> fn_limit_pc f = last_pc"
  by (auto simp: read_func_item_def ebind_run split: prod.splits sum.splits)

lemma read_funcs_partition:
  "read_funcs n last_pc fs s = (Inr gs, s') \<Longrightarrow> pc_partition last_pc fs \<Longrightarrow> pc_partition last_pc gs"
proof (induction n arbitrary: fs s)
  case (Suc n)
  obtain f s1 where f: "read_func_item last_pc s = (Inr f, s1)"
    using Suc.prems(1) by (cases "read_func_item last_pc s"; cases "fst (read_func_item last_pc s)") (auto simp: ebind_run)
  then have o: "fs = [] \<or> fn_entry_pc (last fs) < fn_entry_pc f"
    using Suc.prems(1) by (cases "fs = [] \<or> fn_entry_pc (last fs) < fn_entry_pc f") (simp_all add: ebind_run eseq_def)
  with Suc.prems(1) f have "read_funcs n last_pc (close_previous fs (fn_entry_pc f) @ [f]) s1 = (Inr gs, s')" by (simp add: ebind_run eseq_def)
  from Suc.IH [OF this] close_partition [OF Suc.prems(2) o func_item_limit [OF f]] show ?case by blast
qed simp

lemma partition_sorted: "pc_partition last_pc (f # fs) \<Longrightarrow> \<forall>h \<in> set fs. fn_entry_pc f < fn_entry_pc h"
  by (induction fs arbitrary: f) force+

lemma function_at_partition:
  assumes "pc_partition last_pc fs" "pc \<le> last_pc"
  shows "function_at fs pc = (let before = filter (\<lambda>f. fn_entry_pc f \<le> pc) fs in if before = [] then None else Some (last before))"
  using assms
proof (induction last_pc fs rule: pc_partition.induct)
  case (3 last_pc f g fs)
  have p: "fn_limit_pc f = fn_entry_pc g - 1" "fn_entry_pc f < fn_entry_pc g" "pc_partition last_pc (g # fs)" using "3.prems"(1) by simp_all
  note IH = "3.IH" [OF p(3) "3.prems"(2)]
  show ?case
  proof (cases "fn_entry_pc g \<le> pc")
    case True
    with p IH show ?thesis by (simp add: function_at_def Let_def)
  next
    case False
    then have "filter (\<lambda>f. fn_entry_pc f \<le> pc) (g # fs) = []" using partition_sorted [OF p(3)] by (auto simp: filter_empty_conv)
    with False p IH show ?thesis by (auto simp: function_at_def Let_def)
  qed
qed (simp_all add: function_at_def)

text \<open>C33: the functions read from a symbol file divide the program counters up to the last: the function
  a program counter belongs to is the last one that begins at it or before.\<close>

theorem functions_divide_pcs:
  assumes "read_func_table s = (Inr fs, s')" "pc \<le> fc_pc_count (sb_context s) - 1"
  shows "function_at fs pc = (let before = filter (\<lambda>f. fn_entry_pc f \<le> pc) fs in if before = [] then None else Some (last before))"
proof -
  obtain count_str s1 where u: "until newline s = (Inr count_str, s1)"
    using assms(1) by (cases "until newline s"; cases "fst (until newline s)") (auto simp: read_func_table_def ebind_run)
  have c: "sb_context s1 = sb_context s" using u by (auto simp: until_def sbl_reader_def split: prod.splits)
  obtain n where "read_funcs n (fc_pc_count (sb_context s) - 1) [] s1 = (Inr fs, s')"
    using assms(1) u c by (auto simp: read_func_table_def ebind_run eseq_def check_def to_int_def split: prod.splits sum.splits if_splits)
  from read_funcs_partition [OF this] function_at_partition assms(2) show ?thesis by simp
qed

section \<open>Stepping\<close>

text \<open>stepping to the next statement goes to the nearest later program counter of another
  statement, and fails, staying where it is, exactly when there is none.\<close>

theorem next_statement_found:
  assumes "0 \<le> pc" "pc < int (length (sf_pcs f))"
  shows "\<exists>moved pc'. try_advance_pc f NextDebugStatement wants pc = Inr (moved, pc') \<and>
    (let stmt = (\<lambda>i. pi_debug_statement (sf_pcs f ! i)) in
     if moved then pc < pc' \<and> pc' < int (length (sf_pcs f)) \<and> stmt (nat pc') \<noteq> stmt (nat pc) \<and> (\<forall>i \<in> {nat pc..<nat pc'}. stmt i = stmt (nat pc))
     else pc' = pc \<and> (\<forall>i \<in> {nat pc..<length (sf_pcs f)}. stmt i = stmt (nat pc)))"
proof -
  let ?k = "nat pc" and ?xs = "sf_pcs f"
  let ?P = "\<lambda>e. pi_debug_statement e = pi_debug_statement (?xs ! ?k)"
  let ?l = "length (takeWhile ?P (drop ?k ?xs))"
  have k: "?k < length ?xs" using assms by simp
  then have d: "drop ?k ?xs = ?xs ! ?k # drop (Suc ?k) ?xs" by (simp add: Cons_nth_drop_Suc)
  have l: "0 < ?l" unfolding d by simp
  have le: "?l \<le> length (drop ?k ?xs)" by (rule length_takeWhile_le)
  have same: "pi_debug_statement (?xs ! i) = pi_debug_statement (?xs ! ?k)" if "?k \<le> i" "i < ?k + ?l" for i
  proof -
    have i: "i - ?k < ?l" using that by linarith
    have "takeWhile ?P (drop ?k ?xs) ! (i - ?k) \<in> set (takeWhile ?P (drop ?k ?xs))" using i by (rule nth_mem)
    then have "?P (takeWhile ?P (drop ?k ?xs) ! (i - ?k))" by (blast dest: set_takeWhileD)
    then have "?P (drop ?k ?xs ! (i - ?k))" unfolding takeWhile_nth [OF i] .
    moreover have "drop ?k ?xs ! (i - ?k) = ?xs ! i" using that k by simp
    ultimately show ?thesis by simp
  qed
  have all: "\<forall>i \<in> {?k..<?k + ?l}. pi_debug_statement (?xs ! i) = pi_debug_statement (?xs ! ?k)"
  proof
    fix i assume "i \<in> {?k..<?k + ?l}"
    then have "?k \<le> i" "i < ?k + ?l" unfolding atLeastLessThan_iff by blast+
    then show "pi_debug_statement (?xs ! i) = pi_debug_statement (?xs ! ?k)" by (rule same)
  qed
  have adv: "try_advance_pc f NextDebugStatement wants pc =
      (if ?k + ?l = length ?xs then Inr (False, pc) else Inr (True, int (?k + ?l)))"
    unfolding try_advance_pc_def next_statement_def Let_def using assms by (simp only: advance_pc.case require_simps if_True simp_thms of_nat_add)
  show ?thesis
  proof (cases "?k + ?l = length ?xs")
    case True
    have "try_advance_pc f NextDebugStatement wants pc = Inr (False, pc)" unfolding adv using True by (rule if_P)
    then show ?thesis using all
      by (intro exI [of _ False] exI [of _ pc]) (unfold Let_def if_False True, intro conjI refl)
  next
    case False
    have lt: "?k + ?l < length ?xs" using le False k unfolding length_drop by linarith
    then have "?l < length (drop ?k ?xs)" by simp
    then have "\<not> ?P (drop ?k ?xs ! ?l)" by (rule nth_length_takeWhile)
    then have "pi_debug_statement (?xs ! (?k + ?l)) \<noteq> pi_debug_statement (?xs ! ?k)" using k by simp
    moreover have "pc < int (?k + ?l)" "int (?k + ?l) < int (length ?xs)" using l lt assms(1) by linarith+
    moreover have "try_advance_pc f NextDebugStatement wants pc = Inr (True, int (?k + ?l))" unfolding adv using False by (rule if_not_P)
    ultimately show ?thesis using all
      by (intro exI [of _ True] exI [of _ "int (?k + ?l)"]) (unfold Let_def if_True nat_int, intro conjI)
  qed
qed

text \<open>Two functions at the program counters 0 and 3 and five program counters of two statements.\<close>

definition two_functions :: sbl_state where
  "two_functions = (start_state (ascii ''2'' @ [10] @ ascii ''0:f'' @ [10, 48, 10, 48, 10] @ ascii ''n3:g'' @ [10, 48, 10, 48, 10] @ ascii ''n''))
     \<lparr> sb_context := \<lparr> fc_pc_count = 5, fc_last_file = 0, fc_last_line = 0 \<rparr> \<rparr>"

definition five_pcs :: sbl_file where
  "five_pcs = \<lparr> sf_header = \<lparr> sh_version = Sbl_2_1, sh_module_name = [] \<rparr>, sf_files = [],
     sf_pcs = map (\<lambda>i. \<lparr> pi_source = \<lparr> src_begin_source_id = 0, src_begin_line = 0, src_begin_column = None, src_end_source_id = None,
       src_end_line = 0, src_end_column = None \<rparr>, pi_debug_statement = i \<rparr>) [7, 7, 7, 8, 8],
     sf_types = empty_types, sf_funcs = [], sf_data = [] \<rparr>"

lemma until_run:
  assumes "left s = xs @ b # ys" "b \<notin> set xs"
  obtains s' where "until b s = (Inr xs, s')" "left s' = ys" "sb_context s' = sb_context s" "sb_types s' = sb_types s"
proof -
  have p: "b \<in> set (remaining (sb_reader s))" "takeWhile (\<lambda>c. c \<noteq> b) (remaining (sb_reader s)) = xs"
    "tl (dropWhile (\<lambda>c. c \<noteq> b) (remaining (sb_reader s))) = ys"
    using assms by (auto simp: left_def takeWhile_append dropWhile_append)
  then obtain r where "get_bytes_until b (sb_reader s) = (Inr (True, xs), r)" "remaining r = ys"
    using get_bytes_until_spec [of b "sb_reader s"] by auto
  then show ?thesis
    by (intro that [of "s\<lparr> sb_reader := r \<rparr>"]) (simp_all add: until_def sbl_reader_def get_as_string_until_def ebind_run left_def)
qed

lemma func_item_run:
  assumes "left s = entry @ ch CHR '':'' # name @ newline # [48, newline, 48, newline, ch CHR ''n''] @ rest"
    "ch CHR '':'' \<notin> set entry" "newline \<notin> set name" "stoi entry = Inr (v, k)"
  obtains f s' where "read_func_item last_pc s = (Inr f, s')" "fn_entry_pc f = v" "left s' = rest" "sb_context s' = sb_context s"
proof -
  obtain s1 where s1: "until (ch CHR '':'') s = (Inr entry, s1)" "left s1 = name @ newline # [48, newline, 48, newline, ch CHR ''n''] @ rest"
    "sb_context s1 = sb_context s" using until_run [OF assms(1,2)] by blast
  obtain s2 where s2: "until newline s1 = (Inr name, s2)" "left s2 = [48] @ newline # [48, newline, ch CHR ''n''] @ rest"
    "sb_context s2 = sb_context s" using until_run [OF s1(2) assms(3)] s1(3) by auto
  have z: "newline \<notin> set [48]" "stoi [48] = Inr (0, 1)"
    by (simp_all add: newline_def stoi_def scan_int_def c_isspace_def c_isdigit_def decimal_value_def in_word_def Let_def ch_def)
  obtain s3 where s3: "until newline s2 = (Inr [48], s3)" "left s3 = [48] @ newline # [ch CHR ''n''] @ rest"
    "sb_context s3 = sb_context s" using until_run [OF s2(2) z(1)] s2(3) by auto
  obtain s4 where s4: "until newline s3 = (Inr [48], s4)" "left s4 = [] @ ch CHR ''n'' # rest"
    "sb_context s4 = sb_context s" using until_run [OF s3(2) z(1)] s3(3) by auto
  have "ch CHR ''n'' \<in> set basic_classes" by (simp add: basic_classes_def ascii_def ch_def)
  from read_wrapped [OF _ this s4(2), of "length (left s4)"] s4(3) obtain t s5 where
    s5: "read_type s4 = (Inr t, s5)" "left s5 = rest" "sb_context s5 = sb_context s"
    by (auto simp: wrappers_def read_type_def left_def simp del: read_type_fuel.simps)
  have "read_func_item last_pc s = (Inr \<lparr> fn_entry_pc = v, fn_limit_pc = last_pc, fn_name = name, fn_args = [], fn_locals = [], fn_return_type = t \<rparr>, s5)"
    using s1(1) s2(1) s3(1) s4(1) s5(1) assms(4) z(2)
    by (simp add: read_func_item_def read_id_table_def read_count_def to_int_def check_def ebind_run eseq_def)
  from that [OF this _ s5(2,3)] show ?thesis by simp
qed

lemma two_functions_read: "\<exists>fs s'. read_func_table two_functions = (Inr fs, s') \<and> map fn_entry_pc fs = [0, 3]"
proof -
  have l: "left two_functions = [50] @ newline # [48] @ ch CHR '':'' # [102] @ newline # [48, newline, 48, newline, ch CHR ''n''] @
      [51] @ ch CHR '':'' # [103] @ newline # [48, newline, 48, newline, ch CHR ''n''] @ []"
    by (simp add: two_functions_def start_state_def left_def newline_def ascii_def ch_def)
  have n: "newline \<notin> set [50]" "newline \<notin> set [102]" "newline \<notin> set [103]" "ch CHR '':'' \<notin> set [48]" "ch CHR '':'' \<notin> set [51]"
    by (simp_all add: newline_def ch_def)
  have v: "stoi [50] = Inr (2, 1)" "stoi [48] = Inr (0, 1)" "stoi [51] = Inr (3, 1)"
    by (simp_all add: stoi_def scan_int_def c_isspace_def c_isdigit_def decimal_value_def in_word_def Let_def ch_def)
  obtain s1 where s1: "until newline two_functions = (Inr [50], s1)" "left s1 = [48] @ ch CHR '':'' # [102] @ newline # [48, newline, 48, newline, ch CHR ''n''] @
      [51] @ ch CHR '':'' # [103] @ newline # [48, newline, 48, newline, ch CHR ''n''] @ []" "sb_context s1 = sb_context two_functions"
    using until_run [OF l n(1)] by blast
  obtain f s2 where f: "read_func_item (fc_pc_count (sb_context two_functions) - 1) s1 = (Inr f, s2)" "fn_entry_pc f = 0"
    "left s2 = [51] @ ch CHR '':'' # [103] @ newline # [48, newline, 48, newline, ch CHR ''n''] @ []" by (rule func_item_run [OF s1(2) n(4,2) v(2)])
  obtain g s3 where g: "read_func_item (fc_pc_count (sb_context two_functions) - 1) s2 = (Inr g, s3)" "fn_entry_pc g = 3"
    by (rule func_item_run [OF f(3) n(5,3) v(3)])
  have "read_func_table two_functions = (Inr [f\<lparr> fn_limit_pc := 2 \<rparr>, g], s3)"
    using s1(1,3) f(1,2) g v(1)
    by (simp add: read_func_table_def to_int_def check_def vm_assert_def ebind_run eseq_def numeral_2_eq_2 close_previous_def)
  with f(2) g(2) show ?thesis by simp
qed

theorem functions_divide_pcs_witness:
  "\<exists>fs. fst (read_func_table two_functions) = Inr fs \<and> map fn_entry_pc fs = [0, 3] \<and>
    function_at fs 2 = (let before = filter (\<lambda>f. fn_entry_pc f \<le> 2) fs in if before = [] then None else Some (last before))"
proof -
  obtain fs s' where r: "read_func_table two_functions = (Inr fs, s')" "map fn_entry_pc fs = [0, 3]"
    using two_functions_read by (elim exE conjE)
  have "2 \<le> fc_pc_count (sb_context two_functions) - 1" by (simp add: two_functions_def)
  from functions_divide_pcs [OF r(1) this] r show ?thesis by simp
qed

theorem next_statement_found_witness:
  "\<exists>moved pc'. try_advance_pc five_pcs NextDebugStatement False 1 = Inr (moved, pc') \<and>
    (let stmt = (\<lambda>i. pi_debug_statement (sf_pcs five_pcs ! i)) in
     if moved then 1 < pc' \<and> pc' < int (length (sf_pcs five_pcs)) \<and> stmt (nat pc') \<noteq> stmt (nat 1) \<and> (\<forall>i \<in> {nat 1..<nat pc'}. stmt i = stmt (nat 1))
     else pc' = 1 \<and> (\<forall>i \<in> {nat 1..<length (sf_pcs five_pcs)}. stmt i = stmt (nat 1)))"
proof -
  have "length (sf_pcs five_pcs) = 5" by (simp add: five_pcs_def)
  then have "1 < int (length (sf_pcs five_pcs))" by linarith
  from next_statement_found [OF zero_le_one this] show ?thesis .
qed

section \<open>Reading ends\<close>

definition ends :: "nat \<Rightarrow> 'a sbl \<Rightarrow> bool" where
  "ends n m \<longleftrightarrow> (\<forall>s. length (left s) < n \<longrightarrow> fst (m s) \<noteq> Inl OutOfFuel \<and> length (left (snd (m s))) \<le> length (left s))"

named_theorems ends_intros

lemma endsI: "(\<And>s r s'. length (left s) < n \<Longrightarrow> m s = (r, s') \<Longrightarrow> r \<noteq> Inl OutOfFuel \<and> length (left s') \<le> length (left s)) \<Longrightarrow> ends n m"
  unfolding ends_def by (metis prod.collapse)

lemma endsD: "ends n m \<Longrightarrow> length (left s) < n \<Longrightarrow> m s = (r, s') \<Longrightarrow> r \<noteq> Inl OutOfFuel \<and> length (left s') \<le> length (left s)"
  unfolding ends_def by force

lemma ends_basic [ends_intros]: "ends n (eret x)" "e \<noteq> OutOfFuel \<Longrightarrow> ends n (throw e)" "e \<noteq> OutOfFuel \<Longrightarrow> ends n (check b e)"
  "ends n (vm_assert b msg)" "ends n (gets f)" "r \<noteq> Inl OutOfFuel \<Longrightarrow> ends n (lift_res r)"
  by (simp_all add: ends_def check_def vm_assert_def)

lemma ends_bind [ends_intros]:
  assumes "ends n m" "\<And>x. ends n (k x)"
  shows "ends n (ebind m k)"
proof (rule endsI)
  fix s r s' assume s: "length (left s) < n" and r: "ebind m k s = (r, s')"
  obtain q s1 where q: "m s = (q, s1)" by (metis surj_pair)
  note l = endsD [OF assms(1) s q]
  show "r \<noteq> Inl OutOfFuel \<and> length (left s') \<le> length (left s)"
  proof (cases q)
    case (Inl e)
    with q r l show ?thesis by (auto simp: ebind_run)
  next
    case (Inr x)
    with q r have "k x s1 = (r, s')" by (simp add: ebind_run)
    moreover have "length (left s1) < n" using l s by simp
    ultimately have "r \<noteq> Inl OutOfFuel \<and> length (left s') \<le> length (left s1)" using endsD [OF assms(2) [of x], of s1 r s'] by blast
    with l show ?thesis using le_trans by blast
  qed
qed

lemma ends_seq [ends_intros]: "ends n m \<Longrightarrow> ends n k \<Longrightarrow> ends n (eseq m k)"
  unfolding eseq_def by (rule ends_bind)

lemma ends_if [ends_intros]: "ends n m \<Longrightarrow> ends n m' \<Longrightarrow> ends n (if b then m else m')"
  by simp

lemma ends_prod [ends_intros]: "(\<And>x y. ends n (k x y)) \<Longrightarrow> ends n (case v of (x, y) \<Rightarrow> k x y)"
  by (cases v) simp

lemma ends_modify [ends_intros]: "(\<And>s. left (g s) = left s) \<Longrightarrow> ends n (modify g)"
  by (simp add: ends_def)

lemma ends_until [ends_intros]: "ends n (until b)"
proof (rule endsI)
  fix s r s' assume r: "until b s = (r, s')"
  obtain x r' where x: "get_bytes_until b (sb_reader s) = (Inr x, r')"
    "if b \<in> set (remaining (sb_reader s)) then x = (True, takeWhile (\<lambda>c. c \<noteq> b) (remaining (sb_reader s))) \<and> remaining r' = tl (dropWhile (\<lambda>c. c \<noteq> b) (remaining (sb_reader s)))
      else x = (False, remaining (sb_reader s)) \<and> remaining r' = []"
    using get_bytes_until_spec by blast
  have "length (remaining r') \<le> length (remaining (sb_reader s))"
    using x(2) length_dropWhile_le [of "\<lambda>c. c \<noteq> b" "remaining (sb_reader s)"] by (auto split: if_splits)
  with r x(1) show "r \<noteq> Inl OutOfFuel \<and> length (left s') \<le> length (left s)"
    by (auto simp: until_def sbl_reader_def get_as_string_until_def ebind_run left_def split: prod.splits)
qed

lemma ends_next_byte:
  assumes "\<And>b. ends n (k b)"
  shows "ends (Suc n) (ebind next_byte (\<lambda>(success, b). eseq (check success (StdException msg)) (k b)))"
proof (rule endsI)
  fix s r s' assume s: "length (left s) < Suc n" and r: "ebind next_byte (\<lambda>(success, b). eseq (check success (StdException msg)) (k b)) s = (r, s')"
  obtain q where q: "get_next_byte (sb_reader s) = (Inr (case left s of [] \<Rightarrow> (False, 0) | b # _ \<Rightarrow> (True, b)), q)" "remaining q = tl (left s)"
    using get_next_byte_spec [of "sb_reader s"] unfolding left_def by blast
  define s1 where "s1 = s\<lparr> sb_reader := q \<rparr>"
  have n: "next_byte s = (Inr (case left s of [] \<Rightarrow> (False, 0) | b # _ \<Rightarrow> (True, b)), s1)" "left s1 = tl (left s)"
    using q by (simp_all add: next_byte_def sbl_reader_def s1_def left_def)
  show "r \<noteq> Inl OutOfFuel \<and> length (left s') \<le> length (left s)"
  proof (cases "left s")
    case Nil
    with n r show ?thesis by (auto simp: ebind_run eseq_def)
  next
    case (Cons b bs)
    with n r have "k b s1 = (r, s')" by (simp add: ebind_run eseq_def)
    from endsD [OF assms _ this] n(2) s Cons show ?thesis by simp
  qed
qed

lemma ends_some_byte [ends_intros]: "ends n next_byte"
proof (rule endsI)
  fix s r s' assume r: "next_byte s = (r, s')"
  with get_next_byte_spec [of "sb_reader s"] show "r \<noteq> Inl OutOfFuel \<and> length (left s') \<le> length (left s)"
    by (auto simp: next_byte_def sbl_reader_def left_def)
qed

lemma numbers_end [ends_intros]: "stoi bs \<noteq> Inl OutOfFuel" "stoul bs \<noteq> Inl OutOfFuel"
  by (auto simp: stoi_def stoul_def require_def split: option.splits)

lemma src_position_ends: "src_position first pos x \<noteq> Inl OutOfFuel"
proof (induction first pos x rule: src_position.induct)
  case (1 first pos src fc)
  note unfold = src_position.simps [of first pos src fc]
  show ?case
  proof (cases "pos = []")
    case True
    then show ?thesis by (simp add: unfold)
  next
    case False
    show ?thesis
    proof (cases "stoi pos")
      case (Inl e)
      then show ?thesis using False numbers_end(1) [of pos] by (simp add: unfold)
    next
      case (Inr p)
      obtain v consumed where v: "stoi pos = Inr (v, consumed)" using Inr by (cases p) simp
      show ?thesis
      proof (cases "drop consumed pos")
        case Nil
        with False v show ?thesis by (simp add: unfold)
      next
        case (Cons c rest)
        note hyps = "1.IH" [OF False v refl Cons]
        consider "c = ch CHR ''.''" | "c \<noteq> ch CHR ''.''" "c = ch CHR '':''" | "c \<noteq> ch CHR ''.''" "c \<noteq> ch CHR '':''" by blast
        then show ?thesis
        proof cases
          case 1
          then show ?thesis using hyps(1) [OF 1] False v Cons by (simp add: unfold)
        next
          case 2
          then show ?thesis using hyps(2) [OF 2] False v Cons by (simp add: unfold)
        next
          case 3
          then show ?thesis using hyps(3) [OF 3] False v Cons by (simp add: unfold)
        qed
      qed
    qed
  qed
qed

lemma src_entry_ends [ends_intros]: "src_entry bs fc \<noteq> Inl OutOfFuel"
  by (auto simp: src_entry_def rbind_def src_position_ends simp del: src_position.simps split: list.splits sum.splits)

lemma ends_repeat [ends_intros]:
  assumes "ends n m"
  shows "ends n (repeat_sbl k m)"
proof (induction k)
  case 0
  show ?case unfolding repeat_sbl.simps by (rule ends_basic)
next
  case (Suc k)
  show ?case unfolding repeat_sbl.simps by (intro ends_intros assms Suc)
qed

lemma ends_parts [ends_intros]: "ends n (to_int bs)" "ends n read_count" "ends n (read_src_entry src)" "ends n (push_inner t)" "ends n (push_string x)"
  "ends n (push_source y)" "ends n (push_adt z)" "ends n (push_tuple w)" "ends n (table_index m f)"
  unfolding to_int_def read_count_def read_src_entry_def push_inner_def push_string_def push_source_def push_adt_def push_tuple_def table_index_def
  by (intro ends_intros; simp add: left_def)+

lemma ends_type_parts:
  assumes "ends n rt"
  shows "ends n (read_id_table rt)" "ends n (read_inner rt)" "ends n (read_adt rt p)" "ends n (read_tuple rt)" "ends n (read_function_type rt)"
proof -
  show t: "ends n (read_id_table rt)" unfolding read_id_table_def read_id_item_def by (intro ends_intros assms; simp)
  show i: "ends n (read_inner rt)" unfolding read_inner_def by (intro ends_intros assms)
  have c: "ends n (create_name_source_size rt parts)" for parts unfolding create_name_source_size_def by (intro ends_intros t)
  have "ends n (read_tags rt)" unfolding read_tags_def read_tag_def Let_def by (intro ends_intros c; simp)
  then show "ends n (read_adt rt p)" unfolding read_adt_def Let_def by (intro ends_intros c; simp)
  show "ends n (read_tuple rt)" unfolding read_tuple_def by (intro ends_intros t)
  show "ends n (read_function_type rt)" unfolding read_function_type_def by (intro ends_intros i; simp)
qed

lemma ends_body: "ends n rt \<Longrightarrow> ends n (read_type_body rt tc)"
  unfolding read_type_body_def read_module_type_def by (intro ends_intros ends_type_parts; simp)

lemma ends_type_fuel: "ends n (read_type_fuel n)"
proof (induction n)
  case 0
  show ?case by (simp add: ends_def)
next
  case (Suc n)
  show ?case unfolding read_type_fuel.simps(2) by (intro ends_next_byte ends_body Suc)
qed

lemma ends_type [ends_intros]: "ends n read_type"
proof (rule endsI)
  fix s r s' assume "read_type s = (r, s')"
  then have "read_type_fuel (Suc (length (left s))) s = (r, s')" by (simp add: read_type_def left_def del: read_type_fuel.simps)
  from endsD [OF ends_type_fuel _ this] show "r \<noteq> Inl OutOfFuel \<and> length (left s') \<le> length (left s)" by simp
qed

lemma ends_types [ends_intros]: "ends n (read_types i k)"
  by (induction k arbitrary: i) (simp_all only: read_types.simps, (intro ends_intros | assumption | simp add: left_def)+)

lemma ends_funcs [ends_intros]: "ends n (read_funcs k p fs)"
proof -
  have "ends n (read_func_item p)" unfolding read_func_item_def by (intro ends_intros ends_type_parts)
  note item = this
  show ?thesis by (induction k arbitrary: fs) (simp_all only: read_funcs.simps, (intro ends_intros item | assumption)+)
qed

lemma ends_symbols: "ends n read_symbols"
proof -
  have h: "ends n read_sbl_header" unfolding read_sbl_header_def by (intro ends_intros; simp)
  have f: "ends n read_file_table" unfolding read_file_table_def by (intro ends_intros)
  have "ends n read_pc_item" unfolding read_pc_item_def
    by (intro ends_intros) (auto split: list.splits intro!: ends_intros)
  then have p: "ends n read_pc_table" unfolding read_pc_table_def by (intro ends_intros; simp add: left_def)
  have t: "ends n read_type_table" unfolding read_type_table_def by (intro ends_intros; simp add: left_def)
  have u: "ends n read_func_table" unfolding read_func_table_def by (intro ends_intros; simp)
  have d: "ends n read_data_table" unfolding read_data_table_def by (intro ends_type_parts ends_intros)
  show ?thesis unfolding read_symbols_def by (intro ends_intros h f p t u d)
qed

text \<open>C35: reading a symbol file ends on every sequence of bytes, with its tables or an error: the fuel
  for the nesting of types, which is the number of bytes that are left, is never used up.\<close>

theorem symbol_read_terminates: "symbol_read f \<noteq> Inl OutOfFuel"
  using ends_symbols [of "Suc (length (left (start_state f)))"] by (simp add: ends_def symbol_read_def)

end
