(* ===== verification/Debugger.thy ===== *)
theory Debugger
  imports SymbolData ToolDispatch VmCore
begin

text \<open>
  The debugger of the command line program (\<^verbatim>\<open>src/src/exec/debugger.cpp\<close>, \<^verbatim>\<open>exec.hpp\<close>): a tool that
  reads commands from the console while all threads are suspended. Its state lies beside the
  state of the machine; the console is a list of lines to read and the bytes written so far. A
  command either succeeds or fails with the text of a \<open>debug_cmd_error_t\<close>; every other exception
  leaves the prompt. The number of system threads, the sleep while threads are being suspended
  and the files are the parameter \<open>dbg_host\<close>; the names of types that only a debug build keeps
  are not printed.
\<close>

section \<open>State\<close>

record debugger =
  dg_options :: word_t
  dg_tool_id :: nat
  dg_attached :: bool
  dg_first_break :: bool
  dg_breakpoints :: "nat list"
  dg_events :: "nat list"
  dg_symbols :: "(nat \<times> sbl_file \<times> int) list"
  dg_settings :: "(byte_t list \<times> byte_t list) list"
  dg_vm_debug :: bool

record dbg_cmd_cxt =
  cx_transient :: bool
  cx_exit_break :: bool
  cx_last_cmd :: "byte_t list"
  cx_current :: nat

record session =
  se_cpu :: cpu
  se_dbg :: debugger
  se_cxt :: dbg_cmd_cxt
  se_out :: "byte_t list"
  se_in :: "byte_t list list"

record dbg_host =
  dh_sys_threads :: nat
  dh_sleep :: "unit exec"
  dh_wait_fuel :: nat
  dh_type_fuel :: nat
  dh_symbol_file :: "byte_t list \<Rightarrow> byte_t list option"

type_synonym 'a dbg = "(session, 'a) eff"
type_synonym 'a cmd = "(session, string + 'a) eff"

definition on_cpu :: "'a exec \<Rightarrow> 'a dbg" where
  "on_cpu m = (\<lambda>s. let (x, c) = m (se_cpu s) in (x, s\<lparr> se_cpu := c \<rparr>))"

definition of_dbg :: "(debugger \<Rightarrow> 'a) \<Rightarrow> 'a dbg" where "of_dbg f = gets (\<lambda>s. f (se_dbg s))"
definition set_dbg :: "(debugger \<Rightarrow> debugger) \<Rightarrow> unit dbg" where "set_dbg g = modify (\<lambda>s. s\<lparr> se_dbg := g (se_dbg s) \<rparr>)"
definition of_cxt :: "(dbg_cmd_cxt \<Rightarrow> 'a) \<Rightarrow> 'a dbg" where "of_cxt f = gets (\<lambda>s. f (se_cxt s))"
definition set_cxt :: "(dbg_cmd_cxt \<Rightarrow> dbg_cmd_cxt) \<Rightarrow> unit dbg" where "set_cxt g = modify (\<lambda>s. s\<lparr> se_cxt := g (se_cxt s) \<rparr>)"

definition fail :: "string \<Rightarrow> 'a cmd" where "fail msg = eret (Inl msg)"
definition done_with :: "unit dbg \<Rightarrow> unit cmd" where "done_with m = eseq m (eret (Inr ()))"

definition and_then :: "'a cmd \<Rightarrow> ('a \<Rightarrow> 'b cmd) \<Rightarrow> 'b cmd" where
  "and_then m k = ebind m (\<lambda>r. case r of Inl msg \<Rightarrow> fail msg | Inr x \<Rightarrow> k x)"

definition need :: "bool \<Rightarrow> string \<Rightarrow> unit cmd" where "need b msg = (if b then eret (Inr ()) else fail msg)"

definition parse_or_fail :: "'a res \<Rightarrow> string \<Rightarrow> 'a cmd" where
  "parse_or_fail r msg = (case r of Inl _ \<Rightarrow> fail msg | Inr x \<Rightarrow> eret (Inr x))"

section \<open>Console\<close>

definition out :: "byte_t list \<Rightarrow> unit dbg" where "out bs = modify (\<lambda>s. s\<lparr> se_out := se_out s @ bs \<rparr>)"

definition csi :: "string \<Rightarrow> byte_t list" where "csi s = [27] @ ascii ''['' @ ascii s"
definition black_font :: "byte_t list" where "black_font = csi ''30m''"
definition red_font :: "byte_t list" where "red_font = csi ''31m''"
definition green_font :: "byte_t list" where "green_font = csi ''32m''"
definition yellow_font :: "byte_t list" where "yellow_font = csi ''33m''"
definition blue_font :: "byte_t list" where "blue_font = csi ''34m''"
definition magenta_font :: "byte_t list" where "magenta_font = csi ''35m''"
definition white_bkg :: "byte_t list" where "white_bkg = csi ''47m''"
definition bold :: "byte_t list" where "bold = csi ''1m''"
definition reset_all :: "byte_t list" where "reset_all = csi ''0m''"

definition debug_print_error :: "byte_t list \<Rightarrow> unit dbg" where
  "debug_print_error s = out (red_font @ bold @ ascii ''Error: '' @ s @ reset_all @ [newline])"

definition debug_print_info :: "byte_t list \<Rightarrow> unit dbg" where
  "debug_print_info s = out (yellow_font @ bold @ s @ reset_all @ [newline])"

definition setw :: "nat \<Rightarrow> byte_t list \<Rightarrow> byte_t list" where "setw n bs = replicate (n - length bs) 32 @ bs"

definition nat_text :: "nat \<Rightarrow> byte_t list" where "nat_text n = c_decimal (int n)"

definition hex_digit :: "nat \<Rightarrow> byte_t" where "hex_digit d = of_nat (if d < 10 then 48 + d else 87 + d)"

fun hex_digits :: "nat \<Rightarrow> byte_t list" where
  "hex_digits n = (if n < 16 then [hex_digit n] else hex_digits (n div 16) @ [hex_digit (n mod 16)])"
declare hex_digits.simps [simp del]

definition pointer_text :: "nat \<Rightarrow> byte_t list" where
  "pointer_text p = (if p = 0 then ascii ''0'' else ascii ''0x'' @ hex_digits p)"

definition string_text :: "vm_string option \<Rightarrow> byte_t list dbg" where
  "string_text s = (case s of None \<Rightarrow> throw (Undefined ''str() of null'')
   | Some v \<Rightarrow> ebind (lift_res (str v)) (\<lambda>e. eret (c_string (str_bytes e))))"

section \<open>Threads and modules\<close>

definition registers_of :: "nat \<Rightarrow> registers dbg" where
  "registers_of t = ebind (gets (\<lambda>s. if t = r_thread_id (c_regs (se_cpu s)) then Some (c_regs (se_cpu s)) else map_of (w_threads (se_cpu s)) t)) (\<lambda>found.
     case found of None \<Rightarrow> throw (Undefined ''registers of a dead thread'') | Some r \<Rightarrow> eret r)"

definition current_register :: "registers dbg" where
  "current_register = ebind (of_cxt cx_current) registers_of"

definition all_threads :: "registers list dbg" where
  "all_threads = gets (\<lambda>s. map (\<lambda>r. if r_thread_id r = r_thread_id (c_regs (se_cpu s)) then c_regs (se_cpu s) else r)
     (get_all_threads (se_cpu s)))"

definition module_of_ref :: "nat \<Rightarrow> (nat \<times> vm_module) dbg" where
  "module_of_ref p = on_cpu (ebind (module_ref_at p) (\<lambda>mr. ebind (module_at (mr_module mr)) (\<lambda>md. eret (mr_module mr, md))))"

definition is_builtin :: "vm_module \<Rightarrow> bool" where
  "is_builtin md = has_flag (hd_runtime_flag (m_header md)) builtin_flag"

section \<open>Symbols\<close>

definition symbols_exist :: "nat \<Rightarrow> bool dbg" where
  "symbols_exist vm_id = of_dbg (\<lambda>d. map_of (dg_symbols d) vm_id \<noteq> None)"

primrec resolve_loop :: "nat \<Rightarrow> nat \<Rightarrow> sbl_file \<Rightarrow> word_t \<Rightarrow> int \<Rightarrow> int \<Rightarrow> int \<Rightarrow> byte_t list list \<Rightarrow> (byte_t list list \<times> int) res" where
  "resolve_loop 0 k f fmt begin_pc end_pc next_pc acc = Inl OutOfFuel"
| "resolve_loop (Suc n) k f fmt begin_pc end_pc next_pc acc = (if end_pc < next_pc then Inr (acc, next_pc) else
     rbind (current_function_name k f next_pc fmt) (\<lambda>function_name.
     rbind (current_source_location f next_pc) (\<lambda>source_loc.
     rbind (get_source_by_id f (src_begin_source_id source_loc)) (\<lambda>source.
     let text = (if function_name \<noteq> [] then function_name @ ascii '' at '' else []) @ source @ [ch CHR '':''] @ c_decimal (src_begin_line source_loc);
         acc' = acc[nat (next_pc - begin_pc) := text] in
     rbind (try_advance_pc f NextDebugStatement True next_pc) (\<lambda>(moved, pc).
     if moved then resolve_loop n k f fmt begin_pc end_pc pc acc' else Inr (acc', next_pc))))))"

definition resolve_lines :: "nat \<Rightarrow> sbl_file \<Rightarrow> word_t \<Rightarrow> int \<Rightarrow> int \<Rightarrow> (byte_t list list \<times> int) res" where
  "resolve_lines k f fmt begin_pc end_pc = rbind (set_current_pc f begin_pc) (\<lambda>pc.
     if end_pc - begin_pc + 1 < 0 then Inl (StdException ''vector too long'')
     else resolve_loop (Suc (length (sf_pcs f))) k f fmt begin_pc end_pc pc (replicate (nat (end_pc - begin_pc + 1)) []))"

definition resolve_to_function_source_line :: "dbg_host \<Rightarrow> nat \<Rightarrow> int \<Rightarrow> int \<Rightarrow> word_t \<Rightarrow> byte_t list list dbg" where
  "resolve_to_function_source_line D vm_id begin_pc end_pc fmt = ebind (of_dbg (\<lambda>d. map_of (dg_symbols d) vm_id)) (\<lambda>info.
     case info of None \<Rightarrow> eret []
     | Some (f, _) \<Rightarrow> (ebind (lift_res (resolve_lines (dh_type_fuel D) f fmt begin_pc end_pc)) (\<lambda>(resolved, pc).
       eseq (set_dbg (\<lambda>d. d\<lparr> dg_symbols := AList.update vm_id (f, pc) (dg_symbols d) \<rparr>)) (
       eret resolved))))"

fun sub_text :: "byte_t list \<Rightarrow> byte_t list \<Rightarrow> bool" where
  "sub_text match [] = (match = [])"
| "sub_text match (b # bs) = (take (length match) (b # bs) = match \<or> sub_text match bs)"

definition function_line :: "function_data \<Rightarrow> byte_t list" where
  "function_line fi = ascii ''['' @ setw 5 (c_decimal (fd_entry_pc fi)) @ ascii '','' @ setw 5 (c_decimal (fd_limit_pc fi)) @ ascii '']  '' @ fd_name fi"

definition fmt_declaration :: word_t where "fmt_declaration = fmt_name OR fmt_arguments OR fmt_return_type"

definition get_module_functions :: "dbg_host \<Rightarrow> nat \<Rightarrow> byte_t list option \<Rightarrow> byte_t list list dbg" where
  "get_module_functions D vm_id match = ebind (of_dbg (\<lambda>d. map_of (dg_symbols d) vm_id)) (\<lambda>info.
     case info of None \<Rightarrow> eret []
     | Some (f, _) \<Rightarrow> (ebind (lift_res (get_functions (dh_type_fuel D) f fmt_declaration)) (\<lambda>f_infos.
       eret (map function_line (filter (\<lambda>fi. case match of None \<Rightarrow> True | Some m \<Rightarrow> sub_text m (fd_name fi)) f_infos)))))"

definition get_option :: "byte_t list \<Rightarrow> byte_t list dbg" where
  "get_option option = of_dbg (\<lambda>d. case map_of (dg_settings d) option of None \<Rightarrow> [] | Some v \<Rightarrow> v)"

definition set_option :: "byte_t list \<Rightarrow> byte_t list \<Rightarrow> unit dbg" where
  "set_option option v = set_dbg (\<lambda>d. d\<lparr> dg_settings := AList.update option v (dg_settings d) \<rparr>)"

section \<open>Text of the machine\<close>

definition at_pc :: "word_t \<Rightarrow> byte_t list" where "at_pc pc = ascii ''@'' @ word_text pc"

definition frame_text :: "dbg_host \<Rightarrow> nat \<times> word_t \<times> nat \<Rightarrow> byte_t list dbg" where
  "frame_text D frame = (case frame of (_, pc, module_p) \<Rightarrow> (ebind (module_of_ref module_p) (\<lambda>(_, md).
     ebind (resolve_to_function_source_line D (m_vm_id md) (sint pc) (sint pc) fmt_name) (\<lambda>func_maybe.
     ebind (if func_maybe \<noteq> [] then (eseq (vm_assert (length func_maybe = 1) ''func_maybe.size() == 1'') (
       ebind (string_text (m_module_name md)) (\<lambda>name.
       eret (name @ ascii ''!'' @ hd func_maybe @ ascii ''  ''))))
       else case m_module_name md of None \<Rightarrow> eret (ascii ''<No Name>'') | Some _ \<Rightarrow> string_text (m_module_name md)) (\<lambda>text.
     eret (text @ at_pc pc @ [newline]))))))"

definition stack_to_string :: "dbg_host \<Rightarrow> registers \<Rightarrow> byte_t list dbg" where
  "stack_to_string D r = ebind (on_cpu (walk_stack r)) (\<lambda>frames. ebind (map_each (frame_text D) frames) (\<lambda>ts. eret (concat ts)))"

definition instruction_at :: "vm_module \<Rightarrow> word_t \<Rightarrow> exec_op dbg" where
  "instruction_at md pc = (case m_code_section md ! unat pc of Exec op \<Rightarrow> eret op | Native _ \<Rightarrow> throw (Undefined ''not a VM instruction''))"

definition registers_to_string :: "registers \<Rightarrow> byte_t list dbg" where
  "registers_to_string r = ebind (module_of_ref (r_module_ref r)) (\<lambda>(_, md).
     ebind (string_text (m_module_name md)) (\<lambda>name.
     ebind (if is_builtin md then eret [] else (eseq (vm_assert (unat (r_pc r) < length (m_code_section md)) ''r.pc < code_section.size()'') (
       ebind (instruction_at md (r_pc r)) (\<lambda>op.
       eret ([newline] @ ascii ''        Src:  '' @ operand_text (in_source op) @ [newline] @ ascii ''        Mid:  '' @ middle_text (in_middle op)
           @ [newline] @ ascii ''        Dst:  '' @ operand_text (in_destination op)))))) (\<lambda>op.
     eret (ascii ''  Thread ID:  '' @ nat_text (r_thread_id r) @ [newline] @ ascii ''     Module:  '' @ name @ [newline]
       @ ascii ''         PC:  '' @ word_text (r_pc r) @ op @ [newline]))))"

definition escape :: "byte_t \<Rightarrow> byte_t list" where
  "escape c = (if c = 92 then [92, 92] else if c = 7 then [92, 97] else if c = 8 then [92, 98] else if c = 12 then [92, 102]
     else if c = 10 then [92, 110] else if c = 13 then [92, 114] else if c = 9 then [92, 116] else if c = 11 then [92, 118] else [c])"

definition type_text :: "type_desc \<Rightarrow> byte_t list" where "type_text td = ascii ''size: '' @ c_decimal (td_size td)"

definition dbg_alloc_text :: "nat \<Rightarrow> obj \<Rightarrow> byte_t list dbg" where
  "dbg_alloc_text p ob = ebind (of_dbg dg_vm_debug) (\<lambda>enabled.
     eret (if enabled then ascii '' [[ref: '' @ nat_text (ob_refs ob) @ ascii '' addr: '' @ pointer_text p @ ascii '' gc_res: '' @ pointer_text (unat (ob_gc ob)) @ ascii '']]''
       else []))"

primrec alloc_text :: "nat \<Rightarrow> nat \<Rightarrow> byte_t list dbg" where
  "alloc_text 0 p = eret (ascii ''...'')"
| "alloc_text (Suc n) p = (if p = 0 then eret (ascii ''<nil>'') else (ebind (on_cpu (obj_at p)) (\<lambda>ob.
     ebind (dbg_alloc_text p ob) (\<lambda>dbg_alloc.
     case ob_data ob of
       StringObj v \<Rightarrow> (ebind (string_text (Some v)) (\<lambda>t.
       eret (concat (map escape t) @ ascii ''    length: '' @ c_decimal (str_length v) @ ascii '' - string'' @ dbg_alloc)))
     | ArrayObj arr \<Rightarrow> eret (ascii ''length: '' @ c_decimal (arr_length arr) @ ascii '' - array of '' @ type_text (arr_element_type arr) @ dbg_alloc)
     | ListObj l \<Rightarrow> (ebind (on_cpu (list_get_length l)) (\<lambda>len.
       eret (ascii ''length: '' @ word_text len @ ascii '' - list of '' @ type_text (ls_element_type l) @ dbg_alloc)))
     | ChannelObj _ c \<Rightarrow> eret (ascii ''buffer size: '' @ c_decimal (case ch_buffer c of None \<Rightarrow> 0 | Some (_, buf) \<Rightarrow> arr_length buf)
         @ ascii '' - channel of'' @ type_text (ch_type c) @ dbg_alloc)
     | _ \<Rightarrow> (ebind (map_each (\<lambda>k. (ebind (on_cpu (pt_ref (p + 4 * k))) (\<lambda>q.
         if q = 0 then eret [] else (ebind (alloc_text n q) (\<lambda>inner.
           eret ([newline] @ replicate (4 * (3 - Suc n)) 32 @ ascii ''['' @ nat_text (4 * k) @ ascii '']  '' @ inner)))))) (flagged_fields (ob_type ob))) (\<lambda>fields.
       eret (type_text (ob_type ob) @ ascii '' - alloc'' @ dbg_alloc @ concat fields)))))))"

definition alloc_to_string :: "nat \<Rightarrow> byte_t list dbg" where "alloc_to_string p = alloc_text 3 p"

definition thread_state_text :: "thread_state \<Rightarrow> byte_t list" where
  "thread_state_text st = ascii (case st of UnknownState \<Rightarrow> ''unknown'' | BlockedInAlt \<Rightarrow> ''blocked-in-alt'' | BlockedSending \<Rightarrow> ''blocked-sending''
     | BlockedReceiving \<Rightarrow> ''blocked-receiving'' | DebugState \<Rightarrow> ''debug'' | Ready \<Rightarrow> ''ready'' | Running \<Rightarrow> ''running'' | Release \<Rightarrow> ''release''
     | Exiting \<Rightarrow> ''exiting'' | EmptyStack \<Rightarrow> ''empty-stack'' | Broken \<Rightarrow> ''broken'')"

section \<open>Commands\<close>

type_synonym command = "dbg_host \<Rightarrow> byte_t list list \<Rightarrow> unit cmd"

definition cmd_continue :: command where
  "cmd_continue D a = done_with (set_cxt (\<lambda>c. c\<lparr> cx_exit_break := True \<rparr>))"

definition cmd_step :: command where
  "cmd_step D a = done_with (ebind (of_cxt cx_current) (\<lambda>t.
     eseq (on_cpu (set_thread_trap_flag t trap_instruction)) (
     set_cxt (\<lambda>c. c\<lparr> cx_exit_break := True \<rparr>))))"

definition cmd_term :: command where "cmd_term D a = throw (TermRequest ''VM termination requested'')"

definition cmd_print_registers :: command where
  "cmd_print_registers D a = done_with (ebind current_register (\<lambda>r. ebind (registers_to_string r) debug_print_info))"

definition cmd_print_threads :: command where
  "cmd_print_threads D a = done_with (ebind all_threads (\<lambda>ts. debug_print_info (concat (map (\<lambda>t.
     ascii ''  '' @ setw 5 (nat_text (r_thread_id t)) @ ascii ''  -  '' @ thread_state_text (r_state t) @ [newline]) ts))))"

definition module_line :: "loaded_vm_module \<Rightarrow> byte_t list dbg" where
  "module_line l = ebind (gets (\<lambda>s. map_of (h_modules (se_cpu s)) (lm_module l))) (\<lambda>instance.
     case instance of None \<Rightarrow> eret []
     | Some md \<Rightarrow> (ebind (string_text (m_module_name md)) (\<lambda>name.
       ebind (string_text (Some (lm_origin l))) (\<lambda>origin.
       ebind (symbols_exist (lm_vm_id l)) (\<lambda>symbols.
       eret (setw 3 (nat_text (lm_vm_id l)) @ ascii '': '' @ setw 16 name @ ascii ''  -  '' @ origin
           @ (if symbols then ascii '' [symbols loaded]'' else []) @ [newline]))))))"

definition cmd_print_modules :: command where
  "cmd_print_modules D a = done_with (ebind (gets (\<lambda>s. w_modules (se_cpu s))) (\<lambda>loaded.
     ebind (map_each module_line loaded) (\<lambda>ls.
     debug_print_info (concat ls))))"

definition cmd_print_symbols :: command where
  "cmd_print_symbols D a =
     and_then (need (2 \<le> length a) ''Must supply a module ID'') (\<lambda>_.
     and_then (parse_or_fail (stoul (a ! 1)) ''Invalid module ID format'') (\<lambda>vm_id.
     and_then (ebind (symbols_exist (unat vm_id)) (\<lambda>found. need found ''No symbols loaded for module'')) (\<lambda>_.
     done_with (ebind (get_module_functions D (unat vm_id) (if 2 < length a then Some (last a) else None)) (\<lambda>module_funcs.
     debug_print_info (ascii '' [PC range]      Function'' @ concat (map (\<lambda>f. [newline] @ ascii ''  '' @ f) module_funcs)))))))"

definition find_module :: "nat \<Rightarrow> nat option dbg" where
  "find_module module_id = gets (\<lambda>s. case find (\<lambda>l. lm_vm_id l = module_id) (w_modules (se_cpu s)) of
     None \<Rightarrow> None | Some l \<Rightarrow> if map_of (h_modules (se_cpu s)) (lm_module l) = None then None else Some (lm_module l))"

definition cmd_breakpoint_set :: command where
  "cmd_breakpoint_set D a =
     and_then (need (2 \<le> length a) ''Must supply an IP'') (\<lambda>_.
     and_then (parse_or_fail (stoul (a ! 1)) ''Invalid IP format'') (\<lambda>pc.
     and_then (if 2 < length a then and_then (parse_or_fail (stoul (a ! 2)) ''Invalid module ID format'') (\<lambda>module_id.
           ebind (find_module (unat module_id)) (\<lambda>m. eret (Inr m)))
         else (ebind current_register (\<lambda>r.
     ebind (module_of_ref (r_module_ref r)) (\<lambda>(m, _).
     eret (Inr (Some m)))))) (\<lambda>module.
     case module of None \<Rightarrow> fail ''Invalid module ID''
     | Some m \<Rightarrow> (ebind (on_cpu (module_at m)) (\<lambda>md.
     and_then (need (\<not> is_builtin md) ''Unable to set breakpoint in built-in module'') (\<lambda>_.
         and_then (need (\<not> (sint pc < 0 \<or> length (m_code_section md) \<le> unat pc)) ''Invalid IP for module'') (\<lambda>_.
         done_with (ebind (on_cpu (set_breakpoint (Some m) pc)) (\<lambda>cookie.
       set_dbg (\<lambda>d. d\<lparr> dg_breakpoints := List.insert cookie (dg_breakpoints d) \<rparr>))))))))))"

definition cmd_breakpoint_clear :: command where
  "cmd_breakpoint_clear D a =
     and_then (need (length a \<noteq> 1) ''Must supply a breakpoint ID or wildcard'') (\<lambda>_.
     if a ! 1 = ascii ''*'' then done_with (ebind (of_dbg dg_breakpoints) (\<lambda>cookies.
     eseq (for_each (\<lambda>c. on_cpu (clear_breakpoint c)) cookies) (
     set_dbg (\<lambda>d. d\<lparr> dg_breakpoints := [] \<rparr>))))
     else and_then (parse_or_fail (stoul (a ! 1)) ''Invalid breakpoint ID format'') (\<lambda>cookie.
       and_then (ebind (of_dbg dg_breakpoints) (\<lambda>cookies. need (unat cookie \<in> set cookies) ''Unknown breakpoint ID'')) (\<lambda>_.
       done_with (eseq (on_cpu (clear_breakpoint (unat cookie))) (
     set_dbg (\<lambda>d. d\<lparr> dg_breakpoints := remove1 (unat cookie) (dg_breakpoints d) \<rparr>))))))"

definition breakpoint_line :: "dbg_host \<Rightarrow> nat \<Rightarrow> byte_t list dbg" where
  "breakpoint_line D cookie = ebind (on_cpu (get_breakpoint_details cookie)) (\<lambda>details.
     ebind (on_cpu (module_at (bd_module details))) (\<lambda>md.
     ebind (string_text (m_module_name md)) (\<lambda>name.
     ebind (resolve_to_function_source_line D (m_vm_id md) (sint (bd_pc details)) (sint (bd_pc details)) fmt_name) (\<lambda>func_maybe.
     eseq (vm_assert (length func_maybe \<le> 1) ''func_maybe.size() == 1'') (
     eret (setw 3 (nat_text cookie) @ ascii '': '' @ setw 16 name
       @ (if func_maybe = [] then [] else ascii ''!'' @ hd func_maybe @ ascii ''  '') @ at_pc (bd_pc details) @ [newline]))))))"

definition cmd_breakpoint_list :: command where
  "cmd_breakpoint_list D a = done_with (ebind (of_dbg dg_breakpoints) (\<lambda>cookies.
     ebind (map_each (breakpoint_line D) cookies) (\<lambda>ls.
     debug_print_info (concat ls))))"

definition cmd_stackwalk :: command where
  "cmd_stackwalk D a =
     and_then (if length a = 1 then ebind current_register (\<lambda>r. eret (Inr [(r_thread_id r, r)]))
       else and_then (if a ! 1 = ascii ''*'' then eret (Inr 0) else parse_or_fail (stoul (a ! 1)) ''Invalid thread ID format'') (\<lambda>thread_id.
         ebind all_threads (\<lambda>ts. let found = map (\<lambda>t. (r_thread_id t, t)) (if thread_id = 0 then ts
           else take 1 (filter (\<lambda>t. r_thread_id t = unat thread_id) ts)) in eret (Inr (sort_key fst found))))) (\<lambda>thread_registers.
     and_then (need (thread_registers \<noteq> []) ''Unknown thread ID'') (\<lambda>_.
     done_with (ebind (map_each (\<lambda>(t, r). ebind (stack_to_string D r) (\<lambda>m.
         eret (ascii ''Thread '' @ nat_text t @ ascii '':'' @ [newline] @ m @ [newline]))) thread_registers) (\<lambda>stacks.
     debug_print_info (concat stacks)))))"

definition cmd_switchthread :: command where
  "cmd_switchthread D a =
     and_then (need (length a \<noteq> 1) ''Must supply a target thread ID'') (\<lambda>_.
     and_then (parse_or_fail (stoul (a ! 1)) ''Invalid thread ID format'') (\<lambda>thread_id.
     ebind all_threads (\<lambda>ts. if unat thread_id \<in> set (map r_thread_id ts)
       then done_with (set_cxt (\<lambda>c. c\<lparr> cx_current := unat thread_id \<rparr>)) else fail ''Unknown thread ID'')))"

primrec disassemble_args :: "byte_t list list \<Rightarrow> int \<Rightarrow> int \<Rightarrow> string + int \<times> int" where
  "disassemble_args [] begin_pc len = Inr (begin_pc, len)"
| "disassemble_args (a # as) begin_pc len = (
     let absolute = (a \<noteq> [] \<and> hd a = ch CHR ''@'') in
     case stoi (if absolute then tl a else a) of Inl _ \<Rightarrow> Inl ''Invalid disassemble count format''
     | Inr (v, _) \<Rightarrow> if absolute then disassemble_args as v 4 else disassemble_args as begin_pc v)"

definition disassemble_range :: "int \<Rightarrow> int \<Rightarrow> int \<Rightarrow> (string + int \<times> int) res" where
  "disassemble_range code_size begin_pc len = (
     if begin_pc < 0 \<or> code_size \<le> begin_pc then Inr (Inl ''Invalid absolute pc'')
     else if len < 0 then rbind (swrap (- len)) (\<lambda>n. rbind (swrap (begin_pc - n)) (\<lambda>b. Inr (Inr (max b 0, begin_pc))))
     else rbind (swrap (begin_pc + len)) (\<lambda>e. Inr (Inr (begin_pc, min e (code_size - 1)))))"

primrec original_opcode :: "nat list \<Rightarrow> nat \<Rightarrow> int \<Rightarrow> nat option dbg" where
  "original_opcode [] m pc = eret None"
| "original_opcode (c # cs) m pc = ebind (on_cpu (get_breakpoint_details c)) (\<lambda>details.
     if sint (bd_pc details) = pc \<and> bd_module details = m then eret (Some (bd_opcode details)) else original_opcode cs m pc)"

definition disassemble_line :: "nat \<Rightarrow> vm_module \<Rightarrow> byte_t list list \<Rightarrow> int \<Rightarrow> int \<Rightarrow> byte_t list dbg" where
  "disassemble_line m md resolved_pc begin_pc pc = ebind (instruction_at md (word_of_int pc)) (\<lambda>op.
     ebind (of_dbg dg_breakpoints) (\<lambda>cookies.
     ebind (if in_opcode op = brkpt_opcode then original_opcode cookies m pc else eret None) (\<lambda>original.
     let rpc = (if resolved_pc = [] then [] else resolved_pc ! nat (pc - begin_pc)) in
     ebind (lift_res (exec_op_text (case original of None \<Rightarrow> op | Some opcode \<Rightarrow> op\<lparr> in_opcode := opcode \<rparr>))) (\<lambda>text.
     eret ((if rpc = [] then [] else rpc @ [newline]) @ ascii (if original = None then ''   '' else '' b '') @ setw 5 (c_decimal pc) @ ascii '': ''
       @ text @ [newline])))))"

definition cmd_disassemble :: command where
  "cmd_disassemble D a = ebind current_register (\<lambda>r.
     ebind (module_of_ref (r_module_ref r)) (\<lambda>(m, md).
     and_then (eret (disassemble_args (tl a) (sint (r_pc r)) 4)) (\<lambda>(pc, len).
     and_then (lift_res (disassemble_range (int (length (m_code_section md))) pc len)) (\<lambda>(begin_pc, end_pc).
     done_with (ebind (resolve_to_function_source_line D (m_vm_id md) begin_pc end_pc fmt_name) (\<lambda>resolved_pc.
       eseq (vm_assert (resolved_pc = [] \<or> int (length resolved_pc) = end_pc - begin_pc + 1) ''Resolved PCs should have failed or match the PC count'') (
       ebind (map_each (disassemble_line m md resolved_pc begin_pc) [begin_pc..end_pc]) (\<lambda>ls.
       debug_print_info (concat ls)))))))))"

definition examine_base :: "byte_t list \<Rightarrow> registers \<Rightarrow> (type_desc \<times> nat) cmd" where
  "examine_base base r = (
     if base = ascii ''mp'' then on_cpu (ebind (obj_at (r_mp_base r)) (\<lambda>ob. eret (Inr (ob_type ob, r_mp_base r))))
     else if base = ascii ''fp'' then (let frame = peek_frame (r_stack r) in
       if frame = 0 then fail ''Invalid frame pointer '' else on_cpu (ebind (frame_type frame) (\<lambda>td. eret (Inr (td, frame_base frame)))))
     else fail ''Invalid memory base pointer'')"

definition parse_offsets :: "byte_t list list \<Rightarrow> (int \<times> int) cmd" where
  "parse_offsets a = parse_or_fail (rbind (stoi (a ! 2)) (\<lambda>(o1, _). if 4 \<le> length a then rbind (stoi (a ! 3)) (\<lambda>(o2, _). Inr (o1, o2)) else Inr (o1, - 1)))
     ''Invalid memory offset format''"

definition field_at :: "type_desc \<Rightarrow> nat \<Rightarrow> int \<Rightarrow> (nat \<times> bool) dbg" where
  "field_at td base off = (let k = nat off div 4 in (ebind (on_cpu (pt_ref (base + 4 * k))) (\<lambda>v.
     ebind (lift_res (is_offset_pointer td k)) (\<lambda>is_pointer.
     eret (v, is_pointer)))))"

definition examined :: "type_desc \<Rightarrow> nat \<Rightarrow> int \<Rightarrow> int \<Rightarrow> (nat \<times> bool) cmd" where
  "examined td base o1 o2 = ebind (field_at td base o1) (\<lambda>(v, is_pointer).
     if is_pointer \<and> o2 \<noteq> - 1 then
       and_then (need (v \<noteq> 0) ''First offset is nil'') (\<lambda>_. (ebind (on_cpu (obj_at v)) (\<lambda>ob.
       and_then (need (\<not> (0 > o2 \<or> td_size (ob_type ob) \<le> o2)) ''Second offset out of range'') (\<lambda>_.
           ebind (field_at (ob_type ob) v o2) (\<lambda>x. eret (Inr x))))))
     else eret (Inr (v, is_pointer)))"

definition cmd_examine :: command where
  "cmd_examine D a =
     and_then (need (3 \<le> length a) ''Invalid number of arguments'') (\<lambda>_. (ebind current_register (\<lambda>r.
     and_then (examine_base (a ! 1) r) (\<lambda>(td, base).
     and_then (parse_offsets a) (\<lambda>(o1, o2).
     and_then (need (\<not> (0 > o1 \<or> td_size td \<le> o1)) ''First offset out of range'') (\<lambda>_.
     and_then (examined td base o1 o2) (\<lambda>(v, is_pointer).
     done_with (let place = c_decimal o1 @ ascii ''('' @ a ! 1 @ ascii '')'' in
       ebind (if is_pointer then alloc_to_string v else eret (setw 8 (pointer_text v))) (\<lambda>text.
       debug_print_info ((if o2 = - 1 then place else c_decimal o2 @ ascii ''('' @ place @ ascii '')'') @ ascii '':'' @ [newline] @ ascii ''  '' @ text))))))))))"

section \<open>Options\<close>

definition dbg_options :: "byte_t list list" where "dbg_options = [ascii ''bp-cmd'', ascii ''step-cmd'', ascii ''vm-dbg'']"

definition set_value_cmd :: command where
  "set_value_cmd D a = (
     if length a = 1 then done_with (ebind (map_each (\<lambda>option. ebind (get_option option) (\<lambda>v.
         eret (setw 16 option @ ascii '': '' @ (if v = [] then ascii ''<none>'' else v) @ [newline]))) dbg_options) (\<lambda>ls.
     debug_print_info (ascii ''Debug options'' @ [newline] @ concat ls)))
     else and_then (need (a ! 1 \<in> set dbg_options) ''Invalid debug option'') (\<lambda>_.
       let new_value = join_with (ascii '' '') (drop 2 a); vm_dbg = (a ! 1 = ascii ''vm-dbg'') in
       done_with (eseq (when_do vm_dbg (set_dbg (\<lambda>d. d\<lparr> dg_vm_debug := new_value \<noteq> [] \<rparr>))) (
     set_option (a ! 1) (if vm_dbg then (if new_value \<noteq> [] then ascii ''true'' else []) else new_value)))))"

section \<open>The table of commands\<close>

definition quoted :: "string \<Rightarrow> string" where "quoted s = [CHR 0x27] @ s @ [CHR 0x27]"

definition command_texts :: "(string \<times> string option \<times> string option \<times> string option) list" where
  "command_texts = [
     (''c'', Some ''Continue'', None, None),
     (''s'', Some ''Step over'', None, None),
     (''term'', Some ''Terminate the VM instance'', None, None),
     (''r'', Some ''Print registers'', None, None),
     (''t'', Some ''Print all threads'', None, None),
     (''m'', Some ''Print all loaded modules'', None, None),
     (''sym'', Some ''Print symbols for the supplied module'', Some ''sym [0-9]+ <partial function name>?'',
       Some (''sym 2 foo (Print symbols in module 2 containing '' @ quoted ''foo'' @ '')'')),
     (''bs'', Some ''Set breakpoint at the specified IP in a loaded module'', Some ''bs [0-9]+ [0-9]*'',
       Some ''bs 3 5 (Breakpoint at IP 3 in module 5), bs 4 (Breakpoint at IP 4 in current module)''),
     (''bc'', Some ''Clear breakpoint(s)'', Some (''bc ([0-9]+|'' @ [CHR 0x5C] @ ''*)''), Some ''bc 3, bc *''),
     (''bl'', Some ''List breakpoints'', None, None),
     (''sw'', Some ''Stack walk for the current or supplied thread'', Some (''sw ([0-9]+|'' @ [CHR 0x5C] @ ''*)?''), Some ''sw, sw 34, sw *''),
     (''~'', Some ''Switch to thread'', Some ''~ [0-9]+'', Some ''~ 42''),
     (''d'', Some ''Disassemble the next/previous N instructions (default N = 4)'', Some ''d (@?-?[0-9]+)? (-?[0-9]+)?'', Some ''d, d -4, d 5, d @36 3''),
     (''x'', Some ''Examine memory'', Some ''x [mp|fp] [0-9]+ ([0-9]+)?'', Some ''x mp 3, x fp 20 6''),
     (''set'', Some ''Set a debug option'', Some ''set [ _a-zA-Z0-9]*'', Some (quoted ''set'' @ '' for available options'')),
     (''?'', Some ''Print help'', None, None),
     (''tlk~*'', None, None, None)]"

definition print_help :: "unit dbg" where
  "print_help = debug_print_info (ascii ''Commands:'' @ [newline] @ concat (map (\<lambda>(cmd, description, syn, example).
     case description of None \<Rightarrow> [] | Some text \<Rightarrow> ascii ''  '' @ ascii cmd @ ascii ''    '' @ ascii text @ [newline]
       @ (case syn of None \<Rightarrow> [] | Some t \<Rightarrow> ascii ''      Syntax: '' @ ascii t @ [newline])
       @ (case example of None \<Rightarrow> [] | Some t \<Rightarrow> ascii ''      Example(s): '' @ ascii t @ [newline])) command_texts))"

definition cmd_help :: command where "cmd_help D a = done_with print_help"

definition cmd_tlk_tilde_star :: command where
  "cmd_tlk_tilde_star D a = done_with (out (
     black_font @ white_bkg @ ascii ''H'' @ reset_all @ red_font @ bold @ ascii ''e'' @ green_font @ bold @ ascii ''l''
     @ yellow_font @ bold @ ascii ''l'' @ blue_font @ bold @ ascii ''o'' @ magenta_font @ bold @ ascii '', ''
     @ black_font @ white_bkg @ ascii ''W'' @ reset_all @ red_font @ bold @ ascii ''o'' @ green_font @ bold @ ascii ''r''
     @ yellow_font @ bold @ ascii ''l'' @ blue_font @ bold @ ascii ''d'' @ magenta_font @ bold @ ascii ''!'' @ [newline] @ reset_all))"

definition command_functions :: "command list" where
  "command_functions = [cmd_continue, cmd_step, cmd_term, cmd_print_registers, cmd_print_threads, cmd_print_modules, cmd_print_symbols,
     cmd_breakpoint_set, cmd_breakpoint_clear, cmd_breakpoint_list, cmd_stackwalk, cmd_switchthread, cmd_disassemble, cmd_examine,
     set_value_cmd, cmd_help, cmd_tlk_tilde_star]"

definition cmds :: "(byte_t list \<times> command) list" where
  "cmds = zip (map (ascii \<circ> fst) command_texts) command_functions"

definition find_cmd :: "byte_t list \<Rightarrow> string + command" where
  "find_cmd cmd_maybe = (case map_of cmds cmd_maybe of
     None \<Rightarrow> Inl (''Unknown command. '' @ quoted ''?'' @ '' for help.'') | Some exec \<Rightarrow> Inr exec)"

section \<open>The prompt\<close>

definition run_command :: "dbg_host \<Rightarrow> byte_t list list \<Rightarrow> unit cmd" where
  "run_command D cmd_tokens = and_then (eret (find_cmd (hd cmd_tokens))) (\<lambda>cmd_exec. cmd_exec D cmd_tokens)"

definition execute_single_command :: "dbg_host \<Rightarrow> byte_t list \<Rightarrow> unit dbg" where
  "execute_single_command D cmd = (
     let cmd_tokens = split_at_any (ascii '' '') cmd in
     if cmd_tokens = [] then eret ()
     else ebind (run_command D cmd_tokens) (\<lambda>r. case r of
       Inl msg \<Rightarrow> debug_print_error (ascii msg)
     | Inr _ \<Rightarrow> set_cxt (\<lambda>c. c\<lparr> cx_last_cmd := cmd \<rparr>)))"

definition last_successful_cmd_option :: "byte_t list" where "last_successful_cmd_option = ascii ''last_successful_cmd''"

definition with_cxt :: "bool \<Rightarrow> unit dbg \<Rightarrow> unit dbg" where
  "with_cxt transient m = ebind (get_option last_successful_cmd_option) (\<lambda>last_cmd.
     eseq (modify (\<lambda>s. s\<lparr> se_cxt := \<lparr> cx_transient = transient, cx_exit_break = False, cx_last_cmd = last_cmd,
       cx_current = r_thread_id (c_regs (se_cpu s)) \<rparr> \<rparr>)) (
     finally_do m (when_do (\<not> transient) (ebind (of_cxt cx_last_cmd) (set_option last_successful_cmd_option)))))"

definition getline :: "byte_t list dbg" where
  "getline = ebind (gets se_in) (\<lambda>ls.
     case ls of [] \<Rightarrow> eret []
     | l # rest \<Rightarrow> (eseq (modify (\<lambda>s. s\<lparr> se_in := rest \<rparr>)) (
       eret l)))"

primrec prompt_loop :: "nat \<Rightarrow> dbg_host \<Rightarrow> unit dbg" where
  "prompt_loop 0 D = throw OutOfFuel"
| "prompt_loop (Suc n) D = ebind (of_cxt cx_current) (\<lambda>t.
     eseq (out (green_font @ bold @ nat_text t @ ascii '' >>> '' @ reset_all)) (
     ebind getline (\<lambda>line.
     ebind (of_cxt cx_last_cmd) (\<lambda>last_cmd.
     ebind (of_cxt cx_exit_break) (\<lambda>exit_break.
     eseq (vm_assert (\<not> exit_break) ''Precondition on exit_break state before execute failed'') (
     eseq (execute_single_command D (if line = [] then last_cmd else line)) (
     ebind (of_cxt cx_exit_break) (\<lambda>finished.
     if finished then eret () else prompt_loop n D))))))))"

definition prompt :: "nat \<Rightarrow> dbg_host \<Rightarrow> unit dbg" where
  "prompt n D = eseq (on_cpu (suspend_all_threads (dh_wait_fuel D) (dh_sys_threads D) (dh_sleep D))) (
     ebind (of_dbg dg_first_break) (\<lambda>first.
     eseq (when_do first (eseq (set_dbg (\<lambda>d. d\<lparr> dg_first_break := False \<rparr>)) (
       out (green_font @ bold @ ascii (quoted ''?'') @ ascii '' for help'' @ [newline] @ reset_all)))) (
     eseq (with_cxt False (prompt_loop n D)) (
     on_cpu resume_all_threads))))"

section \<open>Symbol files of modules\<close>

definition symbol_path :: "byte_t list \<Rightarrow> byte_t list" where
  "symbol_path origin = (if ch CHR ''.'' \<in> set origin then rev (tl (dropWhile (\<lambda>c. c \<noteq> ch CHR ''.'') (rev origin))) else origin) @ ascii ''.sbl''"

text \<open>The exceptions of the C++ library that are not runtime errors.\<close>

definition logic_errors :: "string list" where
  "logic_errors = [''invalid stoi argument'', ''stoi argument out of range'', ''invalid stoul argument'', ''stoul argument out of range'', ''vector too long'']"

definition quoted_text :: "byte_t list \<Rightarrow> byte_t list" where "quoted_text t = [39] @ t @ [39]"

definition load_symbols :: "dbg_host \<Rightarrow> loaded_vm_module \<Rightarrow> unit dbg" where
  "load_symbols D loaded_mod = ebind (gets (\<lambda>s. map_of (h_modules (se_cpu s)) (lm_module loaded_mod))) (\<lambda>instance.
     eseq (vm_assert (instance \<noteq> None) ''Loaded module event should have valid module reference'') (
     let m = the instance in
     ebind (string_text (Some (lm_origin loaded_mod))) (\<lambda>origin.
     let path = symbol_path origin in
     case dh_symbol_file D path of None \<Rightarrow> eret ()
     | Some bytes \<Rightarrow> (case symbol_read bytes of
         Inl e \<Rightarrow> (case e of StdException msg \<Rightarrow> if msg \<in> set logic_errors then throw e
             else debug_print_error (ascii ''Assumed symbol file '' @ quoted_text path @ ascii '' has invalid symbol format. ('' @ ascii msg @ ascii '')'')
           | _ \<Rightarrow> throw e)
       | Inr f \<Rightarrow> (ebind (string_text (m_module_name m)) (\<lambda>name.
       if sh_module_name (sf_header f) \<noteq> name \<or> get_instruction_count f \<noteq> length (m_code_section m)
           then debug_print_error (ascii ''Symbol file '' @ quoted_text path @ ascii '' does not match loaded module '' @ quoted_text origin @ ascii ''.'')
           else (ebind (symbols_exist (lm_vm_id loaded_mod)) (\<lambda>found.
         eseq (vm_assert (\<not> found) ''Module VM ID should be unique'') (
         eseq (set_dbg (\<lambda>d. d\<lparr> dg_symbols := AList.update (lm_vm_id loaded_mod) (f, 0) (dg_symbols d) \<rparr>)) (
         debug_print_info (ascii ''Symbol file '' @ quoted_text path @ ascii '' loaded for '' @ quoted_text origin @ ascii ''.'')))))))))))"

section \<open>Events\<close>

definition break_on_enter :: word_t where "break_on_enter = 1"
definition break_on_module_load :: word_t where "break_on_module_load = 2"
definition break_on_exception :: word_t where "break_on_exception = 4"
definition disable_symbol_loading :: word_t where "disable_symbol_loading = 8"

definition options_text :: "word_t \<Rightarrow> byte_t list" where
  "options_text opt = (let yes = (\<lambda>f. ascii (if has_flag opt f then ''true'' else ''false'') @ [newline]) in
     ascii ''Break on enter: '' @ yes break_on_enter @ ascii ''Break on module load: '' @ yes break_on_module_load
     @ ascii ''Break on exception: '' @ yes break_on_exception)"

definition new_debugger :: "word_t \<Rightarrow> debugger" where
  "new_debugger opt = \<lparr> dg_options = opt, dg_tool_id = 0, dg_attached = False, dg_first_break = True, dg_breakpoints = [], dg_events = [],
     dg_symbols = [], dg_settings = [], dg_vm_debug = False \<rparr>"

definition event_string :: "context_value \<Rightarrow> byte_t list dbg" where
  "event_string v = (case v of StringValue p \<Rightarrow> (ebind (on_cpu (obj_at p)) (\<lambda>ob.
     case ob_data ob of StringObj s \<Rightarrow> string_text (Some s) | _ \<Rightarrow> throw (Undefined ''not a string'')))
   | _ \<Rightarrow> throw (Undefined ''not a string''))"

definition on_thread_begins :: "nat \<Rightarrow> unit dbg" where
  "on_thread_begins t = ebind (registers_of t) (\<lambda>r.
     ebind (module_of_ref (r_module_ref r)) (\<lambda>(_, md).
     ebind (string_text (m_module_name md)) (\<lambda>name.
     debug_print_info (ascii ''Thread '' @ nat_text t @ ascii '' started in '' @ name @ ascii '' @'' @ word_text (r_pc r)))))"

definition on_thread_ends :: "nat \<Rightarrow> unit dbg" where
  "on_thread_ends t = debug_print_info (ascii ''Thread '' @ nat_text t @ ascii '' ended.'')"

definition on_raised :: "nat \<Rightarrow> dbg_host \<Rightarrow> context_value \<Rightarrow> unit dbg" where
  "on_raised n D v = ebind (event_string v) (\<lambda>id.
     eseq (debug_print_info (ascii ''Exception '' @ quoted_text id @ ascii '' thrown.'')) (
     ebind (of_dbg dg_options) (\<lambda>opt.
     when_do (has_flag opt break_on_exception) (prompt n D))))"

definition on_unhandled :: "nat \<Rightarrow> dbg_host \<Rightarrow> context_value \<Rightarrow> unit dbg" where
  "on_unhandled n D v = ebind (event_string v) (\<lambda>id.
     eseq (debug_print_error (ascii ''Unhandled exception '' @ quoted_text id)) (
     prompt n D))"

definition on_vm_load :: "dbg_host \<Rightarrow> nat \<Rightarrow> unit dbg" where
  "on_vm_load D vm_id = ebind (gets (\<lambda>s. find (\<lambda>l. lm_vm_id l = vm_id) (w_modules (se_cpu s)))) (\<lambda>loaded.
     eseq (vm_assert (loaded \<noteq> None) ''loaded_mod != nullptr'') (
     load_symbols D (the loaded)))"

definition on_thread_load :: "nat \<Rightarrow> dbg_host \<Rightarrow> nat \<Rightarrow> unit dbg" where
  "on_thread_load n D m = ebind (on_cpu (module_at m)) (\<lambda>md.
     ebind (string_text (m_module_name md)) (\<lambda>name.
     eseq (debug_print_info (ascii ''Module '' @ name @ ascii '' loaded'' @ (if is_builtin md then ascii '' (built-in)'' else []))) (
     ebind (of_dbg dg_options) (\<lambda>opt.
     eseq (when_do (has_flag opt break_on_enter) (eseq (set_dbg (\<lambda>d. d\<lparr> dg_options := dg_options d XOR break_on_enter \<rparr>)) (
       ebind (on_cpu (set_breakpoint (Some m) (hd_entry_pc (m_header md)))) (\<lambda>cookie.
       set_dbg (\<lambda>d. d\<lparr> dg_breakpoints := List.insert cookie (dg_breakpoints d) \<rparr>))))) (
     when_do (has_flag opt break_on_module_load) (prompt n D))))))"

definition run_option :: "dbg_host \<Rightarrow> string \<Rightarrow> unit dbg" where
  "run_option D option = ebind (get_option (ascii option)) (\<lambda>cmd.
     when_do (cmd \<noteq> []) (with_cxt True (execute_single_command D cmd)))"

definition on_breakpoint_hit :: "nat \<Rightarrow> dbg_host \<Rightarrow> nat \<Rightarrow> unit dbg" where
  "on_breakpoint_hit n D cookie = eseq (debug_print_info (ascii ''Breakpoint hit'' @ (if cookie \<noteq> 0 then ascii '' ['' @ nat_text cookie @ ascii '']'' else []))) (
     eseq (run_option D ''bp-cmd'') (
     prompt n D))"

definition on_trap_hit :: "nat \<Rightarrow> dbg_host \<Rightarrow> unit dbg" where
  "on_trap_hit n D = eseq (run_option D ''step-cmd'') (
     prompt n D)"

definition debugger_event :: "nat \<Rightarrow> dbg_host \<Rightarrow> vm_event \<Rightarrow> event_context \<Rightarrow> unit dbg" where
  "debugger_event n D ev cxt = (case (ev, cxt) of
     (ThreadBegin, ThreadValue t, _) \<Rightarrow> on_thread_begins t
   | (ThreadEnd, ThreadValue t, _) \<Rightarrow> on_thread_ends t
   | (ExceptionRaised, _, v, _) \<Rightarrow> on_raised n D v
   | (ExceptionUnhandled, _, v, _) \<Rightarrow> on_unhandled n D v
   | (ModuleVmLoad, LoadedValue vm_id, _) \<Rightarrow> on_vm_load D vm_id
   | (ModuleThreadLoad, _, ModuleValue m, _) \<Rightarrow> on_thread_load n D m
   | (BreakpointHit, _, CookieValue cookie, _) \<Rightarrow> on_breakpoint_hit n D cookie
   | (TrapHit, _) \<Rightarrow> on_trap_hit n D
   | _ \<Rightarrow> eret ())"

definition debugger_events :: "vm_event list" where
  "debugger_events = [ThreadBegin, ThreadEnd, ExceptionRaised, ExceptionUnhandled, ModuleVmLoad, ModuleThreadLoad, BreakpointHit, TrapHit]"

definition on_load :: "nat \<Rightarrow> unit dbg" where
  "on_load tool_id = eseq (set_dbg (\<lambda>d. d\<lparr> dg_tool_id := tool_id, dg_attached := True \<rparr>)) (
     for_each (\<lambda>(c, evt). (ebind (on_cpu (subscribe_event evt (Some c))) (\<lambda>cookie.
       set_dbg (\<lambda>d. d\<lparr> dg_events := List.insert cookie (dg_events d) \<rparr>)))) (enumerate 0 debugger_events))"

definition on_unload :: "unit dbg" where
  "on_unload = ebind (of_dbg dg_attached) (\<lambda>attached.
     eseq (vm_assert attached ''controller != nullptr'') (
     ebind (of_dbg dg_events) (\<lambda>cookies.
     eseq (for_each (\<lambda>ec. on_cpu (unsubscribe_event ec)) cookies) (
     set_dbg (\<lambda>d. d\<lparr> dg_attached := False \<rparr>)))))"

end
