(* ===== verification/DebuggerSpec.thy ===== *)
theory DebuggerSpec
  imports Debugger ToolSpec
begin

text \<open>
  Every breakpoint the debugger remembers is one of the VM, whatever is typed at the prompt; the
  prompt leaves all threads suspended when it ends with an exception, and never ends once the
  console is empty; the window of a disassembly lies in the code; clearing all breakpoints
  restores the code.
\<close>

section \<open>Commands as computations\<close>

lemma keeps_on_cpu:
  assumes "\<And>c. I c \<Longrightarrow> I (snd (m c))" "\<And>s. J s \<longleftrightarrow> I (se_cpu s) \<and> K s" "\<And>s c. K (s\<lparr> se_cpu := c \<rparr>) = K s"
  shows "keeps J (on_cpu m)"
  using assms by (simp add: keeps_def on_cpu_def split: prod.split) (metis snd_conv)

lemma reads_on_cpu: "(\<And>c. keeps ((=) c) m) \<Longrightarrow> keeps J (on_cpu m)"
proof -
  assume m: "\<And>c. keeps ((=) c) m"
  have "snd (m c) = c" for c using m [of c] by (simp add: keeps_def)
  then show "keeps J (on_cpu m)" by (simp add: keeps_def on_cpu_def split: prod.split) (metis (no_types, lifting) session.surjective session.update_convs(1) snd_conv)
qed

lemma reads_load [keeps_intros]: "keeps ((=) c) (load n a)"
  by (simp add: keeps_def load_def split: option.split)

lemma keeps_machine_reads [keeps_intros]: "keeps ((=) c) (obj_at p)" "keeps ((=) c) (module_at m)" "keeps ((=) c) (frame_type f)"
  by (simp_all add: keeps_def obj_at_def module_at_def frame_type_def split: option.split)

lemma keeps_fields [keeps_intros]: "keeps ((=) c) (get32 a)" "keeps ((=) c) (pt_ref a)"
  unfolding get32_def pt_ref_def vt_load_def by (intro keeps_intros)+

lemma keeps_frames [keeps_intros]: "keeps ((=) c) (prev_pc f)" "keeps ((=) c) (prev_module_ref f)" "keeps ((=) c) (prev_frame f)"
  unfolding prev_pc_def prev_module_ref_def prev_frame_def by (intro keeps_intros)+

lemma keeps_walk [keeps_intros]: "keeps ((=) c) (walk_stack r)"
proof -
  have "keeps ((=) c) (walk_stack_fuel n f m pc)" for n f m pc
    by (induction n arbitrary: f m pc) (simp_all only: walk_stack_fuel.simps, (intro keeps_intros | assumption)+)
  then show ?thesis unfolding keeps_def walk_stack_def by (simp del: walk_stack_fuel.simps)
qed

lemma reads_payload [keeps_intros]:
  "(\<And>x. keeps I (sf x)) \<Longrightarrow> (\<And>x. keeps I (af x)) \<Longrightarrow> (\<And>x. keeps I (lf x)) \<Longrightarrow> (\<And>x y. keeps I (cf x y)) \<Longrightarrow>
   (\<And>x. keeps I (mf x)) \<Longrightarrow> (\<And>x. keeps I (ff x)) \<Longrightarrow> keeps I p \<Longrightarrow>
   keeps I (case d of Plain \<Rightarrow> p | StringObj x \<Rightarrow> sf x | ArrayObj x \<Rightarrow> af x | ListObj x \<Rightarrow> lf x
     | ChannelObj x y \<Rightarrow> cf x y | ModuleRefObj x \<Rightarrow> mf x | FdObj x \<Rightarrow> ff x)"
  by (cases d) simp_all

lemma reads_instruction [keeps_intros]:
  "(\<And>x. keeps I (ef x)) \<Longrightarrow> (\<And>x. keeps I (nf x)) \<Longrightarrow> keeps I (case i of Exec x \<Rightarrow> ef x | Native x \<Rightarrow> nf x)"
  by (cases i) simp_all

lemma keeps_sum [keeps_intros]:
  "(\<And>x. keeps I (f x)) \<Longrightarrow> (\<And>x. keeps I (g x)) \<Longrightarrow> keeps I (case v of Inl x \<Rightarrow> f x | Inr x \<Rightarrow> g x)"
  by (cases v) simp_all

lemma keeps_each [keeps_intros]:
  assumes "\<And>x. keeps I (f x)"
  shows "keeps I (map_each f xs)"
  by (induction xs) (simp_all only: map_each.simps, (intro keeps_intros assms | assumption)+)

lemma keeps_module_ref [keeps_intros]: "keeps ((=) c) (module_ref_at p)"
  unfolding module_ref_at_def by (intro keeps_intros)

lemma keeps_list_length [keeps_intros]: "keeps ((=) c) (list_get_length l)"
proof -
  have "keeps ((=) c) (list_length_fuel n p)" for n p
    by (induction n arbitrary: p) (simp_all only: list_length_fuel.simps, (intro keeps_intros | assumption)+)
  then have "keeps ((=) c) (ebind (list_length_fuel n p) (\<lambda>k. eret (of_nat (Suc k))))" for n p by (intro keeps_intros)
  then show ?thesis by (simp add: keeps_def list_get_length_def)
qed

lemma keeps_details [keeps_intros]: "keeps ((=) c) (get_breakpoint_details k)"
  unfolding get_breakpoint_details_def tools_def by (intro keeps_intros)

lemma keeps_parts [keeps_intros]: "keeps J (of_dbg f)" "keeps J (of_cxt g)" "keeps J (fail msg)" "keeps J (need nb msg)"
  "keeps J (parse_or_fail r msg)" "keeps J (string_text v)" "keeps J (registers_of t)" "keeps J current_register" "keeps J all_threads"
  "keeps J (symbols_exist k)" "keeps J (find_module k)" "keeps J (get_option b)" "keeps J (instruction_at md pc)"
  unfolding of_dbg_def of_cxt_def fail_def need_def parse_or_fail_def string_text_def registers_of_def current_register_def all_threads_def
    symbols_exist_def find_module_def get_option_def instruction_at_def of_cxt_def of_dbg_def
  by (intro keeps_intros)+

lemma keeps_and_then [keeps_intros]: "keeps J m \<Longrightarrow> (\<And>x. keeps J (k x)) \<Longrightarrow> keeps J (and_then m k)"
  unfolding and_then_def by (intro keeps_intros)

lemma keeps_done [keeps_intros]: "keeps J m \<Longrightarrow> keeps J (done_with m)"
  unfolding done_with_def by (intro keeps_intros)

lemma keeps_finally [keeps_intros]: "keeps J m \<Longrightarrow> keeps J f \<Longrightarrow> keeps J (finally_do m f)"
  unfolding finally_do_def by (intro keeps_intros)

lemma keeps_module_of_ref [keeps_intros]: "keeps J (module_of_ref p)"
  unfolding module_of_ref_def by (intro reads_on_cpu keeps_intros)

section \<open>Breakpoints of the debugger\<close>

definition cookies_live :: "nat list \<Rightarrow> cpu \<Rightarrow> bool" where
  "cookies_live cs c \<longleftrightarrow> breaks_inv c \<and> (\<forall>k \<in> set cs. map_of (tl_details (w_dispatch c)) k \<noteq> None)"

definition dbg_inv :: "session \<Rightarrow> bool" where
  "dbg_inv s \<longleftrightarrow> distinct (dg_breakpoints (se_dbg s)) \<and> cookies_live (dg_breakpoints (se_dbg s)) (se_cpu s)"

definition suspended_inv :: "bool \<Rightarrow> session \<Rightarrow> bool" where
  "suspended_inv b s \<longleftrightarrow> dbg_inv s \<and> tl_suspended (w_dispatch (se_cpu s)) = b"

lemma inv_modify:
  "(\<And>s. se_cpu (g s) = se_cpu s) \<Longrightarrow> (\<And>s. dg_breakpoints (se_dbg (g s)) = dg_breakpoints (se_dbg s)) \<Longrightarrow> keeps (suspended_inv b) (modify g)"
  by (rule keeps_modify) (simp add: suspended_inv_def dbg_inv_def)

lemma inv_parts [keeps_intros]: "keeps (suspended_inv b) (out bs)" "keeps (suspended_inv b) (set_cxt h)" "keeps (suspended_inv b) (set_option k v)"
  "keeps (suspended_inv b) (debug_print_info bs)" "keeps (suspended_inv b) (debug_print_error bs)" "keeps (suspended_inv b) getline"
  unfolding out_def set_cxt_def set_option_def set_dbg_def debug_print_info_def debug_print_error_def getline_def
  by (intro keeps_intros inv_modify; simp add: out_def inv_modify)+

lemma inv_settings [keeps_intros]: "(\<And>d. dg_breakpoints (g d) = dg_breakpoints d) \<Longrightarrow> keeps (suspended_inv b) (set_dbg g)"
  unfolding set_dbg_def by (intro inv_modify) simp_all

lemma inv_resolve [keeps_intros]: "keeps (suspended_inv b) (resolve_to_function_source_line D k i j fmt)" "keeps (suspended_inv b) (get_module_functions D k m)"
  unfolding resolve_to_function_source_line_def get_module_functions_def by (intro keeps_intros; simp)+

lemma inv_texts [keeps_intros]: "keeps (suspended_inv b) (frame_text D f)" "keeps (suspended_inv b) (stack_to_string D r)"
  "keeps (suspended_inv b) (registers_to_string r)" "keeps (suspended_inv b) (dbg_alloc_text p ob)" "keeps (suspended_inv b) (module_line l)"
proof -
  show f: "keeps (suspended_inv b) (frame_text D f)" for f
    unfolding frame_text_def by (intro keeps_intros)
  show "keeps (suspended_inv b) (stack_to_string D r)" unfolding stack_to_string_def by (intro keeps_intros reads_on_cpu f)
  show "keeps (suspended_inv b) (registers_to_string r)" "keeps (suspended_inv b) (dbg_alloc_text p ob)" "keeps (suspended_inv b) (module_line l)"
    unfolding registers_to_string_def dbg_alloc_text_def module_line_def by (intro keeps_intros)+
qed

lemma inv_alloc_text [keeps_intros]: "keeps (suspended_inv b) (alloc_text n p)"
  by (induction n arbitrary: p) (simp_all only: alloc_text.simps, (intro keeps_intros reads_on_cpu | assumption)+)

lemma inv_print_commands: "keeps (suspended_inv b) (cmd_continue D a)" "keeps (suspended_inv b) (cmd_term D a)" "keeps (suspended_inv b) (cmd_print_registers D a)"
  "keeps (suspended_inv b) (cmd_print_threads D a)" "keeps (suspended_inv b) (cmd_print_modules D a)" "keeps (suspended_inv b) (cmd_print_symbols D a)"
  unfolding cmd_continue_def cmd_term_def cmd_print_registers_def cmd_print_threads_def cmd_print_modules_def cmd_print_symbols_def
  by (intro keeps_intros)+

lemma inv_walk_commands: "keeps (suspended_inv b) (cmd_stackwalk D a)" "keeps (suspended_inv b) (cmd_switchthread D a)"
  "keeps (suspended_inv b) (cmd_breakpoint_list D a)"
proof -
  show "keeps (suspended_inv b) (cmd_stackwalk D a)" "keeps (suspended_inv b) (cmd_switchthread D a)"
    unfolding cmd_stackwalk_def cmd_switchthread_def Let_def by (intro keeps_intros)+
  have "keeps (suspended_inv b) (breakpoint_line D k)" for k
    unfolding breakpoint_line_def by (intro keeps_intros reads_on_cpu)
  then show "keeps (suspended_inv b) (cmd_breakpoint_list D a)" unfolding cmd_breakpoint_list_def by (intro keeps_intros)
qed

lemma inv_disassemble: "keeps (suspended_inv b) (cmd_disassemble D a)"
proof -
  have o: "keeps (suspended_inv b) (original_opcode cs m pc)" for cs m pc
    by (induction cs) (simp_all only: original_opcode.simps, (intro keeps_intros reads_on_cpu | assumption)+)
  have l: "keeps (suspended_inv b) (disassemble_line m md rp i pc)" for m md rp i pc
    unfolding disassemble_line_def Let_def by (intro keeps_intros o)
  show ?thesis unfolding cmd_disassemble_def by (intro keeps_intros l)
qed

lemma inv_examine: "keeps (suspended_inv b) (cmd_examine D a)"
proof -
  have f: "keeps (suspended_inv b) (field_at td base off)" for td base off
    unfolding field_at_def Let_def by (intro keeps_intros reads_on_cpu)
  have e: "keeps (suspended_inv b) (examine_base base r)" "keeps (suspended_inv b) (examined td k o1 o2)" "keeps (suspended_inv b) (parse_offsets a)" for base r td k o1 o2
    unfolding examine_base_def examined_def parse_offsets_def Let_def by (intro keeps_intros reads_on_cpu f)+
  have a: "keeps (suspended_inv b) (alloc_to_string p)" for p unfolding alloc_to_string_def by (intro keeps_intros)
  show ?thesis unfolding cmd_examine_def Let_def by (intro keeps_intros e a)
qed

lemma inv_option_commands: "keeps (suspended_inv b) (set_value_cmd D a)" "keeps (suspended_inv b) (cmd_help D a)" "keeps (suspended_inv b) (cmd_tlk_tilde_star D a)"
  unfolding set_value_cmd_def cmd_help_def cmd_tlk_tilde_star_def print_help_def Let_def by (intro keeps_intros; simp)+

lemma inv_cpu:
  assumes "\<And>c. breaks_inv c \<Longrightarrow> breaks_inv (snd (m c)) \<and> tl_details (w_dispatch (snd (m c))) = tl_details (w_dispatch c) \<and>
    tl_suspended (w_dispatch (snd (m c))) = tl_suspended (w_dispatch c)"
  shows "keeps (suspended_inv b) (on_cpu m)"
  using assms by (simp add: keeps_def on_cpu_def suspended_inv_def dbg_inv_def cookies_live_def split: prod.split) (metis snd_conv)

lemma breaks_inv_same:
  "w_dispatch w' = w_dispatch w \<Longrightarrow> h_modules w' = h_modules w \<Longrightarrow> breaks_inv w' = breaks_inv w"
  by (simp add: breaks_inv_def code_opcode_def)

lemma inv_step: "keeps (suspended_inv b) (cmd_step D a)"
proof -
  have "keeps (suspended_inv b) (on_cpu (set_thread_trap_flag t f))" for t f
  proof (rule inv_cpu)
    fix c :: cpu assume c: "breaks_inv c"
    have "w_dispatch (snd (set_thread_trap_flag t f c)) = w_dispatch c" "h_modules (snd (set_thread_trap_flag t f c)) = h_modules c"
      by (simp_all add: set_thread_trap_flag_def tools_def ebind_run eseq_def check_def reg_def set_reg_def)
    with c breaks_inv_same [OF this] show "breaks_inv (snd (set_thread_trap_flag t f c)) \<and>
        tl_details (w_dispatch (snd (set_thread_trap_flag t f c))) = tl_details (w_dispatch c) \<and>
        tl_suspended (w_dispatch (snd (set_thread_trap_flag t f c))) = tl_suspended (w_dispatch c)" by simp
  qed
  then show ?thesis unfolding cmd_step_def by (intro keeps_intros)
qed

section \<open>Setting and clearing\<close>

lemma set_breakpoint_live:
  assumes "breaks_inv c" "set_breakpoint module pc c = (r, c')"
  shows "breaks_inv c' \<and> tl_suspended (w_dispatch c') = tl_suspended (w_dispatch c) \<and>
    (\<forall>k. map_of (tl_details (w_dispatch c)) k \<noteq> None \<longrightarrow> map_of (tl_details (w_dispatch c')) k \<noteq> None)"
proof -
  have "tl_suspended (w_dispatch c') = tl_suspended (w_dispatch c) \<and>
    (\<forall>k. map_of (tl_details (w_dispatch c)) k \<noteq> None \<longrightarrow> map_of (tl_details (w_dispatch c')) k \<noteq> None)"
    using assms(2) by (rule set_breakpoint_cases) (simp_all add: set_opcode_dispatch update_conv')
  with breaks_inv_set [OF assms] show ?thesis by blast
qed

lemma keepsI: "(\<And>s r s'. I s \<Longrightarrow> m s = (r, s') \<Longrightarrow> I s') \<Longrightarrow> keeps I m"
  unfolding keeps_def by (metis prod.collapse)

lemma set_breakpoint_cookie:
  assumes "breaks_inv c" "set_breakpoint module pc c = (Inr k, c')"
  shows "map_of (tl_details (w_dispatch c')) k \<noteq> None"
  using assms(2)
proof (cases rule: set_breakpoint_cases)
  case (2 m k' op)
  with assms(1) show ?thesis unfolding breaks_inv_def by (metis Inr_inject option.distinct(1))
qed (simp_all add: set_opcode_dispatch update_conv')

lemma clear_breakpoint_live:
  assumes "breaks_inv c" "clear_breakpoint k c = (r, c')"
  shows "breaks_inv c' \<and> tl_suspended (w_dispatch c') = tl_suspended (w_dispatch c) \<and>
    (\<forall>j. j \<noteq> k \<longrightarrow> (map_of (tl_details (w_dispatch c')) j \<noteq> None) = (map_of (tl_details (w_dispatch c)) j \<noteq> None))"
proof (cases "map_of (tl_details (w_dispatch c)) k")
  case None
  with assms show ?thesis by (simp add: clear_breakpoint_unknown)
next
  case (Some bd)
  have "tl_suspended (w_dispatch c') = tl_suspended (w_dispatch c)"
    using assms(2) unfolding clear_breakpoint_run [OF assms(1) Some] by auto
  with breaks_inv_clear [OF assms] clear_breakpoint_tables(2) [OF assms(1) Some assms(2)] show ?thesis by simp
qed

lemma inv_remember: "keeps (suspended_inv b) (ebind (on_cpu (set_breakpoint m pc)) (\<lambda>cookie. set_dbg (\<lambda>d. d\<lparr> dg_breakpoints := List.insert cookie (dg_breakpoints d) \<rparr>)))"
proof (rule keepsI)
  fix s r s'
  assume s: "suspended_inv b s" and r: "ebind (on_cpu (set_breakpoint m pc)) (\<lambda>cookie. set_dbg (\<lambda>d. d\<lparr> dg_breakpoints := List.insert cookie (dg_breakpoints d) \<rparr>)) s = (r, s')"
  obtain q c where q: "set_breakpoint m pc (se_cpu s) = (q, c)" by (metis surj_pair)
  have i: "breaks_inv (se_cpu s)" using s by (simp add: suspended_inv_def dbg_inv_def cookies_live_def)
  note live = set_breakpoint_live [OF i q]
  show "suspended_inv b s'"
  proof (cases q)
    case (Inl e)
    with r q have "s' = s\<lparr> se_cpu := c \<rparr>" by (simp add: on_cpu_def ebind_run)
    with s live show ?thesis by (simp add: suspended_inv_def dbg_inv_def cookies_live_def)
  next
    case (Inr k)
    with r q have "s' = s\<lparr> se_cpu := c, se_dbg := (se_dbg s)\<lparr> dg_breakpoints := List.insert k (dg_breakpoints (se_dbg s)) \<rparr> \<rparr>"
      by (simp add: on_cpu_def ebind_run set_dbg_def)
    with s live set_breakpoint_cookie [OF i q [unfolded Inr]] show ?thesis
      by (simp add: suspended_inv_def dbg_inv_def cookies_live_def)
  qed
qed

lemma inv_breakpoint_set: "keeps (suspended_inv b) (cmd_breakpoint_set D a)"
  unfolding cmd_breakpoint_set_def by (intro keeps_intros reads_on_cpu inv_remember)

lemma inv_forget:
  assumes "k \<in> set (dg_breakpoints (se_dbg s))" "suspended_inv b s" "ebind (on_cpu (clear_breakpoint k)) (\<lambda>_. set_dbg (\<lambda>d. d\<lparr> dg_breakpoints := remove1 k (dg_breakpoints d) \<rparr>)) s = (r, s')"
  shows "r = Inr () \<and> suspended_inv b s' \<and> dg_breakpoints (se_dbg s') = remove1 k (dg_breakpoints (se_dbg s))"
proof -
  have i: "breaks_inv (se_cpu s)" "distinct (dg_breakpoints (se_dbg s))" using assms(2) by (simp_all add: suspended_inv_def dbg_inv_def cookies_live_def)
  obtain bd where bd: "map_of (tl_details (w_dispatch (se_cpu s))) k = Some bd"
    using assms(1,2) by (auto simp: suspended_inv_def dbg_inv_def cookies_live_def)
  obtain c where c: "clear_breakpoint k (se_cpu s) = (Inr (), c)" using clear_breakpoint_run [OF i(1) bd] by blast
  note live = clear_breakpoint_live [OF i(1) c]
  have "r = Inr ()" "s' = s\<lparr> se_cpu := c, se_dbg := (se_dbg s)\<lparr> dg_breakpoints := remove1 k (dg_breakpoints (se_dbg s)) \<rparr> \<rparr>"
    using assms(3) c by (simp_all add: on_cpu_def ebind_run set_dbg_def)
  with assms(2) live i(2) show ?thesis by (simp add: suspended_inv_def dbg_inv_def cookies_live_def)
qed

text \<open>Clearing all breakpoints of the debugger: the code at every place is the one the table of the
  VM remembers when its breakpoint is among the cleared ones.\<close>

definition entry_at :: "'z world_scheme \<Rightarrow> nat \<Rightarrow> word_t \<Rightarrow> (nat \<times> nat) option" where
  "entry_at w m pc = map_of (entries (tl_originals (w_dispatch w)) m) pc"

definition restored :: "nat list \<Rightarrow> 'z world_scheme \<Rightarrow> nat \<Rightarrow> word_t \<Rightarrow> nat option" where
  "restored ks w m pc = (case entry_at w m pc of Some (op, k) \<Rightarrow> if k \<in> set ks then Some op else code_opcode w m pc | None \<Rightarrow> code_opcode w m pc)"

lemma clear_one:
  assumes "breaks_inv c" "map_of (tl_details (w_dispatch c)) k \<noteq> None"
  obtains c' where "clear_breakpoint k c = (Inr (), c')" "breaks_inv c'" "tl_suspended (w_dispatch c') = tl_suspended (w_dispatch c)"
    "\<forall>j. map_of (tl_details (w_dispatch c')) j = (if j = k then None else map_of (tl_details (w_dispatch c)) j)"
    "\<forall>m pc. code_opcode c' m pc = restored [k] c m pc"
    "\<forall>m pc. entry_at c' m pc = (case entry_at c m pc of Some (op, j) \<Rightarrow> if j = k then None else Some (op, j) | None \<Rightarrow> None)"
proof -
  obtain bd where bd: "map_of (tl_details (w_dispatch c)) k = Some bd" using assms(2) by auto
  obtain c' where c': "clear_breakpoint k c = (Inr (), c')" using clear_breakpoint_run [OF assms(1) bd] by blast
  note t = clear_breakpoint_tables [OF assms(1) bd c']
  have e: "entry_at c m pc = Some (op, k) \<longleftrightarrow> m = bd_module bd \<and> pc = bd_pc bd \<and> op = bd_opcode bd" for m pc op
  proof -
    have "entry_at c m pc = Some (op, k) \<longleftrightarrow> map_of (tl_details (w_dispatch c)) k = Some \<lparr> bd_module = m, bd_pc = pc, bd_opcode = op \<rparr>"
      using assms(1) unfolding entry_at_def breaks_inv_def by blast
    with bd show ?thesis by (cases bd) auto
  qed
  have code: "code_opcode c' m pc = restored [k] c m pc" for m pc
  proof (cases "m = bd_module bd \<and> pc = bd_pc bd")
    case True
    then have "entry_at c m pc = Some (bd_opcode bd, k)" unfolding e by simp
    with True t(4) show ?thesis by (simp add: restored_def)
  next
    case False
    then have "entry_at c m pc \<noteq> Some (op, k)" for op unfolding e by blast
    with False t(4) show ?thesis by (auto simp: restored_def split: option.split)
  qed
  have entry: "entry_at c' m pc = (case entry_at c m pc of Some (op, j) \<Rightarrow> if j = k then None else Some (op, j) | None \<Rightarrow> None)" for m pc
  proof (cases "m = bd_module bd \<and> pc = bd_pc bd")
    case True
    then have "entry_at c m pc = Some (bd_opcode bd, k)" unfolding e by simp
    moreover have "entry_at c' m pc = None" using True t(3) by (simp add: entry_at_def)
    ultimately show ?thesis by simp
  next
    case False
    then have "entry_at c m pc \<noteq> Some (op, k)" for op unfolding e by blast
    moreover have "entry_at c' m pc = entry_at c m pc" using False t(3) by (auto simp: entry_at_def)
    ultimately show ?thesis by (auto split: option.split)
  qed
  show ?thesis
    using that [OF c' breaks_inv_clear [OF assms(1) c']] clear_breakpoint_live [OF assms(1) c'] t(2) code entry by simp
qed

lemma clear_each:
  assumes "distinct ks" "cookies_live ks c"
  shows "\<exists>c'. for_each clear_breakpoint ks c = (Inr (), c') \<and> breaks_inv c' \<and> tl_suspended (w_dispatch c') = tl_suspended (w_dispatch c) \<and>
    (\<forall>m pc. code_opcode c' m pc = restored ks c m pc)"
  using assms
proof (induction ks arbitrary: c)
  case Nil
  then show ?case by (auto simp: cookies_live_def restored_def split: option.split)
next
  case (Cons k ks)
  have live: "breaks_inv c" "map_of (tl_details (w_dispatch c)) k \<noteq> None" using Cons.prems(2) by (simp_all add: cookies_live_def)
  obtain c1 where c1: "clear_breakpoint k c = (Inr (), c1)" "breaks_inv c1" "tl_suspended (w_dispatch c1) = tl_suspended (w_dispatch c)"
    "\<forall>j. map_of (tl_details (w_dispatch c1)) j = (if j = k then None else map_of (tl_details (w_dispatch c)) j)"
    "\<forall>m pc. code_opcode c1 m pc = restored [k] c m pc"
    "\<forall>m pc. entry_at c1 m pc = (case entry_at c m pc of Some (op, j) \<Rightarrow> if j = k then None else Some (op, j) | None \<Rightarrow> None)"
    by (rule clear_one [OF live])
  have "cookies_live ks c1" using Cons.prems c1(2,4) by (auto simp: cookies_live_def)
  with Cons.IH [of c1] Cons.prems(1) obtain c' where c': "for_each clear_breakpoint ks c1 = (Inr (), c')" "breaks_inv c'"
    "tl_suspended (w_dispatch c') = tl_suspended (w_dispatch c1)" "\<forall>m pc. code_opcode c' m pc = restored ks c1 m pc" by auto
  have "restored ks c1 m pc = restored (k # ks) c m pc" for m pc
    using c1(5,6) by (cases "entry_at c m pc") (auto simp: restored_def)
  with c1 c' show ?case by (simp add: eseq_def ebind_run)
qed

lemma on_cpu_each: "for_each (\<lambda>k. on_cpu (f k)) ks s = (let (x, c) = for_each f ks (se_cpu s) in (x, s\<lparr> se_cpu := c \<rparr>))"
proof (induction ks arbitrary: s)
  case (Cons k ks)
  then show ?case by (auto simp: eseq_def ebind_def on_cpu_def Let_def split: prod.split sum.split)
qed simp

lemma clear_star_run:
  assumes "length a \<noteq> 1" "a ! 1 = ascii ''*''" "for_each clear_breakpoint (dg_breakpoints (se_dbg s)) (se_cpu s) = (Inr (), c)"
  shows "cmd_breakpoint_clear D a s = (Inr (Inr ()), s\<lparr> se_cpu := c, se_dbg := (se_dbg s)\<lparr> dg_breakpoints := [] \<rparr> \<rparr>)"
proof -
  have e: "for_each (\<lambda>k. on_cpu (clear_breakpoint k)) (dg_breakpoints (se_dbg s)) s = (Inr (), s\<lparr> se_cpu := c \<rparr>)"
    unfolding on_cpu_each assms(3) by simp
  have n: "need (length a \<noteq> 1) ''Must supply a breakpoint ID or wildcard'' s = (Inr (Inr ()), s)" using assms(1) by (simp add: need_def)
  have "done_with (ebind (of_dbg dg_breakpoints) (\<lambda>cookies. eseq (for_each (\<lambda>k. on_cpu (clear_breakpoint k)) cookies)
      (set_dbg (\<lambda>d. d\<lparr> dg_breakpoints := [] \<rparr>)))) s = (Inr (Inr ()), s\<lparr> se_cpu := c, se_dbg := (se_dbg s)\<lparr> dg_breakpoints := [] \<rparr> \<rparr>)"
    by (simp add: done_with_def of_dbg_def set_dbg_def ebind_run eseq_def e)
  then show ?thesis unfolding cmd_breakpoint_clear_def and_then_def ebind_def [of "need _ _"] n using assms(2) by simp
qed

text \<open>C19: clearing all breakpoints at the prompt succeeds and restores the code: every place that had a
  breakpoint of the debugger has its own instruction again and no other place changes.\<close>

theorem clear_all_restores:
  assumes "dbg_inv s"
  shows "\<exists>s'. cmd_breakpoint_clear D [cmd, ascii ''*''] s = (Inr (Inr ()), s') \<and> dg_breakpoints (se_dbg s') = [] \<and> dbg_inv s' \<and>
    (\<forall>m pc. code_opcode (se_cpu s') m pc = restored (dg_breakpoints (se_dbg s)) (se_cpu s) m pc)"
proof -
  from assms have "distinct (dg_breakpoints (se_dbg s))" "cookies_live (dg_breakpoints (se_dbg s)) (se_cpu s)" by (simp_all add: dbg_inv_def)
  from clear_each [OF this] obtain c where c: "for_each clear_breakpoint (dg_breakpoints (se_dbg s)) (se_cpu s) = (Inr (), c)" "breaks_inv c"
    "\<forall>m pc. code_opcode c m pc = restored (dg_breakpoints (se_dbg s)) (se_cpu s) m pc" by blast
  have "cmd_breakpoint_clear D [cmd, ascii ''*''] s = (Inr (Inr ()), s\<lparr> se_cpu := c, se_dbg := (se_dbg s)\<lparr> dg_breakpoints := [] \<rparr> \<rparr>)"
    using c(1) by (intro clear_star_run) simp_all
  with c(2,3) show ?thesis by (simp add: dbg_inv_def cookies_live_def)
qed

lemma clear_unknown_run:
  assumes "length a \<noteq> 1" "a ! 1 \<noteq> ascii ''*''" "stoul (a ! 1) = Inl e"
  shows "snd (cmd_breakpoint_clear D a s) = s"
proof -
  have n: "need (length a \<noteq> 1) ''Must supply a breakpoint ID or wildcard'' s = (Inr (Inr ()), s)" using assms(1) by (simp add: need_def)
  have p: "parse_or_fail (stoul (a ! 1)) ''Invalid breakpoint ID format'' s = (Inr (Inl ''Invalid breakpoint ID format''), s)"
    using assms(3) by (simp add: parse_or_fail_def fail_def)
  have z: "(if a ! 1 = ascii ''*'' then x else y) = y" for x y :: "unit cmd" using assms(2) by simp
  show ?thesis unfolding cmd_breakpoint_clear_def and_then_def z ebind_def [of "need _ _"] n prod.case sum.case
    unfolding ebind_def [of "parse_or_fail _ _"] p prod.case sum.case by (simp add: fail_def)
qed

lemma clear_id_run:
  assumes "length a \<noteq> 1" "a ! 1 \<noteq> ascii ''*''" "stoul (a ! 1) = Inr k"
  shows "cmd_breakpoint_clear D a s = (if unat k \<in> set (dg_breakpoints (se_dbg s))
    then done_with (eseq (on_cpu (clear_breakpoint (unat k))) (set_dbg (\<lambda>d. d\<lparr> dg_breakpoints := remove1 (unat k) (dg_breakpoints d) \<rparr>))) s
    else (Inr (Inl ''Unknown breakpoint ID''), s))"
proof -
  have n: "need (length a \<noteq> 1) ''Must supply a breakpoint ID or wildcard'' s = (Inr (Inr ()), s)" using assms(1) by (simp add: need_def)
  have p: "parse_or_fail (stoul (a ! 1)) ''Invalid breakpoint ID format'' s = (Inr (Inr k), s)"
    using assms(3) by (simp add: parse_or_fail_def)
  have u: "ebind (of_dbg dg_breakpoints) (\<lambda>cookies. need (unat k \<in> set cookies) ''Unknown breakpoint ID'') s =
      (Inr (if unat k \<in> set (dg_breakpoints (se_dbg s)) then Inr () else Inl ''Unknown breakpoint ID''), s)"
    by (simp add: ebind_run of_dbg_def need_def fail_def)
  have z: "(if a ! 1 = ascii ''*'' then x else y) = y" for x y :: "unit cmd" using assms(2) by simp
  show ?thesis unfolding cmd_breakpoint_clear_def and_then_def z ebind_def [of "need _ _"] n prod.case sum.case
    unfolding ebind_def [of "parse_or_fail _ _"] p prod.case sum.case
    unfolding ebind_def [of "ebind (of_dbg _) _"] u prod.case sum.case by (simp add: fail_def)
qed

lemma inv_breakpoint_clear: "keeps (suspended_inv b) (cmd_breakpoint_clear D a)"
proof (rule keepsI)
  fix s r s' assume s: "suspended_inv b s" and r: "cmd_breakpoint_clear D a s = (r, s')"
  have d: "distinct (dg_breakpoints (se_dbg s))" "cookies_live (dg_breakpoints (se_dbg s)) (se_cpu s)" using s by (simp_all add: suspended_inv_def dbg_inv_def)
  consider "length a = 1" | "length a \<noteq> 1" "a ! 1 = ascii ''*''" | "length a \<noteq> 1" "a ! 1 \<noteq> ascii ''*''" by blast
  then show "suspended_inv b s'"
  proof cases
    case 1
    with s r show ?thesis by (simp add: cmd_breakpoint_clear_def and_then_def need_def fail_def ebind_run)
  next
    case 2
    from clear_each [OF d] obtain c where c: "for_each clear_breakpoint (dg_breakpoints (se_dbg s)) (se_cpu s) = (Inr (), c)" "breaks_inv c"
      "tl_suspended (w_dispatch c) = tl_suspended (w_dispatch (se_cpu s))" by blast
    have "s' = s\<lparr> se_cpu := c, se_dbg := (se_dbg s)\<lparr> dg_breakpoints := [] \<rparr> \<rparr>"
      using r clear_star_run [OF 2 c(1)] by simp
    with c(2,3) s show ?thesis by (simp add: suspended_inv_def dbg_inv_def cookies_live_def)
  next
    case 3
    show ?thesis
    proof (cases "stoul (a ! 1)")
      case (Inl e)
      from clear_unknown_run [OF 3 this, of D s] s r show ?thesis by simp
    next
      case (Inr k)
      show ?thesis
      proof (cases "unat k \<in> set (dg_breakpoints (se_dbg s))")
        case False
        with clear_id_run [OF 3 Inr, of D s] s r show ?thesis by simp
      next
        case True
        let ?m = "ebind (on_cpu (clear_breakpoint (unat k))) (\<lambda>_. set_dbg (\<lambda>d. d\<lparr> dg_breakpoints := remove1 (unat k) (dg_breakpoints d) \<rparr>))"
        obtain q s1 where q: "?m s = (q, s1)" by (rule prod.exhaust)
        have "cmd_breakpoint_clear D a s = done_with ?m s"
          using clear_id_run [OF 3 Inr, of D s] True by (simp only: if_True eseq_def)
        moreover have "snd (done_with ?m s) = s1"
          unfolding done_with_def eseq_def ebind_def [of ?m] q by (simp split: sum.split)
        ultimately have "s' = s1" using r by (metis snd_conv)
        with inv_forget [OF True s q] show ?thesis by simp
      qed
    qed
  qed
qed

section \<open>The prompt\<close>

lemma command_functions_keep: "f \<in> set command_functions \<Longrightarrow> keeps (suspended_inv b) (f D a)"
  unfolding command_functions_def set_simps insert_iff empty_iff
  by (elim disjE FalseE; hypsubst; intro inv_print_commands inv_walk_commands inv_disassemble inv_examine inv_option_commands inv_step
    inv_breakpoint_set inv_breakpoint_clear)

lemma inv_run_command [keeps_intros]: "keeps (suspended_inv b) (run_command D a)"
proof -
  have f: "keeps (suspended_inv b) (f D a)" if "find_cmd c = Inr f" for c f
  proof -
    from that obtain e where "map_of cmds c = Some f" by (auto simp: find_cmd_def split: option.splits)
    then have "(c, f) \<in> set cmds" by (rule map_of_SomeD)
    then have "f \<in> set command_functions" unfolding cmds_def by (rule set_zip_rightD)
    then show ?thesis by (rule command_functions_keep)
  qed
  show ?thesis
  proof (cases "find_cmd (hd a)")
    case (Inl msg)
    then have "run_command D a = fail msg" by (simp add: run_command_def and_then_def)
    then show ?thesis by (simp add: keeps_parts)
  next
    case (Inr g)
    then have "run_command D a = g D a" by (simp add: run_command_def and_then_def)
    with f [OF Inr] show ?thesis by simp
  qed
qed

lemma inv_execute [keeps_intros]: "keeps (suspended_inv b) (execute_single_command D cmd)"
  unfolding execute_single_command_def Let_def by (intro keeps_intros)

lemma inv_with_cxt [keeps_intros]: "keeps (suspended_inv b) m \<Longrightarrow> keeps (suspended_inv b) (with_cxt t m)"
  unfolding with_cxt_def by (intro keeps_intros inv_modify; simp)

lemma inv_prompt_loop [keeps_intros]: "keeps (suspended_inv b) (prompt_loop n D)"
  by (induction n) (simp_all only: prompt_loop.simps, (intro keeps_intros | assumption)+)

text \<open>While a thread sleeps other threads run, but no thread takes a breakpoint away or resumes the
  machine: that only happens at the prompt of the thread that sleeps.\<close>

definition sleep_ok :: "dbg_host \<Rightarrow> bool" where
  "sleep_ok D \<longleftrightarrow> (\<forall>ks c. cookies_live ks c \<and> tl_suspended (w_dispatch c) \<longrightarrow>
     cookies_live ks (snd (dh_sleep D c)) \<and> tl_suspended (w_dispatch (snd (dh_sleep D c))))"

lemma wait_keeps:
  assumes "sleep_ok D"
  shows "keeps (\<lambda>c. cookies_live ks c \<and> tl_suspended (w_dispatch c)) (wait_suspended n k (dh_sleep D))"
proof (induction n)
  case (Suc n)
  have "keeps (\<lambda>c. cookies_live ks c \<and> tl_suspended (w_dispatch c)) (dh_sleep D)" using assms unfolding keeps_def sleep_ok_def by blast
  then show ?case unfolding wait_suspended.simps tools_def by (intro keeps_intros Suc.IH)
qed (simp add: keeps_def)

lemma suspend_live:
  assumes "sleep_ok D" "cookies_live ks c" "suspend_all_threads n k (dh_sleep D) c = (r, c')"
  shows "cookies_live ks c' \<and> tl_suspended (w_dispatch c')"
proof -
  let ?I = "\<lambda>c. cookies_live ks c \<and> tl_suspended (w_dispatch c)"
  let ?c = "c\<lparr> w_dispatch := (w_dispatch c)\<lparr> tl_suspended := True \<rparr> \<rparr>"
  let ?m = "eseq (vm_assert (k \<noteq> 0) ''sys_thread_count != 0'') (ebind (wait_suspended n k (dh_sleep D)) (\<lambda>suspended.
     vm_assert (suspended < k) ''suspended < sys_thread_count''))"
  have "keeps ?I ?m" by (intro keeps_intros wait_keeps assms(1))
  moreover have "?I ?c" using assms(2) by (simp add: cookies_live_def breaks_inv_def code_opcode_def)
  moreover have "?m ?c = (r, c')"
    using assms(3) unfolding suspend_all_threads_def eseq_def [of "set_tools _"] ebind_def [of "set_tools _"] set_tools_def by simp
  ultimately show ?thesis unfolding keeps_def by (metis snd_conv)
qed

lemma suspend_inv:
  assumes "sleep_ok D" "dbg_inv s" "on_cpu (suspend_all_threads n k (dh_sleep D)) s = (r, s')"
  shows "suspended_inv True s'"
proof -
  obtain q c where q: "suspend_all_threads n k (dh_sleep D) (se_cpu s) = (q, c)" by (rule prod.exhaust)
  have "cookies_live (dg_breakpoints (se_dbg s)) c \<and> tl_suspended (w_dispatch c)"
    using assms(2) by (intro suspend_live [OF assms(1) _ q]) (simp add: dbg_inv_def)
  moreover have "s' = s\<lparr> se_cpu := c \<rparr>" using assms(3) q by (simp add: on_cpu_def)
  ultimately show ?thesis using assms(2) by (simp add: suspended_inv_def dbg_inv_def)
qed

lemma prompt_inv:
  assumes "sleep_ok D" "dbg_inv s" "prompt n D s = (r, s')"
  shows "suspended_inv (case r of Inl _ \<Rightarrow> True | Inr _ \<Rightarrow> False) s'"
proof -
  let ?first = "\<lambda>first. when_do first (eseq (set_dbg (\<lambda>d. d\<lparr> dg_first_break := False \<rparr>)) (
       out (green_font @ bold @ ascii (quoted ''?'') @ ascii '' for help'' @ [newline] @ reset_all)))"
  let ?body = "ebind (of_dbg dg_first_break) (\<lambda>first. eseq (?first first) (with_cxt False (prompt_loop n D)))"
  obtain q1 s1 where q1: "on_cpu (suspend_all_threads (dh_wait_fuel D) (dh_sys_threads D) (dh_sleep D)) s = (q1, s1)" by (rule prod.exhaust)
  have s1: "suspended_inv True s1" by (rule suspend_inv [OF assms(1,2) q1])
  have body: "keeps (suspended_inv True) ?body" by (intro keeps_intros; simp)
  obtain q2 s2 where q2: "?body s1 = (q2, s2)" by (rule prod.exhaust)
  have s2: "suspended_inv True s2" using body s1 q2 unfolding keeps_def by (metis snd_conv)
  have split: "prompt n D s = (case q1 of Inl e \<Rightarrow> (Inl e, s1) | Inr _ \<Rightarrow> (case q2 of Inl e \<Rightarrow> (Inl e, s2) | Inr _ \<Rightarrow> on_cpu resume_all_threads s2))"
    using q2 unfolding prompt_def eseq_def ebind_run q1
    by (cases q1) (auto simp: ebind_run split: prod.splits sum.splits)
  show ?thesis
  proof (cases q1)
    case (Inl e)
    with split s1 assms(3) show ?thesis by simp
  next
    case (Inr u)
    show ?thesis
    proof (cases q2)
      case (Inl e)
      with Inr split s2 assms(3) show ?thesis by simp
    next
      case (Inr v)
      with \<open>q1 = Inr u\<close> split assms(3) have "on_cpu resume_all_threads s2 = (r, s')" by simp
      then have "r = Inr ()" "s' = s2\<lparr> se_cpu := (se_cpu s2)\<lparr> w_dispatch := (w_dispatch (se_cpu s2))\<lparr> tl_suspended := False \<rparr> \<rparr> \<rparr>"
        by (simp_all add: on_cpu_def resume_all_threads_def set_tools_def)
      with s2 show ?thesis by (simp add: suspended_inv_def dbg_inv_def cookies_live_def breaks_inv_def code_opcode_def)
    qed
  qed
qed

lemma keeps_dbg_inv: "(\<And>b. keeps (suspended_inv b) m) \<Longrightarrow> keeps dbg_inv m"
  unfolding keeps_def suspended_inv_def by blast

lemma prompt_keeps:
  assumes "sleep_ok D"
  shows "keeps dbg_inv (prompt n D)"
proof (rule keepsI)
  fix s r s' assume "dbg_inv s" "prompt n D s = (r, s')"
  from prompt_inv [OF assms this] show "dbg_inv s'" by (simp add: suspended_inv_def)
qed

lemma symbols_keep: "keeps dbg_inv (load_symbols D l)"
  unfolding load_symbols_def Let_def
  by (rule keeps_dbg_inv) (intro keeps_intros; (simp; fail)?; simp split: vm_exn.split; intro conjI allI impI keeps_intros)

lemma event_keeps:
  assumes "sleep_ok D"
  shows "keeps dbg_inv (debugger_event n D ev cxt)"
proof -
  note p = prompt_keeps [OF assms]
  have e: "keeps J (event_string v)" for J v
    unfolding event_string_def by (cases v) (simp_all, (intro keeps_intros reads_on_cpu)+)
  have d: "keeps dbg_inv (debug_print_info bs)" "keeps dbg_inv (debug_print_error bs)" for bs
    by (intro keeps_dbg_inv keeps_intros)+
  have o: "keeps dbg_inv (run_option D opt)" for opt
    unfolding run_option_def by (intro keeps_dbg_inv keeps_intros)
  have opt: "keeps dbg_inv (set_dbg (\<lambda>d. d\<lparr> dg_options := f d \<rparr>))" for f by (rule keeps_dbg_inv) (intro keeps_intros; simp)
  have b: "keeps dbg_inv (ebind (on_cpu (set_breakpoint m pc)) (\<lambda>cookie. set_dbg (\<lambda>d. d\<lparr> dg_breakpoints := List.insert cookie (dg_breakpoints d) \<rparr>)))" for m pc
    by (rule keeps_dbg_inv) (rule inv_remember)
  have 1: "keeps dbg_inv (on_thread_begins t)" for t unfolding on_thread_begins_def by (intro keeps_intros d)
  have 2: "keeps dbg_inv (on_thread_ends t)" for t unfolding on_thread_ends_def by (intro keeps_intros d)
  have 3: "keeps dbg_inv (on_raised n D v)" for v unfolding on_raised_def by (intro keeps_intros d e p)
  have 4: "keeps dbg_inv (on_unhandled n D v)" for v unfolding on_unhandled_def by (intro keeps_intros d e p)
  have 5: "keeps dbg_inv (on_vm_load D k)" for k unfolding on_vm_load_def by (intro keeps_intros symbols_keep)
  have 6: "keeps dbg_inv (on_thread_load n D m)" for m unfolding on_thread_load_def by (intro b reads_on_cpu keeps_intros d p opt)
  have 7: "keeps dbg_inv (on_breakpoint_hit n D k)" for k unfolding on_breakpoint_hit_def by (intro keeps_intros d o p)
  have 8: "keeps dbg_inv (on_trap_hit n D)" unfolding on_trap_hit_def by (intro keeps_intros o p)
  obtain a v w where "cxt = (a, v, w)" by (rule prod_cases3)
  then show ?thesis unfolding debugger_event_def
    by (cases ev; cases a; cases v) (simp_all add: 1 2 3 4 5 6 7 8 keeps_intros)
qed

section \<open>Disassembly\<close>

lemma resolve_loop_length: "resolve_loop n k f fmt b e p acc = Inr (ls, pc) \<Longrightarrow> length ls = length acc"
proof (induction n arbitrary: p acc)
  case (Suc n)
  show ?case
  proof (cases "e < p")
    case True
    with Suc.prems show ?thesis by simp
  next
    case False
    then obtain t moved q where r: "(if moved then resolve_loop n k f fmt b e q (acc[nat (p - b) := t]) else Inr (acc[nat (p - b) := t], p)) = Inr (ls, pc)"
      using Suc.prems unfolding resolve_loop.simps Let_def by (simp only: if_False rbind_eq_Inr split_paired_Ex prod.case) blast
    show ?thesis
    proof (cases moved)
      case True
      with r Suc.IH show ?thesis by fastforce
    next
      case False
      with r show ?thesis by auto
    qed
  qed
qed simp

text \<open>the window of a disassembly lies in the code, whatever pc and count are typed, and holds
  the pc that was asked for; the names resolved for it, if any, are one for each pc.\<close>

theorem disassembly_window:
  assumes "disassemble_range code_size begin_pc len = Inr (Inr (b, e))"
  shows "0 \<le> b \<and> b \<le> begin_pc \<and> begin_pc \<le> e \<and> e < code_size \<and> e - b \<le> abs len \<and>
    (\<forall>k f fmt ls pc. resolve_lines k f fmt b e = Inr (ls, pc) \<longrightarrow> int (length ls) = e - b + 1)"
proof -
  have w: "0 \<le> b \<and> b \<le> begin_pc \<and> begin_pc \<le> e \<and> e < code_size \<and> e - b \<le> abs len"
    using assms by (auto simp: disassemble_range_def swrap_def rbind_eq_Inr require_eq_Inr split: if_splits)
  have "int (length ls) = e - b + 1" if "resolve_lines k f fmt b e = Inr (ls, pc)" for k f fmt ls pc
    using that w by (auto simp: resolve_lines_def rbind_eq_Inr simp del: resolve_loop.simps split: if_splits dest!: resolve_loop_length)
  with w show ?thesis by blast
qed

lemma name_only: "func_string k e tt fmt_name = Inr (fn_name e)"
  by (simp add: func_string_def fmt_name_def fmt_arguments_def fmt_return_type_def has_flag_def)

lemma statement_steps: "p < length (sf_pcs f) \<Longrightarrow> p < next_statement f p \<and> next_statement f p \<le> length (sf_pcs f)"
proof -
  assume p: "p < length (sf_pcs f)"
  let ?l = "takeWhile (\<lambda>e. pi_debug_statement e = pi_debug_statement (sf_pcs f ! p)) (drop p (sf_pcs f))"
  have "drop p (sf_pcs f) = sf_pcs f ! p # drop (Suc p) (sf_pcs f)" using p by (simp add: Cons_nth_drop_Suc)
  then have "0 < length ?l" by simp
  moreover have "length ?l \<le> length (drop p (sf_pcs f))" by (rule length_takeWhile_le)
  ultimately show ?thesis using p by (simp add: next_statement_def)
qed

lemma resolve_loop_ends:
  assumes "0 \<le> p" "p < int (length (sf_pcs f))" "length (sf_pcs f) < n + nat p"
  shows "resolve_loop n k f fmt_name b e p acc \<noteq> Inl OutOfFuel"
  using assms
proof (induction n arbitrary: p acc)
  case 0
  then show ?case by simp
next
  case (Suc n)
  note pos = Suc.prems(1,2)
  have t: "try_advance_pc f NextDebugStatement True p = (if next_statement f (nat p) = length (sf_pcs f) then Inr (False, p) else Inr (True, int (next_statement f (nat p))))"
    using pos by (simp add: try_advance_pc_def require_def Let_def)
  have step: "nat p < next_statement f (nat p)" "next_statement f (nat p) \<le> length (sf_pcs f)"
    using pos statement_steps [of "nat p" f] by auto
  have IH: "resolve_loop n k f fmt_name b e (int (next_statement f (nat p))) acc' \<noteq> Inl OutOfFuel" if "next_statement f (nat p) \<noteq> length (sf_pcs f)" for acc'
    using step that Suc.prems by (intro Suc.IH) auto
  have name: "current_function_name k f p fmt_name \<noteq> Inl OutOfFuel"
    by (simp add: current_function_name_def name_only split: option.split)
  show ?case
    using IH name pos by (cases "current_function_name k f p fmt_name") (simp_all add: t rbind_def current_source_location_def get_source_by_id_def require_def Let_def)
qed

text \<open>resolving the names and lines of a window of pcs ends.\<close>

theorem resolve_lines_ends: "resolve_lines k f fmt_name b e \<noteq> Inl OutOfFuel"
proof (cases "0 \<le> b \<and> b < int (length (sf_pcs f))")
  case True
  then have "resolve_loop (Suc (length (sf_pcs f))) k f fmt_name b e b acc \<noteq> Inl OutOfFuel" for acc
    by (intro resolve_loop_ends) simp_all
  with True show ?thesis by (simp add: resolve_lines_def set_current_pc_def require_def rbind_def del: resolve_loop.simps)
next
  case False
  then show ?thesis by (auto simp: resolve_lines_def set_current_pc_def require_def rbind_def)
qed

section \<open>End of the console\<close>

lemma empty_line: "split_at_any (ascii '' '') [] = []"
  by (simp add: split_at_any_def c_string_def)

text \<open>C31: once the console has nothing left to read and no command is remembered, the prompt
  repeats itself for ever.\<close>

theorem prompt_never_ends:
  assumes "se_in s = []" "cx_last_cmd (se_cxt s) = []" "\<not> cx_exit_break (se_cxt s)"
  shows "fst (prompt_loop n D s) = Inl OutOfFuel"
  using assms
proof (induction n arbitrary: s)
  case (Suc n)
  define s1 where "s1 = s\<lparr> se_out := se_out s @ green_font @ bold @ nat_text (cx_current (se_cxt s)) @ ascii '' >>> '' @ reset_all \<rparr>"
  have "prompt_loop (Suc n) D s = prompt_loop n D s1"
    using Suc.prems by (simp add: s1_def of_cxt_def out_def getline_def ebind_run eseq_def vm_assert_def execute_single_command_def empty_line
      del: ebind_assoc)
  moreover have "fst (prompt_loop n D s1) = Inl OutOfFuel" using Suc.prems by (intro Suc.IH) (simp_all add: s1_def)
  ultimately show ?case by simp
qed simp

section \<open>Events\<close>

text \<open>C18: whatever event the debugger handles and whatever is typed at the prompts it opens, with
  whatever outcome: every breakpoint the debugger remembers is one of the VM, and is remembered once.\<close>

theorem debugger_breakpoints_live:
  assumes "sleep_ok D" "dbg_inv s" "debugger_event n D ev cxt s = (r, s')"
  shows "dbg_inv s'"
  using event_keeps [OF assms(1), of n ev cxt] assms(2,3) unfolding keeps_def by (metis snd_conv)

text \<open>C30: the prompt lets the threads run again exactly when it ends normally; an exception that
  leaves it, as the command to terminate does, leaves all threads suspended.\<close>

theorem prompt_suspension:
  assumes "sleep_ok D" "dbg_inv s" "prompt n D s = (r, s')"
  shows "tl_suspended (w_dispatch (se_cpu s')) = (case r of Inl _ \<Rightarrow> True | Inr _ \<Rightarrow> False)"
  using prompt_inv [OF assms] by (simp add: suspended_inv_def)

section \<open>A session\<close>

definition probe_host :: dbg_host where
  "probe_host = \<lparr> dh_sys_threads = 1, dh_sleep = eret (), dh_wait_fuel = 1, dh_type_fuel = 3, dh_symbol_file = (\<lambda>_. None) \<rparr>"

definition halted_session :: "byte_t list list \<Rightarrow> session" where
  "halted_session ls = \<lparr> se_cpu = halted_cpu, se_dbg = (new_debugger 0)\<lparr> dg_first_break := False, dg_breakpoints := [1] \<rparr>,
     se_cxt = \<lparr> cx_transient = False, cx_exit_break = False, cx_last_cmd = [], cx_current = 0 \<rparr>, se_out = [], se_in = ls \<rparr>"

lemma probe_sleep: "sleep_ok probe_host" by (simp add: sleep_ok_def probe_host_def)

lemma halted_inv: "dbg_inv (halted_session ls)"
proof -
  have "cookies_live [1] halted_cpu"
    using set_breakpoint_live [OF traced_inv traced_set] set_breakpoint_cookie [OF traced_inv traced_set] by (simp add: cookies_live_def)
  then show ?thesis by (simp add: dbg_inv_def halted_session_def)
qed

lemma halted_tools: "tl_suspended_count (w_dispatch halted_cpu) = 0"
  unfolding halted_run set_opcode_dispatch [of 0 1 brkpt_opcode] by (simp add: set_opcode_dispatch no_tools_def)

theorem clear_all_restores_witness:
  "\<exists>s'. cmd_breakpoint_clear probe_host [ascii ''bc'', ascii ''*''] (halted_session []) = (Inr (Inr ()), s') \<and> dg_breakpoints (se_dbg s') = [] \<and> dbg_inv s' \<and>
    (\<forall>m pc. code_opcode (se_cpu s') m pc = restored (dg_breakpoints (se_dbg (halted_session []))) (se_cpu (halted_session [])) m pc)"
  by (rule clear_all_restores [OF halted_inv])

theorem debugger_breakpoints_live_witness:
  "dbg_inv (snd (debugger_event 5 probe_host BreakpointHit (NoValue, CookieValue 1, NoValue) (halted_session [ascii ''bc 1'', ascii ''c''])))"
  by (rule debugger_breakpoints_live [OF probe_sleep halted_inv]) (rule prod.collapse [symmetric])

theorem disassembly_window_witness: "(0::int) \<le> 1 \<and> (1::int) \<le> 3 \<and> (3::int) \<le> 3 \<and> (3::int) < 10 \<and> 3 - 1 \<le> abs (- 2 :: int) \<and>
    (\<forall>k f fmt ls pc. resolve_lines k f fmt 1 3 = Inr (ls, pc) \<longrightarrow> int (length ls) = 3 - 1 + 1)"
proof -
  have "disassemble_range 10 3 (- 2) = Inr (Inr (1, 3))" by (simp add: disassemble_range_def swrap_def in_word_def)
  from disassembly_window [OF this] show ?thesis .
qed

theorem prompt_never_ends_witness: "fst (prompt_loop 7 probe_host (halted_session [])) = Inl OutOfFuel"
  by (rule prompt_never_ends) (simp_all add: halted_session_def)

lemma term_typed: "se_in s = [ascii ''term''] \<Longrightarrow> \<not> cx_exit_break (se_cxt s) \<Longrightarrow> \<exists>s'. prompt_loop (Suc n) D s = (Inl (TermRequest ''VM termination requested''), s')"
proof -
  assume p: "se_in s = [ascii ''term'']" "\<not> cx_exit_break (se_cxt s)"
  have t: "split_at_any (ascii '' '') (ascii ''term'') = [ascii ''term'']" by code_simp
  have f: "find_cmd (ascii ''term'') = Inr cmd_term"
    by (simp add: find_cmd_def cmds_def command_texts_def command_functions_def ascii_def)
  have e: "execute_single_command D (ascii ''term'') s = (Inl (TermRequest ''VM termination requested''), s)" for s
    unfolding execute_single_command_def t by (simp add: run_command_def f and_then_def cmd_term_def)
  have n: "ascii ''term'' \<noteq> []" by (simp add: ascii_def)
  from p show ?thesis
    by (simp add: of_cxt_def out_def getline_def ebind_run eseq_def vm_assert_def e n del: ebind_assoc)
qed

lemma with_cxt_fails:
  assumes "\<And>s. se_in s = ls \<Longrightarrow> \<not> cx_exit_break (se_cxt s) \<Longrightarrow> \<exists>s'. m s = (Inl e, s')" "se_in s = ls"
  shows "\<exists>s'. with_cxt False m s = (Inl e, s')"
proof -
  obtain l where l: "get_option last_successful_cmd_option s = (Inr l, s)" by (simp add: get_option_def of_dbg_def)
  let ?s = "s\<lparr> se_cxt := \<lparr> cx_transient = False, cx_exit_break = False, cx_last_cmd = l, cx_current = r_thread_id (c_regs (se_cpu s)) \<rparr> \<rparr>"
  have "\<exists>s'. m ?s = (Inl e, s')" by (rule assms(1)) (simp_all add: assms(2))
  then obtain s' where m: "m ?s = (Inl e, s')" by blast
  have "\<exists>s''. finally_do m (when_do (\<not> False) (ebind (of_cxt cx_last_cmd) (set_option last_successful_cmd_option))) ?s = (Inl e, s'')"
    unfolding finally_do_def by (simp add: ebind_run eseq_def catch_def m of_cxt_def when_do_def set_option_def set_dbg_def)
  then show ?thesis unfolding with_cxt_def by (simp add: ebind_run l eseq_def del: ebind_assoc)
qed

lemma prompt_term: "\<exists>s'. prompt 2 probe_host (halted_session [ascii ''term'']) = (Inl (TermRequest ''VM termination requested''), s')"
proof -
  let ?s = "halted_session [ascii ''term'']"
  have g: "suspend_all_threads 1 1 (eret ()) halted_cpu = (Inr (), halted_cpu\<lparr> w_dispatch := (w_dispatch halted_cpu)\<lparr> tl_suspended := True \<rparr> \<rparr>)"
    using halted_tools by (simp add: suspend_all_threads_def set_tools_def tools_def ebind_run eseq_def vm_assert_def)
  obtain c where c: "on_cpu (suspend_all_threads (dh_wait_fuel probe_host) (dh_sys_threads probe_host) (dh_sleep probe_host)) ?s = (Inr (), ?s\<lparr> se_cpu := c \<rparr>)"
    using g by (simp add: on_cpu_def probe_host_def halted_session_def)
  have "\<exists>s'. with_cxt False (prompt_loop 2 probe_host) (?s\<lparr> se_cpu := c \<rparr>) = (Inl (TermRequest ''VM termination requested''), s')"
    unfolding numeral_2_eq_2 by (rule with_cxt_fails, rule term_typed) (simp_all add: halted_session_def)
  then obtain s' where w: "with_cxt False (prompt_loop 2 probe_host) (?s\<lparr> se_cpu := c \<rparr>) = (Inl (TermRequest ''VM termination requested''), s')" by blast
  have "of_dbg dg_first_break (?s\<lparr> se_cpu := c \<rparr>) = (Inr False, ?s\<lparr> se_cpu := c \<rparr>)" by (simp add: of_dbg_def halted_session_def)
  then show ?thesis unfolding prompt_def eseq_def
    by (simp add: ebind_run c w when_do_def del: ebind_assoc)
qed

theorem prompt_suspension_witness:
  "\<exists>s'. prompt 2 probe_host (halted_session [ascii ''term'']) = (Inl (TermRequest ''VM termination requested''), s') \<and> tl_suspended (w_dispatch (se_cpu s'))"
proof -
  obtain s' where s': "prompt 2 probe_host (halted_session [ascii ''term'']) = (Inl (TermRequest ''VM termination requested''), s')" using prompt_term by blast
  from prompt_suspension [OF probe_sleep halted_inv s'] s' show ?thesis by simp
qed

end
