(* ===== verification/Md5.thy ===== *)
theory Md5
  imports Buffers
begin

text \<open>
  The message digest that signs types (\<^verbatim>\<open>src/src/asm/rfc1321/md5c.c\<close>, \<^verbatim>\<open>md5.h\<close>), with an
  \<^verbatim>\<open>unsigned long\<close> of 32 bits: a context holds the state, the number of bits as two words and the
  bytes of the block that is not complete yet. The macros that name the registers of a step in
  turn are one step on a rotating quadruple, read off a table. Lengths are natural numbers; an
  input has less than $2^{32}$ bytes.
\<close>

section \<open>Steps\<close>

definition md5_F :: "word_t \<Rightarrow> word_t \<Rightarrow> word_t \<Rightarrow> word_t" where "md5_F x y z = (x AND y) OR (NOT x AND z)"
definition md5_G :: "word_t \<Rightarrow> word_t \<Rightarrow> word_t \<Rightarrow> word_t" where "md5_G x y z = (x AND z) OR (y AND NOT z)"
definition md5_H :: "word_t \<Rightarrow> word_t \<Rightarrow> word_t \<Rightarrow> word_t" where "md5_H x y z = (x XOR y) XOR z"
definition md5_I :: "word_t \<Rightarrow> word_t \<Rightarrow> word_t \<Rightarrow> word_t" where "md5_I x y z = y XOR (x OR NOT z)"

definition rotate_left :: "word_t \<Rightarrow> nat \<Rightarrow> word_t" where
  "rotate_left x n = push_bit n x OR drop_bit (32 - n) x"

type_synonym quadruple = "word_t \<times> word_t \<times> word_t \<times> word_t"

definition md5_step :: "(word_t \<Rightarrow> word_t \<Rightarrow> word_t \<Rightarrow> word_t) \<Rightarrow> word_t list \<Rightarrow> quadruple \<Rightarrow> nat \<times> nat \<times> word_t \<Rightarrow> quadruple" where
  "md5_step f x q e = (case (q, e) of ((a, b, c, d), (k, s, ac)) \<Rightarrow>
     (d, rotate_left (a + (f b c d + x ! k + ac)) s + b, b, c))"

definition round1 :: "(nat \<times> nat \<times> word_t) list" where
  "round1 = [(0, 7, 0xd76aa478), (1, 12, 0xe8c7b756), (2, 17, 0x242070db), (3, 22, 0xc1bdceee),
     (4, 7, 0xf57c0faf), (5, 12, 0x4787c62a), (6, 17, 0xa8304613), (7, 22, 0xfd469501),
     (8, 7, 0x698098d8), (9, 12, 0x8b44f7af), (10, 17, 0xffff5bb1), (11, 22, 0x895cd7be),
     (12, 7, 0x6b901122), (13, 12, 0xfd987193), (14, 17, 0xa679438e), (15, 22, 0x49b40821)]"

definition round2 :: "(nat \<times> nat \<times> word_t) list" where
  "round2 = [(1, 5, 0xf61e2562), (6, 9, 0xc040b340), (11, 14, 0x265e5a51), (0, 20, 0xe9b6c7aa),
     (5, 5, 0xd62f105d), (10, 9, 0x2441453), (15, 14, 0xd8a1e681), (4, 20, 0xe7d3fbc8),
     (9, 5, 0x21e1cde6), (14, 9, 0xc33707d6), (3, 14, 0xf4d50d87), (8, 20, 0x455a14ed),
     (13, 5, 0xa9e3e905), (2, 9, 0xfcefa3f8), (7, 14, 0x676f02d9), (12, 20, 0x8d2a4c8a)]"

definition round3 :: "(nat \<times> nat \<times> word_t) list" where
  "round3 = [(5, 4, 0xfffa3942), (8, 11, 0x8771f681), (11, 16, 0x6d9d6122), (14, 23, 0xfde5380c),
     (1, 4, 0xa4beea44), (4, 11, 0x4bdecfa9), (7, 16, 0xf6bb4b60), (10, 23, 0xbebfbc70),
     (13, 4, 0x289b7ec6), (0, 11, 0xeaa127fa), (3, 16, 0xd4ef3085), (6, 23, 0x4881d05),
     (9, 4, 0xd9d4d039), (12, 11, 0xe6db99e5), (15, 16, 0x1fa27cf8), (2, 23, 0xc4ac5665)]"

definition round4 :: "(nat \<times> nat \<times> word_t) list" where
  "round4 = [(0, 6, 0xf4292244), (7, 10, 0x432aff97), (14, 15, 0xab9423a7), (5, 21, 0xfc93a039),
     (12, 6, 0x655b59c3), (3, 10, 0x8f0ccc92), (10, 15, 0xffeff47d), (1, 21, 0x85845dd1),
     (8, 6, 0x6fa87e4f), (15, 10, 0xfe2ce6e0), (6, 15, 0xa3014314), (13, 21, 0x4e0811a1),
     (4, 6, 0xf7537e82), (11, 10, 0xbd3af235), (2, 15, 0x2ad7d2bb), (9, 21, 0xeb86d391)]"

section \<open>Blocks\<close>

fun md5_decode :: "byte_t list \<Rightarrow> word_t list" where
  "md5_decode (b0 # b1 # b2 # b3 # bs) =
     (((ucast b0 OR push_bit 8 (ucast b1)) OR push_bit 16 (ucast b2)) OR push_bit 24 (ucast b3)) # md5_decode bs"
| "md5_decode bs = []"

definition md5_encode :: "word_t list \<Rightarrow> byte_t list" where
  "md5_encode ws = concat (map (\<lambda>w. [ucast (w AND 0xff), ucast (drop_bit 8 w AND 0xff), ucast (drop_bit 16 w AND 0xff),
     ucast (drop_bit 24 w AND 0xff)]) ws)"

definition md5_transform :: "quadruple \<Rightarrow> byte_t list \<Rightarrow> quadruple" where
  "md5_transform st block = (
     let x = md5_decode block;
         q1 = foldl (md5_step md5_F x) st round1;
         q2 = foldl (md5_step md5_G x) q1 round2;
         q3 = foldl (md5_step md5_H x) q2 round3;
         q4 = foldl (md5_step md5_I x) q3 round4
     in case (st, q4) of ((a0, b0, c0, d0), (a, b, c, d)) \<Rightarrow> (a0 + a, b0 + b, c0 + c, d0 + d))"

function md5_blocks :: "quadruple \<Rightarrow> byte_t list \<Rightarrow> quadruple \<times> byte_t list" where
  "md5_blocks st bs = (if length bs < 64 then (st, bs) else md5_blocks (md5_transform st (take 64 bs)) (drop 64 bs))"
  by pat_completeness auto
termination by (relation "measure (\<lambda>(st, bs). length bs)") auto
declare md5_blocks.simps [simp del]

section \<open>Contexts\<close>

record md5_ctx =
  md_state :: quadruple
  md_count0 :: word_t
  md_count1 :: word_t
  md_buffer :: "byte_t list"

definition md5_init :: "byte_t list \<Rightarrow> md5_ctx" where
  "md5_init garbage = \<lparr> md_state = (0x67452301, 0xefcdab89, 0x98badcfe, 0x10325476), md_count0 = 0, md_count1 = 0, md_buffer = garbage \<rparr>"

definition put_buffer :: "nat \<Rightarrow> byte_t list \<Rightarrow> byte_t list \<Rightarrow> byte_t list" where
  "put_buffer i bs buf = take i buf @ bs @ drop (i + length bs) buf"

definition buffered :: "md5_ctx \<Rightarrow> nat" where
  "buffered ctx = unat (drop_bit 3 (md_count0 ctx) AND 0x3F)"

definition md5_update :: "byte_t list \<Rightarrow> md5_ctx \<Rightarrow> md5_ctx" where
  "md5_update bs ctx = (
     let index = buffered ctx; len = (of_nat (length bs) :: word_t);
         count0 = md_count0 ctx + push_bit 3 len;
         count1 = (if count0 < push_bit 3 len then md_count1 ctx + 1 else md_count1 ctx) + drop_bit 29 len;
         part_len = 64 - index
     in if part_len \<le> length bs then
          (let block = put_buffer index (take part_len bs) (md_buffer ctx);
               (st, rest) = md5_blocks (md5_transform (md_state ctx) block) (drop part_len bs)
           in \<lparr> md_state = st, md_count0 = count0, md_count1 = count1, md_buffer = put_buffer 0 rest block \<rparr>)
        else ctx\<lparr> md_count0 := count0, md_count1 := count1, md_buffer := put_buffer index bs (md_buffer ctx) \<rparr>)"

definition md5_padding :: "byte_t list" where "md5_padding = 0x80 # replicate 63 0"

definition words_of :: "quadruple \<Rightarrow> word_t list" where "words_of q = (case q of (a, b, c, d) \<Rightarrow> [a, b, c, d])"

definition md5_final :: "md5_ctx \<Rightarrow> byte_t list" where
  "md5_final ctx = (
     let bits = md5_encode [md_count0 ctx, md_count1 ctx]; index = buffered ctx;
         pad_len = (if index < 56 then 56 - index else 120 - index)
     in md5_encode (words_of (md_state (md5_update bits (md5_update (take pad_len md5_padding) ctx)))))"

end
