(* ===== verification/TypeSignature.thy ===== *)
theory TypeSignature
  imports Md5 SymbolReader ExecString
begin

text \<open>
  The signatures of Limbo types (\<^verbatim>\<open>src/src/asm/type_signature.cpp\<close>,
  \<^verbatim>\<open>src/src/include/vm_asm_sigkind.hpp\<close>): a stream of characters to which types write themselves, and
  its digest. An insertion into a stream is a computation on it; the objects that types are
  written to are streams. A stream fails, and takes no more characters, once an empty stream was
  inserted. The buffer of a digest is not initialised: its bytes are a parameter. The format
  \<^verbatim>\<open>%g\<close> of a number is a parameter too.
\<close>

section \<open>Streams\<close>

record sig_stream =
  ss_text :: "byte_t list"
  ss_failed :: bool

type_synonym insertion = "(sig_stream, unit) eff"

definition empty_stream :: sig_stream where "empty_stream = \<lparr> ss_text = [], ss_failed = False \<rparr>"

definition write_text :: "byte_t list \<Rightarrow> insertion" where
  "write_text bs = modify (\<lambda>s. if ss_failed s then s else s\<lparr> ss_text := ss_text s @ bs \<rparr>)"

definition put_char :: "char \<Rightarrow> insertion" where "put_char c = write_text [ch c]"
definition put_text :: "byte_t list \<Rightarrow> insertion" where "put_text bs = write_text (c_string bs)"
definition put_number :: "word_t \<Rightarrow> insertion" where "put_number i = write_text (c_decimal (uint i))"

definition put_stream :: "sig_stream \<Rightarrow> insertion" where
  "put_stream other = (if ss_text other = [] then modify (\<lambda>s. s\<lparr> ss_failed := True \<rparr>) else write_text (ss_text other))"

definition sig_delim :: char where "sig_delim = CHR '',''"

definition built :: "insertion \<Rightarrow> sig_stream res" where
  "built m = (case m empty_stream of (Inl e, _) \<Rightarrow> Inl e | (Inr _, s) \<Rightarrow> Inr s)"

section \<open>Signatures\<close>

definition compute_sig :: "byte_t list \<Rightarrow> byte_t list \<Rightarrow> word_t" where
  "compute_sig garbage s = foldl (\<lambda>sig w. sig XOR w) 0 (md5_decode (md5_final (md5_update s (md5_init garbage))))"

definition compute_signature_hash :: "byte_t list \<Rightarrow> byte_t list \<Rightarrow> word_t" where
  "compute_signature_hash garbage sig = compute_sig garbage (c_string sig)"

definition get_signature :: "sig_stream \<Rightarrow> byte_t list" where "get_signature s = ss_text s"

definition get_signature_hash :: "byte_t list \<Rightarrow> sig_stream \<Rightarrow> word_t" where
  "get_signature_hash garbage s = compute_sig garbage (get_signature s)"

section \<open>Kinds of types\<close>

datatype modifier_id = SelfModifier | CycleModifier

definition put_modifier :: "modifier_id \<Rightarrow> insertion" where
  "put_modifier m = put_char (case m of SelfModifier \<Rightarrow> CHR ''S'' | CycleModifier \<Rightarrow> CHR ''y'')"

datatype type_id = TUnknown | TNone | TByte | TInteger | TReal | TBig | TString | TPoly | TFixed | TArray | TRef | TList | TChannel
  | TAdt | TAdtPickTag | TTuple | TModule | TFunction | TFunctionVarargs

definition type_id_text :: "type_id \<Rightarrow> string" where
  "type_id_text t = (case t of TUnknown \<Rightarrow> [] | TNone \<Rightarrow> ''n'' | TByte \<Rightarrow> ''b'' | TInteger \<Rightarrow> ''i'' | TReal \<Rightarrow> ''r'' | TBig \<Rightarrow> ''B'' | TString \<Rightarrow> ''s''
     | TPoly \<Rightarrow> ''P'' | TFixed \<Rightarrow> ''x'' | TArray \<Rightarrow> ''A'' | TRef \<Rightarrow> ''R'' | TList \<Rightarrow> ''L'' | TChannel \<Rightarrow> ''C'' | TAdt \<Rightarrow> ''a'' | TAdtPickTag \<Rightarrow> ''p''
     | TTuple \<Rightarrow> ''t'' | TModule \<Rightarrow> ''m'' | TFunction \<Rightarrow> ''f'' | TFunctionVarargs \<Rightarrow> ''f*'')"

definition put_type_id :: "type_id \<Rightarrow> insertion" where
  "put_type_id t = eseq (vm_assert (t \<noteq> TUnknown) ''id != type_id_t::unknown'') (
     put_text (ascii (type_id_text t)))"

definition put_fixed :: "(big_t \<Rightarrow> byte_t list) \<Rightarrow> big_t \<Rightarrow> insertion" where
  "put_fixed g scale = eseq (put_type_id TFixed) (
     put_text (g scale))"

section \<open>Types made of types\<close>

definition create_aggregate :: "type_id \<Rightarrow> insertion \<Rightarrow> sig_stream res" where
  "create_aggregate t inner = built (eseq (put_type_id t) (
     inner))"

definition put_type_ref :: "word_t \<Rightarrow> insertion" where
  "put_type_ref num = eseq (put_type_id TRef) (
     put_number num)"

definition create_member :: "byte_t list \<Rightarrow> insertion \<Rightarrow> sig_stream res" where
  "create_member name type = built (eseq (put_text name) (
     eseq (put_char CHR '':'') (
     type)))"

fun nested_type :: "insertion list \<Rightarrow> insertion" where
  "nested_type [] = eret ()"
| "nested_type [t] = t"
| "nested_type (t1 # t2 # ts) = eseq t1 (
     eseq (put_char sig_delim) (
     nested_type (t2 # ts)))"

definition begin_char :: "type_id \<Rightarrow> char" where "begin_char t = (if t = TModule then CHR ''{'' else CHR ''('')"
definition end_char :: "type_id \<Rightarrow> char" where "end_char t = (if t = TModule then CHR ''}'' else CHR '')'')"

definition create_nested :: "type_id \<Rightarrow> insertion list \<Rightarrow> sig_stream res" where
  "create_nested t ts = built (eseq (put_type_id t) (
     eseq (put_char (begin_char t)) (
     eseq (nested_type ts) (
     put_char (end_char t)))))"

definition create_pick_tag :: "byte_t list \<Rightarrow> word_t \<Rightarrow> sig_stream list \<Rightarrow> sig_stream res" where
  "create_pick_tag pick_tag adt_ref tms = built (eseq (put_text pick_tag) (
     eseq (put_text (ascii ''=>'')) (
     eseq (put_type_id TAdtPickTag) (
     eseq (put_char (begin_char TAdtPickTag)) (
     eseq (nested_type (map put_stream tms)) (
     eseq (put_char (end_char TAdtPickTag)) (
     eseq (put_type_id TRef) (
     put_number adt_ref))))))))"

definition create_adt_of_pick :: "sig_stream \<Rightarrow> sig_stream res" where
  "create_adt_of_pick p = built (eseq (put_type_id TAdt) (
     eseq (put_char (begin_char TAdt)) (
     eseq (put_char sig_delim) (
     eseq (put_stream p) (
     put_char (end_char TAdt))))))"

definition create_adt_of_picks :: "sig_stream \<Rightarrow> insertion \<Rightarrow> insertion list \<Rightarrow> sig_stream res" where
  "create_adt_of_picks p t ts = built (eseq (put_type_id TAdt) (
     eseq (put_char (begin_char TAdt)) (
     eseq (put_char sig_delim) (
     eseq (put_stream p) (
     eseq (put_char sig_delim) (
     eseq (nested_type (t # ts)) (
     put_char (end_char TAdt))))))))"

section \<open>Functions\<close>

record sig_function =
  fu_fully_defined :: bool
  fu_stream :: sig_stream

definition run_on :: "insertion \<Rightarrow> sig_stream \<Rightarrow> sig_stream res" where
  "run_on m s = (case m s of (Inl e, _) \<Rightarrow> Inl e | (Inr _, s') \<Rightarrow> Inr s')"

definition create_function :: "type_id \<Rightarrow> insertion list \<Rightarrow> sig_function res" where
  "create_function t args = rbind (built (eseq (put_type_id t) (
     eseq (put_char (begin_char t)) (
     eseq (nested_type args) (
     put_char (end_char t)))))) (\<lambda>s.
     Inr \<lparr> fu_fully_defined = False, fu_stream = s \<rparr>)"

definition returns :: "sig_function \<Rightarrow> insertion \<Rightarrow> sig_function res" where
  "returns f r = require (\<not> fu_fully_defined f) (AssertFailed ''Function type already complete'') (rbind (run_on r (fu_stream f)) (\<lambda>s.
     Inr \<lparr> fu_fully_defined = True, fu_stream = s \<rparr>))"

definition put_function :: "sig_function \<Rightarrow> (sig_stream, sig_function) eff" where
  "put_function f = ebind (if fu_fully_defined f then eret f else lift_res (returns f (put_type_id TNone))) (\<lambda>f'.
     eseq (put_stream (fu_stream f')) (
     eret f'))"

definition put_const_function :: "sig_function \<Rightarrow> insertion" where
  "put_const_function f = eseq (vm_assert (fu_fully_defined f) ''Incomplete function'') (
     put_stream (fu_stream f))"

end
