(* ===== verification/Launcher.thy ===== *)
theory Launcher
  imports Debugger TypeSignature
begin

text \<open>
  The command line program (\<^verbatim>\<open>src/src/exec/main.cpp\<close>) and the switches of the log
  (\<^verbatim>\<open>src/src/vm/debug.cpp\<close>, \<^verbatim>\<open>debug.hpp\<close>): the arguments, the texts it prints, and the entry module,
  made in memory, that loads the command module and calls its first function with the arguments
  as a list. An argument has no zero byte. The machine is built by the parameter \<open>lh_build\<close>
  (\<open>VmCore.create_vm\<close> with the collector of the configuration, and \<open>VmCore.vm_load_tool\<close> for the
  debugger); the formatted text of a log message is the argument of the callback.
\<close>

section \<open>The log\<close>

datatype component_trace = TraceBuiltin | TraceModule | TraceThread | TraceStack | TraceChannel | TraceException | TraceTool | TraceMemory
  | TraceAddressing | TraceScheduler | TraceCollector | TraceDuration

datatype log_level = LogWarning | LogDebug

type_synonym log_fun = "component_trace \<Rightarrow> log_level \<Rightarrow> byte_t list \<Rightarrow> byte_t list res"

record logger =
  lg_callback :: "log_fun option"
  lg_enabled :: "component_trace \<Rightarrow> bool"

definition new_logger :: logger where "new_logger = \<lparr> lg_callback = None, lg_enabled = (\<lambda>_. False) \<rparr>"

definition set_logging_callback :: "log_fun option \<Rightarrow> logger \<Rightarrow> log_fun option \<times> logger" where
  "set_logging_callback cb lg = (lg_callback lg, lg\<lparr> lg_callback := cb \<rparr>)"

definition set_component_tracing :: "component_trace \<Rightarrow> bool \<Rightarrow> logger \<Rightarrow> logger" where
  "set_component_tracing c is_enabled lg = lg\<lparr> lg_enabled := (lg_enabled lg)(c := is_enabled) \<rparr>"

definition is_component_tracing_enabled :: "component_trace \<Rightarrow> logger \<Rightarrow> bool" where
  "is_component_tracing_enabled c lg = lg_enabled lg c"

definition log_msg :: "logger \<Rightarrow> log_fun" where
  "log_msg lg origin level msg = (case lg_callback lg of None \<Rightarrow> Inr []
     | Some callback \<Rightarrow> if \<not> is_component_tracing_enabled origin lg then Inr [] else callback origin level msg)"

definition log_buffer_size :: nat where "log_buffer_size = 1024"

definition log_callback :: log_fun where
  "log_callback origin level msg = (
     let prefix = ascii (case level of LogWarning \<Rightarrow> ''w: '' | LogDebug \<Rightarrow> ''d: ''); r = length msg in
     require (r < log_buffer_size) (Undefined ''buffer[r]'') (
     Inr (prefix @ c_string msg @ [newline] @ (if r = log_buffer_size - 1 then ascii '' <Possible truncation>'' @ [newline] else []))))"

section \<open>Options\<close>

record exec_options =
  eo_vm_args :: "byte_t list list"
  eo_sys_threads :: nat
  eo_no_op_gc :: bool
  eo_print_help :: bool
  eo_quiet_start :: bool
  eo_enabled_debugger :: bool
  eo_debugger :: word_t

definition default_options :: exec_options where
  "default_options = \<lparr> eo_vm_args = [], eo_sys_threads = cf_sys_thread_pool_size default_config, eo_no_op_gc = False, eo_print_help = False,
     eo_quiet_start = False, eo_enabled_debugger = False, eo_debugger = 0 \<rparr>"

record launch =
  la_options :: exec_options
  la_log :: logger
  la_rest :: "byte_t list list"

type_synonym arg_error = "string \<times> byte_t list option"

definition debugger_flag :: "byte_t \<Rightarrow> word_t \<Rightarrow> word_t" where
  "debugger_flag c opt = (if c = ch CHR ''e'' then opt OR break_on_enter else if c = ch CHR ''m'' then opt OR break_on_module_load
     else if c = ch CHR ''x'' then opt OR break_on_exception else opt)"

definition log_flag :: "byte_t \<Rightarrow> logger \<Rightarrow> logger" where
  "log_flag c lg = (if c = ch CHR ''s'' then set_component_tracing TraceScheduler True lg
     else if c = ch CHR ''S'' then set_component_tracing TraceStack True lg
     else if c = ch CHR ''t'' then set_component_tracing TraceThread True lg
     else if c = ch CHR ''T'' then set_component_tracing TraceTool True lg
     else if c = ch CHR ''e'' then set_component_tracing TraceException True lg
     else if c = ch CHR ''g'' then set_component_tracing TraceCollector True lg
     else if c = ch CHR ''m'' then set_component_tracing TraceMemory True lg
     else if c = ch CHR ''d'' then set_component_tracing TraceDuration True lg
     else lg)"

definition is_flag :: "byte_t list \<Rightarrow> bool" where "is_flag arg \<longleftrightarrow> arg \<noteq> [] \<and> (hd arg = ch CHR ''-'' \<or> hd arg = ch CHR ''/'')"

definition set_threads :: "launch \<Rightarrow> arg_error + launch" where
  "set_threads s = (case la_rest s of [] \<Rightarrow> Inl (''System thread requires count'', None)
     | t # rest \<Rightarrow> (let n = c_strtol 32 t in
         if n \<le> 0 \<or> 4 < n then Inl (''Invalid system thread value'', Some t)
         else Inr (s\<lparr> la_options := (la_options s)\<lparr> eo_sys_threads := nat n \<rparr>, la_rest := rest \<rparr>)))"

definition process_arg :: "byte_t list \<Rightarrow> launch \<Rightarrow> arg_error + launch" where
  "process_arg arg s = (let opt = la_options s in
     if \<not> is_flag arg then Inr (s\<lparr> la_options := opt\<lparr> eo_vm_args := eo_vm_args opt @ arg # la_rest s \<rparr>, la_rest := [] \<rparr>)
     else if length arg < 2 then Inl (''Invalid flag format'', Some arg)
     else if arg ! 1 = ch CHR ''d'' then
       Inr (s\<lparr> la_options := opt\<lparr> eo_enabled_debugger := True, eo_debugger := fold debugger_flag (drop 2 arg) (eo_debugger opt) \<rparr> \<rparr>)
     else if arg ! 1 = ch CHR ''g'' then
       (if length arg \<le> 2 \<or> arg ! 2 \<noteq> ch CHR ''D'' then Inl (''Invalid garbage collector option'', None)
        else Inr (s\<lparr> la_options := opt\<lparr> eo_no_op_gc := True \<rparr> \<rparr>))
     else if arg ! 1 = ch CHR ''t'' then set_threads s
     else if arg ! 1 = ch CHR ''l'' then
       Inr (s\<lparr> la_log := fold log_flag (drop 2 arg) (snd (set_logging_callback (Some log_callback) (la_log s))) \<rparr>)
     else if arg ! 1 = ch CHR ''q'' then Inr (s\<lparr> la_options := opt\<lparr> eo_quiet_start := True \<rparr> \<rparr>)
     else if arg ! 1 = ch CHR ''h'' \<or> arg ! 1 = ch CHR ''?'' then Inr (s\<lparr> la_options := opt\<lparr> eo_print_help := True \<rparr> \<rparr>)
     else Inl (''Unknown flag'', Some arg))"

lemma process_arg_rest: "process_arg arg s = Inr s' \<Longrightarrow> length (la_rest s') \<le> length (la_rest s)"
  by (auto simp: process_arg_def set_threads_def Let_def split: if_splits list.splits)

function process_args :: "launch \<Rightarrow> arg_error + launch" where
  "process_args s = (case la_rest s of [] \<Rightarrow> Inr s
     | arg # rest \<Rightarrow> (case process_arg arg (s\<lparr> la_rest := rest \<rparr>) of Inl e \<Rightarrow> Inl e | Inr s' \<Rightarrow> process_args s'))"
  by pat_completeness auto
termination by (relation "measure (\<lambda>s. length (la_rest s))") (auto dest: process_arg_rest)
declare process_args.simps [simp del]

section \<open>Texts\<close>

definition version_text :: "byte_t list" where "version_text = ascii ''DisVM 1.0.0-beta''"

definition print_banner :: "exec_options \<Rightarrow> byte_t list" where
  "print_banner opt = version_text
     @ [newline] @ ascii ''----------------'' @ [newline]
     @ ascii ''Debugger enabled: '' @ ascii (if eo_enabled_debugger opt then ''true'' else ''false'') @ [newline]
     @ ascii ''System thread usage: '' @ nat_text (eo_sys_threads opt) @ [newline]
     @ (if eo_enabled_debugger opt then [newline] @ options_text (eo_debugger opt) @ [newline] else [])
     @ [newline]"

definition help_lines :: "string list" where
  "help_lines = [
     ''Usage: disvm-exec [-d[e|m|x]*] [-l[s|S|t|T|e|g|m]*] [-gD] [-t <num>] [-q] [-h] <entry module> <args>*'',
     ''    d - Enable debugger'',
     ''         e - Break on entry'',
     ''         m - Break on module load'',
     ''         x - Break on exception (first chance)'',
     ''    g - Garbage collector options'',
     ''         D - Disable'',
     ''    l - Enable logging in a component'',
     ''         s - Scheduler'',
     ''         S - Stack'',
     ''         t - Threads'',
     ''         T - Tool extensions'',
     ''         e - Exceptions'',
     ''         d - Duration of actions'',
     ''         g - Garbage collector (noisy)'',
     ''         m - Memory allocations (noisy)'',
     ''    q - Suppress banner and configuration'',
     ''    t - Specify the number of system threads to use (0 < x <= 4)'',
     ''    h - Print this help (alternative: '' @ quoted ''?'' @ '')'']"

definition print_usage :: "byte_t list" where "print_usage = concat (map (\<lambda>l. ascii l @ [newline]) help_lines)"

section \<open>The entry module\<close>

definition middle_code :: "middle_mode \<Rightarrow> byte_t" where
  "middle_code m = (case m of MidNone \<Rightarrow> 0 | MidSmallImmediate \<Rightarrow> 1 | MidSmallFp \<Rightarrow> 2 | MidSmallMp \<Rightarrow> 3)"

definition mode_code :: "addr_mode \<Rightarrow> byte_t" where
  "mode_code m = (case m of IndirectMp \<Rightarrow> 0 | IndirectFp \<Rightarrow> 1 | Immediate \<Rightarrow> 2 | NoOperand \<Rightarrow> 3 | DoubleMp \<Rightarrow> 4 | DoubleFp \<Rightarrow> 5
     | Reserved1 \<Rightarrow> 6 | Reserved2 \<Rightarrow> 7)"

definition construct_address_code :: "addr_mode \<Rightarrow> middle_mode \<Rightarrow> addr_mode \<Rightarrow> byte_t" where
  "construct_address_code src mid dest = (push_bit 6 (middle_code mid) OR push_bit 3 (mode_code src)) OR mode_code dest"

definition limbo_temp_register_count :: nat where "limbo_temp_register_count = 3"

definition limbo_first_arg_register_offset :: nat where
  "limbo_first_arg_register_offset = (default_register_count + limbo_temp_register_count) * 4"

definition entry_frame_size :: nat where "entry_frame_size = sizeof_frame_base + 12"
definition entry_frame_pointer_map :: "byte_t list" where "entry_frame_pointer_map = [0x04]"

definition entry_op :: "string \<Rightarrow> operand \<Rightarrow> middle_data \<Rightarrow> operand \<Rightarrow> exec_op" where
  "entry_op name src mid dest = \<lparr> in_opcode = opcode_of name,
     in_addr_code = construct_address_code (op_mode src) (mid_mode mid) (op_mode dest), in_source = src, in_middle = mid, in_destination = dest \<rparr>"

definition at_mp :: "word_t \<Rightarrow> operand" where "at_mp i = \<lparr> op_mode = IndirectMp, op_register1 = i, op_register2 = 0 \<rparr>"
definition at_fp :: "word_t \<Rightarrow> operand" where "at_fp i = \<lparr> op_mode = IndirectFp, op_register1 = i, op_register2 = 0 \<rparr>"
definition at_fp2 :: "word_t \<Rightarrow> word_t \<Rightarrow> operand" where "at_fp2 i j = \<lparr> op_mode = DoubleFp, op_register1 = i, op_register2 = j \<rparr>"
definition no_operand :: operand where "no_operand = \<lparr> op_mode = NoOperand, op_register1 = 0, op_register2 = 0 \<rparr>"
definition small_imm :: "word_t \<Rightarrow> middle_data" where "small_imm i = \<lparr> mid_mode = MidSmallImmediate, mid_register1 = i \<rparr>"
definition no_middle :: middle_data where "no_middle = \<lparr> mid_mode = MidNone, mid_register1 = 0 \<rparr>"

definition entry_code :: "exec_op list" where
  "entry_code = [
     entry_op ''load'' (at_mp 0) (small_imm 0) (at_fp 20),
     entry_op ''mframe'' (at_fp 20) (small_imm 0) (at_fp 24),
     entry_op ''movp'' (at_mp 4) no_middle (at_fp2 24 (of_nat limbo_first_arg_register_offset)),
     entry_op ''mcall'' (at_fp 24) (small_imm 0) (at_fp 20),
     entry_op ''ret'' no_operand no_middle no_operand]"

definition exec_init_sig :: word_t where "exec_init_sig = 0x2e01144a"

definition entry_header :: "word_t \<Rightarrow> header" where
  "entry_header stack_extent = \<lparr> hd_magic_number = 0, hd_signature = [], hd_runtime_flag = has_import, hd_stack_extent = stack_extent,
     hd_code_size = 0, hd_data_size = 0, hd_type_size = 0, hd_export_size = 0, hd_entry_pc = 0, hd_entry_type = 0 \<rparr>"

primrec append_args :: "byte_t list list \<Rightarrow> nat \<Rightarrow> nat \<times> vm_list \<Rightarrow> nat exec" where
  "append_args [] path l = eret path"
| "append_args (a # as) path l = ebind (new_string_utf8 a) (\<lambda>curr_arg.
     ebind (if path = 0 then eret (curr_arg, l) else (ebind (new_list td_string 0) (\<lambda>new_tail.
       ebind (set_tail (fst l) (snd l) (fst new_tail)) (\<lambda>_.
       ebind (release (fst new_tail)) (\<lambda>_.
       eret (path, new_tail)))))) (\<lambda>(path', last).
     eseq (set_pt_ref (ls_value (snd last)) curr_arg) (
     append_args as path' last)))"

definition module_path_text :: "nat \<Rightarrow> byte_t list exec" where
  "module_path_text p = ebind (obj_at p) (\<lambda>ob.
     case ob_data ob of StringObj v \<Rightarrow> (ebind (lift_res (str v)) (\<lambda>e.
       eret (c_string (str_bytes e))))
     | _ \<Rightarrow> throw (Undefined ''not a string''))"

primrec place_code :: "exec_op list \<Rightarrow> nat \<Rightarrow> ('z, unit) heff" where
  "place_code [] a = eret ()"
| "place_code (i # is) a = eseq (place_instruction a i) (
     place_code is (a + instruction_size))"

text \<open>The type of the function that is called, written as the stream of the assertion does.\<close>

definition init_type :: "sig_stream res" where
  "init_type = built (ebind (lift_res (rbind (create_aggregate TList (put_type_id TString)) (\<lambda>args.
     rbind (create_function TFunction [put_stream args]) (\<lambda>f. returns f (put_type_id TNone))))) put_const_function)"

definition check_init_sig :: "byte_t list \<Rightarrow> unit exec" where
  "check_init_sig garbage = ebind (lift_res init_type) (\<lambda>m.
     eseq (vm_assert (exec_init_sig = get_signature_hash garbage m) ''exec_init_sig == m.get_signature_hash()'') (
     vm_assert (exec_init_sig = compute_signature_hash garbage (ascii ''f(Ls)n'')) ''exec_init_sig == compute_signature_hash''))"

definition create_entry_module :: "env \<Rightarrow> unit cpu_ext resolver list \<Rightarrow> byte_t list \<Rightarrow> byte_t list list \<Rightarrow> nat exec" where
  "create_entry_module E resolvers garbage vm_args = ebind (new_list td_string 0) (\<lambda>mod_args.
     ebind (append_args vm_args 0 mod_args) (\<lambda>path.
     eseq (check (path \<noteq> 0) (UserException ''Entry module not supplied'')) (
     ebind (module_path_text path) (\<lambda>text.
     ebind (load_module E resolvers (Some text)) (\<lambda>m.
     ebind (module_at m) (\<lambda>command_module.
     ebind (lift_res (string_of_utf8 (ascii ''_entry_''))) (\<lambda>name.
     ebind (lift_res (type_create (int entry_frame_size) entry_frame_pointer_map)) (\<lambda>frame_type.
     ebind (lift_res (type_create 8 [0xc0])) (\<lambda>mp_type.
     ebind (allocate mp_type) (\<lambda>original_mp.
     eseq (add_ref path) (
     eseq (set_pt_ref original_mp path) (
     eseq (set_pt_ref (original_mp + 4) (fst mod_args)) (
     ebind (alloc_block (instruction_size * length entry_code)) (\<lambda>code_base.
     eseq (place_code entry_code code_base) (
     eseq (check_init_sig garbage) (
     ebind (lift_res (string_of_utf8 (ascii ''init''))) (\<lambda>init.
     adopt_module \<lparr> m_vm_id = 0, m_header = entry_header (hd_stack_extent (m_header command_module) + of_nat entry_frame_size),
       m_code_section = map Exec entry_code, m_code_base = code_base, m_original_mp = original_mp, m_type_section = [Some frame_type],
       m_module_name = Some name, m_export_section = [], m_import_section = [[\<lparr> im_sig = exec_init_sig, im_name = Some init \<rparr>]],
       m_handler_section = [] \<rparr>)))))))))))))))))"

section \<open>The program\<close>

record launch_host =
  lh_build :: "exec_options \<Rightarrow> unit exec"
  lh_garbage :: "byte_t list"
  lh_sleep :: "unit exec"
  lh_idle_fuel :: nat

datatype exit_code = ExitSuccess | ExitFailure

definition is_term_request :: "vm_exn \<Rightarrow> bool" where "is_term_request e = (case e of TermRequest _ \<Rightarrow> True | _ \<Rightarrow> False)"

definition run_entry :: "launch_host \<Rightarrow> env \<Rightarrow> unit cpu_ext resolver list \<Rightarrow> exec_options \<Rightarrow> (byte_t list \<times> exit_code) exec" where
  "run_entry L E resolvers opt = catch (ebind (create_entry_module E resolvers (lh_garbage L) (eo_vm_args opt)) (\<lambda>entry.
     ebind (exec_module E entry) (\<lambda>_.
     eseq (spin_sleep_till_idle (lh_idle_fuel L) (lh_sleep L)) (
     eret ([], ExitSuccess)))))
     (\<lambda>e. if is_user_exception e \<or> is_term_request e then eret (ascii (what_text e) @ [newline], ExitFailure)
       else case e of SystemException m \<Rightarrow> eret (ascii ''Internal exception:'' @ [newline] @ ascii m @ [newline], ExitFailure)
         | ModuleException m \<Rightarrow> eret (ascii ''Internal exception:'' @ [newline] @ ascii m @ [newline], ExitFailure)
         | _ \<Rightarrow> throw e)"

definition main_program :: "launch_host \<Rightarrow> env \<Rightarrow> unit cpu_ext resolver list \<Rightarrow> byte_t list list \<Rightarrow> (byte_t list \<times> byte_t list \<times> exit_code) exec" where
  "main_program L E resolvers args = (case process_args \<lparr> la_options = default_options, la_log = new_logger, la_rest = args \<rparr> of
     Inl (msg, arg) \<Rightarrow> eret (print_usage, ascii msg @ [newline] @ (case arg of None \<Rightarrow> [] | Some a \<Rightarrow> ascii '': '' @ a @ [newline]), ExitFailure)
   | Inr s \<Rightarrow> (let opt = la_options s; banner = (if eo_quiet_start opt then [] else print_banner opt) in
       if eo_print_help opt then eret (banner @ print_usage, [], ExitSuccess)
       else (eseq (lh_build L opt) (
     ebind (run_entry L E resolvers opt) (\<lambda>(err, code).
     eret (banner, err, code))))))"

end
