(* ===== verification/Md5Spec.thy ===== *)
theory Md5Spec
  imports Md5
begin

text \<open>
  The digest computed from the pieces of a message is the digest of RFC 1321 of the whole message:
  the message, a one bit, zero bits and its length, folded block by block.
\<close>

section \<open>Blocks\<close>

lemma md5_blocks_short: "length bs < 64 \<Longrightarrow> md5_blocks st bs = (st, bs)"
  by (subst md5_blocks.simps) simp

lemma md5_blocks_step: "\<not> length bs < 64 \<Longrightarrow> md5_blocks st bs = md5_blocks (md5_transform st (take 64 bs)) (drop 64 bs)"
  by (subst md5_blocks.simps) simp

lemma md5_blocks_rest: "length (snd (md5_blocks st bs)) = length bs mod 64"
proof (induction st bs rule: md5_blocks.induct)
  case (1 st bs)
  show ?case
  proof (cases "length bs < 64")
    case False
    then have "(length bs - 64) mod 64 = length bs mod 64" by (simp add: mod_if [of "length bs"])
    with 1 False show ?thesis by (simp add: md5_blocks_step)
  qed (simp add: md5_blocks_short)
qed

lemma md5_blocks_append: "md5_blocks st (xs @ ys) = (let (st', rest) = md5_blocks st xs in md5_blocks st' (rest @ ys))"
proof (induction st xs rule: md5_blocks.induct)
  case (1 st xs)
  show ?case
  proof (cases "length xs < 64")
    case False
    with 1 show ?thesis by (simp add: md5_blocks_step)
  qed (simp add: md5_blocks_short)
qed

section \<open>The abstract context\<close>

type_synonym md5_view = "quadruple \<times> nat \<times> byte_t list"

definition bit_count :: "md5_ctx \<Rightarrow> nat" where "bit_count ctx = unat (md_count0 ctx) + 2 ^ 32 * unat (md_count1 ctx)"

definition view_of :: "md5_ctx \<Rightarrow> md5_view" where
  "view_of ctx = (md_state ctx, bit_count ctx, take (buffered ctx) (md_buffer ctx))"

definition absorb :: "byte_t list \<Rightarrow> md5_view \<Rightarrow> md5_view" where
  "absorb bs v = (case v of (st, n, pending) \<Rightarrow>
     let (st', rest) = md5_blocks st (pending @ bs) in (st', (n + 8 * length bs) mod 2 ^ 64, rest))"

definition ctx_ok :: "md5_ctx \<Rightarrow> bool" where "ctx_ok ctx \<longleftrightarrow> length (md_buffer ctx) = 64"

lemma buffered_count: "buffered ctx = unat (md_count0 ctx) div 8 mod 64"
proof -
  have "drop_bit 3 (md_count0 ctx) AND 0x3F = take_bit 6 (drop_bit 3 (md_count0 ctx))"
    by (simp add: take_bit_eq_mask mask_eq_exp_minus_1)
  then show ?thesis by (simp add: buffered_def unsigned_take_bit_eq unat_drop_bit_eq take_bit_eq_mod drop_bit_eq_div unat_div unat_mod)
qed

lemma buffered_less [simp]: "buffered ctx < 64" by (simp add: buffered_count)

lemma carry_nat:
  fixes a b P :: nat
  assumes "a < P" "b < P"
  shows "(a + b) mod P < b \<longleftrightarrow> P \<le> a + b" "a + b = (a + b) mod P + P * (if P \<le> a + b then 1 else 0)"
proof -
  have "(a + b) mod P = (if P \<le> a + b then a + b - P else a + b)"
    using assms by (simp add: mod_if)
  with assms show "(a + b) mod P < b \<longleftrightarrow> P \<le> a + b" "a + b = (a + b) mod P + P * (if P \<le> a + b then 1 else 0)" by auto
qed

lemma low_high_nat:
  fixes a x P :: nat
  assumes "a < P"
  shows "(a + P * x) mod (P * P) = a + P * (x mod P)"
  using assms by (simp add: mod_mult2_eq)

lemma div8_mod64: "x div 8 mod 64 = (x mod 512) div (8 :: nat)"
proof -
  have "x mod (8 * 64) = 8 * (x div 8 mod 64) + x mod 8" by (rule mod_mult2_eq)
  then show ?thesis by simp
qed

lemma counts_update:
  fixes c0 c1 :: word_t
  assumes "n < 2 ^ 32"
  defines "len \<equiv> (of_nat n :: word_t)"
  defines "c0' \<equiv> c0 + push_bit 3 len"
  defines "c1' \<equiv> (if c0' < push_bit 3 len then c1 + 1 else c1) + drop_bit 29 len"
  shows "unat c0' + 2 ^ 32 * unat c1' = (unat c0 + 2 ^ 32 * unat c1 + 8 * n) mod 2 ^ 64"
    and "unat c0' div 8 mod 64 = (unat c0 div 8 + n) mod 64"
proof -
  have n: "unat len = n" using assms(1) by (simp add: len_def unat_of_nat take_bit_eq_mod)
  have m: "unat (push_bit 3 len) = 8 * n mod 2 ^ 32"
    by (simp add: push_bit_eq_mult unat_word_ariths n mult.commute)
  have q: "unat (drop_bit 29 len) = 8 * n div 2 ^ 32" using n by (simp add: drop_bit_eq_div unat_div)
  have c0: "unat c0 < 2 ^ 32" "unat c1 < 2 ^ 32" using unsigned_less [of c0] unsigned_less [of c1] by simp_all
  have c0': "unat c0' = (unat c0 + 8 * n mod 2 ^ 32) mod 2 ^ 32" by (simp add: c0'_def unat_word_ariths m)
  have m32: "8 * n mod 2 ^ 32 < (2 ^ 32 :: nat)" by (rule mod_less_divisor) simp
  have carry: "c0' < push_bit 3 len \<longleftrightarrow> 2 ^ 32 \<le> unat c0 + 8 * n mod 2 ^ 32"
    unfolding word_less_nat_alt c0' m by (rule carry_nat(1) [OF c0(1) m32])
  let ?k = "if 2 ^ 32 \<le> unat c0 + 8 * n mod 2 ^ 32 then 1 else 0 :: nat"
  have low: "unat c0 + 8 * n mod 2 ^ 32 = unat c0' + 2 ^ 32 * ?k" unfolding c0' by (rule carry_nat(2) [OF c0(1) m32])
  have c1': "unat c1' = (unat c1 + ?k + 8 * n div 2 ^ 32) mod 2 ^ 32"
    unfolding c1'_def carry by (simp add: unat_word_ariths q mod_add_left_eq)
  have total: "unat c0 + 2 ^ 32 * unat c1 + 8 * n = unat c0' + 2 ^ 32 * (unat c1 + ?k + 8 * n div 2 ^ 32)"
    using low div_mult_mod_eq [of "8 * n" "2 ^ 32"] by (simp add: algebra_simps)
  have wrap: "(unat c0' + 2 ^ 32 * x) mod 2 ^ 64 = unat c0' + 2 ^ 32 * (x mod 2 ^ 32)" for x
    using low_high_nat [of "unat c0'" "2 ^ 32" x] unsigned_less [of c0'] by simp
  show "unat c0' + 2 ^ 32 * unat c1' = (unat c0 + 2 ^ 32 * unat c1 + 8 * n) mod 2 ^ 64"
    unfolding c1' total by (rule wrap [symmetric])
  have "unat c0' = (unat c0 + 8 * n) mod 2 ^ 32" unfolding c0' by (simp add: mod_add_right_eq)
  then have "unat c0' mod 512 = (unat c0 + 8 * n) mod 512" by (simp add: mod_mod_cancel)
  then have "unat c0' div 8 mod 64 = (unat c0 + 8 * n) div 8 mod 64" by (simp only: div8_mod64)
  also have "(unat c0 + 8 * n) div 8 = unat c0 div 8 + n" by simp
  finally show "unat c0' div 8 mod 64 = (unat c0 div 8 + n) mod 64" .
qed

section \<open>Updates\<close>

lemma md5_update_counts:
  assumes "length bs < 2 ^ 32"
  shows "bit_count (md5_update bs ctx) = (bit_count ctx + 8 * length bs) mod 2 ^ 64"
    "buffered (md5_update bs ctx) = (buffered ctx + length bs) mod 64"
proof -
  let ?len = "of_nat (length bs) :: word_t" and ?c0 = "md_count0 ctx"
  have c: "md_count0 (md5_update bs ctx) = ?c0 + push_bit 3 ?len"
    "md_count1 (md5_update bs ctx) = (if ?c0 + push_bit 3 ?len < push_bit 3 ?len then md_count1 ctx + 1 else md_count1 ctx) + drop_bit 29 ?len"
    by (simp_all add: md5_update_def Let_def split: prod.split)
  show "bit_count (md5_update bs ctx) = (bit_count ctx + 8 * length bs) mod 2 ^ 64"
    unfolding bit_count_def c by (rule counts_update(1) [OF assms])
  have "buffered (md5_update bs ctx) = (unat ?c0 div 8 + length bs) mod 64"
    unfolding buffered_count c by (rule counts_update(2) [OF assms])
  then show "buffered (md5_update bs ctx) = (buffered ctx + length bs) mod 64"
    by (simp add: buffered_count mod_add_left_eq)
qed

lemma put_buffer_length: "i + length bs \<le> length buf \<Longrightarrow> length (put_buffer i bs buf) = length buf"
  by (simp add: put_buffer_def)

lemma md5_update_view:
  assumes "ctx_ok ctx" "length bs < 2 ^ 32"
  shows "view_of (md5_update bs ctx) = absorb bs (view_of ctx) \<and> ctx_ok (md5_update bs ctx)"
proof -
  let ?i = "buffered ctx" and ?buf = "md_buffer ctx"
  let ?p = "take ?i ?buf"
  have i: "?i < 64" "length ?p = ?i" "length ?buf = 64" using assms(1) buffered_less [of ctx] by (simp_all add: ctx_ok_def)
  note counts = md5_update_counts [OF assms(2), of ctx]
  show ?thesis
  proof (cases "64 - ?i \<le> length bs")
    case True
    let ?block = "put_buffer ?i (take (64 - ?i) bs) ?buf"
    have block: "?block = take 64 (?p @ bs)" using i True by (simp add: put_buffer_def)
    have len: "length ?block = 64" unfolding block using i True by (simp del: buffered_less)
    obtain st rest where r: "md5_blocks (md5_transform (md_state ctx) ?block) (drop (64 - ?i) bs) = (st, rest)" by (rule prod.exhaust)
    have "\<not> length (?p @ bs) < 64" using i True by simp
    moreover have "drop 64 (?p @ bs) = drop (64 - ?i) bs" using i by (simp del: buffered_less)
    ultimately have all: "md5_blocks (md_state ctx) (?p @ bs) = (st, rest)"
      using r unfolding block by (simp only: md5_blocks_step not_False_eq_True)
    have "length rest = (?i + length bs) mod 64" using md5_blocks_rest [of "md_state ctx" "?p @ bs"] all i(2) by simp
    moreover have "md5_update bs ctx = \<lparr> md_state = st, md_count0 = md_count0 (md5_update bs ctx), md_count1 = md_count1 (md5_update bs ctx),
        md_buffer = put_buffer 0 rest ?block \<rparr>"
      using True r by (simp add: md5_update_def Let_def)
    ultimately have u: "md_state (md5_update bs ctx) = st" "md_buffer (md5_update bs ctx) = put_buffer 0 rest ?block" "length rest = (?i + length bs) mod 64"
      by (metis md5_ctx.select_convs)+
    have "length rest \<le> 64" unfolding u(3) by (rule less_imp_le) simp
    then have "length (put_buffer 0 rest ?block) = 64" using len by (simp add: put_buffer_length)
    moreover have "take (length rest) (put_buffer 0 rest ?block) = rest" by (simp add: put_buffer_def)
    ultimately show ?thesis using all counts u by (simp add: view_of_def absorb_def ctx_ok_def)
  next
    case False
    then have short: "length (?p @ bs) < 64" using i by simp
    then have n: "buffered (md5_update bs ctx) = ?i + length bs" using counts(2) i by simp
    have u: "md_state (md5_update bs ctx) = md_state ctx" "md_buffer (md5_update bs ctx) = put_buffer ?i bs ?buf"
      using False by (simp_all add: md5_update_def Let_def)
    have "take (?i + length bs) (put_buffer ?i bs ?buf) = ?p @ bs" using i by (simp add: put_buffer_def)
    moreover have "length (put_buffer ?i bs ?buf) = 64" using short i by (simp add: put_buffer_length)
    ultimately show ?thesis using n u counts(1) by (simp add: view_of_def absorb_def ctx_ok_def md5_blocks_short [OF short])
  qed
qed

lemma absorb_append: "absorb ys (absorb xs v) = absorb (xs @ ys) v"
proof -
  obtain st n p where v: "v = (st, n, p)" by (rule prod_cases3)
  obtain st1 r1 where 1: "md5_blocks st (p @ xs) = (st1, r1)" by (rule prod.exhaust)
  obtain st2 r2 where 2: "md5_blocks st1 (r1 @ ys) = (st2, r2)" by (rule prod.exhaust)
  have "md5_blocks st (p @ xs @ ys) = (st2, r2)" using md5_blocks_append [of st "p @ xs" ys] by (simp add: 1 2)
  moreover have "((n + 8 * length xs) mod 2 ^ 64 + 8 * length ys) mod 2 ^ 64 = (n + 8 * length (xs @ ys)) mod 2 ^ 64"
    unfolding mod_add_left_eq by (simp add: algebra_simps)
  ultimately show ?thesis unfolding v absorb_def prod.case 1 2 Let_def by simp
qed

lemma md5_pieces:
  assumes "ctx_ok ctx" "\<forall>bs \<in> set pieces. length bs < 2 ^ 32"
  shows "view_of (fold md5_update pieces ctx) = absorb (concat pieces) (view_of ctx) \<and> ctx_ok (fold md5_update pieces ctx)"
  using assms
proof (induction pieces arbitrary: ctx)
  case Nil
  obtain st n p where v: "view_of ctx = (st, n, p)" by (rule prod_cases3)
  have "n < 2 ^ 64"
  proof -
    have "unat (md_count0 ctx) < 2 ^ 32" "unat (md_count1 ctx) < 2 ^ 32"
      using unsigned_less [of "md_count0 ctx"] unsigned_less [of "md_count1 ctx"] by simp_all
    then show ?thesis using v by (auto simp: view_of_def bit_count_def)
  qed
  moreover have "length p < 64" using v buffered_less [of ctx] by (auto simp: view_of_def min_def simp del: buffered_less)
  ultimately show ?case using v Nil by (simp add: absorb_def md5_blocks_short)
next
  case (Cons bs pieces)
  then have u: "view_of (md5_update bs ctx) = absorb bs (view_of ctx)" "ctx_ok (md5_update bs ctx)" using md5_update_view [of ctx bs] by simp_all
  with Cons.IH [of "md5_update bs ctx"] Cons.prems show ?case by (simp add: absorb_append)
qed

section \<open>The digest\<close>

definition md5_init_state :: quadruple where "md5_init_state = (0x67452301, 0xefcdab89, 0x98badcfe, 0x10325476)"

definition md5_padded :: "byte_t list \<Rightarrow> byte_t list" where
  "md5_padded msg = msg @ 0x80 # replicate ((119 - length msg mod 64) mod 64) 0
     @ md5_encode [of_nat (8 * length msg), of_nat (8 * length msg div 2 ^ 32)]"

definition md5_digest :: "byte_t list \<Rightarrow> byte_t list" where
  "md5_digest msg = md5_encode (words_of (fst (md5_blocks md5_init_state (md5_padded msg))))"

lemma count_words:
  fixes c0 c1 :: word_t
  assumes "unat c0 + 2 ^ 32 * unat c1 = n mod 2 ^ 64"
  shows "c0 = of_nat n \<and> c1 = of_nat (n div 2 ^ 32)"
proof -
  have b: "unat c0 < 2 ^ 32" "unat c1 < 2 ^ 32" using unsigned_less [of c0] unsigned_less [of c1] by simp_all
  have "n mod (2 ^ 32 * 2 ^ 32) = 2 ^ 32 * (n div 2 ^ 32 mod 2 ^ 32) + n mod 2 ^ 32" by (rule mod_mult2_eq)
  with assms have e: "unat c0 + 2 ^ 32 * unat c1 = n mod 2 ^ 32 + 2 ^ 32 * (n div 2 ^ 32 mod 2 ^ 32)" by simp
  from arg_cong [OF e, of "\<lambda>x. x mod 2 ^ 32"] b have l: "unat c0 = n mod 2 ^ 32" by simp
  with e have h: "unat c1 = n div 2 ^ 32 mod 2 ^ 32" by simp
  have "unat c0 = unat (of_nat n :: word_t)" "unat c1 = unat (of_nat (n div 2 ^ 32) :: word_t)"
    unfolding l h by (simp_all add: unat_of_nat take_bit_eq_mod)
  then show ?thesis by (simp add: word_unat_eq_iff)
qed

lemma pad_count:
  assumes "i < (64 :: nat)"
  shows "(if i < 56 then 56 - i else 120 - i) = Suc ((119 - i) mod 64)"
proof (cases "i < 56")
  case True
  then have "119 - i = 64 + (55 - i)" by simp
  then have "(119 - i) mod 64 = (55 - i) mod 64" by (simp only: mod_add_self1)
  with True show ?thesis by simp
next
  case False
  with assms have "(119 - i) mod 64 = 119 - i" by (intro mod_less) linarith
  with False assms show ?thesis by simp
qed

lemma digest_of_view:
  assumes "ctx_ok ctx" "view_of ctx = absorb msg (md5_init_state, 0, [])"
  shows "md5_final ctx = md5_digest msg"
proof -
  let ?n = "length msg"
  obtain st rest where r: "md5_blocks md5_init_state msg = (st, rest)" by (rule prod.exhaust)
  have v: "view_of ctx = (st, (8 * ?n) mod 2 ^ 64, rest)" using assms(2) r by (simp add: absorb_def)
  have rest: "length rest = ?n mod 64" using md5_blocks_rest [of md5_init_state msg] r by simp
  have i: "buffered ctx = ?n mod 64"
    using v rest assms(1) buffered_less [of ctx] by (auto simp: view_of_def ctx_ok_def min_def simp del: buffered_less)
  let ?z = "(119 - ?n mod 64) mod 64" and ?bits = "md5_encode [md_count0 ctx, md_count1 ctx]"
  have m: "?n mod 64 < 64" by simp
  have z: "(if ?n mod 64 < 56 then 56 - ?n mod 64 else 120 - ?n mod 64) = Suc ?z" by (rule pad_count [OF m])
  have zle: "?z \<le> 63" using mod_less_divisor [of 64 "119 - ?n mod 64"] by simp
  have pad: "take (Suc ?z) md5_padding = 0x80 # replicate ?z 0" using zle by (simp add: md5_padding_def)
  have bits: "?bits = md5_encode [of_nat (8 * ?n), of_nat (8 * ?n div 2 ^ 32)]"
    using count_words [of "md_count0 ctx" "md_count1 ctx" "8 * ?n"] v by (simp add: view_of_def bit_count_def)
  have len: "length ?bits < 2 ^ 32" "length (0x80 # replicate ?z 0 :: byte_t list) < 2 ^ 32" using zle by (simp_all add: md5_encode_def)
  have f: "md5_final ctx = md5_encode (words_of (md_state (md5_update ?bits (md5_update (0x80 # replicate ?z 0) ctx))))"
    unfolding md5_final_def Let_def i z pad ..
  note v1 = md5_update_view [OF assms(1) len(2)]
  note v2 = md5_update_view [OF conjunct2 [OF v1] len(1)]
  have "view_of (md5_update ?bits (md5_update (0x80 # replicate ?z 0) ctx)) = absorb (md5_padded msg) (md5_init_state, 0, [])"
    using v1 v2 assms(2) by (simp add: absorb_append md5_padded_def bits)
  then have "md_state (md5_update ?bits (md5_update (0x80 # replicate ?z 0) ctx)) = fst (absorb (md5_padded msg) (md5_init_state, 0, []))"
    by (metis fst_conv view_of_def)
  also have "\<dots> = fst (md5_blocks md5_init_state (md5_padded msg))" by (simp add: absorb_def split: prod.split)
  finally show ?thesis unfolding f md5_digest_def by simp
qed

lemma digest_pieces:
  assumes "length garbage = 64" "\<forall>bs \<in> set pieces. length bs < 2 ^ 32"
  shows "md5_final (fold md5_update pieces (md5_init garbage)) = md5_digest (concat pieces)"
proof (rule digest_of_view)
  have "view_of (md5_init garbage) = (md5_init_state, 0, [])"
    by (simp add: view_of_def md5_init_def md5_init_state_def bit_count_def buffered_def)
  with md5_pieces [of "md5_init garbage" pieces] assms
  show "view_of (fold md5_update pieces (md5_init garbage)) = absorb (concat pieces) (md5_init_state, 0, [])"
    "ctx_ok (fold md5_update pieces (md5_init garbage))" by (simp_all add: ctx_ok_def md5_init_def)
qed

text \<open>C25: the digest of a message given in any pieces is the digest of RFC 1321 of the whole message.\<close>

theorem md5_pieces_digest:
  assumes "length garbage = 64" "\<forall>bs \<in> set pieces. length bs < 2 ^ 32"
  shows "md5_final (fold md5_update pieces (md5_init garbage)) = md5_digest (concat pieces)"
  by (rule digest_pieces [OF assms])

theorem md5_pieces_digest_witness:
  "md5_final (md5_update [0x62, 0x63] (md5_update [0x61] (md5_init (replicate 64 7)))) = md5_digest [0x61, 0x62, 0x63]"
  using md5_pieces_digest [of "replicate 64 7" "[[0x61], [0x62, 0x63]]"] by simp

end
