(* ===== verification/TypeSignatureSpec.thy ===== *)
theory TypeSignatureSpec
  imports TypeSignature Md5Spec
begin

text \<open>
  The signature of the types a program is linked by determines the type; the signature of the
  entry point that the command line program compiles in is the digest of its type.
\<close>

section \<open>Texts of insertions\<close>

definition writes :: "insertion \<Rightarrow> byte_t list \<Rightarrow> bool" where
  "writes m bs \<longleftrightarrow> bs \<noteq> [] \<and> (\<forall>s. \<not> ss_failed s \<longrightarrow> m s = (Inr (), s\<lparr> ss_text := ss_text s @ bs \<rparr>))"

lemma writes_run: "writes m bs \<Longrightarrow> \<not> ss_failed s \<Longrightarrow> m s = (Inr (), s\<lparr> ss_text := ss_text s @ bs \<rparr>)"
  by (simp add: writes_def)

lemma writes_text: "bs \<noteq> [] \<Longrightarrow> writes (write_text bs) bs"
  by (simp add: writes_def write_text_def)

lemma writes_char: "writes (put_char c) [ch c]"
  unfolding put_char_def by (rule writes_text) simp

lemma writes_c_string: "c_string bs = bs \<Longrightarrow> bs \<noteq> [] \<Longrightarrow> writes (put_text bs) bs"
  by (simp add: put_text_def writes_text)

lemma writes_seq: "writes m bs \<Longrightarrow> writes k cs \<Longrightarrow> writes (eseq m k) (bs @ cs)"
  by (simp add: writes_def eseq_def ebind_run)

lemma writes_type_id: "t \<noteq> TUnknown \<Longrightarrow> writes (put_type_id t) (ascii (type_id_text t))"
proof -
  assume t: "t \<noteq> TUnknown"
  have "ascii (type_id_text t) \<noteq> []" "c_string (ascii (type_id_text t)) = ascii (type_id_text t)"
    using t by (cases t; simp add: type_id_text_def ascii_def c_string_def)+
  then have "writes (put_text (ascii (type_id_text t))) (ascii (type_id_text t))" by (intro writes_c_string)
  with t show ?thesis by (simp add: writes_def put_type_id_def eseq_def ebind_run vm_assert_def check_def)
qed

lemma built_writes: "writes m bs \<Longrightarrow> built m = Inr \<lparr> ss_text = bs, ss_failed = False \<rparr>"
  by (simp add: built_def writes_def empty_stream_def)

lemma writes_stream: "ss_text st \<noteq> [] \<Longrightarrow> writes (put_stream st) (ss_text st)"
  by (simp add: put_stream_def writes_text)

fun delimited :: "byte_t list list \<Rightarrow> byte_t list" where
  "delimited [] = []"
| "delimited [t] = t"
| "delimited (t1 # t2 # ts) = t1 @ [ch sig_delim] @ delimited (t2 # ts)"

lemma nested_run: "list_all2 writes ms ts \<Longrightarrow> \<not> ss_failed s \<Longrightarrow> nested_type ms s = (Inr (), s\<lparr> ss_text := ss_text s @ delimited ts \<rparr>)"
proof (induction ts arbitrary: ms s rule: delimited.induct)
  case (2 t)
  then show ?case by (auto simp: list_all2_Cons2 writes_run)
next
  case (3 t1 t2 ts)
  then obtain m1 m2 ms' where m: "ms = m1 # m2 # ms'" "writes m1 t1" "list_all2 writes (m2 # ms') (t2 # ts)" by (auto simp: list_all2_Cons2)
  with "3.IH" [OF m(3)] "3.prems"(2) show ?case
    by (simp add: eseq_def ebind_run writes_run [OF m(2)] writes_run [OF writes_char])
qed simp

lemma writes_nested: "list_all2 writes ms ts \<Longrightarrow> writes k bs \<Longrightarrow> writes (eseq (nested_type ms) k) (delimited ts @ bs)"
  by (auto simp: writes_def eseq_def ebind_run nested_run)

section \<open>Types\<close>

text \<open>The types of which signatures are built, without the references to types by number.\<close>

datatype wrapper = WArray | WRef | WList | WChannel
datatype basic = BNone | BByte | BInteger | BReal | BBig | BString | BPoly

datatype sig_type = Basic basic | Wrapped wrapper sig_type | Tuple "sig_type list" | Function bool "sig_type list" sig_type
  | Adt "(byte_t list \<times> sig_type) list" | Module "(byte_t list \<times> sig_type) list"

definition basic_id :: "basic \<Rightarrow> type_id" where
  "basic_id b = (case b of BNone \<Rightarrow> TNone | BByte \<Rightarrow> TByte | BInteger \<Rightarrow> TInteger | BReal \<Rightarrow> TReal | BBig \<Rightarrow> TBig | BString \<Rightarrow> TString | BPoly \<Rightarrow> TPoly)"

definition wrapper_id :: "wrapper \<Rightarrow> type_id" where
  "wrapper_id w = (case w of WArray \<Rightarrow> TArray | WRef \<Rightarrow> TRef | WList \<Rightarrow> TList | WChannel \<Rightarrow> TChannel)"

definition function_id :: "bool \<Rightarrow> type_id" where "function_id varargs = (if varargs then TFunctionVarargs else TFunction)"

definition put_created :: "sig_stream res \<Rightarrow> insertion" where "put_created r = ebind (lift_res r) put_stream"

fun build :: "sig_type \<Rightarrow> insertion" where
  "build (Basic b) = put_type_id (basic_id b)"
| "build (Wrapped w t) = put_created (create_aggregate (wrapper_id w) (build t))"
| "build (Tuple ts) = put_created (create_nested TTuple (map build ts))"
| "build (Function varargs args r) = ebind (lift_res (rbind (create_function (function_id varargs) (map build args)) (\<lambda>f. returns f (build r)))) put_const_function"
| "build (Adt ms) = put_created (create_nested TAdt (map (\<lambda>(n, t). put_created (create_member n (build t))) ms))"
| "build (Module ms) = put_created (create_nested TModule (map (\<lambda>(n, t). put_created (create_member n (build t))) ms))"

fun sig_text :: "sig_type \<Rightarrow> byte_t list" where
  "sig_text (Basic b) = ascii (type_id_text (basic_id b))"
| "sig_text (Wrapped w t) = ascii (type_id_text (wrapper_id w)) @ sig_text t"
| "sig_text (Tuple ts) = ascii ''t('' @ delimited (map sig_text ts) @ ascii '')''"
| "sig_text (Function varargs args r) = ascii (if varargs then ''f*('' else ''f('') @ delimited (map sig_text args) @ ascii '')'' @ sig_text r"
| "sig_text (Adt ms) = ascii ''a('' @ delimited (map (\<lambda>(n, t). n @ ascii '':'' @ sig_text t) ms) @ ascii '')''"
| "sig_text (Module ms) = ascii ''m{'' @ delimited (map (\<lambda>(n, t). n @ ascii '':'' @ sig_text t) ms) @ ascii ''}''"

definition name_ok :: "byte_t list \<Rightarrow> bool" where
  "name_ok n \<longleftrightarrow> n \<noteq> [] \<and> 0 \<notin> set n \<and> set n \<inter> set (ascii '':,)}'') = {}"

fun names_ok :: "sig_type \<Rightarrow> bool" where
  "names_ok (Basic b) = True"
| "names_ok (Wrapped w t) = names_ok t"
| "names_ok (Tuple ts) = (\<forall>t \<in> set ts. names_ok t)"
| "names_ok (Function varargs args r) = ((\<forall>t \<in> set args. names_ok t) \<and> names_ok r)"
| "names_ok (Adt ms) = (\<forall>(n, t) \<in> set ms. name_ok n \<and> names_ok t)"
| "names_ok (Module ms) = (\<forall>(n, t) \<in> set ms. name_ok n \<and> names_ok t)"

section \<open>Signatures are the texts\<close>

lemma ascii_text [simp]: "ascii [] = []" "ascii (c # cs) = ch c # ascii cs"
  by (simp_all add: ascii_def ch_def)

lemma writes_created: "writes m bs \<Longrightarrow> writes (put_created (built m)) bs"
proof -
  assume w: "writes m bs"
  have "put_created (built m) = put_stream \<lparr> ss_text = bs, ss_failed = False \<rparr>"
    unfolding put_created_def built_writes [OF w] by (simp add: ebind_def lift_res_def fun_eq_iff)
  moreover have "bs \<noteq> []" using w by (simp add: writes_def)
  ultimately show ?thesis using writes_stream [of "\<lparr> ss_text = bs, ss_failed = False \<rparr>"] by simp
qed

lemma writes_create_nested:
  assumes "t \<noteq> TUnknown" "list_all2 writes ms ts"
  shows "writes (put_created (create_nested t ms)) (ascii (type_id_text t) @ [ch (begin_char t)] @ delimited ts @ [ch (end_char t)])"
  unfolding create_nested_def by (intro writes_created writes_seq writes_type_id writes_char writes_nested assms)

lemma writes_create_member:
  assumes "name_ok n" "writes m bs"
  shows "writes (put_created (create_member n m)) (n @ [ch CHR '':''] @ bs)"
proof -
  have "c_string n = n" using assms(1) by (simp add: name_ok_def c_string_def) (metis takeWhile_eq_all_conv)
  then show ?thesis unfolding create_member_def
    using assms by (intro writes_created writes_seq writes_char writes_c_string) (simp_all add: name_ok_def)
qed

lemma writes_function:
  assumes "list_all2 writes ms ts" "writes m bs"
  shows "writes (ebind (lift_res (rbind (create_function (function_id v) ms) (\<lambda>f. returns f m))) put_const_function)
    (ascii (type_id_text (function_id v)) @ [ch CHR ''(''] @ delimited ts @ [ch CHR '')''] @ bs)"
proof -
  let ?head = "ascii (type_id_text (function_id v)) @ [ch CHR ''(''] @ delimited ts @ [ch CHR '')'']"
  have b: "begin_char (function_id v) = CHR ''(''" "end_char (function_id v) = CHR '')''" "function_id v \<noteq> TUnknown"
    by (simp_all add: function_id_def begin_char_def end_char_def)
  have "writes (eseq (put_type_id (function_id v)) (eseq (put_char (begin_char (function_id v))) (eseq (nested_type ms) (put_char (end_char (function_id v)))))) ?head"
    unfolding b(1,2) by (intro writes_seq writes_type_id writes_char writes_nested assms b(3))
  from built_writes [OF this]
  have "rbind (create_function (function_id v) ms) (\<lambda>f. returns f m) = Inr \<lparr> fu_fully_defined = True, fu_stream = \<lparr> ss_text = ?head @ bs, ss_failed = False \<rparr> \<rparr>"
    using assms(2) by (simp add: create_function_def returns_def run_on_def writes_run)
  then have "ebind (lift_res (rbind (create_function (function_id v) ms) (\<lambda>f. returns f m))) put_const_function =
      put_stream \<lparr> ss_text = ?head @ bs, ss_failed = False \<rparr>"
    by (simp add: put_const_function_def ebind_def lift_res_def eseq_def vm_assert_def check_def fun_eq_iff)
  with writes_stream [of "\<lparr> ss_text = ?head @ bs, ss_failed = False \<rparr>"] show ?thesis by simp
qed

lemma build_writes: "names_ok t \<Longrightarrow> writes (build t) (sig_text t)"
proof (induction t)
  case (Basic b)
  show ?case unfolding build.simps sig_text.simps by (rule writes_type_id) (cases b; simp add: basic_id_def)
next
  case (Wrapped w t)
  then show ?case unfolding build.simps sig_text.simps create_aggregate_def
    by (intro writes_created writes_seq writes_type_id) (simp_all add: wrapper_id_def split: wrapper.split)
next
  case (Tuple ts)
  then have "list_all2 writes (map build ts) (map sig_text ts)" by (auto simp: list_all2_conv_all_nth)
  from writes_create_nested [OF _ this, of TTuple] show ?case by (simp add: type_id_text_def begin_char_def end_char_def)
next
  case (Function v args r)
  then have "list_all2 writes (map build args) (map sig_text args)" "writes (build r) (sig_text r)" by (auto simp: list_all2_conv_all_nth)
  from writes_function [OF this, of v] show ?case by (cases v) (simp_all add: function_id_def type_id_text_def)
next
  case (Adt ms)
  have "writes (put_created (create_member n (build t))) (n @ [ch CHR '':''] @ sig_text t)" if "(n, t) \<in> set ms" for n t
    using Adt.prems that by (intro writes_create_member Adt.IH [OF that]) auto
  then have "list_all2 writes (map (\<lambda>(n, t). put_created (create_member n (build t))) ms) (map (\<lambda>(n, t). n @ ascii '':'' @ sig_text t) ms)"
    by (auto simp: list_all2_conv_all_nth split: prod.split dest: nth_mem)
  from writes_create_nested [OF _ this, of TAdt] show ?case by (simp add: type_id_text_def begin_char_def end_char_def)
next
  case (Module ms)
  have "writes (put_created (create_member n (build t))) (n @ [ch CHR '':''] @ sig_text t)" if "(n, t) \<in> set ms" for n t
    using Module.prems that by (intro writes_create_member Module.IH [OF that]) auto
  then have "list_all2 writes (map (\<lambda>(n, t). put_created (create_member n (build t))) ms) (map (\<lambda>(n, t). n @ ascii '':'' @ sig_text t) ms)"
    by (auto simp: list_all2_conv_all_nth split: prod.split dest: nth_mem)
  from writes_create_nested [OF _ this, of TModule] show ?case by (simp add: type_id_text_def begin_char_def end_char_def)
qed

section \<open>Signatures determine the types\<close>

lemma delimited_Cons: "delimited (t # ts) = t @ (if ts = [] then [] else ch sig_delim # delimited ts)"
  by (cases ts) simp_all

lemma delimited_prefix:
  assumes "\<And>t u xs ys. t \<in> set ts \<Longrightarrow> u \<in> U \<Longrightarrow> g t @ xs = g u @ ys \<Longrightarrow> t = u \<and> xs = ys"
    "\<And>t. t \<in> set ts \<union> U \<Longrightarrow> g t \<noteq> [] \<and> hd (g t) \<noteq> c" "c \<noteq> ch sig_delim"
    "set us \<subseteq> U" "delimited (map g ts) @ c # xs = delimited (map g us) @ c # ys"
  shows "ts = us \<and> xs = ys"
  using assms
proof (induction ts arbitrary: us)
  case Nil
  show ?case
  proof (cases us)
    case (Cons u us')
    then have "g u \<noteq> []" "hd (g u) \<noteq> c" using Nil.prems(2) [of u] Nil.prems(4) by auto
    with Nil.prems(5) Cons show ?thesis by (cases "g u") (simp_all add: delimited_Cons)
  qed (use Nil.prems(5) in simp)
next
  case (Cons t ts)
  have t: "g t \<noteq> []" "hd (g t) \<noteq> c" using Cons.prems(2) [of t] by auto
  show ?case
  proof (cases us)
    case Nil
    with t Cons.prems(5) show ?thesis by (cases "g t") (simp_all add: delimited_Cons)
  next
    case u: (Cons u us')
    let ?tail = "\<lambda>zs. if zs = [] then [] else ch sig_delim # delimited (map g zs)"
    have "g t @ (?tail ts @ c # xs) = g u @ (?tail us' @ c # ys)" using Cons.prems(5) u by (simp add: delimited_Cons)
    then have eq: "t = u" "?tail ts @ c # xs = ?tail us' @ c # ys"
      using Cons.prems(1) [of t u "?tail ts @ c # xs" "?tail us' @ c # ys"] Cons.prems(4) u by auto
    show ?thesis
    proof (cases "ts = [] \<or> us' = []")
      case True
      with eq Cons.prems(3) u show ?thesis by (auto split: if_splits)
    next
      case False
      with eq(2) have "delimited (map g ts) @ c # xs = delimited (map g us') @ c # ys" by simp
      then have "ts = us' \<and> xs = ys" using Cons.prems(1-4) u by (intro Cons.IH) auto
      with eq(1) u show ?thesis by simp
    qed
  qed
qed

definition leads :: "sig_type \<Rightarrow> char" where
  "leads t = (case t of Basic b \<Rightarrow> hd (type_id_text (basic_id b)) | Wrapped w _ \<Rightarrow> hd (type_id_text (wrapper_id w)) | Tuple _ \<Rightarrow> CHR ''t''
     | Function _ _ _ \<Rightarrow> CHR ''f'' | Adt _ \<Rightarrow> CHR ''a'' | Module _ \<Rightarrow> CHR ''m'')"

lemma sig_text_lead: "\<exists>bs. sig_text t = ch (leads t) # bs"
proof (cases t)
  case (Basic b)
  then show ?thesis by (cases b) (simp_all add: leads_def basic_id_def type_id_text_def)
next
  case (Wrapped w u)
  then show ?thesis by (cases w) (simp_all add: leads_def wrapper_id_def type_id_text_def)
qed (simp_all add: leads_def)

lemma ch_eq [simp]: "ch a = ch b \<longleftrightarrow> a = b"
proof
  have n: "unat (ch c) = of_char c" for c
  proof -
    have "ch c = (of_nat (of_char c) :: byte_t)" unfolding ch_def by (rule of_nat_of_char [symmetric])
    then have "unat (ch c) = of_char c mod 256" by (simp only: unat_of_nat take_bit_eq_mod) simp
    then show ?thesis by (simp only: of_char_mod_256)
  qed
  assume "ch a = ch b"
  then have "unat (ch a) = unat (ch b)" by (rule arg_cong)
  then have "(of_char a :: nat) = of_char b" by (simp only: n)
  then show "a = b" by (rule of_char_eqI)
qed simp

lemma sig_text_nonempty: "sig_text t \<noteq> [] \<and> hd (sig_text t) \<notin> {ch CHR '')'', ch CHR ''}'', ch sig_delim}"
proof -
  obtain bs where b: "sig_text t = ch (leads t) # bs" using sig_text_lead by blast
  have "leads t \<notin> {CHR '')'', CHR ''}'', sig_delim}"
  proof (cases t)
    case (Basic x)
    then show ?thesis by (cases x) (simp_all add: leads_def basic_id_def type_id_text_def sig_delim_def)
  next
    case (Wrapped w u)
    then show ?thesis by (cases w) (simp_all add: leads_def wrapper_id_def type_id_text_def sig_delim_def)
  qed (simp_all add: leads_def sig_delim_def)
  with b show ?thesis by simp
qed

lemma same_lead: "sig_text t @ xs = sig_text u @ ys \<Longrightarrow> leads t = leads u"
proof -
  assume e: "sig_text t @ xs = sig_text u @ ys"
  obtain bs cs where "sig_text t = ch (leads t) # bs" "sig_text u = ch (leads u) # cs" using sig_text_lead by blast
  with e show ?thesis by simp
qed

lemma lead_basic: "leads u = leads (Basic b) \<Longrightarrow> u = Basic b"
proof (cases u)
  case (Basic x)
  assume "leads u = leads (Basic b)"
  with Basic show ?thesis by (cases x; cases b) (simp_all add: leads_def basic_id_def type_id_text_def)
next
  case (Wrapped w v)
  assume "leads u = leads (Basic b)"
  with Wrapped show ?thesis by (cases w; cases b) (simp_all add: leads_def basic_id_def wrapper_id_def type_id_text_def)
qed (cases b; simp add: leads_def basic_id_def type_id_text_def)+

lemma lead_wrapped: "leads u = leads (Wrapped w t) \<Longrightarrow> \<exists>v. u = Wrapped w v"
proof (cases u)
  case (Basic x)
  assume "leads u = leads (Wrapped w t)"
  with Basic show ?thesis by (cases x; cases w) (simp_all add: leads_def basic_id_def wrapper_id_def type_id_text_def)
next
  case (Wrapped w' v)
  assume "leads u = leads (Wrapped w t)"
  with Wrapped show ?thesis by (cases w; cases w') (simp_all add: leads_def basic_id_def wrapper_id_def type_id_text_def)
qed (cases w; simp add: leads_def basic_id_def wrapper_id_def type_id_text_def)+

lemma lead_other:
  "leads u = CHR ''t'' \<Longrightarrow> \<exists>us. u = Tuple us" "leads u = CHR ''f'' \<Longrightarrow> \<exists>v us r. u = Function v us r"
  "leads u = CHR ''a'' \<Longrightarrow> \<exists>ms. u = Adt ms" "leads u = CHR ''m'' \<Longrightarrow> \<exists>ms. u = Module ms"
proof -
  have b: "leads (Basic x) \<notin> {CHR ''t'', CHR ''f'', CHR ''a'', CHR ''m''}" for x
    by (cases x) (simp_all add: leads_def basic_id_def type_id_text_def)
  have w: "leads (Wrapped x v) \<notin> {CHR ''t'', CHR ''f'', CHR ''a'', CHR ''m''}" for x v
    by (cases x) (simp_all add: leads_def wrapper_id_def type_id_text_def)
  have o: "leads (Tuple us) = CHR ''t''" "leads (Function f us r) = CHR ''f''" "leads (Adt ms) = CHR ''a''" "leads (Module ms) = CHR ''m''" for us f r ms
    by (simp_all add: leads_def)
  show "leads u = CHR ''t'' \<Longrightarrow> \<exists>us. u = Tuple us" "leads u = CHR ''f'' \<Longrightarrow> \<exists>v us r. u = Function v us r"
    "leads u = CHR ''a'' \<Longrightarrow> \<exists>ms. u = Adt ms" "leads u = CHR ''m'' \<Longrightarrow> \<exists>ms. u = Module ms"
    using b w o by (cases u; force)+
qed

lemma name_split:
  assumes "name_ok n" "name_ok n'" "n @ ch CHR '':'' # xs = n' @ ch CHR '':'' # ys"
  shows "n = n' \<and> xs = ys"
proof -
  have t: "takeWhile (\<lambda>b. b \<noteq> ch CHR '':'') (m @ ch CHR '':'' # zs) = m" if "name_ok m" for m zs
    using that by (subst takeWhile_append2) (auto simp: name_ok_def)
  have "n = n'" using t [OF assms(1), of xs] t [OF assms(2), of ys] assms(3) by simp
  with assms(3) show ?thesis by simp
qed

definition member_text :: "byte_t list \<times> sig_type \<Rightarrow> byte_t list" where "member_text m = fst m @ ch CHR '':'' # sig_text (snd m)"

lemma members_text: "(\<lambda>(n, t). n @ ch CHR '':'' # sig_text t) = member_text"
  by (simp add: member_text_def fun_eq_iff)

lemma member_nonempty: "name_ok (fst m) \<Longrightarrow> member_text m \<noteq> [] \<and> hd (member_text m) \<notin> {ch CHR '')'', ch CHR ''}'', ch sig_delim}"
  by (cases "fst m") (auto simp: member_text_def name_ok_def sig_delim_def)

lemma members_prefix:
  assumes "\<And>n t u xs ys. (n, t) \<in> set ms \<Longrightarrow> names_ok u \<Longrightarrow> sig_text t @ xs = sig_text u @ ys \<Longrightarrow> t = u \<and> xs = ys"
    "\<forall>(n, t) \<in> set ms. name_ok n \<and> names_ok t" "\<forall>(n, t) \<in> set ns. name_ok n \<and> names_ok t" "c = ch CHR '')'' \<or> c = ch CHR ''}''"
    "delimited (map member_text ms) @ c # xs = delimited (map member_text ns) @ c # ys"
  shows "ms = ns \<and> xs = ys"
proof (rule delimited_prefix [where U = "{m. name_ok (fst m) \<and> names_ok (snd m)}", OF _ _ _ _ assms(5)])
  show "m = m' \<and> xs = ys" if "m \<in> set ms" "m' \<in> {m. name_ok (fst m) \<and> names_ok (snd m)}" "member_text m @ xs = member_text m' @ ys" for m m' xs ys
  proof -
    have ok: "name_ok (fst m)" "name_ok (fst m')" "names_ok (snd m')" "(fst m, snd m) \<in> set ms" using that assms(2) by auto
    from name_split [OF ok(1,2)] that(3) have "fst m = fst m'" "sig_text (snd m) @ xs = sig_text (snd m') @ ys" by (auto simp: member_text_def)
    with assms(1) [OF ok(4,3)] show ?thesis by (simp add: prod_eq_iff)
  qed
  show "member_text m \<noteq> [] \<and> hd (member_text m) \<noteq> c" if "m \<in> set ms \<union> {m. name_ok (fst m) \<and> names_ok (snd m)}" for m
    using that assms(2,4) member_nonempty [of m] by auto
  show "c \<noteq> ch sig_delim" using assms(4) by (auto simp: sig_delim_def)
  show "set ns \<subseteq> {m. name_ok (fst m) \<and> names_ok (snd m)}" using assms(3) by auto
qed

lemma types_prefix:
  assumes "\<And>t u xs ys. t \<in> set ts \<Longrightarrow> names_ok u \<Longrightarrow> sig_text t @ xs = sig_text u @ ys \<Longrightarrow> t = u \<and> xs = ys" "\<forall>u \<in> set us. names_ok u"
    "delimited (map sig_text ts) @ ch CHR '')'' # xs = delimited (map sig_text us) @ ch CHR '')'' # ys"
  shows "ts = us \<and> xs = ys"
proof (rule delimited_prefix [where U = "{u. names_ok u}", OF _ _ _ _ assms(3)])
  show "t = u \<and> xs = ys" if "t \<in> set ts" "u \<in> {u. names_ok u}" "sig_text t @ xs = sig_text u @ ys" for t u xs ys
    using assms(1) [OF that(1) _ that(3)] that(2) by simp
  show "sig_text t \<noteq> [] \<and> hd (sig_text t) \<noteq> ch CHR '')''" for t using sig_text_nonempty [of t] by simp
  show "ch CHR '')'' \<noteq> ch sig_delim" by (simp add: sig_delim_def)
  show "set us \<subseteq> {u. names_ok u}" using assms(2) by auto
qed

lemma sig_text_prefix: "names_ok t \<Longrightarrow> names_ok u \<Longrightarrow> sig_text t @ xs = sig_text u @ ys \<Longrightarrow> t = u \<and> xs = ys"
proof (induction t arbitrary: u xs ys)
  case (Basic b)
  then have "u = Basic b" by (metis lead_basic same_lead)
  with Basic.prems show ?case by simp
next
  case (Wrapped w t)
  then obtain v where u: "u = Wrapped w v" by (metis lead_wrapped same_lead)
  with Wrapped.prems have "sig_text t @ xs = sig_text v @ ys" "names_ok t" "names_ok v" by auto
  with Wrapped.IH [of v xs ys] u show ?case by simp
next
  case (Tuple ts)
  have "leads u = CHR ''t''" using same_lead [OF Tuple.prems(3)] by (simp add: leads_def)
  from lead_other(1) [OF this] obtain us where u: "u = Tuple us" by (elim exE)
  have e: "delimited (map sig_text ts) @ ch CHR '')'' # xs = delimited (map sig_text us) @ ch CHR '')'' # ys" using Tuple.prems(3) u by simp
  have ih: "t = u \<and> xs = ys" if "t \<in> set ts" "names_ok u" "sig_text t @ xs = sig_text u @ ys" for t u xs ys
  proof -
    have "names_ok t" using Tuple.prems(1) that(1) by simp
    from Tuple.IH [OF that(1) this that(2,3)] show ?thesis .
  qed
  have "\<forall>u \<in> set us. names_ok u" using Tuple.prems(2) u by simp
  from types_prefix [OF ih this e] have "ts = us \<and> xs = ys" .
  with u show ?case by simp
next
  case (Function f ts r)
  have "leads u = CHR ''f''" using same_lead [OF Function.prems(3)] by (simp add: leads_def)
  from lead_other(2) [OF this] obtain f' us r' where u: "u = Function f' us r'" by (elim exE)
  have f: "f = f'" "delimited (map sig_text ts) @ ch CHR '')'' # (sig_text r @ xs) = delimited (map sig_text us) @ ch CHR '')'' # (sig_text r' @ ys)"
    using Function.prems(3) u by (auto split: if_splits)
  have ih: "t = u \<and> xs = ys" if "t \<in> set ts" "names_ok u" "sig_text t @ xs = sig_text u @ ys" for t u xs ys
  proof -
    have "names_ok t" using Function.prems(1) that(1) by simp
    from Function.IH(1) [OF that(1) this that(2,3)] show ?thesis .
  qed
  have "\<forall>u \<in> set us. names_ok u" using Function.prems(2) u by simp
  from types_prefix [OF ih this f(2)] have "ts = us \<and> sig_text r @ xs = sig_text r' @ ys" .
  with Function.IH(2) [of r' xs ys] Function.prems(1,2) u f(1) show ?case by simp
next
  case (Adt ms)
  have "leads u = CHR ''a''" using same_lead [OF Adt.prems(3)] by (simp add: leads_def)
  from lead_other(3) [OF this] obtain ns where u: "u = Adt ns" by (elim exE)
  have e: "delimited (map member_text ms) @ ch CHR '')'' # xs = delimited (map member_text ns) @ ch CHR '')'' # ys"
    using Adt.prems(3) u by (simp add: members_text)
  have ok: "\<forall>(n, t) \<in> set ms. name_ok n \<and> names_ok t" "\<forall>(n, t) \<in> set ns. name_ok n \<and> names_ok t" using Adt.prems(1,2) u by simp_all
  have ih: "t = u \<and> xs = ys" if "(n, t) \<in> set ms" "names_ok u" "sig_text t @ xs = sig_text u @ ys" for n t u xs ys
  proof -
    have "t \<in> Basic_BNFs.snds (n, t)" by (simp add: snds.simps)
    moreover have "names_ok t" using ok(1) that(1) by auto
    ultimately have m: "t \<in> Basic_BNFs.snds (n, t)" "names_ok t" by simp_all
    from Adt.IH [OF that(1) m that(2,3)] show ?thesis .
  qed
  from members_prefix [OF ih ok _ e] have "ms = ns \<and> xs = ys" by simp
  with u show ?case by simp
next
  case (Module ms)
  have "leads u = CHR ''m''" using same_lead [OF Module.prems(3)] by (simp add: leads_def)
  from lead_other(4) [OF this] obtain ns where u: "u = Module ns" by (elim exE)
  have e: "delimited (map member_text ms) @ ch CHR ''}'' # xs = delimited (map member_text ns) @ ch CHR ''}'' # ys"
    using Module.prems(3) u by (simp add: members_text)
  have ok: "\<forall>(n, t) \<in> set ms. name_ok n \<and> names_ok t" "\<forall>(n, t) \<in> set ns. name_ok n \<and> names_ok t" using Module.prems(1,2) u by simp_all
  have ih: "t = u \<and> xs = ys" if "(n, t) \<in> set ms" "names_ok u" "sig_text t @ xs = sig_text u @ ys" for n t u xs ys
  proof -
    have "t \<in> Basic_BNFs.snds (n, t)" by (simp add: snds.simps)
    moreover have "names_ok t" using ok(1) that(1) by auto
    ultimately have m: "t \<in> Basic_BNFs.snds (n, t)" "names_ok t" by simp_all
    from Module.IH [OF that(1) m that(2,3)] show ?thesis .
  qed
  from members_prefix [OF ih ok _ e] have "ms = ns \<and> xs = ys" by simp
  with u show ?case by simp
qed


section \<open>The entry point\<close>

definition entry_type :: sig_type where "entry_type = Function False [Wrapped WList (Basic BString)] (Basic BNone)"

lemma entry_text: "sig_text entry_type = ascii ''f(Ls)n''"
  by (simp add: entry_type_def wrapper_id_def basic_id_def type_id_text_def)


lemma compute_sig_digest:
  assumes "length garbage = 64" "length bs < 2 ^ 32"
  shows "compute_sig garbage bs = foldl (\<lambda>sig w. sig XOR w) 0 (md5_decode (md5_digest bs))"
  using digest_pieces [OF assms(1), of "[bs]"] assms(2) by (simp add: compute_sig_def)

lemma entry_bytes: "ascii ''f(Ls)n'' = [0x66, 0x28, 0x4c, 0x73, 0x29, 0x6e]"
  by (simp add: ch_def)

lemma entry_digest: "compute_sig (replicate 64 0) [0x66, 0x28, 0x4c, 0x73, 0x29, 0x6e] = 0x2e01144a"
  by code_simp

lemma entry_signature:
  assumes "length garbage = 64"
  shows "compute_sig garbage (ascii ''f(Ls)n'') = 0x2e01144a"
  unfolding entry_bytes using compute_sig_digest [OF assms, of "[0x66, 0x28, 0x4c, 0x73, 0x29, 0x6e]"]
    compute_sig_digest [of "replicate 64 0" "[0x66, 0x28, 0x4c, 0x73, 0x29, 0x6e]"] entry_digest by simp

end
