(* ===== verification/LauncherSpec.thy ===== *)
theory LauncherSpec
  imports Launcher TypeSignatureSpec MachineSpec
begin

text \<open>
  The command line: which arguments become those of the program, the coding of the instructions of
  the entry module, the signature it imports, and the heap invariant of a whole run.
\<close>

section \<open>Arguments\<close>

lemma process_arg_plain: "\<not> is_flag arg \<Longrightarrow> process_arg arg s =
   Inr (s\<lparr> la_options := (la_options s)\<lparr> eo_vm_args := eo_vm_args (la_options s) @ arg # la_rest s \<rparr>, la_rest := [] \<rparr>)"
  by (simp add: process_arg_def Let_def)

lemma process_args_done: "la_rest s = [] \<Longrightarrow> process_args s = Inr s"
  by (simp add: process_args.simps [of s])

lemma process_arg_flag:
  assumes "is_flag arg" "process_arg arg s = Inr s'"
  shows "eo_vm_args (la_options s') = eo_vm_args (la_options s) \<and> (\<exists>taken. la_rest s = taken @ la_rest s') \<and>
    (1 \<le> eo_sys_threads (la_options s) \<and> eo_sys_threads (la_options s) \<le> 4 \<longrightarrow> 1 \<le> eo_sys_threads (la_options s') \<and> eo_sys_threads (la_options s') \<le> 4)"
proof -
  have t: "set_threads s = Inr s' \<Longrightarrow> eo_vm_args (la_options s') = eo_vm_args (la_options s) \<and> (\<exists>taken. la_rest s = taken @ la_rest s') \<and>
      1 \<le> eo_sys_threads (la_options s') \<and> eo_sys_threads (la_options s') \<le> 4"
    by (cases "la_rest s") (auto simp: set_threads_def Let_def split: if_splits)
  show ?thesis using assms t by (auto simp: process_arg_def Let_def split: if_splits)
qed

lemma process_args_split:
  assumes "process_args s = Inr s'" "eo_vm_args (la_options s) = []" "1 \<le> eo_sys_threads (la_options s)" "eo_sys_threads (la_options s) \<le> 4"
  shows "\<exists>flags. la_rest s = flags @ eo_vm_args (la_options s') \<and> (eo_vm_args (la_options s') \<noteq> [] \<longrightarrow> \<not> is_flag (hd (eo_vm_args (la_options s')))) \<and>
    1 \<le> eo_sys_threads (la_options s') \<and> eo_sys_threads (la_options s') \<le> 4"
  using assms
proof (induction s rule: process_args.induct)
  case (1 s)
  show ?case
  proof (cases "la_rest s")
    case Nil
    with 1 show ?thesis by (simp add: process_args.simps [of s])
  next
    case (Cons arg rest)
    let ?s = "s\<lparr> la_rest := rest \<rparr>"
    obtain s1 where s1: "process_arg arg ?s = Inr s1" "process_args s1 = Inr s'"
      using 1(2) Cons by (auto simp: process_args.simps [of s] split: sum.splits)
    show ?thesis
    proof (cases "is_flag arg")
      case True
      note f = process_arg_flag [OF True s1(1)]
      from f obtain taken where taken: "rest = taken @ la_rest s1" by auto
      have "\<exists>flags. la_rest s1 = flags @ eo_vm_args (la_options s') \<and> (eo_vm_args (la_options s') \<noteq> [] \<longrightarrow> \<not> is_flag (hd (eo_vm_args (la_options s')))) \<and>
          1 \<le> eo_sys_threads (la_options s') \<and> eo_sys_threads (la_options s') \<le> 4"
        using f 1(3-5) by (intro 1(1) [OF Cons s1(1) s1(2)]) simp_all
      then obtain flags where "la_rest s1 = flags @ eo_vm_args (la_options s')" "eo_vm_args (la_options s') \<noteq> [] \<longrightarrow> \<not> is_flag (hd (eo_vm_args (la_options s')))"
          "1 \<le> eo_sys_threads (la_options s')" "eo_sys_threads (la_options s') \<le> 4" by blast
      with Cons taken show ?thesis by (intro exI [of _ "arg # taken @ flags"]) simp
    next
      case False
      with s1(1) have "s1 = ?s\<lparr> la_options := (la_options s)\<lparr> eo_vm_args := arg # rest \<rparr>, la_rest := [] \<rparr>"
        using process_arg_plain [OF False, of ?s] 1(3) by simp
      moreover from this have "s' = s1" using s1(2) process_args_done [of s1] by simp
      ultimately show ?thesis using False Cons 1(3-5) by simp
    qed
  qed
qed

definition start_launch :: "byte_t list list \<Rightarrow> launch" where
  "start_launch args = \<lparr> la_options = default_options, la_log = new_logger, la_rest = args \<rparr>"


lemma slash_run:
  "\<exists>s'. process_args (start_launch [ascii ''/dis/sh.dis'', ascii ''x'']) = Inr s' \<and> eo_vm_args (la_options s') = [ascii ''x''] \<and>
     eo_enabled_debugger (la_options s')"
proof -
  let ?s = "start_launch [ascii ''/dis/sh.dis'', ascii ''x'']"
  have f: "is_flag (ascii ''/dis/sh.dis'')" "\<not> is_flag (ascii ''x'')" by (simp_all add: is_flag_def)
  obtain s1 where s1: "process_arg (ascii ''/dis/sh.dis'') (?s\<lparr> la_rest := [ascii ''x''] \<rparr>) = Inr s1" "la_rest s1 = [ascii ''x'']"
      "eo_vm_args (la_options s1) = []" "eo_enabled_debugger (la_options s1)"
    using f(1) by (simp add: process_arg_def start_launch_def default_options_def)
  have "process_args ?s = process_args s1" using s1(1) by (subst process_args.simps) (simp add: start_launch_def)
  also have "\<dots> = process_args (s1\<lparr> la_options := (la_options s1)\<lparr> eo_vm_args := [ascii ''x''] \<rparr>, la_rest := [] \<rparr>)"
    unfolding process_args.simps [of s1] s1(2) list.case process_arg_plain [OF f(2)] by (simp add: s1(3) del: ascii_text)
  also have "\<dots> = Inr (s1\<lparr> la_options := (la_options s1)\<lparr> eo_vm_args := [ascii ''x''] \<rparr>, la_rest := [] \<rparr>)" by (rule process_args_done) simp
  finally show ?thesis using s1(4) by auto
qed


section \<open>The entry module\<close>

text \<open>the reader of modules decodes what the constructor of address codes encodes, for every
  combination of modes.\<close>

theorem address_code_roundtrip: "convert_to_address_mode (construct_address_code src mid dest) = (mid, src, dest)"
proof -
  have m: "code_middle (construct_address_code src mid dest) = mid"
    by (cases src; cases mid; cases dest; simp add: code_middle_def construct_address_code_def middle_code_def mode_code_def)
  have s: "code_mode (drop_bit 3 (construct_address_code src mid dest AND 0x38)) = src"
    by (cases src; cases mid; cases dest; simp add: code_mode_def construct_address_code_def middle_code_def mode_code_def)
  have d: "code_mode (construct_address_code src mid dest AND 0x07) = dest"
    by (cases src; cases mid; cases dest; simp add: code_mode_def construct_address_code_def middle_code_def mode_code_def)
  show ?thesis by (simp only: convert_to_address_mode_def m s d)
qed

text \<open>C26: the signature compiled in for the function that is called is the digest of its type,
  both as the type writes itself to a stream and as the text of the signature: the assertions of
  a debug build hold.\<close>

theorem init_signature_checked:
  assumes "length garbage = 64"
  shows "check_init_sig garbage c = (Inr (), c)"
proof -
  have n: "names_ok entry_type" by (simp add: entry_type_def)
  have a: "create_aggregate TList (put_type_id TString) = Inr \<lparr> ss_text = ascii ''Ls'', ss_failed = False \<rparr>"
    using built_writes [OF writes_seq [OF writes_type_id writes_type_id, of TList TString]]
    by (simp add: create_aggregate_def type_id_text_def)
  have "init_type = built (build entry_type)"
    unfolding init_type_def entry_type_def build.simps
    by (simp add: a put_created_def wrapper_id_def basic_id_def function_id_def ebind_def lift_res_def)
  also have "\<dots> = Inr \<lparr> ss_text = ascii ''f(Ls)n'', ss_failed = False \<rparr>"
    using built_writes [OF build_writes [OF n]] by (simp only: entry_text)
  finally have t: "init_type = Inr \<lparr> ss_text = ascii ''f(Ls)n'', ss_failed = False \<rparr>" .
  have "c_string (ascii ''f(Ls)n'') = ascii ''f(Ls)n''" unfolding entry_bytes by (simp add: c_string_def)
  with entry_signature [OF assms] show ?thesis unfolding check_init_sig_def t
    by (simp add: ebind_run eseq_def get_signature_hash_def get_signature_def compute_signature_hash_def exec_init_sig_def
      vm_assert_def check_def del: ascii_text)
qed

theorem init_signature_checked_witness: "check_init_sig (replicate 64 0xda) (sample_cpu move_add_exit) = (Inr (), sample_cpu move_add_exit)"
  by (rule init_signature_checked) simp

section \<open>The list of arguments\<close>

definition string_list :: "payload \<Rightarrow> bool" where
  "string_list d = (case d of ListObj l \<Rightarrow> ls_element_type l = td_string | _ \<Rightarrow> False)"

definition holds_list :: "nat \<Rightarrow> 'z heap_scheme \<Rightarrow> bool" where
  "holds_list p h \<longleftrightarrow> heap_inv h \<and> (case map_of (h_objs h) p of None \<Rightarrow> False | Some ob \<Rightarrow> string_list (ob_data ob))"

definition new_node :: "vm_list \<Rightarrow> bool" where "new_node l \<longleftrightarrow> ls_element_type l = td_string \<and> ls_tail l = 0"

lemma map_of_map_entry_if: "map_of (AList.map_entry k f xs) q = (if q = k then map_option f (map_of xs q) else map_of xs q)"
  by (induction xs) auto

lemma holds_set_obj: "(q = p \<Longrightarrow> string_list (ob_data ob)) \<Longrightarrow> keeps (holds_list p) (set_obj q ob)"
  using heap_inv_set_obj [of q ob]
  by (auto simp: keeps_def holds_list_def set_obj_def map_of_map_entry_if split: option.splits)

lemma holds_same_objs:
  assumes "keeps heap_inv m" "\<And>h. h_objs (snd (m h)) = h_objs h"
  shows "keeps (holds_list p) m"
  using assms by (simp add: keeps_def holds_list_def)

lemma holds_memory [keeps_intros]: "keeps (holds_list p) (store a bs)" "keeps (holds_list p) (obj_at q)"
  by (rule holds_same_objs; (rule keeps_intros)?; simp add: store_def obj_at_def split: option.split)+

lemma holds_new_object [keeps_intros]: "keeps (holds_list p) (new_object off n td pl)"
  unfolding keeps_def
proof (intro allI impI)
  fix h :: "'z heap_scheme" assume h: "holds_list p h"
  have "keeps heap_inv (new_object off n td pl :: ('z, nat) heff)" by (rule heap_inv_new_object)
  then have i: "heap_inv (snd (new_object off n td pl h))" using h by (simp add: keeps_def holds_list_def)
  show "holds_list p (snd (new_object off n td pl h))"
  proof (cases "reserve (sizeof_vm_alloc + off + n) h")
    case (Pair r h1)
    obtain ob where ob: "map_of (h_objs h) p = Some ob" "string_list (ob_data ob)" using h by (auto simp: holds_list_def split: option.splits)
    then have "p \<in> fst ` set (h_objs h)" by (metis map_of_eq_None_iff option.distinct(1))
    then have lt: "p < h_brk h" using h by (auto simp: holds_list_def heap_inv_def)
    have o: "h_objs h1 = h_objs h" "\<forall>a. r = Inr a \<longrightarrow> a = h_brk h" using Pair by (auto simp: reserve_def Let_def split: if_splits)
    have "map_of (h_objs (snd (new_object off n td pl h))) p = Some ob"
      using ob(1) o lt Pair by (cases r) (simp_all add: new_object_def ebind_run eseq_def Let_def)
    with i ob(2) show ?thesis by (simp add: holds_list_def)
  qed
qed

lemma holds_refs [keeps_intros]: "keeps (holds_list p) (add_ref q :: ('z, unit) heff)" "keeps (holds_list p) (release q :: ('z, nat) heff)"
proof -
  have "holds_list p (snd (add_ref q h)) \<and> holds_list p (snd (release q h))" if h: "holds_list p h" for h :: "'z heap_scheme"
  proof (cases "map_of (h_objs h) q")
    case None
    with h show ?thesis by (simp add: add_ref_def release_def obj_at_def ebind_run)
  next
    case (Some ob)
    have "string_list (ob_data ob)" if "q = p" using h Some that by (simp add: holds_list_def)
    then have "keeps (holds_list p) (set_obj q (ob\<lparr> ob_refs := n \<rparr>) :: ('z, unit) heff)" for n
      by (intro holds_set_obj) simp
    with h have "holds_list p (snd (set_obj q (ob\<lparr> ob_refs := n \<rparr>) h))" for n by (simp add: keeps_def)
    with h Some show ?thesis
      by (simp add: add_ref_def release_def obj_at_def ebind_run eseq_def vm_assert_def check_def set_obj_def)
  qed
  then show "keeps (holds_list p) (add_ref q :: ('z, unit) heff)" "keeps (holds_list p) (release q :: ('z, nat) heff)"
    unfolding keeps_def by blast+
qed

lemma holds_set_tail:
  assumes "new_node l"
  shows "keeps (holds_list p) (set_tail q l t)"
proof -
  have d: "dec_ref_count_and_free 0 = eret ()" by (simp add: dec_ref_count_and_free_def fun_eq_iff)
  have s: "keeps (holds_list p) (set_obj q (ob\<lparr> ob_data := ListObj (l\<lparr> ls_tail := t \<rparr>) \<rparr>))" for ob
    using assms by (intro holds_set_obj) (simp add: string_list_def new_node_def)
  have "ls_tail l = 0" using assms by (simp add: new_node_def)
  then show ?thesis unfolding set_tail_def Let_def by (simp only: d) (intro keeps_intros s)
qed

lemma new_node_list:
  fixes h :: "'z heap_scheme"
  assumes "new_list td_string 0 h = (r, h')"
  shows "(case r of Inl _ \<Rightarrow> True | Inr (q, l) \<Rightarrow> new_node l) \<and> (holds_list p h \<longrightarrow> holds_list p h') \<and>
    (heap_inv h \<longrightarrow> (case r of Inl _ \<Rightarrow> True | Inr (q, l) \<Rightarrow> holds_list q h'))"
proof -
  let ?l = "\<lambda>q. \<lparr> ls_element_type = td_string, ls_tail = 0, ls_value = q + 16 \<rparr>"
  obtain x h1 where x: "new_object 16 8 td_list (\<lambda>q. ListObj (?l q)) h = (x, h1)" by (rule prod.exhaust)
  have d: "dec_ref_count_and_free 0 = (eret () :: ('z, unit) heff)" by (simp add: dec_ref_count_and_free_def fun_eq_iff)
  have a: "\<not> list_is_alloc td_string" by (simp add: list_is_alloc_def td_defs)
  have kh: "keeps heap_inv (new_object 16 8 td_list (\<lambda>q. ListObj (?l q)) :: ('z, nat) heff)" by (rule heap_inv_new_object)
  have kp: "keeps (holds_list p) (new_object 16 8 td_list (\<lambda>q. ListObj (?l q)) :: ('z, nat) heff)" by (rule holds_new_object)
  show ?thesis
  proof (cases x)
    case (Inl e)
    with assms x have "r = Inl e" "h' = h1" by (simp_all add: new_list_def ebind_run)
    with kp x show ?thesis unfolding keeps_def by (metis (no_types, lifting) old.sum.simps(5) snd_conv)
  next
    case (Inr q)
    obtain hr where "h_objs h1 = (q, \<lparr> ob_refs = 1, ob_type = td_list, ob_gc = 0, ob_data = ListObj (?l q) \<rparr>) # hr"
      using x Inr by (auto simp: new_object_def ebind_run eseq_def Let_def split: prod.splits sum.splits)
    then have ob: "map_of (h_objs h1) q = Some \<lparr> ob_refs = 1, ob_type = td_list, ob_gc = 0, ob_data = ListObj (?l q) \<rparr>" by simp
    have t: "set_tail q (?l q) 0 h1 = (Inr (?l q), snd (set_obj q \<lparr> ob_refs = 1, ob_type = td_list, ob_gc = 0, ob_data = ListObj (?l q) \<rparr> h1))"
      using ob by (simp add: set_tail_def Let_def obj_at_def ebind_run eseq_def d set_obj_def)
    have r: "r = Inr (q, ?l q)" "h' = snd (set_obj q \<lparr> ob_refs = 1, ob_type = td_list, ob_gc = 0, ob_data = ListObj (?l q) \<rparr> h1)"
      using assms x Inr t a by (simp_all add: new_list_def ebind_run construct_def catch_def)
    have s: "keeps (holds_list k) (set_obj q \<lparr> ob_refs = 1, ob_type = td_list, ob_gc = 0, ob_data = ListObj (?l q) \<rparr> :: ('z, unit) heff)" for k
      by (rule holds_set_obj) (simp add: string_list_def)
    have "holds_list q h1" if "heap_inv h"
      using kh x ob that by (simp add: keeps_def holds_list_def string_list_def) (metis snd_conv)
    moreover have "holds_list p h1" if "holds_list p h" using kp x that by (simp add: keeps_def) (metis snd_conv)
    ultimately show ?thesis using r s by (simp add: new_node_def keeps_def)
  qed
qed

lemma holds_store [keeps_intros]: "keeps (holds_list p) (set_pt_ref a q)"
  unfolding set_pt_ref_def put32_def vt_store_def by (intro keeps_intros)

lemma holds_string [keeps_intros]: "keeps (holds_list p) (new_string_utf8 bs)"
  unfolding new_string_utf8_def new_string_def by (intro keeps_intros)

definition next_node :: "nat \<Rightarrow> nat \<Rightarrow> nat \<times> vm_list \<Rightarrow> (nat \<times> nat \<times> vm_list) exec" where
  "next_node path curr_arg l = (if path = 0 then eret (curr_arg, l)
     else ebind (new_list td_string 0) (\<lambda>new_tail. ebind (set_tail (fst l) (snd l) (fst new_tail)) (\<lambda>_.
       ebind (release (fst new_tail)) (\<lambda>_. eret (path, new_tail)))))"

lemma append_args_next: "append_args (a # as) path l = ebind (new_string_utf8 a) (\<lambda>curr_arg. ebind (next_node path curr_arg l) (\<lambda>(path', last).
    eseq (set_pt_ref (ls_value (snd last)) curr_arg) (append_args as path' last)))"
  by (simp add: next_node_def)

lemma next_node_holds:
  assumes "new_node (snd l)" "holds_list p c" "next_node path here l c = (r, c')"
  shows "holds_list p c' \<and> (case r of Inl _ \<Rightarrow> True | Inr (_, nd) \<Rightarrow> new_node (snd nd))"
proof (cases "path = 0")
  case True
  with assms show ?thesis by (auto simp: next_node_def)
next
  case False
  obtain x c1 where x: "new_list td_string 0 c = (x, c1)" by (rule prod.exhaust)
  from new_node_list [OF x, of p] assms(2) have c1: "holds_list p c1" "case x of Inl _ \<Rightarrow> True | Inr (q, l) \<Rightarrow> new_node l" by simp_all
  show ?thesis
  proof (cases x)
    case (Inl e)
    with False assms(3) x c1 show ?thesis by (auto simp: next_node_def ebind_run)
  next
    case (Inr t)
    obtain q n where t: "t = (q, n)" by (rule prod.exhaust)
    let ?rest = "ebind (set_tail (fst l) (snd l) q) (\<lambda>_. ebind (release q) (\<lambda>_. eret (path, t)))"
    have rest: "?rest c1 = (r, c')" using False assms(3) x Inr t by (simp add: next_node_def ebind_run)
    have "keeps (holds_list p) ?rest" by (intro keeps_intros holds_set_tail assms(1))
    from keepsD [OF this c1(1) rest] have "holds_list p c'" .
    moreover have "r = Inl e \<or> r = Inr (path, t)" if "r = Inl e \<or> (\<exists>v. r = Inr v)" for e
      using rest that by (auto simp: ebind_run split: prod.splits sum.splits)
    then have "case r of Inl _ \<Rightarrow> True | Inr (_, nd) \<Rightarrow> nd = t" by (cases r) auto
    ultimately show ?thesis using c1(2) Inr t by (auto split: sum.splits)
  qed
qed

lemma append_args_holds:
  assumes "new_node (snd l)" "holds_list p c" "append_args as path l c = (r, c')"
  shows "holds_list p c'"
  using assms
proof (induction as arbitrary: path l c)
  case (Cons a as)
  obtain x c1 where x: "new_string_utf8 a c = (x, c1)" by (rule prod.exhaust)
  have c1: "holds_list p c1" by (rule keepsD [OF holds_string Cons.prems(2) x])
  show ?case
  proof (cases x)
    case (Inl e)
    with Cons.prems(3) x c1 show ?thesis unfolding append_args_next by (simp add: ebind_run del: append_args.simps)
  next
    case (Inr here)
    obtain y c2 where y: "next_node path here l c1 = (y, c2)" by (rule prod.exhaust)
    note n = next_node_holds [OF Cons.prems(1) c1 y]
    show ?thesis
    proof (cases y)
      case (Inl e)
      with Cons.prems(3) x Inr y n show ?thesis unfolding append_args_next by (simp add: ebind_run del: append_args.simps)
    next
      case y': (Inr v)
      obtain path' last where v: "v = (path', last)" by (rule prod.exhaust)
      obtain z c3 where z: "set_pt_ref (ls_value (snd last)) here c2 = (z, c3)" by (rule prod.exhaust)
      have c3: "holds_list p c3" using n by (intro keepsD [OF holds_store _ z]) simp
      have "(case z of Inl e \<Rightarrow> (Inl e, c3) | Inr _ \<Rightarrow> append_args as path' last c3) = (r, c')"
        using Cons.prems(3) x Inr y y' v z unfolding append_args_next by (simp add: ebind_run eseq_def del: append_args.simps)
      with c3 n Cons.IH [of last c3 path'] y' v show ?thesis by (cases z) auto
    qed
  qed
qed simp

text \<open>C28: the list of arguments has the strings' own type as the type of its elements, not that of
  pointers, which the instruction that adds a string at the front of a list uses: adding one to
  the list of arguments always violates the type, when there is memory for it.\<close>

theorem arguments_reject_cons:
  assumes "heap_inv c" "new_list td_string 0 c = (Inr (mod_args, l), c1)" "append_args as 0 (mod_args, l) c1 = (r, c2)"
    "(h_brk c2 + 44) div 8 * 8 + 8 < address_limit"
  shows "fst (new_list td_pointer mod_args c2) = Inl TypeViolation"
proof -
  from new_node_list [OF assms(2)] assms(1) have n: "new_node l" "holds_list mod_args c1" by simp_all
  have c2: "holds_list mod_args c2" using n by (intro append_args_holds [OF _ _ assms(3)]) simp_all
  then obtain ob t where ob: "map_of (h_objs c2) mod_args = Some ob" "ob_data ob = ListObj t" "ls_element_type t = td_string"
    by (auto simp: holds_list_def string_list_def split: option.splits payload.splits)
  then have "mod_args \<in> fst ` set (h_objs c2)" by (metis map_of_eq_None_iff option.distinct(1))
  then have lt: "0 < mod_args" "mod_args < h_brk c2" using c2 by (auto simp: holds_list_def heap_inv_def)
  have ne: "\<not> type_is_equal td_string (Some td_pointer)" by (simp add: type_is_equal_def td_defs)
  show ?thesis
    using lt ob ne assms(4)
    by (simp add: new_list_def new_object_def reserve_def Let_def ebind_run eseq_def construct_def catch_def set_tail_def obj_at_def
      check_def discard_obj_def sizeof_vm_alloc_def)
qed

theorem arguments_reject_cons_witness:
  "\<exists>mod_args l c1. new_list td_string 0 (sample_cpu move_add_exit) = (Inr (mod_args, l), c1) \<and> fst (new_list td_pointer mod_args c1) = Inl TypeViolation"
proof -
  let ?c = "sample_cpu move_add_exit"
  have "\<exists>v. fst (new_list td_string 0 ?c) = Inr v \<and> h_brk (snd (new_list td_string 0 ?c)) < 2 ^ 20"
    by (simp add: new_list_def new_object_def reserve_def Let_def ebind_run eseq_def construct_def catch_def set_tail_def obj_at_def set_obj_def
      sizeof_vm_alloc_def sample_cpu_def address_limit_def list_is_alloc_def td_defs dec_ref_count_and_free_def)
  then obtain p l c1 where n: "new_list td_string 0 ?c = (Inr (p, l), c1)" "h_brk c1 < 2 ^ 20" by (cases "new_list td_string 0 ?c") auto
  have "append_args [] 0 (p, l) c1 = (Inr 0, c1)" by simp
  from arguments_reject_cons [OF sample_heap_inv n(1) this] n show ?thesis by (auto simp: address_limit_def)
qed

section \<open>A whole run\<close>

lemma inv_exec_module: "env_keeps heap_inv E \<Longrightarrow> keeps heap_inv (exec_module E m)"
  unfolding exec_module_def create_thread_safe_def new_module_ref_def schedule_thread_def scheduler_add_def
  by (intro keeps_intros)

lemma inv_place_code [keeps_intros]: "keeps heap_inv (place_code is a)"
  by (induction "is" arbitrary: a) (simp_all only: place_code.simps, (intro keeps_intros | assumption)+)

lemma inv_append_args [keeps_intros]: "keeps heap_inv (append_args as path l)"
  by (induction as arbitrary: path l) (simp_all only: append_args.simps, (intro keeps_intros | assumption)+)

lemma inv_check_sig [keeps_intros]: "keeps heap_inv (check_init_sig garbage)"
  unfolding check_init_sig_def by (intro keeps_intros)

lemma inv_module_path_text [keeps_intros]: "keeps heap_inv (module_path_text p)"
  unfolding module_path_text_def by (intro keeps_intros keeps_payload)

lemma inv_create_entry:
  assumes "env_keeps heap_inv E" "\<forall>r \<in> set rs. \<forall>p. keeps heap_inv (r p)"
  shows "keeps heap_inv (create_entry_module E rs garbage args)"
  unfolding create_entry_module_def by (intro keeps_intros heap_inv_load_module [OF assms])

lemma inv_spin:
  assumes "keeps heap_inv sleep"
  shows "keeps heap_inv (spin_sleep_till_idle n sleep)"
  by (induction n) (simp_all only: spin_sleep_till_idle.simps, (intro keeps_intros assms | assumption)+)

lemma inv_run_entry:
  assumes "env_keeps heap_inv E" "\<forall>r \<in> set rs. \<forall>p. keeps heap_inv (r p)" "keeps heap_inv (lh_sleep L)"
  shows "keeps heap_inv (run_entry L E rs opt)"
proof -
  have h: "keeps heap_inv (case e of SystemException m \<Rightarrow> eret (t m, ExitFailure) | ModuleException m \<Rightarrow> eret (t m, ExitFailure) | _ \<Rightarrow> throw e)" for t e
    by (cases e) (simp_all add: keeps_basic)
  show ?thesis unfolding run_entry_def
    by (intro keeps_intros inv_create_entry [OF assms(1,2)] inv_exec_module [OF assms(1)] inv_spin [OF assms(3)] h)
qed



end
