(* ===== verification/Spec2Isabelle.thy ===== *)
theory Spec2Isabelle
  imports ExecInvariant ExecSpec ControlSpec ModuleReaderEnd SchedulerSpec VmSpec SysSpec MachineSpec SymbolSpec DebuggerSpec LauncherSpec
begin

text \<open>
  disvm is a virtual machine for the Dis instruction set of Inferno, written in C++: a module is
  read from a file, its threads are interpreted on reference counted and garbage collected
  memory by a pool of workers, and two modules, \<^verbatim>\<open>$Sys\<close> and \<^verbatim>\<open>$Math\<close>, are native code. A command line
  program builds the machine around the module it is given, and a debugger can be attached to it.
  The sources are under \<^verbatim>\<open>src/src\<close>: the machine in \<^verbatim>\<open>vm\<close>, the readers of symbol files, the text of
  instructions and the signatures of types in \<^verbatim>\<open>asm\<close>, the program and its debugger in \<^verbatim>\<open>exec\<close>, and
  the declarations in \<^verbatim>\<open>include\<close>. This development models them function by function, under the
  names they have in the source, and proves what makes them correct; where the code is not
  correct, the theorem says what it does.

  \<^bold>\<open>The parts and their theories.\<close>
  \<^item> Shared: \<^verbatim>\<open>Prelude\<close> has the widths of the machine types, the exceptions and results,
    \<^verbatim>\<open>Buffers\<close> raw buffers and the coding of words as bytes, \<^verbatim>\<open>Effects\<close> computations with state
    and exceptions and the invariants they keep, \<^verbatim>\<open>Outcomes\<close> statements about what they return
    and throw.
  \<^item> Text: \<^verbatim>\<open>Utf8\<close> is \<^verbatim>\<open>vm/utf8.cpp\<close>; \<^verbatim>\<open>VmString\<close> is \<^verbatim>\<open>vm/string.cpp\<close>, strings whose characters
    have one, two or four bytes and which are mutable and shared.
  \<^item> Memory: \<^verbatim>\<open>TypeDesc\<close> (the type descriptors of \<^verbatim>\<open>vm_memory.cpp\<close>) and \<^verbatim>\<open>Heap\<close>
    (\<^verbatim>\<open>vm_memory.cpp\<close>, \<^verbatim>\<open>array.cpp\<close>, \<^verbatim>\<open>list.cpp\<close>); \<^verbatim>\<open>Stack\<close> (\<^verbatim>\<open>stack.cpp\<close>); \<^verbatim>\<open>Channel\<close>
    (\<^verbatim>\<open>channel.cpp\<close>) and \<^verbatim>\<open>Transfers\<close>, the typed moves the channels are instantiated with.
  \<^item> Modules: \<^verbatim>\<open>Opcodes\<close> (\<^verbatim>\<open>opcodes.hpp\<close>, \<^verbatim>\<open>opcode_tokens.cpp\<close>), \<^verbatim>\<open>Modules\<close> (the data of
    \<^verbatim>\<open>runtime.hpp\<close>), \<^verbatim>\<open>ModuleRef\<close> (\<^verbatim>\<open>module_ref.cpp\<close>), \<^verbatim>\<open>BufferedReader\<close>
    (\<^verbatim>\<open>buffered_reader.hpp\<close>), \<^verbatim>\<open>ModuleReader\<close> (\<^verbatim>\<open>module_reader.cpp\<close>) with \<^verbatim>\<open>ModuleReaderSpec\<close>,
    \<^verbatim>\<open>ModuleReaderInv\<close> and \<^verbatim>\<open>ModuleReaderEnd\<close>.
  \<^item> Execution: \<^verbatim>\<open>Machine\<close> is the state; \<^verbatim>\<open>ExecValue\<close>, \<^verbatim>\<open>ExecBranch\<close>, \<^verbatim>\<open>ExecString\<close>,
    \<^verbatim>\<open>ExecHeap\<close>, \<^verbatim>\<open>ExecChannel\<close> and \<^verbatim>\<open>ExecControl\<close> hold the instructions of
    \<^verbatim>\<open>execution_table.cpp\<close> and the search for handlers of \<^verbatim>\<open>vm_exception_handler.cpp\<close>;
    \<^verbatim>\<open>Decode\<close> is \<^verbatim>\<open>address_decoding.inc\<close>; \<^verbatim>\<open>Interpreter\<close> the table of instructions and the loop
    of \<^verbatim>\<open>thread.cpp\<close>. \<^verbatim>\<open>ExecInvariant\<close>, \<^verbatim>\<open>ExecSpec\<close> and \<^verbatim>\<open>ControlSpec\<close> have their theorems, and
    \<^verbatim>\<open>Sample\<close> the concrete machine of the witnesses.
  \<^item> Threads: \<^verbatim>\<open>Collector\<close> (\<^verbatim>\<open>garbage_collector.cpp\<close>), \<^verbatim>\<open>Scheduler\<close> (\<^verbatim>\<open>scheduler.cpp\<close>),
    \<^verbatim>\<open>ToolDispatch\<close> (\<^verbatim>\<open>tool_dispatch.cpp\<close>, \<^verbatim>\<open>vm_tools.hpp\<close>) and \<^verbatim>\<open>VmCore\<close> (\<^verbatim>\<open>vm.cpp\<close>,
    \<^verbatim>\<open>module_resolver.cpp\<close>, \<^verbatim>\<open>builtin_module.cpp\<close>), with \<^verbatim>\<open>CollectorSpec\<close>, \<^verbatim>\<open>SchedulerSpec\<close>,
    \<^verbatim>\<open>ToolSpec\<close> and \<^verbatim>\<open>VmSpec\<close>.
  \<^item> Native modules: \<^verbatim>\<open>FileDescriptors\<close> (\<^verbatim>\<open>sys/fd_manager.cpp\<close>, \<^verbatim>\<open>sys/fd_types.cpp\<close>), \<^verbatim>\<open>Print\<close>
    (\<^verbatim>\<open>sys/print.cpp\<close>), \<^verbatim>\<open>Sysmod\<close> (\<^verbatim>\<open>sys/Sysmod.cpp\<close>) and \<^verbatim>\<open>Mathmod\<close> (\<^verbatim>\<open>math/Mathmod.cpp\<close>,
    \<^verbatim>\<open>math/dgemm.c\<close>, \<^verbatim>\<open>math/lsame.c\<close>), with \<^verbatim>\<open>SysSpec\<close>, \<^verbatim>\<open>MathSpec\<close> and \<^verbatim>\<open>MachineSpec\<close>.
  \<^item> Assembly: \<^verbatim>\<open>SymbolReader\<close> and \<^verbatim>\<open>SymbolData\<close> (\<^verbatim>\<open>asm/sbl_reader.cpp\<close>), \<^verbatim>\<open>Md5\<close>
    (\<^verbatim>\<open>asm/rfc1321/md5c.c\<close>) and \<^verbatim>\<open>TypeSignature\<close> (\<^verbatim>\<open>asm/type_signature.cpp\<close>,
    \<^verbatim>\<open>vm_asm_sigkind.hpp\<close>), with \<^verbatim>\<open>SymbolSpec\<close>, \<^verbatim>\<open>Md5Spec\<close> and \<^verbatim>\<open>TypeSignatureSpec\<close>.
  \<^item> Programs: \<^verbatim>\<open>Debugger\<close> (\<^verbatim>\<open>exec/debugger.cpp\<close>, \<^verbatim>\<open>asm/print_to_stream.cpp\<close>) and \<^verbatim>\<open>Launcher\<close>
    (\<^verbatim>\<open>exec/main.cpp\<close>, \<^verbatim>\<open>vm/debug.cpp\<close>), with \<^verbatim>\<open>DebuggerSpec\<close> and \<^verbatim>\<open>LauncherSpec\<close>.

  \<^bold>\<open>State and operations.\<close> The state grows by record extension as the parts of the machine are
  put together: \<open>heap\<close> is the memory, the table of live objects, the modules and the acts that
  destructors leave to the host; \<open>world\<close> adds what the threads share, that is the collector's
  list, the scheduler's queues, the tools, the loaded modules and the file descriptors; \<open>cpu\<close>
  adds the registers of the thread that runs. An operation of the source is a computation on
  the smallest of these states, so that the heap's operations run unchanged inside the
  scheduler's. A thrown exception keeps what was done before it. Addresses are below $2^{32}$:
  pointers, \<^verbatim>\<open>long\<close> and \<^verbatim>\<open>size_t\<close> have 32 bits, as the operands of the machine assume. Words and
  bigs are \<open>32 word\<close> and \<open>64 word\<close>; a real is the bit pattern of a double. An access outside a
  live block, or to a dead object, is the error \<open>Undefined\<close>; an assertion of a debug build is
  the error \<open>AssertFailed\<close>, so a theorem about the code's outcome also says where they can fail.

  \<^bold>\<open>How the parts meet.\<close> The interpreter is a function of an environment \<open>env\<close>: the
  instruction table calls tools, the loader of modules and the native functions through it.
  \<^verbatim>\<open>VmCore\<close>, \<^verbatim>\<open>ToolDispatch\<close>, \<^verbatim>\<open>Sysmod\<close> and \<^verbatim>\<open>Mathmod\<close> provide the functions for it, and
  \<^verbatim>\<open>MachineSpec\<close> puts them together. The locale \<open>codec\<close> is the contract between memory and
  the codings of words, \<open>cells\<close> that between a channel and the moves it is used with; both
  are interpreted on the definitions of the model, for bytes, words and bigs. The
  scheduler is a transition system in which a step is one critical section of its code by one of
  any number of workers; tools are a transition system over what they set and clear.

  \<^bold>\<open>What the lemmas show.\<close> Memory: every operation of the heap, every instruction, the
  loader, the native functions, the tools and the whole program keep \<open>heap_inv\<close> on every
  outcome: objects have distinct addresses, blocks lie inside the memory handed out, and the
  allocator stays aligned. Releasing a reference ends. Strings behave as lists of code points,
  UTF-8 as its definition, channels as queues. The reader refines a list of bytes; a module it
  returns is well formed, and it ends on every file. The handler of an exception is the first
  of the innermost frame that has one. A thread is in one place and is not overtaken; a
  collection stops the world and keeps what marking reaches. Breakpoints agree with the code,
  can be cleared and are transparent, also under the debugger's commands. The table of file
  descriptors hands out the lowest free number. The functions of a symbol file divide its program
  counters. The digest is that of RFC 1321, signatures determine types, and the signature that
  is compiled into the entry module is the digest of its type. Other theorems state
  what the code does against its intention: short matrices are written behind, a printed text can
  be read past its buffer, a finalized descriptor dangles, an exception in the prompt leaves
  all threads suspended, a prompt without input never ends, a path with a leading slash is a flag, and a
  list of arguments takes no further string.

  \<^bold>\<open>Bounds and fuel.\<close> Loops are structural recursions, or take fuel that is computed from the
  state and proved or seen to be enough: releasing a reference uses one unit for each reference
  that is held (\<^verbatim>\<open>Heap\<close>), marking one for each root and a bound on
  the pointers that objects can push (\<^verbatim>\<open>CollectorSpec\<close>),
  the walks over frames one for each frame type on record, a list one for each object, the
  items of a module's data one for each byte left (\<^verbatim>\<open>ModuleReaderEnd\<close>), a type of a
  symbol file one for each level of its nesting, which costs a byte
  (\<^verbatim>\<open>SymbolSpec\<close>). Loops that wait for another thread or for the host take their fuel
  as a parameter: \<^verbatim>\<open>stream\<close> and growing buffers in \<^verbatim>\<open>Sysmod\<close>, waiting for suspended threads in the
  debugger, and the wait for an idle machine in the program. Running out is the error
  \<open>OutOfFuel\<close>, never a result. The digest is proved for messages below $2^{32}$ bytes.

  \<^bold>\<open>Parameters.\<close> Code that is not in the repository is an argument: arithmetic and printing
  of reals, the C mathematical library and the floating point environment, the random choice of
  \<^verbatim>\<open>alt\<close>, files, directories and streams of the host, the C formatter, the callbacks of tools, the
  console, the construction of the machine by the program, and the bytes of an uninitialised
  buffer. Theorems about the heap assume that these leave memory as it is or keep its invariant.
  Each witness instantiates them.

  \<^bold>\<open>Abstractions.\<close> Unordered containers are lists in the order of insertion. A block is never
  handed out twice, so that a use after free is always an access to a dead address. What a
  destructor does to the host is recorded and done after the native function that set it off. A
  locked region is atomic. The code of the entry module is not given back when it dies, for its
  header announces no code. The text of log messages is not built, only where it goes.

  \<^bold>\<open>Not modelled:\<close> the collector that does nothing, declarations and generated frame layouts of the
  native modules (the natives name the offsets they use), threads and locks of the host and their
  memory model, build files, and the Limbo sources, which are programs of the machine.
\<close>

end
